(* ===== verification/Pb_Prelude.thy ===== *)
theory Pb_Prelude
  imports Main "HOL-Library.Word" "HOL-Library.Product_Lexorder"
begin

section \<open>Prelude: machine integers, byte order, sorted slices\<close>

text \<open>
  What the components share. Rust integers are words of their width; the release profile of
  the workspace keeps overflow checks off, so plain arithmetic on them wraps as \<open>+\<close> and \<open>-\<close>
  do here, and \<open>saturating_*\<close> and \<open>checked_*\<close> are the definitions below. Lengths and array
  indices (\<open>usize\<close>) are \<open>nat\<close>, each bounded by the array it indexes.
  \<open>Result<T, E>\<close> is \<open>E + T\<close> with \<open>Inl\<close> for \<open>Err\<close>. The slice methods \<open>binary_search\<close>,
  \<open>partition_point\<close>, \<open>sort_unstable\<close> and \<open>dedup\<close> are stated by their documented meaning on
  (strictly) sorted slices; every use in the components is on a slice proved sorted.
\<close>

unbundle bit_operations_syntax

named_theorems pb_inv \<open>introduction facts for component invariants\<close>
named_theorems pb_simps \<open>unfolding facts of small operations\<close>

type_synonym u8 = "8 word"
type_synonym u16 = "16 word"
type_synonym u32 = "32 word"
type_synonym u64 = "64 word"
type_synonym bytes = "u8 list"

subsection \<open>Rust integer arithmetic\<close>

definition sat_add :: "'a::len word \<Rightarrow> 'a word \<Rightarrow> 'a word" where
  "sat_add a b = (if unat a + unat b < 2 ^ LENGTH('a) then a + b else - 1)"

definition sat_sub :: "'a::len word \<Rightarrow> 'a word \<Rightarrow> 'a word" where
  "sat_sub a b = (if a \<le> b then 0 else a - b)"

definition checked_add :: "'a::len word \<Rightarrow> 'a word \<Rightarrow> 'a word option" where
  "checked_add a b = (if unat a + unat b < 2 ^ LENGTH('a) then Some (a + b) else None)"

lemma unat_bound: "unat (a :: 'a::len word) < 2 ^ LENGTH('a)"
  by (rule unsigned_less)

lemma unat_max_word: "unat (- 1 :: 'a::len word) = 2 ^ LENGTH('a) - 1"
  by (simp add: unsigned_minus_1_eq_mask mask_eq_exp_minus_1)

lemma unat_plus_no_wrap:
  "unat (a :: 'a::len word) + unat b < 2 ^ LENGTH('a) \<Longrightarrow> unat (a + b) = unat a + unat b"
  by (simp add: unat_word_ariths)

lemma unat_sat_add:
  "unat (sat_add a b) = min (unat a + unat b) (2 ^ LENGTH('a) - 1)" for a b :: "'a::len word"
proof (cases "unat a + unat b < 2 ^ LENGTH('a)")
  case True
  then show ?thesis by (simp add: sat_add_def unat_plus_no_wrap)
next
  case False
  then show ?thesis by (simp add: sat_add_def unat_max_word)
qed

lemma unat_sat_sub: "unat (sat_sub a b) = unat a - unat b"
  by (auto simp: sat_sub_def word_le_nat_alt unat_sub)

lemma checked_add_Some:
  "checked_add a b = Some c \<longleftrightarrow> unat a + unat b < 2 ^ LENGTH('a) \<and> c = a + b"
  for a b :: "'a::len word"
  by (auto simp: checked_add_def)

lemma checked_add_unat: "checked_add a b = Some c \<Longrightarrow> unat c = unat a + unat b"
  by (auto simp: checked_add_Some unat_plus_no_wrap)

lemma unat_ucast_u32 [simp]: "unat (ucast (w :: u32) :: u64) = unat w"
  using unat_bound [of w] by (simp add: unsigned_ucast_eq take_bit_nat_eq_self)

lemma ucast_u32_roundtrip [simp]: "ucast (ucast (w :: u32) :: u64) = w"
proof -
  have "unat (ucast (ucast w :: u64) :: u32) = take_bit 32 (unat w)"
    unfolding unsigned_ucast_eq [of "ucast w :: u64"] by simp
  then show ?thesis
    using unat_bound [of w] by (simp add: word_unat_eq_iff take_bit_nat_eq_self)
qed

lemma unat_ucast_u64_small:
  assumes "unat (w :: u64) < 2 ^ 32"
  shows "unat (ucast w :: u32) = unat w"
proof -
  have "unat (ucast w :: u32) = take_bit LENGTH(32) (unat w)" by (rule unsigned_ucast_eq)
  with assms show ?thesis by (simp add: take_bit_nat_eq_self)
qed

lemma sat_add_ge: "a \<le> sat_add a b" for a b :: "'a::len word"
proof -
  have "unat a \<le> 2 ^ LENGTH('a) - 1"
    using unat_bound [of a] by linarith
  then show ?thesis by (simp add: word_le_nat_alt unat_sat_add)
qed

subsection \<open>Little-endian bytes\<close>

text \<open>\<open>to_le_bytes\<close> and \<open>from_le_bytes\<close>, through the number the bytes denote.\<close>

fun nat_to_le :: "nat \<Rightarrow> nat \<Rightarrow> bytes" where
  "nat_to_le 0 k = []"
| "nat_to_le (Suc n) k = word_of_nat (k mod 256) # nat_to_le n (k div 256)"

fun nat_of_le :: "bytes \<Rightarrow> nat" where
  "nat_of_le [] = 0"
| "nat_of_le (b # bs) = unat b + 256 * nat_of_le bs"

definition le_u16 :: "u16 \<Rightarrow> bytes" where "le_u16 w = nat_to_le 2 (unat w)"
definition le_u32 :: "u32 \<Rightarrow> bytes" where "le_u32 w = nat_to_le 4 (unat w)"
definition le_u64 :: "u64 \<Rightarrow> bytes" where "le_u64 w = nat_to_le 8 (unat w)"

definition of_le :: "bytes \<Rightarrow> 'a::len word" where "of_le bs = word_of_nat (nat_of_le bs)"

lemma length_nat_to_le [simp]: "length (nat_to_le n k) = n"
  by (induction n k rule: nat_to_le.induct) auto

lemma nat_of_le_nat_to_le: "nat_of_le (nat_to_le n k) = k mod 256 ^ n"
proof (induction n k rule: nat_to_le.induct)
  case (2 n k)
  have "unat (word_of_nat (k mod 256) :: u8) = k mod 256"
    by (simp add: unat_of_nat)
  with 2 show ?case by (simp add: mod_mult2_eq mult.commute)
qed simp

lemma length_le [simp]:
  "length (le_u16 a) = 2" "length (le_u32 b) = 4" "length (le_u64 c) = 8"
  by (simp_all add: le_u16_def le_u32_def le_u64_def)

lemma of_le_le_u16 [simp]: "of_le (le_u16 w) = w"
  using unat_bound [of w]
  by (simp add: of_le_def le_u16_def nat_of_le_nat_to_le)

lemma of_le_le_u32 [simp]: "of_le (le_u32 w) = w"
  using unat_bound [of w]
  by (simp add: of_le_def le_u32_def nat_of_le_nat_to_le)

lemma of_le_le_u64 [simp]: "of_le (le_u64 w) = w"
  using unat_bound [of w]
  by (simp add: of_le_def le_u64_def nat_of_le_nat_to_le)

subsection \<open>Strictly sorted slices\<close>

text \<open>
  \<open>partition_point P xs\<close> is the length of the prefix where \<open>P\<close> holds, as Rust documents it
  for a slice partitioned by \<open>P\<close>. \<open>binary_search\<close> returns \<open>Ok\<close> with the index of the key or
  \<open>Err\<close> with the index where it would be inserted. \<open>sort_dedup\<close> is \<open>sort_unstable\<close> followed
  by \<open>dedup\<close>, for element types whose equality is that of the sort key.
\<close>

abbreviation ssorted :: "'a::linorder list \<Rightarrow> bool" where
  "ssorted \<equiv> sorted_wrt (<)"

definition partition_point :: "('a \<Rightarrow> bool) \<Rightarrow> 'a list \<Rightarrow> nat" where
  "partition_point P xs = length (takeWhile P xs)"

definition binary_search :: "'a::linorder list \<Rightarrow> 'a \<Rightarrow> nat + nat" where
  "binary_search xs k =
     (let i = partition_point (\<lambda>x. x < k) xs
      in if i < length xs \<and> xs ! i = k then Inr i else Inl i)"

definition is_ok :: "'e + 'a \<Rightarrow> bool" where
  "is_ok r = (case r of Inl _ \<Rightarrow> False | Inr _ \<Rightarrow> True)"

definition insert_at :: "nat \<Rightarrow> 'a \<Rightarrow> 'a list \<Rightarrow> 'a list" where
  "insert_at i x xs = take i xs @ x # drop i xs"

definition remove_at :: "nat \<Rightarrow> 'a list \<Rightarrow> 'a list" where
  "remove_at i xs = take i xs @ drop (Suc i) xs"

definition sort_dedup :: "'a::linorder list \<Rightarrow> 'a list" where
  "sort_dedup xs = remdups_adj (sort xs)"

lemma is_ok_simps [simp]: "is_ok (Inr a)" "\<not> is_ok (Inl e)"
  by (simp_all add: is_ok_def)

lemma ssorted_partition_take:
  "ssorted xs \<Longrightarrow> set (take (partition_point (\<lambda>x. x < k) xs) xs) = {x \<in> set xs. x < k}"
proof (induction xs)
  case (Cons x xs)
  show ?case
  proof (cases "x < k")
    case True
    with Cons show ?thesis by (auto simp: partition_point_def)
  next
    case False
    with Cons.prems show ?thesis by (auto simp: partition_point_def)
  qed
qed (simp add: partition_point_def)

lemma ssorted_partition_drop:
  "ssorted xs \<Longrightarrow> set (drop (partition_point (\<lambda>x. x < k) xs) xs) = {x \<in> set xs. k \<le> x}"
proof (induction xs)
  case (Cons x xs)
  show ?case
  proof (cases "x < k")
    case True
    with Cons show ?thesis by (auto simp: partition_point_def)
  next
    case False
    with Cons.prems show ?thesis by (auto simp: partition_point_def)
  qed
qed (simp add: partition_point_def)

lemma partition_point_le: "partition_point P xs \<le> length xs"
  by (simp add: partition_point_def length_takeWhile_le)

lemma binary_search_ok:
  assumes "ssorted xs"
  shows "is_ok (binary_search xs k) \<longleftrightarrow> k \<in> set xs"
proof -
  let ?i = "partition_point (\<lambda>x. x < k) xs"
  have drop: "set (drop ?i xs) = {x \<in> set xs. k \<le> x}"
    by (rule ssorted_partition_drop [OF assms])
  have sd: "ssorted (drop ?i xs)"
    using assms by (simp add: sorted_wrt_drop)
  show ?thesis
  proof (cases "drop ?i xs")
    case Nil
    with drop show ?thesis
      by (auto simp: binary_search_def Let_def)
  next
    case (Cons y ys)
    then have i: "?i < length xs"
      by (metis drop_eq_Nil linorder_not_le list.distinct(1))
    have y: "xs ! ?i = y"
      using Cons by (rule nth_via_drop)
    have ge: "k \<le> y" and gt: "\<forall>z \<in> set ys. y < z"
      using Cons sd drop by auto
    have "k \<in> set xs \<longleftrightarrow> k \<in> set (drop ?i xs)"
      using drop by auto
    also have "\<dots> \<longleftrightarrow> y = k"
      using Cons ge gt by auto
    finally show ?thesis
      using i y by (auto simp: binary_search_def Let_def)
  qed
qed

lemma binary_search_Inr:
  "binary_search xs k = Inr i \<Longrightarrow> i < length xs \<and> xs ! i = k"
  by (auto simp: binary_search_def Let_def split: if_splits)

lemma binary_search_insert:
  assumes "ssorted xs" and "binary_search xs k = Inl i"
  shows "ssorted (insert_at i k xs)" and "set (insert_at i k xs) = insert k (set xs)"
    and "length (insert_at i k xs) = Suc (length xs)"
proof -
  have k: "k \<notin> set xs"
    using binary_search_ok [OF assms(1), of k] assms(2) by simp
  have i: "i = partition_point (\<lambda>x. x < k) xs"
    using assms(2) by (auto simp: binary_search_def Let_def split: if_splits)
  have lo: "set (take i xs) = {x \<in> set xs. x < k}"
    unfolding i by (rule ssorted_partition_take [OF assms(1)])
  have hi: "set (drop i xs) = {x \<in> set xs. k \<le> x}"
    unfolding i by (rule ssorted_partition_drop [OF assms(1)])
  have tk: "ssorted (take i xs)" and dp: "ssorted (drop i xs)"
    using assms(1) by (simp_all add: sorted_wrt_take sorted_wrt_drop)
  have hi': "\<forall>x \<in> set (drop i xs). k < x"
    using hi k by (auto simp: order_le_less)
  have lt: "x < y" if "x \<in> set (take i xs)" and "y \<in> set (drop i xs)" for x y
  proof -
    from that have "x < k" and "k < y" using lo hi' by auto
    then show ?thesis by (rule less_trans)
  qed
  show "ssorted (insert_at i k xs)"
    unfolding insert_at_def sorted_wrt_append
  proof (intro conjI ballI)
    show "ssorted (take i xs)" by (rule tk)
    show "ssorted (k # drop i xs)" using hi' dp by simp
    fix x y
    assume x: "x \<in> set (take i xs)" and y: "y \<in> set (k # drop i xs)"
    from x have "x < k" unfolding lo by simp
    with x y lt show "x < y" by (metis set_ConsD)
  qed
  show "set (insert_at i k xs) = insert k (set xs)"
    using lo hi by (auto simp: insert_at_def)
  show "length (insert_at i k xs) = Suc (length xs)"
    using partition_point_le [of "\<lambda>x. x < k" xs] i by (simp add: insert_at_def)
qed

lemma ssorted_remove_at:
  assumes "ssorted xs" and "binary_search xs k = Inr i"
  shows "ssorted (remove_at i xs)" and "set (remove_at i xs) = set xs - {k}"
proof -
  have i: "i < length xs" and k: "xs ! i = k"
    using binary_search_Inr [OF assms(2)] by auto
  have xs: "xs = take i xs @ k # drop (Suc i) xs"
    using i k id_take_nth_drop by blast
  have "ssorted (take i xs @ k # drop (Suc i) xs)"
    using assms(1) xs by metis
  then show "ssorted (remove_at i xs)"
    by (auto simp: remove_at_def sorted_wrt_append)
  have "distinct (take i xs @ k # drop (Suc i) xs)"
    using assms(1) xs by (metis strict_sorted_iff)
  then have "k \<notin> set (take i xs) \<union> set (drop (Suc i) xs)" by auto
  moreover have "set xs = set (take i xs) \<union> {k} \<union> set (drop (Suc i) xs)"
    by (subst xs) auto
  ultimately show "set (remove_at i xs) = set xs - {k}"
    by (auto simp: remove_at_def)
qed

lemma ssorted_remdups_adj: "sorted xs \<Longrightarrow> ssorted (remdups_adj xs)"
proof (induction xs rule: remdups_adj.induct)
  case (3 x y xs)
  then show ?case by (auto simp: less_le)
qed simp_all

lemma ssorted_sort_dedup [simp]: "ssorted (sort_dedup xs)"
  by (simp add: sort_dedup_def ssorted_remdups_adj)

lemma set_sort_dedup [simp]: "set (sort_dedup xs) = set xs"
  by (simp add: sort_dedup_def)

lemma sort_dedup_Nil [simp]: "sort_dedup [] = []"
  by (simp add: sort_dedup_def)

text \<open>\<open>sort_by_key\<close> followed by \<open>dedup_by_key\<close>, the key being the whole identity of an element.\<close>

fun dedup_by_key :: "('a \<Rightarrow> 'k) \<Rightarrow> 'a list \<Rightarrow> 'a list" where
  "dedup_by_key key [] = []"
| "dedup_by_key key [x] = [x]"
| "dedup_by_key key (x # y # xs) =
     (if key x = key y then dedup_by_key key (x # xs) else x # dedup_by_key key (y # xs))"

definition sort_dedup_by_key :: "('a \<Rightarrow> 'k::linorder) \<Rightarrow> 'a list \<Rightarrow> 'a list" where
  "sort_dedup_by_key key xs = dedup_by_key key (sort_key key xs)"

lemma map_dedup_by_key: "map key (dedup_by_key key xs) = remdups_adj (map key xs)"
  by (induction key xs rule: dedup_by_key.induct) auto

lemma set_dedup_by_key: "set (dedup_by_key key xs) \<subseteq> set xs"
  by (induction key xs rule: dedup_by_key.induct) auto

lemma map_insort_key: "map key (insort_key key x xs) = insort (key x) (map key xs)"
  by (induction xs) auto

lemma map_sort_key: "map key (sort_key key xs) = sort (map key xs)"
  by (induction xs) (auto simp: map_insort_key)

lemma map_sort_dedup_by_key: "map key (sort_dedup_by_key key xs) = sort_dedup (map key xs)"
  by (simp add: sort_dedup_by_key_def map_dedup_by_key sort_dedup_def map_sort_key)

lemma set_sort_dedup_by_key: "set (sort_dedup_by_key key xs) \<subseteq> set xs"
  unfolding sort_dedup_by_key_def using set_dedup_by_key [of key "sort_key key xs"] by simp

subsection \<open>Tables of slots\<close>

lemma length_filter_update:
  assumes "i < length xs"
  shows "length (filter P (xs[i := x])) + of_bool (P (xs ! i)) = length (filter P xs) + of_bool (P x)"
proof -
  have "filter P xs = filter P (take i xs) @ filter P [xs ! i] @ filter P (drop (Suc i) xs)"
    using id_take_nth_drop [OF assms] by (metis append_Cons append_Nil filter_append)
  moreover have "filter P (xs[i := x]) = filter P (take i xs) @ filter P [x] @ filter P (drop (Suc i) xs)"
    using upd_conv_take_nth_drop [OF assms] by (metis append_Cons append_Nil filter_append)
  ultimately show ?thesis by simp
qed

lemma find_index_Some:
  "List.find P [0..<n] = Some i \<Longrightarrow> i < n \<and> P i"
  by (auto simp: find_Some_iff)

lemma find_index_None:
  "List.find P [0..<n] = None \<longleftrightarrow> (\<forall>i < n. \<not> P i)"
  by (auto simp: find_None_iff)

end
