(* ===== verification/Pb_Wire.thy ===== *)
theory Pb_Wire
  imports Pb_Prelude
begin

section \<open>The wire protocol (pinbridge-proto)\<close>

text \<open>
  \<open>bindings/rust/pinbridge-proto/src/lib.rs\<close>: the frame header, the two fixed-width record
  images, the payload reader, and the codec interface both record images satisfy. A stream is
  the list of bytes written to it or still to be read from it; a writer is the in-memory sink
  whose writes succeed, so the only error of \<open>write_frame\<close> is its own length check.
\<close>

definition MAX_FRAME :: u32 where "MAX_FRAME = push_bit 20 1"
definition HEADER_LEN :: nat where "HEADER_LEN = 6"

definition STATUS_OK :: u8 where "STATUS_OK = 0"
definition STATUS_BAD_REQUEST :: u8 where "STATUS_BAD_REQUEST = 1"
definition STATUS_INTERNAL :: u8 where "STATUS_INTERNAL = 2"

definition ARCH_X86 :: u32 where "ARCH_X86 = 0"
definition ARCH_X64 :: u32 where "ARCH_X64 = 1"

definition arch_from_pointer_width :: "u32 \<Rightarrow> u32" where
  "arch_from_pointer_width width =
     (if width = 4 then ARCH_X86 else if width = 8 then ARCH_X64 else - 1)"

datatype io_error = InvalidInput | InvalidData | UnexpectedEof

subsection \<open>Byte positions\<close>

definition bytes_at :: "bytes \<Rightarrow> nat \<Rightarrow> nat \<Rightarrow> bytes" where
  "bytes_at bs i n = take n (drop i bs)"

definition u64_at :: "bytes \<Rightarrow> nat \<Rightarrow> u64" where "u64_at bs i = of_le (bytes_at bs i 8)"
definition u32_at :: "bytes \<Rightarrow> nat \<Rightarrow> u32" where "u32_at bs i = of_le (bytes_at bs i 4)"

lemma nat_of_le_bound: "nat_of_le bs < 256 ^ length bs"
proof (induction bs)
  case (Cons b bs)
  have "unat b < 256" using unat_bound [of b] by simp
  with Cons show ?case by simp
qed simp

lemma nat_to_le_nat_of_le: "nat_to_le (length bs) (nat_of_le bs) = bs"
proof (induction bs)
  case (Cons b bs)
  have "unat b < 256" using unat_bound [of b] by simp
  then have "(unat b + 256 * nat_of_le bs) mod 256 = unat b"
    and "(unat b + 256 * nat_of_le bs) div 256 = nat_of_le bs" by simp_all
  with Cons show ?case by simp
qed simp

lemma le_u64_of_le: "length bs = 8 \<Longrightarrow> le_u64 (of_le bs) = bs"
  using nat_of_le_bound [of bs] nat_to_le_nat_of_le [of bs]
  by (simp add: le_u64_def of_le_def unat_of_nat)

lemma le_u32_of_le: "length bs = 4 \<Longrightarrow> le_u32 (of_le bs) = bs"
  using nat_of_le_bound [of bs] nat_to_le_nat_of_le [of bs]
  by (simp add: le_u32_def of_le_def unat_of_nat)

lemma le_u64_at: "i + 8 \<le> length bs \<Longrightarrow> le_u64 (u64_at bs i) = take 8 (drop i bs)"
  by (simp add: u64_at_def bytes_at_def le_u64_of_le)

lemma le_u32_at: "i + 4 \<le> length bs \<Longrightarrow> le_u32 (u32_at bs i) = take 4 (drop i bs)"
  by (simp add: u32_at_def bytes_at_def le_u32_of_le)

lemma take_append_drop_take: "take n (drop i bs) @ take m (drop (i + n) bs) = take (n + m) (drop i bs)"
proof -
  have "drop (i + n) bs = drop n (drop i bs)" by (simp add: add.commute)
  then show ?thesis by (simp only: take_add)
qed

lemma bytes_at_concat_le_u64:
  "i < length xs \<Longrightarrow> take 8 (drop (i * 8) (concat (map le_u64 xs) @ rest)) = le_u64 (xs ! i)"
proof (induction xs arbitrary: i)
  case (Cons x xs)
  show ?case
  proof (cases i)
    case (Suc j)
    with Cons show ?thesis by simp
  qed simp
qed simp

lemma length_concat_le_u64 [simp]: "length (concat (map le_u64 xs)) = 8 * length xs"
  by (induction xs) auto

subsection \<open>Event records\<close>

record event_record =
  er_sequence :: u64
  er_kind :: u32
  er_thread_id :: u32
  er_address :: u64
  er_arg0 :: u64
  er_arg1 :: u64
  er_arg2 :: u64
  er_arg3 :: u64
  er_arg4 :: u64
  er_arg5 :: u64
  er_arg6 :: u64
  er_arg7 :: u64

definition EVENT_WIRE_LEN :: nat where "EVENT_WIRE_LEN = 88"

definition event_encode :: "event_record \<Rightarrow> bytes \<Rightarrow> bytes" where
  "event_encode r out = out @ le_u64 (er_sequence r) @ le_u32 (er_kind r)
     @ le_u32 (er_thread_id r) @ le_u64 (er_address r) @ le_u64 (er_arg0 r)
     @ le_u64 (er_arg1 r) @ le_u64 (er_arg2 r) @ le_u64 (er_arg3 r) @ le_u64 (er_arg4 r)
     @ le_u64 (er_arg5 r) @ le_u64 (er_arg6 r) @ le_u64 (er_arg7 r)"

definition event_decode :: "bytes \<Rightarrow> event_record option" where
  "event_decode bs =
     (if length bs < EVENT_WIRE_LEN then None
      else Some \<lparr>er_sequence = u64_at bs 0, er_kind = u32_at bs 8, er_thread_id = u32_at bs 12,
             er_address = u64_at bs 16, er_arg0 = u64_at bs 24, er_arg1 = u64_at bs 32,
             er_arg2 = u64_at bs 40, er_arg3 = u64_at bs 48, er_arg4 = u64_at bs 56,
             er_arg5 = u64_at bs 64, er_arg6 = u64_at bs 72, er_arg7 = u64_at bs 80\<rparr>)"

subsection \<open>Hook log records\<close>

record hook_log_record =
  hl_sequence :: u64
  hl_timestamp_unix_ns :: u64
  hl_kind :: u32
  hl_thread_id :: u32
  hl_address :: u64
  hl_argument_count :: u32
  hl_flags :: u32
  hl_arguments :: "u64 list"

definition HOOK_LOG_WIRE_LEN :: nat where "HOOK_LOG_WIRE_LEN = 168"
definition HOOK_LOG_FLAG_SIGNATURE :: u32 where "HOOK_LOG_FLAG_SIGNATURE = 1"
definition HOOK_LOG_FLAG_FUNCTION :: u32 where "HOOK_LOG_FLAG_FUNCTION = push_bit 1 1"
definition HOOK_LOG_FLAG_SYSCALL :: u32 where "HOOK_LOG_FLAG_SYSCALL = push_bit 2 1"

text \<open>The array type \<open>[u64; 16]\<close> is the length condition \<open>hook_log_ok\<close>.\<close>

definition hook_log_ok :: "hook_log_record \<Rightarrow> bool" where
  "hook_log_ok r \<longleftrightarrow> length (hl_arguments r) = 16"

definition hook_log_empty :: hook_log_record where
  "hook_log_empty = \<lparr>hl_sequence = 0, hl_timestamp_unix_ns = 0, hl_kind = 0, hl_thread_id = 0,
     hl_address = 0, hl_argument_count = 0, hl_flags = 0, hl_arguments = replicate 16 0\<rparr>"

definition hook_log_encode :: "hook_log_record \<Rightarrow> bytes \<Rightarrow> bytes" where
  "hook_log_encode r out = out @ le_u64 (hl_sequence r) @ le_u64 (hl_timestamp_unix_ns r)
     @ le_u32 (hl_kind r) @ le_u32 (hl_thread_id r) @ le_u64 (hl_address r)
     @ le_u32 (hl_argument_count r) @ le_u32 (hl_flags r)
     @ concat (map le_u64 (hl_arguments r))"

definition hook_log_decode :: "bytes \<Rightarrow> hook_log_record option" where
  "hook_log_decode bs =
     (if length bs < HOOK_LOG_WIRE_LEN then None
      else Some \<lparr>hl_sequence = u64_at bs 0, hl_timestamp_unix_ns = u64_at bs 8,
             hl_kind = u32_at bs 16, hl_thread_id = u32_at bs 20, hl_address = u64_at bs 24,
             hl_argument_count = u32_at bs 32, hl_flags = u32_at bs 36,
             hl_arguments = map (\<lambda>index. u64_at bs (40 + index * 8)) [0..<16]\<rparr>)"

subsection \<open>The codec interface\<close>

text \<open>
  What the servers and clients rely on: an image has a fixed width, decoding reads it back off
  the front of a longer buffer, decoding refuses a short buffer and accepts nothing but an image.
  A page of rows is decoded by the client loops \<open>for _ in 0..count { decode(rest)?; rest = ... }\<close>.
\<close>

fun decode_rows :: "(bytes \<Rightarrow> 'a option) \<Rightarrow> nat \<Rightarrow> nat \<Rightarrow> bytes \<Rightarrow> 'a list option" where
  "decode_rows dec width 0 rest = Some []"
| "decode_rows dec width (Suc count) rest =
     (case dec rest of
        None \<Rightarrow> None
      | Some event \<Rightarrow> map_option (Cons event) (decode_rows dec width count (drop width rest)))"

locale wire_codec =
  fixes enc :: "'a \<Rightarrow> bytes \<Rightarrow> bytes"
    and dec :: "bytes \<Rightarrow> 'a option"
    and width :: nat
    and ok :: "'a \<Rightarrow> bool"
  assumes enc_append: "enc x out = out @ enc x []"
    and enc_length: "ok x \<Longrightarrow> length (enc x []) = width"
    and dec_enc: "ok x \<Longrightarrow> dec (enc x [] @ rest) = Some x"
    and dec_short: "length bs < width \<Longrightarrow> dec bs = None"
    and dec_image: "dec bs = Some x \<Longrightarrow> ok x \<and> enc x [] = take width bs"
begin

lemma enc_fold: "fold enc xs out = out @ concat (map (\<lambda>x. enc x []) xs)"
proof (induction xs arbitrary: out)
  case (Cons x xs)
  have "fold enc (x # xs) out = fold enc xs (enc x out)" by simp
  also have "\<dots> = enc x out @ concat (map (\<lambda>x. enc x []) xs)" by (rule Cons.IH)
  finally show ?case by (subst (asm) enc_append) simp
qed simp

lemma fold_length: "\<forall>x \<in> set xs. ok x \<Longrightarrow> length (fold enc xs []) = width * length xs"
  unfolding enc_fold by (induction xs) (auto simp: enc_length)

lemma decode_rows_fold:
  "\<forall>x \<in> set xs. ok x \<Longrightarrow> decode_rows dec width (length xs) (fold enc xs [] @ rest) = Some xs"
  unfolding enc_fold
proof (induction xs)
  case (Cons x xs)
  then have "ok x" by simp
  then have drop: "drop width (enc x [] @ zs) = zs" for zs
    using enc_length [of x] by simp
  let ?zs = "concat (map (\<lambda>x. enc x []) xs) @ rest"
  have "decode_rows dec width (Suc (length xs)) (enc x [] @ ?zs) = Some (x # xs)"
    using Cons \<open>ok x\<close> by (simp only: decode_rows.simps dec_enc drop) simp
  then show ?case by simp
qed simp

lemma decode_rows_image:
  "decode_rows dec width n bs = Some xs \<Longrightarrow>
     length xs = n \<and> (\<forall>x \<in> set xs. ok x) \<and> fold enc xs [] = take (width * n) bs"
  unfolding enc_fold
proof (induction n arbitrary: bs xs)
  case (Suc n)
  then obtain x ys where x: "dec bs = Some x"
    and ys: "decode_rows dec width n (drop width bs) = Some ys" and xs: "xs = x # ys"
    by (auto split: option.splits)
  have "enc x [] @ take (width * n) (drop width bs) = take (width * Suc n) bs"
    using dec_image [OF x] by (simp add: take_add)
  with Suc.IH [OF ys] dec_image [OF x] xs show ?case by simp
qed simp

lemma decode_rows_short:
  "length bs < width * n \<Longrightarrow> decode_rows dec width n bs = None"
proof (induction n arbitrary: bs)
  case (Suc n)
  show ?case
  proof (cases "length bs < width")
    case True
    then show ?thesis by (simp add: dec_short)
  next
    case False
    with Suc.prems have "length (drop width bs) < width * n" by simp
    then have "decode_rows dec width n (drop width bs) = None" by (rule Suc.IH)
    then show ?thesis by (simp split: option.splits)
  qed
qed simp

end

interpretation ev: wire_codec event_encode event_decode EVENT_WIRE_LEN "\<lambda>_. True"
proof unfold_locales
  fix bs :: bytes and x
  assume "event_decode bs = Some x"
  then have len: "88 \<le> length bs"
    and x: "x = \<lparr>er_sequence = u64_at bs 0, er_kind = u32_at bs 8, er_thread_id = u32_at bs 12,
             er_address = u64_at bs 16, er_arg0 = u64_at bs 24, er_arg1 = u64_at bs 32,
             er_arg2 = u64_at bs 40, er_arg3 = u64_at bs 48, er_arg4 = u64_at bs 56,
             er_arg5 = u64_at bs 64, er_arg6 = u64_at bs 72, er_arg7 = u64_at bs 80\<rparr>"
    by (auto simp: event_decode_def EVENT_WIRE_LEN_def split: if_splits)
  have split: "take 88 bs = take 8 bs @ take 4 (drop 8 bs) @ take 4 (drop 12 bs)
      @ take 8 (drop 16 bs) @ take 8 (drop 24 bs) @ take 8 (drop 32 bs) @ take 8 (drop 40 bs)
      @ take 8 (drop 48 bs) @ take 8 (drop 56 bs) @ take 8 (drop 64 bs) @ take 8 (drop 72 bs)
      @ take 8 (drop 80 bs)"
    using take_add [of 8 80 bs] take_add [of 4 76 "drop 8 bs"] take_add [of 4 72 "drop 12 bs"]
      take_add [of 8 64 "drop 16 bs"] take_add [of 8 56 "drop 24 bs"]
      take_add [of 8 48 "drop 32 bs"] take_add [of 8 40 "drop 40 bs"]
      take_add [of 8 32 "drop 48 bs"] take_add [of 8 24 "drop 56 bs"]
      take_add [of 8 16 "drop 64 bs"] take_add [of 8 8 "drop 72 bs"] by simp
  show "True \<and> event_encode x [] = take EVENT_WIRE_LEN bs"
    using len by (simp add: x event_encode_def EVENT_WIRE_LEN_def le_u64_at le_u32_at split)
qed (simp_all add: event_encode_def event_decode_def EVENT_WIRE_LEN_def u64_at_def u32_at_def
      bytes_at_def)

lemma map_u64_at_concat:
  assumes "length xs = 16" and "length pre = 40"
  shows "map (\<lambda>index. u64_at (pre @ concat (map le_u64 xs) @ rest) (40 + index * 8)) [0..<16] = xs"
proof (rule nth_equalityI)
  fix i
  assume "i < length (map (\<lambda>index. u64_at (pre @ concat (map le_u64 xs) @ rest) (40 + index * 8)) [0..<16])"
  then have i: "i < 16" by simp
  have "take 8 (drop (40 + i * 8) (pre @ concat (map le_u64 xs) @ rest)) = le_u64 (xs ! i)"
    using bytes_at_concat_le_u64 [of i xs rest] i assms by simp
  then show "map (\<lambda>index. u64_at (pre @ concat (map le_u64 xs) @ rest) (40 + index * 8)) [0..<16] ! i
      = xs ! i"
    using i by (simp only: u64_at_def bytes_at_def nth_map nth_upt length_upt) simp
qed (simp add: assms)

lemma concat_le_u64_at:
  "40 + n * 8 \<le> length bs \<Longrightarrow>
     concat (map le_u64 (map (\<lambda>index. u64_at bs (40 + index * 8)) [0..<n])) = take (n * 8) (drop 40 bs)"
proof (induction n)
  case (Suc n)
  then have "take (n * 8) (drop 40 bs) @ le_u64 (u64_at bs (40 + n * 8))
      = take (n * 8) (drop 40 bs) @ take 8 (drop (40 + n * 8) bs)"
    by (simp add: le_u64_at)
  also have "\<dots> = take (Suc n * 8) (drop 40 bs)"
    using take_append_drop_take [of "n * 8" 40 bs 8] by (simp add: add.commute)
  finally show ?case using Suc by simp
qed simp

lemma hook_log_encode_split:
  "\<exists>pre. length pre = 40 \<and> hook_log_encode r [] = pre @ concat (map le_u64 (hl_arguments r))"
  by (rule exI [of _ "le_u64 (hl_sequence r) @ le_u64 (hl_timestamp_unix_ns r)
     @ le_u32 (hl_kind r) @ le_u32 (hl_thread_id r) @ le_u64 (hl_address r)
     @ le_u32 (hl_argument_count r) @ le_u32 (hl_flags r)"]) (simp add: hook_log_encode_def)

interpretation hl: wire_codec hook_log_encode hook_log_decode HOOK_LOG_WIRE_LEN hook_log_ok
proof unfold_locales
  fix x :: hook_log_record and rest :: bytes
  assume ok: "hook_log_ok x"
  obtain pre where pre: "length pre = 40"
    "hook_log_encode x [] = pre @ concat (map le_u64 (hl_arguments x))"
    using hook_log_encode_split by blast
  have args: "map (\<lambda>index. u64_at (hook_log_encode x [] @ rest) (40 + index * 8)) [0..<16]
      = hl_arguments x"
    using map_u64_at_concat [of "hl_arguments x" pre rest] ok pre by (simp add: hook_log_ok_def)
  have fields: "u64_at (hook_log_encode x [] @ rest) 0 = hl_sequence x"
    "u64_at (hook_log_encode x [] @ rest) 8 = hl_timestamp_unix_ns x"
    "u32_at (hook_log_encode x [] @ rest) 16 = hl_kind x"
    "u32_at (hook_log_encode x [] @ rest) 20 = hl_thread_id x"
    "u64_at (hook_log_encode x [] @ rest) 24 = hl_address x"
    "u32_at (hook_log_encode x [] @ rest) 32 = hl_argument_count x"
    "u32_at (hook_log_encode x [] @ rest) 36 = hl_flags x"
    by (simp_all add: hook_log_encode_def u64_at_def u32_at_def bytes_at_def)
  have "\<not> length (hook_log_encode x [] @ rest) < HOOK_LOG_WIRE_LEN"
    using ok by (simp add: hook_log_encode_def HOOK_LOG_WIRE_LEN_def hook_log_ok_def)
  then show "hook_log_decode (hook_log_encode x [] @ rest) = Some x"
    by (simp only: hook_log_decode_def args fields if_False) simp
next
  fix bs :: bytes and x
  assume "hook_log_decode bs = Some x"
  then have len: "168 \<le> length bs"
    and x: "x = \<lparr>hl_sequence = u64_at bs 0, hl_timestamp_unix_ns = u64_at bs 8,
             hl_kind = u32_at bs 16, hl_thread_id = u32_at bs 20, hl_address = u64_at bs 24,
             hl_argument_count = u32_at bs 32, hl_flags = u32_at bs 36,
             hl_arguments = map (\<lambda>index. u64_at bs (40 + index * 8)) [0..<16]\<rparr>"
    unfolding hook_log_decode_def HOOK_LOG_WIRE_LEN_def by (auto split: if_splits)
  have args: "concat (map le_u64 (hl_arguments x)) = take 128 (drop 40 bs)"
    using concat_le_u64_at [of 16 bs] len unfolding x by (simp only: hook_log_record.simps) simp
  have split: "take 168 bs = take 8 bs @ take 8 (drop 8 bs) @ take 4 (drop 16 bs)
      @ take 4 (drop 20 bs) @ take 8 (drop 24 bs) @ take 4 (drop 32 bs) @ take 4 (drop 36 bs)
      @ take 128 (drop 40 bs)"
    using take_add [of 8 160 bs] take_add [of 8 152 "drop 8 bs"] take_add [of 4 148 "drop 16 bs"]
      take_add [of 4 144 "drop 20 bs"] take_add [of 8 136 "drop 24 bs"]
      take_add [of 4 132 "drop 32 bs"] take_add [of 4 128 "drop 36 bs"] by simp
  have heads: "hl_sequence x = u64_at bs 0" "hl_timestamp_unix_ns x = u64_at bs 8"
    "hl_kind x = u32_at bs 16" "hl_thread_id x = u32_at bs 20" "hl_address x = u64_at bs 24"
    "hl_argument_count x = u32_at bs 32" "hl_flags x = u32_at bs 36"
    "length (hl_arguments x) = 16"
    unfolding x by simp_all
  show "hook_log_ok x \<and> hook_log_encode x [] = take HOOK_LOG_WIRE_LEN bs"
    using len
    by (simp add: hook_log_encode_def HOOK_LOG_WIRE_LEN_def hook_log_ok_def args heads split
        le_u64_at le_u32_at)
qed (auto simp: hook_log_encode_def hook_log_decode_def HOOK_LOG_WIRE_LEN_def hook_log_ok_def)

subsection \<open>Frames\<close>

text \<open>
  \<open>read_exact\<close> takes its bytes off the front of the stream or fails with \<open>UnexpectedEof\<close>, in
  which case the connection is abandoned. \<open>read_frame\<close> returns what it read and the rest of
  the stream.
\<close>

type_synonym frame = "u8 \<times> u8 \<times> bytes"

definition frame_len :: "bytes \<Rightarrow> u32" where "frame_len payload = word_of_nat (length payload + 2)"

definition write_frame :: "bytes \<Rightarrow> u8 \<Rightarrow> u8 \<Rightarrow> bytes \<Rightarrow> io_error + bytes" where
  "write_frame stream op_code status payload =
     (let len = frame_len payload
      in if len > MAX_FRAME then Inl InvalidInput
         else Inr (stream @ le_u32 len @ [op_code, status] @ payload))"

definition read_exact :: "bytes \<Rightarrow> nat \<Rightarrow> io_error + (bytes \<times> bytes)" where
  "read_exact stream n =
     (if length stream < n then Inl UnexpectedEof else Inr (take n stream, drop n stream))"

definition read_frame :: "bytes \<Rightarrow> io_error + (frame \<times> bytes)" where
  "read_frame stream =
     (case read_exact stream HEADER_LEN of
        Inl e \<Rightarrow> Inl e
      | Inr (header, stream) \<Rightarrow>
          (let len = of_le (take 4 header) :: u32
           in if len < 2 \<or> len > MAX_FRAME then Inl InvalidData
              else case read_exact stream (unat (len - 2)) of
                     Inl e \<Rightarrow> Inl e
                   | Inr (payload, stream) \<Rightarrow> Inr ((header ! 4, header ! 5, payload), stream)))"

lemma unat_MAX_FRAME [simp]: "unat MAX_FRAME = 1048576"
  by (simp add: MAX_FRAME_def push_bit_eq_mult)

lemma unat_frame_len:
  "length payload + 2 \<le> 1048576 \<Longrightarrow> unat (frame_len payload) = length payload + 2"
  unfolding frame_len_def by (subst unat_of_nat) simp

lemma write_frame_fits:
  "length payload + 2 \<le> 1048576 \<Longrightarrow>
     write_frame s c st payload = Inr (s @ le_u32 (frame_len payload) @ [c, st] @ payload)"
  by (simp add: write_frame_def word_less_nat_alt Let_def unat_frame_len)

lemma read_frame_write:
  assumes fits: "length payload + 2 \<le> 1048576"
  shows "read_frame (le_u32 (frame_len payload) @ [c, st] @ payload @ rest)
           = Inr ((c, st, payload), rest)"
proof -
  let ?len = "frame_len payload"
  have len: "unat ?len = length payload + 2" using fits by (rule unat_frame_len)
  have ok: "\<not> (?len < 2 \<or> ?len > MAX_FRAME)"
    using fits len by (simp add: word_less_nat_alt)
  have sub: "unat (?len - 2) = length payload"
    using len by (subst unat_sub) (simp_all add: word_le_nat_alt)
  have "read_exact (le_u32 ?len @ [c, st] @ payload @ rest) HEADER_LEN
      = Inr (le_u32 ?len @ [c, st], payload @ rest)"
    by (simp add: read_exact_def HEADER_LEN_def)
  moreover have "take 4 (le_u32 ?len @ [c, st]) = le_u32 ?len"
    "(le_u32 ?len @ [c, st]) ! 4 = c" "(le_u32 ?len @ [c, st]) ! 5 = st"
    by (simp_all add: nth_append)
  moreover have "read_exact (payload @ rest) (unat (?len - 2)) = Inr (payload, rest)"
    by (simp add: read_exact_def sub)
  ultimately show ?thesis
    using ok by (simp only: read_frame_def sum.case prod.case Let_def of_le_le_u32 if_False)
qed

lemma read_frame_image:
  assumes "read_frame s = Inr ((c, st, payload), rest)"
  shows "s = le_u32 (frame_len payload) @ [c, st] @ payload @ rest
    \<and> length payload + 2 \<le> 1048576"
proof -
  let ?header = "take 6 s"
  let ?len = "of_le (take 4 s) :: u32"
  have long: "6 \<le> length s" and range: "2 \<le> ?len" "?len \<le> MAX_FRAME"
    and body: "read_exact (drop 6 s) (unat (?len - 2)) = Inr (payload, rest)"
    and heads: "c = s ! 4" "st = s ! 5"
    using assms
    by (auto simp: read_frame_def read_exact_def HEADER_LEN_def Let_def not_less min_def
        split: if_splits)
  have enough: "unat (?len - 2) \<le> length (drop 6 s)"
    and parts: "payload = take (unat (?len - 2)) (drop 6 s)" "rest = drop (unat (?len - 2)) (drop 6 s)"
    using body by (auto simp: read_exact_def split: if_splits)
  have two: "2 \<le> unat ?len" using range(1) by (simp add: word_le_nat_alt)
  have max: "unat ?len \<le> 1048576" using range(2) by (simp add: word_le_nat_alt)
  have "unat (?len - 2) = unat ?len - 2" using range(1) by (simp add: unat_sub)
  then have plen: "length payload + 2 = unat ?len" using enough two by (simp add: parts(1))
  have word: "le_u32 (frame_len payload) = take 4 s"
    using long unfolding frame_len_def plen by (simp add: le_u32_of_le)
  have "s = take 4 s @ drop 4 s" by simp
  moreover have "drop 4 s = [s ! 4, s ! 5] @ drop 6 s"
    using long Cons_nth_drop_Suc [of 4 s] Cons_nth_drop_Suc [of 5 s] by simp
  moreover have "drop 6 s = payload @ rest" by (simp only: parts append_take_drop_id)
  ultimately have "s = le_u32 (frame_len payload) @ [c, st] @ payload @ rest"
    unfolding word heads by simp
  with plen max show ?thesis by simp
qed

text \<open>
  The two ends of a connection: the sender writes its frames one after the other, stopping at
  the first it refuses, and the receiver reads until the stream is empty or a read fails.
\<close>

fun send_frames :: "bytes \<Rightarrow> frame list \<Rightarrow> io_error + bytes" where
  "send_frames stream [] = Inr stream"
| "send_frames stream ((c, st, payload) # frames) =
     (case write_frame stream c st payload of Inl e \<Rightarrow> Inl e | Inr stream \<Rightarrow> send_frames stream frames)"

lemma read_frame_shorter: "read_frame s = Inr (f, rest) \<Longrightarrow> length rest < length s"
  using read_frame_image [of s "fst f" "fst (snd f)" "snd (snd f)" rest] by simp

function receive_frames :: "bytes \<Rightarrow> frame list \<times> io_error option" where
  "receive_frames stream =
     (case read_frame stream of
        Inl e \<Rightarrow> ([], Some e)
      | Inr (f, rest) \<Rightarrow> (case receive_frames rest of (fs, e) \<Rightarrow> (f # fs, e)))"
  by auto
termination by (relation "measure length") (auto dest: read_frame_shorter)

declare receive_frames.simps [simp del]

subsection \<open>Payload readers\<close>

definition put_u32 :: "bytes \<Rightarrow> u32 \<Rightarrow> bytes" where "put_u32 out value = out @ le_u32 value"
definition put_u64 :: "bytes \<Rightarrow> u64 \<Rightarrow> bytes" where "put_u64 out value = out @ le_u64 value"

text \<open>
  \<open>bytes.get(a..b)\<close> is \<open>None\<close> unless \<open>a \<le> b \<le> len\<close>. A method that takes \<open>&mut self\<close> returns the
  reader beside its value; on \<open>None\<close> the reader keeps its position.
\<close>

record reader =
  rd_bytes :: bytes
  rd_pos :: nat

definition get_range :: "bytes \<Rightarrow> nat \<Rightarrow> nat \<Rightarrow> bytes option" where
  "get_range bs a b = (if a \<le> b \<and> b \<le> length bs then Some (take (b - a) (drop a bs)) else None)"

definition reader_new :: "bytes \<Rightarrow> reader" where
  "reader_new bs = \<lparr>rd_bytes = bs, rd_pos = 0\<rparr>"

definition reader_advance :: "nat \<Rightarrow> reader \<Rightarrow> reader" where
  "reader_advance n r = r\<lparr>rd_pos := rd_pos r + n\<rparr>"

definition reader_u8 :: "reader \<Rightarrow> (u8 \<times> reader) option" where
  "reader_u8 r =
     (if rd_pos r < length (rd_bytes r) then Some (rd_bytes r ! rd_pos r, reader_advance 1 r) else None)"

definition reader_u16 :: "reader \<Rightarrow> (u16 \<times> reader) option" where
  "reader_u16 r = map_option (\<lambda>b. (of_le b, reader_advance 2 r))
     (get_range (rd_bytes r) (rd_pos r) (rd_pos r + 2))"

definition reader_u32 :: "reader \<Rightarrow> (u32 \<times> reader) option" where
  "reader_u32 r = map_option (\<lambda>b. (of_le b, reader_advance 4 r))
     (get_range (rd_bytes r) (rd_pos r) (rd_pos r + 4))"

definition reader_u64 :: "reader \<Rightarrow> (u64 \<times> reader) option" where
  "reader_u64 r = map_option (\<lambda>b. (of_le b, reader_advance 8 r))
     (get_range (rd_bytes r) (rd_pos r) (rd_pos r + 8))"

definition reader_skip :: "nat \<Rightarrow> reader \<Rightarrow> (unit \<times> reader) option" where
  "reader_skip count r = map_option (\<lambda>_. ((), reader_advance count r))
     (get_range (rd_bytes r) (rd_pos r) (rd_pos r + count))"

definition reader_remaining :: "reader \<Rightarrow> bytes" where
  "reader_remaining r = drop (rd_pos r) (rd_bytes r)"

lemma reader_remaining_simps [simp]:
  "reader_remaining (reader_new bs) = bs"
  "reader_remaining (reader_advance n r) = drop n (reader_remaining r)"
  by (simp_all add: reader_remaining_def reader_new_def reader_advance_def add.commute)

text \<open>What each read does, in terms of the unread bytes alone.\<close>

lemma reader_u8_remaining:
  "reader_u8 r = (case reader_remaining r of [] \<Rightarrow> None | b # _ \<Rightarrow> Some (b, reader_advance 1 r))"
proof (cases "rd_pos r < length (rd_bytes r)")
  case True
  then show ?thesis
    by (simp add: reader_u8_def reader_remaining_def flip: Cons_nth_drop_Suc)
qed (simp add: reader_u8_def reader_remaining_def)

lemma reader_u16_remaining:
  "reader_u16 r = (if length (reader_remaining r) < 2 then None
     else Some (of_le (take 2 (reader_remaining r)), reader_advance 2 r))"
  by (auto simp: reader_u16_def get_range_def reader_remaining_def)

lemma reader_u32_remaining:
  "reader_u32 r = (if length (reader_remaining r) < 4 then None
     else Some (of_le (take 4 (reader_remaining r)), reader_advance 4 r))"
  by (auto simp: reader_u32_def get_range_def reader_remaining_def)

lemma reader_u64_remaining:
  "reader_u64 r = (if length (reader_remaining r) < 8 then None
     else Some (of_le (take 8 (reader_remaining r)), reader_advance 8 r))"
  by (auto simp: reader_u64_def get_range_def reader_remaining_def)

lemmas reader_reads = reader_u8_remaining reader_u16_remaining reader_u32_remaining
  reader_u64_remaining

lemma reader_put [simp]:
  "reader_remaining r = le_u32 v @ rest \<Longrightarrow> reader_u32 r = Some (v, reader_advance 4 r)"
  "reader_remaining r = le_u64 w @ rest \<Longrightarrow> reader_u64 r = Some (w, reader_advance 8 r)"
  "reader_remaining r = b # rest \<Longrightarrow> reader_u8 r = Some (b, reader_advance 1 r)"
  by (simp_all add: reader_reads)

subsection \<open>Properties\<close>

text \<open>
  C1. Frames survive the connection: whatever list of frames whose payloads fit the limit is
  written to an empty stream, the reader at the other end obtains exactly that list, in order,
  and then end of file.
\<close>

theorem frame_stream_roundtrip:
  assumes "\<forall>(c, st, payload) \<in> set frames. length payload + 2 \<le> 1048576"
  shows "\<exists>stream. send_frames [] frames = Inr stream \<and> receive_frames stream = (frames, Some UnexpectedEof)"
proof -
  have "\<exists>tail. send_frames s frames = Inr (s @ tail) \<and> receive_frames tail = (frames, Some UnexpectedEof)"
    for s using assms
  proof (induction frames arbitrary: s)
    case Nil
    show ?case by (simp add: receive_frames.simps [of "[]"] read_frame_def read_exact_def HEADER_LEN_def)
  next
    case (Cons f frames)
    obtain c st payload where f: "f = (c, st, payload)" by (cases f)
    with Cons.prems have fits: "length payload + 2 \<le> 1048576" by simp
    let ?image = "le_u32 (frame_len payload) @ [c, st] @ payload"
    obtain tail where send: "send_frames (s @ ?image) frames = Inr ((s @ ?image) @ tail)"
      and recv: "receive_frames tail = (frames, Some UnexpectedEof)"
      using Cons.IH [of "s @ ?image"] Cons.prems by auto
    have "send_frames s (f # frames) = Inr (s @ ?image @ tail)"
      using send by (simp add: f write_frame_fits [OF fits])
    moreover have "receive_frames (?image @ tail) = (f # frames, Some UnexpectedEof)"
      using read_frame_write [OF fits, of c st tail] recv
      by (subst receive_frames.simps) (simp add: f)
    ultimately show ?case by blast
  qed
  from this [of "[]"] show ?thesis by simp
qed

lemma frame_stream_roundtrip_witness:
  "\<exists>stream. send_frames [] [(1, 0, [7, 8]), (2, 1, [])] = Inr stream
     \<and> receive_frames stream = ([(1, 0, [7, 8]), (2, 1, [])], Some UnexpectedEof)"
  by (rule frame_stream_roundtrip) simp

text \<open>
  C2. The frame reader is canonical: it accepts only the image the frame writer produces of the
  frame it returns, so nothing over the frame limit and nothing with a length below the two
  header bytes is ever taken from the wire.
\<close>

theorem read_frame_canonical:
  assumes "read_frame s = Inr ((c, st, payload), rest)"
  shows "\<exists>image. write_frame [] c st payload = Inr image \<and> s = image @ rest
    \<and> length image \<le> unat MAX_FRAME + 4"
  using read_frame_image [OF assms] write_frame_fits [of payload "[]" c st] by auto

lemma read_frame_canonical_witness:
  "\<exists>image. write_frame [] 5 0 [9] = Inr image \<and> [3, 0, 0, 0, 5, 0, 9, 1] = image @ [1]
    \<and> length image \<le> unat MAX_FRAME + 4"
proof (rule read_frame_canonical)
  show "read_frame [3, 0, 0, 0, 5, 0, 9, 1] = Inr ((5, 0, [9]), [1])"
    by (simp add: read_frame_def read_exact_def HEADER_LEN_def of_le_def MAX_FRAME_def)
qed

end
