(* ===== verification/Pb_Event.thy ===== *)
theory Pb_Event
  imports Pb_Wire
begin

section \<open>Agent events (pinbridge-agent: event.rs)\<close>

text \<open>
  \<open>bindings/rust/pinbridge-agent/src/event.rs\<close>: the event kinds, the fixed-size record every
  analysis callback fills, and the wire image \<open>event_to_record\<close> gives it. The kind constants are
  collected in \<open>event_kinds\<close>; the first nine kinds (0 to 8) have a counter in the global ring.
\<close>

definition EVENT_HOOK_REGS :: u32 where "EVENT_HOOK_REGS = 1"
definition EVENT_MEMORY :: u32 where "EVENT_MEMORY = 2"
definition EVENT_EXEC :: u32 where "EVENT_EXEC = 3"
definition EVENT_BRANCH_EDGE :: u32 where "EVENT_BRANCH_EDGE = 4"
definition EVENT_SYSCALL :: u32 where "EVENT_SYSCALL = 5"
definition EVENT_CONTEXT_CHANGE :: u32 where "EVENT_CONTEXT_CHANGE = 6"
definition EVENT_MODULE_LOAD :: u32 where "EVENT_MODULE_LOAD = 7"
definition EVENT_MODULE_UNLOAD :: u32 where "EVENT_MODULE_UNLOAD = 8"
definition EVENT_EXEC_BYTES :: u32 where "EVENT_EXEC_BYTES = 9"
definition EVENT_MEM_VALUE :: u32 where "EVENT_MEM_VALUE = 10"
definition EVENT_MARKER :: u32 where "EVENT_MARKER = 11"
definition EVENT_REPEAT :: u32 where "EVENT_REPEAT = 12"
definition EVENT_REG_SNAPSHOT :: u32 where "EVENT_REG_SNAPSHOT = 13"
definition EVENT_HOOK_RETURN :: u32 where "EVENT_HOOK_RETURN = 14"
definition EVENT_THREAD_START :: u32 where "EVENT_THREAD_START = 15"
definition EVENT_THREAD_EXIT :: u32 where "EVENT_THREAD_EXIT = 16"
definition EVENT_PROCESS_START :: u32 where "EVENT_PROCESS_START = 17"
definition EVENT_PROCESS_EXIT :: u32 where "EVENT_PROCESS_EXIT = 18"
definition EVENT_PROCESS_FINI :: u32 where "EVENT_PROCESS_FINI = 19"
definition EVENT_SMC :: u32 where "EVENT_SMC = 20"
definition EVENT_PIN_DETACH :: u32 where "EVENT_PIN_DETACH = 21"
definition EVENT_PIN_ATTACH :: u32 where "EVENT_PIN_ATTACH = 22"
definition EVENT_OUT_OF_MEMORY :: u32 where "EVENT_OUT_OF_MEMORY = 23"
definition EVENT_PIN_INTERNAL_EXCEPTION :: u32 where "EVENT_PIN_INTERNAL_EXCEPTION = 24"
definition EVENT_INSTRUCTION_DECODE :: u32 where "EVENT_INSTRUCTION_DECODE = 25"
definition EVENT_DEBUGGER_BREAKPOINT :: u32 where "EVENT_DEBUGGER_BREAKPOINT = 26"
definition EVENT_DEBUGGER_SINGLE_STEP :: u32 where "EVENT_DEBUGGER_SINGLE_STEP = 27"
definition EVENT_DEBUGGER_ASYNC_BREAK :: u32 where "EVENT_DEBUGGER_ASYNC_BREAK = 28"
definition EVENT_TRACE_INSTRUMENT :: u32 where "EVENT_TRACE_INSTRUMENT = 29"
definition EVENT_ROUTINE_INSTRUMENT :: u32 where "EVENT_ROUTINE_INSTRUMENT = 30"
definition EVENT_BBL_INSTRUMENT :: u32 where "EVENT_BBL_INSTRUMENT = 31"
definition EVENT_EXECUTION_TRAP :: u32 where "EVENT_EXECUTION_TRAP = 32"
definition EVENT_EXCEPTION_DISPOSITION :: u32 where "EVENT_EXCEPTION_DISPOSITION = 33"

definition EVENT_KIND_COUNT :: nat where "EVENT_KIND_COUNT = 9"

definition PROCESS_EXIT_SOURCE_API :: u64 where "PROCESS_EXIT_SOURCE_API = 1"
definition PROCESS_EXIT_SOURCE_PREPARE_FINI :: u64 where "PROCESS_EXIT_SOURCE_PREPARE_FINI = 2"

lemmas event_kinds = EVENT_HOOK_REGS_def EVENT_MEMORY_def EVENT_EXEC_def
  EVENT_BRANCH_EDGE_def EVENT_SYSCALL_def EVENT_CONTEXT_CHANGE_def
  EVENT_MODULE_LOAD_def EVENT_MODULE_UNLOAD_def EVENT_EXEC_BYTES_def
  EVENT_MEM_VALUE_def EVENT_MARKER_def EVENT_REPEAT_def
  EVENT_REG_SNAPSHOT_def EVENT_HOOK_RETURN_def EVENT_THREAD_START_def
  EVENT_THREAD_EXIT_def EVENT_PROCESS_START_def EVENT_PROCESS_EXIT_def
  EVENT_PROCESS_FINI_def EVENT_SMC_def EVENT_PIN_DETACH_def
  EVENT_PIN_ATTACH_def EVENT_OUT_OF_MEMORY_def EVENT_PIN_INTERNAL_EXCEPTION_def
  EVENT_INSTRUCTION_DECODE_def EVENT_DEBUGGER_BREAKPOINT_def EVENT_DEBUGGER_SINGLE_STEP_def
  EVENT_DEBUGGER_ASYNC_BREAK_def EVENT_TRACE_INSTRUMENT_def EVENT_ROUTINE_INSTRUMENT_def
  EVENT_BBL_INSTRUMENT_def EVENT_EXECUTION_TRAP_def EVENT_EXCEPTION_DISPOSITION_def

record event =
  ev_sequence :: u64
  ev_kind :: u32
  ev_thread_id :: u32
  ev_address :: u64
  ev_arg0 :: u64
  ev_arg1 :: u64
  ev_arg2 :: u64
  ev_arg3 :: u64
  ev_arg4 :: u64
  ev_arg5 :: u64
  ev_arg6 :: u64
  ev_arg7 :: u64

definition event_empty :: event where
  "event_empty = \<lparr>ev_sequence = 0, ev_kind = 0, ev_thread_id = 0, ev_address = 0, ev_arg0 = 0,
     ev_arg1 = 0, ev_arg2 = 0, ev_arg3 = 0, ev_arg4 = 0, ev_arg5 = 0, ev_arg6 = 0, ev_arg7 = 0\<rparr>"

definition kind_name :: "u32 \<Rightarrow> string" where
  "kind_name kind =
     (if kind = EVENT_HOOK_REGS then ''hook_regs''
     else if kind = EVENT_MEMORY then ''memory''
     else if kind = EVENT_EXEC then ''exec''
     else if kind = EVENT_BRANCH_EDGE then ''branch_edge''
     else if kind = EVENT_SYSCALL then ''syscall''
     else if kind = EVENT_CONTEXT_CHANGE then ''context_change''
     else if kind = EVENT_MODULE_LOAD then ''module_load''
     else if kind = EVENT_MODULE_UNLOAD then ''module_unload''
     else if kind = EVENT_REPEAT then ''repeat''
     else if kind = EVENT_REG_SNAPSHOT then ''reg_snapshot''
     else if kind = EVENT_HOOK_RETURN then ''hook_return''
     else if kind = EVENT_THREAD_START then ''thread_start''
     else if kind = EVENT_THREAD_EXIT then ''thread_exit''
     else if kind = EVENT_PROCESS_START then ''process_start''
     else if kind = EVENT_PROCESS_EXIT then ''process_exit''
     else if kind = EVENT_PROCESS_FINI then ''process_fini''
     else if kind = EVENT_SMC then ''smc''
     else if kind = EVENT_PIN_DETACH then ''pin_detach''
     else if kind = EVENT_PIN_ATTACH then ''pin_attach''
     else if kind = EVENT_OUT_OF_MEMORY then ''out_of_memory''
     else if kind = EVENT_PIN_INTERNAL_EXCEPTION then ''pin_internal_exception''
     else if kind = EVENT_INSTRUCTION_DECODE then ''instruction_decode''
     else if kind = EVENT_DEBUGGER_BREAKPOINT then ''debugger_breakpoint''
     else if kind = EVENT_DEBUGGER_SINGLE_STEP then ''debugger_single_step''
     else if kind = EVENT_DEBUGGER_ASYNC_BREAK then ''debugger_async_break''
     else if kind = EVENT_TRACE_INSTRUMENT then ''trace_instrument''
     else if kind = EVENT_ROUTINE_INSTRUMENT then ''routine_instrument''
     else if kind = EVENT_BBL_INSTRUMENT then ''basic_block_instrument''
     else if kind = EVENT_EXECUTION_TRAP then ''execution_trap''
     else ''unknown'')"

end
