(* ===== verification/Pb_Ring.thy ===== *)
theory Pb_Ring
  imports Pb_Event "HOL-Library.Sublist"
begin

section \<open>Bounded event rings (pinbridge-agent: ring.rs, hook_events.rs)\<close>

text \<open>
  \<open>Ring<CAPACITY>\<close> of \<open>ring.rs\<close> and \<open>HookRing\<close> of \<open>hook_events.rs\<close>, with their push and paging
  operations on \<open>u64\<close> totals. The const generic \<open>CAPACITY\<close> is the length of the slot array. Both
  rings refine the same specification, the log of everything pushed of which the newest
  \<open>CAPACITY\<close> entries can be read: locale \<open>ring_slots\<close> proves it from the slot arithmetic, locale
  \<open>seq_lane\<close> derives from the specification alone what cursor readers rely on.
\<close>

subsection \<open>Ring<CAPACITY>\<close>

definition RING_CAPACITY :: nat where "RING_CAPACITY = 65536"

record ring =
  rg_events :: "event list"
  rg_total :: u64

definition ring_new :: "nat \<Rightarrow> ring" where
  "ring_new capacity = \<lparr>rg_events = replicate capacity event_empty, rg_total = 0\<rparr>"

text \<open>The array index a sequence number lives at, and the slots of an inclusive range.\<close>

definition slot_of :: "nat \<Rightarrow> u64 \<Rightarrow> nat" where
  "slot_of capacity sequence = unat ((sequence - 1) mod word_of_nat capacity)"

definition seq_range :: "u64 \<Rightarrow> u64 \<Rightarrow> u64 list" where
  "seq_range first last_seq = map word_of_nat [unat first ..< Suc (unat last_seq)]"

definition ring_push :: "ring \<Rightarrow> event \<Rightarrow> ring \<times> u64" where
  "ring_push r ev =
     (let edge = rg_total r + 1;
          ev = ev\<lparr>ev_sequence := edge\<rparr>
      in (r\<lparr>rg_total := edge,
            rg_events := (rg_events r)[slot_of (length (rg_events r)) edge := ev]\<rparr>, edge))"

definition ring_drain_newest_into :: "ring \<Rightarrow> nat \<Rightarrow> event list \<Rightarrow> event list" where
  "ring_drain_newest_into r maximum out =
     (let capacity = length (rg_events r);
          retained = min (rg_total r) (word_of_nat capacity);
          taken = min retained (word_of_nat maximum);
          first = rg_total r - taken
      in out @ map (\<lambda>sequence. rg_events r ! slot_of capacity sequence)
                 (seq_range (first + 1) (rg_total r)))"

definition ring_page_into :: "ring \<Rightarrow> u64 \<Rightarrow> nat \<Rightarrow> event list \<Rightarrow> u64 \<times> event list" where
  "ring_page_into r after limit out =
     (let capacity = length (rg_events r);
          retained = min (rg_total r) (word_of_nat capacity);
          oldest = rg_total r - retained + 1;
          first = max (after + 1) oldest;
          missed = sat_sub first (after + 1)
      in (missed,
          if first \<le> rg_total r
          then let last_seq = min (first + word_of_nat limit - 1) (rg_total r)
               in out @ map (\<lambda>sequence. rg_events r ! slot_of capacity sequence) (seq_range first last_seq)
          else out))"

subsection \<open>HookRing\<close>

definition HOOK_EVENT_CAPACITY :: nat where "HOOK_EVENT_CAPACITY = 32768"

record hook_ring =
  hg_events :: "hook_log_record list"
  hg_total :: u64

definition hook_ring_new :: "nat \<Rightarrow> hook_ring" where
  "hook_ring_new capacity = \<lparr>hg_events = replicate capacity hook_log_empty, hg_total = 0\<rparr>"

definition hook_ring_push :: "hook_ring \<Rightarrow> hook_log_record \<Rightarrow> hook_ring \<times> u64" where
  "hook_ring_push r ev =
     (let edge = hg_total r + 1;
          ev = ev\<lparr>hl_sequence := edge\<rparr>
      in (r\<lparr>hg_total := edge,
            hg_events := (hg_events r)[slot_of (length (hg_events r)) edge := ev]\<rparr>, edge))"

definition hook_ring_page_into ::
  "hook_ring \<Rightarrow> u64 \<Rightarrow> nat \<Rightarrow> hook_log_record list \<Rightarrow> u64 \<times> hook_log_record list" where
  "hook_ring_page_into r after limit out =
     (let capacity = length (hg_events r);
          retained = min (hg_total r) (word_of_nat capacity);
          oldest = hg_total r - retained + 1;
          first = max (after + 1) oldest;
          missed = sat_sub first (after + 1)
      in (missed,
          if first \<le> hg_total r
          then let last_seq = min (first + word_of_nat limit - 1) (hg_total r)
               in out @ map (\<lambda>sequence. hg_events r ! slot_of capacity sequence) (seq_range first last_seq)
          else out))"

subsection \<open>The specification: a log with a window\<close>

text \<open>
  \<open>ring_rep slots edge log\<close>: the ring has received \<open>log\<close>, and its slots hold the newest entries.
  The bound on the log keeps the \<open>u64\<close> sequence numbers from wrapping.
\<close>

definition ring_rep :: "'e list \<Rightarrow> u64 \<Rightarrow> 'e list \<Rightarrow> bool" where
  "ring_rep slots edge log \<longleftrightarrow>
     0 < length slots \<and> length slots < 2 ^ 64 \<and> Suc (length log) < 2 ^ 64 \<and>
     edge = word_of_nat (length log) \<and>
     (\<forall>i < length log. length log \<le> i + length slots \<longrightarrow> slots ! (i mod length slots) = log ! i)"

definition log_window :: "nat \<Rightarrow> 'e list \<Rightarrow> nat \<Rightarrow> nat \<Rightarrow> 'e list" where
  "log_window capacity log after limit = take limit (drop (max after (length log - capacity)) log)"

lemma slot_of_nat:
  assumes "i < 2 ^ 64 - 1" and "0 < capacity" and "capacity < 2 ^ 64"
  shows "slot_of capacity (word_of_nat (Suc i)) = i mod capacity"
proof -
  have "(word_of_nat (Suc i) :: u64) - 1 = word_of_nat i" by simp
  moreover have "unat (word_of_nat i :: u64) = i" "unat (word_of_nat capacity :: u64) = capacity"
    using assms by (simp_all add: unat_of_nat)
  ultimately show ?thesis by (simp only: slot_of_def unat_mod)
qed

lemma seq_range_Suc:
  assumes "unat first = Suc a"
  shows "seq_range first last_seq = map (\<lambda>i. word_of_nat (Suc i)) [a ..< unat last_seq]"
proof -
  have "[Suc a ..< Suc (unat last_seq)] = map Suc [a ..< unat last_seq]" by (simp add: map_Suc_upt)
  then show ?thesis by (simp only: seq_range_def assms map_map o_def)
qed

lemma slots_read_window:
  assumes rep: "ring_rep slots edge log" and "length log - length slots \<le> a" and "b \<le> length log"
  shows "map (\<lambda>s. slots ! slot_of (length slots) s) (map (\<lambda>i. word_of_nat (Suc i)) [a ..< b])
           = take (b - a) (drop a log)"
proof (rule nth_equalityI)
  show "length (map (\<lambda>s. slots ! slot_of (length slots) s) (map (\<lambda>i. word_of_nat (Suc i)) [a ..< b]))
      = length (take (b - a) (drop a log))"
    using assms(3) by simp
next
  fix i
  assume "i < length (map (\<lambda>s. slots ! slot_of (length slots) s) (map (\<lambda>i. word_of_nat (Suc i)) [a ..< b]))"
  then have i: "a + i < b" by simp
  have "slot_of (length slots) (word_of_nat (Suc (a + i))) = (a + i) mod length slots"
    using i assms(3) rep by (intro slot_of_nat) (auto simp: ring_rep_def)
  moreover have "slots ! ((a + i) mod length slots) = log ! (a + i)"
    using rep i assms(2,3) by (auto simp: ring_rep_def)
  ultimately show "map (\<lambda>s. slots ! slot_of (length slots) s) (map (\<lambda>i. word_of_nat (Suc i)) [a ..< b]) ! i
      = take (b - a) (drop a log) ! i"
    using i assms(3) by (simp del: of_nat_Suc)
qed

subsection \<open>What a lane promises its readers\<close>

text \<open>
  The contract of a sequenced lane, over the log \<open>rep\<close> relates it to. A reader keeps a cursor, the
  sequence number of the last event it has taken; \<open>lane_run\<close> interleaves any number of
  submissions with pages read from the cursor the previous page left.
\<close>

datatype 'e lane_action = Submit 'e | Page nat

type_synonym ('r, 'e) lane_state = "'r \<times> u64 \<times> 'e list \<times> nat"

fun lane_step ::
  "('r \<Rightarrow> 'e \<Rightarrow> 'r \<times> u64) \<Rightarrow> ('r \<Rightarrow> u64 \<Rightarrow> nat \<Rightarrow> 'e list \<Rightarrow> u64 \<times> 'e list) \<Rightarrow> ('e \<Rightarrow> u64) \<Rightarrow>
   'e lane_action \<Rightarrow> ('r, 'e) lane_state \<Rightarrow> ('r, 'e) lane_state" where
  "lane_step push page seq (Submit e) (r, cursor, taken, missed) = (fst (push r e), cursor, taken, missed)"
| "lane_step push page seq (Page limit) (r, cursor, taken, missed) =
     (case page r cursor limit [] of
        (skipped, events) \<Rightarrow>
          (r, if events = [] then cursor else seq (last events), taken @ events, missed + unat skipped))"

definition lane_run ::
  "('r \<Rightarrow> 'e \<Rightarrow> 'r \<times> u64) \<Rightarrow> ('r \<Rightarrow> u64 \<Rightarrow> nat \<Rightarrow> 'e list \<Rightarrow> u64 \<times> 'e list) \<Rightarrow> ('e \<Rightarrow> u64) \<Rightarrow>
   'e lane_action list \<Rightarrow> ('r, 'e) lane_state \<Rightarrow> ('r, 'e) lane_state" where
  "lane_run push page seq actions s = fold (lane_step push page seq) actions s"

text \<open>The events a run submits, stamped as the lane stamps them, and its bound on page sizes.\<close>

fun lane_log :: "(u64 \<Rightarrow> 'e \<Rightarrow> 'e) \<Rightarrow> 'e lane_action list \<Rightarrow> 'e list \<Rightarrow> 'e list" where
  "lane_log stamp [] log = log"
| "lane_log stamp (Submit e # actions) log =
     lane_log stamp actions (log @ [stamp (word_of_nat (Suc (length log))) e])"
| "lane_log stamp (Page limit # actions) log = lane_log stamp actions log"

definition lane_ok :: "nat \<Rightarrow> 'e lane_action list \<Rightarrow> bool" where
  "lane_ok max_page actions \<longleftrightarrow>
     list_all (\<lambda>a. case a of Submit _ \<Rightarrow> True | Page limit \<Rightarrow> 0 < limit \<and> limit \<le> max_page) actions"

lemma lane_ok_Cons:
  "lane_ok m (Submit e # actions) = lane_ok m actions"
  "lane_ok m (Page limit # actions) = (0 < limit \<and> limit \<le> m \<and> lane_ok m actions)"
  by (simp_all add: lane_ok_def)

lemma lane_log_length: "length log \<le> length (lane_log stamp actions log)"
  by (induction stamp actions log rule: lane_log.induct) auto

lemma subseq_append_right: "subseq xs ys \<Longrightarrow> subseq xs (ys @ zs)"
  by (induction rule: list_emb.induct) auto

lemma take_length_take: "take (length (take n xs)) xs = take n xs"
  by (cases "n \<le> length xs") simp_all

lemma log_window_last:
  assumes "after < length log" and "0 < capacity" and "0 < limit"
  shows "log_window capacity log after limit \<noteq> []"
    and "last (log_window capacity log after limit)
           = log ! (max after (length log - capacity) + length (log_window capacity log after limit) - 1)"
    and "max after (length log - capacity) + length (log_window capacity log after limit) \<le> length log"
proof -
  let ?m = "max after (length log - capacity)"
  have m: "?m < length log" using assms by auto
  then show ne: "log_window capacity log after limit \<noteq> []"
    using assms(3) by (auto simp: log_window_def max_def split: if_splits)
  show "?m + length (log_window capacity log after limit) \<le> length log"
    using m unfolding log_window_def by (simp del: max_less_iff_conj)
  show "last (log_window capacity log after limit)
      = log ! (?m + length (log_window capacity log after limit) - 1)"
  proof -
    let ?w = "log_window capacity log after limit"
    have len: "0 < length ?w" using ne by simp
    then have "last ?w = ?w ! (length ?w - 1)" by (simp add: last_conv_nth [OF ne])
    also have "\<dots> = log ! (?m + (length ?w - 1))"
      using m len by (simp add: log_window_def del: max_less_iff_conj)
    also have "?m + (length ?w - 1) = ?m + length ?w - 1" using len by linarith
    finally show ?thesis .
  qed
qed

locale seq_lane =
  fixes rep :: "'r \<Rightarrow> 'e list \<Rightarrow> bool"
    and push :: "'r \<Rightarrow> 'e \<Rightarrow> 'r \<times> u64"
    and page :: "'r \<Rightarrow> u64 \<Rightarrow> nat \<Rightarrow> 'e list \<Rightarrow> u64 \<times> 'e list"
    and edge :: "'r \<Rightarrow> u64"
    and seq :: "'e \<Rightarrow> u64"
    and stamp :: "u64 \<Rightarrow> 'e \<Rightarrow> 'e"
    and capacity :: "'r \<Rightarrow> nat"
  assumes rep_total: "rep r log \<Longrightarrow> unat (edge r) = length log"
    and rep_small: "rep r log \<Longrightarrow> Suc (length log) < 2 ^ 64"
    and rep_capacity: "rep r log \<Longrightarrow> 0 < capacity r"
    and rep_seq: "rep r log \<Longrightarrow> i < length log \<Longrightarrow> unat (seq (log ! i)) = Suc i"
    and rep_push: "rep r log \<Longrightarrow> Suc (Suc (length log)) < 2 ^ 64 \<Longrightarrow>
      rep (fst (push r e)) (log @ [stamp (word_of_nat (Suc (length log))) e])"
    and push_capacity: "capacity (fst (push r e)) = capacity r"
    and rep_page: "rep r log \<Longrightarrow> Suc (unat after) < 2 ^ 64 \<Longrightarrow> length log + limit < 2 ^ 64 \<Longrightarrow>
      page r after limit out =
        (word_of_nat (max (unat after) (length log - capacity r) - unat after),
         out @ log_window (capacity r) log (unat after) limit)"
begin

lemma page_advances:
  assumes rep: "rep r log" and cursor: "unat cursor \<le> length log" and "0 < limit"
    and "length log + limit < 2 ^ 64" and page: "page r cursor limit [] = (skipped, events)"
    and nxt: "nxt = (if events = [] then cursor else seq (last events))"
  shows "unat nxt = unat cursor + unat skipped + length events"
    and "unat nxt \<le> length log"
    and "take (unat nxt) log
           = take (unat cursor + unat skipped) log @ events"
proof -
  let ?L = "length log" and ?a = "unat cursor" and ?c = "capacity r"
  have small: "Suc ?a < 2 ^ 64" using cursor rep_small [OF rep] by simp
  have c: "0 < ?c" by (rule rep_capacity [OF rep])
  let ?m = "max ?a (?L - ?c)"
  have "skipped = word_of_nat (?m - ?a)" and events: "events = log_window ?c log ?a limit"
    using page unfolding rep_page [OF rep small assms(4), of "[]"] by simp_all
  moreover have "?m - ?a < 2 ^ 64" using rep_small [OF rep] cursor by simp
  ultimately have skipped: "unat skipped = ?m - ?a" by (simp only: unat_of_nat) simp
  have all: "unat nxt = ?a + unat skipped + length events \<and> unat nxt \<le> ?L
    \<and> take (unat nxt) log = take (?a + unat skipped) log @ events"
  proof (cases "?a < ?L")
    case True
    note w = log_window_last [OF True c assms(3), folded events]
    have len: "0 < length events" using w(1) by simp
    have "?m + length events - 1 < ?L" using w(3) len by linarith
    from rep_seq [OF rep this] have "unat (seq (last events)) = Suc (?m + length events - 1)"
      by (simp only: w(2))
    then have n: "unat nxt = ?m + length events" using w(1) len by (simp add: nxt)
    have "take (length events) (drop ?m log) = events"
      unfolding events log_window_def by (rule take_length_take)
    then have "take (unat nxt) log = take ?m log @ events"
      unfolding n take_add by simp
    with n w(3) skipped show ?thesis by simp
  next
    case False
    then have "events = []" "?a = ?L" using cursor by (simp_all add: events log_window_def)
    then show ?thesis using skipped by (simp add: nxt)
  qed
  then show "unat nxt = unat cursor + unat skipped + length events"
    and "unat nxt \<le> length log"
    and "take (unat nxt) log = take (unat cursor + unat skipped) log @ events"
    by auto
qed

lemma run_accounts:
  assumes "rep r log" and "lane_ok max_page actions"
    and "length (lane_log stamp actions log) + max_page + 2 < 2 ^ 64"
    and "unat cursor \<le> length log" and "unat cursor = length taken + missed"
    and "subseq taken (take (unat cursor) log)"
    and "lane_run push page seq actions (r, cursor, taken, missed) = (r', cursor', taken', missed')"
  shows "rep r' (lane_log stamp actions log) \<and> unat cursor' = length taken' + missed'
    \<and> unat cursor' \<le> length (lane_log stamp actions log)
    \<and> subseq taken' (take (unat cursor') (lane_log stamp actions log))"
  using assms
proof (induction actions arbitrary: r log cursor taken missed)
  case Nil
  then show ?case by (simp add: lane_run_def)
next
  case (Cons action actions)
  show ?case
  proof (cases action)
    case (Submit e)
    let ?log = "log @ [stamp (word_of_nat (Suc (length log))) e]"
    have "length ?log \<le> length (lane_log stamp actions ?log)" by (rule lane_log_length)
    then have fits: "Suc (Suc (length log)) < 2 ^ 64" using Cons.prems(3) Submit by simp
    have run: "lane_run push page seq actions (fst (push r e), cursor, taken, missed)
        = (r', cursor', taken', missed')"
      using Cons.prems(7) Submit by (simp add: lane_run_def)
    have sub: "subseq taken (take (unat cursor) ?log)" and le: "unat cursor \<le> length ?log"
      using Cons.prems(4,6) by simp_all
    have ok: "lane_ok max_page actions"
      and bound: "length (lane_log stamp actions ?log) + max_page + 2 < 2 ^ 64"
      using Cons.prems(2,3) Submit by (simp_all add: lane_ok_Cons)
    show ?thesis
      unfolding Submit lane_log.simps
      by (rule Cons.IH [OF rep_push [OF Cons.prems(1) fits] ok bound le Cons.prems(5) sub run])
  next
    case (Page limit)
    obtain skipped events where page: "page r cursor limit [] = (skipped, events)" by fastforce
    let ?nxt = "if events = [] then cursor else seq (last events)"
    have limit: "0 < limit" "limit \<le> max_page" and ok: "lane_ok max_page actions"
      using Cons.prems(2) Page by (auto simp: lane_ok_Cons)
    have fits: "length log + limit < 2 ^ 64"
      using Cons.prems(3) limit(2) lane_log_length [of log stamp "action # actions"] by simp
    note adv = page_advances [OF Cons.prems(1,4) limit(1) fits page refl]
    have "subseq taken (take (unat cursor + unat skipped) log)"
      using Cons.prems(6) by (simp add: take_add subseq_append_right)
    then have "subseq (taken @ events) (take (unat ?nxt) log)"
      unfolding adv(3) by (intro list_emb_append_mono) auto
    moreover have "unat ?nxt = length (taken @ events) + (missed + unat skipped)"
      using adv(1) Cons.prems(5) by simp
    moreover have "lane_run push page seq actions
        (r, ?nxt, taken @ events, missed + unat skipped) = (r', cursor', taken', missed')"
      using Cons.prems(7) Page page by (simp add: lane_run_def)
    moreover have "length (lane_log stamp actions log) + max_page + 2 < 2 ^ 64"
      using Cons.prems(3) Page by simp
    ultimately show ?thesis
      unfolding Page lane_log.simps using Cons.IH [OF Cons.prems(1) ok _ adv(2)] by blast
  qed
qed

end

text \<open>The implementation: a slot array and a total, addressed by \<open>slot_of\<close>.\<close>

locale ring_slots =
  fixes slots :: "'r \<Rightarrow> 'e list"
    and edge :: "'r \<Rightarrow> u64"
    and push :: "'r \<Rightarrow> 'e \<Rightarrow> 'r \<times> u64"
    and page :: "'r \<Rightarrow> u64 \<Rightarrow> nat \<Rightarrow> 'e list \<Rightarrow> u64 \<times> 'e list"
    and seq :: "'e \<Rightarrow> u64"
    and stamp :: "u64 \<Rightarrow> 'e \<Rightarrow> 'e"
  assumes push_edge: "edge (fst (push r e)) = edge r + 1" "snd (push r e) = edge r + 1"
    and push_slots: "slots (fst (push r e)) =
      (slots r)[slot_of (length (slots r)) (edge r + 1) := stamp (edge r + 1) e]"
    and seq_stamp: "seq (stamp n e) = n"
    and page_slots: "page r after limit out =
      (let oldest = edge r - min (edge r) (word_of_nat (length (slots r))) + 1;
           first = max (after + 1) oldest
       in (sat_sub first (after + 1),
           if first \<le> edge r
           then out @ map (\<lambda>s. slots r ! slot_of (length (slots r)) s)
                  (seq_range first (min (first + word_of_nat limit - 1) (edge r)))
           else out))"
begin

lemma slots_push:
  assumes rep: "ring_rep (slots r) (edge r) log" and fits: "Suc (Suc (length log)) < 2 ^ 64"
  shows "ring_rep (slots (fst (push r e))) (edge (fst (push r e)))
           (log @ [stamp (word_of_nat (Suc (length log))) e])"
proof -
  let ?c = "length (slots r)" and ?L = "length log"
  have c: "0 < ?c" "?c < 2 ^ 64" and edge: "edge r = word_of_nat ?L"
    and keep: "\<And>i. i < ?L \<Longrightarrow> ?L \<le> i + ?c \<Longrightarrow> slots r ! (i mod ?c) = log ! i"
    using rep by (auto simp: ring_rep_def)
  have edge': "edge r + 1 = word_of_nat (Suc ?L)" by (simp add: edge)
  have slot: "slot_of ?c (edge r + 1) = ?L mod ?c"
    unfolding edge' using fits c by (intro slot_of_nat) simp_all
  have "slots (fst (push r e)) ! (i mod ?c) = (log @ [stamp (word_of_nat (Suc ?L)) e]) ! i"
    if "i < Suc ?L" and "Suc ?L \<le> i + ?c" for i
  proof (cases "i = ?L")
    case True
    have "?L mod ?c < length (slots r)" using c by simp
    then have "slots (fst (push r e)) ! (?L mod ?c) = stamp (edge r + 1) e"
      by (simp only: push_slots slot nth_list_update_eq)
    then show ?thesis unfolding True by (simp only: edge' nth_append_length)
  next
    case False
    then have i: "i < ?L" using that by simp
    have "i mod ?c \<noteq> ?L mod ?c"
    proof
      assume "i mod ?c = ?L mod ?c"
      then have "?c dvd ?L - i" using i by (metis less_imp_le mod_eq_dvd_iff_nat)
      moreover have "0 < ?L - i" "?L - i < ?c" using i that by auto
      ultimately show False by (simp add: nat_dvd_not_less)
    qed
    moreover have "slots r ! (i mod ?c) = log ! i" using i that by (intro keep) auto
    ultimately show ?thesis using i by (simp add: push_slots slot nth_append)
  qed
  then show ?thesis
    using c fits by (simp add: ring_rep_def push_edge push_slots edge)
qed

lemma slots_page:
  assumes rep: "ring_rep (slots r) (edge r) log" and after: "Suc (unat after) < 2 ^ 64"
    and fits: "length log + limit < 2 ^ 64"
  shows "page r after limit out =
      (word_of_nat (max (unat after) (length log - length (slots r)) - unat after),
       out @ log_window (length (slots r)) log (unat after) limit)"
proof -
  let ?c = "length (slots r)" and ?L = "length log" and ?a = "unat after"
  let ?oldest = "edge r - min (edge r) (word_of_nat ?c) + 1"
  let ?first = "max (after + 1) ?oldest"
  let ?m = "max ?a (?L - ?c)"
  have c: "0 < ?c" "?c < 2 ^ 64" and edge: "unat (edge r) = ?L" and L: "Suc ?L < 2 ^ 64"
    using rep by (auto simp: ring_rep_def unat_of_nat)
  have cw: "unat (word_of_nat ?c :: u64) = ?c" using c by (simp add: unat_of_nat)
  have "unat (min (edge r) (word_of_nat ?c)) = min ?L ?c"
    by (simp add: min_def word_le_nat_alt edge cw)
  then have "unat (edge r - min (edge r) (word_of_nat ?c)) = ?L - ?c"
    using edge by (subst unat_sub) (auto simp: min_def)
  then have oldest: "unat ?oldest = Suc (?L - ?c)"
    using L by (subst unat_plus_no_wrap) simp_all
  have a1: "unat (after + 1) = Suc ?a" using after by (subst unat_plus_no_wrap) simp_all
  have first: "unat ?first = Suc ?m"
    by (simp add: max_def word_le_nat_alt oldest a1)
  have "unat (sat_sub ?first (after + 1)) = ?m - ?a" by (simp only: unat_sat_sub first a1 diff_Suc_Suc)
  then have missed: "sat_sub ?first (after + 1) = word_of_nat (?m - ?a)" by (metis word_nat_cases ucast_id of_nat_unat)
  show ?thesis
  proof (cases "?first \<le> edge r")
    case True
    then have m: "?m < ?L" by (simp only: word_le_nat_alt first edge Suc_le_eq)
    have lim: "unat (word_of_nat limit :: u64) = limit" using fits by (simp add: unat_of_nat)
    have "Suc ?m + limit < 2 ^ LENGTH(64)" using fits m by (simp del: max_less_iff_conj)
    then have "unat (?first + word_of_nat limit) = Suc ?m + limit"
      by (subst unat_plus_no_wrap) (simp_all only: lim first)
    then have "unat (?first + word_of_nat limit - 1) = ?m + limit"
      by (subst unat_sub) (simp_all add: word_le_nat_alt)
    then have last: "unat (min (?first + word_of_nat limit - 1) (edge r)) = min (?m + limit) ?L"
      by (simp add: min_def word_le_nat_alt edge)
    have "map (\<lambda>s. slots r ! slot_of ?c s)
        (seq_range ?first (min (?first + word_of_nat limit - 1) (edge r)))
        = take (min (?m + limit) ?L - ?m) (drop ?m log)"
      unfolding seq_range_Suc [OF first] last by (rule slots_read_window [OF rep]) simp_all
    also have "\<dots> = log_window ?c log ?a limit"
      using m by (cases "?m + limit \<le> ?L") (auto simp: log_window_def min_def)
    finally show ?thesis using True by (simp only: page_slots Let_def missed if_True)
  next
    case False
    then have "?L \<le> ?m" by (simp only: word_le_nat_alt first edge Suc_le_eq not_less)
    then have "log_window ?c log ?a limit = []" by (simp add: log_window_def)
    with False show ?thesis by (simp only: page_slots Let_def missed if_False append_Nil2)
  qed
qed

end

definition lane_rep ::
  "('r \<Rightarrow> 'e list) \<Rightarrow> ('r \<Rightarrow> u64) \<Rightarrow> ('e \<Rightarrow> u64) \<Rightarrow> 'r \<Rightarrow> 'e list \<Rightarrow> bool" where
  "lane_rep slots edge seq r log \<longleftrightarrow>
     ring_rep (slots r) (edge r) log \<and> (\<forall>i < length log. unat (seq (log ! i)) = Suc i)"

sublocale ring_slots \<subseteq> lane: seq_lane "lane_rep slots edge seq" push page edge seq stamp
    "\<lambda>r. length (slots r)"
proof unfold_locales
  fix r log e
  assume rep: "lane_rep slots edge seq r log" and fits: "Suc (Suc (length log)) < 2 ^ 64"
  have "unat (seq (stamp (word_of_nat (Suc (length log))) e)) = Suc (length log)"
    using fits unfolding seq_stamp by (subst unat_of_nat) simp
  then show "lane_rep slots edge seq (fst (push r e)) (log @ [stamp (word_of_nat (Suc (length log))) e])"
    using rep slots_push [OF _ fits, of r e] by (auto simp: lane_rep_def nth_append less_Suc_eq)
next
  fix r log limit out and after :: u64
  assume "lane_rep slots edge seq r log" "Suc (unat after) < 2 ^ 64" "length log + limit < 2 ^ 64"
  then show "page r after limit out =
      (word_of_nat (max (unat after) (length log - length (slots r)) - unat after),
       out @ log_window (length (slots r)) log (unat after) limit)"
    unfolding lane_rep_def by (intro slots_page) auto
qed (auto simp: lane_rep_def ring_rep_def unat_of_nat push_slots)

interpretation rings: ring_slots rg_events rg_total ring_push ring_page_into ev_sequence
    "\<lambda>n e. e\<lparr>ev_sequence := n\<rparr>"
  by unfold_locales (simp_all add: ring_push_def ring_page_into_def Let_def)

interpretation hook_rings: ring_slots hg_events hg_total hook_ring_push hook_ring_page_into hl_sequence
    "\<lambda>n e. e\<lparr>hl_sequence := n\<rparr>"
  by unfold_locales (simp_all add: hook_ring_push_def hook_ring_page_into_def Let_def)

abbreviation ring_holds :: "ring \<Rightarrow> event list \<Rightarrow> bool" where
  "ring_holds \<equiv> lane_rep rg_events rg_total ev_sequence"

abbreviation hook_ring_holds :: "hook_ring \<Rightarrow> hook_log_record list \<Rightarrow> bool" where
  "hook_ring_holds \<equiv> lane_rep hg_events hg_total hl_sequence"

lemma ring_new_holds: "0 < c \<Longrightarrow> c < 2 ^ 64 \<Longrightarrow> ring_holds (ring_new c) []"
  by (simp add: lane_rep_def ring_rep_def ring_new_def)

lemma hook_ring_new_holds: "0 < c \<Longrightarrow> c < 2 ^ 64 \<Longrightarrow> hook_ring_holds (hook_ring_new c) []"
  by (simp add: lane_rep_def ring_rep_def hook_ring_new_def)

lemma ring_drain_newest:
  assumes "ring_holds r log" and "maximum < 2 ^ 64"
  shows "ring_drain_newest_into r maximum out
           = out @ drop (length log - min (length (rg_events r)) maximum) log"
proof -
  let ?c = "length (rg_events r)" and ?L = "length log"
  have rep: "ring_rep (rg_events r) (rg_total r) log"
    using assms(1) by (simp add: lane_rep_def)
  have c: "?c < 2 ^ 64" and edge: "unat (rg_total r) = ?L" and L: "Suc ?L < 2 ^ 64"
    using rep by (auto simp: ring_rep_def unat_of_nat)
  let ?taken = "min (min (rg_total r) (word_of_nat ?c)) (word_of_nat maximum)"
  have "unat (word_of_nat ?c :: u64) = ?c" "unat (word_of_nat maximum :: u64) = maximum"
    using c assms(2) by (simp_all add: unat_of_nat)
  then have taken: "unat ?taken = min ?L (min ?c maximum)"
    by (simp add: min_def word_le_nat_alt edge)
  let ?k = "?L - min ?c maximum"
  have "unat (rg_total r - ?taken) = ?k"
    by (subst unat_sub) (simp_all add: word_le_nat_alt edge taken)
  then have first: "unat (rg_total r - ?taken + 1) = Suc ?k"
    using L by (subst unat_plus_no_wrap) simp_all
  have "map (\<lambda>s. rg_events r ! slot_of ?c s) (seq_range (rg_total r - ?taken + 1) (rg_total r))
      = take (?L - ?k) (drop ?k log)"
    unfolding seq_range_Suc [OF first] edge by (rule slots_read_window [OF rep]) auto
  then show ?thesis by (simp add: ring_drain_newest_into_def Let_def)
qed

subsection \<open>Properties\<close>

text \<open>
  C3. Cursor accounting: whatever submissions and page reads are interleaved, a reader that starts
  at cursor 0 and continues each page from the last sequence number it was given takes events in
  submission order, never one twice, and its cursor is exactly the number of events it took plus
  the number reported as missed.
\<close>

theorem ring_cursor_accounts:
  assumes "0 < capacity" and "capacity < 2 ^ 64" and "lane_ok max_page actions"
    and "length (lane_log (\<lambda>n e. e\<lparr>ev_sequence := n\<rparr>) actions []) + max_page + 2 < 2 ^ 64"
    and "lane_run ring_push ring_page_into ev_sequence actions (ring_new capacity, 0, [], 0)
           = (r, cursor, taken, missed)"
  shows "unat cursor = length taken + missed
    \<and> subseq taken (take (unat cursor) (lane_log (\<lambda>n e. e\<lparr>ev_sequence := n\<rparr>) actions []))"
proof -
  let ?log = "lane_log (\<lambda>n e. e\<lparr>ev_sequence := n\<rparr>) actions []"
  have "ring_holds r ?log \<and> unat cursor = length taken + missed \<and> unat cursor \<le> length ?log
      \<and> subseq taken (take (unat cursor) ?log)"
    by (rule rings.lane.run_accounts [OF ring_new_holds [OF assms(1,2)] assms(3,4) _ _ _ assms(5)])
      simp_all
  then show ?thesis by blast
qed

lemma ring_cursor_accounts_witness:
  "\<exists>r cursor taken missed.
     lane_run ring_push ring_page_into ev_sequence
       [Submit event_empty, Submit event_empty, Submit event_empty, Page 1, Page 8]
       (ring_new 2, 0, [], 0) = (r, cursor, taken, missed)
     \<and> missed = 1 \<and> unat cursor = length taken + missed"
proof -
  let ?as = "[Submit event_empty, Submit event_empty, Submit event_empty, Page 1, Page 8]"
  have "snd (snd (snd (lane_run ring_push ring_page_into ev_sequence ?as (ring_new 2, 0, [], 0)))) = 1"
    by code_simp
  then have "\<exists>r cursor taken. lane_run ring_push ring_page_into ev_sequence ?as (ring_new 2, 0, [], 0)
      = (r, cursor, taken, 1)"
    by (metis prod.collapse)
  then obtain r cursor taken where run: "lane_run ring_push ring_page_into ev_sequence ?as
      (ring_new 2, 0, [], 0) = (r, cursor, taken, 1)" by blast
  have "unat cursor = length taken + 1"
    using ring_cursor_accounts [OF _ _ _ _ run, of 8] by (simp add: lane_ok_def)
  with run show ?thesis by blast
qed

end
