(* ===== verification/Pb_Channels.thy ===== *)
theory Pb_Channels
  imports Pb_Ring
begin

section \<open>Event lanes behind a Pin mutex (ring.rs, event_channel.rs, hook_events.rs)\<close>

text \<open>
  The global ring of \<open>ring.rs\<close>, \<open>EventChannel\<close> of \<open>event_channel.rs\<close> (the priority lane and the
  observation streams) and \<open>HookChannel\<close> of \<open>hook_events.rs\<close> (function calls, system calls). The
  Pin mutex is a parameter: a handle whose value 0 is the null pointer, and for each
  \<open>pb_pin_mutex_try_lock\<close> its status and \<open>acquired\<close> byte. The clock is a parameter as well. The
  second half interleaves the submitting threads step by step.
\<close>

definition PB_OK :: u32 where "PB_OK = 0"
definition PB_ERR_INVALID_ARGUMENT :: u32 where "PB_ERR_INVALID_ARGUMENT = 1"
definition PB_ERR_OUT_OF_MEMORY :: u32 where "PB_ERR_OUT_OF_MEMORY = 3"
definition PB_ERR_UNSUPPORTED :: u32 where "PB_ERR_UNSUPPORTED = 4"
definition PB_ERR_INVALID_STATE :: u32 where "PB_ERR_INVALID_STATE = 6"
definition PB_ERR_INTERNAL :: u32 where "PB_ERR_INTERNAL = 7"

lemmas pb_status_defs = PB_OK_def PB_ERR_INVALID_ARGUMENT_def PB_ERR_OUT_OF_MEMORY_def
  PB_ERR_UNSUPPORTED_def PB_ERR_INVALID_STATE_def PB_ERR_INTERNAL_def

type_synonym try_lock = "u32 \<times> u8"

definition lock_taken :: "try_lock \<Rightarrow> bool" where
  "lock_taken outcome \<longleftrightarrow> \<not> (fst outcome \<noteq> PB_OK \<or> snd outcome = 0)"

definition SPIN_LIMIT :: nat where "SPIN_LIMIT = 1024"

fun lock_spin_loop :: "(nat \<Rightarrow> try_lock) \<Rightarrow> nat \<Rightarrow> nat \<Rightarrow> bool" where
  "lock_spin_loop tries i 0 = False"
| "lock_spin_loop tries i (Suc left) =
     (case tries i of (status, acquired) \<Rightarrow>
        if status \<noteq> PB_OK then False
        else if acquired \<noteq> 0 then True
        else lock_spin_loop tries (Suc i) left)"

definition lock_spin :: "(nat \<Rightarrow> try_lock) \<Rightarrow> bool" where
  "lock_spin tries = lock_spin_loop tries 0 SPIN_LIMIT"

lemma lock_spin_loop_iff:
  "lock_spin_loop tries i n \<longleftrightarrow>
     (\<exists>j < n. lock_taken (tries (i + j)) \<and> (\<forall>k < j. tries (i + k) = (PB_OK, 0)))"
proof (induction n arbitrary: i)
  case (Suc n)
  obtain st acq where t: "tries i = (st, acq)" by fastforce
  have ex: "(\<exists>j < Suc n. P j) \<longleftrightarrow> P 0 \<or> (\<exists>j < n. P (Suc j))" for P
    using less_Suc_eq_0_disj by auto
  have all: "(\<forall>k < Suc j. Q k) \<longleftrightarrow> Q 0 \<and> (\<forall>k < j. Q (Suc k))" for Q :: "nat \<Rightarrow> bool" and j
    using less_Suc_eq_0_disj by auto
  show ?case
    by (simp add: t ex all Suc.IH lock_taken_def)
qed simp

subsection \<open>The global ring\<close>

record ring_state =
  rs_ring :: ring
  rs_mutex :: u64
  rs_kind_counters :: "u64 list"
  rs_total_seq :: u64
  rs_ring_total :: u64

definition ring_state_new :: ring_state where
  "ring_state_new = \<lparr>rs_ring = ring_new RING_CAPACITY, rs_mutex = 0,
     rs_kind_counters = replicate EVENT_KIND_COUNT 0, rs_total_seq = 0, rs_ring_total = 0\<rparr>"

definition ring_init :: "u32 \<Rightarrow> u64 \<Rightarrow> ring_state \<Rightarrow> u32 \<times> ring_state" where
  "ring_init status handle s = (status, if status = PB_OK then s\<lparr>rs_mutex := handle\<rparr> else s)"

definition ring_submit :: "try_lock \<Rightarrow> event \<Rightarrow> ring_state \<Rightarrow> ring_state" where
  "ring_submit outcome e s =
     (let kind = unat (ev_kind e);
          s = (if kind < EVENT_KIND_COUNT
               then s\<lparr>rs_kind_counters := (rs_kind_counters s)[kind := rs_kind_counters s ! kind + 1]\<rparr>
               else s);
          s = s\<lparr>rs_total_seq := rs_total_seq s + 1\<rparr>
      in if rs_mutex s = 0 then s
         else if fst outcome \<noteq> PB_OK \<or> snd outcome = 0 then s
         else case ring_push (rs_ring s) e of
                (ring, edge) \<Rightarrow> s\<lparr>rs_ring := ring, rs_ring_total := edge\<rparr>)"

definition ring_total_seq :: "ring_state \<Rightarrow> u64" where "ring_total_seq s = rs_total_seq s"
definition ring_ring_total :: "ring_state \<Rightarrow> u64" where "ring_ring_total s = rs_ring_total s"
definition ring_kind_count :: "ring_state \<Rightarrow> nat \<Rightarrow> u64" where
  "ring_kind_count s kind = rs_kind_counters s ! kind"

definition ring_try_page ::
  "(nat \<Rightarrow> try_lock) \<Rightarrow> ring_state \<Rightarrow> u64 \<Rightarrow> nat \<Rightarrow> event list \<Rightarrow> (u64 \<times> u64) option \<times> event list" where
  "ring_try_page tries s after limit out =
     (if rs_mutex s = 0 then (None, out)
      else if \<not> lock_spin tries then (None, out)
      else case ring_page_into (rs_ring s) after limit out of
             (missed, out) \<Rightarrow> (Some (missed, rg_total (rs_ring s)), out))"

definition ring_try_drain_newest ::
  "(nat \<Rightarrow> try_lock) \<Rightarrow> ring_state \<Rightarrow> nat \<Rightarrow> event list \<Rightarrow> unit option \<times> event list" where
  "ring_try_drain_newest tries s maximum out =
     (if rs_mutex s = 0 then (None, out)
      else if \<not> lock_spin tries then (None, out)
      else (Some (), ring_drain_newest_into (rs_ring s) maximum out))"

subsection \<open>EventChannel\<close>

record event_channel =
  ec_ring :: ring
  ec_mutex :: u64
  ec_submitted :: u64
  ec_retained_total :: u64

definition event_channel_new :: "nat \<Rightarrow> event_channel" where
  "event_channel_new capacity =
     \<lparr>ec_ring = ring_new capacity, ec_mutex = 0, ec_submitted = 0, ec_retained_total = 0\<rparr>"

definition event_channel_init :: "u32 \<Rightarrow> u64 \<Rightarrow> event_channel \<Rightarrow> u32 \<times> event_channel" where
  "event_channel_init status handle c = (status, if status = PB_OK then c\<lparr>ec_mutex := handle\<rparr> else c)"

definition event_channel_submit :: "try_lock \<Rightarrow> event \<Rightarrow> event_channel \<Rightarrow> event_channel" where
  "event_channel_submit outcome e c =
     (let c = c\<lparr>ec_submitted := ec_submitted c + 1\<rparr>
      in if ec_mutex c = 0 then c
         else if fst outcome \<noteq> PB_OK \<or> snd outcome = 0 then c
         else case ring_push (ec_ring c) e of
                (ring, edge) \<Rightarrow> c\<lparr>ec_ring := ring, ec_retained_total := edge\<rparr>)"

definition event_channel_total :: "event_channel \<Rightarrow> u64" where
  "event_channel_total c = ec_retained_total c"

definition event_channel_dropped :: "event_channel \<Rightarrow> u64" where
  "event_channel_dropped c = sat_sub (ec_submitted c) (ec_retained_total c)"

definition event_channel_try_page ::
  "(nat \<Rightarrow> try_lock) \<Rightarrow> event_channel \<Rightarrow> u64 \<Rightarrow> nat \<Rightarrow> event list \<Rightarrow> (u64 \<times> u64) option \<times> event list" where
  "event_channel_try_page tries c after limit out =
     (if ec_mutex c = 0 then (None, out)
      else if \<not> lock_spin tries then (None, out)
      else case ring_page_into (ec_ring c) after limit out of
             (missed, out) \<Rightarrow> (Some (missed, rg_total (ec_ring c)), out))"

subsection \<open>HookChannel\<close>

text \<open>\<open>filetime\<close> is the pair of halves \<open>GetSystemTimePreciseAsFileTime\<close> fills in.\<close>

definition WINDOWS_TO_UNIX_100NS :: u64 where "WINDOWS_TO_UNIX_100NS = 116444736000000000"

definition sat_mul :: "'a::len word \<Rightarrow> 'a word \<Rightarrow> 'a word" where
  "sat_mul a b = (if unat a * unat b < 2 ^ LENGTH('a) then a * b else - 1)"

definition unix_time_ns :: "u32 \<times> u32 \<Rightarrow> u64" where
  "unix_time_ns filetime =
     (case filetime of (low, high) \<Rightarrow>
        let ticks = push_bit 32 (ucast high) OR ucast low
        in sat_mul (sat_sub ticks WINDOWS_TO_UNIX_100NS) 100)"

record hook_channel =
  hc_ring :: hook_ring
  hc_mutex :: u64
  hc_submitted :: u64
  hc_retained_total :: u64

definition hook_channel_new :: "nat \<Rightarrow> hook_channel" where
  "hook_channel_new capacity =
     \<lparr>hc_ring = hook_ring_new capacity, hc_mutex = 0, hc_submitted = 0, hc_retained_total = 0\<rparr>"

definition hook_channel_init :: "u32 \<Rightarrow> u64 \<Rightarrow> hook_channel \<Rightarrow> u32 \<times> hook_channel" where
  "hook_channel_init status handle c = (status, if status = PB_OK then c\<lparr>hc_mutex := handle\<rparr> else c)"

definition hook_channel_submit ::
  "try_lock \<Rightarrow> u32 \<times> u32 \<Rightarrow> hook_log_record \<Rightarrow> hook_channel \<Rightarrow> hook_channel" where
  "hook_channel_submit outcome filetime e c =
     (let c = c\<lparr>hc_submitted := hc_submitted c + 1\<rparr>
      in if hc_mutex c = 0 then c
         else if fst outcome \<noteq> PB_OK \<or> snd outcome = 0 then c
         else let e = e\<lparr>hl_timestamp_unix_ns := unix_time_ns filetime\<rparr>
              in case hook_ring_push (hc_ring c) e of
                   (ring, edge) \<Rightarrow> c\<lparr>hc_ring := ring, hc_retained_total := edge\<rparr>)"

definition hook_channel_total :: "hook_channel \<Rightarrow> u64" where
  "hook_channel_total c = hc_retained_total c"

definition hook_channel_dropped :: "hook_channel \<Rightarrow> u64" where
  "hook_channel_dropped c = sat_sub (hc_submitted c) (hc_retained_total c)"

definition hook_channel_try_page ::
  "(nat \<Rightarrow> try_lock) \<Rightarrow> hook_channel \<Rightarrow> u64 \<Rightarrow> nat \<Rightarrow> hook_log_record list
     \<Rightarrow> (u64 \<times> u64) option \<times> hook_log_record list" where
  "hook_channel_try_page tries c after limit out =
     (if hc_mutex c = 0 then (None, out)
      else if \<not> lock_spin tries then (None, out)
      else case hook_ring_page_into (hc_ring c) after limit out of
             (missed, out) \<Rightarrow> (Some (missed, hg_total (hc_ring c)), out))"

text \<open>
  The two static channels of \<open>hook_events.rs\<close>. Each \<open>submit_*\<close> function builds its record and
  hands it to one of them.
\<close>

record hook_lanes =
  hk_channel :: hook_channel
  hk_syscall_channel :: hook_channel

definition hook_lanes_new :: hook_lanes where
  "hook_lanes_new = \<lparr>hk_channel = hook_channel_new HOOK_EVENT_CAPACITY,
     hk_syscall_channel = hook_channel_new HOOK_EVENT_CAPACITY\<rparr>"

definition hook_events_init :: "u32 \<times> u64 \<Rightarrow> u32 \<times> u64 \<Rightarrow> hook_lanes \<Rightarrow> u32 \<times> hook_lanes" where
  "hook_events_init first second s =
     (case hook_channel_init (fst first) (snd first) (hk_channel s) of
        (status, channel) \<Rightarrow>
          let s = s\<lparr>hk_channel := channel\<rparr>
          in if status \<noteq> PB_OK then (status, s)
             else case hook_channel_init (fst second) (snd second) (hk_syscall_channel s) of
                    (status, channel) \<Rightarrow> (status, s\<lparr>hk_syscall_channel := channel\<rparr>))"

definition event_arguments :: "event \<Rightarrow> u64 list" where
  "event_arguments e = [ev_arg0 e, ev_arg1 e, ev_arg2 e, ev_arg3 e, ev_arg4 e, ev_arg5 e,
     ev_arg6 e, ev_arg7 e] @ replicate 8 0"

definition submit_with_flags ::
  "try_lock \<Rightarrow> u32 \<times> u32 \<Rightarrow> event \<Rightarrow> u32 \<Rightarrow> hook_lanes \<Rightarrow> hook_lanes" where
  "submit_with_flags outcome filetime e flags s =
     s\<lparr>hk_channel := hook_channel_submit outcome filetime
         (hook_log_empty\<lparr>hl_kind := ev_kind e, hl_thread_id := ev_thread_id e,
            hl_address := ev_address e,
            hl_argument_count := (if ev_kind e = EVENT_HOOK_RETURN then 0 else 8),
            hl_flags := flags, hl_arguments := event_arguments e\<rparr>) (hk_channel s)\<rparr>"

definition hook_events_submit :: "try_lock \<Rightarrow> u32 \<times> u32 \<Rightarrow> event \<Rightarrow> hook_lanes \<Rightarrow> hook_lanes" where
  "hook_events_submit outcome filetime e s = submit_with_flags outcome filetime e 0 s"

definition submit_function :: "try_lock \<Rightarrow> u32 \<times> u32 \<Rightarrow> event \<Rightarrow> hook_lanes \<Rightarrow> hook_lanes" where
  "submit_function outcome filetime e s = submit_with_flags outcome filetime e HOOK_LOG_FLAG_FUNCTION s"

definition submit_syscall :: "try_lock \<Rightarrow> u32 \<times> u32 \<Rightarrow> event \<Rightarrow> hook_lanes \<Rightarrow> hook_lanes" where
  "submit_syscall outcome filetime e s =
     (if ev_kind e \<noteq> EVENT_SYSCALL then s
      else s\<lparr>hk_syscall_channel := hook_channel_submit outcome filetime
             (hook_log_empty\<lparr>hl_kind := EVENT_SYSCALL, hl_thread_id := ev_thread_id e,
                hl_address := 0, hl_argument_count := 9, hl_flags := HOOK_LOG_FLAG_SYSCALL,
                hl_arguments := (event_arguments e)[8 := ev_address e]\<rparr>) (hk_syscall_channel s)\<rparr>)"

definition submit_signature_entry ::
  "try_lock \<Rightarrow> u32 \<times> u32 \<Rightarrow> u64 \<Rightarrow> u32 \<Rightarrow> u32 \<Rightarrow> u64 list \<Rightarrow> hook_lanes \<Rightarrow> hook_lanes" where
  "submit_signature_entry outcome filetime address thread_id argument_count arguments s =
     s\<lparr>hk_channel := hook_channel_submit outcome filetime
         (hook_log_empty\<lparr>hl_kind := EVENT_HOOK_REGS, hl_thread_id := thread_id,
            hl_address := address, hl_argument_count := min argument_count 16,
            hl_flags := HOOK_LOG_FLAG_SIGNATURE OR HOOK_LOG_FLAG_FUNCTION,
            hl_arguments := arguments\<rparr>) (hk_channel s)\<rparr>"

definition submit_signature_return ::
  "try_lock \<Rightarrow> u32 \<times> u32 \<Rightarrow> u64 \<Rightarrow> u32 \<Rightarrow> u64 \<Rightarrow> hook_lanes \<Rightarrow> hook_lanes" where
  "submit_signature_return outcome filetime address thread_id return_value s =
     s\<lparr>hk_channel := hook_channel_submit outcome filetime
         (hook_log_empty\<lparr>hl_kind := EVENT_HOOK_RETURN, hl_thread_id := thread_id,
            hl_address := address, hl_flags := HOOK_LOG_FLAG_SIGNATURE OR HOOK_LOG_FLAG_FUNCTION,
            hl_arguments := (replicate 16 0)[0 := return_value]\<rparr>) (hk_channel s)\<rparr>"

end
