(* ===== verification/Pb_Submit.thy ===== *)
theory Pb_Submit
  imports Pb_Channels
begin

section \<open>Concurrent submission (event_channel.rs)\<close>

text \<open>
  \<open>EventChannel::submit\<close> and the locked readers, interleaved step by step: a thread bumps
  \<open>submitted\<close>, tries the Pin mutex once, pushes, publishes \<open>retained_total\<close> and unlocks, and any
  other thread may act between two of these steps. The mutex is its holder. The last three fields
  of the state are history, read by the statements only: how many submissions began, which events
  landed in the ring, and how many were given up.
\<close>

datatype submit_phase = Idle | Counted event | Holding event | Pushed u64 | Published | Reading

record submit_state =
  ss_channel :: event_channel
  ss_holder :: "nat option"
  ss_phase :: "nat \<Rightarrow> submit_phase"
  ss_attempts :: nat
  ss_log :: "event list"
  ss_lost :: nat

definition submit_start :: "event_channel \<Rightarrow> submit_state" where
  "submit_start c = \<lparr>ss_channel = c, ss_holder = None, ss_phase = \<lambda>_. Idle, ss_attempts = 0,
     ss_log = [], ss_lost = 0\<rparr>"

inductive submit_step :: "submit_state \<Rightarrow> submit_state \<Rightarrow> bool" where
  count: "ss_phase s t = Idle \<Longrightarrow>
    submit_step s (s\<lparr>ss_channel := (ss_channel s)\<lparr>ec_submitted := ec_submitted (ss_channel s) + 1\<rparr>,
      ss_phase := (ss_phase s)(t := Counted e), ss_attempts := Suc (ss_attempts s)\<rparr>)"
| give_up: "ss_phase s t = Counted e \<Longrightarrow>
    submit_step s (s\<lparr>ss_phase := (ss_phase s)(t := Idle), ss_lost := Suc (ss_lost s)\<rparr>)"
| acquire: "ss_phase s t = Counted e \<Longrightarrow> ec_mutex (ss_channel s) \<noteq> 0 \<Longrightarrow> ss_holder s = None \<Longrightarrow>
    submit_step s (s\<lparr>ss_holder := Some t, ss_phase := (ss_phase s)(t := Holding e)\<rparr>)"
| push: "ss_phase s t = Holding e \<Longrightarrow> ring_push (ec_ring (ss_channel s)) e = (ring, edge) \<Longrightarrow>
    submit_step s (s\<lparr>ss_channel := (ss_channel s)\<lparr>ec_ring := ring\<rparr>,
      ss_phase := (ss_phase s)(t := Pushed edge),
      ss_log := ss_log s @ [e\<lparr>ev_sequence := edge\<rparr>]\<rparr>)"
| publish: "ss_phase s t = Pushed edge \<Longrightarrow>
    submit_step s (s\<lparr>ss_channel := (ss_channel s)\<lparr>ec_retained_total := edge\<rparr>,
      ss_phase := (ss_phase s)(t := Published)\<rparr>)"
| unlock: "ss_phase s t = Published \<Longrightarrow>
    submit_step s (s\<lparr>ss_holder := None, ss_phase := (ss_phase s)(t := Idle)\<rparr>)"
| read_lock: "ss_phase s t = Idle \<Longrightarrow> ec_mutex (ss_channel s) \<noteq> 0 \<Longrightarrow> ss_holder s = None \<Longrightarrow>
    submit_step s (s\<lparr>ss_holder := Some t, ss_phase := (ss_phase s)(t := Reading)\<rparr>)"
| read_unlock: "ss_phase s t = Reading \<Longrightarrow>
    submit_step s (s\<lparr>ss_holder := None, ss_phase := (ss_phase s)(t := Idle)\<rparr>)"

inductive submit_reachable :: "event_channel \<Rightarrow> submit_state \<Rightarrow> bool" for c where
  start: "submit_reachable c (submit_start c)"
| step: "submit_reachable c s \<Longrightarrow> submit_step s s' \<Longrightarrow> submit_reachable c s'"

inductive_cases submit_stepE: "submit_step s s'"

fun pending :: "submit_phase \<Rightarrow> bool" where
  "pending (Counted e) = True"
| "pending (Holding e) = True"
| "pending _ = False"

fun locking :: "submit_phase \<Rightarrow> bool" where
  "locking Idle = False"
| "locking (Counted e) = False"
| "locking _ = True"

definition in_flight :: "(nat \<Rightarrow> submit_phase) \<Rightarrow> nat" where
  "in_flight f = card {t. pending (f t)}"

definition unpublished :: "(nat \<Rightarrow> submit_phase) \<Rightarrow> bool" where
  "unpublished f \<longleftrightarrow> (\<exists>t edge. f t = Pushed edge)"

definition active_finite :: "(nat \<Rightarrow> submit_phase) \<Rightarrow> bool" where
  "active_finite f \<longleftrightarrow> finite {t. f t \<noteq> Idle}"

definition holder_ok :: "nat option \<Rightarrow> (nat \<Rightarrow> submit_phase) \<Rightarrow> bool" where
  "holder_ok h f \<longleftrightarrow> (\<forall>t. h = Some t \<longleftrightarrow> locking (f t))"

lemma active_finite_upd [simp]: "active_finite f \<Longrightarrow> active_finite (f(t := p))"
  unfolding active_finite_def
  by (rule finite_subset [of _ "insert t {t. f t \<noteq> Idle}"]) (auto split: if_splits)

lemma holder_ok_upd:
  "holder_ok h f \<Longrightarrow> locking (f t) = locking p \<Longrightarrow> holder_ok h (f(t := p))"
  "holder_ok None f \<Longrightarrow> locking p \<Longrightarrow> holder_ok (Some t) (f(t := p))"
  by (auto simp: holder_ok_def)

lemma holder_ok_release:
  "holder_ok h f \<Longrightarrow> locking (f t) \<Longrightarrow> \<not> locking p \<Longrightarrow> holder_ok None (f(t := p))"
  by (auto simp: holder_ok_def) (metis option.inject)

lemma card_pending_update:
  assumes "active_finite f"
  shows "card {u. pending ((f(t := p)) u)} + (if pending (f t) then 1 else 0)
           = card {u. pending (f u)} + (if pending p then 1 else 0)"
proof -
  have fin: "finite {u. pending (f u)}"
    by (rule finite_subset [OF _ assms [unfolded active_finite_def]]) auto
  have split: "{u. pending ((f(t := p)) u)} = ({u. pending (f u)} - {t}) \<union> (if pending p then {t} else {})"
    by (auto simp: fun_upd_def split: if_splits)
  show ?thesis
  proof (cases "pending (f t)")
    case True
    then have "Suc (card ({u. pending (f u)} - {t})) = card {u. pending (f u)}"
      using fin by (intro card_Suc_Diff1) auto
    moreover have "card {u. pending ((f(t := p)) u)}
        = card ({u. pending (f u)} - {t}) + (if pending p then 1 else 0)"
      using fin unfolding split by (subst card_Un_disjoint) auto
    ultimately show ?thesis using True by simp
  next
    case False
    then have "{u. pending (f u)} - {t} = {u. pending (f u)}" by auto
    then have "card {u. pending ((f(t := p)) u)} = card {u. pending (f u)} + (if pending p then 1 else 0)"
      using fin False unfolding split by (subst card_Un_disjoint) auto
    with False show ?thesis by simp
  qed
qed

text \<open>The invariant, its counting part only as long as the counters have not wrapped.\<close>

definition locks_ok :: "submit_state \<Rightarrow> bool" where
  "locks_ok s \<longleftrightarrow> active_finite (ss_phase s) \<and> holder_ok (ss_holder s) (ss_phase s)"

definition counts_ok :: "submit_state \<Rightarrow> bool" where
  "counts_ok s \<longleftrightarrow> ring_holds (ec_ring (ss_channel s)) (ss_log s) \<and>
     unat (ec_submitted (ss_channel s)) = ss_attempts s \<and>
     length (ss_log s) + ss_lost s + in_flight (ss_phase s) = ss_attempts s \<and>
     (\<forall>t edge. ss_phase s t = Pushed edge \<longrightarrow> edge = rg_total (ec_ring (ss_channel s))) \<and>
     length (ss_log s) = unat (ec_retained_total (ss_channel s)) + (if unpublished (ss_phase s) then 1 else 0)"

lemma locks_ok_step: "submit_step s s' \<Longrightarrow> locks_ok s \<Longrightarrow> locks_ok s'"
  by (erule submit_stepE) (auto simp: locks_ok_def holder_ok_upd intro: holder_ok_release)

lemma attempts_mono: "submit_step s s' \<Longrightarrow> ss_attempts s \<le> ss_attempts s'"
  by (erule submit_stepE) auto

lemma in_flight_upd:
  "active_finite f \<Longrightarrow> in_flight (f(t := p)) + (if pending (f t) then 1 else 0)
     = in_flight f + (if pending p then 1 else 0)"
  unfolding in_flight_def by (rule card_pending_update)

lemma unpublished_upd:
  assumes "holder_ok h f" and "locking (f t)"
  shows "unpublished (f(t := p)) \<longleftrightarrow> (\<exists>edge. p = Pushed edge)"
proof -
  have "u = t" if "f u = Pushed edge" for u edge
  proof -
    have "locking (f u)" using that by simp
    with assms show ?thesis by (metis holder_ok_def option.inject)
  qed
  then show ?thesis by (auto simp: unpublished_def split: if_splits)
qed

lemma unpublished_locking:
  "holder_ok h f \<Longrightarrow> locking (f t) \<Longrightarrow> unpublished f \<longleftrightarrow> (\<exists>edge. f t = Pushed edge)"
  using unpublished_upd [of h f t "f t"] by simp

lemma unpublished_other:
  "(\<forall>e. f t \<noteq> Pushed e) \<Longrightarrow> (\<forall>e. p \<noteq> Pushed e) \<Longrightarrow> unpublished (f(t := p)) \<longleftrightarrow> unpublished f"
  by (auto simp: unpublished_def)

lemma counts_ok_quiet:
  assumes "counts_ok s" and "active_finite (ss_phase s)"
    and "\<forall>e. ss_phase s t \<noteq> Pushed e" and "\<forall>e. p \<noteq> Pushed e"
    and "pending (ss_phase s t) = pending p"
  shows "counts_ok (s\<lparr>ss_holder := h, ss_phase := (ss_phase s)(t := p)\<rparr>)"
  using assms in_flight_upd [of "ss_phase s" t p]
  by (auto simp: counts_ok_def unpublished_other split: if_splits)

lemma counts_ok_step:
  assumes "submit_step s s'" and "locks_ok s" and counts: "counts_ok s"
    and small: "ss_attempts s' < 2 ^ 64 - 2"
  shows "counts_ok s'"
proof -
  have fin: "active_finite (ss_phase s)" and lock: "holder_ok (ss_holder s) (ss_phase s)"
    using assms(2) by (auto simp: locks_ok_def)
  note quiet = counts_ok_quiet [OF counts fin]
  from assms(1) show ?thesis
  proof (cases rule: submit_step.cases)
    case (count t e)
    then show ?thesis
      using counts small in_flight_upd [OF fin, of t "Counted e"]
      by (auto simp: counts_ok_def unpublished_other unat_plus_no_wrap split: if_splits)
  next
    case (give_up t e)
    then show ?thesis
      using counts in_flight_upd [OF fin, of t Idle]
      by (auto simp: counts_ok_def unpublished_other split: if_splits)
  next
    case (push t e ring edge)
    let ?r = "ec_ring (ss_channel s)"
    have rep: "ring_holds ?r (ss_log s)" and len: "length (ss_log s) < 2 ^ 64 - 2"
      using counts small push by (auto simp: counts_ok_def)
    have edge: "edge = rg_total ring" "edge = word_of_nat (Suc (length (ss_log s)))"
      using push(3) rings.push_edge [of ?r e] rep
      by (auto simp: lane_rep_def ring_rep_def add.commute)
    have "ring_holds ring (ss_log s @ [e\<lparr>ev_sequence := edge\<rparr>])"
      using rings.lane.rep_push [OF rep, of e] len push(3) by (simp add: edge(2))
    moreover have "unpublished ((ss_phase s)(t := Pushed edge))" "\<not> unpublished (ss_phase s)"
      using unpublished_upd [OF lock, of t "Pushed edge"] unpublished_upd [OF lock, of t "Holding e"]
        push(2) by (auto simp: fun_upd_idem)
    moreover have "ss_phase s u \<noteq> Pushed x" for u x
      using calculation(3) by (auto simp: unpublished_def)
    ultimately show ?thesis
      using counts push in_flight_upd [OF fin, of t "Pushed edge"] edge(1)
      by (auto simp: counts_ok_def)
  next
    case (publish t edge)
    have "ring_holds (ec_ring (ss_channel s)) (ss_log s)" "edge = rg_total (ec_ring (ss_channel s))"
      using counts publish by (auto simp: counts_ok_def)
    then have "unat edge = length (ss_log s)" by (simp add: rings.lane.rep_total)
    moreover have "\<not> unpublished ((ss_phase s)(t := Published))"
      using unpublished_upd [OF lock, of t Published] publish(2) by auto
    ultimately show ?thesis
      using counts publish in_flight_upd [OF fin, of t Published] by (auto simp: counts_ok_def)
  qed (insert quiet, auto)
qed

lemma submit_reachable_ok:
  assumes "submit_reachable (snd (event_channel_init PB_OK handle (event_channel_new capacity))) s"
    and "0 < capacity" and "capacity < 2 ^ 64"
  shows "locks_ok s \<and> (ss_attempts s < 2 ^ 64 - 2 \<longrightarrow> counts_ok s)"
  using assms(1)
proof (induction rule: submit_reachable.induct)
  case start
  show ?case
    using ring_new_holds [OF assms(2,3)]
    by (simp add: locks_ok_def active_finite_def holder_ok_def counts_ok_def submit_start_def
        event_channel_init_def event_channel_new_def in_flight_def unpublished_def)
next
  case (step s s')
  then show ?case
    using locks_ok_step attempts_mono counts_ok_step by (meson order.strict_trans1)
qed

text \<open>
  C4. Concurrent submission: however the threads' submissions and the locked readers interleave,
  at most one thread is inside the lock, the ring holds exactly the events that landed, in the
  order they landed, and \<open>dropped()\<close> is the number of submissions given up plus those still
  under way (not yet landed, or landed and not yet published); so it is exact when none is.
\<close>

theorem submit_accounting:
  assumes "submit_reachable (snd (event_channel_init PB_OK handle (event_channel_new capacity))) s"
    and "0 < capacity" and "capacity < 2 ^ 64" and "ss_attempts s < 2 ^ 64 - 2"
  shows "(\<forall>t u. locking (ss_phase s t) \<longrightarrow> locking (ss_phase s u) \<longrightarrow> t = u)
    \<and> ring_holds (ec_ring (ss_channel s)) (ss_log s)
    \<and> unat (event_channel_dropped (ss_channel s))
        = ss_lost s + in_flight (ss_phase s) + (if unpublished (ss_phase s) then 1 else 0)"
proof -
  have locks: "locks_ok s" and counts: "counts_ok s"
    using submit_reachable_ok [OF assms(1-3)] assms(4) by auto
  have "t = u" if "locking (ss_phase s t)" and "locking (ss_phase s u)" for t u
    using locks that by (metis locks_ok_def holder_ok_def option.inject)
  with counts show ?thesis
    by (auto simp: counts_ok_def event_channel_dropped_def unat_sat_sub)
qed

lemma submit_accounting_witness:
  "\<exists>s :: submit_state. ss_lost s = 1 \<and> ss_attempts s = 1 \<and> unat (event_channel_dropped (ss_channel s))
     = ss_lost s + in_flight (ss_phase s) + (if unpublished (ss_phase s) then 1 else 0)"
proof -
  let ?c = "snd (event_channel_init PB_OK 64 (event_channel_new 2))"
  let ?s0 = "submit_start ?c"
  let ?s1 = "?s0\<lparr>ss_channel := (ss_channel ?s0)\<lparr>ec_submitted := ec_submitted (ss_channel ?s0) + 1\<rparr>,
      ss_phase := (ss_phase ?s0)(5 := Counted event_empty), ss_attempts := Suc (ss_attempts ?s0)\<rparr>"
  let ?s2 = "?s1\<lparr>ss_phase := (ss_phase ?s1)(5 := Idle), ss_lost := Suc (ss_lost ?s1)\<rparr>"
  have "submit_step ?s0 ?s1" by (rule submit_step.count) (simp add: submit_start_def)
  moreover have "submit_step ?s1 ?s2" by (rule submit_step.give_up [of _ _ event_empty]) simp
  ultimately have "submit_reachable ?c ?s2"
    by (meson submit_reachable.start submit_reachable.step)
  moreover have "ss_lost ?s2 = 1 \<and> ss_attempts ?s2 = 1" by (simp add: submit_start_def)
  ultimately obtain s where s: "submit_reachable ?c s" "ss_lost s = 1" "ss_attempts s = 1" by blast
  from submit_accounting [OF s(1)] s(3) have "unat (event_channel_dropped (ss_channel s))
      = ss_lost s + in_flight (ss_phase s) + (if unpublished (ss_phase s) then 1 else 0)"
    by simp
  with s(2,3) show ?thesis by blast
qed

end
