(* ===== verification/Pb_Arch.thy ===== *)
theory Pb_Arch
  imports Pb_Channels
begin

section \<open>Architecture facts and the Pin context interface (arch.rs)\<close>

text \<open>
  \<open>bindings/rust/pinbridge-agent/src/arch.rs\<close>, with the pointer width of the running image (4 or
  8) as the argument \<open>width\<close>, and the Pin calls on a register context as the fields of one
  parameter record. Pin itself is not part of the repository: each call is a function from the
  context to its status and result, and nothing is assumed of it.
\<close>

definition PB_REG_RAX :: u32 where "PB_REG_RAX = 10"
definition PB_REG_RBX :: u32 where "PB_REG_RBX = 7"
definition PB_REG_RCX :: u32 where "PB_REG_RCX = 9"
definition PB_REG_RDX :: u32 where "PB_REG_RDX = 8"
definition PB_REG_RSI :: u32 where "PB_REG_RSI = 4"
definition PB_REG_RDI :: u32 where "PB_REG_RDI = 3"
definition PB_REG_RBP :: u32 where "PB_REG_RBP = 5"
definition PB_REG_RSP :: u32 where "PB_REG_RSP = 6"
definition PB_REG_R8 :: u32 where "PB_REG_R8 = 11"
definition PB_REG_R9 :: u32 where "PB_REG_R9 = 12"
definition PB_REG_R10 :: u32 where "PB_REG_R10 = 13"
definition PB_REG_R11 :: u32 where "PB_REG_R11 = 14"
definition PB_REG_R12 :: u32 where "PB_REG_R12 = 15"
definition PB_REG_R13 :: u32 where "PB_REG_R13 = 16"
definition PB_REG_R14 :: u32 where "PB_REG_R14 = 17"
definition PB_REG_R15 :: u32 where "PB_REG_R15 = 18"
definition PB_REG_RIP :: u32 where "PB_REG_RIP = 26"
definition PB_REG_RFLAGS :: u32 where "PB_REG_RFLAGS = 25"
definition PB_REG_EAX :: u32 where "PB_REG_EAX = 56"
definition PB_REG_EBX :: u32 where "PB_REG_EBX = 53"
definition PB_REG_ECX :: u32 where "PB_REG_ECX = 55"
definition PB_REG_EDX :: u32 where "PB_REG_EDX = 54"
definition PB_REG_ESI :: u32 where "PB_REG_ESI = 47"
definition PB_REG_EDI :: u32 where "PB_REG_EDI = 45"
definition PB_REG_EBP :: u32 where "PB_REG_EBP = 49"
definition PB_REG_ESP :: u32 where "PB_REG_ESP = 51"
definition PB_REG_EIP :: u32 where "PB_REG_EIP = 58"
definition PB_REG_EFLAGS :: u32 where "PB_REG_EFLAGS = 57"

lemmas pb_reg_defs = PB_REG_RAX_def PB_REG_RBX_def PB_REG_RCX_def PB_REG_RDX_def PB_REG_RSI_def
  PB_REG_RDI_def PB_REG_RBP_def PB_REG_RSP_def PB_REG_R8_def PB_REG_R9_def
  PB_REG_R10_def PB_REG_R11_def PB_REG_R12_def PB_REG_R13_def PB_REG_R14_def
  PB_REG_R15_def PB_REG_RIP_def PB_REG_RFLAGS_def PB_REG_EAX_def PB_REG_EBX_def
  PB_REG_ECX_def PB_REG_EDX_def PB_REG_ESI_def PB_REG_EDI_def PB_REG_EBP_def
  PB_REG_ESP_def PB_REG_EIP_def PB_REG_EFLAGS_def

definition GP_X64 :: "(string \<times> u32) list" where
  "GP_X64 = [(''rax'', PB_REG_RAX), (''rbx'', PB_REG_RBX), (''rcx'', PB_REG_RCX), (''rdx'', PB_REG_RDX),
     (''rsi'', PB_REG_RSI), (''rdi'', PB_REG_RDI), (''rbp'', PB_REG_RBP), (''rsp'', PB_REG_RSP),
     (''r8'', PB_REG_R8), (''r9'', PB_REG_R9), (''r10'', PB_REG_R10), (''r11'', PB_REG_R11),
     (''r12'', PB_REG_R12), (''r13'', PB_REG_R13), (''r14'', PB_REG_R14), (''r15'', PB_REG_R15),
     (''rip'', PB_REG_RIP), (''rflags'', PB_REG_RFLAGS)]"

definition GP_X86 :: "(string \<times> u32) list" where
  "GP_X86 = [(''eax'', PB_REG_EAX), (''ebx'', PB_REG_EBX), (''ecx'', PB_REG_ECX), (''edx'', PB_REG_EDX),
     (''esi'', PB_REG_ESI), (''edi'', PB_REG_EDI), (''ebp'', PB_REG_EBP), (''esp'', PB_REG_ESP),
     (''eip'', PB_REG_EIP), (''eflags'', PB_REG_EFLAGS)]"

definition is_64 :: "u32 \<Rightarrow> bool" where "is_64 width \<longleftrightarrow> width = 8"
definition is_32 :: "u32 \<Rightarrow> bool" where "is_32 width \<longleftrightarrow> width = 4"

definition wire_id :: "u32 \<Rightarrow> u32" where "wire_id width = arch_from_pointer_width width"

definition arch_name :: "u32 \<Rightarrow> string" where
  "arch_name width = (if is_64 width then ''x64'' else ''x86'')"

definition instr_ptr_reg :: "u32 \<Rightarrow> u32" where
  "instr_ptr_reg width = (if is_64 width then PB_REG_RIP else PB_REG_EIP)"

definition stack_ptr_reg :: "u32 \<Rightarrow> u32" where
  "stack_ptr_reg width = (if is_64 width then PB_REG_RSP else PB_REG_ESP)"

definition return_reg :: "u32 \<Rightarrow> u32" where
  "return_reg width = (if is_64 width then PB_REG_RAX else PB_REG_EAX)"

definition flags_reg :: "u32 \<Rightarrow> u32" where
  "flags_reg width = (if is_64 width then PB_REG_RFLAGS else PB_REG_EFLAGS)"

definition hook_arg_regs :: "u32 \<Rightarrow> u32 list" where
  "hook_arg_regs width =
     (if is_64 width then [PB_REG_RCX, PB_REG_RDX, PB_REG_R8, PB_REG_R9]
      else [PB_REG_ECX, PB_REG_EDX, PB_REG_EAX, PB_REG_EBX])"

definition gp_registers :: "u32 \<Rightarrow> (string \<times> u32) list" where
  "gp_registers width = (if is_64 width then GP_X64 else GP_X86)"

definition gp_name :: "u32 \<Rightarrow> u32 \<Rightarrow> string option" where
  "gp_name width reg = map_option fst (List.find (\<lambda>(_, r). r = reg) (gp_registers width))"

definition gp_index :: "u32 \<Rightarrow> u32 \<Rightarrow> nat option" where
  "gp_index width reg =
     (let i = length (takeWhile (\<lambda>(_, r). r \<noteq> reg) (gp_registers width))
      in if i < length (gp_registers width) then Some i else None)"

lemma gp_registers_distinct: "distinct (map snd (gp_registers width))"
  by (simp add: gp_registers_def GP_X64_def GP_X86_def pb_reg_defs)

lemma gp_registers_length: "length (gp_registers width) \<le> 18"
  by (simp add: gp_registers_def GP_X64_def GP_X86_def)

subsection \<open>Pin context calls\<close>

record 'c pin_calls =
  pin_get_reg :: "'c \<Rightarrow> u32 \<Rightarrow> u32 \<times> u64"
  pin_get_stack_arg :: "'c \<Rightarrow> u32 \<Rightarrow> u32 \<times> u64"
  pin_set_reg :: "'c \<Rightarrow> u32 \<Rightarrow> u64 \<Rightarrow> u32 \<times> 'c"
  pin_set_stack_arg :: "'c \<Rightarrow> u32 \<Rightarrow> u64 \<Rightarrow> u32 \<times> 'c"
  pin_set_syscall_number :: "'c \<Rightarrow> u32 \<Rightarrow> u64 \<Rightarrow> u32 \<times> 'c"
  pin_set_syscall_argument :: "'c \<Rightarrow> u32 \<Rightarrow> u32 \<Rightarrow> u64 \<Rightarrow> u32 \<times> 'c"
  pin_set_syscall_return :: "'c \<Rightarrow> u32 \<Rightarrow> u64 \<Rightarrow> u32 \<times> 'c"
  pin_set_syscall_errno :: "'c \<Rightarrow> u32 \<Rightarrow> u64 \<Rightarrow> u32 \<times> 'c"
  pin_safe_copy :: "'c \<Rightarrow> u64 \<Rightarrow> nat \<Rightarrow> u32 \<times> bytes"

text \<open>
  A concrete instance for examples: the context is the list of writes made to it, the register
  file answers from those writes, and every call succeeds.
\<close>

datatype context_write =
    Reg_write u32 u64
  | Stack_write u32 u64
  | Syscall_number_write u64
  | Syscall_argument_write u32 u64
  | Syscall_return_write u64
  | Syscall_errno_write u64

fun last_reg_write :: "context_write list \<Rightarrow> u32 \<Rightarrow> u64" where
  "last_reg_write [] reg = 0"
| "last_reg_write (Reg_write r v # ws) reg = (if r = reg then v else last_reg_write ws reg)"
| "last_reg_write (_ # ws) reg = last_reg_write ws reg"

fun last_stack_write :: "context_write list \<Rightarrow> u32 \<Rightarrow> u64" where
  "last_stack_write [] i = 0"
| "last_stack_write (Stack_write j v # ws) i = (if j = i then v else last_stack_write ws i)"
| "last_stack_write (_ # ws) i = last_stack_write ws i"

definition logging_pin :: "context_write list pin_calls" where
  "logging_pin = \<lparr>
     pin_get_reg = \<lambda>c reg. (PB_OK, last_reg_write c reg),
     pin_get_stack_arg = \<lambda>c i. (PB_OK, last_stack_write c i),
     pin_set_reg = \<lambda>c reg v. (PB_OK, Reg_write reg v # c),
     pin_set_stack_arg = \<lambda>c i v. (PB_OK, Stack_write i v # c),
     pin_set_syscall_number = \<lambda>c std v. (PB_OK, Syscall_number_write v # c),
     pin_set_syscall_argument = \<lambda>c std i v. (PB_OK, Syscall_argument_write i v # c),
     pin_set_syscall_return = \<lambda>c std v. (PB_OK, Syscall_return_write v # c),
     pin_set_syscall_errno = \<lambda>c std v. (PB_OK, Syscall_errno_write v # c),
     pin_safe_copy = \<lambda>c a n. (PB_OK, replicate n 0)\<rparr>"

end
