(* ===== verification/Pb_Interests.thy ===== *)
theory Pb_Interests
  imports Pb_Arch
begin

section \<open>Interest snapshots (sync_intercept.rs)\<close>

text \<open>
  The tables that decide, on an application thread and without a lock, whether an event is worth
  a rendezvous with Python: hook, system call, exception and debugger interests of
  \<open>sync_intercept.rs\<close>. A table is a heap snapshot behind an atomic pointer; \<open>None\<close> is the null
  pointer. \<open>publish_hook_interests\<close> also returns the list it hands to
  \<open>hooks::refresh_callback_instrumentation\<close>. The last part models who may free a retired
  snapshot while readers walk it.
\<close>

definition HOOK_ENTRY :: u32 where "HOOK_ENTRY = 1"
definition HOOK_RETURN :: u32 where "HOOK_RETURN = 2"
definition SYSCALL_ENTRY :: u32 where "SYSCALL_ENTRY = 3"
definition SYSCALL_EXIT :: u32 where "SYSCALL_EXIT = 4"
definition EXCEPTION_HANDLE :: u32 where "EXCEPTION_HANDLE = 5"
definition DEBUGGER_BREAKPOINT :: u32 where "DEBUGGER_BREAKPOINT = 6"
definition DEBUGGER_SINGLE_STEP :: u32 where "DEBUGGER_SINGLE_STEP = 7"
definition DEBUGGER_ASYNC_BREAK :: u32 where "DEBUGGER_ASYNC_BREAK = 8"

lemmas request_kind_defs = HOOK_ENTRY_def HOOK_RETURN_def SYSCALL_ENTRY_def SYSCALL_EXIT_def
  EXCEPTION_HANDLE_def DEBUGGER_BREAKPOINT_def DEBUGGER_SINGLE_STEP_def DEBUGGER_ASYNC_BREAK_def

record hook_interest =
  hi_address :: u64
  hi_kind :: u32
  hi_thread_filter :: u64

definition hook_interest_key :: "hook_interest \<Rightarrow> u64 \<times> u32 \<times> u64" where
  "hook_interest_key i = (hi_address i, hi_kind i, hi_thread_filter i)"

record interests =
  in_hook :: "hook_interest list option"
  in_hook_count :: nat
  in_syscall_entry_all :: u32
  in_syscall_exit_all :: u32
  in_syscall_entry_numbers :: "u32 list option"
  in_syscall_exit_numbers :: "u32 list option"
  in_exception_all :: u32
  in_exception_codes :: "u32 list option"
  in_debugger :: u32

definition interests_new :: interests where
  "interests_new = \<lparr>in_hook = None, in_hook_count = 0, in_syscall_entry_all = 0,
     in_syscall_exit_all = 0, in_syscall_entry_numbers = None, in_syscall_exit_numbers = None,
     in_exception_all = 0, in_exception_codes = None, in_debugger = 0\<rparr>"

subsection \<open>Hook interests\<close>

definition hook_interest_of :: "u64 \<times> bool \<times> u32 option \<Rightarrow> hook_interest" where
  "hook_interest_of request =
     (case request of (address, is_return, thread_id) \<Rightarrow>
        \<lparr>hi_address = address, hi_kind = (if is_return then HOOK_RETURN else HOOK_ENTRY),
         hi_thread_filter = (case thread_id of None \<Rightarrow> - 1 | Some t \<Rightarrow> ucast t)\<rparr>)"

definition hook_snapshot :: "(u64 \<times> bool \<times> u32 option) list \<Rightarrow> hook_interest list" where
  "hook_snapshot interests =
     sort_dedup_by_key hook_interest_key
       (map hook_interest_of (filter (\<lambda>(address, _, _). address \<noteq> 0) interests))"

definition hook_kinds :: "hook_interest list \<Rightarrow> (u64 \<times> u32) list" where
  "hook_kinds snapshot = sort_dedup (map (\<lambda>i. (hi_address i, hi_kind i)) snapshot)"

definition publish_hook_interests ::
  "(u64 \<times> bool \<times> u32 option) list \<Rightarrow> interests \<Rightarrow> interests \<times> (u64 \<times> bool) list" where
  "publish_hook_interests requests s =
     (let snapshot = hook_snapshot requests;
          next_kinds = hook_kinds snapshot;
          previous_kinds = (case in_hook s of None \<Rightarrow> [] | Some previous \<Rightarrow> hook_kinds previous);
          changed = map (\<lambda>(address, kind). (address, kind = HOOK_RETURN))
            (filter (\<lambda>kind. \<not> is_ok (binary_search previous_kinds kind)) next_kinds)
      in (s\<lparr>in_hook := Some snapshot, in_hook_count := length snapshot\<rparr>, changed))"

definition hook_interested :: "interests \<Rightarrow> u64 \<Rightarrow> u32 \<Rightarrow> u32 \<Rightarrow> bool" where
  "hook_interested s address kind thread_id =
     (if in_hook_count s = 0 then False
      else case in_hook s of
        None \<Rightarrow> False
      | Some snapshot \<Rightarrow>
          let matches = (\<lambda>thread_filter.
                is_ok (binary_search (map hook_interest_key snapshot) (address, kind, thread_filter)))
          in matches (ucast thread_id) \<or> matches (- 1))"

definition hook_callback_interested :: "interests \<Rightarrow> u64 \<Rightarrow> bool \<Rightarrow> bool" where
  "hook_callback_interested s address is_return =
     (if in_hook_count s = 0 then False
      else let kind = (if is_return then HOOK_RETURN else HOOK_ENTRY)
           in case in_hook s of
                None \<Rightarrow> False
              | Some snapshot \<Rightarrow>
                  let index = partition_point (\<lambda>i. (hi_address i, hi_kind i) < (address, kind)) snapshot
                  in index < length snapshot \<and> hi_address (snapshot ! index) = address
                       \<and> hi_kind (snapshot ! index) = kind)"

subsection \<open>Number tables and the debugger mask\<close>

definition publish_syscall_interests ::
  "bool \<Rightarrow> u32 list \<Rightarrow> bool \<Rightarrow> u32 list \<Rightarrow> interests \<Rightarrow> interests" where
  "publish_syscall_interests entry_all entry_numbers exit_all exit_numbers s =
     s\<lparr>in_syscall_entry_numbers := Some (sort_dedup entry_numbers),
       in_syscall_exit_numbers := Some (sort_dedup exit_numbers),
       in_syscall_entry_all := of_bool entry_all,
       in_syscall_exit_all := of_bool exit_all\<rparr>"

definition number_interested :: "u32 \<Rightarrow> u32 list option \<Rightarrow> u64 \<Rightarrow> bool" where
  "number_interested all numbers number =
     (if all \<noteq> 0 then True
      else if unat number \<ge> 2 ^ 32 then False
      else case numbers of
             None \<Rightarrow> False
           | Some snapshot \<Rightarrow> is_ok (binary_search snapshot (ucast number)))"

definition syscall_interested :: "interests \<Rightarrow> u32 \<Rightarrow> u64 \<Rightarrow> bool" where
  "syscall_interested s kind number =
     (if kind = SYSCALL_ENTRY
      then number_interested (in_syscall_entry_all s) (in_syscall_entry_numbers s) number
      else if kind = SYSCALL_EXIT
      then number_interested (in_syscall_exit_all s) (in_syscall_exit_numbers s) number
      else False)"

definition publish_exception_interests :: "bool \<Rightarrow> u32 list \<Rightarrow> interests \<Rightarrow> interests" where
  "publish_exception_interests all codes s =
     s\<lparr>in_exception_codes := Some (sort_dedup codes), in_exception_all := of_bool all\<rparr>"

definition exception_interested :: "interests \<Rightarrow> u32 \<Rightarrow> bool" where
  "exception_interested s code =
     number_interested (in_exception_all s) (in_exception_codes s) (ucast code)"

definition publish_debugger_interests :: "u32 \<Rightarrow> interests \<Rightarrow> interests" where
  "publish_debugger_interests bits s = s\<lparr>in_debugger := bits AND 7\<rparr>"

definition PB_DEBUGGING_EVENT_BREAKPOINT :: u32 where "PB_DEBUGGING_EVENT_BREAKPOINT = 0"
definition PB_DEBUGGING_EVENT_SINGLE_STEP :: u32 where "PB_DEBUGGING_EVENT_SINGLE_STEP = 1"
definition PB_DEBUGGING_EVENT_ASYNC_BREAK :: u32 where "PB_DEBUGGING_EVENT_ASYNC_BREAK = 2"

lemmas debugging_event_defs = PB_DEBUGGING_EVENT_BREAKPOINT_def PB_DEBUGGING_EVENT_SINGLE_STEP_def
  PB_DEBUGGING_EVENT_ASYNC_BREAK_def

definition debugger_kind :: "u32 \<Rightarrow> (u32 \<times> u32) option" where
  "debugger_kind ev =
     (if ev = PB_DEBUGGING_EVENT_BREAKPOINT then Some (DEBUGGER_BREAKPOINT, push_bit 0 1)
      else if ev = PB_DEBUGGING_EVENT_SINGLE_STEP then Some (DEBUGGER_SINGLE_STEP, push_bit 1 1)
      else if ev = PB_DEBUGGING_EVENT_ASYNC_BREAK then Some (DEBUGGER_ASYNC_BREAK, push_bit 2 1)
      else None)"

subsection \<open>What a published table answers\<close>

lemma partition_point_map: "partition_point (\<lambda>x. P (f x)) xs = partition_point P (map f xs)"
  by (simp add: partition_point_def takeWhile_map o_def)

lemma partition_point_hit:
  assumes "sorted xs"
  shows "(partition_point (\<lambda>x. x < k) xs < length xs \<and> xs ! partition_point (\<lambda>x. x < k) xs = k)
           \<longleftrightarrow> k \<in> set xs"
  using assms
proof (induction xs)
  case (Cons x xs)
  show ?case
  proof (cases "x < k")
    case True
    with Cons show ?thesis by (auto simp: partition_point_def)
  next
    case False
    with Cons.prems show ?thesis by (auto simp: partition_point_def)
  qed
qed simp

lemma hook_snapshot_keys:
  "map hook_interest_key (hook_snapshot requests)
     = sort_dedup (map (hook_interest_key \<circ> hook_interest_of) (filter (\<lambda>(a, _, _). a \<noteq> 0) requests))"
  by (simp add: hook_snapshot_def map_sort_dedup_by_key)

lemma ucast_thread_not_all: "(ucast (t :: u32) :: u64) \<noteq> - 1"
proof
  assume "(ucast t :: u64) = - 1"
  then have "unat (ucast t :: u64) = unat (- 1 :: u64)" by simp
  then show False using unat_bound [of t] by (simp add: unat_max_word)
qed

lemma thread_filter_inj: "(ucast (t :: u32) :: u64) = ucast u \<longleftrightarrow> t = (u :: u32)"
  by (metis unat_ucast_u32 word_unat_eq_iff)

lemma hook_interest_key_of_eq:
  "hook_interest_key (hook_interest_of (a, r, t)) = (address, kind, filter_value) \<longleftrightarrow>
     a = address \<and> kind = (if r then HOOK_RETURN else HOOK_ENTRY)
     \<and> filter_value = (case t of None \<Rightarrow> - 1 | Some u \<Rightarrow> ucast u)"
  by (auto simp: hook_interest_key_def hook_interest_of_def split: option.splits)

definition hook_pair :: "hook_interest \<Rightarrow> u64 \<times> u32" where "hook_pair i = (hi_address i, hi_kind i)"

text \<open>A published table is sorted by key; so is the empty initial one.\<close>

definition interests_ok :: "interests \<Rightarrow> bool" where
  "interests_ok s \<longleftrightarrow>
     (case in_hook s of
        None \<Rightarrow> in_hook_count s = 0
      | Some snapshot \<Rightarrow>
          ssorted (map hook_interest_key snapshot) \<and> in_hook_count s = length snapshot)"

definition hook_table :: "interests \<Rightarrow> hook_interest list" where
  "hook_table s = (case in_hook s of None \<Rightarrow> [] | Some snapshot \<Rightarrow> snapshot)"

lemma interests_ok_new [pb_inv]: "interests_ok interests_new"
  by (simp add: interests_ok_def interests_new_def)

lemma interests_ok_publish [pb_inv]: "interests_ok (fst (publish_hook_interests requests s))"
  by (simp add: interests_ok_def publish_hook_interests_def Let_def hook_snapshot_keys)

lemma interests_ok_publish_others [pb_inv]:
  "interests_ok s \<Longrightarrow> interests_ok (publish_syscall_interests ea en xa xn s)"
  "interests_ok s \<Longrightarrow> interests_ok (publish_exception_interests all codes s)"
  "interests_ok s \<Longrightarrow> interests_ok (publish_debugger_interests bits s)"
  by (cases "in_hook s"; simp add: interests_ok_def publish_syscall_interests_def
      publish_exception_interests_def publish_debugger_interests_def)+

lemma hook_pairs_sorted:
  assumes "ssorted (map hook_interest_key snapshot)"
  shows "sorted (map hook_pair snapshot)"
  using assms unfolding sorted_wrt_map
  by (rule sorted_wrt_mono_rel [rotated])
    (auto simp: hook_interest_key_def hook_pair_def less_prod_def less_eq_prod_def)

lemma hook_callback_table:
  assumes "interests_ok s"
  shows "hook_callback_interested s address is_return
           \<longleftrightarrow> (address, if is_return then HOOK_RETURN else HOOK_ENTRY) \<in> hook_pair ` set (hook_table s)"
proof (cases "in_hook s")
  case None
  with assms show ?thesis by (simp add: hook_callback_interested_def interests_ok_def hook_table_def)
next
  case (Some snapshot)
  let ?pair = "(address, if is_return then HOOK_RETURN else HOOK_ENTRY)"
  have count: "in_hook_count s = length snapshot" and table: "hook_table s = snapshot"
    and sorted: "sorted (map hook_pair snapshot)"
    using assms Some hook_pairs_sorted by (auto simp: interests_ok_def hook_table_def)
  let ?i = "partition_point (\<lambda>x. x < ?pair) (map hook_pair snapshot)"
  have index: "partition_point (\<lambda>i. (hi_address i, hi_kind i) < ?pair) snapshot = ?i"
    unfolding partition_point_map [symmetric] hook_pair_def ..
  have "hook_callback_interested s address is_return \<longleftrightarrow>
      snapshot \<noteq> [] \<and> ?i < length snapshot \<and> hook_pair (snapshot ! ?i) = ?pair"
    using index by (auto simp: hook_callback_interested_def Let_def Some count hook_pair_def)
  also have "\<dots> \<longleftrightarrow> ?i < length (map hook_pair snapshot) \<and> map hook_pair snapshot ! ?i = ?pair"
  proof (cases "?i < length snapshot")
    case True
    then have "map hook_pair snapshot ! ?i = hook_pair (snapshot ! ?i)" by (rule nth_map)
    with True show ?thesis by auto
  qed simp
  also have "\<dots> \<longleftrightarrow> ?pair \<in> set (map hook_pair snapshot)"
    by (rule partition_point_hit [OF sorted])
  finally show ?thesis by (simp add: table)
qed

lemma publish_changed:
  "set (snd (publish_hook_interests requests s)) =
     (\<lambda>(address, kind). (address, kind = HOOK_RETURN)) `
       (hook_pair ` set (hook_table (fst (publish_hook_interests requests s)))
          - hook_pair ` set (hook_table s))"
proof -
  have kinds: "set (hook_kinds snapshot) = hook_pair ` set snapshot" for snapshot
    by (auto simp: hook_kinds_def hook_pair_def)
  have sorted: "ssorted (hook_kinds snapshot)" for snapshot by (simp add: hook_kinds_def)
  let ?previous = "case in_hook s of None \<Rightarrow> [] | Some previous \<Rightarrow> hook_kinds previous"
  have prev: "is_ok (binary_search ?previous k) \<longleftrightarrow> k \<in> hook_pair ` set (hook_table s)" for k
    by (cases "in_hook s")
      (simp_all add: binary_search_ok sorted kinds hook_table_def)
  have "set (snd (publish_hook_interests requests s)) =
      (\<lambda>(address, kind). (address, kind = HOOK_RETURN)) `
        {k \<in> hook_pair ` set (hook_snapshot requests). \<not> is_ok (binary_search ?previous k)}"
    unfolding publish_hook_interests_def Let_def snd_conv set_map set_filter kinds ..
  then show ?thesis
    unfolding prev by (simp add: publish_hook_interests_def Let_def hook_table_def set_diff_eq)
qed

lemma hook_pair_kind: "i \<in> set (hook_snapshot requests) \<Longrightarrow> hi_kind i = HOOK_ENTRY \<or> hi_kind i = HOOK_RETURN"
  using set_sort_dedup_by_key [of hook_interest_key
      "map hook_interest_of (filter (\<lambda>(a, _, _). a \<noteq> 0) requests)"]
  unfolding hook_snapshot_def by (auto simp: hook_interest_of_def dest!: subsetD)

lemma number_interested_published:
  "number_interested (of_bool all) (Some (sort_dedup numbers)) number \<longleftrightarrow>
     all \<or> (\<exists>n \<in> set numbers. number = ucast n)"
proof -
  have "number = ucast n \<longleftrightarrow> unat number < 2 ^ 32 \<and> ucast number = n" for n :: u32
  proof
    assume number: "number = ucast n"
    then show "unat number < 2 ^ 32 \<and> ucast number = n"
      using unat_bound [of n] by simp
  next
    assume *: "unat number < 2 ^ 32 \<and> ucast number = n"
    then have "unat (ucast number :: u32) = unat number" by (intro unat_ucast_u64_small) simp
    with * show "number = ucast n" by (metis unat_ucast_u32 word_unat_eq_iff)
  qed
  then show ?thesis
    by (auto simp: number_interested_def binary_search_ok not_le)
qed

text \<open>
  C5. Interest filtering is exact: after any publication, a hit is intercepted if and only if a
  published subscription with a non-null address names its address and kind, for that very thread
  or for all threads; so a thread-scoped subscription never parks another thread.
\<close>

theorem hook_interest_exact:
  "hook_interested (fst (publish_hook_interests requests s)) address kind thread_id \<longleftrightarrow>
     (\<exists>(a, r, t) \<in> set requests. a \<noteq> 0 \<and> a = address \<and> kind = (if r then HOOK_RETURN else HOOK_ENTRY)
        \<and> (t = None \<or> t = Some thread_id))"
proof -
  let ?keys = "map hook_interest_key (hook_snapshot requests)"
  let ?member = "\<lambda>f. (address, kind, f) \<in> set ?keys"
  let ?for = "\<lambda>f. \<exists>x \<in> set requests. fst x \<noteq> 0 \<and> hook_interest_key (hook_interest_of x) = (address, kind, f)"
  have mem: "?member f \<longleftrightarrow> ?for f" for f
    unfolding hook_snapshot_keys set_sort_dedup set_map set_filter split_def image_iff o_apply
      eq_commute [of "(address, kind, f)"] by blast
  have sorted: "ssorted ?keys" by (simp add: hook_snapshot_keys)
  have empty: "length (hook_snapshot requests) = 0 \<Longrightarrow> \<not> ?member f" for f by simp
  have "hook_interested (fst (publish_hook_interests requests s)) address kind thread_id
      \<longleftrightarrow> ?member (ucast thread_id) \<or> ?member (- 1)"
    using empty
    by (auto simp: hook_interested_def publish_hook_interests_def Let_def binary_search_ok [OF sorted])
  also have "\<dots> \<longleftrightarrow> (\<exists>x \<in> set requests. fst x \<noteq> 0 \<and>
      (hook_interest_key (hook_interest_of x) = (address, kind, ucast thread_id)
       \<or> hook_interest_key (hook_interest_of x) = (address, kind, - 1)))"
    unfolding mem by blast
  also have "\<dots> \<longleftrightarrow> (\<exists>(a, r, t) \<in> set requests. a \<noteq> 0 \<and> a = address
      \<and> kind = (if r then HOOK_RETURN else HOOK_ENTRY) \<and> (t = None \<or> t = Some thread_id))"
  proof (rule bex_cong [OF refl])
    fix x :: "u64 \<times> bool \<times> u32 option"
    obtain a r t where x: "x = (a, r, t)" by (cases x)
    show "(fst x \<noteq> 0 \<and> (hook_interest_key (hook_interest_of x) = (address, kind, ucast thread_id)
          \<or> hook_interest_key (hook_interest_of x) = (address, kind, - 1)))
      = (case x of (a, r, t) \<Rightarrow> a \<noteq> 0 \<and> a = address \<and> kind = (if r then HOOK_RETURN else HOOK_ENTRY)
          \<and> (t = None \<or> t = Some thread_id))"
      by (cases t) (auto simp: x hook_interest_key_of_eq ucast_thread_not_all
          ucast_thread_not_all [symmetric] thread_filter_inj)
  qed
  finally show ?thesis .
qed

end
