(* ===== verification/Pb_Reclaim.thy ===== *)
theory Pb_Reclaim
  imports Pb_Interests
begin

section \<open>Freeing retired hook-interest snapshots (sync_intercept.rs)\<close>

text \<open>
  \<open>publish_hook_interests\<close> swaps the snapshot pointer, pushes the old one on
  \<open>RETIRED_HOOK_INTERESTS\<close> under its lock, and frees what is retired when it reads
  \<open>HOOK_INTEREST_READERS\<close> as 0. Readers hold no lock: they count themselves in
  (\<open>HookInterestReadGuard\<close>), load the pointer, walk the snapshot and count themselves out. Here
  every atomic access is one step, any number of readers and publishers interleave, and a snapshot
  is the number of its allocation.
\<close>

datatype reader_phase = Outside | Entered | Walking "nat option"

datatype publisher_phase = Resting | Swapped nat | Locked nat | Retired | Draining

record reclaim =
  rc_current :: "nat option"
  rc_fresh :: nat
  rc_retired :: "nat list"
  rc_freed :: "nat list"
  rc_readers :: nat
  rc_reader :: "nat \<Rightarrow> reader_phase"
  rc_publisher :: "nat \<Rightarrow> publisher_phase"
  rc_lock :: "nat option"

definition reclaim_start :: reclaim where
  "reclaim_start = \<lparr>rc_current = None, rc_fresh = 0, rc_retired = [], rc_freed = [], rc_readers = 0,
     rc_reader = \<lambda>_. Outside, rc_publisher = \<lambda>_. Resting, rc_lock = None\<rparr>"

inductive reclaim_step :: "reclaim \<Rightarrow> reclaim \<Rightarrow> bool" where
  enter: "rc_reader s t = Outside \<Longrightarrow>
    reclaim_step s (s\<lparr>rc_readers := rc_readers s + 1, rc_reader := (rc_reader s)(t := Entered)\<rparr>)"
| load: "rc_reader s t = Entered \<Longrightarrow>
    reclaim_step s (s\<lparr>rc_reader := (rc_reader s)(t := Walking (rc_current s))\<rparr>)"
| leave: "rc_reader s t = Walking p \<Longrightarrow>
    reclaim_step s (s\<lparr>rc_readers := rc_readers s - 1, rc_reader := (rc_reader s)(t := Outside)\<rparr>)"
| swap_first: "rc_publisher s u = Resting \<Longrightarrow> rc_current s = None \<Longrightarrow>
    reclaim_step s (s\<lparr>rc_current := Some (rc_fresh s), rc_fresh := Suc (rc_fresh s)\<rparr>)"
| swap: "rc_publisher s u = Resting \<Longrightarrow> rc_current s = Some old \<Longrightarrow>
    reclaim_step s (s\<lparr>rc_current := Some (rc_fresh s), rc_fresh := Suc (rc_fresh s),
      rc_publisher := (rc_publisher s)(u := Swapped old)\<rparr>)"
| lock: "rc_publisher s u = Swapped old \<Longrightarrow> rc_lock s = None \<Longrightarrow>
    reclaim_step s (s\<lparr>rc_lock := Some u, rc_publisher := (rc_publisher s)(u := Locked old)\<rparr>)"
| retire: "rc_publisher s u = Locked old \<Longrightarrow>
    reclaim_step s (s\<lparr>rc_retired := rc_retired s @ [old],
      rc_publisher := (rc_publisher s)(u := Retired)\<rparr>)"
| readers_busy: "rc_publisher s u = Retired \<Longrightarrow> rc_readers s \<noteq> 0 \<Longrightarrow>
    reclaim_step s (s\<lparr>rc_lock := None, rc_publisher := (rc_publisher s)(u := Resting)\<rparr>)"
| readers_none: "rc_publisher s u = Retired \<Longrightarrow> rc_readers s = 0 \<Longrightarrow>
    reclaim_step s (s\<lparr>rc_publisher := (rc_publisher s)(u := Draining)\<rparr>)"
| free: "rc_publisher s u = Draining \<Longrightarrow> rc_retired s = p # ps \<Longrightarrow>
    reclaim_step s (s\<lparr>rc_retired := ps, rc_freed := rc_freed s @ [p]\<rparr>)"
| unlock: "rc_publisher s u = Draining \<Longrightarrow> rc_retired s = [] \<Longrightarrow>
    reclaim_step s (s\<lparr>rc_lock := None, rc_publisher := (rc_publisher s)(u := Resting)\<rparr>)"

inductive reclaim_reachable :: "reclaim \<Rightarrow> bool" where
  start: "reclaim_reachable reclaim_start"
| step: "reclaim_reachable s \<Longrightarrow> reclaim_step s s' \<Longrightarrow> reclaim_reachable s'"

inductive_cases reclaim_stepE: "reclaim_step s s'"

text \<open>
  The invariant: the reader count is right; a snapshot is in one place only (current, in the hands
  of one publisher, retired or freed); the lock names the publisher inside it; while one drains,
  nobody walks a retired snapshot.
\<close>

fun carried :: "publisher_phase \<Rightarrow> nat option" where
  "carried (Swapped p) = Some p"
| "carried (Locked p) = Some p"
| "carried _ = None"

fun in_lock :: "publisher_phase \<Rightarrow> bool" where
  "in_lock Resting = False"
| "in_lock (Swapped p) = False"
| "in_lock _ = True"

definition readers_ok :: "nat \<Rightarrow> (nat \<Rightarrow> reader_phase) \<Rightarrow> bool" where
  "readers_ok n f \<longleftrightarrow> finite {t. f t \<noteq> Outside} \<and> n = card {t. f t \<noteq> Outside}"

definition places_ok :: "reclaim \<Rightarrow> bool" where
  "places_ok s \<longleftrightarrow>
     distinct (rc_retired s @ rc_freed s) \<and>
     (\<forall>p \<in> set (rc_retired s) \<union> set (rc_freed s). p < rc_fresh s) \<and>
     (\<forall>p. rc_current s = Some p \<longrightarrow> p < rc_fresh s \<and> p \<notin> set (rc_retired s) \<union> set (rc_freed s)) \<and>
     (\<forall>u p. carried (rc_publisher s u) = Some p \<longrightarrow>
        p < rc_fresh s \<and> p \<notin> set (rc_retired s) \<union> set (rc_freed s) \<and> rc_current s \<noteq> Some p) \<and>
     (\<forall>u v p. carried (rc_publisher s u) = Some p \<longrightarrow> carried (rc_publisher s v) = Some p \<longrightarrow> u = v)"

definition lock_ok :: "reclaim \<Rightarrow> bool" where
  "lock_ok s \<longleftrightarrow> (\<forall>u. rc_lock s = Some u \<longleftrightarrow> in_lock (rc_publisher s u))"

definition walkers_ok :: "reclaim \<Rightarrow> bool" where
  "walkers_ok s \<longleftrightarrow> (\<forall>t p. rc_reader s t = Walking (Some p) \<longrightarrow>
     p \<notin> set (rc_freed s) \<and>
     ((\<exists>u. rc_publisher s u = Draining) \<longrightarrow> p \<notin> set (rc_retired s)))"

lemma readers_ok_enter:
  "readers_ok n f \<Longrightarrow> f t = Outside \<Longrightarrow> readers_ok (n + 1) (f(t := Entered))"
proof -
  assume ok: "readers_ok n f" and t: "f t = Outside"
  have "{u. (f(t := Entered)) u \<noteq> Outside} = insert t {u. f u \<noteq> Outside}" by auto
  with ok t show ?thesis by (simp add: readers_ok_def del: fun_upd_apply)
qed

lemma readers_ok_leave:
  "readers_ok n f \<Longrightarrow> f t \<noteq> Outside \<Longrightarrow> readers_ok (n - 1) (f(t := Outside))"
proof -
  assume ok: "readers_ok n f" and t: "f t \<noteq> Outside"
  have "{u. (f(t := Outside)) u \<noteq> Outside} = {u. f u \<noteq> Outside} - {t}" by auto
  with ok t show ?thesis by (simp add: readers_ok_def del: fun_upd_apply)
qed

lemma readers_ok_move:
  "readers_ok n f \<Longrightarrow> f t \<noteq> Outside \<Longrightarrow> q \<noteq> Outside \<Longrightarrow> readers_ok n (f(t := q))"
proof -
  assume ok: "readers_ok n f" and t: "f t \<noteq> Outside" "q \<noteq> Outside"
  have "{u. (f(t := q)) u \<noteq> Outside} = {u. f u \<noteq> Outside}" using t by auto
  with ok show ?thesis by (simp add: readers_ok_def del: fun_upd_apply)
qed

lemma readers_ok_zero: "readers_ok 0 f \<Longrightarrow> f t = Outside"
  by (auto simp: readers_ok_def)

lemma readers_ok_step:
  "reclaim_step s s' \<Longrightarrow> readers_ok (rc_readers s) (rc_reader s) \<Longrightarrow>
     readers_ok (rc_readers s') (rc_reader s')"
  by (erule reclaim_stepE)
    (simp_all add: readers_ok_enter [simplified] readers_ok_leave [simplified] readers_ok_move)

lemma places_ok_carried:
  assumes "places_ok s" and "carried (rc_publisher s u) = Some p"
  shows "p < rc_fresh s" and "p \<notin> set (rc_retired s)" and "p \<notin> set (rc_freed s)"
    and "rc_current s \<noteq> Some p" and "carried (rc_publisher s v) = Some p \<Longrightarrow> v = u"
  using assms unfolding places_ok_def by blast+

lemma places_ok_step:
  assumes "reclaim_step s s'" and ok: "places_ok s"
  shows "places_ok s'"
  using assms(1)
proof (cases rule: reclaim_step.cases)
  case (swap_first u)
  then show ?thesis using ok unfolding places_ok_def by (auto simp: less_Suc_eq)
next
  case (swap u old)
  then show ?thesis using ok unfolding places_ok_def by (auto simp: less_Suc_eq)
next
  case (lock u old)
  then have "carried (rc_publisher s u) = Some old" by simp
  note old = places_ok_carried [OF ok this]
  show ?thesis using ok old lock unfolding places_ok_def by auto
next
  case (retire u old)
  then have "carried (rc_publisher s u) = Some old" by simp
  note old = places_ok_carried [OF ok this]
  show ?thesis using ok old retire unfolding places_ok_def by auto
qed (use ok in \<open>auto simp: places_ok_def\<close>)

lemma lock_ok_unique:
  "lock_ok s \<Longrightarrow> in_lock (rc_publisher s u) \<Longrightarrow> in_lock (rc_publisher s v) \<Longrightarrow> u = v"
  by (metis lock_ok_def option.inject)

lemma lock_ok_step:
  assumes "reclaim_step s s'" and ok: "lock_ok s"
  shows "lock_ok s'"
  using assms(1)
proof (cases rule: reclaim_step.cases)
  case (readers_busy u)
  then have "in_lock (rc_publisher s u)" by simp
  with readers_busy show ?thesis using lock_ok_unique [OF ok] by (auto simp: lock_ok_def)
next
  case (unlock u)
  then have "in_lock (rc_publisher s u)" by simp
  with unlock show ?thesis using lock_ok_unique [OF ok] by (auto simp: lock_ok_def)
qed (use ok in \<open>auto simp: lock_ok_def\<close>)

lemma walkers_ok_step:
  assumes "reclaim_step s s'" and places: "places_ok s" and lock: "lock_ok s"
    and readers: "readers_ok (rc_readers s) (rc_reader s)" and ok: "walkers_ok s"
  shows "walkers_ok s'"
  using assms(1)
proof (cases rule: reclaim_step.cases)
  case (load t)
  then show ?thesis using ok places unfolding walkers_ok_def places_ok_def by auto
next
  case (retire u old)
  have "rc_publisher s v \<noteq> Draining" for v
  proof
    assume "rc_publisher s v = Draining"
    then have "rc_lock s = Some v" "rc_lock s = Some u" using lock retire by (auto simp: lock_ok_def)
    then have "v = u" by simp
    with \<open>rc_publisher s v = Draining\<close> retire show False by simp
  qed
  with retire ok show ?thesis unfolding walkers_ok_def by auto
next
  case (readers_none u)
  then have "rc_reader s t = Outside" for t using readers readers_ok_zero by simp
  with readers_none show ?thesis unfolding walkers_ok_def by simp
next
  case (free u p ps)
  then show ?thesis using ok unfolding walkers_ok_def by auto
qed (use ok in \<open>auto simp: walkers_ok_def split: if_splits\<close>)

lemma reclaim_reachable_ok:
  "reclaim_reachable s \<Longrightarrow>
     readers_ok (rc_readers s) (rc_reader s) \<and> places_ok s \<and> lock_ok s \<and> walkers_ok s"
proof (induction rule: reclaim_reachable.induct)
  case start
  show ?case
    by (simp add: readers_ok_def places_ok_def lock_ok_def walkers_ok_def reclaim_start_def)
next
  case (step s s')
  then show ?case
    using readers_ok_step places_ok_step lock_ok_step walkers_ok_step by blast
qed



end
