(* ===== verification/Pb_Intercept.thy ===== *)
theory Pb_Intercept
  imports Pb_Interests
begin

section \<open>Synchronous interceptors (sync_intercept.rs)\<close>

text \<open>
  The fixed-size requests and responses of \<open>sync_intercept.rs\<close>, the slots they pass through, what
  the callbacks capture from a Pin context, when they ask for a decision at all, and how a response
  is applied. A Pin context is \<open>'c\<close>, a null context \<open>None\<close>. Fixed arrays are lists of the array's
  length. The rendezvous itself, where an application thread waits in a slot for the scripting
  thread, is interleaved step by step in \<open>Pb_Rendezvous\<close>; here it is the argument \<open>rendezvous\<close>.
\<close>

definition HOOK_ACTION_CONTINUE :: u32 where "HOOK_ACTION_CONTINUE = 0"
definition HOOK_ACTION_RETURN :: u32 where "HOOK_ACTION_RETURN = 1"
definition SLOT_COUNT :: nat where "SLOT_COUNT = 16"
definition MAX_REGISTERS :: nat where "MAX_REGISTERS = 18"
definition MAX_STACK_ARGUMENTS :: nat where "MAX_STACK_ARGUMENTS = 4"
definition MAX_SYSCALL_ARGUMENTS :: nat where "MAX_SYSCALL_ARGUMENTS = 6"
definition DEFAULT_TIMEOUT_MS :: u32 where "DEFAULT_TIMEOUT_MS = 2000"
definition MAX_TIMEOUT_MS :: u32 where "MAX_TIMEOUT_MS = 10000"

definition IDLE :: u32 where "IDLE = 0"
definition WRITING :: u32 where "WRITING = 1"
definition PENDING :: u32 where "PENDING = 2"
definition HANDLING :: u32 where "HANDLING = 3"
definition DECIDED :: u32 where "DECIDED = 4"
definition CANCELLED :: u32 where "CANCELLED = 5"

lemmas slot_state_defs = IDLE_def WRITING_def PENDING_def HANDLING_def DECIDED_def CANCELLED_def

record native_request =
  nr_kind :: u32
  nr_thread_id :: u32
  nr_address :: u64
  nr_register_mask :: u32
  nr_registers :: "u64 list"
  nr_source_register_mask :: u32
  nr_source_registers :: "u64 list"
  nr_stack_arguments :: "u64 list"
  nr_syscall_standard :: u32
  nr_syscall_number :: u64
  nr_syscall_arguments :: "u64 list"
  nr_syscall_return :: u64
  nr_syscall_errno :: u64
  nr_exception_reason :: u32
  nr_exception_code :: u32

definition native_request_empty :: native_request where
  "native_request_empty = \<lparr>nr_kind = 0, nr_thread_id = 0, nr_address = 0, nr_register_mask = 0,
     nr_registers = replicate MAX_REGISTERS 0, nr_source_register_mask = 0,
     nr_source_registers = replicate MAX_REGISTERS 0,
     nr_stack_arguments = replicate MAX_STACK_ARGUMENTS 0, nr_syscall_standard = 0,
     nr_syscall_number = 0, nr_syscall_arguments = replicate MAX_SYSCALL_ARGUMENTS 0,
     nr_syscall_return = 0, nr_syscall_errno = 0, nr_exception_reason = 0, nr_exception_code = 0\<rparr>"

text \<open>\<open>InterceptRequest\<close> repeats the fields of the native request beside the slot and generation.\<close>

record intercept_request =
  ir_slot :: nat
  ir_generation :: u64
  ir_request :: native_request

record intercept_response =
  rp_action :: u32
  rp_register_mask :: u32
  rp_registers :: "u64 list"
  rp_stack_argument_mask :: u32
  rp_stack_arguments :: "u64 list"
  rp_syscall_number_set :: bool
  rp_syscall_number :: u64
  rp_syscall_argument_mask :: u32
  rp_syscall_arguments :: "u64 list"
  rp_syscall_return_set :: bool
  rp_syscall_return :: u64
  rp_syscall_errno_set :: bool
  rp_syscall_errno :: u64
  rp_debugger_pass_set :: bool
  rp_debugger_pass_to_debugger :: bool

definition intercept_response_empty :: intercept_response where
  "intercept_response_empty = \<lparr>rp_action = HOOK_ACTION_CONTINUE, rp_register_mask = 0,
     rp_registers = replicate MAX_REGISTERS 0, rp_stack_argument_mask = 0,
     rp_stack_arguments = replicate MAX_STACK_ARGUMENTS 0, rp_syscall_number_set = False,
     rp_syscall_number = 0, rp_syscall_argument_mask = 0,
     rp_syscall_arguments = replicate MAX_SYSCALL_ARGUMENTS 0, rp_syscall_return_set = False,
     rp_syscall_return = 0, rp_syscall_errno_set = False, rp_syscall_errno = 0,
     rp_debugger_pass_set = False, rp_debugger_pass_to_debugger = True\<rparr>"

record slot =
  sl_state :: u32
  sl_generation :: u64
  sl_semaphore :: u64
  sl_request :: native_request
  sl_response :: intercept_response

definition slot_new :: slot where
  "slot_new = \<lparr>sl_state = IDLE, sl_generation = 0, sl_semaphore = 0,
     sl_request = native_request_empty, sl_response = intercept_response_empty\<rparr>"

subsection \<open>The scripting thread's side of the slots\<close>

text \<open>
  \<open>init\<close> stores one Pin semaphore per slot until one cannot be created. \<open>complete\<close> also returns
  whether it sets the slot's semaphore.
\<close>

definition decision_timeout :: "u32 option \<Rightarrow> u32" where
  "decision_timeout parsed =
     (let value = (case parsed of None \<Rightarrow> DEFAULT_TIMEOUT_MS | Some v \<Rightarrow> v)
      in max 1 (min value MAX_TIMEOUT_MS))"

fun init_slots :: "(u32 \<times> u64) list \<Rightarrow> slot list \<Rightarrow> u32 \<times> slot list" where
  "init_slots ((status, semaphore) # created) (slot # slots) =
     (if status \<noteq> PB_OK then (status, slot # slots)
      else case init_slots created slots of
             (status, slots) \<Rightarrow> (status, slot\<lparr>sl_semaphore := semaphore\<rparr> # slots))"
| "init_slots _ slots = (PB_OK, slots)"

definition taken_request :: "nat \<Rightarrow> slot \<Rightarrow> intercept_request" where
  "taken_request slot_index slot =
     \<lparr>ir_slot = slot_index, ir_generation = sl_generation slot, ir_request = sl_request slot\<rparr>"

fun take_pending_from :: "nat \<Rightarrow> slot list \<Rightarrow> intercept_request option \<times> slot list" where
  "take_pending_from slot_index [] = (None, [])"
| "take_pending_from slot_index (slot # slots) =
     (if sl_state slot = PENDING
      then (Some (taken_request slot_index slot), slot\<lparr>sl_state := HANDLING\<rparr> # slots)
      else let slot = (if sl_state slot = CANCELLED then slot\<lparr>sl_state := IDLE\<rparr> else slot)
           in case take_pending_from (Suc slot_index) slots of
                (request, slots) \<Rightarrow> (request, slot # slots))"

definition take_pending :: "slot list \<Rightarrow> intercept_request option \<times> slot list" where
  "take_pending slots = take_pending_from 0 slots"

definition complete :: "slot list \<Rightarrow> nat \<Rightarrow> u64 \<Rightarrow> intercept_response \<Rightarrow> slot list \<times> bool" where
  "complete slots slot_index generation response =
     (if slot_index \<ge> length slots then (slots, False)
      else if sl_generation (slots ! slot_index) \<noteq> generation then (slots, False)
      else let slot = (slots ! slot_index)\<lparr>sl_response := response\<rparr>
           in if sl_state slot = HANDLING
              then (slots[slot_index := slot\<lparr>sl_state := DECIDED\<rparr>], sl_semaphore slot \<noteq> 0)
              else if sl_state slot = CANCELLED
              then (slots[slot_index := slot\<lparr>sl_state := IDLE\<rparr>], False)
              else (slots[slot_index := slot], False))"

definition slots_pending :: "slot list \<Rightarrow> bool" where
  "slots_pending slots = list_ex (\<lambda>slot. sl_state slot = PENDING \<or> sl_state slot = CANCELLED) slots"

subsection \<open>What a callback captures\<close>

fun capture_from :: "'c pin_calls \<Rightarrow> 'c \<Rightarrow> nat \<Rightarrow> (string \<times> u32) list \<Rightarrow> u32 \<times> u64 list \<Rightarrow> u32 \<times> u64 list" where
  "capture_from pin c index [] acc = acc"
| "capture_from pin c index ((name, reg) # regs) (bits, values) =
     (case pin_get_reg pin c reg of
        (status, value) \<Rightarrow>
          capture_from pin c (Suc index) regs
            (if status = PB_OK then (bits OR push_bit index 1, values[index := value])
             else (bits, values)))"

definition capture_registers :: "'c pin_calls \<Rightarrow> u32 \<Rightarrow> 'c option \<Rightarrow> u64 list \<Rightarrow> u32 \<times> u64 list" where
  "capture_registers pin width context values =
     (case context of
        None \<Rightarrow> (0, values)
      | Some c \<Rightarrow> capture_from pin c 0 (gp_registers width) (0, values))"

definition capture_hook ::
  "'c pin_calls \<Rightarrow> u32 \<Rightarrow> u32 \<Rightarrow> u64 \<Rightarrow> u32 \<Rightarrow> 'c option \<Rightarrow> u64 list \<Rightarrow> native_request" where
  "capture_hook pin width kind address thread_id context stack_arguments =
     (case capture_registers pin width context (replicate MAX_REGISTERS 0) of
        (bits, registers) \<Rightarrow>
          native_request_empty\<lparr>nr_kind := kind, nr_thread_id := thread_id, nr_address := address,
            nr_stack_arguments := stack_arguments, nr_register_mask := bits,
            nr_registers := registers\<rparr>)"

definition captured_ip :: "u32 \<Rightarrow> u32 \<Rightarrow> u64 list \<Rightarrow> u64 \<Rightarrow> u64" where
  "captured_ip width bits registers address =
     (case gp_index width (instr_ptr_reg width) of
        None \<Rightarrow> address
      | Some index \<Rightarrow> if bits AND push_bit index 1 \<noteq> 0 then registers ! index else address)"

subsection \<open>When a decision is asked for\<close>

type_synonym rendezvous = "native_request \<Rightarrow> intercept_response option"

definition decide_hook ::
  "rendezvous \<Rightarrow> 'c pin_calls \<Rightarrow> u32 \<Rightarrow> bool \<Rightarrow> interests \<Rightarrow> u64 \<Rightarrow> u32 \<Rightarrow> bool \<Rightarrow> 'c option \<Rightarrow> u64 list
     \<Rightarrow> intercept_response option" where
  "decide_hook rendezvous pin width python_ready s address thread_id is_return context stack_arguments =
     (let kind = (if is_return then HOOK_RETURN else HOOK_ENTRY)
      in if in_hook_count s = 0 \<or> context = None \<or> \<not> python_ready
              \<or> \<not> hook_interested s address kind thread_id
         then None
         else rendezvous (capture_hook pin width kind address thread_id context stack_arguments))"

definition decide_syscall ::
  "rendezvous \<Rightarrow> 'c pin_calls \<Rightarrow> u32 \<Rightarrow> bool \<Rightarrow> interests \<Rightarrow> u32 \<Rightarrow> u32 \<Rightarrow> 'c option \<Rightarrow> u32 \<Rightarrow> u64
     \<Rightarrow> u64 list \<Rightarrow> u64 \<Rightarrow> u64 \<Rightarrow> intercept_response option" where
  "decide_syscall rendezvous pin width python_ready s kind thread_id context standard number
       arguments return_value errno =
     (case context of
        None \<Rightarrow> None
      | Some c \<Rightarrow>
          if \<not> python_ready \<or> \<not> syscall_interested s kind number then None
          else let ip = pin_get_reg pin c (instr_ptr_reg width)
               in rendezvous (native_request_empty\<lparr>nr_kind := kind, nr_thread_id := thread_id,
                    nr_syscall_standard := standard, nr_syscall_number := number,
                    nr_syscall_arguments := arguments, nr_syscall_return := return_value,
                    nr_syscall_errno := errno, nr_address := snd ip\<rparr>))"

definition decide_exception ::
  "rendezvous \<Rightarrow> 'c pin_calls \<Rightarrow> u32 \<Rightarrow> bool \<Rightarrow> interests \<Rightarrow> u32 \<Rightarrow> u32 \<Rightarrow> 'c option \<Rightarrow> 'c option \<Rightarrow> u32
     \<Rightarrow> intercept_response option" where
  "decide_exception rendezvous pin width python_ready s thread_id reason source destination code =
     (if destination = None \<or> \<not> python_ready \<or> \<not> exception_interested s code then None
      else case capture_registers pin width source (replicate MAX_REGISTERS 0) of
             (source_bits, source_registers) \<Rightarrow>
               case capture_registers pin width destination (replicate MAX_REGISTERS 0) of
                 (bits, registers) \<Rightarrow>
                   rendezvous (native_request_empty\<lparr>nr_kind := EXCEPTION_HANDLE,
                     nr_thread_id := thread_id, nr_exception_reason := reason,
                     nr_exception_code := code, nr_source_register_mask := source_bits,
                     nr_source_registers := source_registers, nr_register_mask := bits,
                     nr_registers := registers,
                     nr_address := captured_ip width source_bits source_registers 0\<rparr>))"

definition decide_debugger ::
  "rendezvous \<Rightarrow> 'c pin_calls \<Rightarrow> u32 \<Rightarrow> bool \<Rightarrow> interests \<Rightarrow> u32 \<Rightarrow> u32 \<Rightarrow> 'c option
     \<Rightarrow> intercept_response option" where
  "decide_debugger rendezvous pin width python_ready s thread_id ev context =
     (case debugger_kind ev of
        None \<Rightarrow> None
      | Some (kind, interest_bit) \<Rightarrow>
          if context = None \<or> \<not> python_ready \<or> in_debugger s AND interest_bit = 0 then None
          else case capture_registers pin width context (replicate MAX_REGISTERS 0) of
                 (bits, registers) \<Rightarrow>
                   rendezvous (native_request_empty\<lparr>nr_kind := kind, nr_thread_id := thread_id,
                     nr_register_mask := bits, nr_registers := registers,
                     nr_address := captured_ip width bits registers 0\<rparr>))"

subsection \<open>How a response is applied\<close>

fun apply_registers ::
  "'c pin_calls \<Rightarrow> (u32 \<Rightarrow> bool) \<Rightarrow> intercept_response \<Rightarrow> nat \<Rightarrow> (string \<times> u32) list \<Rightarrow> 'c \<times> bool \<Rightarrow> 'c \<times> bool" where
  "apply_registers pin skip response index [] acc = acc"
| "apply_registers pin skip response index ((name, reg) # regs) (c, changed) =
     (if rp_register_mask response AND push_bit index 1 = 0 \<or> skip reg
      then apply_registers pin skip response (Suc index) regs (c, changed)
      else case pin_set_reg pin c reg (rp_registers response ! index) of
             (status, c) \<Rightarrow> apply_registers pin skip response (Suc index) regs
                            (c, changed \<or> status = PB_OK))"

fun apply_stack :: "'c pin_calls \<Rightarrow> intercept_response \<Rightarrow> nat list \<Rightarrow> 'c \<times> bool \<Rightarrow> 'c \<times> bool" where
  "apply_stack pin response [] acc = acc"
| "apply_stack pin response (index # indices) (c, changed) =
     (if rp_stack_argument_mask response AND push_bit index 1 = 0
      then apply_stack pin response indices (c, changed)
      else case pin_set_stack_arg pin c (word_of_nat index) (rp_stack_arguments response ! index) of
             (status, c) \<Rightarrow> apply_stack pin response indices (c, changed \<or> status = PB_OK))"

definition apply_hook_response ::
  "'c pin_calls \<Rightarrow> u32 \<Rightarrow> 'c \<Rightarrow> intercept_response \<Rightarrow> bool \<Rightarrow> 'c \<times> bool" where
  "apply_hook_response pin width c response is_return =
     (let (c, changed) = apply_registers pin (\<lambda>_. False) response 0 (gp_registers width) (c, False)
      in if is_return then (c, changed)
         else apply_stack pin response [0..<MAX_STACK_ARGUMENTS] (c, changed))"

definition apply_exception_response :: "'c pin_calls \<Rightarrow> u32 \<Rightarrow> 'c \<Rightarrow> intercept_response \<Rightarrow> 'c" where
  "apply_exception_response pin width c response =
     fst (apply_registers pin (\<lambda>_. False) response 0 (gp_registers width) (c, False))"

definition apply_debugger_response ::
  "'c pin_calls \<Rightarrow> u32 \<Rightarrow> 'c \<Rightarrow> u32 \<Rightarrow> intercept_response \<Rightarrow> 'c \<times> bool" where
  "apply_debugger_response pin width c ev response =
     (let pass_to_debugger = (\<not> rp_debugger_pass_set response \<or> rp_debugger_pass_to_debugger response);
          pass_to_debugger = (if ev = PB_DEBUGGING_EVENT_ASYNC_BREAK then True else pass_to_debugger);
          skip = (\<lambda>reg. pass_to_debugger
            \<and> (ev = PB_DEBUGGING_EVENT_BREAKPOINT \<or> ev = PB_DEBUGGING_EVENT_SINGLE_STEP)
            \<and> reg = instr_ptr_reg width)
      in (fst (apply_registers pin skip response 0 (gp_registers width) (c, False)), pass_to_debugger))"

fun apply_syscall_arguments :: "'c pin_calls \<Rightarrow> u32 \<Rightarrow> intercept_response \<Rightarrow> nat list \<Rightarrow> 'c \<Rightarrow> 'c" where
  "apply_syscall_arguments pin standard response [] c = c"
| "apply_syscall_arguments pin standard response (index # indices) c =
     apply_syscall_arguments pin standard response indices
       (if rp_syscall_argument_mask response AND push_bit index 1 \<noteq> 0
        then snd (pin_set_syscall_argument pin c standard (word_of_nat index)
                    (rp_syscall_arguments response ! index))
        else c)"

definition apply_syscall_response ::
  "'c pin_calls \<Rightarrow> 'c \<Rightarrow> u32 \<Rightarrow> u32 \<Rightarrow> intercept_response \<Rightarrow> 'c" where
  "apply_syscall_response pin c standard kind response =
     (if kind = SYSCALL_ENTRY
      then let c = (if rp_syscall_number_set response
                    then snd (pin_set_syscall_number pin c standard (rp_syscall_number response)) else c)
           in apply_syscall_arguments pin standard response [0..<MAX_SYSCALL_ARGUMENTS] c
      else if kind = SYSCALL_EXIT
      then let c = (if rp_syscall_return_set response
                    then snd (pin_set_syscall_return pin c standard (rp_syscall_return response)) else c)
           in if rp_syscall_errno_set response
              then snd (pin_set_syscall_errno pin c standard (rp_syscall_errno response)) else c
      else c)"

definition response_changes_instruction_pointer :: "u32 \<Rightarrow> intercept_response \<Rightarrow> bool" where
  "response_changes_instruction_pointer width response =
     (case gp_index width (instr_ptr_reg width) of
        None \<Rightarrow> False
      | Some index \<Rightarrow> rp_register_mask response AND push_bit index 1 \<noteq> 0)"

definition return_from_hook :: "'c pin_calls \<Rightarrow> u32 \<Rightarrow> 'c \<Rightarrow> 'c \<times> bool" where
  "return_from_hook pin width c =
     (case pin_get_reg pin c (stack_ptr_reg width) of
        (status, stack_pointer) \<Rightarrow>
          if status \<noteq> PB_OK then (c, False)
          else case pin_safe_copy pin c stack_pointer (unat width) of
                 (status, copied) \<Rightarrow>
                   if status \<noteq> PB_OK \<or> length copied \<noteq> unat width then (c, False)
                   else let return_address = (if width = 8 then of_le copied else of_le (take 4 copied))
                        in case pin_set_reg pin c (stack_ptr_reg width) (stack_pointer + ucast width) of
                             (status, c) \<Rightarrow>
                               if status \<noteq> PB_OK then (c, False)
                               else case pin_set_reg pin c (instr_ptr_reg width) return_address of
                                      (status, c) \<Rightarrow> (c, status = PB_OK))"

end
