(* ===== verification/Pb_Rendezvous.thy ===== *)
theory Pb_Rendezvous
  imports Pb_Intercept
begin

section \<open>The rendezvous, interleaved (sync_intercept.rs)\<close>

text \<open>
  \<open>rendezvous\<close> on any number of application threads against \<open>take_pending\<close> and \<open>complete\<close> on the
  one scripting thread, every atomic access and every plain access to a slot's request or response
  being a step of its own. \<open>semaphore\<close> only wakes the waiter early: a waiter may stop waiting at
  any time. Four fields are history: how many generations were handed out, to which thread and
  request, which requests the scripting thread read, and which responses it gave.
\<close>

datatype waiter_phase =
    Ready
  | Claimed nat native_request
  | Numbered nat native_request u64
  | Stamped nat native_request u64
  | Filled nat native_request u64
  | Cleared nat native_request u64
  | Waiting nat native_request u64
  | Answered nat native_request u64
  | Obtained nat native_request u64 intercept_response
  | Returned "(nat \<times> native_request \<times> u64 \<times> intercept_response) option"

datatype handler_phase =
    HReady
  | HTaken nat
  | HChecked nat u64 intercept_response
  | HWrote nat u64 intercept_response
  | HMissed nat
  | HFreeing nat

record rendezvous_state =
  rz_slots :: "nat \<Rightarrow> slot"
  rz_next_generation :: u64
  rz_completed :: u64
  rz_timeouts :: u64
  rz_busy :: u64
  rz_waiter :: "nat \<Rightarrow> waiter_phase"
  rz_handler :: handler_phase
  rz_claims :: nat
  rz_issued :: "u64 \<Rightarrow> (nat \<times> native_request) option"
  rz_read :: "(nat \<times> u64 \<times> native_request) set"
  rz_given :: "(nat \<times> u64 \<times> intercept_response) set"

definition rendezvous_start :: "(nat \<Rightarrow> u64) \<Rightarrow> rendezvous_state" where
  "rendezvous_start semaphores = \<lparr>rz_slots = \<lambda>i. slot_new\<lparr>sl_semaphore := semaphores i\<rparr>,
     rz_next_generation = 0, rz_completed = 0, rz_timeouts = 0, rz_busy = 0,
     rz_waiter = \<lambda>_. Ready, rz_handler = HReady, rz_claims = 0, rz_issued = \<lambda>_. None,
     rz_read = {}, rz_given = {}\<rparr>"

definition upd_slot :: "rendezvous_state \<Rightarrow> nat \<Rightarrow> (slot \<Rightarrow> slot) \<Rightarrow> rendezvous_state" where
  "upd_slot s i f = s\<lparr>rz_slots := (rz_slots s)(i := f (rz_slots s i))\<rparr>"

definition at_phase :: "rendezvous_state \<Rightarrow> nat \<Rightarrow> waiter_phase \<Rightarrow> rendezvous_state" where
  "at_phase s t p = s\<lparr>rz_waiter := (rz_waiter s)(t := p)\<rparr>"

abbreviation slot_state :: "rendezvous_state \<Rightarrow> nat \<Rightarrow> u32" where
  "slot_state s i \<equiv> sl_state (rz_slots s i)"

text \<open>The steps of \<open>rendezvous\<close> on thread \<open>t\<close>.\<close>

inductive waiter_step :: "nat \<Rightarrow> rendezvous_state \<Rightarrow> rendezvous_state \<Rightarrow> bool" for t where
  claim: "rz_waiter s t = Ready \<Longrightarrow> i < SLOT_COUNT \<Longrightarrow> slot_state s i = IDLE \<Longrightarrow>
    waiter_step t s (at_phase (upd_slot s i (sl_state_update (\<lambda>_. WRITING))) t (Claimed i req))"
| busy: "rz_waiter s t = Ready \<Longrightarrow>
    waiter_step t s (at_phase (s\<lparr>rz_busy := rz_busy s + 1\<rparr>) t (Returned None))"
| number: "rz_waiter s t = Claimed i req \<Longrightarrow> g = rz_next_generation s + 1 \<Longrightarrow>
    waiter_step t s (at_phase (s\<lparr>rz_next_generation := g, rz_claims := Suc (rz_claims s),
      rz_issued := (rz_issued s)(g \<mapsto> (t, req))\<rparr>) t (Numbered i req g))"
| stamp: "rz_waiter s t = Numbered i req g \<Longrightarrow>
    waiter_step t s (at_phase (upd_slot s i (sl_generation_update (\<lambda>_. g))) t (Stamped i req g))"
| fill: "rz_waiter s t = Stamped i req g \<Longrightarrow>
    waiter_step t s (at_phase (upd_slot s i (sl_request_update (\<lambda>_. req))) t (Filled i req g))"
| clear: "rz_waiter s t = Filled i req g \<Longrightarrow>
    waiter_step t s (at_phase (upd_slot s i (sl_response_update (\<lambda>_. intercept_response_empty))) t
      (Cleared i req g))"
| no_semaphore: "rz_waiter s t = Cleared i req g \<Longrightarrow> sl_semaphore (rz_slots s i) = 0 \<Longrightarrow>
    waiter_step t s (at_phase (upd_slot s i (sl_state_update (\<lambda>_. IDLE))) t (Returned None))"
| post: "rz_waiter s t = Cleared i req g \<Longrightarrow> sl_semaphore (rz_slots s i) \<noteq> 0 \<Longrightarrow>
    waiter_step t s (at_phase (upd_slot s i (sl_state_update (\<lambda>_. PENDING))) t (Waiting i req g))"
| see_decided: "rz_waiter s t = Waiting i req g \<Longrightarrow> slot_state s i = DECIDED \<Longrightarrow>
    waiter_step t s (at_phase s t (Answered i req g))"
| read_response: "rz_waiter s t = Answered i req g \<Longrightarrow>
    waiter_step t s (at_phase s t (Obtained i req g (sl_response (rz_slots s i))))"
| release: "rz_waiter s t = Obtained i req g resp \<Longrightarrow>
    waiter_step t s (at_phase (upd_slot (s\<lparr>rz_completed := rz_completed s + 1\<rparr>) i
      (sl_state_update (\<lambda>_. IDLE))) t (Returned (Some (i, req, g, resp))))"
| cancel_pending: "rz_waiter s t = Waiting i req g \<Longrightarrow> slot_state s i = PENDING \<Longrightarrow>
    waiter_step t s (at_phase (upd_slot (s\<lparr>rz_timeouts := rz_timeouts s + 1\<rparr>) i
      (sl_state_update (\<lambda>_. CANCELLED))) t (Returned None))"
| cancel_handling: "rz_waiter s t = Waiting i req g \<Longrightarrow> slot_state s i = HANDLING \<Longrightarrow>
    waiter_step t s (at_phase (upd_slot (s\<lparr>rz_timeouts := rz_timeouts s + 1\<rparr>) i
      (sl_state_update (\<lambda>_. CANCELLED))) t (Returned None))"
| see_other: "rz_waiter s t = Waiting i req g \<Longrightarrow> slot_state s i \<notin> {PENDING, HANDLING, DECIDED} \<Longrightarrow>
    waiter_step t s (at_phase s t (Returned None))"
| finished: "rz_waiter s t = Returned r \<Longrightarrow> waiter_step t s (at_phase s t Ready)"

text \<open>The steps of \<open>take_pending\<close> and \<open>complete\<close>, the latter on any arguments.\<close>

inductive handler_step :: "rendezvous_state \<Rightarrow> rendezvous_state \<Rightarrow> bool" where
  take_slot: "rz_handler s = HReady \<Longrightarrow> i < SLOT_COUNT \<Longrightarrow> slot_state s i = PENDING \<Longrightarrow>
    handler_step s ((upd_slot s i (sl_state_update (\<lambda>_. HANDLING)))\<lparr>rz_handler := HTaken i\<rparr>)"
| read_request: "rz_handler s = HTaken i \<Longrightarrow>
    handler_step s (s\<lparr>rz_handler := HReady,
      rz_read := insert (i, sl_generation (rz_slots s i), sl_request (rz_slots s i)) (rz_read s)\<rparr>)"
| reap: "rz_handler s = HReady \<Longrightarrow> i < SLOT_COUNT \<Longrightarrow> slot_state s i = CANCELLED \<Longrightarrow>
    handler_step s (upd_slot s i (sl_state_update (\<lambda>_. IDLE)))"
| check: "rz_handler s = HReady \<Longrightarrow> i < SLOT_COUNT \<Longrightarrow> sl_generation (rz_slots s i) = g \<Longrightarrow>
    handler_step s (s\<lparr>rz_handler := HChecked i g resp, rz_given := insert (i, g, resp) (rz_given s)\<rparr>)"
| write_response: "rz_handler s = HChecked i g resp \<Longrightarrow>
    handler_step s ((upd_slot s i (sl_response_update (\<lambda>_. resp)))\<lparr>rz_handler := HWrote i g resp\<rparr>)"
| decide: "rz_handler s = HWrote i g resp \<Longrightarrow> slot_state s i = HANDLING \<Longrightarrow>
    handler_step s ((upd_slot s i (sl_state_update (\<lambda>_. DECIDED)))\<lparr>rz_handler := HReady\<rparr>)"
| miss: "rz_handler s = HWrote i g resp \<Longrightarrow> slot_state s i \<noteq> HANDLING \<Longrightarrow>
    handler_step s (s\<lparr>rz_handler := HMissed i\<rparr>)"
| see_cancelled: "rz_handler s = HMissed i \<Longrightarrow> slot_state s i = CANCELLED \<Longrightarrow>
    handler_step s (s\<lparr>rz_handler := HFreeing i\<rparr>)"
| see_rest: "rz_handler s = HMissed i \<Longrightarrow> slot_state s i \<noteq> CANCELLED \<Longrightarrow>
    handler_step s (s\<lparr>rz_handler := HReady\<rparr>)"
| free: "rz_handler s = HFreeing i \<Longrightarrow>
    handler_step s ((upd_slot s i (sl_state_update (\<lambda>_. IDLE)))\<lparr>rz_handler := HReady\<rparr>)"

inductive rendezvous_reachable :: "(nat \<Rightarrow> u64) \<Rightarrow> rendezvous_state \<Rightarrow> bool" for sem where
  start: "rendezvous_reachable sem (rendezvous_start sem)"
| waiter: "rendezvous_reachable sem s \<Longrightarrow> waiter_step t s s' \<Longrightarrow> rendezvous_reachable sem s'"
| handler: "rendezvous_reachable sem s \<Longrightarrow> handler_step s s' \<Longrightarrow> rendezvous_reachable sem s'"

inductive_cases waiter_stepE: "waiter_step t s s'"
inductive_cases handler_stepE: "handler_step s s'"

text \<open>The slot a thread owns.\<close>

fun owns :: "waiter_phase \<Rightarrow> nat option" where
  "owns Ready = None"
| "owns (Claimed i req) = Some i"
| "owns (Numbered i req g) = Some i"
| "owns (Stamped i req g) = Some i"
| "owns (Filled i req g) = Some i"
| "owns (Cleared i req g) = Some i"
| "owns (Waiting i req g) = Some i"
| "owns (Answered i req g) = Some i"
| "owns (Obtained i req g resp) = Some i"
| "owns (Returned r) = None"

subsection \<open>Generations are unique\<close>

definition generations_ok :: "rendezvous_state \<Rightarrow> bool" where
  "generations_ok s \<longleftrightarrow> rz_next_generation s = word_of_nat (rz_claims s) \<and>
     (\<forall>g x. rz_issued s g = Some x \<longrightarrow> unat g \<le> rz_claims s)"

lemmas rz_upd_defs = upd_slot_def at_phase_def

lemma claims_mono_waiter: "waiter_step t s s' \<Longrightarrow> rz_claims s \<le> rz_claims s'"
  by (erule waiter_stepE) (auto simp: rz_upd_defs)

lemma claims_mono_handler: "handler_step s s' \<Longrightarrow> rz_claims s = rz_claims s'"
  by (erule handler_stepE) (auto simp: rz_upd_defs)

lemma generation_fresh:
  assumes "generations_ok s" and "Suc (rz_claims s) < 2 ^ 64"
  shows "unat (rz_next_generation s + 1) = Suc (rz_claims s)"
    and "rz_issued s (rz_next_generation s + 1) = None"
proof -
  have "rz_next_generation s + 1 = word_of_nat (Suc (rz_claims s))"
    using assms(1) by (simp add: generations_ok_def)
  then show new: "unat (rz_next_generation s + 1) = Suc (rz_claims s)"
    using assms(2) by (simp only: unat_of_nat) simp
  show "rz_issued s (rz_next_generation s + 1) = None"
  proof (rule ccontr)
    assume "rz_issued s (rz_next_generation s + 1) \<noteq> None"
    then have "unat (rz_next_generation s + 1) \<le> rz_claims s"
      using assms(1) by (auto simp: generations_ok_def)
    with new show False by simp
  qed
qed

lemma generations_ok_waiter:
  assumes "waiter_step t s s'" and ok: "generations_ok s" and "rz_claims s' < 2 ^ 64"
  shows "generations_ok s'"
  using assms(1)
proof (cases rule: waiter_step.cases)
  case (number i req g)
  then have "unat g = Suc (rz_claims s)"
    using generation_fresh(1) [OF ok] assms(3) by (simp add: rz_upd_defs)
  with number ok show ?thesis
    by (auto simp: generations_ok_def rz_upd_defs add.commute le_Suc_eq)
qed (use ok in \<open>simp_all add: generations_ok_def rz_upd_defs\<close>)

lemma generations_ok_handler: "handler_step s s' \<Longrightarrow> generations_ok s \<Longrightarrow> generations_ok s'"
  by (erule handler_stepE) (simp_all add: generations_ok_def rz_upd_defs)

subsection \<open>The protocol invariant\<close>

fun phase_ok :: "(nat \<Rightarrow> slot) \<Rightarrow> (u64 \<Rightarrow> (nat \<times> native_request) option)
    \<Rightarrow> (nat \<times> u64 \<times> intercept_response) set \<Rightarrow> nat \<Rightarrow> waiter_phase \<Rightarrow> bool" where
  "phase_ok sl iss giv t Ready = True"
| "phase_ok sl iss giv t (Claimed i req) = (sl_state (sl i) = WRITING)"
| "phase_ok sl iss giv t (Numbered i req g) = (sl_state (sl i) = WRITING \<and> iss g = Some (t, req))"
| "phase_ok sl iss giv t (Stamped i req g) =
     (sl_state (sl i) = WRITING \<and> iss g = Some (t, req) \<and> sl_generation (sl i) = g)"
| "phase_ok sl iss giv t (Filled i req g) =
     (sl_state (sl i) = WRITING \<and> iss g = Some (t, req) \<and> sl_generation (sl i) = g \<and> sl_request (sl i) = req)"
| "phase_ok sl iss giv t (Cleared i req g) =
     (sl_state (sl i) = WRITING \<and> iss g = Some (t, req) \<and> sl_generation (sl i) = g \<and> sl_request (sl i) = req)"
| "phase_ok sl iss giv t (Waiting i req g) =
     (sl_state (sl i) \<in> {PENDING, HANDLING, DECIDED} \<and> iss g = Some (t, req) \<and> sl_generation (sl i) = g)"
| "phase_ok sl iss giv t (Answered i req g) =
     (sl_state (sl i) = DECIDED \<and> iss g = Some (t, req) \<and> sl_generation (sl i) = g)"
| "phase_ok sl iss giv t (Obtained i req g resp) =
     (sl_state (sl i) = DECIDED \<and> iss g = Some (t, req) \<and> sl_generation (sl i) = g \<and> (i, g, resp) \<in> giv)"
| "phase_ok sl iss giv t (Returned None) = True"
| "phase_ok sl iss giv t (Returned (Some (i, req, g, resp))) = (iss g = Some (t, req) \<and> (i, g, resp) \<in> giv)"

fun handler_ok :: "(nat \<Rightarrow> slot) \<Rightarrow> (nat \<times> u64 \<times> intercept_response) set \<Rightarrow> handler_phase \<Rightarrow> bool" where
  "handler_ok sl giv HReady = True"
| "handler_ok sl giv (HTaken i) = (sl_state (sl i) \<in> {HANDLING, CANCELLED})"
| "handler_ok sl giv (HChecked i g resp) =
     ((i, g, resp) \<in> giv \<and> (sl_generation (sl i) = g \<or> sl_state (sl i) \<notin> {HANDLING, DECIDED}))"
| "handler_ok sl giv (HWrote i g resp) =
     ((i, g, resp) \<in> giv \<and>
      (sl_state (sl i) \<in> {HANDLING, DECIDED} \<longrightarrow> sl_generation (sl i) = g \<and> sl_response (sl i) = resp))"
| "handler_ok sl giv (HMissed i) = True"
| "handler_ok sl giv (HFreeing i) = (sl_state (sl i) = CANCELLED)"

definition slot_ok :: "(u64 \<Rightarrow> (nat \<times> native_request) option) \<Rightarrow> (nat \<times> u64 \<times> intercept_response) set
    \<Rightarrow> nat \<Rightarrow> slot \<Rightarrow> bool" where
  "slot_ok iss giv i x \<longleftrightarrow>
     sl_state x \<in> {IDLE, WRITING, PENDING, HANDLING, DECIDED, CANCELLED} \<and>
     (sl_state x \<in> {PENDING, HANDLING, DECIDED, CANCELLED} \<longrightarrow>
        (\<exists>t. iss (sl_generation x) = Some (t, sl_request x))) \<and>
     (sl_state x = DECIDED \<longrightarrow> (i, sl_generation x, sl_response x) \<in> giv)"

definition owned_ok :: "(nat \<Rightarrow> slot) \<Rightarrow> (nat \<Rightarrow> waiter_phase) \<Rightarrow> bool" where
  "owned_ok sl w \<longleftrightarrow>
     (\<forall>t u i. owns (w t) = Some i \<longrightarrow> owns (w u) = Some i \<longrightarrow> t = u) \<and>
     (\<forall>i. sl_state (sl i) \<in> {WRITING, PENDING, HANDLING, DECIDED} \<longrightarrow> (\<exists>t. owns (w t) = Some i))"

definition rz_inv :: "rendezvous_state \<Rightarrow> bool" where
  "rz_inv s \<longleftrightarrow>
     (\<forall>t. phase_ok (rz_slots s) (rz_issued s) (rz_given s) t (rz_waiter s t)) \<and>
     handler_ok (rz_slots s) (rz_given s) (rz_handler s) \<and>
     (\<forall>i. slot_ok (rz_issued s) (rz_given s) i (rz_slots s i)) \<and>
     owned_ok (rz_slots s) (rz_waiter s) \<and>
     (\<forall>(i, g, req) \<in> rz_read s. \<exists>t. rz_issued s g = Some (t, req))"

lemma phase_ok_frame:
  "phase_ok sl iss giv u p \<Longrightarrow> owns p \<noteq> Some i \<Longrightarrow> phase_ok (sl(i := x)) iss giv u p"
  by (cases "(sl, iss, giv, u, p)" rule: phase_ok.cases) auto

lemma phase_ok_issue:
  "phase_ok sl iss giv u p \<Longrightarrow> iss g = None \<Longrightarrow> phase_ok sl (iss(g \<mapsto> y)) giv u p"
  by (cases "(sl, iss, giv, u, p)" rule: phase_ok.cases) auto

lemma phase_ok_give:
  "phase_ok sl iss giv u p \<Longrightarrow> phase_ok sl iss (insert z giv) u p"
  by (cases "(sl, iss, giv, u, p)" rule: phase_ok.cases) auto

lemma owned_state:
  "phase_ok sl iss giv u p \<Longrightarrow> owns p = Some i \<Longrightarrow>
     sl_state (sl i) \<in> {WRITING, PENDING, HANDLING, DECIDED}"
  by (cases "(sl, iss, giv, u, p)" rule: phase_ok.cases) auto

text \<open>
  A thread that owns slot \<open>i\<close>, or takes it while it is idle, moves to a phase that owns it or
  leaves it, writing slot \<open>i\<close> only: the other threads' parts of the invariant are untouched.
\<close>

lemma rz_inv_own_step:
  assumes inv: "rz_inv s"
    and alone: "\<And>u. u \<noteq> t \<Longrightarrow> owns (rz_waiter s u) \<noteq> Some i"
    and before: "owns (rz_waiter s t) \<in> {None, Some i}"
    and phase: "phase_ok ((rz_slots s)(i := x)) (rz_issued s) (rz_given s) t p"
    and owner: "owns p = Some i \<or> (owns p = None \<and> sl_state x \<in> {IDLE, CANCELLED})"
    and handler: "handler_ok ((rz_slots s)(i := x)) (rz_given s) (rz_handler s)"
    and slot: "slot_ok (rz_issued s) (rz_given s) i x"
    and same: "rz_slots s' = (rz_slots s)(i := x)" "rz_waiter s' = (rz_waiter s)(t := p)"
      "rz_issued s' = rz_issued s" "rz_given s' = rz_given s" "rz_handler s' = rz_handler s"
      "rz_read s' = rz_read s"
  shows "rz_inv s'"
proof -
  have phases: "phase_ok (rz_slots s) (rz_issued s) (rz_given s) u (rz_waiter s u)" for u
    using inv by (simp add: rz_inv_def)
  have owned: "owned_ok (rz_slots s) (rz_waiter s)" using inv by (simp add: rz_inv_def)
  have "phase_ok ((rz_slots s)(i := x)) (rz_issued s) (rz_given s) u (((rz_waiter s)(t := p)) u)" for u
    using phase phase_ok_frame [OF phases alone] by (cases "u = t") auto
  moreover have "owned_ok ((rz_slots s)(i := x)) ((rz_waiter s)(t := p))"
    unfolding owned_ok_def
  proof (intro conjI allI impI)
    fix u v j
    assume "owns (((rz_waiter s)(t := p)) u) = Some j" "owns (((rz_waiter s)(t := p)) v) = Some j"
    then show "u = v"
      using owned alone owner unfolding owned_ok_def by (auto split: if_splits)
  next
    fix j
    assume st: "sl_state (((rz_slots s)(i := x)) j) \<in> {WRITING, PENDING, HANDLING, DECIDED}"
    show "\<exists>u. owns (((rz_waiter s)(t := p)) u) = Some j"
    proof (cases "j = i")
      case True
      with st owner have "owns p = Some i" by (auto simp: slot_state_defs)
      with True show ?thesis by (intro exI [of _ t]) simp
    next
      case False
      then obtain u where u: "owns (rz_waiter s u) = Some j"
        using st owned by (auto simp: owned_ok_def)
      then have "u \<noteq> t" using before False by auto
      with u show ?thesis by (intro exI [of _ u]) simp
    qed
  qed
  ultimately show ?thesis
    using inv slot handler unfolding rz_inv_def same by simp
qed

lemma rz_alone:
  "rz_inv s \<Longrightarrow> owns (rz_waiter s t) = Some i \<Longrightarrow> u \<noteq> t \<Longrightarrow> owns (rz_waiter s u) \<noteq> Some i"
  unfolding rz_inv_def owned_ok_def by blast

lemma rz_parts:
  assumes "rz_inv s"
  shows "phase_ok (rz_slots s) (rz_issued s) (rz_given s) t (rz_waiter s t)"
    and "handler_ok (rz_slots s) (rz_given s) (rz_handler s)"
    and "slot_ok (rz_issued s) (rz_given s) i (rz_slots s i)"
  using assms by (auto simp: rz_inv_def)

lemma rz_free:
  assumes "rz_inv s" and "slot_state s i \<in> {IDLE, CANCELLED}"
  shows "owns (rz_waiter s u) \<noteq> Some i"
proof
  assume "owns (rz_waiter s u) = Some i"
  then have "slot_state s i \<in> {WRITING, PENDING, HANDLING, DECIDED}"
    by (rule owned_state [OF rz_parts(1) [OF assms(1)]])
  with assms(2) show False by (auto simp: slot_state_defs)
qed

text \<open>
  What a write to slot \<open>i\<close> by its owner may do under the handler's feet: open a new round
  (\<open>WRITING\<close>, \<open>PENDING\<close>), or end one.
\<close>

lemma handler_ok_owner:
  assumes "handler_ok sl giv h"
    and "sl_state x \<in> {IDLE, WRITING, PENDING, CANCELLED}"
    and "sl_state (sl i) \<in> {HANDLING, CANCELLED} \<longrightarrow> sl_state x = CANCELLED"
  shows "handler_ok (sl(i := x)) giv h"
  using assms by (cases h) (auto simp: slot_state_defs)

lemma handler_ok_give: "handler_ok sl giv h \<Longrightarrow> handler_ok sl (insert z giv) h"
  by (cases h) auto

lemma slot_ok_give: "slot_ok iss giv i x \<Longrightarrow> slot_ok iss (insert z giv) i x"
  by (auto simp: slot_ok_def)

lemma slot_ok_issue: "slot_ok iss giv i x \<Longrightarrow> iss g = None \<Longrightarrow> slot_ok (iss(g \<mapsto> y)) giv i x"
  by (auto simp: slot_ok_def)

lemma upd_slot_simps [simp]:
  "rz_slots (upd_slot s i f) = (rz_slots s)(i := f (rz_slots s i))"
  "rz_waiter (upd_slot s i f) = rz_waiter s" "rz_issued (upd_slot s i f) = rz_issued s"
  "rz_given (upd_slot s i f) = rz_given s" "rz_handler (upd_slot s i f) = rz_handler s"
  "rz_read (upd_slot s i f) = rz_read s"
  by (simp_all add: upd_slot_def)

lemma at_phase_simps [simp]:
  "rz_slots (at_phase s t p) = rz_slots s"
  "rz_waiter (at_phase s t p) = (rz_waiter s)(t := p)" "rz_issued (at_phase s t p) = rz_issued s"
  "rz_given (at_phase s t p) = rz_given s" "rz_handler (at_phase s t p) = rz_handler s"
  "rz_read (at_phase s t p) = rz_read s"
  by (simp_all add: at_phase_def)

text \<open>Steps that touch no slot: the slot is written back as it is.\<close>

lemma rz_inv_quiet:
  assumes "rz_inv s" and "phase_ok (rz_slots s) (rz_issued s) (rz_given s) t p"
    and "owns p = owns (rz_waiter s t)"
    and "rz_slots s' = rz_slots s" "rz_waiter s' = (rz_waiter s)(t := p)"
      "rz_issued s' = rz_issued s" "rz_given s' = rz_given s" "rz_handler s' = rz_handler s"
      "rz_read s' = rz_read s"
  shows "rz_inv s'"
proof -
  have owner: "owns (((rz_waiter s)(t := p)) u) = owns (rz_waiter s u)" for u
    using assms(3) by simp
  show ?thesis
    using assms(1,2) unfolding rz_inv_def owned_ok_def assms(4-9) owner by (auto split: if_splits)
qed

lemma rz_inv_number:
  assumes inv: "rz_inv s" and t: "rz_waiter s t = Claimed i req" and fresh: "rz_issued s g = None"
    and s': "s' = at_phase (s\<lparr>rz_next_generation := g, rz_claims := Suc (rz_claims s),
      rz_issued := (rz_issued s)(g \<mapsto> (t, req))\<rparr>) t (Numbered i req g)"
  shows "rz_inv s'"
proof -
  have "phase_ok (rz_slots s) ((rz_issued s)(g \<mapsto> (t, req))) (rz_given s) u (((rz_waiter s)(t := Numbered i req g)) u)" for u
    using rz_parts(1) [OF inv, of u] t by (auto intro!: phase_ok_issue fresh)
  moreover have "slot_ok ((rz_issued s)(g \<mapsto> (t, req))) (rz_given s) j (rz_slots s j)" for j
    by (intro slot_ok_issue fresh rz_parts(3) [OF inv])
  moreover have "owns (((rz_waiter s)(t := Numbered i req g)) u) = owns (rz_waiter s u)" for u
    using t by simp
  then have "owned_ok (rz_slots s) ((rz_waiter s)(t := Numbered i req g))"
    using inv unfolding rz_inv_def owned_ok_def by (simp del: fun_upd_apply)
  moreover have "\<exists>u. ((rz_issued s)(g \<mapsto> (t, req))) g' = Some (u, req')"
    if "(j, g', req') \<in> rz_read s" for j g' req'
    using inv that fresh unfolding rz_inv_def by auto
  ultimately show ?thesis
    using inv unfolding rz_inv_def s' by (auto simp del: fun_upd_apply)
qed

lemma rz_inv_waiter:
  assumes "waiter_step t s s'" and inv: "rz_inv s" and gen: "generations_ok s"
    and small: "rz_claims s' < 2 ^ 64"
  shows "rz_inv s'"
  using assms(1)
proof (cases rule: waiter_step.cases)
  case (claim i req)
  show ?thesis
    by (rule rz_inv_own_step [OF inv, of t i "(rz_slots s i)\<lparr>sl_state := WRITING\<rparr>" "Claimed i req"])
      (use claim rz_free [OF inv, of i] rz_parts [OF inv] in
        \<open>auto simp: slot_ok_def intro!: handler_ok_owner, auto simp: slot_state_defs\<close>)
next
  case busy
  then show ?thesis by (intro rz_inv_quiet [OF inv, of t "Returned None"]) auto
next
  case (number i req g)
  then have "rz_issued s g = None"
    using generation_fresh(2) [OF gen] small by (simp add: rz_upd_defs)
  then show ?thesis using number by (intro rz_inv_number [OF inv])
next
  case (stamp i req g)
  note own = rz_alone [OF inv, of t i]
  show ?thesis
    by (rule rz_inv_own_step [OF inv, of t i "(rz_slots s i)\<lparr>sl_generation := g\<rparr>" "Stamped i req g"])
      (use stamp own rz_parts [OF inv] rz_parts(1) [OF inv, of t] in
        \<open>auto simp: slot_ok_def intro!: handler_ok_owner, auto simp: slot_state_defs\<close>)
next
  case (fill i req g)
  note own = rz_alone [OF inv, of t i]
  show ?thesis
    by (rule rz_inv_own_step [OF inv, of t i "(rz_slots s i)\<lparr>sl_request := req\<rparr>" "Filled i req g"])
      (use fill own rz_parts [OF inv] rz_parts(1) [OF inv, of t] in
        \<open>auto simp: slot_ok_def intro!: handler_ok_owner, auto simp: slot_state_defs\<close>)
next
  case (clear i req g)
  note own = rz_alone [OF inv, of t i]
  show ?thesis
    by (rule rz_inv_own_step [OF inv, of t i "(rz_slots s i)\<lparr>sl_response := intercept_response_empty\<rparr>" "Cleared i req g"])
      (use clear own rz_parts [OF inv] rz_parts(1) [OF inv, of t] in
        \<open>auto simp: slot_ok_def intro!: handler_ok_owner, auto simp: slot_state_defs\<close>)
next
  case (no_semaphore i req g)
  note own = rz_alone [OF inv, of t i]
  show ?thesis
    by (rule rz_inv_own_step [OF inv, of t i "(rz_slots s i)\<lparr>sl_state := IDLE\<rparr>" "Returned None"])
      (use no_semaphore own rz_parts [OF inv] rz_parts(1) [OF inv, of t] in
        \<open>auto simp: slot_ok_def intro!: handler_ok_owner, auto simp: slot_state_defs\<close>)
next
  case (post i req g)
  note own = rz_alone [OF inv, of t i]
  show ?thesis
    by (rule rz_inv_own_step [OF inv, of t i "(rz_slots s i)\<lparr>sl_state := PENDING\<rparr>" "Waiting i req g"])
      (use post own rz_parts [OF inv] rz_parts(1) [OF inv, of t] in
        \<open>auto simp: slot_ok_def intro!: handler_ok_owner, auto simp: slot_state_defs\<close>)
next
  case (see_decided i req g)
  with rz_parts(1) [OF inv, of t] show ?thesis
    by (intro rz_inv_quiet [OF inv, of t "Answered i req g"]) auto
next
  case (read_response i req g)
  with rz_parts(1) [OF inv, of t] rz_parts(3) [OF inv, of i] show ?thesis
    by (intro rz_inv_quiet [OF inv, of t "Obtained i req g (sl_response (rz_slots s i))"])
      (auto simp: slot_ok_def)
next
  case (release i req g resp)
  note own = rz_alone [OF inv, of t i]
  show ?thesis
    by (rule rz_inv_own_step [OF inv, of t i "(rz_slots s i)\<lparr>sl_state := IDLE\<rparr>" "Returned (Some (i, req, g, resp))"])
      (use release own rz_parts [OF inv] rz_parts(1) [OF inv, of t] in
        \<open>auto simp: slot_ok_def intro!: handler_ok_owner, auto simp: slot_state_defs\<close>)
next
  case (cancel_pending i req g)
  note own = rz_alone [OF inv, of t i]
  show ?thesis
    by (rule rz_inv_own_step [OF inv, of t i "(rz_slots s i)\<lparr>sl_state := CANCELLED\<rparr>" "Returned None"])
      (use cancel_pending own rz_parts(2) [OF inv] rz_parts(3) [OF inv, of i] rz_parts(1) [OF inv, of t] in
        \<open>auto simp: slot_ok_def intro!: handler_ok_owner, auto simp: slot_state_defs\<close>)
next
  case (cancel_handling i req g)
  note own = rz_alone [OF inv, of t i]
  show ?thesis
    by (rule rz_inv_own_step [OF inv, of t i "(rz_slots s i)\<lparr>sl_state := CANCELLED\<rparr>" "Returned None"])
      (use cancel_handling own rz_parts(2) [OF inv] rz_parts(3) [OF inv, of i] rz_parts(1) [OF inv, of t] in
        \<open>auto simp: slot_ok_def intro!: handler_ok_owner, auto simp: slot_state_defs\<close>)
next
  case (see_other i req g)
  with rz_parts(1) [OF inv, of t] show ?thesis by simp
next
  case (finished r)
  then show ?thesis by (intro rz_inv_quiet [OF inv, of t Ready]) auto
qed

text \<open>A handler step writes at most one slot and moves no thread.\<close>

lemma rz_inv_handler_step:
  assumes inv: "rz_inv s"
    and phases: "\<And>t. owns (rz_waiter s t) = Some i \<Longrightarrow>
      phase_ok (rz_slots s) (rz_issued s) (rz_given s) t (rz_waiter s t) \<Longrightarrow>
      phase_ok ((rz_slots s)(i := x)) (rz_issued s) (rz_given s) t (rz_waiter s t)"
    and handler: "handler_ok ((rz_slots s)(i := x)) (rz_given s) h"
    and slot: "slot_ok (rz_issued s) (rz_given s) i x"
    and owned: "sl_state x \<in> {WRITING, PENDING, HANDLING, DECIDED} \<Longrightarrow>
      slot_state s i \<in> {WRITING, PENDING, HANDLING, DECIDED}"
    and same: "rz_slots s' = (rz_slots s)(i := x)" "rz_waiter s' = rz_waiter s"
      "rz_issued s' = rz_issued s" "rz_given s' = rz_given s" "rz_handler s' = h"
      "rz_read s' = rz_read s"
  shows "rz_inv s'"
proof -
  have "phase_ok ((rz_slots s)(i := x)) (rz_issued s) (rz_given s) t (rz_waiter s t)" for t
  proof (cases "owns (rz_waiter s t) = Some i")
    case True
    then show ?thesis by (rule phases) (rule rz_parts(1) [OF inv])
  next
    case False
    then show ?thesis by (intro phase_ok_frame rz_parts(1) [OF inv])
  qed
  moreover have "owned_ok ((rz_slots s)(i := x)) (rz_waiter s)"
    using inv owned unfolding rz_inv_def owned_ok_def by (auto split: if_splits)
  ultimately show ?thesis
    using inv slot handler unfolding rz_inv_def same by simp
qed

lemma phase_ok_response:
  "phase_ok sl iss giv t p \<Longrightarrow> phase_ok (sl(i := (sl i)\<lparr>sl_response := r\<rparr>)) iss giv t p"
  by (cases "(sl, iss, giv, t, p)" rule: phase_ok.cases) auto

lemma rz_inv_handler:
  assumes "handler_step s s'" and inv: "rz_inv s"
  shows "rz_inv s'"
  using assms(1)
proof (cases rule: handler_step.cases)
  case (take_slot i)
  then show ?thesis
    by (intro rz_inv_handler_step [OF inv, of i "(rz_slots s i)\<lparr>sl_state := HANDLING\<rparr>" "HTaken i"])
      (use rz_parts(3) [OF inv, of i] in \<open>auto simp: slot_ok_def slot_state_defs elim!: phase_ok.elims\<close>)
next
  case (read_request i)
  then show ?thesis
    using inv rz_parts(2) [OF inv] rz_parts(3) [OF inv, of i] by (auto simp: rz_inv_def slot_ok_def)
next
  case (reap i)
  then show ?thesis
    by (intro rz_inv_handler_step [OF inv, of i "(rz_slots s i)\<lparr>sl_state := IDLE\<rparr>" HReady])
      (use rz_free [OF inv, of i] in \<open>auto simp: slot_ok_def, auto simp: slot_state_defs\<close>)
next
  case (check i g resp)
  have "phase_ok (rz_slots s) (rz_issued s) (insert (i, g, resp) (rz_given s)) t (rz_waiter s t)"
    "slot_ok (rz_issued s) (insert (i, g, resp) (rz_given s)) j (rz_slots s j)" for t j
    by (intro phase_ok_give slot_ok_give rz_parts [OF inv])+
  with check inv show ?thesis by (simp add: rz_inv_def)
next
  case (write_response i g resp)
  then have h: "(i, g, resp) \<in> rz_given s"
    "sl_generation (rz_slots s i) = g \<or> slot_state s i \<notin> {HANDLING, DECIDED}"
    using rz_parts(2) [OF inv] by auto
  show ?thesis
    by (rule rz_inv_handler_step [OF inv, of i "(rz_slots s i)\<lparr>sl_response := resp\<rparr>" "HWrote i g resp"])
      (use write_response h rz_parts(3) [OF inv, of i] in
        \<open>auto simp: slot_ok_def slot_state_defs intro!: phase_ok_response\<close>)
next
  case (decide i g resp)
  then have h: "(i, g, resp) \<in> rz_given s" "sl_generation (rz_slots s i) = g" "sl_response (rz_slots s i) = resp"
    using rz_parts(2) [OF inv] by auto
  show ?thesis
    by (rule rz_inv_handler_step [OF inv, of i "(rz_slots s i)\<lparr>sl_state := DECIDED\<rparr>" HReady])
      (use decide h rz_parts(3) [OF inv, of i] in
        \<open>auto simp: slot_ok_def slot_state_defs elim!: phase_ok.elims\<close>)
next
  case (free i)
  then have "slot_state s i = CANCELLED" using rz_parts(2) [OF inv] by simp
  with free show ?thesis
    by (intro rz_inv_handler_step [OF inv, of i "(rz_slots s i)\<lparr>sl_state := IDLE\<rparr>" HReady])
      (use rz_free [OF inv, of i] in \<open>auto simp: slot_ok_def, auto simp: slot_state_defs\<close>)
qed (use inv in \<open>auto simp: rz_inv_def\<close>)

lemma rendezvous_reachable_inv:
  "rendezvous_reachable sem s \<Longrightarrow> rz_claims s < 2 ^ 64 \<Longrightarrow> generations_ok s \<and> rz_inv s"
proof (induction rule: rendezvous_reachable.induct)
  case start
  show ?case
    by (auto simp: generations_ok_def rz_inv_def rendezvous_start_def slot_ok_def owned_ok_def
        slot_new_def slot_state_defs)
next
  case (waiter s t s')
  have "rz_claims s \<le> rz_claims s'" using claims_mono_waiter [OF waiter.hyps(2)] .
  then have "generations_ok s" "rz_inv s" using waiter.IH waiter.prems by simp_all
  then show ?case
    using generations_ok_waiter [OF waiter.hyps(2)] rz_inv_waiter [OF waiter.hyps(2)] waiter.prems
    by blast
next
  case (handler s s')
  then show ?case
    using claims_mono_handler generations_ok_handler rz_inv_handler by (metis)
qed

text \<open>
  C7. The rendezvous never mixes rounds: however the waiting threads, their timeouts and the
  scripting thread interleave, a thread that returns a response returns one the scripting thread
  gave for that thread's own request (the generation it names was issued to that thread and
  request); what the scripting thread reads for a generation is the request issued under it; no two
  threads share a slot; and a waiter only ever finds its slot pending, being handled or decided,
  so the arms of \<open>rendezvous\<close> for any other state never run and a slot nobody owns is idle or
  waiting to be reaped.
\<close>

theorem rendezvous_safe:
  assumes "rendezvous_reachable sem s" and "rz_claims s < 2 ^ 64"
  shows "(\<forall>t i req g resp. rz_waiter s t = Returned (Some (i, req, g, resp)) \<longrightarrow>
        rz_issued s g = Some (t, req) \<and> (i, g, resp) \<in> rz_given s)
    \<and> (\<forall>(i, g, req) \<in> rz_read s. \<exists>t. rz_issued s g = Some (t, req))
    \<and> (\<forall>t u i. owns (rz_waiter s t) = Some i \<longrightarrow> owns (rz_waiter s u) = Some i \<longrightarrow> t = u)
    \<and> (\<forall>t i req g. rz_waiter s t = Waiting i req g \<longrightarrow> slot_state s i \<in> {PENDING, HANDLING, DECIDED})
    \<and> (\<forall>i. (\<forall>t. owns (rz_waiter s t) \<noteq> Some i) \<longrightarrow> slot_state s i \<in> {IDLE, CANCELLED})"
proof -
  have inv: "rz_inv s" using rendezvous_reachable_inv [OF assms] by simp
  have phase: "phase_ok (rz_slots s) (rz_issued s) (rz_given s) t p" if "rz_waiter s t = p" for t p
    using rz_parts(1) [OF inv, of t] that by simp
  have "slot_state s i \<in> {IDLE, CANCELLED}" if "\<forall>t. owns (rz_waiter s t) \<noteq> Some i" for i
    using inv that rz_parts(3) [OF inv, of i] unfolding rz_inv_def owned_ok_def slot_ok_def by blast
  then show ?thesis
    using phase inv unfolding rz_inv_def owned_ok_def by (auto dest!: phase)
qed

lemma rendezvous_safe_witness:
  "\<exists>(s :: rendezvous_state) resp. rp_action resp = HOOK_ACTION_RETURN
     \<and> rz_waiter s 7 = Returned (Some (0, native_request_empty, 1, resp))
     \<and> rz_issued s 1 = Some (7, native_request_empty) \<and> (0, 1, resp) \<in> rz_given s"
proof -
  let ?sem = "\<lambda>_ :: nat. 64 :: u64"
  define resp where "resp = intercept_response_empty\<lparr>rp_action := HOOK_ACTION_RETURN\<rparr>"
  define s0 where "s0 = rendezvous_start ?sem"
  have r0: "rendezvous_reachable ?sem s0" unfolding s0_def by (rule rendezvous_reachable.start)
  note defs = s0_def rendezvous_start_def slot_new_def slot_state_defs SLOT_COUNT_def rz_upd_defs
  define s1 where "s1 = at_phase (upd_slot s0 0 (sl_state_update (\<lambda>_. WRITING))) 7 (Claimed 0 native_request_empty)"
  have "waiter_step 7 s0 s1" unfolding s1_def
    by (rule waiter_step.claim) (simp_all add: defs)
  note r1 = rendezvous_reachable.waiter [OF r0 this]
  define s2 where "s2 = at_phase (s1\<lparr>rz_next_generation := 1, rz_claims := Suc (rz_claims s1),
      rz_issued := (rz_issued s1)(1 \<mapsto> (7, native_request_empty))\<rparr>) 7 (Numbered 0 native_request_empty 1)"
  have "waiter_step 7 s1 s2" unfolding s2_def
    by (rule waiter_step.number) (simp_all add: defs s1_def)
  note r2 = rendezvous_reachable.waiter [OF r1 this]
  define s3 where "s3 = at_phase (upd_slot s2 0 (sl_generation_update (\<lambda>_. 1))) 7 (Stamped 0 native_request_empty 1)"
  have "waiter_step 7 s2 s3" unfolding s3_def
    by (rule waiter_step.stamp) (simp_all add: defs s1_def s2_def)
  note r3 = rendezvous_reachable.waiter [OF r2 this]
  define s4 where "s4 = at_phase (upd_slot s3 0 (sl_request_update (\<lambda>_. native_request_empty))) 7 (Filled 0 native_request_empty 1)"
  have "waiter_step 7 s3 s4" unfolding s4_def
    by (rule waiter_step.fill) (simp_all add: defs s1_def s2_def s3_def)
  note r4 = rendezvous_reachable.waiter [OF r3 this]
  define s5 where "s5 = at_phase (upd_slot s4 0 (sl_response_update (\<lambda>_. intercept_response_empty))) 7
      (Cleared 0 native_request_empty 1)"
  have "waiter_step 7 s4 s5" unfolding s5_def
    by (rule waiter_step.clear) (simp_all add: defs s1_def s2_def s3_def s4_def)
  note r5 = rendezvous_reachable.waiter [OF r4 this]
  define s6 where "s6 = at_phase (upd_slot s5 0 (sl_state_update (\<lambda>_. PENDING))) 7 (Waiting 0 native_request_empty 1)"
  have "waiter_step 7 s5 s6" unfolding s6_def
    by (rule waiter_step.post) (simp_all add: defs s1_def s2_def s3_def s4_def s5_def)
  note r6 = rendezvous_reachable.waiter [OF r5 this]
  define s7 where "s7 = (upd_slot s6 0 (sl_state_update (\<lambda>_. HANDLING)))\<lparr>rz_handler := HTaken 0\<rparr>"
  have "handler_step s6 s7" unfolding s7_def
    by (rule handler_step.take_slot) (simp_all add: defs s1_def s2_def s3_def s4_def s5_def s6_def)
  note r7 = rendezvous_reachable.handler [OF r6 this]
  define s8 where "s8 = s7\<lparr>rz_handler := HReady,
      rz_read := insert (0, sl_generation (rz_slots s7 0), sl_request (rz_slots s7 0)) (rz_read s7)\<rparr>"
  have "handler_step s7 s8" unfolding s8_def
    by (rule handler_step.read_request) (simp_all add: defs s1_def s2_def s3_def s4_def s5_def s6_def s7_def)
  note r8 = rendezvous_reachable.handler [OF r7 this]
  define s9 where "s9 = s8\<lparr>rz_handler := HChecked 0 1 resp, rz_given := insert (0, 1, resp) (rz_given s8)\<rparr>"
  have "handler_step s8 s9" unfolding s9_def
    by (rule handler_step.check) (simp_all add: defs s1_def s2_def s3_def s4_def s5_def s6_def s7_def s8_def)
  note r9 = rendezvous_reachable.handler [OF r8 this]
  define s10 where "s10 = (upd_slot s9 0 (sl_response_update (\<lambda>_. resp)))\<lparr>rz_handler := HWrote 0 1 resp\<rparr>"
  have "handler_step s9 s10" unfolding s10_def
    by (rule handler_step.write_response) (simp_all add: defs s1_def s2_def s3_def s4_def s5_def s6_def s7_def s8_def s9_def)
  note r10 = rendezvous_reachable.handler [OF r9 this]
  define s11 where "s11 = (upd_slot s10 0 (sl_state_update (\<lambda>_. DECIDED)))\<lparr>rz_handler := HReady\<rparr>"
  have "handler_step s10 s11" unfolding s11_def
    by (rule handler_step.decide) (simp_all add: defs s1_def s2_def s3_def s4_def s5_def s6_def s7_def s8_def s9_def s10_def)
  note r11 = rendezvous_reachable.handler [OF r10 this]
  define s12 where "s12 = at_phase s11 7 (Answered 0 native_request_empty 1)"
  have "waiter_step 7 s11 s12" unfolding s12_def
    by (rule waiter_step.see_decided) (simp_all add: defs s1_def s2_def s3_def s4_def s5_def s6_def s7_def s8_def s9_def s10_def s11_def)
  note r12 = rendezvous_reachable.waiter [OF r11 this]
  define s13 where "s13 = at_phase s12 7 (Obtained 0 native_request_empty 1 (sl_response (rz_slots s12 0)))"
  have "waiter_step 7 s12 s13" unfolding s13_def
    by (rule waiter_step.read_response) (simp_all add: defs s1_def s2_def s3_def s4_def s5_def s6_def s7_def s8_def s9_def s10_def s11_def s12_def)
  note r13 = rendezvous_reachable.waiter [OF r12 this]
  define s14 where "s14 = at_phase (upd_slot (s13\<lparr>rz_completed := rz_completed s13 + 1\<rparr>) 0
      (sl_state_update (\<lambda>_. IDLE))) 7 (Returned (Some (0, native_request_empty, 1, resp)))"
  have "waiter_step 7 s13 s14" unfolding s14_def
    by (rule waiter_step.release) (simp_all add: defs s1_def s2_def s3_def s4_def s5_def s6_def s7_def s8_def s9_def s10_def s11_def s12_def s13_def)
  note r14 = rendezvous_reachable.waiter [OF r13 this]
  have "rz_claims s14 < 2 ^ 64" and fin: "rz_waiter s14 7 = Returned (Some (0, native_request_empty, 1, resp))"
    by (simp_all add: defs s1_def s2_def s3_def s4_def s5_def s6_def s7_def s8_def s9_def s10_def s11_def s12_def s13_def s14_def)
  with rendezvous_safe [OF r14] have "rz_issued s14 1 = Some (7, native_request_empty) \<and> (0, 1, resp) \<in> rz_given s14"
    by blast
  with fin show ?thesis by (intro exI [of _ s14] exI [of _ resp]) (simp add: resp_def)
qed

end
