(* ===== verification/Pb_Traps.thy ===== *)
theory Pb_Traps
  imports Pb_Channels
begin

section \<open>Execution-range traps (execution_trap.rs)\<close>

text \<open>
  The trap table of \<open>execution_trap.rs\<close>, its instrumentation-time query, the analysis callback that
  claims a stop, and the breaker hooks that publish and release it. \<open>locked\<close> is what
  \<open>lock_table()\<close> returned, \<open>flush\<close> the status of \<open>pb_pin_remove_instrumentation_in_range\<close>; the
  ranges flushed are returned. The callback is also given in its two halves, since it holds no
  lock: the scan that claims slots and the stores that record the pending stop.
\<close>

definition MAX_EXECUTION_TRAPS :: nat where "MAX_EXECUTION_TRAPS = 64"
definition ANY_THREAD :: u32 where "ANY_THREAD = 4294967295"

record trap =
  tp_used :: bool
  tp_id :: u32
  tp_start :: u64
  tp_end :: u64
  tp_thread_id :: u32
  tp_active :: bool
  tp_one_shot :: bool
  tp_hits :: u64

definition trap_empty :: trap where
  "trap_empty = \<lparr>tp_used = False, tp_id = 0, tp_start = 0, tp_end = 0, tp_thread_id = ANY_THREAD,
     tp_active = False, tp_one_shot = False, tp_hits = 0\<rparr>"

record traps =
  tr_slots :: "trap list"
  tr_active_count :: u64
  tr_next_id :: u32
  tr_bound_start :: u64
  tr_bound_end :: u64
  tr_stop_claimed :: bool
  tr_pending_mask :: u64
  tr_pending_tid :: u32
  tr_pending_address :: u64

definition traps_new :: traps where
  "traps_new = \<lparr>tr_slots = replicate MAX_EXECUTION_TRAPS trap_empty, tr_active_count = 0,
     tr_next_id = 1, tr_bound_start = - 1, tr_bound_end = 0, tr_stop_claimed = False,
     tr_pending_mask = 0, tr_pending_tid = ANY_THREAD, tr_pending_address = 0\<rparr>"

definition trap_matches :: "trap \<Rightarrow> u64 \<Rightarrow> u32 \<Rightarrow> bool" where
  "trap_matches slot address thread_id =
     (if \<not> tp_active slot then False
      else tp_start slot \<le> address \<and> address < tp_end slot
        \<and> (tp_thread_id slot = ANY_THREAD \<or> tp_thread_id slot = thread_id))"

definition traps_any_active :: "traps \<Rightarrow> bool" where
  "traps_any_active s \<longleftrightarrow> tr_active_count s \<noteq> 0"

definition trap_live :: "trap \<Rightarrow> bool" where "trap_live slot \<longleftrightarrow> tp_used slot \<and> tp_active slot"

definition recompute_bounds :: "traps \<Rightarrow> traps" where
  "recompute_bounds s =
     (case fold (\<lambda>slot (start, fin). if trap_live slot then (min start (tp_start slot), max fin (tp_end slot))
                                      else (start, fin)) (tr_slots s) (- 1, 0) of
        (start, fin) \<Rightarrow> s\<lparr>tr_bound_start := start, tr_bound_end := fin\<rparr>)"

definition traps_wants :: "bool \<Rightarrow> traps \<Rightarrow> u64 \<Rightarrow> bool" where
  "traps_wants locked s address =
     (if \<not> traps_any_active s \<or> address < tr_bound_start s \<or> tr_bound_end s \<le> address \<or> \<not> locked
      then False
      else list_ex (\<lambda>slot. tp_used slot \<and> tp_active slot \<and> tp_start slot \<le> address
             \<and> address < tp_end slot) (tr_slots s))"

subsection \<open>The analysis callback\<close>

fun trap_scan :: "u64 \<Rightarrow> u32 \<Rightarrow> nat \<Rightarrow> trap list \<Rightarrow> trap list \<times> u64 \<times> u64" where
  "trap_scan address thread_id index [] = ([], 0, 0)"
| "trap_scan address thread_id index (slot # slots) =
     (case trap_scan address thread_id (Suc index) slots of
        (slots, bits, freed) \<Rightarrow>
          if \<not> trap_matches slot address thread_id then (slot # slots, bits, freed)
          else (slot\<lparr>tp_active := \<not> tp_one_shot slot, tp_hits := tp_hits slot + 1\<rparr> # slots,
                bits OR push_bit index 1, freed + of_bool (tp_one_shot slot)))"

definition on_execute_scan :: "u64 \<Rightarrow> u32 \<Rightarrow> traps \<Rightarrow> u64 option \<times> traps" where
  "on_execute_scan address thread_id s =
     (if \<not> traps_any_active s \<or> tr_stop_claimed s then (None, s)
      else case trap_scan address thread_id 0 (tr_slots s) of
             (slots, bits, freed) \<Rightarrow>
               let s = s\<lparr>tr_stop_claimed := True, tr_slots := slots,
                         tr_active_count := tr_active_count s - freed\<rparr>
               in if bits = 0 then (None, s\<lparr>tr_stop_claimed := False\<rparr>) else (Some bits, s))"

definition on_execute_record :: "u64 \<Rightarrow> u32 \<Rightarrow> u64 \<Rightarrow> traps \<Rightarrow> traps" where
  "on_execute_record address thread_id bits s =
     s\<lparr>tr_pending_tid := thread_id, tr_pending_address := address, tr_pending_mask := bits\<rparr>"

text \<open>The whole callback, and whether it goes on to \<open>bp::exact_stop\<close>.\<close>

definition on_execute :: "u64 \<Rightarrow> u32 \<Rightarrow> traps \<Rightarrow> bool \<times> traps" where
  "on_execute address thread_id s =
     (case on_execute_scan address thread_id s of
        (None, s) \<Rightarrow> (False, s)
      | (Some bits, s) \<Rightarrow> (True, on_execute_record address thread_id bits s))"

subsection \<open>The breaker's hooks\<close>

definition trap_event :: "u32 \<Rightarrow> u64 \<Rightarrow> u64 \<Rightarrow> trap \<Rightarrow> event" where
  "trap_event thread_id address stop_generation slot =
     event_empty\<lparr>ev_kind := EVENT_EXECUTION_TRAP, ev_thread_id := thread_id, ev_address := address,
       ev_arg0 := ucast (tp_id slot), ev_arg1 := tp_start slot, ev_arg2 := tp_end slot,
       ev_arg3 := tp_hits slot, ev_arg4 := stop_generation,
       ev_arg5 := of_bool (tp_one_shot slot) OR push_bit 1 (of_bool (tp_thread_id slot \<noteq> ANY_THREAD)),
       ev_arg6 := ucast (tp_thread_id slot)\<rparr>"

definition publish_stopped :: "bool \<Rightarrow> u64 \<Rightarrow> traps \<Rightarrow> traps \<times> event list" where
  "publish_stopped locked stop_generation s =
     (if tr_pending_mask s = 0 \<or> \<not> locked then (s, [])
      else (s\<lparr>tr_pending_mask := 0\<rparr>,
            map (\<lambda>index. trap_event (tr_pending_tid s) (tr_pending_address s) stop_generation
                           (tr_slots s ! index))
              (filter (\<lambda>index. tr_pending_mask s AND push_bit index 1 \<noteq> 0)
                 [0..<length (tr_slots s)])))"

definition traps_on_resume :: "traps \<Rightarrow> traps" where
  "traps_on_resume s = s\<lparr>tr_pending_mask := 0, tr_pending_tid := ANY_THREAD,
     tr_pending_address := 0, tr_stop_claimed := False\<rparr>"

subsection \<open>The control thread\<close>

definition trap_remove :: "bool \<Rightarrow> u32 \<Rightarrow> traps \<Rightarrow> bool \<times> traps \<times> (u64 \<times> u64) list" where
  "trap_remove locked ident s =
     (if \<not> locked then (False, s, [])
      else case List.find (\<lambda>index. tp_used (tr_slots s ! index) \<and> tp_id (tr_slots s ! index) = ident)
                  [0..<length (tr_slots s)] of
             None \<Rightarrow> (False, s, [])
           | Some index \<Rightarrow>
               let slot = tr_slots s ! index;
                   count = (if tp_active slot then tr_active_count s - 1 else tr_active_count s);
                   slot = slot\<lparr>tp_active := False\<rparr>;
                   slot = (if tr_pending_mask s AND push_bit index 1 = 0
                           then slot\<lparr>tp_used := False\<rparr> else slot)
               in (True,
                   recompute_bounds (s\<lparr>tr_slots := (tr_slots s)[index := slot],
                     tr_active_count := count\<rparr>),
                   [(tp_start slot, tp_end slot)]))"

definition trap_set ::
  "bool \<Rightarrow> bool \<Rightarrow> (u64 \<Rightarrow> u64 \<Rightarrow> u32) \<Rightarrow> u64 \<Rightarrow> u64 \<Rightarrow> bool \<Rightarrow> u32 option \<Rightarrow> traps
     \<Rightarrow> (u32 + u32) \<times> traps \<times> (u64 \<times> u64) list" where
  "trap_set probe_mode locked flush start fin one_shot thread_id s =
     (if start = 0 \<or> start \<ge> fin \<or> thread_id = Some ANY_THREAD
      then (Inl PB_ERR_INVALID_ARGUMENT, s, [])
      else if probe_mode then (Inl PB_ERR_UNSUPPORTED, s, [])
      else if \<not> locked then (Inl PB_ERR_INVALID_STATE, s, [])
      else case List.find (\<lambda>index. (\<not> tp_used (tr_slots s ! index) \<or> \<not> tp_active (tr_slots s ! index))
                     \<and> tr_pending_mask s AND push_bit index 1 = 0) [0..<length (tr_slots s)] of
             None \<Rightarrow> (Inl PB_ERR_OUT_OF_MEMORY, s, [])
           | Some index \<Rightarrow>
               let ident = tr_next_id s;
                   slot = \<lparr>tp_used = True, tp_id = ident, tp_start = start, tp_end = fin,
                     tp_thread_id = (case thread_id of None \<Rightarrow> ANY_THREAD | Some t \<Rightarrow> t),
                     tp_active = True, tp_one_shot = one_shot, tp_hits = 0\<rparr>;
                   s = recompute_bounds (s\<lparr>tr_next_id := ident + 1,
                         tr_slots := (tr_slots s)[index := slot],
                         tr_active_count := tr_active_count s + 1\<rparr>);
                   status = flush start fin
               in if status \<noteq> PB_OK
                  then case trap_remove locked ident s of
                         (_, s, flushed) \<Rightarrow> (Inl status, s, (start, fin) # flushed)
                  else (Inr ident, s, [(start, fin)]))"

definition traps_list :: "bool \<Rightarrow> traps \<Rightarrow> (u32 \<times> u64 \<times> u64 \<times> u32 option \<times> bool \<times> u64) list" where
  "traps_list locked s =
     (if \<not> locked then []
      else map (\<lambda>slot. (tp_id slot, tp_start slot, tp_end slot,
               if tp_thread_id slot \<noteq> ANY_THREAD then Some (tp_thread_id slot) else None,
               tp_one_shot slot, tp_hits slot))
             (filter (\<lambda>slot. tp_used slot \<and> tp_active slot) (tr_slots s)))"

subsection \<open>The table invariant\<close>

text \<open>
  The counter is exact, so it never wraps; the bounds enclose every live range; a live slot holds a
  non-empty range.
\<close>

definition live_count :: "trap list \<Rightarrow> nat" where
  "live_count slots = length (filter trap_live slots)"

definition within_bounds :: "u64 \<Rightarrow> u64 \<Rightarrow> trap \<Rightarrow> bool" where
  "within_bounds lo hi slot \<longleftrightarrow> (trap_live slot \<longrightarrow> lo \<le> tp_start slot \<and> tp_end slot \<le> hi)"

definition traps_ok :: "traps \<Rightarrow> bool" where
  "traps_ok s \<longleftrightarrow> length (tr_slots s) = 64 \<and>
     tr_active_count s = word_of_nat (live_count (tr_slots s)) \<and>
     (\<forall>slot \<in> set (tr_slots s). (tp_active slot \<longrightarrow> tp_used slot) \<and>
        within_bounds (tr_bound_start s) (tr_bound_end s) slot)"

lemma recompute_bounds_fields [simp]:
  "tr_slots (recompute_bounds s) = tr_slots s"
  "tr_active_count (recompute_bounds s) = tr_active_count s"
  "tr_next_id (recompute_bounds s) = tr_next_id s"
  "tr_stop_claimed (recompute_bounds s) = tr_stop_claimed s"
  "tr_pending_mask (recompute_bounds s) = tr_pending_mask s"
  "tr_pending_tid (recompute_bounds s) = tr_pending_tid s"
  "tr_pending_address (recompute_bounds s) = tr_pending_address s"
  by (simp_all add: recompute_bounds_def split: prod.splits)

definition bounds_of :: "trap list \<Rightarrow> u64 \<times> u64 \<Rightarrow> u64 \<times> u64" where
  "bounds_of slots b = fold (\<lambda>slot (start, fin).
     if trap_live slot then (min start (tp_start slot), max fin (tp_end slot)) else (start, fin)) slots b"

lemma bounds_of_within:
  "bounds_of slots (a, b) = (lo, hi) \<Longrightarrow>
     lo \<le> a \<and> b \<le> hi \<and> (\<forall>slot \<in> set slots. within_bounds lo hi slot)"
proof (induction slots arbitrary: a b)
  case Nil
  then show ?case by (simp add: bounds_of_def)
next
  case (Cons x slots)
  let ?b = "if trap_live x then (min a (tp_start x), max b (tp_end x)) else (a, b)"
  have "bounds_of slots (fst ?b, snd ?b) = (lo, hi)"
    using Cons.prems by (simp add: bounds_of_def)
  from Cons.IH [OF this] show ?case by (auto simp: within_bounds_def split: if_splits)
qed

lemma recompute_within:
  "\<forall>slot \<in> set (tr_slots s).
     within_bounds (tr_bound_start (recompute_bounds s)) (tr_bound_end (recompute_bounds s)) slot"
proof -
  obtain lo hi where b: "bounds_of (tr_slots s) (- 1, 0) = (lo, hi)" by fastforce
  then have "recompute_bounds s = s\<lparr>tr_bound_start := lo, tr_bound_end := hi\<rparr>"
    by (simp add: recompute_bounds_def bounds_of_def)
  with bounds_of_within [OF b] show ?thesis by simp
qed

lemma traps_ok_recompute:
  assumes "length (tr_slots s) = 64" and "tr_active_count s = word_of_nat (live_count (tr_slots s))"
    and "\<forall>slot \<in> set (tr_slots s). tp_active slot \<longrightarrow> tp_used slot"
  shows "traps_ok (recompute_bounds s)"
  using assms recompute_within [of s] by (auto simp: traps_ok_def)

lemma traps_ok_new [pb_inv]: "traps_ok traps_new"
  by (auto simp: traps_ok_def traps_new_def MAX_EXECUTION_TRAPS_def trap_empty_def live_count_def
      trap_live_def within_bounds_def)

subsection \<open>The scan\<close>

definition trap_hit :: "u64 \<Rightarrow> u32 \<Rightarrow> trap \<Rightarrow> trap" where
  "trap_hit address thread_id slot =
     (if trap_matches slot address thread_id
      then slot\<lparr>tp_active := \<not> tp_one_shot slot, tp_hits := tp_hits slot + 1\<rparr> else slot)"

lemma trap_scan_slots: "fst (trap_scan a t k slots) = map (trap_hit a t) slots"
  by (induction a t k slots rule: trap_scan.induct) (auto simp: trap_hit_def split: prod.splits)

lemma trap_scan_bits:
  "k + length slots \<le> 64 \<Longrightarrow>
     bit (fst (snd (trap_scan a t k slots))) j \<longleftrightarrow>
       k \<le> j \<and> j < k + length slots \<and> trap_matches (slots ! (j - k)) a t"
proof (induction a t k slots rule: trap_scan.induct)
  case (2 a t k slot slots)
  obtain slots' bits freed where scan: "trap_scan a t (Suc k) slots = (slots', bits, freed)"
    by (metis prod_cases3)
  have "bit bits j \<longleftrightarrow> Suc k \<le> j \<and> j < Suc k + length slots \<and> trap_matches (slots ! (j - Suc k)) a t"
    using 2 scan by simp
  moreover have "bit (push_bit k 1 :: u64) j \<longleftrightarrow> j = k"
    using 2 by (auto simp: bit_simps)
  ultimately show ?case
    by (cases "j = k") (auto simp: scan bit_or_iff nth_Cons' less_Suc_eq_le)
qed simp

lemma trap_scan_freed:
  "\<forall>slot \<in> set slots. tp_active slot \<longrightarrow> tp_used slot \<Longrightarrow>
     word_of_nat (live_count (map (trap_hit a t) slots))
       = word_of_nat (live_count slots) - snd (snd (trap_scan a t k slots))"
proof (induction a t k slots rule: trap_scan.induct)
  case (2 a t k slot slots)
  obtain slots' bits freed where scan: "trap_scan a t (Suc k) slots = (slots', bits, freed)"
    by (metis prod_cases3)
  have ih: "word_of_nat (live_count (map (trap_hit a t) slots)) = word_of_nat (live_count slots) - freed"
    using 2 scan by simp
  have used: "trap_matches slot a t \<Longrightarrow> tp_used slot \<and> tp_active slot"
    using 2 by (auto simp: trap_matches_def split: if_splits)
  have Cons: "live_count (x # xs) = of_bool (trap_live x) + live_count xs" for x xs
    by (simp add: live_count_def)
  show ?case
    using ih used by (auto simp: scan Cons trap_hit_def [of a t slot] trap_live_def)
qed (simp add: live_count_def)

subsection \<open>Every operation keeps the invariant\<close>

lemma live_count_update:
  "i < length xs \<Longrightarrow>
     live_count (xs[i := x]) + of_bool (trap_live (xs ! i)) = live_count xs + of_bool (trap_live x)"
  unfolding live_count_def by (rule length_filter_update)

lemma within_bounds_hit:
  "within_bounds lo hi slot \<Longrightarrow> (tp_active slot \<longrightarrow> tp_used slot) \<Longrightarrow> within_bounds lo hi (trap_hit a t slot)"
  by (auto simp: within_bounds_def trap_hit_def trap_live_def trap_matches_def split: if_splits)

lemma used_hit: "(tp_active slot \<longrightarrow> tp_used slot) \<Longrightarrow> tp_active (trap_hit a t slot) \<longrightarrow> tp_used (trap_hit a t slot)"
  by (auto simp: trap_hit_def trap_matches_def split: if_splits)

lemma traps_ok_execute [pb_inv]:
  assumes "traps_ok s"
  shows "traps_ok (snd (on_execute a t s))"
proof -
  obtain slots bits freed where scan: "trap_scan a t 0 (tr_slots s) = (slots, bits, freed)"
    by (metis prod_cases3)
  have slots: "slots = map (trap_hit a t) (tr_slots s)"
    using trap_scan_slots [of a t 0 "tr_slots s"] scan by simp
  have "word_of_nat (live_count slots) = word_of_nat (live_count (tr_slots s)) - freed"
    using trap_scan_freed [of "tr_slots s" a t 0] scan slots assms by (simp add: traps_ok_def)
  then show ?thesis
    using assms
    by (auto simp: on_execute_def on_execute_scan_def on_execute_record_def scan Let_def traps_ok_def
        slots within_bounds_hit used_hit [rule_format])
qed

lemma traps_ok_publish [pb_inv]: "traps_ok s \<Longrightarrow> traps_ok (fst (publish_stopped locked g s))"
  by (simp add: publish_stopped_def traps_ok_def)

lemma traps_ok_resume [pb_inv]: "traps_ok s \<Longrightarrow> traps_ok (traps_on_resume s)"
  by (simp add: traps_on_resume_def traps_ok_def)

lemma traps_ok_replace:
  assumes ok: "traps_ok s" and i: "i < length (tr_slots s)" and x: "tp_active x \<longrightarrow> tp_used x"
    and "count + of_bool (trap_live (tr_slots s ! i)) = tr_active_count s + of_bool (trap_live x)"
  shows "traps_ok (recompute_bounds (s\<lparr>tr_next_id := n, tr_slots := (tr_slots s)[i := x],
    tr_active_count := count\<rparr>))"
proof (rule traps_ok_recompute)
  show "length (tr_slots (s\<lparr>tr_next_id := n, tr_slots := (tr_slots s)[i := x], tr_active_count := count\<rparr>)) = 64"
    using ok by (simp add: traps_ok_def)
  have "word_of_nat (live_count ((tr_slots s)[i := x]) + of_bool (trap_live (tr_slots s ! i)))
      = (word_of_nat (live_count (tr_slots s) + of_bool (trap_live x)) :: u64)"
    by (simp only: live_count_update [OF i])
  then have "(word_of_nat (live_count ((tr_slots s)[i := x])) :: u64) + of_bool (trap_live (tr_slots s ! i))
      = tr_active_count s + of_bool (trap_live x)"
    using ok by (simp add: traps_ok_def)
  then show "tr_active_count (s\<lparr>tr_next_id := n, tr_slots := (tr_slots s)[i := x], tr_active_count := count\<rparr>)
      = word_of_nat (live_count (tr_slots (s\<lparr>tr_next_id := n, tr_slots := (tr_slots s)[i := x],
          tr_active_count := count\<rparr>)))"
    using add_right_imp_eq [of count "of_bool (trap_live (tr_slots s ! i))"
        "word_of_nat (live_count ((tr_slots s)[i := x]))"] assms(4) by simp
  show "\<forall>slot \<in> set (tr_slots (s\<lparr>tr_next_id := n, tr_slots := (tr_slots s)[i := x],
      tr_active_count := count\<rparr>)). tp_active slot \<longrightarrow> tp_used slot"
    using ok x by (auto simp: traps_ok_def dest!: set_update_subset_insert [THEN subsetD])
qed

lemma trap_used_same:
  "tp_used slot \<Longrightarrow> slot\<lparr>tp_active := False, tp_used := True\<rparr> = slot\<lparr>tp_active := False\<rparr>"
  by (cases slot) simp

lemma trap_remove_found:
  assumes "List.find (\<lambda>i. tp_used (tr_slots s ! i) \<and> tp_id (tr_slots s ! i) = ident)
    [0..<length (tr_slots s)] = Some i"
  shows "trap_remove True ident s =
    (True, recompute_bounds (s\<lparr>tr_slots := (tr_slots s)[i := (tr_slots s ! i)\<lparr>tp_active := False,
        tp_used := tr_pending_mask s AND push_bit i 1 \<noteq> 0\<rparr>],
      tr_active_count := (if tp_active (tr_slots s ! i) then tr_active_count s - 1 else tr_active_count s)\<rparr>),
     [(tp_start (tr_slots s ! i), tp_end (tr_slots s ! i))])"
  using find_index_Some [OF assms] assms by (simp add: trap_remove_def Let_def trap_used_same)

lemma traps_ok_remove [pb_inv]:
  assumes ok: "traps_ok s"
  shows "traps_ok (fst (snd (trap_remove locked ident s)))"
proof (cases "locked")
  case True
  show ?thesis
  proof (cases "List.find (\<lambda>i. tp_used (tr_slots s ! i) \<and> tp_id (tr_slots s ! i) = ident)
      [0..<length (tr_slots s)]")
    case None
    then show ?thesis using ok by (simp add: trap_remove_def)
  next
    case (Some i)
    then have i: "i < length (tr_slots s)" and used: "tp_used (tr_slots s ! i)"
      using find_index_Some [OF Some] by auto
    have "traps_ok (recompute_bounds (s\<lparr>tr_next_id := tr_next_id s, tr_slots := (tr_slots s)[i :=
        (tr_slots s ! i)\<lparr>tp_active := False, tp_used := tr_pending_mask s AND push_bit i 1 \<noteq> 0\<rparr>],
      tr_active_count := (if tp_active (tr_slots s ! i) then tr_active_count s - 1 else tr_active_count s)\<rparr>))"
      using used by (intro traps_ok_replace [OF ok i]) (simp_all add: trap_live_def)
    then show ?thesis using True by (simp add: trap_remove_found [OF Some])
  qed
qed (use ok in \<open>simp add: trap_remove_def\<close>)

lemma traps_ok_set [pb_inv]:
  assumes ok: "traps_ok s"
  shows "traps_ok (fst (snd (trap_set probe locked flush start fin one_shot tid s)))"
proof (cases "List.find (\<lambda>i. (\<not> tp_used (tr_slots s ! i) \<or> \<not> tp_active (tr_slots s ! i))
    \<and> tr_pending_mask s AND push_bit i 1 = 0) [0..<length (tr_slots s)]")
  case None
  then show ?thesis using ok by (simp add: trap_set_def)
next
  case (Some i)
  then have i: "i < length (tr_slots s)" and idle: "\<not> trap_live (tr_slots s ! i)"
    using find_index_Some [OF Some] by (auto simp: trap_live_def)
  let ?slot = "\<lparr>tp_used = True, tp_id = tr_next_id s, tp_start = start, tp_end = fin,
    tp_thread_id = (case tid of None \<Rightarrow> ANY_THREAD | Some t \<Rightarrow> t), tp_active = True,
    tp_one_shot = one_shot, tp_hits = 0\<rparr>"
  let ?s = "recompute_bounds (s\<lparr>tr_next_id := tr_next_id s + 1, tr_slots := (tr_slots s)[i := ?slot],
    tr_active_count := tr_active_count s + 1\<rparr>)"
  have "traps_ok ?s"
    using idle by (intro traps_ok_replace [OF ok i]) (simp_all add: trap_live_def)
  then show ?thesis
    using traps_ok_remove [of ?s locked "tr_next_id s"] ok Some
    by (auto simp: trap_set_def Let_def split: prod.splits)
qed

subsection \<open>Properties\<close>

lemma live_count_le: "live_count slots \<le> length slots"
  by (simp add: live_count_def)

lemma any_active_iff:
  assumes "traps_ok s"
  shows "traps_any_active s \<longleftrightarrow> (\<exists>slot \<in> set (tr_slots s). trap_live slot)"
proof -
  have "live_count (tr_slots s) \<le> 64"
    using assms live_count_le [of "tr_slots s"] by (simp add: traps_ok_def)
  then have "unat (word_of_nat (live_count (tr_slots s)) :: u64) = live_count (tr_slots s)"
    by (simp add: unat_of_nat)
  then have "tr_active_count s = 0 \<longleftrightarrow> live_count (tr_slots s) = 0"
    using assms by (metis traps_ok_def unat_eq_zero)
  then show ?thesis
    by (auto simp: traps_any_active_def live_count_def filter_empty_conv)
qed


text \<open>What may happen between a claimed hit and the breaker's publication.\<close>

datatype trap_op =
    Trap_set bool bool "u64 \<Rightarrow> u64 \<Rightarrow> u32" u64 u64 bool "u32 option"
  | Trap_remove bool u32
  | Trap_execute u64 u32

fun trap_apply :: "trap_op \<Rightarrow> traps \<Rightarrow> traps" where
  "trap_apply (Trap_set probe locked flush start fin one_shot tid) s =
     fst (snd (trap_set probe locked flush start fin one_shot tid s))"
| "trap_apply (Trap_remove locked ident) s = fst (snd (trap_remove locked ident s))"
| "trap_apply (Trap_execute address tid) s = snd (on_execute address tid s)"

definition trap_face :: "trap \<Rightarrow> u32 \<times> u64 \<times> u64 \<times> u32 \<times> bool \<times> u64" where
  "trap_face slot = (tp_id slot, tp_start slot, tp_end slot, tp_thread_id slot, tp_one_shot slot, tp_hits slot)"

lemma trap_event_face: "trap_face x = trap_face y \<Longrightarrow> trap_event t a g x = trap_event t a g y"
  by (simp add: trap_face_def trap_event_def)

definition stop_kept :: "traps \<Rightarrow> traps \<Rightarrow> bool" where
  "stop_kept s s' \<longleftrightarrow> tr_stop_claimed s' \<and> tr_pending_mask s' = tr_pending_mask s \<and>
     tr_pending_tid s' = tr_pending_tid s \<and> tr_pending_address s' = tr_pending_address s \<and>
     length (tr_slots s') = length (tr_slots s) \<and>
     (\<forall>i < length (tr_slots s). tr_pending_mask s AND push_bit i 1 \<noteq> 0 \<longrightarrow>
        trap_face (tr_slots s' ! i) = trap_face (tr_slots s ! i))"

lemma stop_kept_trans: "stop_kept a b \<Longrightarrow> stop_kept b c \<Longrightarrow> stop_kept a c"
  by (auto simp: stop_kept_def)

lemma stop_kept_remove:
  assumes "tr_stop_claimed s"
  shows "stop_kept s (fst (snd (trap_remove locked ident s)))"
proof (cases "locked \<and> List.find (\<lambda>i. tp_used (tr_slots s ! i) \<and> tp_id (tr_slots s ! i) = ident)
    [0..<length (tr_slots s)] \<noteq> None")
  case True
  then obtain i where "locked" and find: "List.find (\<lambda>i. tp_used (tr_slots s ! i) \<and> tp_id (tr_slots s ! i) = ident)
    [0..<length (tr_slots s)] = Some i" by blast
  then show ?thesis
    using assms trap_remove_found [OF find] find_index_Some [OF find]
    by (auto simp: stop_kept_def nth_list_update trap_face_def)
next
  case False
  then have "fst (snd (trap_remove locked ident s)) = s"
    by (auto simp: trap_remove_def split: option.splits)
  with assms show ?thesis by (simp add: stop_kept_def)
qed

lemma stop_kept_set:
  assumes "tr_stop_claimed s"
  shows "stop_kept s (fst (snd (trap_set probe locked flush start fin one_shot tid s)))"
proof (cases "List.find (\<lambda>i. (\<not> tp_used (tr_slots s ! i) \<or> \<not> tp_active (tr_slots s ! i))
    \<and> tr_pending_mask s AND push_bit i 1 = 0) [0..<length (tr_slots s)]")
  case None
  then show ?thesis using assms by (simp add: trap_set_def stop_kept_def)
next
  case (Some i)
  then have i: "tr_pending_mask s AND push_bit i 1 = 0" "i < length (tr_slots s)"
    using find_index_Some [OF Some] by simp_all
  let ?slot = "\<lparr>tp_used = True, tp_id = tr_next_id s, tp_start = start, tp_end = fin,
    tp_thread_id = (case tid of None \<Rightarrow> ANY_THREAD | Some t \<Rightarrow> t), tp_active = True,
    tp_one_shot = one_shot, tp_hits = 0\<rparr>"
  let ?s = "recompute_bounds (s\<lparr>tr_next_id := tr_next_id s + 1, tr_slots := (tr_slots s)[i := ?slot],
    tr_active_count := tr_active_count s + 1\<rparr>)"
  have same: "stop_kept s s" using assms by (simp add: stop_kept_def)
  have "stop_kept s ?s" using assms i by (auto simp: stop_kept_def nth_list_update)
  moreover from this have "stop_kept s (fst (snd (trap_remove locked (tr_next_id s) ?s)))"
    by (rule stop_kept_trans) (rule stop_kept_remove, simp add: assms)
  ultimately show ?thesis
    using same Some by (auto simp: trap_set_def Let_def split: prod.splits)
qed

lemma stop_kept_ops: "tr_stop_claimed s \<Longrightarrow> stop_kept s (fold trap_apply ops s)"
proof (induction ops arbitrary: s)
  case (Cons op ops)
  have step: "stop_kept s (trap_apply op s)"
    using Cons.prems stop_kept_set stop_kept_remove
    by (cases op) (simp_all add: on_execute_def on_execute_scan_def stop_kept_def)
  then have "tr_stop_claimed (trap_apply op s)" by (simp add: stop_kept_def)
  from stop_kept_trans [OF step Cons.IH [OF this]] show ?case by simp
qed (simp add: stop_kept_def)

lemma on_execute_claim:
  assumes ok: "traps_ok s" and claim: "on_execute address tid s = (True, s1)"
  shows "tr_slots s1 = map (trap_hit address tid) (tr_slots s)" and "tr_stop_claimed s1"
    and "i < 64 \<Longrightarrow> tr_pending_mask s1 AND push_bit i 1 \<noteq> 0 \<longleftrightarrow> trap_matches (tr_slots s ! i) address tid"
    and "tr_pending_tid s1 = tid" and "tr_pending_address s1 = address"
proof -
  obtain slots bits freed where scan: "trap_scan address tid 0 (tr_slots s) = (slots, bits, freed)"
    by (metis prod_cases3)
  have s1: "s1 = (s\<lparr>tr_stop_claimed := True, tr_slots := slots,
      tr_active_count := tr_active_count s - freed\<rparr>)\<lparr>tr_pending_tid := tid,
      tr_pending_address := address, tr_pending_mask := bits\<rparr>"
    using claim by (auto simp: on_execute_def on_execute_scan_def on_execute_record_def scan Let_def
        split: if_splits)
  show "tr_slots s1 = map (trap_hit address tid) (tr_slots s)"
    using trap_scan_slots [of address tid 0 "tr_slots s"] scan by (simp add: s1)
  show "tr_stop_claimed s1" "tr_pending_tid s1 = tid" "tr_pending_address s1 = address"
    by (simp_all add: s1)
  show "i < 64 \<Longrightarrow> tr_pending_mask s1 AND push_bit i 1 \<noteq> 0 \<longleftrightarrow> trap_matches (tr_slots s ! i) address tid"
    using trap_scan_bits [of 0 "tr_slots s" address tid i] scan ok
    by (simp add: s1 traps_ok_def and_exp_eq_0_iff_not_bit)
qed




text \<open>
  The lock-free callback's one gap: a one-shot trap is switched off by the scan before the
  pending mask is stored, and a trap set in between reuses its slot, so the event published for the
  stop carries the new trap's id and range instead of those of the trap that was hit.
\<close>

theorem trap_reuse_before_record:
  "\<exists>s bits s1 s2. on_execute_scan 4100 7 s = (Some bits, s1)
     \<and> s2 = trap_apply (Trap_set False True (\<lambda>_ _. PB_OK) 36864 40960 False None) s1
     \<and> map tp_id (filter (\<lambda>slot. trap_matches slot 4100 7) (tr_slots s)) = [1]
     \<and> map (\<lambda>e. (ev_arg0 e, ev_arg1 e)) (snd (publish_stopped True 9 (on_execute_record 4100 7 bits s2)))
         = [(2, 36864)]"
proof -
  let ?s = "trap_apply (Trap_set False True (\<lambda>_ _. PB_OK) 4096 8192 True None) traps_new"
  let ?bits = "the (fst (on_execute_scan 4100 7 ?s))" and ?s1 = "snd (on_execute_scan 4100 7 ?s)"
  let ?s2 = "trap_apply (Trap_set False True (\<lambda>_ _. PB_OK) 36864 40960 False None) ?s1"
  have "fst (on_execute_scan 4100 7 ?s) = Some 1" by code_simp
  then have scan: "on_execute_scan 4100 7 ?s = (Some ?bits, ?s1)"
    by (metis option.sel prod.collapse)
  have hit: "map tp_id (filter (\<lambda>slot. trap_matches slot 4100 7) (tr_slots ?s)) = [1]" by code_simp
  have published: "map (\<lambda>e. (ev_arg0 e, ev_arg1 e))
      (snd (publish_stopped True 9 (on_execute_record 4100 7 ?bits ?s2))) = [(2, 36864)]" by code_simp
  show ?thesis
    by (rule exI [of _ ?s], rule exI [of _ ?bits], rule exI [of _ ?s1], rule exI [of _ ?s2])
      (intro conjI scan hit published refl)
qed

end
