(* ===== verification/Pb_Stepper.thy ===== *)
theory Pb_Stepper
  imports Pb_Channels
begin

section \<open>The single-step engine (stepper.rs)\<close>

text \<open>
  \<open>bindings/rust/pinbridge-agent/src/stepper.rs\<close>: arming a step, the private successor table, the
  suppression of the one replay of the stopped instruction, claiming the landing, and parking. The
  static atomics are the fields of \<open>stepper\<close>. Pin calls are effects, returned in the order they
  are made; the status of a call that the code reads is an argument.
\<close>

datatype pin_effect =
    Passthrough u32 bool
  | Flush u64 u64
  | Semaphore_set u64
  | Semaphore_wait u64
  | Semaphore_clear u64
  | Request_stop

definition PB_INVALID_THREAD_ID :: u32 where "PB_INVALID_THREAD_ID = 4294967295"
definition MODE_INTO :: u32 where "MODE_INTO = 0"
definition MODE_OVER :: u32 where "MODE_OVER = 1"
definition MODE_CANDIDATES :: u32 where "MODE_CANDIDATES = 2"
definition MAX_CANDIDATES :: nat where "MAX_CANDIDATES = 3"

lemmas step_mode_defs = MODE_INTO_def MODE_OVER_def MODE_CANDIDATES_def

record stepper =
  st_tid :: u32
  st_start_ip :: u64
  st_mode :: u32
  st_stepping :: bool
  st_replay_pending :: bool
  st_tf_compat_tid :: u32
  st_candidate_count :: nat
  st_candidates :: "u64 list"
  st_park_sem :: u64
  st_parked :: bool
  st_parked_tid :: u32
  st_parked_ip :: u64
  st_park_lock :: u64
  st_suspending :: bool

definition stepper_new :: stepper where
  "stepper_new = \<lparr>st_tid = - 1, st_start_ip = 0, st_mode = MODE_INTO, st_stepping = False,
     st_replay_pending = False, st_tf_compat_tid = PB_INVALID_THREAD_ID, st_candidate_count = 0,
     st_candidates = replicate MAX_CANDIDATES 0, st_park_sem = 0, st_parked = False,
     st_parked_tid = 0, st_parked_ip = 0, st_park_lock = 0, st_suspending = False\<rparr>"

definition stepper_init :: "u32 \<times> u64 \<Rightarrow> u32 \<times> u64 \<Rightarrow> stepper \<Rightarrow> u32 \<times> stepper" where
  "stepper_init semaphore mutex s =
     (if fst semaphore \<noteq> PB_OK then (fst semaphore, s)
      else let s = s\<lparr>st_park_sem := snd semaphore\<rparr>
           in (fst mutex, if fst mutex = PB_OK then s\<lparr>st_park_lock := snd mutex\<rparr> else s))"

subsection \<open>TF compatibility\<close>

definition arm_tf_compat :: "u32 \<Rightarrow> u32 \<Rightarrow> stepper \<Rightarrow> (u32 + unit) \<times> stepper \<times> pin_effect list" where
  "arm_tf_compat status thread_id s =
     (let previous = st_tf_compat_tid s;
          s = s\<lparr>st_tf_compat_tid := thread_id\<rparr>;
          effects = (if previous \<noteq> PB_INVALID_THREAD_ID \<and> previous \<noteq> thread_id
                     then [Passthrough previous False] else []) @ [Passthrough thread_id True]
      in if status \<noteq> PB_OK
         then (Inl status,
               if st_tf_compat_tid s = thread_id then s\<lparr>st_tf_compat_tid := PB_INVALID_THREAD_ID\<rparr> else s,
               effects)
         else (Inr (), s, effects))"

definition disarm_tf_compat :: "u32 \<Rightarrow> stepper \<Rightarrow> stepper \<times> pin_effect list" where
  "disarm_tf_compat thread_id s =
     (if st_tf_compat_tid s = thread_id
      then (s\<lparr>st_tf_compat_tid := PB_INVALID_THREAD_ID\<rparr>, [Passthrough thread_id False])
      else (s, []))"

subsection \<open>Parking\<close>

definition step_release :: "stepper \<Rightarrow> stepper \<times> pin_effect list" where
  "step_release s =
     (if \<not> st_parked s then (s, [])
      else (s\<lparr>st_parked := False\<rparr>,
            if st_park_sem s \<noteq> 0 then [Semaphore_set (st_park_sem s)] else []))"

definition begin_suspend :: "stepper \<Rightarrow> stepper \<times> pin_effect list" where
  "begin_suspend s = step_release (s\<lparr>st_suspending := True\<rparr>)"

definition end_suspend :: "stepper \<Rightarrow> stepper" where
  "end_suspend s = s\<lparr>st_suspending := False\<rparr>"

definition park_current :: "u32 \<Rightarrow> u32 \<Rightarrow> u64 \<Rightarrow> stepper \<Rightarrow> bool \<times> stepper \<times> pin_effect list" where
  "park_current lock_status thread_id address s =
     (let parked = s\<lparr>st_parked_tid := thread_id, st_parked_ip := address, st_stepping := False,
                     st_parked := True\<rparr>;
          waits = Request_stop # (if st_park_sem s \<noteq> 0
                    then [Semaphore_wait (st_park_sem s), Semaphore_clear (st_park_sem s)] else [])
      in if st_park_lock s \<noteq> 0
         then if lock_status = PB_OK \<and> \<not> st_suspending s \<and> \<not> st_parked s
              then (True, parked, waits) else (False, s, [])
         else (True, if st_parked s then s else parked, waits))"

subsection \<open>Arming\<close>

definition step_arm :: "u32 \<Rightarrow> u32 \<Rightarrow> u64 \<Rightarrow> bool \<Rightarrow> stepper \<Rightarrow> (u32 + unit) \<times> stepper \<times> pin_effect list" where
  "step_arm status thread_id start_ip over s =
     (case arm_tf_compat status thread_id s of
        (Inl e, s, effects) \<Rightarrow> (Inl e, s, effects)
      | (Inr _, s, effects) \<Rightarrow>
          (Inr (), s\<lparr>st_tid := thread_id, st_start_ip := start_ip,
             st_mode := (if over then MODE_OVER else MODE_INTO), st_replay_pending := True,
             st_candidate_count := 0, st_stepping := True\<rparr>, effects))"

definition step_cancel :: "stepper \<Rightarrow> stepper \<times> pin_effect list" where
  "step_cancel s =
     (s\<lparr>st_tf_compat_tid := PB_INVALID_THREAD_ID, st_stepping := False, st_replay_pending := False,
        st_candidate_count := 0, st_candidates := replicate MAX_CANDIDATES 0\<rparr>,
      if st_tf_compat_tid s \<noteq> PB_INVALID_THREAD_ID then [Passthrough (st_tf_compat_tid s) False] else [])"

definition publish_candidates :: "u32 \<Rightarrow> u64 \<Rightarrow> u64 list \<Rightarrow> stepper \<Rightarrow> nat \<times> stepper" where
  "publish_candidates thread_id start_ip candidates s =
     (let count = min (length candidates) MAX_CANDIDATES
      in (count, s\<lparr>st_candidates := map (\<lambda>i. if i < length candidates then candidates ! i else 0)
                     [0..<MAX_CANDIDATES],
            st_tid := thread_id, st_start_ip := start_ip, st_mode := MODE_CANDIDATES,
            st_replay_pending := True, st_candidate_count := count, st_stepping := (count \<noteq> 0)\<rparr>))"

fun flush_candidates ::
  "(u64 \<Rightarrow> u64 \<Rightarrow> u32) \<Rightarrow> u64 list \<Rightarrow> stepper \<Rightarrow> (u32 + unit) \<times> stepper \<times> pin_effect list" where
  "flush_candidates flush [] s = (Inr (), s, [])"
| "flush_candidates flush (address # rest) s =
     (let fin = sat_add address 15; status = flush address fin
      in if status \<noteq> PB_OK
         then (case step_cancel s of (s, effects) \<Rightarrow> (Inl status, s, Flush address fin # effects))
         else case flush_candidates flush rest s of
                (result, s, effects) \<Rightarrow> (result, s, Flush address fin # effects))"

definition arm_candidates ::
  "u32 \<Rightarrow> (u64 \<Rightarrow> u64 \<Rightarrow> u32) \<Rightarrow> u32 \<Rightarrow> u64 \<Rightarrow> u64 list \<Rightarrow> stepper
     \<Rightarrow> (u32 + nat) \<times> stepper \<times> pin_effect list" where
  "arm_candidates tf_status flush thread_id start_ip candidates s =
     (case publish_candidates thread_id start_ip candidates s of
        (count, s) \<Rightarrow>
          if count = 0 then (Inl PB_ERR_INVALID_ARGUMENT, s, [])
          else case arm_tf_compat tf_status thread_id s of
                 (Inl status, s, effects) \<Rightarrow>
                   (case step_cancel s of (s, extra) \<Rightarrow> (Inl status, s, effects @ extra))
               | (Inr _, s, effects) \<Rightarrow>
                   (case flush_candidates flush (take count candidates) s of
                      (Inl status, s, extra) \<Rightarrow> (Inl status, s, effects @ extra)
                    | (Inr _, s, extra) \<Rightarrow> (Inr count, s, effects @ extra)))"

subsection \<open>Landing\<close>

definition candidate_index :: "stepper \<Rightarrow> u64 \<Rightarrow> nat option" where
  "candidate_index s address =
     (if \<not> st_stepping s \<or> st_mode s \<noteq> MODE_CANDIDATES then None
      else List.find (\<lambda>index. st_candidates s ! index = address)
             [0..<min (st_candidate_count s) MAX_CANDIDATES])"

definition candidate_address :: "stepper \<Rightarrow> nat \<Rightarrow> u64" where
  "candidate_address s index =
     (if index \<ge> min (st_candidate_count s) MAX_CANDIDATES then 0 else st_candidates s ! index)"

definition consume_start_replay :: "u32 \<Rightarrow> u64 \<Rightarrow> stepper \<Rightarrow> bool \<times> stepper" where
  "consume_start_replay thread_id address s =
     (if \<not> st_stepping s \<or> st_tid s \<noteq> thread_id \<or> st_start_ip s \<noteq> address then (False, s)
      else (st_replay_pending s, s\<lparr>st_replay_pending := False\<rparr>))"

definition claim_candidate :: "nat \<Rightarrow> u32 \<Rightarrow> stepper \<Rightarrow> u64 option \<times> stepper \<times> pin_effect list" where
  "claim_candidate index thread_id s =
     (if index \<ge> min (st_candidate_count s) MAX_CANDIDATES \<or> st_mode s \<noteq> MODE_CANDIDATES
         \<or> st_tid s \<noteq> thread_id
      then (None, s, [])
      else let address = st_candidates s ! index
           in if address = 0 \<or> \<not> st_stepping s then (None, s, [])
              else case disarm_tf_compat thread_id (s\<lparr>st_stepping := False\<rparr>) of
                     (s, effects) \<Rightarrow> (Some address, s, effects))"

definition claim_breakpoint :: "u32 \<Rightarrow> u64 \<Rightarrow> stepper \<Rightarrow> bool \<times> stepper \<times> pin_effect list" where
  "claim_breakpoint thread_id address s =
     (case candidate_index s address of
        None \<Rightarrow> (False, s, [])
      | Some index \<Rightarrow>
          (case claim_candidate index thread_id s of
             (claimed, s, effects) \<Rightarrow> (claimed \<noteq> None, s, effects)))"

definition on_step_event :: "u32 \<Rightarrow> u32 \<Rightarrow> u64 \<Rightarrow> stepper \<Rightarrow> bool \<times> stepper \<times> pin_effect list" where
  "on_step_event lock_status thread_id address s =
     (if \<not> st_stepping s then (False, s, [])
      else if st_tid s \<noteq> thread_id then (False, s, [])
      else case consume_start_replay thread_id address s of
             (True, s) \<Rightarrow> (True, s, [])
           | (False, s) \<Rightarrow>
               if st_mode s \<noteq> MODE_INTO then (False, s, [])
               else case disarm_tf_compat thread_id s of
                      (s, effects) \<Rightarrow>
                        (case park_current lock_status thread_id address s of
                           (granted, s, extra) \<Rightarrow>
                             (True, s, effects @ extra @ (if granted then [] else [Request_stop]))))"

text \<open>
  The stepper's part of \<open>bp::on_step_hit_ctx\<close>, the callback planted on a successor: swallow the
  replay of the start, else claim.
\<close>

definition step_callback :: "nat \<Rightarrow> u32 \<Rightarrow> stepper \<Rightarrow> u64 option \<times> stepper \<times> pin_effect list" where
  "step_callback index thread_id s =
     (let address = candidate_address s index
      in case (if address \<noteq> 0 then consume_start_replay thread_id address s else (False, s)) of
           (True, s) \<Rightarrow> (None, s, [])
         | (False, s) \<Rightarrow> claim_candidate index thread_id s)"

subsection \<open>A decoded step over an execution\<close>

text \<open>
  An execution is the sequence of (thread, address) the application runs after the resume. The
  flush makes Pin re-instrument each successor, so an address carries the callback exactly if
  \<open>candidate_index\<close> found it when the step was armed; \<open>planted\<close> is that map.
\<close>

fun step_landings :: "(u64 \<Rightarrow> nat option) \<Rightarrow> (u32 \<times> u64) list \<Rightarrow> stepper \<Rightarrow> (u32 \<times> u64) list" where
  "step_landings planted [] s = []"
| "step_landings planted ((thread_id, address) # run) s =
     (case planted address of
        None \<Rightarrow> step_landings planted run s
      | Some index \<Rightarrow>
          (case step_callback index thread_id s of
             (None, s, _) \<Rightarrow> step_landings planted run s
           | (Some landed, s, _) \<Rightarrow> (thread_id, landed) # step_landings planted run s))"

text \<open>The specification: the stepping thread's visits to successors, less one replay of the start.\<close>

definition visits :: "u32 \<Rightarrow> u64 list \<Rightarrow> (u32 \<times> u64) list \<Rightarrow> (u32 \<times> u64) list" where
  "visits thread_id candidates run = filter (\<lambda>(t, a). t = thread_id \<and> a \<in> set candidates) run"

definition expected_landing :: "u32 \<Rightarrow> u64 \<Rightarrow> u64 list \<Rightarrow> bool \<Rightarrow> (u32 \<times> u64) list \<Rightarrow> (u32 \<times> u64) list" where
  "expected_landing thread_id start candidates replay run =
     (case visits thread_id candidates run of
        [] \<Rightarrow> []
      | v # rest \<Rightarrow> if replay \<and> snd v = start then take 1 rest else [v])"

definition armed :: "u32 \<Rightarrow> u64 \<Rightarrow> u64 list \<Rightarrow> bool \<Rightarrow> stepper \<Rightarrow> bool" where
  "armed thread_id start candidates replay s \<longleftrightarrow>
     st_stepping s \<and> st_tid s = thread_id \<and> st_start_ip s = start \<and> st_mode s = MODE_CANDIDATES \<and>
     st_replay_pending s = replay \<and> st_candidate_count s = length candidates \<and>
     length candidates \<le> MAX_CANDIDATES \<and> take (length candidates) (st_candidates s) = candidates \<and>
     length candidates \<le> length (st_candidates s)"

lemma landings_after:
  "\<not> st_stepping s \<Longrightarrow> step_landings planted run s = []"
proof (induction run arbitrary: s)
  case (Cons v run)
  obtain t a where v: "v = (t, a)" by fastforce
  have "step_callback i t s = (None, s, [])" for i
    using Cons.prems
    by (auto simp: step_callback_def consume_start_replay_def claim_candidate_def Let_def)
  with Cons v show ?case by (auto split: option.splits)
qed simp

lemma armed_index:
  assumes "armed tid start cands replay s"
  shows "candidate_index s a = None \<longleftrightarrow> a \<notin> set cands"
    and "candidate_index s a = Some i \<Longrightarrow> i < length cands \<and> cands ! i = a"
proof -
  have len: "min (st_candidate_count s) MAX_CANDIDATES = length cands"
    and on: "st_stepping s" "st_mode s = MODE_CANDIDATES"
    using assms by (auto simp: armed_def)
  have nth: "st_candidates s ! i = cands ! i" if "i < length cands" for i
    using assms that by (metis armed_def nth_take)
  show "candidate_index s a = None \<longleftrightarrow> a \<notin> set cands"
    using nth by (auto simp: candidate_index_def on len find_index_None in_set_conv_nth)
  show "candidate_index s a = Some i \<Longrightarrow> i < length cands \<and> cands ! i = a"
    using nth by (auto simp: candidate_index_def on len dest!: find_index_Some)
qed

lemma callback_armed:
  assumes armed: "armed tid start cands replay s" and zero: "0 \<notin> set cands"
    and i: "i < length cands" "cands ! i = a"
  shows "t \<noteq> tid \<Longrightarrow> step_callback i t s = (None, s, [])"
    and "replay \<Longrightarrow> a = start \<Longrightarrow> step_callback i tid s = (None, s\<lparr>st_replay_pending := False\<rparr>, [])"
    and "\<not> (replay \<and> a = start) \<Longrightarrow>
      \<exists>s' effects. step_callback i tid s = (Some a, s', effects) \<and> \<not> st_stepping s'"
proof -
  have len: "min (st_candidate_count s) MAX_CANDIDATES = length cands"
    and on: "st_stepping s" "st_mode s = MODE_CANDIDATES" "st_tid s = tid" "st_start_ip s = start"
      "st_replay_pending s = replay"
    using armed by (auto simp: armed_def)
  have addr: "st_candidates s ! i = a"
    using armed i by (metis armed_def nth_take)
  have "a \<noteq> 0" using zero i by (metis nth_mem)
  note facts = step_callback_def candidate_address_def consume_start_replay_def claim_candidate_def
    len on addr Let_def
  show "t \<noteq> tid \<Longrightarrow> step_callback i t s = (None, s, [])"
    using i by (simp add: facts)
  show "replay \<Longrightarrow> a = start \<Longrightarrow> step_callback i tid s = (None, s\<lparr>st_replay_pending := False\<rparr>, [])"
    using i \<open>a \<noteq> 0\<close> by (simp add: facts)
  show "\<not> (replay \<and> a = start) \<Longrightarrow>
      \<exists>s' effects. step_callback i tid s = (Some a, s', effects) \<and> \<not> st_stepping s'"
    using i \<open>a \<noteq> 0\<close> by (auto simp: facts disarm_tf_compat_def)
qed

lemma armed_replayed:
  "armed tid start cands replay s \<Longrightarrow> armed tid start cands False (s\<lparr>st_replay_pending := False\<rparr>)"
  by (simp add: armed_def)

lemma landings_armed:
  assumes "armed tid start cands replay s" and zero: "0 \<notin> set cands"
    and planted: "\<And>a. planted a = None \<longleftrightarrow> a \<notin> set cands"
      "\<And>a i. planted a = Some i \<Longrightarrow> i < length cands \<and> cands ! i = a"
  shows "step_landings planted run s = expected_landing tid start cands replay run"
  using assms(1)
proof (induction run arbitrary: s replay)
  case Nil
  show ?case by (simp add: expected_landing_def visits_def)
next
  case (Cons v run)
  obtain t a where v: "v = (t, a)" by fastforce
  show ?case
  proof (cases "planted a")
    case None
    then have "a \<notin> set cands" by (simp add: planted)
    then show ?thesis using Cons.IH [OF Cons.prems] None v
      by (simp add: expected_landing_def visits_def)
  next
    case (Some i)
    then have i: "i < length cands" "cands ! i = a" using planted by auto
    then have mem: "a \<in> set cands" by auto
    note callback = callback_armed [OF Cons.prems zero i]
    consider "t \<noteq> tid" | "t = tid" "replay" "a = start" | "t = tid" "\<not> (replay \<and> a = start)" by blast
    then show ?thesis
    proof cases
      case 1
      then show ?thesis using Cons.IH [OF Cons.prems] Some v callback(1)
        by (simp add: expected_landing_def visits_def)
    next
      case 2
      have "step_landings planted (v # run) s = expected_landing tid start cands False run"
        using Cons.IH [OF armed_replayed [OF Cons.prems]] Some v callback(2) 2 by simp
      also have "\<dots> = take 1 (visits tid cands run)"
        by (cases "visits tid cands run") (auto simp: expected_landing_def)
      finally show ?thesis using 2 v mem by (simp add: expected_landing_def visits_def)
    next
      case 3
      then obtain s' effects where "step_callback i tid s = (Some a, s', effects)" "\<not> st_stepping s'"
        using callback(3) by blast
      then have "step_landings planted (v # run) s = [(tid, a)]"
        using Some v 3 landings_after by simp
      then show ?thesis using 3 v mem by (auto simp: expected_landing_def visits_def)
    qed
  qed
qed

lemma flush_candidates_ok:
  "flush_candidates flush cs s = (Inr (), s', effects) \<Longrightarrow> s' = s"
  by (induction flush cs s arbitrary: s' effects rule: flush_candidates.induct)
    (auto simp: Let_def split: prod.splits if_splits)

lemma arm_candidates_armed:
  assumes "arm_candidates tf flush tid start cands s = (Inr n, s', effects)"
  shows "armed tid start (take 3 cands) True s' \<and> n = length (take 3 cands)"
proof -
  let ?s1 = "snd (publish_candidates tid start cands s)"
  have count: "fst (publish_candidates tid start cands s) = min (length cands) 3"
    by (simp add: publish_candidates_def MAX_CANDIDATES_def Let_def)
  have table: "take (min (length cands) 3) (map (\<lambda>i. if i < length cands then cands ! i else 0) [0..<3])
      = take 3 cands"
    by (rule nth_equalityI) auto
  obtain s2 e2 where tf: "arm_tf_compat tf tid ?s1 = (Inr (), s2, e2)" and nz: "min (length cands) 3 \<noteq> 0"
    using assms count by (auto simp: arm_candidates_def split: prod.splits sum.splits if_splits)
  obtain e3 where "flush_candidates flush (take (min (length cands) 3) cands) s2 = (Inr (), s', e3)"
    and n: "n = min (length cands) 3"
    using assms count tf nz
    by (auto simp: arm_candidates_def split: prod.splits sum.splits if_splits)
  then have "s' = s2" by (blast dest: flush_candidates_ok)
  moreover have "s2 = ?s1\<lparr>st_tf_compat_tid := tid\<rparr>"
    using tf by (auto simp: arm_tf_compat_def Let_def split: if_splits)
  ultimately show ?thesis
    using nz n table by (simp add: armed_def publish_candidates_def MAX_CANDIDATES_def Let_def min.commute)
qed

subsection \<open>Properties\<close>



end
