(* ===== verification/Pb_Breakpoints.thy ===== *)
theory Pb_Breakpoints
  imports Pb_Arch Pb_Traps Pb_Stepper
begin

section \<open>Breakpoints and the breaker (bp.rs)\<close>

text \<open>
  \<open>bindings/rust/pinbridge-agent/src/bp.rs\<close>: the breakpoint table, the exact-stop path of the
  analysis callbacks, and one turn of the breaker loop, the single owner of stop and resume. The
  state holds the statics of \<open>bp.rs\<close>, \<open>control::STOPPED\<close>, and the stepper and trap tables the
  breaker drives. \<open>locked\<close> is what \<open>lock_table()\<close> returned; the status of each Pin call the code
  reads is an argument. The park stub is its flag byte and target slot; its machine code is
  \<open>stub_image\<close>.
\<close>

definition MAX_BREAKPOINTS :: nat where "MAX_BREAKPOINTS = 64"
definition CMD_STOP :: u32 where "CMD_STOP = 1"
definition CMD_RESUME :: u32 where "CMD_RESUME = 2"
definition NO_HIT_TID :: u32 where "NO_HIT_TID = - 1"
definition STUB_FLAG_OFF :: nat where "STUB_FLAG_OFF = 15"
definition STUB_TARGET_OFF :: nat where "STUB_TARGET_OFF = 16"

record breakpoint =
  bk_used :: bool
  bk_id :: u32
  bk_address :: u64
  bk_hits :: u64
  bk_active :: bool
  bk_one_shot :: bool

definition breakpoint_empty :: breakpoint where
  "breakpoint_empty = \<lparr>bk_used = False, bk_id = 0, bk_address = 0, bk_hits = 0, bk_active = False,
     bk_one_shot = False\<rparr>"

record breaker =
  bp_slots :: "breakpoint list"
  bp_active_count :: u64
  bp_next_id :: u64
  bp_cmd :: u32
  bp_cmd_result :: u32
  bp_hit_pending :: bool
  bp_watchdog_ticks :: u32
  bp_stop_gen :: u64
  bp_last_hit_tid :: u32
  bp_last_hit_addr :: u64
  bp_stub_base :: u64
  bp_stub_flag :: u8
  bp_stub_target :: u64
  bp_redirect_active :: bool
  bp_redirect_tid :: u32
  bp_redirect_addr :: u64
  bp_resume_skip_tid :: u32
  bp_resume_skip_addr :: u64
  bp_stopped :: bool
  bp_stepper :: stepper
  bp_traps :: traps

definition breaker_new :: breaker where
  "breaker_new = \<lparr>bp_slots = replicate MAX_BREAKPOINTS breakpoint_empty, bp_active_count = 0,
     bp_next_id = 1, bp_cmd = 0, bp_cmd_result = 0, bp_hit_pending = False, bp_watchdog_ticks = 0,
     bp_stop_gen = 0, bp_last_hit_tid = NO_HIT_TID, bp_last_hit_addr = 0, bp_stub_base = 0,
     bp_stub_flag = 0, bp_stub_target = 0, bp_redirect_active = False, bp_redirect_tid = 0,
     bp_redirect_addr = 0, bp_resume_skip_tid = NO_HIT_TID, bp_resume_skip_addr = 0,
     bp_stopped = False, bp_stepper = stepper_new, bp_traps = traps_new\<rparr>"

subsection \<open>The park stub\<close>

definition STUB_CODE :: bytes where
  "STUB_CODE = [0x80, 0x3D, 0x08, 0x00, 0x00, 0x00, 0x00, 0x74, 0xF7, 0xFF, 0x25, 0x01, 0x00, 0x00, 0x00]"

definition STUB_CODE_X86 :: bytes where
  "STUB_CODE_X86 = [0x80, 0x3D, 0, 0, 0, 0, 0x00, 0x74, 0xF7, 0xFF, 0x25, 0, 0, 0, 0]"

definition write_at :: "nat \<Rightarrow> bytes \<Rightarrow> bytes \<Rightarrow> bytes" where
  "write_at offset new page = take offset page @ new @ drop (offset + length new) page"

definition stub_image :: "u32 \<Rightarrow> u64 \<Rightarrow> bytes" where
  "stub_image width base =
     (if is_64 width then STUB_CODE
      else write_at 11 (le_u32 (ucast base + word_of_nat STUB_TARGET_OFF))
             (write_at 2 (le_u32 (ucast base + word_of_nat STUB_FLAG_OFF)) STUB_CODE_X86))"

definition init_stub :: "u64 \<Rightarrow> breaker \<Rightarrow> breaker" where
  "init_stub page s = (if page = 0 then s else s\<lparr>bp_stub_base := page\<rparr>)"

definition redirect_arm :: "u32 \<Rightarrow> u32 \<Rightarrow> u64 \<Rightarrow> breaker \<Rightarrow> bool \<times> breaker" where
  "redirect_arm width tid address s =
     (if bp_stub_base s = 0 then (False, s)
      else if bp_redirect_active s then (False, s)
      else let s = s\<lparr>bp_redirect_active := True, bp_redirect_tid := tid, bp_redirect_addr := address\<rparr>
           in if is_64 width then (True, s\<lparr>bp_stub_target := address, bp_stub_flag := 0\<rparr>)
              else if unat address \<ge> 2 ^ 32 then (False, s\<lparr>bp_redirect_active := False\<rparr>)
              else (True, s\<lparr>bp_stub_target := address, bp_stub_flag := 0\<rparr>))"

text \<open>
  The register write of \<open>rewind_redirected\<close>: which stopped thread, and the address its ip gets.
  \<open>writeable\<close>: whether Pin hands out a writeable context of the stopped thread.
\<close>

definition rewind_redirected :: "(u32 \<Rightarrow> bool) \<Rightarrow> breaker \<Rightarrow> (u32 \<times> u64) option" where
  "rewind_redirected writeable s =
     (if \<not> bp_redirect_active s then None
      else let tid = bp_redirect_tid s; address = bp_redirect_addr s
           in if writeable tid then Some (tid, address) else None)"

definition release_redirect :: "breaker \<Rightarrow> breaker" where
  "release_redirect s =
     (if bp_redirect_active s
      then let s = s\<lparr>bp_redirect_active := False\<rparr>
           in if bp_stub_base s \<noteq> 0 then s\<lparr>bp_stub_flag := 1\<rparr> else s
      else s)"

definition clear_step_bps :: "breaker \<Rightarrow> breaker" where
  "clear_step_bps s = s\<lparr>bp_stepper := fst (step_cancel (bp_stepper s))\<rparr>"

subsection \<open>Hits\<close>

definition arm_step_watchdog :: "u32 \<Rightarrow> breaker \<Rightarrow> breaker" where
  "arm_step_watchdog ticks s = s\<lparr>bp_watchdog_ticks := ticks\<rparr>"

definition last_hit :: "breaker \<Rightarrow> u32 \<times> u64" where
  "last_hit s = (bp_last_hit_tid s, bp_last_hit_addr s)"

text \<open>\<open>rip\<close> is \<open>stopped_thread_rip\<close>: the ip of a stopped thread, if Pin provides its context.\<close>

definition stopped_thread_rip :: "'c pin_calls \<Rightarrow> u32 \<Rightarrow> (u32 \<Rightarrow> 'c option) \<Rightarrow> u32 \<Rightarrow> u64 option" where
  "stopped_thread_rip pin width stopped_context tid =
     map_option (\<lambda>c. snd (pin_get_reg pin c (instr_ptr_reg width))) (stopped_context tid)"

definition arm_resume_skip :: "(u32 \<Rightarrow> u64 option) \<Rightarrow> breaker \<Rightarrow> breaker" where
  "arm_resume_skip rip s =
     (case last_hit s of (tid, address) \<Rightarrow>
        if tid \<noteq> NO_HIT_TID \<and> rip tid = Some address
        then s\<lparr>bp_resume_skip_addr := address, bp_resume_skip_tid := tid\<rparr>
        else s\<lparr>bp_resume_skip_tid := NO_HIT_TID\<rparr>)"

definition request_stop :: "breaker \<Rightarrow> breaker" where
  "request_stop s = s\<lparr>bp_hit_pending := True\<rparr>"

text \<open>
  \<open>exact_stop\<close> either leaves through \<open>execute_at\<close> with the ip at the stub (\<open>True\<close>), or returns to
  the callback. \<open>context\<close>: whether the callback has a context; \<open>set_ip\<close>: the status of writing it.
\<close>

definition exact_stop :: "u32 \<Rightarrow> bool \<Rightarrow> u32 \<Rightarrow> u32 \<Rightarrow> u64 \<Rightarrow> breaker \<Rightarrow> bool \<times> breaker" where
  "exact_stop width context set_ip tid address s =
     (let s = s\<lparr>bp_last_hit_tid := tid, bp_last_hit_addr := address\<rparr>
      in case (if context then redirect_arm width tid address s else (False, s)) of
           (True, s) \<Rightarrow>
             let s = request_stop s
             in if set_ip = PB_OK then (True, s) else (False, request_stop (release_redirect s))
         | (False, s) \<Rightarrow> (False, request_stop s))"

definition on_step_hit_ctx :: "u32 \<Rightarrow> bool \<Rightarrow> u32 \<Rightarrow> u32 option \<Rightarrow> nat \<Rightarrow> breaker \<Rightarrow> bool \<times> breaker" where
  "on_step_hit_ctx width context set_ip thread_id index s =
     (case thread_id of
        None \<Rightarrow> (False, s)
      | Some tid \<Rightarrow>
          (case step_callback index tid (bp_stepper s) of
             (None, st, _) \<Rightarrow> (False, s\<lparr>bp_stepper := st\<rparr>)
           | (Some address, st, _) \<Rightarrow> exact_stop width context set_ip tid address (s\<lparr>bp_stepper := st\<rparr>)))"

definition skip_replay :: "u32 \<Rightarrow> u64 \<Rightarrow> breaker \<Rightarrow> bool \<times> breaker" where
  "skip_replay tid address s =
     (if bp_resume_skip_tid s \<noteq> NO_HIT_TID \<and> bp_resume_skip_tid s = tid
      then (bp_resume_skip_addr s = address, s\<lparr>bp_resume_skip_tid := NO_HIT_TID\<rparr>)
      else (False, s))"

definition count_hit :: "nat \<Rightarrow> breaker \<Rightarrow> breaker" where
  "count_hit index s =
     (let slot = bp_slots s ! index;
          slot = slot\<lparr>bk_hits := bk_hits slot + 1\<rparr>
      in if bk_one_shot slot
         then s\<lparr>bp_slots := (bp_slots s)[index := slot\<lparr>bk_active := False\<rparr>],
                bp_active_count := bp_active_count s - 1\<rparr>
         else s\<lparr>bp_slots := (bp_slots s)[index := slot]\<rparr>)"

definition on_hit_ctx :: "u32 \<Rightarrow> bool \<Rightarrow> u32 \<Rightarrow> u32 option \<Rightarrow> nat \<Rightarrow> breaker \<Rightarrow> bool \<times> breaker" where
  "on_hit_ctx width context set_ip thread_id index s =
     (if index \<ge> MAX_BREAKPOINTS then (False, s)
      else if \<not> bk_active (bp_slots s ! index) then (False, s)
      else let address = bk_address (bp_slots s ! index)
           in case thread_id of
                None \<Rightarrow>
                  (let s = count_hit index s
                   in (False, request_stop (s\<lparr>bp_last_hit_tid := NO_HIT_TID, bp_last_hit_addr := address\<rparr>)))
              | Some tid \<Rightarrow>
                  (case consume_start_replay tid address (bp_stepper s) of
                     (True, st) \<Rightarrow> (False, s\<lparr>bp_stepper := st\<rparr>)
                   | (False, st) \<Rightarrow>
                       (case skip_replay tid address (s\<lparr>bp_stepper := st\<rparr>) of
                          (True, s) \<Rightarrow> (False, s)
                        | (False, s) \<Rightarrow>
                            let s = count_hit index s;
                                s = s\<lparr>bp_stepper := fst (snd (claim_breakpoint tid address (bp_stepper s)))\<rparr>
                            in exact_stop width context set_ip tid address s)))"

subsection \<open>The table\<close>

definition bp_any_active :: "breaker \<Rightarrow> bool" where "bp_any_active s \<longleftrightarrow> bp_active_count s > 0"

definition bp_find :: "bool \<Rightarrow> breaker \<Rightarrow> u64 \<Rightarrow> nat option" where
  "bp_find locked s address =
     (if \<not> bp_any_active s \<or> \<not> locked then None
      else List.find (\<lambda>i. bk_used (bp_slots s ! i) \<and> bk_address (bp_slots s ! i) = address
             \<and> bk_active (bp_slots s ! i)) [0..<length (bp_slots s)])"

definition bp_set_impl ::
  "bool \<Rightarrow> u64 \<Rightarrow> bool \<Rightarrow> breaker \<Rightarrow> (u32 + u32) \<times> breaker \<times> (u64 \<times> u64) list" where
  "bp_set_impl locked address one_shot s =
     (if address = 0 then (Inl PB_ERR_INVALID_ARGUMENT, s, [])
      else if \<not> locked then (Inl PB_ERR_INVALID_STATE, s, [])
      else case List.find (\<lambda>i. bk_used (bp_slots s ! i) \<and> bk_address (bp_slots s ! i) = address
                  \<and> bk_active (bp_slots s ! i)) [0..<length (bp_slots s)] of
             Some i \<Rightarrow> (Inr (bk_id (bp_slots s ! i)), s, [(address, address + 15)])
           | None \<Rightarrow>
               (case List.find (\<lambda>i. \<not> bk_used (bp_slots s ! i) \<or> \<not> bk_active (bp_slots s ! i))
                       [0..<length (bp_slots s)] of
                  None \<Rightarrow> (Inl PB_ERR_OUT_OF_MEMORY, s, [])
                | Some i \<Rightarrow>
                    let ident = ucast (bp_next_id s) :: u32;
                        slot = \<lparr>bk_used = True, bk_id = ident, bk_address = address, bk_hits = 0,
                                bk_active = True, bk_one_shot = one_shot\<rparr>
                    in (Inr ident,
                        s\<lparr>bp_next_id := bp_next_id s + 1, bp_slots := (bp_slots s)[i := slot],
                          bp_active_count := bp_active_count s + 1\<rparr>,
                        [(address, address + 15)])))"

definition bp_set :: "bool \<Rightarrow> u64 \<Rightarrow> breaker \<Rightarrow> (u32 + u32) \<times> breaker \<times> (u64 \<times> u64) list" where
  "bp_set locked address s = bp_set_impl locked address False s"

definition bp_set_oneshot :: "bool \<Rightarrow> u64 \<Rightarrow> breaker \<Rightarrow> (u32 + u32) \<times> breaker \<times> (u64 \<times> u64) list" where
  "bp_set_oneshot locked address s = bp_set_impl locked address True s"

definition bp_remove :: "bool \<Rightarrow> u32 \<Rightarrow> breaker \<Rightarrow> bool \<times> breaker \<times> (u64 \<times> u64) list" where
  "bp_remove locked ident s =
     (if \<not> locked then (False, s, [])
      else case List.find (\<lambda>i. bk_used (bp_slots s ! i) \<and> bk_id (bp_slots s ! i) = ident)
                  [0..<length (bp_slots s)] of
             None \<Rightarrow> (False, s, [])
           | Some i \<Rightarrow>
               let slot = bp_slots s ! i
               in (True,
                   s\<lparr>bp_slots := (bp_slots s)[i := slot\<lparr>bk_active := False, bk_used := False\<rparr>],
                     bp_active_count := bp_active_count s - 1\<rparr>,
                   [(bk_address slot, bk_address slot + 15)]))"

definition bp_list :: "bool \<Rightarrow> breaker \<Rightarrow> (u32 \<times> u64 \<times> u64) list" where
  "bp_list locked s =
     (if \<not> locked then []
      else map (\<lambda>slot. (bk_id slot, bk_address slot, bk_hits slot))
             (filter (\<lambda>slot. bk_used slot \<and> bk_active slot) (bp_slots s)))"

subsection \<open>One turn of the breaker loop\<close>

text \<open>
  What Pin answers during the turn is a \<open>world\<close>: whether \<open>pb_pin_stop_application_threads\<close>
  returned \<open>PB_OK\<close> and set \<open>stopped\<close> (for a hit, for a command), whether the resume succeeded,
  whether the trap table could be locked, and which stopped threads give a writeable context. The
  turn returns the ip rewinds it made and the trap events it published; \<open>tn_answered\<close> tells
  whether it acknowledged a command.
\<close>

record world =
  wd_stop_hit :: bool
  wd_stop_cmd :: bool
  wd_resume :: bool
  wd_trap_locked :: bool
  wd_writeable :: "u32 \<Rightarrow> bool"

record turn =
  tn_rewinds :: "(u32 \<times> u64) list"
  tn_events :: "event list"
  tn_answered :: bool

definition world_stopped :: "world \<Rightarrow> breaker \<times> turn \<Rightarrow> breaker \<times> turn" where
  "world_stopped w st =
     (case st of (s, t) \<Rightarrow>
        let s = s\<lparr>bp_watchdog_ticks := 0\<rparr>;
            t = t\<lparr>tn_rewinds := tn_rewinds t @ (case rewind_redirected (wd_writeable w) s of None \<Rightarrow> [] | Some r \<Rightarrow> [r])\<rparr>;
            s = clear_step_bps s;
            s = s\<lparr>bp_stopped := True, bp_stop_gen := bp_stop_gen s + 1\<rparr>
        in case publish_stopped (wd_trap_locked w) (bp_stop_gen s) (bp_traps s) of
             (tr, events) \<Rightarrow> (s\<lparr>bp_traps := tr\<rparr>, t\<lparr>tn_events := tn_events t @ events\<rparr>))"

definition suspend_begun :: "breaker \<Rightarrow> breaker" where
  "suspend_begun s = s\<lparr>bp_stepper := fst (begin_suspend (bp_stepper s))\<rparr>"

definition tick_watchdog :: "breaker \<Rightarrow> breaker" where
  "tick_watchdog s =
     (if bp_watchdog_ticks s > 0
      then let s = s\<lparr>bp_watchdog_ticks := bp_watchdog_ticks s - 1\<rparr>
           in if bp_watchdog_ticks s = 0 \<and> \<not> bp_stopped s then s\<lparr>bp_hit_pending := True\<rparr> else s
      else s)"

definition serve_hit :: "world \<Rightarrow> breaker \<times> turn \<Rightarrow> breaker \<times> turn" where
  "serve_hit w st =
     (case st of (s, t) \<Rightarrow>
        if \<not> bp_hit_pending s then (s, t)
        else let s = suspend_begun (s\<lparr>bp_hit_pending := False\<rparr>)
             in if bp_stopped s then (s, t)
                else if wd_stop_hit w then world_stopped w (s, t) else (s, t))"

definition resume_world :: "breaker \<Rightarrow> breaker" where
  "resume_world s = s\<lparr>bp_stopped := False, bp_stepper := end_suspend (bp_stepper s),
     bp_traps := traps_on_resume (bp_traps s), bp_last_hit_tid := NO_HIT_TID, bp_last_hit_addr := 0\<rparr>"

definition serve_command :: "world \<Rightarrow> breaker \<times> turn \<Rightarrow> breaker \<times> turn" where
  "serve_command w st =
     (case st of (s, t) \<Rightarrow>
        let cmd = bp_cmd s; s = s\<lparr>bp_cmd := 0\<rparr>
        in if cmd = 0 then (s, t)
           else if cmd = CMD_STOP
           then let s = suspend_begun s;
                    (s, t) = (if wd_stop_cmd w then world_stopped w (s, t) else (s, t))
                in (s\<lparr>bp_cmd_result := of_bool (wd_stop_cmd w)\<rparr>, t\<lparr>tn_answered := True\<rparr>)
           else let s = s\<lparr>bp_stepper := fst (step_release (bp_stepper s))\<rparr>;
                    s = release_redirect s;
                    s = (if wd_resume w then resume_world s else s)
                in (s\<lparr>bp_cmd_result := of_bool (wd_resume w)\<rparr>, t\<lparr>tn_answered := True\<rparr>))"

definition turn_start :: turn where
  "turn_start = \<lparr>tn_rewinds = [], tn_events = [], tn_answered = False\<rparr>"

definition breaker_turn :: "world \<Rightarrow> breaker \<Rightarrow> breaker \<times> turn" where
  "breaker_turn w s = serve_command w (serve_hit w (tick_watchdog s, turn_start))"

text \<open>
  \<open>control_command\<close> hands the command over; the breaker's next turn serves it. \<open>in_time\<close>: the
  acknowledgement came before the timeout, without which the caller gets \<open>false\<close>.
\<close>

definition control_command :: "bool \<Rightarrow> world \<Rightarrow> u32 \<Rightarrow> breaker \<Rightarrow> bool \<times> breaker \<times> turn" where
  "control_command in_time w cmd s =
     (case breaker_turn w (s\<lparr>bp_cmd := cmd\<rparr>) of
        (s, t) \<Rightarrow> (in_time \<and> tn_answered t \<and> bp_cmd_result s \<noteq> 0, s, t))"

end
