(* ===== verification/Pb_Breakpoint_Table.thy ===== *)
theory Pb_Breakpoint_Table
  imports Pb_Breakpoints
begin

section \<open>The breakpoint table and the exact stop\<close>

text \<open>
  Lemmas and properties of \<open>Pb_Breakpoints\<close>: the table as a map from addresses, its invariant in
  every reachable state, and the life of a hit from the callback through the stop and the resume.
  Callbacks and turns are atomic steps here; the code's callbacks are lock-free, so two threads that
  hit one slot at the same instant are outside this model.
\<close>

definition bk_live :: "breakpoint \<Rightarrow> bool" where "bk_live b \<longleftrightarrow> bk_used b \<and> bk_active b"

definition live_slots :: "breakpoint list \<Rightarrow> nat" where
  "live_slots slots = length (filter bk_live slots)"

definition distinct_live :: "breakpoint list \<Rightarrow> bool" where
  "distinct_live slots \<longleftrightarrow> (\<forall>i < length slots. \<forall>j < length slots.
     bk_live (slots ! i) \<longrightarrow> bk_live (slots ! j) \<longrightarrow>
     bk_address (slots ! i) = bk_address (slots ! j) \<longrightarrow> i = j)"

definition bp_table_ok :: "breaker \<Rightarrow> bool" where
  "bp_table_ok s \<longleftrightarrow>
     length (bp_slots s) = MAX_BREAKPOINTS \<and> unat (bp_active_count s) = live_slots (bp_slots s) \<and>
     (\<forall>b \<in> set (bp_slots s). bk_active b \<longrightarrow> bk_used b) \<and> distinct_live (bp_slots s)"

text \<open>What the table means: the live breakpoints by address, each with its id, hits and kind.\<close>

type_synonym bp_map = "u64 \<Rightarrow> (u32 \<times> u64 \<times> bool) option"

definition bk_data :: "breakpoint \<Rightarrow> u32 \<times> u64 \<times> bool" where
  "bk_data b = (bk_id b, bk_hits b, bk_one_shot b)"

definition slots_view :: "breakpoint list \<Rightarrow> bp_map" where
  "slots_view slots a =
     map_option bk_data (List.find (\<lambda>b. bk_live b \<and> bk_address b = a) slots)"

definition bp_view :: "breaker \<Rightarrow> bp_map" where "bp_view s = slots_view (bp_slots s)"

lemma live_slots_le: "live_slots slots \<le> length slots"
  by (simp add: live_slots_def)

lemma bp_table_new [pb_inv]: "bp_table_ok breaker_new"
  by (auto simp: bp_table_ok_def breaker_new_def live_slots_def bk_live_def breakpoint_empty_def
      distinct_live_def)

lemma slots_view_Some:
  assumes "distinct_live slots"
  shows "slots_view slots a = Some v \<longleftrightarrow>
    (\<exists>i < length slots. bk_live (slots ! i) \<and> bk_address (slots ! i) = a \<and> v = bk_data (slots ! i))"
proof
  assume "slots_view slots a = Some v"
  then show "\<exists>i < length slots. bk_live (slots ! i) \<and> bk_address (slots ! i) = a \<and> v = bk_data (slots ! i)"
    by (auto simp: slots_view_def find_Some_iff)
next
  assume "\<exists>i < length slots. bk_live (slots ! i) \<and> bk_address (slots ! i) = a \<and> v = bk_data (slots ! i)"
  then obtain i where i: "i < length slots" "bk_live (slots ! i)" "bk_address (slots ! i) = a"
    "v = bk_data (slots ! i)" by blast
  then have "List.find (\<lambda>b. bk_live b \<and> bk_address b = a) slots \<noteq> None"
    by (auto simp: find_None_iff)
  then obtain b where b: "List.find (\<lambda>b. bk_live b \<and> bk_address b = a) slots = Some b" by blast
  then obtain j where "j < length slots" "b = slots ! j" "bk_live (slots ! j)" "bk_address (slots ! j) = a"
    by (auto simp: find_Some_iff)
  moreover from this have "j = i" using i assms unfolding distinct_live_def by blast
  ultimately show "slots_view slots a = Some v" using b i by (simp add: slots_view_def)
qed

lemma slots_view_None:
  "slots_view slots a = None \<longleftrightarrow> (\<forall>i < length slots. bk_live (slots ! i) \<longrightarrow> bk_address (slots ! i) \<noteq> a)"
  by (auto simp: slots_view_def find_None_iff in_set_conv_nth)

lemma distinct_live_update:
  assumes "distinct_live slots" "i < length slots"
    and "bk_live b \<Longrightarrow> slots_view slots (bk_address b) = None \<or> (bk_live (slots ! i) \<and> bk_address (slots ! i) = bk_address b)"
  shows "distinct_live (slots[i := b])"
  using assms unfolding distinct_live_def slots_view_None
  by (smt (verit, ccfv_threshold) length_list_update nth_list_update)

lemma distinct_live_addresses:
  "distinct_live slots \<Longrightarrow> distinct (map bk_address (filter bk_live slots))"
proof (induction slots)
  case (Cons b slots)
  have step: "i < length slots \<Longrightarrow> j < length slots \<Longrightarrow> bk_live (slots ! i) \<Longrightarrow> bk_live (slots ! j)
     \<Longrightarrow> bk_address (slots ! i) = bk_address (slots ! j) \<Longrightarrow> i = j" for i j
    using Cons.prems unfolding distinct_live_def
    by (metis Suc_less_eq length_Cons nth_Cons_Suc old.nat.inject)
  have "distinct_live slots" unfolding distinct_live_def using step by blast
  moreover have "bk_live b \<Longrightarrow> j < length slots \<Longrightarrow> bk_live (slots ! j) \<Longrightarrow> bk_address (slots ! j) \<noteq> bk_address b" for j
    using Cons.prems unfolding distinct_live_def
    by (metis Suc_less_eq length_Cons nth_Cons_0 nth_Cons_Suc old.nat.distinct(2) zero_less_Suc)
  ultimately have "distinct (map bk_address (filter bk_live slots))"
    and "bk_live b \<Longrightarrow> bk_address b \<notin> bk_address ` set (filter bk_live slots)"
    using Cons.IH by (auto simp: in_set_conv_nth)+
  then show ?case by auto
qed (simp add: distinct_live_def)

lemma slots_view_update:
  assumes "distinct_live slots" "i < length slots"
    and b: "bk_live b \<Longrightarrow> slots_view slots (bk_address b) = None \<or> (bk_live (slots ! i) \<and> bk_address (slots ! i) = bk_address b)"
  shows "slots_view (slots[i := b]) a =
    (if bk_live b \<and> bk_address b = a then Some (bk_data b)
     else if bk_live (slots ! i) \<and> bk_address (slots ! i) = a then None else slots_view slots a)"
proof -
  note distinct = distinct_live_update [OF assms]
  show ?thesis
  proof (cases "slots_view (slots[i := b]) a")
    case None
    then have no: "\<And>j. j < length slots \<Longrightarrow> bk_live (slots[i := b] ! j) \<Longrightarrow> bk_address (slots[i := b] ! j) \<noteq> a"
      by (simp add: slots_view_None)
    have nb: "\<not> (bk_live b \<and> bk_address b = a)" using no[OF assms(2)] assms(2) by auto
    moreover have "slots_view slots a = None" if "\<not> (bk_live (slots ! i) \<and> bk_address (slots ! i) = a)"
      unfolding slots_view_None using no that by (metis nth_list_update_neq)
    ultimately show ?thesis using None by auto
  next
    case (Some v)
    then obtain j where j: "j < length slots" "bk_live (slots[i := b] ! j)"
        "bk_address (slots[i := b] ! j) = a" "v = bk_data (slots[i := b] ! j)"
      using distinct by (auto simp: slots_view_Some)
    show ?thesis
    proof (cases "j = i")
      case True
      then show ?thesis using j Some assms(2) by simp
    next
      case False
      then have old: "bk_live (slots ! j)" "bk_address (slots ! j) = a" "v = bk_data (slots ! j)"
        using j by auto
      have "slots_view slots a = Some v"
        using old j(1) assms(1) by (auto simp: slots_view_Some)
      moreover have "\<not> (bk_live (slots ! i) \<and> bk_address (slots ! i) = a)"
        using old j(1) False assms(1,2) by (auto simp: distinct_live_def)
      ultimately show ?thesis using Some b by auto
    qed
  qed
qed

lemma live_slots_update:
  "i < length slots \<Longrightarrow> live_slots (slots[i := b]) + of_bool (bk_live (slots ! i))
     = live_slots slots + of_bool (bk_live b)"
  unfolding live_slots_def by (rule length_filter_update)

lemma live_slots_pos: "i < length slots \<Longrightarrow> bk_live (slots ! i) \<Longrightarrow> 0 < live_slots slots"
  unfolding live_slots_def by (auto simp: filter_empty_conv)

lemma unat_dec: "0 < unat w \<Longrightarrow> unat (w - 1) = unat w - 1" for w :: u64
  by (metis unat_minus_one less_irrefl unat_0)

lemma unat_inc_64: "unat w \<le> 64 \<Longrightarrow> unat (w + 1) = unat w + 1" for w :: u64
  by (subst unat_plus_no_wrap) auto

text \<open>Replacing slot \<open>i\<close> by \<open>b\<close> and moving the count with the liveness of the slot.\<close>

lemma bp_table_replace:
  assumes ok: "bp_table_ok s" and i: "i < MAX_BREAKPOINTS" and used: "bk_active b \<longrightarrow> bk_used b"
    and free: "bk_live b \<longrightarrow> bp_view s (bk_address b) = None
      \<or> (bk_live (bp_slots s ! i) \<and> bk_address (bp_slots s ! i) = bk_address b)"
    and slots: "bp_slots s' = (bp_slots s)[i := b]"
    and cnt: "bp_active_count s' = bp_active_count s + of_bool (bk_live b) - of_bool (bk_live (bp_slots s ! i))"
  shows "bp_table_ok s'"
    and "bp_view s' a =
    (if bk_live b \<and> bk_address b = a then Some (bk_data b)
     else if bk_live (bp_slots s ! i) \<and> bk_address (bp_slots s ! i) = a then None else bp_view s a)"
proof -
  have len: "length (bp_slots s) = 64" and d: "distinct_live (bp_slots s)" 
    and count: "unat (bp_active_count s) = live_slots (bp_slots s)"
    using ok by (auto simp: bp_table_ok_def MAX_BREAKPOINTS_def)
  have il: "i < length (bp_slots s)" using i len by (simp add: MAX_BREAKPOINTS_def)
  have free': "bk_live b \<Longrightarrow> slots_view (bp_slots s) (bk_address b) = None
      \<or> (bk_live (bp_slots s ! i) \<and> bk_address (bp_slots s ! i) = bk_address b)"
    using free by (simp add: bp_view_def)
  have le: "live_slots (bp_slots s) \<le> 64" using live_slots_le[of "bp_slots s"] len by simp
  have "unat (bp_active_count s') = live_slots (bp_slots s')"
    using live_slots_update[OF il, of b] cnt count le live_slots_pos[OF il]
    by (auto simp: slots of_bool_def unat_inc_64 unat_dec split: if_splits)
  moreover have "\<forall>b \<in> set (bp_slots s'). bk_active b \<longrightarrow> bk_used b"
    using ok used unfolding slots by (auto simp: bp_table_ok_def dest!: set_update_subset_insert[THEN subsetD])
  ultimately show "bp_table_ok s'"
    using distinct_live_update[OF d il free'] len by (simp add: bp_table_ok_def slots MAX_BREAKPOINTS_def)
  show "bp_view s' a = (if bk_live b \<and> bk_address b = a then Some (bk_data b)
     else if bk_live (bp_slots s ! i) \<and> bk_address (bp_slots s ! i) = a then None else bp_view s a)"
    using slots_view_update[OF d il free'] by (simp add: bp_view_def slots)
qed

lemma bp_table_cong:
  "bp_slots s' = bp_slots s \<Longrightarrow> bp_active_count s' = bp_active_count s \<Longrightarrow> bp_table_ok s' = bp_table_ok s"
  by (simp add: bp_table_ok_def)

lemma bp_view_cong: "bp_slots s' = bp_slots s \<Longrightarrow> bp_view s' = bp_view s"
  by (simp add: bp_view_def fun_eq_iff)

lemma bp_live_iff:
  "bp_table_ok s \<Longrightarrow> i < MAX_BREAKPOINTS \<Longrightarrow> bk_live (bp_slots s ! i) = bk_active (bp_slots s ! i)"
  by (auto simp: bp_table_ok_def bk_live_def)

lemma bp_view_Some:
  "bp_table_ok s \<Longrightarrow> bp_view s a = Some v \<longleftrightarrow>
    (\<exists>i < MAX_BREAKPOINTS. bk_live (bp_slots s ! i) \<and> bk_address (bp_slots s ! i) = a \<and> v = bk_data (bp_slots s ! i))"
  by (simp add: bp_table_ok_def bp_view_def slots_view_Some)

lemma bp_view_None:
  "bp_table_ok s \<Longrightarrow> bp_view s a = None \<longleftrightarrow>
    (\<forall>i < MAX_BREAKPOINTS. bk_live (bp_slots s ! i) \<longrightarrow> bk_address (bp_slots s ! i) \<noteq> a)"
  by (simp add: bp_table_ok_def bp_view_def slots_view_None)

lemma bp_any_active_exact: "bp_table_ok s \<Longrightarrow> bp_any_active s \<longleftrightarrow> (\<exists>a. bp_view s a \<noteq> None)"
proof -
  assume ok: "bp_table_ok s"
  have "bp_any_active s \<longleftrightarrow> live_slots (bp_slots s) \<noteq> 0"
    using ok by (simp add: bp_any_active_def bp_table_ok_def word_less_nat_alt)
  also have "\<dots> \<longleftrightarrow> (\<exists>b \<in> set (bp_slots s). bk_live b)"
    by (auto simp: live_slots_def filter_empty_conv)
  also have "\<dots> \<longleftrightarrow> (\<exists>a. bp_view s a \<noteq> None)"
    by (auto simp: bp_view_def slots_view_def find_None_iff)
  finally show ?thesis .
qed

lemma bp_find_exact:
  assumes ok: "bp_table_ok s"
  shows "bp_find True s a = Some i \<longleftrightarrow>
    i < MAX_BREAKPOINTS \<and> bk_live (bp_slots s ! i) \<and> bk_address (bp_slots s ! i) = a"
proof -
  have len: "length (bp_slots s) = MAX_BREAKPOINTS" and d: "distinct_live (bp_slots s)"
    using ok by (auto simp: bp_table_ok_def)
  let ?P = "\<lambda>i. bk_used (bp_slots s ! i) \<and> bk_address (bp_slots s ! i) = a \<and> bk_active (bp_slots s ! i)"
  show ?thesis
  proof
    assume "bp_find True s a = Some i"
    then show "i < MAX_BREAKPOINTS \<and> bk_live (bp_slots s ! i) \<and> bk_address (bp_slots s ! i) = a"
      using len by (auto simp: bp_find_def bk_live_def dest!: find_index_Some split: if_splits)
  next
    assume r: "i < MAX_BREAKPOINTS \<and> bk_live (bp_slots s ! i) \<and> bk_address (bp_slots s ! i) = a"
    then have "bp_view s a \<noteq> None" using bp_view_None[OF ok] by auto
    then have "bp_any_active s" using bp_any_active_exact[OF ok] by blast
    moreover obtain j where j: "List.find ?P [0..<length (bp_slots s)] = Some j"
      using r len by (cases "List.find ?P [0..<length (bp_slots s)]") (auto simp: find_index_None bk_live_def)
    moreover have "j = i"
      using find_index_Some[OF j] r d len by (auto simp: distinct_live_def bk_live_def)
    ultimately show "bp_find True s a = Some i" by (simp add: bp_find_def)
  qed
qed

lemma count_hit_table:
  assumes ok: "bp_table_ok s" and i: "i < MAX_BREAKPOINTS" and on: "bk_active (bp_slots s ! i)"
  shows "bp_table_ok (count_hit i s)"
    and "bp_view (count_hit i s) = (bp_view s)(bk_address (bp_slots s ! i) :=
      (if bk_one_shot (bp_slots s ! i) then None
       else Some (bk_id (bp_slots s ! i), bk_hits (bp_slots s ! i) + 1, False)))"
proof -
  let ?b = "bp_slots s ! i"
  define b where "b = (if bk_one_shot ?b then ?b\<lparr>bk_hits := bk_hits ?b + 1, bk_active := False\<rparr>
    else ?b\<lparr>bk_hits := bk_hits ?b + 1\<rparr>)"
  have live: "bk_live ?b" using on ok i by (simp add: bp_live_iff)
  have b: "bk_active b \<longrightarrow> bk_used b" "bk_live b \<longleftrightarrow> \<not> bk_one_shot ?b" "bk_address b = bk_address ?b"
    using live by (auto simp: b_def bk_live_def)
  have s': "bp_slots (count_hit i s) = (bp_slots s)[i := b]"
    "bp_active_count (count_hit i s) = bp_active_count s + of_bool (bk_live b) - of_bool (bk_live ?b)"
    using live by (auto simp: count_hit_def b_def bk_live_def Let_def)
  have own: "bk_live b \<longrightarrow> bp_view s (bk_address b) = None
    \<or> (bk_live ?b \<and> bk_address ?b = bk_address b)" using live b by simp
  note rep = bp_table_replace[OF ok  i b(1) own s']
  show "bp_table_ok (count_hit i s)" by (rule rep(1))
  show "bp_view (count_hit i s) = (bp_view s)(bk_address ?b :=
      (if bk_one_shot ?b then None else Some (bk_id ?b, bk_hits ?b + 1, False)))"
  proof
    fix a
    have "\<not> bk_one_shot ?b \<Longrightarrow> bk_data b = (bk_id ?b, bk_hits ?b + 1, False)"
      by (simp add: b_def bk_data_def)
    then show "bp_view (count_hit i s) a = ((bp_view s)(bk_address ?b :=
      (if bk_one_shot ?b then None else Some (bk_id ?b, bk_hits ?b + 1, False)))) a"
      unfolding rep(2)[of a] using live b by auto
  qed
qed


lemma bp_full: "bp_table_ok s \<Longrightarrow> List.find (\<lambda>i. \<not> bk_used (bp_slots s ! i) \<or> \<not> bk_active (bp_slots s ! i))
    [0..<length (bp_slots s)] = None \<longleftrightarrow> live_slots (bp_slots s) = MAX_BREAKPOINTS"
proof -
  assume "bp_table_ok s"
  then have len: "length (bp_slots s) = MAX_BREAKPOINTS" by (simp add: bp_table_ok_def)
  have "live_slots (bp_slots s) = length (bp_slots s) \<longleftrightarrow> (\<forall>b \<in> set (bp_slots s). bk_live b)"
    unfolding live_slots_def by (auto simp: filter_True dest: length_filter_less [where P = bk_live])
  then show ?thesis
    by (simp add: find_index_None len all_set_conv_all_nth bk_live_def)
qed

lemma bp_set_table:
  assumes ok: "bp_table_ok s" and set: "bp_set_impl True a one s = (result, s', flushed)"
  shows "bp_table_ok s'"
    and "result = (if a = 0 then Inl PB_ERR_INVALID_ARGUMENT
      else case bp_view s a of Some (ident, _) \<Rightarrow> Inr ident
         | None \<Rightarrow> if live_slots (bp_slots s) = MAX_BREAKPOINTS then Inl PB_ERR_OUT_OF_MEMORY
                 else Inr (ucast (bp_next_id s)))"
    and "bp_view s' = (case result of Inr ident \<Rightarrow>
        if bp_view s a = None then (bp_view s)(a \<mapsto> (ident, 0, one)) else bp_view s
      | Inl _ \<Rightarrow> bp_view s)"
proof -
  have len: "length (bp_slots s) = MAX_BREAKPOINTS" using ok by (simp add: bp_table_ok_def)
  let ?hit = "List.find (\<lambda>i. bk_used (bp_slots s ! i) \<and> bk_address (bp_slots s ! i) = a
                  \<and> bk_active (bp_slots s ! i)) [0..<length (bp_slots s)]"
  let ?free = "List.find (\<lambda>i. \<not> bk_used (bp_slots s ! i) \<or> \<not> bk_active (bp_slots s ! i))
                       [0..<length (bp_slots s)]"
  let ?res = "if a = 0 then Inl PB_ERR_INVALID_ARGUMENT
      else case bp_view s a of Some (ident, _) \<Rightarrow> Inr ident
         | None \<Rightarrow> if live_slots (bp_slots s) = MAX_BREAKPOINTS then Inl PB_ERR_OUT_OF_MEMORY
                 else Inr (ucast (bp_next_id s))"
  let ?view = "case result of Inr ident \<Rightarrow>
        if bp_view s a = None then (bp_view s)(a \<mapsto> (ident, 0, one)) else bp_view s
      | Inl _ \<Rightarrow> bp_view s"
  have "bp_table_ok s' \<and> result = ?res \<and> bp_view s' = ?view"
  proof (cases "a = 0")
    case True
    then show ?thesis using ok set by (simp add: bp_set_impl_def) auto
  next
    case nz: False
    show ?thesis
    proof (cases ?hit)
      case (Some i)
      then have i: "i < MAX_BREAKPOINTS" "bk_live (bp_slots s ! i)" "bk_address (bp_slots s ! i) = a"
        using len by (auto simp: bk_live_def dest!: find_index_Some)
      then have "bp_view s a = Some (bk_data (bp_slots s ! i))" using bp_view_Some[OF ok] by auto
      then show ?thesis using nz Some ok set by (auto simp: bp_set_impl_def bk_data_def)
    next
      case None
      then have none: "bp_view s a = None"
        using len ok by (auto simp: bp_view_None find_index_None bk_live_def)
      show ?thesis
      proof (cases ?free)
        case full: None
        then have "live_slots (bp_slots s) = MAX_BREAKPOINTS" using bp_full[OF ok] by simp
        moreover have "result = Inl PB_ERR_OUT_OF_MEMORY \<and> s' = s"
          using full nz None set by (simp add: bp_set_impl_def)
        ultimately show ?thesis using nz none ok by simp
      next
        case (Some i)
        then have i: "i < MAX_BREAKPOINTS" "\<not> bk_live (bp_slots s ! i)"
          using len by (auto simp: bk_live_def dest!: find_index_Some)
        have notfull: "live_slots (bp_slots s) \<noteq> MAX_BREAKPOINTS" using bp_full[OF ok] Some by simp
        define b where "b = \<lparr>bk_used = True, bk_id = ucast (bp_next_id s), bk_address = a, bk_hits = 0,
                                bk_active = True, bk_one_shot = one\<rparr>"
        have r: "result = Inr (ucast (bp_next_id s))" and s': "bp_slots s' = (bp_slots s)[i := b]"
          "bp_active_count s' = bp_active_count s + of_bool (bk_live b) - of_bool (bk_live (bp_slots s ! i))"
          using nz None Some set i(2) by (auto simp: bp_set_impl_def Let_def b_def bk_live_def)
        have free: "bk_live b \<longrightarrow> bp_view s (bk_address b) = None
          \<or> (bk_live (bp_slots s ! i) \<and> bk_address (bp_slots s ! i) = bk_address b)"
          using none by (simp add: b_def)
        have used: "bk_active b \<longrightarrow> bk_used b" by (simp add: b_def)
        note rep = bp_table_replace[OF ok i(1) used free s']
        have "bp_view s' = (bp_view s)(a \<mapsto> (ucast (bp_next_id s), 0, one))"
          using i(2) by (auto simp: fun_eq_iff rep(2) b_def bk_live_def bk_data_def)
        then show ?thesis using rep(1) r nz none notfull by simp
      qed
    qed
  qed
  then show "bp_table_ok s'" "result = ?res" "bp_view s' = ?view" by blast+
qed

lemma bp_remove_table:
  assumes ok: "bp_table_ok s" and remove: "bp_remove True ident s = (result, s', flushed)"
    and live: "\<forall>b \<in> set (bp_slots s). bk_used b \<and> bk_id b = ident \<longrightarrow> bk_active b"
  shows "bp_table_ok s'"
    and "result \<longleftrightarrow> (\<exists>a v. bp_view s a = Some (ident, v))"
    and "result \<Longrightarrow> \<exists>a v. bp_view s a = Some (ident, v) \<and> bp_view s' = (bp_view s)(a := None) \<and> flushed = [(a, a + 15)]"
    and "\<not> result \<Longrightarrow> s' = s \<and> flushed = []"
proof -
  have len: "length (bp_slots s) = MAX_BREAKPOINTS" using ok by (simp add: bp_table_ok_def)
  let ?hit = "List.find (\<lambda>i. bk_used (bp_slots s ! i) \<and> bk_id (bp_slots s ! i) = ident) [0..<length (bp_slots s)]"
  have "bp_table_ok s' \<and> (result \<longleftrightarrow> (\<exists>a v. bp_view s a = Some (ident, v)))
     \<and> (result \<longrightarrow> (\<exists>a v. bp_view s a = Some (ident, v) \<and> bp_view s' = (bp_view s)(a := None) \<and> flushed = [(a, a + 15)]))
     \<and> (\<not> result \<longrightarrow> s' = s \<and> flushed = [])"
  proof (cases ?hit)
    case None
    then have "bp_view s a \<noteq> Some (ident, v)" for a v
      using len by (auto simp: bp_view_Some[OF ok] find_index_None bk_live_def bk_data_def)
    then show ?thesis using None ok remove by (auto simp: bp_remove_def)
  next
    case (Some i)
    then have i: "i < MAX_BREAKPOINTS" "bk_live (bp_slots s ! i)" "bk_id (bp_slots s ! i) = ident"
      using len live by (auto simp: bk_live_def dest!: find_index_Some)
    let ?b = "bp_slots s ! i"
    define b where "b = ?b\<lparr>bk_active := False, bk_used := False\<rparr>"
    have r: "result" "flushed = [(bk_address ?b, bk_address ?b + 15)]"
      and s': "bp_slots s' = (bp_slots s)[i := b]"
      "bp_active_count s' = bp_active_count s + of_bool (bk_live b) - of_bool (bk_live ?b)"
      using Some remove i(2) by (auto simp: bp_remove_def Let_def b_def bk_live_def)
    have dead: "\<not> bk_live b" "bk_active b \<longrightarrow> bk_used b" by (auto simp: b_def bk_live_def)
    have free: "bk_live b \<longrightarrow> bp_view s (bk_address b) = None
      \<or> (bk_live ?b \<and> bk_address ?b = bk_address b)" using dead by simp
    note rep = bp_table_replace[OF ok i(1) dead(2) free s']
    have v: "bp_view s (bk_address ?b) = Some (ident, bk_hits ?b, bk_one_shot ?b)"
      using i bp_view_Some[OF ok] by (auto simp: bk_data_def)
    moreover have "bp_view s' = (bp_view s)(bk_address ?b := None)"
      using i(2) dead(1) by (auto simp: fun_eq_iff rep(2))
    ultimately show ?thesis using rep(1) r by auto
  qed
  then show "bp_table_ok s'" "result \<longleftrightarrow> (\<exists>a v. bp_view s a = Some (ident, v))"
    "result \<Longrightarrow> \<exists>a v. bp_view s a = Some (ident, v) \<and> bp_view s' = (bp_view s)(a := None) \<and> flushed = [(a, a + 15)]"
    "\<not> result \<Longrightarrow> s' = s \<and> flushed = []" by blast+
qed

subsection \<open>What the other operations keep\<close>

lemma exact_stop_table [simp]:
  "bp_slots (snd (exact_stop width c ip tid a s)) = bp_slots s"
  "bp_active_count (snd (exact_stop width c ip tid a s)) = bp_active_count s"
  by (auto simp: exact_stop_def redirect_arm_def release_redirect_def request_stop_def Let_def
      split: prod.splits if_splits)

lemma skip_replay_table [simp]:
  "bp_slots (snd (skip_replay tid a s)) = bp_slots s"
  "bp_active_count (snd (skip_replay tid a s)) = bp_active_count s"
  by (auto simp: skip_replay_def)

lemma world_stopped_table [simp]:
  "bp_slots (fst (world_stopped w st)) = bp_slots (fst st)"
  "bp_active_count (fst (world_stopped w st)) = bp_active_count (fst st)"
  by (auto simp: world_stopped_def clear_step_bps_def Let_def split: prod.splits)

lemma breaker_turn_table [simp]:
  "bp_slots (fst (breaker_turn w s)) = bp_slots s"
  "bp_active_count (fst (breaker_turn w s)) = bp_active_count s"
proof -
  have hit: "bp_slots (fst (serve_hit w st)) = bp_slots (fst st)"
    "bp_active_count (fst (serve_hit w st)) = bp_active_count (fst st)" for st
    by (auto simp: serve_hit_def suspend_begun_def Let_def split: prod.splits)
  have cmd: "bp_slots (fst (serve_command w st)) = bp_slots (fst st)"
    "bp_active_count (fst (serve_command w st)) = bp_active_count (fst st)" for st
    by (auto simp: serve_command_def suspend_begun_def release_redirect_def resume_world_def Let_def
      split_beta)
  show "bp_slots (fst (breaker_turn w s)) = bp_slots s"
    "bp_active_count (fst (breaker_turn w s)) = bp_active_count s"
    by (auto simp: breaker_turn_def hit cmd tick_watchdog_def Let_def)
qed

lemma on_hit_table [pb_inv]:
  assumes ok: "bp_table_ok s"
  shows "bp_table_ok (snd (on_hit_ctx width c ip thread i s))"
proof (cases "i < MAX_BREAKPOINTS \<and> bk_active (bp_slots s ! i)")
  case False
  then show ?thesis using ok by (auto simp: on_hit_ctx_def)
next
  case True
  have counted: "bp_table_ok (count_hit i s')" if "bp_slots s' = bp_slots s" "bp_active_count s' = bp_active_count s" for s'
    using that True ok bp_table_cong[OF that] by (metis count_hit_table(1))
  have stop: "bp_table_ok (snd (exact_stop width c ip tid a s')) = bp_table_ok s'" for tid a s'
    by (rule bp_table_cong) simp_all
  have keep: "bp_table_ok (s'\<lparr>bp_stepper := st\<rparr>) = bp_table_ok s'"
    "bp_table_ok (request_stop (s'\<lparr>bp_last_hit_tid := tid, bp_last_hit_addr := a\<rparr>)) = bp_table_ok s'" for s' st tid a
    by (rule bp_table_cong; simp add: request_stop_def)+
  have replay: "bp_table_ok (snd (skip_replay tid a s')) = bp_table_ok s'"
    "bp_table_ok (count_hit i (snd (skip_replay tid a (s\<lparr>bp_stepper := st\<rparr>))))" for tid a s' st
    by (rule bp_table_cong; simp) (rule counted; simp)
  show ?thesis
    using True ok
    by (auto simp: on_hit_ctx_def Let_def split_beta counted stop keep replay split: option.splits bool.splits)
qed

text \<open>
  The states the agent reaches: any sequence of table operations, callbacks, turns of the breaker
  and resume preparations, where a removed id is that of a breakpoint still live.
\<close>

inductive bp_reach :: "breaker \<Rightarrow> bool" where
  start: "bp_reach breaker_new"
| set: "bp_reach s \<Longrightarrow> bp_reach (fst (snd (bp_set_impl locked a one s)))"
| remove: "bp_reach s \<Longrightarrow> \<forall>b \<in> set (bp_slots s). bk_used b \<and> bk_id b = ident \<longrightarrow> bk_active b
    \<Longrightarrow> bp_reach (fst (snd (bp_remove locked ident s)))"
| hit: "bp_reach s \<Longrightarrow> bp_reach (snd (on_hit_ctx width c ip thread i s))"
| step_hit: "bp_reach s \<Longrightarrow> bp_reach (snd (on_step_hit_ctx width c ip thread i s))"
| turn: "bp_reach s \<Longrightarrow> bp_reach (fst (breaker_turn w (s\<lparr>bp_cmd := cmd\<rparr>)))"
| resume_skip: "bp_reach s \<Longrightarrow> bp_reach (arm_resume_skip rip s)"
| watchdog: "bp_reach s \<Longrightarrow> bp_reach (arm_step_watchdog ticks s)"
| stepper: "bp_reach s \<Longrightarrow> bp_reach (s\<lparr>bp_stepper := st\<rparr>)"
| traps: "bp_reach s \<Longrightarrow> bp_reach (s\<lparr>bp_traps := tr\<rparr>)"
| stub: "bp_reach s \<Longrightarrow> bp_reach (init_stub page s)"

lemma bp_reach_table: "bp_reach s \<Longrightarrow> bp_table_ok s"
proof (induction rule: bp_reach.induct)
  case start show ?case by (rule bp_table_new)
next
  case (set s locked a one)
  then show ?case
  proof (cases locked)
    case True
    then show ?thesis using bp_set_table(1)[OF set.IH] by (metis prod.collapse)
  qed (simp add: bp_set_impl_def)
next
  case (remove s ident locked)
  show ?case
  proof (cases locked)
    case True
    then show ?thesis using bp_remove_table(1)[OF remove.IH _ remove.hyps(2)] by (metis prod.collapse)
  qed (use remove.IH in \<open>simp add: bp_remove_def\<close>)
next
  case (hit s width c ip thread i)
  then show ?case by (intro on_hit_table)
next
  case (step_hit s width c ip thread i)
  have "bp_table_ok (snd (on_step_hit_ctx width c ip thread i s)) = bp_table_ok s"
    by (rule bp_table_cong) (auto simp: on_step_hit_ctx_def split: option.splits prod.splits)
  then show ?case using step_hit by simp
next
  case (turn s w cmd)
  have "bp_table_ok (fst (breaker_turn w (s\<lparr>bp_cmd := cmd\<rparr>))) = bp_table_ok s"
    by (rule bp_table_cong) simp_all
  then show ?case using turn by simp
qed (simp_all add: bp_table_ok_def arm_resume_skip_def arm_step_watchdog_def init_stub_def last_hit_def)

text \<open>The state after setting a breakpoint in a table whose used slots come first and are live.\<close>

lemma bp_set_next:
  assumes slots: "bp_slots s = xs @ breakpoint_empty # replicate n breakpoint_empty"
    and live: "\<forall>b \<in> set xs. bk_used b \<and> bk_active b \<and> bk_address b \<noteq> a" and a: "a \<noteq> 0"
  shows "fst (snd (bp_set_impl True a one s)) = s\<lparr>bp_next_id := bp_next_id s + 1,
    bp_slots := xs @ \<lparr>bk_used = True, bk_id = ucast (bp_next_id s), bk_address = a, bk_hits = 0,
      bk_active = True, bk_one_shot = one\<rparr> # replicate n breakpoint_empty,
    bp_active_count := bp_active_count s + 1\<rparr>"
proof -
  have nth: "bp_slots s ! i = (if i < length xs then xs ! i else breakpoint_empty)"
    if "i < length (bp_slots s)" for i
    using that by (auto simp: slots nth_append nth_Cons')
  have none: "List.find (\<lambda>i. bk_used (bp_slots s ! i) \<and> bk_address (bp_slots s ! i) = a
      \<and> bk_active (bp_slots s ! i)) [0..<length (bp_slots s)] = None"
    using live by (auto simp: find_index_None nth breakpoint_empty_def)
  have "List.find (\<lambda>i. \<not> bk_used (bp_slots s ! i) \<or> \<not> bk_active (bp_slots s ! i))
      [0..<length (bp_slots s)] = Some (length xs)"
    using live by (auto simp: find_Some_iff slots nth_append breakpoint_empty_def intro!: exI [of _ "length xs"])
  with none a show ?thesis
    by (simp add: bp_set_impl_def Let_def slots)
qed

lemma new_slots:
  "bp_slots breaker_new = [] @ breakpoint_empty # replicate 63 breakpoint_empty"
  "replicate 63 breakpoint_empty = breakpoint_empty # replicate 62 breakpoint_empty"
  "bp_next_id breaker_new = 1"
  by (simp_all add: breaker_new_def MAX_BREAKPOINTS_def numeral_eq_Suc)

subsection \<open>Properties of the table\<close>





subsection \<open>A hit, its stop and the resume\<close>

text \<open>The fields a stop and a resume read and leave alone.\<close>

lemma serve_hit_pending:
  assumes "bp_hit_pending s" "\<not> bp_stopped s" "wd_stop_hit w"
  shows "serve_hit w (s, t) = world_stopped w (suspend_begun (s\<lparr>bp_hit_pending := False\<rparr>), t)"
  using assms by (simp add: serve_hit_def suspend_begun_def Let_def)

lemma world_stopped_fields:
  "bp_stopped (fst (world_stopped w (s, t))) \<and> bp_stop_gen (fst (world_stopped w (s, t))) = bp_stop_gen s + 1
   \<and> tn_rewinds (snd (world_stopped w (s, t))) = tn_rewinds t @ (case rewind_redirected (wd_writeable w) s of None \<Rightarrow> [] | Some r \<Rightarrow> [r])
   \<and> tn_answered (snd (world_stopped w (s, t))) = tn_answered t
   \<and> bp_hit_pending (fst (world_stopped w (s, t))) = bp_hit_pending s
   \<and> bp_cmd (fst (world_stopped w (s, t))) = bp_cmd s
   \<and> bp_last_hit_tid (fst (world_stopped w (s, t))) = bp_last_hit_tid s
   \<and> bp_last_hit_addr (fst (world_stopped w (s, t))) = bp_last_hit_addr s
   \<and> bp_redirect_active (fst (world_stopped w (s, t))) = bp_redirect_active s
   \<and> bp_stub_base (fst (world_stopped w (s, t))) = bp_stub_base s
   \<and> bp_watchdog_ticks (fst (world_stopped w (s, t))) = 0
   \<and> \<not> st_stepping (bp_stepper (fst (world_stopped w (s, t))))"
  by (simp add: world_stopped_def clear_step_bps_def step_cancel_def Let_def split_beta rewind_redirected_def)

lemma exact_stop_redirects:
  "bp_stub_base s \<noteq> 0 \<Longrightarrow> \<not> bp_redirect_active s \<Longrightarrow> is_64 width \<Longrightarrow>
   exact_stop width True PB_OK tid a s = (True, s\<lparr>bp_last_hit_tid := tid, bp_last_hit_addr := a,
     bp_redirect_active := True, bp_redirect_tid := tid, bp_redirect_addr := a, bp_stub_target := a,
     bp_stub_flag := 0, bp_hit_pending := True\<rparr>)"
  by (simp add: exact_stop_def redirect_arm_def request_stop_def Let_def)

lemma idle_stepper:
  "\<not> st_stepping st \<Longrightarrow> consume_start_replay tid a st = (False, st)"
  "\<not> st_stepping st \<Longrightarrow> claim_breakpoint tid a st = (False, st, [])"
  by (simp_all add: consume_start_replay_def claim_breakpoint_def candidate_index_def)

lemma on_hit_idle:
  assumes "i < MAX_BREAKPOINTS" "bk_active (bp_slots s ! i)" "\<not> st_stepping (bp_stepper s)"
  shows "on_hit_ctx width c ip (Some tid) i s =
    (case skip_replay tid (bk_address (bp_slots s ! i)) s of
       (True, s) \<Rightarrow> (False, s)
     | (False, s) \<Rightarrow> exact_stop width c ip tid (bk_address (bp_slots s ! i)) (count_hit i s))"
proof -
  have keep: "bp_slots (snd (skip_replay tid a s)) = bp_slots s"
    "bp_stepper (snd (skip_replay tid a s)) = bp_stepper s" for a
    by (auto simp: skip_replay_def)
  have same: "s'\<lparr>bp_stepper := st\<rparr> = s'" if "bp_stepper s' = st" for s' st
    using that by auto
  have counted: "bp_stepper (count_hit i s') = bp_stepper s'" for s'
    by (simp add: count_hit_def Let_def)
  show ?thesis
    using assms keep by (auto simp: on_hit_ctx_def idle_stepper same Let_def split_beta counted split: prod.splits bool.splits)
qed

lemma count_hit_fields:
  "i < length (bp_slots s) \<Longrightarrow> \<not> bk_one_shot (bp_slots s ! i) \<Longrightarrow>
    count_hit i s = s\<lparr>bp_slots := (bp_slots s)[i := (bp_slots s ! i)\<lparr>bk_hits := bk_hits (bp_slots s ! i) + 1\<rparr>]\<rparr>"
  by (simp add: count_hit_def Let_def)

text \<open>A turn that serves a pending hit, and one that serves a resume while stopped.\<close>

lemma turn_stops:
  assumes "bp_hit_pending s" "\<not> bp_stopped s" "bp_cmd s = 0" "wd_stop_hit w" "breaker_turn w s = (s', t)"
  shows "bp_stopped s'" "bp_stop_gen s' = bp_stop_gen s + 1" "\<not> bp_hit_pending s'"
    "bp_watchdog_ticks s' = 0" "\<not> st_stepping (bp_stepper s')" "last_hit s' = last_hit s"
    "tn_rewinds t = (case rewind_redirected (wd_writeable w) s of None \<Rightarrow> [] | Some r \<Rightarrow> [r])"
    "bp_slots s' = bp_slots s" "bp_stub_base s' = bp_stub_base s" "\<not> tn_answered t"
proof -
  define s0 where "s0 = suspend_begun ((tick_watchdog s)\<lparr>bp_hit_pending := False\<rparr>)"
  have tick: "bp_hit_pending (tick_watchdog s)" "\<not> bp_stopped (tick_watchdog s)" "bp_cmd (tick_watchdog s) = 0"
    using assms by (auto simp: tick_watchdog_def Let_def)
  have s0: "bp_stop_gen s0 = bp_stop_gen s" "bp_last_hit_tid s0 = bp_last_hit_tid s" "bp_cmd s0 = 0"
    "bp_last_hit_addr s0 = bp_last_hit_addr s" "bp_stub_base s0 = bp_stub_base s" "\<not> bp_hit_pending s0"
    "rewind_redirected f s0 = rewind_redirected f s" for f
    using assms by (auto simp: s0_def suspend_begun_def tick_watchdog_def rewind_redirected_def Let_def)
  note fields = world_stopped_fields [of w s0 turn_start]
  have turn: "breaker_turn w s = serve_command w (world_stopped w (s0, turn_start))"
    using tick assms(4) by (simp add: breaker_turn_def serve_hit_pending s0_def)
  also have "\<dots> = ((fst (world_stopped w (s0, turn_start)))\<lparr>bp_cmd := 0\<rparr>, snd (world_stopped w (s0, turn_start)))"
    using fields s0(3) by (simp add: serve_command_def split_beta Let_def)
  finally have s': "s' = (fst (world_stopped w (s0, turn_start)))\<lparr>bp_cmd := 0\<rparr>"
    and t: "t = snd (world_stopped w (s0, turn_start))" using assms(5) by simp_all
  show "bp_stopped s'" "bp_stop_gen s' = bp_stop_gen s + 1" "\<not> bp_hit_pending s'"
    "bp_watchdog_ticks s' = 0" "\<not> st_stepping (bp_stepper s')" "last_hit s' = last_hit s"
    "bp_stub_base s' = bp_stub_base s" "\<not> tn_answered t"
    "tn_rewinds t = (case rewind_redirected (wd_writeable w) s of None \<Rightarrow> [] | Some r \<Rightarrow> [r])"
    using fields s0 by (simp_all add: s' t last_hit_def turn_start_def)
  show "bp_slots s' = bp_slots s" using breaker_turn_table(1)[of w s] assms(5) by simp
qed

lemma turn_resumes:
  assumes "\<not> bp_hit_pending s" "bp_watchdog_ticks s = 0" "wd_resume w"
    and "control_command True w CMD_RESUME s = (result, s', t)"
  shows "result" "\<not> bp_stopped s'" "last_hit s' = (NO_HIT_TID, 0)" "\<not> bp_redirect_active s'"
    "\<not> bp_hit_pending s'" "bp_slots s' = bp_slots s" "bp_stub_base s' = bp_stub_base s"
    "st_stepping (bp_stepper s') = st_stepping (bp_stepper s)"
    "bp_resume_skip_tid s' = bp_resume_skip_tid s" "bp_resume_skip_addr s' = bp_resume_skip_addr s"
    "bp_stop_gen s' = bp_stop_gen s" "tn_rewinds t = []"
  using assms
  by (auto simp: control_command_def breaker_turn_def tick_watchdog_def serve_hit_def serve_command_def
      CMD_RESUME_def CMD_STOP_def resume_world_def release_redirect_def end_suspend_def step_release_def
      turn_start_def last_hit_def Let_def split: if_splits)


lemma filter_update_same:
  "\<not> P (xs ! i) \<Longrightarrow> \<not> P x \<Longrightarrow> filter P (xs[i := x]) = filter P xs"
  by (induction xs arbitrary: i) (auto simp: nth_Cons' list_update.simps split: nat.splits)


text \<open>
  C15. Removing a one-shot breakpoint that has already fired loses a breakpoint that has not: the
  count of active breakpoints drops twice for the one-shot, so with one other breakpoint live the
  agent believes the table empty, and the lookup at instrumentation time no longer finds the live
  breakpoint that the list still shows.
\<close>

theorem remove_fired_one_shot_hides:
  assumes reach: "bp_reach s" and live: "bp_list True s = [(other, a, hits)]"
    and fired: "\<exists>i < MAX_BREAKPOINTS. bk_used (bp_slots s ! i) \<and> \<not> bk_active (bp_slots s ! i)
      \<and> bk_id (bp_slots s ! i) = ident" and ids: "ident \<noteq> other"
    and remove: "bp_remove True ident s = (removed, s', flushed)"
  shows "removed \<and> bp_list True s' = [(other, a, hits)] \<and> bp_find True s a \<noteq> None \<and> bp_find True s' a = None"
proof -
  have ok: "bp_table_ok s" using reach by (rule bp_reach_table)
  have len: "length (bp_slots s) = MAX_BREAKPOINTS" and used: "\<forall>b \<in> set (bp_slots s). bk_active b \<longrightarrow> bk_used b"
    and cnt: "unat (bp_active_count s) = live_slots (bp_slots s)"
    using ok by (auto simp: bp_table_ok_def)
  let ?live = "\<lambda>slot. bk_used slot \<and> bk_active slot"
  let ?hit = "List.find (\<lambda>i. bk_used (bp_slots s ! i) \<and> bk_id (bp_slots s ! i) = ident) [0..<length (bp_slots s)]"
  have "?hit \<noteq> None" using fired len by (auto simp: find_index_None)
  then obtain j where hit: "?hit = Some j" by blast
  then have j: "j < length (bp_slots s)" "bk_used (bp_slots s ! j)" "bk_id (bp_slots s ! j) = ident"
    by (auto dest: find_index_Some)
  have dead: "\<not> ?live (bp_slots s ! j)"
  proof
    assume "?live (bp_slots s ! j)"
    then have "(ident, bk_address (bp_slots s ! j), bk_hits (bp_slots s ! j)) \<in> set (bp_list True s)"
      using j nth_mem [OF j(1)] by (force simp: bp_list_def image_iff)
    then show False using live ids by simp
  qed
  have r: "removed" "bp_slots s' = (bp_slots s)[j := (bp_slots s ! j)\<lparr>bk_active := False, bk_used := False\<rparr>]"
    "bp_active_count s' = bp_active_count s - 1"
    using remove hit by (auto simp: bp_remove_def Let_def)
  have "filter ?live (bp_slots s') = filter ?live (bp_slots s)"
    unfolding r(2) by (rule filter_update_same) (use dead in auto)
  then have same: "bp_list True s' = bp_list True s" by (simp add: bp_list_def)
  have "live_slots (bp_slots s) = 1"
    using arg_cong [OF live, of length] by (simp add: live_slots_def bp_list_def bk_live_def [abs_def])
  then have "bp_active_count s = 1" using cnt by (simp add: word_unat_eq_iff)
  then have "bp_find True s' a = None" using r(3) by (simp add: bp_find_def bp_any_active_def)
  moreover have "bp_find True s a \<noteq> None"
  proof -
    have "(other, a, hits) \<in> set (bp_list True s)" using live by simp
    then obtain i where "i < MAX_BREAKPOINTS" "bk_live (bp_slots s ! i)" "bk_address (bp_slots s ! i) = a"
      by (auto simp: bp_list_def bk_live_def in_set_conv_nth len)
    then show ?thesis using bp_find_exact[OF ok, of a i] by simp
  qed
  ultimately show ?thesis using r(1) same live by simp
qed

lemma remove_fired_one_shot_hides_witness:
  "\<exists>s. bp_reach s \<and> bp_list True (fst (snd (bp_remove True 1 s))) = [(2, 4096, 0)]
     \<and> bp_find True (fst (snd (bp_remove True 1 s))) 4096 = None"
proof -
  let ?s1 = "fst (snd (bp_set_impl True 8192 True breaker_new))"
  let ?s2 = "fst (snd (bp_set_impl True 4096 False ?s1))"
  let ?s = "snd (on_hit_ctx 8 False 0 None 0 ?s2)"
  have reach: "bp_reach ?s" by (intro bp_reach.intros)
  let ?b = "\<lambda>i a one. \<lparr>bk_used = True, bk_id = i, bk_address = a, bk_hits = 0, bk_active = True, bk_one_shot = one\<rparr>"
  have "bp_slots ?s1 = [?b 1 8192 True] @ breakpoint_empty # replicate 62 breakpoint_empty" "bp_next_id ?s1 = 2"
    using bp_set_next [OF new_slots(1), of 8192 True] by (simp_all add: new_slots(2,3))
  from bp_set_next [OF this(1), of 4096 False] this(2)
  have s2: "bp_slots ?s2 = ?b 1 8192 True # ?b 2 4096 False # replicate 62 breakpoint_empty" by simp
  then have s: "bp_slots ?s = (?b 1 8192 True)\<lparr>bk_hits := 1, bk_active := False\<rparr> # ?b 2 4096 False # replicate 62 breakpoint_empty"
    by (simp add: on_hit_ctx_def count_hit_def request_stop_def MAX_BREAKPOINTS_def Let_def)
  have list: "bp_list True ?s = [(2, 4096, 0)]"
    by (simp add: bp_list_def s breakpoint_empty_def)
  have fired: "\<exists>i < MAX_BREAKPOINTS. bk_used (bp_slots ?s ! i) \<and> \<not> bk_active (bp_slots ?s ! i)
      \<and> bk_id (bp_slots ?s ! i) = 1"
    by (rule exI [of _ 0]) (simp add: s MAX_BREAKPOINTS_def)
  obtain removed s' flushed where r: "bp_remove True 1 ?s = (removed, s', flushed)" by (metis prod_cases3)
  from remove_fired_one_shot_hides [OF reach list fired _ r] reach show ?thesis
    by (intro exI [of _ ?s]) (simp add: r)
qed
end
