(* ===== verification/Pb_Hooks.thy ===== *)
theory Pb_Hooks
  imports Pb_Arch
begin

section \<open>Hook points, functions and signatures (hooks.rs)\<close>

text \<open>
  \<open>bindings/rust/pinbridge-agent/src/hooks.rs\<close>: the set of hook points, the subset of function
  entries, the signature layouts, and the filter of the observation lane. Each set is a sorted
  master vector with a published snapshot and a count; the readers go through a Bloom filter that is
  never cleared and a binary search of the snapshot. The reclamation of retired snapshots is the one
  modelled in \<open>Pb_Reclaim\<close>. Operations return the code ranges they flush, in order.
\<close>

definition MAX_HOOK_POINTS :: nat where "MAX_HOOK_POINTS = 32768"
definition HOOK_BLOOM_WORDS :: nat where "HOOK_BLOOM_WORDS = 16384"
definition HOOK_BLOOM_BITS :: nat where "HOOK_BLOOM_BITS = HOOK_BLOOM_WORDS * 64"
definition CALL_CONV_DEFAULT :: u32 where "CALL_CONV_DEFAULT = 0"
definition CALL_CONV_X86_FASTCALL :: u32 where "CALL_CONV_X86_FASTCALL = 1"
definition VALUE_INTEGER :: u32 where "VALUE_INTEGER = 0"
definition VALUE_FLOAT32 :: u32 where "VALUE_FLOAT32 = 1"
definition VALUE_FLOAT64 :: u32 where "VALUE_FLOAT64 = 2"

record signature_layout =
  sg_address :: u64
  sg_calling_convention :: u32
  sg_return_kind :: u32
  sg_parameter_count :: u32
  sg_float_mask :: u32

type_synonym bloom = "nat \<Rightarrow> u64"
type_synonym ranges = "(u64 \<times> u64) list"

record hooks =
  hk_master :: "u64 list"
  hk_snapshot :: "u64 list option"
  hk_count :: nat
  hk_bloom :: bloom
  hk_functions :: "u64 list"
  hk_fn_snapshot :: "u64 list option"
  hk_fn_count :: nat
  hk_fn_bloom :: bloom
  hk_signatures :: "signature_layout list"
  hk_sig_snapshot :: "signature_layout list option"
  hk_sig_count :: nat
  hk_observation_enabled :: bool
  hk_observation_mask :: nat
  hk_observation :: "(u64 \<times> bool) list option"

definition hooks_new :: hooks where
  "hooks_new = \<lparr>hk_master = [], hk_snapshot = None, hk_count = 0, hk_bloom = (\<lambda>_. 0),
     hk_functions = [], hk_fn_snapshot = None, hk_fn_count = 0, hk_fn_bloom = (\<lambda>_. 0),
     hk_signatures = [], hk_sig_snapshot = None, hk_sig_count = 0, hk_observation_enabled = False,
     hk_observation_mask = 0, hk_observation = None\<rparr>"

subsection \<open>The Bloom prefilter\<close>

definition bloom_positions :: "u64 \<Rightarrow> nat \<times> u64 \<times> nat \<times> u64" where
  "bloom_positions address =
     (let first = address XOR drop_bit 33 address;
          first = first * 0xff51afd7ed558ccd;
          first = first XOR drop_bit 33 first;
          second = address XOR drop_bit 29 address;
          second = second * 0xc4ceb9fe1a85ec53;
          second = second XOR drop_bit 32 second;
          first_bit = first AND word_of_nat (HOOK_BLOOM_BITS - 1);
          second_bit = second AND word_of_nat (HOOK_BLOOM_BITS - 1)
      in (unat (drop_bit 6 first_bit), push_bit (unat (first_bit AND 63)) 1,
          unat (drop_bit 6 second_bit), push_bit (unat (second_bit AND 63)) 1))"

definition bloom_insert :: "u64 \<Rightarrow> bloom \<Rightarrow> bloom" where
  "bloom_insert address bloom =
     (case bloom_positions address of (first_word, first_mask, second_word, second_mask) \<Rightarrow>
        let bloom = bloom(first_word := bloom first_word OR first_mask)
        in bloom(second_word := bloom second_word OR second_mask))"

definition bloom_maybe_contains :: "bloom \<Rightarrow> u64 \<Rightarrow> bool" where
  "bloom_maybe_contains bloom address =
     (case bloom_positions address of (first_word, first_mask, second_word, second_mask) \<Rightarrow>
        bloom first_word AND first_mask \<noteq> 0 \<and> bloom second_word AND second_mask \<noteq> 0)"

definition bloom_insert_all :: "u64 list \<Rightarrow> bloom \<Rightarrow> bloom" where
  "bloom_insert_all addresses bloom = fold bloom_insert addresses bloom"

subsection \<open>Publication and the lock-free readers\<close>

definition publish_points :: "u64 list \<Rightarrow> hooks \<Rightarrow> hooks" where
  "publish_points master s = s\<lparr>hk_snapshot := Some master, hk_count := length master\<rparr>"

definition publish_functions :: "u64 list \<Rightarrow> hooks \<Rightarrow> hooks" where
  "publish_functions master s = s\<lparr>hk_fn_snapshot := Some master, hk_fn_count := length master\<rparr>"

definition publish_signatures :: "signature_layout list \<Rightarrow> hooks \<Rightarrow> hooks" where
  "publish_signatures master s = s\<lparr>hk_sig_snapshot := Some master, hk_sig_count := length master\<rparr>"

definition hooks_any :: "hooks \<Rightarrow> bool" where "hooks_any s \<longleftrightarrow> hk_count s > 0"

definition hooks_contains :: "hooks \<Rightarrow> u64 \<Rightarrow> bool" where
  "hooks_contains s address =
     (if \<not> bloom_maybe_contains (hk_bloom s) address then False
      else case hk_snapshot s of
             None \<Rightarrow> False
           | Some snapshot \<Rightarrow> is_ok (binary_search snapshot address))"

definition function_contains :: "hooks \<Rightarrow> u64 \<Rightarrow> bool" where
  "function_contains s address =
     (if \<not> bloom_maybe_contains (hk_fn_bloom s) address then False
      else case hk_fn_snapshot s of
             None \<Rightarrow> False
           | Some snapshot \<Rightarrow> is_ok (binary_search snapshot address))"

definition functions_any :: "hooks \<Rightarrow> bool" where "functions_any s \<longleftrightarrow> hk_fn_count s \<noteq> 0"

definition function_at_or_before :: "u64 list \<Rightarrow> u64 \<Rightarrow> u64 option" where
  "function_at_or_before functions address =
     (let index = partition_point (\<lambda>candidate. candidate \<le> address) functions
      in if index = 0 then None
         else if index - 1 < length functions then Some (functions ! (index - 1)) else None)"

definition function_for_return :: "hooks \<Rightarrow> u64 \<Rightarrow> u64 \<Rightarrow> u64 \<Rightarrow> u64 option" where
  "function_for_return s return_instruction routine_start routine_end =
     (if routine_end \<le> routine_start \<or> return_instruction < routine_start then None
      else case hk_fn_snapshot s of
             None \<Rightarrow> None
           | Some functions \<Rightarrow>
               (case function_at_or_before functions return_instruction of
                  None \<Rightarrow> None
                | Some candidate \<Rightarrow>
                    if routine_start \<le> candidate \<and> candidate < routine_end then Some candidate else None))"

definition function_for_return_near :: "hooks \<Rightarrow> u64 \<Rightarrow> u64 \<Rightarrow> u64 option" where
  "function_for_return_near s return_instruction max_span =
     (case hk_fn_snapshot s of
        None \<Rightarrow> None
      | Some functions \<Rightarrow>
          (case function_at_or_before functions return_instruction of
             None \<Rightarrow> None
           | Some candidate \<Rightarrow>
               if sat_sub return_instruction candidate \<le> max_span then Some candidate else None))"

subsection \<open>Observation filter\<close>

definition set_observation_enabled :: "bool \<Rightarrow> hooks \<Rightarrow> hooks" where
  "set_observation_enabled enabled s =
     s\<lparr>hk_observation_enabled := enabled, hk_observation_mask := (if enabled then 3 else 0)\<rparr>"

definition publish_observation_interests :: "bool \<Rightarrow> bool \<Rightarrow> (u64 \<times> bool) list \<Rightarrow> hooks \<Rightarrow> hooks" where
  "publish_observation_interests entry_all return_all interests s =
     (let snapshot = sort_dedup (filter (\<lambda>(address, _). address \<noteq> 0) interests);
          mask' = of_bool entry_all OR push_bit 1 (of_bool return_all)
      in s\<lparr>hk_observation := Some snapshot, hk_observation_mask := mask',
           hk_observation_enabled := (mask' \<noteq> 0 \<or> interests \<noteq> [])\<rparr>)"

definition observation_interested :: "hooks \<Rightarrow> u64 \<Rightarrow> bool \<Rightarrow> bool" where
  "observation_interested s address is_return =
     (if \<not> hk_observation_enabled s then False
      else let bit = (if is_return then 2 else 1)
           in if hk_observation_mask s AND bit \<noteq> 0 then True
              else case hk_observation s of
                     None \<Rightarrow> False
                   | Some snapshot \<Rightarrow> is_ok (binary_search snapshot (address, is_return)))"

subsection \<open>Flushes\<close>

definition flush_one :: "u64 \<Rightarrow> ranges" where "flush_one address = [(address, address + 15)]"

fun coalesce :: "u64 \<Rightarrow> bool \<Rightarrow> u64 \<Rightarrow> u64 \<Rightarrow> u64 list \<Rightarrow> ranges" where
  "coalesce window adjacent low high [] = [(low, high)]"
| "coalesce window adjacent low high (address # rest) =
     (let fin = sat_add address window
      in if address \<le> (if adjacent then sat_add high 1 else high)
         then coalesce window adjacent low (max high fin) rest
         else (low, high) # coalesce window adjacent address fin rest)"

definition flush_function_batch :: "u64 list \<Rightarrow> ranges" where
  "flush_function_batch addresses =
     (case addresses of
        [] \<Rightarrow> []
      | first # rest \<Rightarrow> coalesce 0xffff False first (sat_add first 0xffff) rest)"

definition flush_plain_batch :: "u64 list \<Rightarrow> ranges" where
  "flush_plain_batch addresses =
     (case addresses of
        [] \<Rightarrow> []
      | first # rest \<Rightarrow> coalesce 15 True first (sat_add first 15) rest)"

definition refresh_instrumentation :: "u64 list \<Rightarrow> ranges" where
  "refresh_instrumentation addresses =
     flush_plain_batch (sort_dedup (filter (\<lambda>address. address \<noteq> 0) addresses))"

definition refresh_callback_instrumentation :: "hooks \<Rightarrow> (u64 \<times> bool) list \<Rightarrow> ranges" where
  "refresh_callback_instrumentation s changes =
     (let hooked = filter (\<lambda>(address, _). hooks_contains s address) changes;
          owned = (\<lambda>(address, is_return). is_return \<and> function_contains s address);
          functions = map fst (filter owned hooked);
          points = map fst (filter (\<lambda>change. \<not> owned change) hooked)
      in refresh_instrumentation points @ flush_function_batch (sort_dedup functions))"

subsection \<open>Points and functions\<close>

fun merge_sorted :: "u64 list \<Rightarrow> u64 list \<Rightarrow> u64 list" where
  "merge_sorted (l # left) (r # right) =
     (if l < r then l # merge_sorted left (r # right) else r # merge_sorted (l # left) right)"
| "merge_sorted left [] = left"
| "merge_sorted [] right = right"

definition merge_batch :: "u64 list \<Rightarrow> u64 list \<Rightarrow> nat \<Rightarrow> u64 list \<times> u64 list \<times> bool" where
  "merge_batch master addresses capacity =
     (let incoming = sort_dedup (filter (\<lambda>address. address \<noteq> 0) addresses);
          incoming = filter (\<lambda>address. \<not> is_ok (binary_search master address)) incoming;
          available = capacity - length master;
          capacity_full = length incoming > available;
          incoming = take available incoming
      in if incoming = [] then (master, incoming, capacity_full)
         else (merge_sorted master incoming, incoming, capacity_full))"

definition hook_set :: "u64 \<Rightarrow> hooks \<Rightarrow> bool \<times> hooks \<times> ranges" where
  "hook_set address s =
     (case binary_search (hk_master s) address of
        Inr _ \<Rightarrow> (True, s, [])
      | Inl index \<Rightarrow>
          if length (hk_master s) \<ge> MAX_HOOK_POINTS then (False, s, [])
          else let master = insert_at index address (hk_master s);
                   s = s\<lparr>hk_master := master, hk_bloom := bloom_insert address (hk_bloom s)\<rparr>
               in (True, publish_points master s, flush_one address))"

definition add_points :: "u64 list \<Rightarrow> u64 list \<Rightarrow> hooks \<Rightarrow> hooks" where
  "add_points merged incoming s =
     (if incoming = [] then s
      else publish_points merged
             (s\<lparr>hk_bloom := bloom_insert_all incoming (hk_bloom s), hk_master := merged\<rparr>))"

definition set_batch :: "u64 list \<Rightarrow> hooks \<Rightarrow> (nat \<times> nat \<times> bool) \<times> hooks \<times> ranges" where
  "set_batch addresses s =
     (case merge_batch (hk_master s) addresses MAX_HOOK_POINTS of
        (merged, incoming, capacity_full) \<Rightarrow>
          let s = add_points merged incoming s;
              accepted = sort_dedup (filter (\<lambda>address. address \<noteq> 0
                \<and> is_ok (binary_search (hk_master s) address)) addresses)
          in case merge_batch (hk_functions s) accepted MAX_HOOK_POINTS of
               (merged_functions, new_functions, _) \<Rightarrow>
                 let s' = (if new_functions = [] then s
                           else publish_functions merged_functions
                             (s\<lparr>hk_fn_bloom := bloom_insert_all new_functions (hk_fn_bloom s),
                                hk_functions := merged_functions\<rparr>))
                 in ((length incoming, length (hk_master s), capacity_full), s',
                     flush_function_batch (sort_dedup (incoming @ new_functions))))"

definition set_plain_batch :: "u64 list \<Rightarrow> hooks \<Rightarrow> (nat \<times> nat \<times> bool) \<times> hooks \<times> ranges" where
  "set_plain_batch addresses s =
     (case merge_batch (hk_master s) addresses MAX_HOOK_POINTS of
        (merged, incoming, capacity_full) \<Rightarrow>
          let s = add_points merged incoming s
          in ((length incoming, length (hk_master s), capacity_full), s, flush_plain_batch incoming))"

subsection \<open>Signatures\<close>

definition function_signature :: "hooks \<Rightarrow> u64 \<Rightarrow> signature_layout option" where
  "function_signature s address =
     (if hk_sig_count s = 0 then None
      else case hk_sig_snapshot s of
             None \<Rightarrow> None
           | Some signatures \<Rightarrow>
               (case binary_search (map sg_address signatures) address of
                  Inl _ \<Rightarrow> None
                | Inr index \<Rightarrow> Some (signatures ! index)))"

definition set_function_signature :: "signature_layout \<Rightarrow> hooks \<Rightarrow> bool \<times> hooks" where
  "set_function_signature layout s =
     (if sg_address layout = 0 \<or> sg_parameter_count layout > 16
         \<or> sg_float_mask layout AND NOT 0xffff \<noteq> 0 \<or> sg_return_kind layout > VALUE_FLOAT64
         \<or> sg_calling_convention layout > CALL_CONV_X86_FASTCALL
      then (False, s)
      else let parameter_mask = (if sg_parameter_count layout = 0 then 0
                 else push_bit (unat (sg_parameter_count layout)) 1 - 1);
               layout = layout\<lparr>sg_float_mask := sg_float_mask layout AND parameter_mask\<rparr>
           in case binary_search (map sg_address (hk_signatures s)) (sg_address layout) of
                Inr index \<Rightarrow>
                  (let signatures = (hk_signatures s)[index := layout]
                   in (True, publish_signatures signatures (s\<lparr>hk_signatures := signatures\<rparr>)))
              | Inl index \<Rightarrow>
                  if length (hk_signatures s) \<ge> MAX_HOOK_POINTS then (False, s)
                  else let signatures = insert_at index layout (hk_signatures s)
                       in (True, publish_signatures signatures (s\<lparr>hk_signatures := signatures\<rparr>)))"

definition remove_function_signature :: "u64 \<Rightarrow> hooks \<Rightarrow> hooks" where
  "remove_function_signature address s =
     (case binary_search (map sg_address (hk_signatures s)) address of
        Inl _ \<Rightarrow> s
      | Inr index \<Rightarrow>
          let signatures = remove_at index (hk_signatures s)
          in publish_signatures signatures (s\<lparr>hk_signatures := signatures\<rparr>))"

subsection \<open>Removal\<close>

definition hook_remove :: "u64 \<Rightarrow> hooks \<Rightarrow> hooks \<times> ranges" where
  "hook_remove address s =
     (let (changed, s) =
            (case binary_search (hk_master s) address of
               Inl _ \<Rightarrow> (False, s)
             | Inr index \<Rightarrow>
                 let master = remove_at index (hk_master s)
                 in (True, publish_points master (s\<lparr>hk_master := master\<rparr>)));
          (function_changed, s) =
            (case binary_search (hk_functions s) address of
               Inl _ \<Rightarrow> (False, s)
             | Inr index \<Rightarrow>
                 let functions = remove_at index (hk_functions s)
                 in (True, publish_functions functions (s\<lparr>hk_functions := functions\<rparr>)));
          s = remove_function_signature address s
      in (s, if function_changed then flush_function_batch [address]
             else if changed then flush_one address else []))"

definition hooks_clear :: "hooks \<Rightarrow> hooks \<times> ranges" where
  "hooks_clear s =
     (let addresses = hk_master s;
          s = (if hk_master s = [] then s else publish_points [] (s\<lparr>hk_master := []\<rparr>));
          s = (if hk_functions s = [] then s else publish_functions [] (s\<lparr>hk_functions := []\<rparr>));
          s = (if hk_signatures s = [] then s else publish_signatures [] (s\<lparr>hk_signatures := []\<rparr>))
      in (s, flush_function_batch addresses))"

definition hooks_list :: "hooks \<Rightarrow> u64 list" where "hooks_list s = hk_master s"

definition function_list :: "hooks \<Rightarrow> u64 list" where "function_list s = hk_functions s"

end
