(* ===== verification/Pb_Hook_Sets.thy ===== *)
theory Pb_Hook_Sets
  imports Pb_Hooks
begin

section \<open>The hook sets answer what was armed\<close>

text \<open>
  Lemmas and properties of \<open>Pb_Hooks\<close>: the prefilter, the batch merge, the coalesced flushes, the
  invariant of the published sets, and their refinement to two sets of addresses over any history
  of operations.
\<close>

subsection \<open>The prefilter has no false negatives\<close>

lemma or_and_0: "(w OR x) AND m = 0 \<longleftrightarrow> w AND m = 0 \<and> x AND m = 0" for w x m :: u64
  by (auto simp: bit_eq_iff bit_or_iff bit_and_iff)

lemma and_63_less: "unat (w AND 63 :: u64) < 64"
proof -
  have "w AND 63 \<le> 63" by (rule word_and_le1)
  then show ?thesis by (simp add: word_le_nat_alt)
qed

lemma bloom_word_less: "unat (drop_bit 6 (w AND word_of_nat (HOOK_BLOOM_BITS - 1)) :: u64) < HOOK_BLOOM_WORDS"
proof -
  have "w AND word_of_nat (HOOK_BLOOM_BITS - 1) \<le> 1048575"
    unfolding HOOK_BLOOM_BITS_def HOOK_BLOOM_WORDS_def by (simp add: word_and_le1)
  then have "unat (w AND word_of_nat (HOOK_BLOOM_BITS - 1)) \<le> 1048575"
    by (simp add: word_le_nat_alt)
  then have "unat (w AND word_of_nat (HOOK_BLOOM_BITS - 1)) div 64 < HOOK_BLOOM_WORDS"
    by (simp add: HOOK_BLOOM_WORDS_def)
  then show ?thesis by (simp add: drop_bit_eq_div unat_div_distrib)
qed

lemma bloom_positions_bits:
  "\<exists>w1 i w2 j. bloom_positions a = (w1, push_bit i 1, w2, push_bit j 1) \<and> i < 64 \<and> j < 64
     \<and> w1 < HOOK_BLOOM_WORDS \<and> w2 < HOOK_BLOOM_WORDS"
  unfolding bloom_positions_def Let_def using and_63_less bloom_word_less by blast

lemma bloom_insert_self: "bloom_maybe_contains (bloom_insert a b) a"
proof -
  obtain w1 i w2 j where p: "bloom_positions a = (w1, push_bit i 1, w2, push_bit j 1)" "i < 64" "j < 64"
    using bloom_positions_bits by blast
  have "push_bit i 1 \<noteq> (0 :: u64)" "push_bit j 1 \<noteq> (0 :: u64)"
    using p(2,3) by simp_all
  then show ?thesis
    by (auto simp: bloom_maybe_contains_def bloom_insert_def p or_and_0 Let_def simp del: push_bit_of_1 push_bit_0_id)
qed

lemma bloom_insert_mono: "bloom_maybe_contains b a \<Longrightarrow> bloom_maybe_contains (bloom_insert x b) a"
proof -
  obtain w1 i w2 j where p: "bloom_positions a = (w1, push_bit i 1, w2, push_bit j 1)"
    using bloom_positions_bits by blast
  assume "bloom_maybe_contains b a"
  then show ?thesis
    by (auto simp: bloom_maybe_contains_def bloom_insert_def p or_and_0 Let_def
        split: prod.splits)
qed

lemma bloom_insert_all_contains:
  "a \<in> set xs \<or> bloom_maybe_contains b a \<Longrightarrow> bloom_maybe_contains (bloom_insert_all xs b) a"
  unfolding bloom_insert_all_def
  by (induction xs arbitrary: b) (auto simp: bloom_insert_self bloom_insert_mono)

subsection \<open>Merging a batch\<close>

lemma merge_sorted_set: "set (merge_sorted xs ys) = set xs \<union> set ys"
  by (induction xs ys rule: merge_sorted.induct) auto

lemma merge_sorted_length: "length (merge_sorted xs ys) = length xs + length ys"
  by (induction xs ys rule: merge_sorted.induct) auto

lemma merge_sorted_ssorted:
  "ssorted xs \<Longrightarrow> ssorted ys \<Longrightarrow> set xs \<inter> set ys = {} \<Longrightarrow> ssorted (merge_sorted xs ys)"
proof (induction xs ys rule: merge_sorted.induct)
  case (1 l left r right)
  show ?case
  proof (cases "l < r")
    case True
    then have "ssorted (merge_sorted left (r # right))" using 1 by simp
    moreover have "\<forall>z \<in> set (merge_sorted left (r # right)). l < z"
      using 1(3,4) True by (auto simp: merge_sorted_set)
    ultimately show ?thesis using True by simp
  next
    case False
    then have "r < l" using 1(5) by auto
    have "ssorted (merge_sorted (l # left) right)" using 1 False by simp
    moreover have "\<forall>z \<in> set (merge_sorted (l # left) right). r < z"
      using 1(3,4) \<open>r < l\<close> by (auto simp: merge_sorted_set)
    ultimately show ?thesis using False by simp
  qed
qed auto

lemma ssorted_filter: "ssorted xs \<Longrightarrow> ssorted (filter P xs)"
  by (rule sorted_wrt_filter)

definition fresh_of :: "u64 list \<Rightarrow> u64 list \<Rightarrow> u64 list" where
  "fresh_of master addresses = sorted_list_of_set (set addresses - insert 0 (set master))"

lemma merge_batch_exact:
  assumes "ssorted master" "length master \<le> capacity"
    and "merge_batch master addresses capacity = (merged, incoming, full)"
  shows "incoming = take (capacity - length master) (fresh_of master addresses)"
    and "full \<longleftrightarrow> length (fresh_of master addresses) > capacity - length master"
    and "ssorted merged" "set merged = set master \<union> set incoming" "length merged \<le> capacity"
    and "ssorted incoming" "incoming = [] \<Longrightarrow> merged = master"
proof -
  let ?raw = "filter (\<lambda>a. \<not> is_ok (binary_search master a)) (sort_dedup (filter (\<lambda>a. a \<noteq> 0) addresses))"
  have s: "ssorted ?raw" by (intro ssorted_filter ssorted_sort_dedup)
  have "set ?raw = set addresses - insert 0 (set master)"
    using binary_search_ok [OF assms(1)] by auto
  then have raw: "?raw = fresh_of master addresses"
    unfolding fresh_of_def using s by (metis sorted_list_of_set.idem_if_sorted_distinct strict_sorted_iff)
  have m: "incoming = take (capacity - length master) ?raw"
    "full = (length ?raw > capacity - length master)"
    "merged = (if incoming = [] then master else merge_sorted master incoming)"
    using assms(3) unfolding merge_batch_def Let_def by (auto split: if_splits)
  show "incoming = take (capacity - length master) (fresh_of master addresses)"
    "full \<longleftrightarrow> length (fresh_of master addresses) > capacity - length master"
    using m raw by simp_all
  have inc: "ssorted incoming" using m(1) s by (simp add: sorted_wrt_take)
  then show "ssorted incoming" .
  have "set incoming \<inter> set master = {}"
    using m(1) binary_search_ok [OF assms(1)] by (auto dest!: in_set_takeD)
  then show "ssorted merged"
    using m(3) inc assms(1) by (auto intro: merge_sorted_ssorted)
  show "set merged = set master \<union> set incoming" using m(3) by (auto simp: merge_sorted_set)
  show "length merged \<le> capacity" using m(1,3) assms(2) by (auto simp: merge_sorted_length)
  show "incoming = [] \<Longrightarrow> merged = master" using m(3) by simp
qed

subsection \<open>Coalesced flushes\<close>

definition span :: "ranges \<Rightarrow> u64 set" where "span rs = (\<Union>(low, high) \<in> set rs. {low..high})"

definition windows :: "u64 \<Rightarrow> u64 list \<Rightarrow> u64 set" where
  "windows w as = (\<Union>a \<in> set as. {a..sat_add a w})"

definition apart :: "bool \<Rightarrow> ranges \<Rightarrow> bool" where
  "apart adjacent rs \<longleftrightarrow> sorted_wrt (\<lambda>(l, h) (l', h').
     (if adjacent then sat_add h 1 < l' else h < l')) rs \<and> (\<forall>(l, h) \<in> set rs. l \<le> h)"

lemma sat_add_mono: "a \<le> b \<Longrightarrow> sat_add a w \<le> sat_add b w" for a b w :: u64
  by (simp add: word_le_nat_alt unat_sat_add min.coboundedI1)

lemma coalesce_exact:
  assumes "ssorted as" "\<forall>a \<in> set as. low < a \<and> high \<le> sat_add a w" "low \<le> high"
  shows "span (coalesce w adjacent low high as) = {low..high} \<union> windows w as
    \<and> apart adjacent (coalesce w adjacent low high as)
    \<and> fst (hd (coalesce w adjacent low high as)) = low \<and> coalesce w adjacent low high as \<noteq> []"
  using assms
proof (induction w adjacent low high as rule: coalesce.induct)
  case (1 w adjacent low high)
  then show ?case by (simp add: span_def windows_def apart_def)
next
  case (2 w adjacent low high a as)
  let ?fin = "sat_add a w"
  have sorted: "ssorted as" "\<forall>b \<in> set as. a < b" using 2(3) by auto
  have above: "\<forall>b \<in> set as. low < b \<and> ?fin \<le> sat_add b w" 
    using 2(4) sorted by (auto simp: sat_add_mono less_imp_le)
  have fin: "high \<le> ?fin" "low < a" "a \<le> ?fin" using 2(4) by (auto simp: sat_add_ge)
  show ?case
  proof (cases "a \<le> (if adjacent then sat_add high 1 else high)")
    case True
    have m: "max high ?fin = ?fin" using fin by simp
    have IH: "span (coalesce w adjacent low ?fin as) = {low..?fin} \<union> windows w as
       \<and> apart adjacent (coalesce w adjacent low ?fin as)
       \<and> fst (hd (coalesce w adjacent low ?fin as)) = low \<and> coalesce w adjacent low ?fin as \<noteq> []"
      using 2(1)[OF refl True] above sorted fin 2(5) m by auto
    have "{low..?fin} = {low..high} \<union> {a..?fin}"
    proof -
      have "z \<in> {low..high} \<or> z \<in> {a..?fin}" if "low \<le> z" "z \<le> ?fin" for z
      proof (rule ccontr)
        assume c: "\<not> (z \<in> {low..high} \<or> z \<in> {a..?fin})"
        then have z: "high < z" "z < a" using that by auto
        then have "unat high + 1 < unat a" by (simp add: word_less_nat_alt)
        moreover have "unat a \<le> unat high + 1"
          using True by (auto simp: word_le_nat_alt unat_sat_add split: if_splits)
        ultimately show False by simp
      qed
      then have "\<And>z. z \<in> {low..?fin} \<Longrightarrow> z \<in> {low..high} \<union> {a..?fin}" by simp
      then have "{low..?fin} \<subseteq> {low..high} \<union> {a..?fin}" by (rule subsetI)
      moreover have "{low..high} \<union> {a..?fin} \<subseteq> {low..?fin}" using fin 2(5) by auto
      ultimately show ?thesis by (rule subset_antisym)
    qed
    then show ?thesis using True IH m by (auto simp: windows_def)
  next
    case False
    have IH: "span (coalesce w adjacent a ?fin as) = {a..?fin} \<union> windows w as
       \<and> apart adjacent (coalesce w adjacent a ?fin as)
       \<and> fst (hd (coalesce w adjacent a ?fin as)) = a \<and> coalesce w adjacent a ?fin as \<noteq> []"
      using 2(2)[OF refl False] above sorted fin by auto
    then obtain h rest where rest: "coalesce w adjacent a ?fin as = (a, h) # rest"
      by (cases "coalesce w adjacent a ?fin as") auto
    have tail: "sorted_wrt (\<lambda>(l, h) (l', h'). if adjacent then sat_add h 1 < l' else h < l') ((a, h) # rest)"
      "\<forall>(l, h) \<in> set ((a, h) # rest). l \<le> h"
      using IH unfolding rest apart_def by blast+
    have "a < l'" if "(l', h') \<in> set rest" for l' h'
    proof -
      have "(if adjacent then sat_add h 1 < l' else h < l')" "a \<le> h" using tail that by auto
      then show ?thesis using sat_add_ge [of h 1] by (auto split: if_splits)
    qed
    then have "\<forall>(l', h') \<in> set ((a, h) # rest). if adjacent then sat_add high 1 < l' else high < l'"
      using False by (auto simp: not_le split: if_splits intro: less_trans [of _ a])
    then have "apart adjacent ((low, high) # (a, h) # rest)"
      using tail 2(5) unfolding apart_def by simp
    then show ?thesis using IH False rest by (auto simp: span_def windows_def)
  qed
qed

lemma coalesce_batch:
  assumes "ssorted (a # rest)"
  shows "span (coalesce w adjacent a (sat_add a w) rest) = windows w (a # rest)
      \<and> apart adjacent (coalesce w adjacent a (sat_add a w) rest)"
proof -
  have "\<forall>b \<in> set rest. a < b \<and> sat_add a w \<le> sat_add b w"
    using assms by (auto simp: sat_add_mono less_imp_le)
  moreover have "windows w (a # rest) = {a..sat_add a w} \<union> windows w rest"
    by (simp add: windows_def)
  ultimately show ?thesis
    using coalesce_exact [of rest a "sat_add a w" w adjacent] assms sat_add_ge [of a w] by simp
qed

lemma flush_batch_exact:
  assumes "ssorted as"
  shows "span (flush_plain_batch as) = windows 15 as" "apart True (flush_plain_batch as)"
    and "span (flush_function_batch as) = windows 0xffff as" "apart False (flush_function_batch as)"
proof -
  have "span (flush_plain_batch as) = windows 15 as \<and> apart True (flush_plain_batch as)
    \<and> span (flush_function_batch as) = windows 0xffff as \<and> apart False (flush_function_batch as)"
  proof (cases as)
    case Nil
    then show ?thesis
      by (simp add: flush_plain_batch_def flush_function_batch_def span_def windows_def apart_def)
  next
    case (Cons a rest)
    then show ?thesis using assms coalesce_batch [of a rest]
      by (simp add: flush_plain_batch_def flush_function_batch_def)
  qed
  then show "span (flush_plain_batch as) = windows 15 as" "apart True (flush_plain_batch as)"
    "span (flush_function_batch as) = windows 0xffff as" "apart False (flush_function_batch as)" by blast+
qed

subsection \<open>The invariant\<close>

definition published :: "'a list \<Rightarrow> 'a list option \<Rightarrow> nat \<Rightarrow> bool" where
  "published master snapshot count' \<longleftrightarrow> count' = length master
     \<and> (case snapshot of None \<Rightarrow> master = [] | Some xs \<Rightarrow> xs = master)"

definition hooks_ok :: "hooks \<Rightarrow> bool" where
  "hooks_ok s \<longleftrightarrow>
     ssorted (hk_master s) \<and> ssorted (hk_functions s) \<and> ssorted (map sg_address (hk_signatures s)) \<and>
     set (hk_functions s) \<subseteq> set (hk_master s) \<and>
     length (hk_master s) \<le> MAX_HOOK_POINTS \<and> length (hk_functions s) \<le> MAX_HOOK_POINTS \<and>
     length (hk_signatures s) \<le> MAX_HOOK_POINTS \<and>
     published (hk_master s) (hk_snapshot s) (hk_count s) \<and>
     published (hk_functions s) (hk_fn_snapshot s) (hk_fn_count s) \<and>
     published (hk_signatures s) (hk_sig_snapshot s) (hk_sig_count s) \<and>
     (\<forall>a \<in> set (hk_master s). bloom_maybe_contains (hk_bloom s) a) \<and>
     (\<forall>a \<in> set (hk_functions s). bloom_maybe_contains (hk_fn_bloom s) a)"

lemma published_Some [simp]: "published m (Some m') n \<longleftrightarrow> m' = m \<and> n = length m"
  by (auto simp: published_def)

lemma hooks_ok_new [pb_inv]: "hooks_ok hooks_new"
  by (simp add: hooks_ok_def hooks_new_def published_def)

lemma hooks_contains_iff: "hooks_ok s \<Longrightarrow> hooks_contains s a \<longleftrightarrow> a \<in> set (hk_master s)"
  by (auto simp: hooks_ok_def hooks_contains_def published_def binary_search_ok split: option.splits)

lemma function_contains_iff: "hooks_ok s \<Longrightarrow> function_contains s a \<longleftrightarrow> a \<in> set (hk_functions s)"
  by (auto simp: hooks_ok_def function_contains_def published_def binary_search_ok split: option.splits)

lemma hook_set_ok:
  assumes "hooks_ok s" "hook_set a s = (r, s', flushed)"
  shows "hooks_ok s'"
    and "r \<longleftrightarrow> a \<in> set (hk_master s) \<or> length (hk_master s) < MAX_HOOK_POINTS"
    and "set (hk_master s') = (if r then insert a (set (hk_master s)) else set (hk_master s))"
    and "hk_functions s' = hk_functions s" "hk_signatures s' = hk_signatures s"
    and "flushed = (if r \<and> a \<notin> set (hk_master s) then [(a, a + 15)] else [])"
proof -
  have sorted: "ssorted (hk_master s)" using assms(1) by (simp add: hooks_ok_def)
  have "hooks_ok s' \<and> (r \<longleftrightarrow> a \<in> set (hk_master s) \<or> length (hk_master s) < MAX_HOOK_POINTS)
    \<and> set (hk_master s') = (if r then insert a (set (hk_master s)) else set (hk_master s))
    \<and> hk_functions s' = hk_functions s \<and> hk_signatures s' = hk_signatures s
    \<and> flushed = (if r \<and> a \<notin> set (hk_master s) then [(a, a + 15)] else [])"
  proof (cases "binary_search (hk_master s) a")
    case (Inr i)
    then have "a \<in> set (hk_master s)" using binary_search_ok [OF sorted, of a] by simp
    then show ?thesis using assms Inr by (auto simp: hook_set_def)
  next
    case (Inl i)
    then have "a \<notin> set (hk_master s)" using binary_search_ok [OF sorted, of a] by simp
    moreover note ins = binary_search_insert [OF sorted Inl]
    ultimately show ?thesis using assms Inl
      by (auto simp: hook_set_def Let_def publish_points_def flush_one_def hooks_ok_def
          bloom_insert_self bloom_insert_mono split: if_splits)
  qed
  then show "hooks_ok s'"
    "r \<longleftrightarrow> a \<in> set (hk_master s) \<or> length (hk_master s) < MAX_HOOK_POINTS"
    "set (hk_master s') = (if r then insert a (set (hk_master s)) else set (hk_master s))"
    "hk_functions s' = hk_functions s" "hk_signatures s' = hk_signatures s"
    "flushed = (if r \<and> a \<notin> set (hk_master s) then [(a, a + 15)] else [])" by blast+
qed

lemma add_points_ok:
  assumes "hooks_ok s" "merge_batch (hk_master s) as MAX_HOOK_POINTS = (merged, incoming, full)"
  shows "hooks_ok (add_points merged incoming s)"
    and "hk_master (add_points merged incoming s) = merged"
    and "hk_functions (add_points merged incoming s) = hk_functions s"
    and "hk_signatures (add_points merged incoming s) = hk_signatures s"
proof -
  have m: "ssorted (hk_master s)" "length (hk_master s) \<le> MAX_HOOK_POINTS"
    using assms(1) by (auto simp: hooks_ok_def)
  note batch = merge_batch_exact [OF m assms(2)]
  show "hooks_ok (add_points merged incoming s)"
    using assms(1) batch
    by (auto simp: add_points_def publish_points_def hooks_ok_def bloom_insert_all_contains)
  show "hk_master (add_points merged incoming s) = merged"
    "hk_functions (add_points merged incoming s) = hk_functions s"
    "hk_signatures (add_points merged incoming s) = hk_signatures s"
    using batch(7) by (auto simp: add_points_def publish_points_def)
qed

lemma set_plain_batch_ok:
  assumes "hooks_ok s" "set_plain_batch as s = ((added, total', full), s', flushed)"
  shows "hooks_ok s'"
    and "set (hk_master s') = set (hk_master s) \<union> set (take (MAX_HOOK_POINTS - length (hk_master s)) (fresh_of (hk_master s) as))"
    and "hk_functions s' = hk_functions s" "hk_signatures s' = hk_signatures s"
    and "span flushed = windows 15 (take (MAX_HOOK_POINTS - length (hk_master s)) (fresh_of (hk_master s) as))"
    and "apart True flushed"
proof -
  have m: "ssorted (hk_master s)" "length (hk_master s) \<le> MAX_HOOK_POINTS"
    using assms(1) by (auto simp: hooks_ok_def)
  obtain merged incoming where b: "merge_batch (hk_master s) as MAX_HOOK_POINTS = (merged, incoming, full)"
    and s': "s' = add_points merged incoming s" "flushed = flush_plain_batch incoming"
    using assms(2) by (auto simp: set_plain_batch_def Let_def split: prod.splits)
  note batch = merge_batch_exact [OF m b]
  note add = add_points_ok [OF assms(1) b]
  show "hooks_ok s'" "set (hk_master s') = set (hk_master s) \<union> set (take (MAX_HOOK_POINTS - length (hk_master s)) (fresh_of (hk_master s) as))"
    "hk_functions s' = hk_functions s" "hk_signatures s' = hk_signatures s"
    "span flushed = windows 15 (take (MAX_HOOK_POINTS - length (hk_master s)) (fresh_of (hk_master s) as))"
    "apart True flushed"
    using add batch flush_batch_exact(1,2) [OF batch(6)] unfolding s' by simp_all
qed

text \<open>The batch that arms functions: new points, and of the batch's points those not yet functions.\<close>

lemma set_batch_ok:
  assumes ok: "hooks_ok s" and set: "set_batch as s = ((added, total', full), s', flushed)"
  shows "hooks_ok s'"
    and "set (hk_master s') = set (hk_master s) \<union> set (take (MAX_HOOK_POINTS - length (hk_master s)) (fresh_of (hk_master s) as))"
    and "set (hk_functions s') = set (hk_functions s) \<union> {a \<in> set as. a \<noteq> 0 \<and> a \<in> set (hk_master s')}"
    and "hk_signatures s' = hk_signatures s"
    and "span flushed = (\<Union>a \<in> (set (hk_functions s') - set (hk_functions s)) \<union> (set (hk_master s') - set (hk_master s)).
           {a..sat_add a 0xffff})"
    and "apart False flushed"
proof -
  have m: "ssorted (hk_master s)" "length (hk_master s) \<le> MAX_HOOK_POINTS"
    using ok by (auto simp: hooks_ok_def)
  obtain merged incoming where b: "merge_batch (hk_master s) as MAX_HOOK_POINTS = (merged, incoming, full)"
    using set by (auto simp: set_batch_def Let_def split: prod.splits)
  define s1 where "s1 = add_points merged incoming s"
  note batch = merge_batch_exact [OF m b]
  note add = add_points_ok [OF ok b, folded s1_def]
  define accepted where "accepted = sort_dedup (filter (\<lambda>address. address \<noteq> 0
                \<and> is_ok (binary_search (hk_master s1) address)) as)"
  have f: "ssorted (hk_functions s1)" "length (hk_functions s1) \<le> MAX_HOOK_POINTS"
    and sub: "set (hk_functions s1) \<subseteq> set (hk_master s1)" and m1: "ssorted (hk_master s1)" "length (hk_master s1) \<le> MAX_HOOK_POINTS"
    using add(1) by (auto simp: hooks_ok_def)
  have acc: "set accepted = {a \<in> set as. a \<noteq> 0 \<and> a \<in> set (hk_master s1)}"
    using binary_search_ok [OF m1(1)] by (auto simp: accepted_def)
  obtain fmerged fnew ffull where fb: "merge_batch (hk_functions s1) accepted MAX_HOOK_POINTS = (fmerged, fnew, ffull)"
    by (metis prod_cases3)
  have s': "s' = (if fnew = [] then s1 else publish_functions fmerged
       (s1\<lparr>hk_fn_bloom := bloom_insert_all fnew (hk_fn_bloom s1), hk_functions := fmerged\<rparr>))"
    "flushed = flush_function_batch (sort_dedup (incoming @ fnew))"
    using set b fb by (auto simp: set_batch_def Let_def s1_def accepted_def)
  note fbatch = merge_batch_exact [OF f fb]
  let ?fresh = "set accepted - insert 0 (set (hk_functions s1))"
  have "length (hk_functions s1) + card ?fresh = card (set (hk_functions s1) \<union> ?fresh)"
    using f(1) by (subst card_Un_disjoint) (auto simp: distinct_card strict_sorted_iff)
  also have "\<dots> \<le> card (set (hk_master s1))"
    using sub acc by (intro card_mono) auto
  also have "\<dots> \<le> MAX_HOOK_POINTS" using m1 by (simp add: distinct_card strict_sorted_iff)
  finally have "fnew = fresh_of (hk_functions s1) accepted"
    using fbatch(1) by (simp add: fresh_of_def)
  then have fnew: "set fnew = {a \<in> set as. a \<noteq> 0 \<and> a \<in> set (hk_master s1) \<and> a \<notin> set (hk_functions s)}"
    using acc add(3) by (auto simp: fresh_of_def)
  have fs: "hk_functions s' = fmerged" "hk_master s' = hk_master s1" "hk_signatures s' = hk_signatures s1"
    using s'(1) fbatch(7) by (auto simp: publish_functions_def)
  show "hooks_ok s'"
    using add(1) fbatch fnew sub add(3) s'(1)
    by (auto simp: publish_functions_def hooks_ok_def bloom_insert_all_contains)
  show master: "set (hk_master s') = set (hk_master s) \<union> set (take (MAX_HOOK_POINTS - length (hk_master s)) (fresh_of (hk_master s) as))"
    using batch add fs by simp
  show "set (hk_functions s') = set (hk_functions s) \<union> {a \<in> set as. a \<noteq> 0 \<and> a \<in> set (hk_master s')}"
    using fbatch(4) fnew add(3) sub by (auto simp: fs)
  show "hk_signatures s' = hk_signatures s" using fs add by simp
  have inc: "set incoming \<subseteq> {a \<in> set as. a \<noteq> 0 \<and> a \<notin> set (hk_master s)}"
    using batch(1) by (auto simp: fresh_of_def dest!: in_set_takeD)
  show "apart False flushed"
    using flush_batch_exact(4) [of "sort_dedup (incoming @ fnew)"] by (simp add: s'(2))
  have "set (hk_functions s') - set (hk_functions s) = set fnew"
    "set (hk_master s') - set (hk_master s) = set incoming"
    using fs fbatch(4) batch(4) add(2,3) fnew inc by auto
  then have "set incoming \<union> set fnew = (set (hk_functions s') - set (hk_functions s)) \<union> (set (hk_master s') - set (hk_master s))"
    by blast
  then show "span flushed = (\<Union>a \<in> (set (hk_functions s') - set (hk_functions s)) \<union> (set (hk_master s') - set (hk_master s)).
           {a..sat_add a 0xffff})"
    using flush_batch_exact(3) [of "sort_dedup (incoming @ fnew)"] by (simp add: s'(2) windows_def)
qed

lemma ssorted_map_remove_at: "map f (remove_at i xs) = remove_at i (map f xs)"
  by (simp add: remove_at_def take_map drop_map)

lemma remove_at_length: "length (remove_at i xs) \<le> length xs"
  by (simp add: remove_at_def)

lemma remove_signature_ok:
  assumes ok: "hooks_ok s"
  shows "hooks_ok (remove_function_signature a s)"
    and "hk_master (remove_function_signature a s) = hk_master s"
    and "hk_functions (remove_function_signature a s) = hk_functions s"
    and "hk_bloom (remove_function_signature a s) = hk_bloom s"
    and "set (map sg_address (hk_signatures (remove_function_signature a s)))
           = set (map sg_address (hk_signatures s)) - {a}"
proof -
  have sorted: "ssorted (map sg_address (hk_signatures s))" using ok by (simp add: hooks_ok_def)
  have "hooks_ok (remove_function_signature a s) \<and> hk_master (remove_function_signature a s) = hk_master s
    \<and> hk_functions (remove_function_signature a s) = hk_functions s
    \<and> hk_bloom (remove_function_signature a s) = hk_bloom s
    \<and> set (map sg_address (hk_signatures (remove_function_signature a s)))
           = set (map sg_address (hk_signatures s)) - {a}"
  proof (cases "binary_search (map sg_address (hk_signatures s)) a")
    case (Inl i)
    then show ?thesis using ok binary_search_ok [OF sorted, of a]
      by (auto simp: remove_function_signature_def)
  next
    case (Inr i)
    note rm = ssorted_remove_at [OF sorted Inr, folded ssorted_map_remove_at]
    show ?thesis
      using ok Inr rm remove_at_length [of i "hk_signatures s"]
      by (auto simp: remove_function_signature_def Let_def publish_signatures_def hooks_ok_def
          simp flip: image_set)
  qed
  then show "hooks_ok (remove_function_signature a s)" "hk_master (remove_function_signature a s) = hk_master s"
    "hk_functions (remove_function_signature a s) = hk_functions s"
    "hk_bloom (remove_function_signature a s) = hk_bloom s"
    "set (map sg_address (hk_signatures (remove_function_signature a s)))
           = set (map sg_address (hk_signatures s)) - {a}" by blast+
qed

lemma hook_remove_ok:
  assumes ok: "hooks_ok s" and remove: "hook_remove a s = (s', flushed)"
  shows "hooks_ok s'"
    and "set (hk_master s') = set (hk_master s) - {a}"
    and "set (hk_functions s') = set (hk_functions s) - {a}"
    and "set (map sg_address (hk_signatures s')) = set (map sg_address (hk_signatures s)) - {a}"
    and "flushed = (if a \<in> set (hk_functions s) then [(a, sat_add a 0xffff)]
           else if a \<in> set (hk_master s) then [(a, a + 15)] else [])"
proof -
  have m: "ssorted (hk_master s)" and f: "ssorted (hk_functions s)" using ok by (simp_all add: hooks_ok_def)
  define s1 where "s1 = (case binary_search (hk_master s) a of
               Inl _ \<Rightarrow> (False, s)
             | Inr index \<Rightarrow> (True, publish_points (remove_at index (hk_master s)) (s\<lparr>hk_master := remove_at index (hk_master s)\<rparr>)))"
  have s1: "fst s1 \<longleftrightarrow> a \<in> set (hk_master s)" "set (hk_master (snd s1)) = set (hk_master s) - {a}"
    "ssorted (hk_master (snd s1))" "hk_functions (snd s1) = hk_functions s" "hk_signatures (snd s1) = hk_signatures s"
    "length (hk_master (snd s1)) \<le> length (hk_master s)" "hk_bloom (snd s1) = hk_bloom s"
    "published (hk_master (snd s1)) (hk_snapshot (snd s1)) (hk_count (snd s1))"
    "hk_fn_snapshot (snd s1) = hk_fn_snapshot s" "hk_fn_count (snd s1) = hk_fn_count s"
    "hk_sig_snapshot (snd s1) = hk_sig_snapshot s" "hk_sig_count (snd s1) = hk_sig_count s"
    "hk_fn_bloom (snd s1) = hk_fn_bloom s"
    using binary_search_ok [OF m, of a] ssorted_remove_at [OF m, of a] remove_at_length [of _ "hk_master s"] ok m
    by (auto simp: s1_def publish_points_def hooks_ok_def split: sum.splits)
  define s2 where "s2 = (case binary_search (hk_functions (snd s1)) a of
               Inl _ \<Rightarrow> (False, snd s1)
             | Inr index \<Rightarrow> (True, publish_functions (remove_at index (hk_functions (snd s1)))
                 ((snd s1)\<lparr>hk_functions := remove_at index (hk_functions (snd s1))\<rparr>)))"
  have s2: "fst s2 \<longleftrightarrow> a \<in> set (hk_functions s)" "set (hk_functions (snd s2)) = set (hk_functions s) - {a}"
    "hk_master (snd s2) = hk_master (snd s1)" "hk_signatures (snd s2) = hk_signatures s"
    using binary_search_ok [OF f, of a] ssorted_remove_at [OF f, of a]
    by (auto simp: s2_def s1 publish_functions_def split: sum.splits)
  have ok2: "hooks_ok (snd s2)"
    using binary_search_ok [OF f, of a] ssorted_remove_at [OF f, of a] remove_at_length [of _ "hk_functions s", THEN le_trans] ok s1
    by (auto simp: s2_def publish_functions_def hooks_ok_def split: sum.splits)
  have r: "s' = remove_function_signature a (snd s2)"
    "flushed = (if fst s2 then flush_function_batch [a] else if fst s1 then flush_one a else [])"
    using remove unfolding hook_remove_def Let_def s2_def s1_def
    by (auto split: prod.splits sum.splits)
  note sig = remove_signature_ok [OF ok2, of a]
  show "hooks_ok s'" "set (hk_master s') = set (hk_master s) - {a}"
    "set (hk_functions s') = set (hk_functions s) - {a}"
    "set (map sg_address (hk_signatures s')) = set (map sg_address (hk_signatures s)) - {a}"
    "flushed = (if a \<in> set (hk_functions s) then [(a, sat_add a 0xffff)]
           else if a \<in> set (hk_master s) then [(a, a + 15)] else [])"
    using sig s1 s2 by (simp_all add: r flush_function_batch_def flush_one_def)
qed

lemma hooks_clear_ok:
  assumes "hooks_ok s" "hooks_clear s = (s', flushed)"
  shows "hooks_ok s'" "hk_master s' = []" "hk_functions s' = []" "hk_signatures s' = []"
    and "span flushed = windows 0xffff (hk_master s)"
proof -
  have sorted: "ssorted (hk_master s)" using assms(1) by (simp add: hooks_ok_def)
  have fl: "flushed = flush_function_batch (hk_master s)" and s': "s' = fst (hooks_clear s)"
    using assms(2) by (auto simp: hooks_clear_def Let_def)
  show "span flushed = windows 0xffff (hk_master s)"
    using flush_batch_exact(3) [OF sorted] by (simp add: fl)
  show "hk_master s' = []" "hk_functions s' = []" "hk_signatures s' = []"
    unfolding s' hooks_clear_def Let_def
    by (simp_all add: publish_points_def publish_functions_def publish_signatures_def)
  show "hooks_ok s'"
    using assms(1) unfolding s' hooks_clear_def Let_def hooks_ok_def
    by (cases "hk_master s = []"; cases "hk_functions s = []"; cases "hk_signatures s = []")
      (simp_all add: publish_points_def publish_functions_def publish_signatures_def)
qed

lemma map_insert_at: "map f (insert_at i x xs) = insert_at i (f x) (map f xs)"
  by (simp add: insert_at_def take_map drop_map)

lemma set_signature_ok:
  assumes ok: "hooks_ok s" and set: "set_function_signature layout s = (r, s')"
  shows "hooks_ok s'" "hk_master s' = hk_master s" "hk_functions s' = hk_functions s" "\<not> r \<Longrightarrow> s' = s"
    "r \<Longrightarrow> set (map sg_address (hk_signatures s')) = insert (sg_address layout) (set (map sg_address (hk_signatures s)))"
proof -
  let ?l = "layout\<lparr>sg_float_mask := sg_float_mask layout AND (if sg_parameter_count layout = 0 then 0
                 else push_bit (unat (sg_parameter_count layout)) 1 - 1)\<rparr>"
  have sorted: "ssorted (map sg_address (hk_signatures s))" using ok by (simp add: hooks_ok_def)
  have "s' = s \<and> \<not> r \<or> r \<and> (\<exists>sigs. s' = publish_signatures sigs (s\<lparr>hk_signatures := sigs\<rparr>)
     \<and> ssorted (map sg_address sigs) \<and> length sigs \<le> MAX_HOOK_POINTS
     \<and> set (map sg_address sigs) = insert (sg_address layout) (set (map sg_address (hk_signatures s))))"
  proof (cases "binary_search (map sg_address (hk_signatures s)) (sg_address layout)")
    case (Inr i)
    have i: "i < length (hk_signatures s)" "sg_address (hk_signatures s ! i) = sg_address layout"
      using binary_search_Inr [OF Inr] by auto
    have map: "map sg_address ((hk_signatures s)[i := ?l]) = map sg_address (hk_signatures s)"
      using i by (simp add: map_update list_update_same_conv)
    have mem: "sg_address layout \<in> set (map sg_address (hk_signatures s))"
      using binary_search_ok [OF sorted, of "sg_address layout"] Inr by simp
    then have "insert (sg_address layout) (set (map sg_address (hk_signatures s))) = set (map sg_address (hk_signatures s))"
      by (rule insert_absorb)
    moreover have "length ((hk_signatures s)[i := ?l]) \<le> MAX_HOOK_POINTS" using ok by (simp add: hooks_ok_def)
    moreover have "s' = s \<and> \<not> r \<or> r \<and> s' = publish_signatures ((hk_signatures s)[i := ?l]) (s\<lparr>hk_signatures := (hk_signatures s)[i := ?l]\<rparr>)"
      using set Inr unfolding set_function_signature_def Let_def by (simp split: if_splits)
    ultimately show ?thesis using map sorted by metis
  next
    case (Inl i)
    note ins = binary_search_insert [OF sorted Inl]
    have map: "map sg_address (insert_at i ?l (hk_signatures s)) = insert_at i (sg_address layout) (map sg_address (hk_signatures s))"
      by (simp add: map_insert_at)
    have len: "length (insert_at i ?l (hk_signatures s)) = Suc (length (hk_signatures s))"
      using ins(3) map by (metis length_map)
    have "s' = s \<and> \<not> r \<or> r \<and> length (hk_signatures s) < MAX_HOOK_POINTS \<and> s' = publish_signatures (insert_at i ?l (hk_signatures s)) (s\<lparr>hk_signatures := insert_at i ?l (hk_signatures s)\<rparr>)"
      using set Inl unfolding set_function_signature_def Let_def by (simp split: if_splits)
    then show ?thesis using ins map len by (metis Suc_leI)
  qed
  then have "hooks_ok s' \<and> hk_master s' = hk_master s \<and> hk_functions s' = hk_functions s \<and> (\<not> r \<longrightarrow> s' = s) \<and>
    (r \<longrightarrow> set (map sg_address (hk_signatures s')) = insert (sg_address layout) (set (map sg_address (hk_signatures s))))"
    using ok by (elim disjE conjE exE) (simp_all add: publish_signatures_def hooks_ok_def)
  then show "hooks_ok s'" "hk_master s' = hk_master s" "hk_functions s' = hk_functions s" "\<not> r \<Longrightarrow> s' = s"
    "r \<Longrightarrow> set (map sg_address (hk_signatures s')) = insert (sg_address layout) (set (map sg_address (hk_signatures s)))"
    by blast+
qed

subsection \<open>Exact lookups\<close>

lemma function_at_or_before_exact:
  assumes "ssorted fs"
  shows "function_at_or_before fs a = Some f \<longleftrightarrow> f \<in> set fs \<and> f \<le> a \<and> (\<forall>g \<in> set fs. g \<le> a \<longrightarrow> g \<le> f)"
proof -
  let ?i = "partition_point (\<lambda>c. c \<le> a) fs"
  have tw: "takeWhile (\<lambda>c. c \<le> a) fs = filter (\<lambda>c. c \<le> a) fs"
    using assms by (induction fs) (auto intro!: filter_False [symmetric] dest: less_imp_le [THEN order_trans])
  have le: "?i \<le> length fs" by (rule partition_point_le)
  have pre: "take ?i fs = filter (\<lambda>c. c \<le> a) fs"
    unfolding partition_point_def by (metis takeWhile_eq_take tw)
  show ?thesis
  proof (cases "?i = 0")
    case True
    then have "filter (\<lambda>c. c \<le> a) fs = []" using pre by simp
    then have "\<forall>c \<in> set fs. \<not> c \<le> a" by (simp add: filter_empty_conv)
    then show ?thesis using True by (auto simp: function_at_or_before_def)
  next
    case False
    then have i: "?i - 1 < length fs" "function_at_or_before fs a = Some (fs ! (?i - 1))"
      using le by (auto simp: function_at_or_before_def Let_def)
    have last: "fs ! (?i - 1) = last (take ?i fs)"
      using False le by (subst last_conv_nth) (auto simp: min_def)
    have mem: "set (take ?i fs) = {c \<in> set fs. c \<le> a}" and ne: "take ?i fs \<noteq> []"
      using pre False i(1) by auto
    have top: "\<forall>c \<in> set (take ?i fs). c \<le> last (take ?i fs)"
    proof -
      have "ssorted (butlast (take ?i fs) @ [last (take ?i fs)])"
        unfolding append_butlast_last_id [OF ne] using assms by (rule sorted_wrt_take)
      then have "\<forall>c \<in> set (butlast (take ?i fs)). c < last (take ?i fs)" by (simp add: sorted_wrt_append)
      moreover have "set (take ?i fs) = insert (last (take ?i fs)) (set (butlast (take ?i fs)))"
        by (subst append_butlast_last_id [OF ne, symmetric]) simp
      ultimately show ?thesis by (auto intro: less_imp_le)
    qed
    have "last (take ?i fs) \<in> set (take ?i fs)" using ne by (rule last_in_set)
    then have l: "fs ! (?i - 1) \<in> set fs" "fs ! (?i - 1) \<le> a"
      and max: "\<forall>g \<in> set fs. g \<le> a \<longrightarrow> g \<le> fs ! (?i - 1)"
      using top unfolding mem last by blast+
    show ?thesis unfolding i(2) using l max by (blast intro: order_antisym)
  qed
qed

lemma observation_exact:
  "observation_interested (publish_observation_interests entry return is s) a r \<longleftrightarrow>
     (if r then return else entry) \<or> (a, r) \<in> set is \<and> a \<noteq> 0"
proof -
  have sorted: "ssorted (sort_dedup (filter (\<lambda>(address, _). address \<noteq> 0) is))" by simp
  have "is_ok (binary_search (sort_dedup (filter (\<lambda>(address, _). address \<noteq> 0) is)) (a, r)) \<longleftrightarrow> (a, r) \<in> set is \<and> a \<noteq> 0"
    unfolding binary_search_ok [OF sorted] by auto
  then show ?thesis
    by (cases entry; cases return; cases r)
      (auto simp: observation_interested_def publish_observation_interests_def Let_def)
qed

subsection \<open>Histories of operations\<close>

datatype hook_op =
    Op_set u64
  | Op_batch "u64 list"
  | Op_plain "u64 list"
  | Op_remove u64
  | Op_clear
  | Op_sign signature_layout
  | Op_unsign u64

fun hook_apply :: "hook_op \<Rightarrow> hooks \<Rightarrow> hooks" where
  "hook_apply (Op_set a) s = fst (snd (hook_set a s))"
| "hook_apply (Op_batch as) s = fst (snd (set_batch as s))"
| "hook_apply (Op_plain as) s = fst (snd (set_plain_batch as s))"
| "hook_apply (Op_remove a) s = fst (hook_remove a s)"
| "hook_apply Op_clear s = fst (hooks_clear s)"
| "hook_apply (Op_sign layout) s = snd (set_function_signature layout s)"
| "hook_apply (Op_unsign a) s = remove_function_signature a s"

definition hooks_after :: "hook_op list \<Rightarrow> hooks" where
  "hooks_after ops = fold hook_apply ops hooks_new"

text \<open>The specification: a set of points and a set of functions, with the capacity rule.\<close>

definition accepted :: "u64 list \<Rightarrow> u64 set \<Rightarrow> u64 set" where
  "accepted as points = set (take (MAX_HOOK_POINTS - card points)
     (sorted_list_of_set (set as - insert 0 points)))"

fun spec_apply :: "hook_op \<Rightarrow> u64 set \<times> u64 set \<Rightarrow> u64 set \<times> u64 set" where
  "spec_apply (Op_set a) (points, functions) =
     (if card points < MAX_HOOK_POINTS then (insert a points, functions) else (points, functions))"
| "spec_apply (Op_batch as) (points, functions) =
     (let points = points \<union> accepted as points
      in (points, functions \<union> {a \<in> set as. a \<noteq> 0 \<and> a \<in> points}))"
| "spec_apply (Op_plain as) (points, functions) = (points \<union> accepted as points, functions)"
| "spec_apply (Op_remove a) (points, functions) = (points - {a}, functions - {a})"
| "spec_apply Op_clear (points, functions) = ({}, {})"
| "spec_apply (Op_sign layout) (points, functions) = (points, functions)"
| "spec_apply (Op_unsign a) (points, functions) = (points, functions)"

definition hooks_abs :: "hooks \<Rightarrow> u64 set \<times> u64 set" where
  "hooks_abs s = (set (hk_master s), set (hk_functions s))"

lemma accepted_exact:
  "hooks_ok s \<Longrightarrow> set (take (MAX_HOOK_POINTS - length (hk_master s)) (fresh_of (hk_master s) as))
     = accepted as (set (hk_master s))"
  by (simp add: accepted_def fresh_of_def hooks_ok_def distinct_card strict_sorted_iff)

lemma hook_apply_ok:
  assumes ok: "hooks_ok s"
  shows "hooks_ok (hook_apply op s) \<and> hooks_abs (hook_apply op s) = spec_apply op (hooks_abs s)"
proof (cases op)
  case (Op_set a)
  obtain r s' fl where r: "hook_set a s = (r, s', fl)" by (metis prod_cases3)
  have "card (set (hk_master s)) = length (hk_master s)"
    using ok by (simp add: hooks_ok_def distinct_card strict_sorted_iff)
  then show ?thesis using hook_set_ok [OF ok r] by (auto simp: Op_set r hooks_abs_def insert_absorb)
next
  case (Op_batch as)
  obtain added tot full s' fl where r: "set_batch as s = ((added, tot, full), s', fl)" by (metis prod_cases3)
  show ?thesis using set_batch_ok [OF ok r] accepted_exact [OF ok, of as]
    by (simp add: Op_batch r hooks_abs_def Let_def)
next
  case (Op_plain as)
  obtain added tot full s' fl where r: "set_plain_batch as s = ((added, tot, full), s', fl)" by (metis prod_cases3)
  show ?thesis using set_plain_batch_ok [OF ok r] accepted_exact [OF ok, of as]
    by (simp add: Op_plain r hooks_abs_def)
next
  case (Op_remove a)
  obtain s' fl where r: "hook_remove a s = (s', fl)" by fastforce
  show ?thesis using hook_remove_ok [OF ok r] by (simp add: Op_remove r hooks_abs_def)
next
  case Op_clear
  obtain s' fl where r: "hooks_clear s = (s', fl)" by fastforce
  show ?thesis using hooks_clear_ok [OF ok r] by (simp add: Op_clear r hooks_abs_def)
next
  case (Op_sign layout)
  obtain r s' where r: "set_function_signature layout s = (r, s')" by fastforce
  show ?thesis using set_signature_ok [OF ok r] by (simp add: Op_sign r hooks_abs_def)
next
  case (Op_unsign a)
  show ?thesis using remove_signature_ok [OF ok, of a] by (simp add: Op_unsign hooks_abs_def)
qed

lemma hooks_after_ok:
  "hooks_ok (hooks_after ops) \<and> hooks_abs (hooks_after ops) = fold spec_apply ops ({}, {})"
proof -
  have "hooks_ok s \<Longrightarrow> hooks_ok (fold hook_apply ops s) \<and> hooks_abs (fold hook_apply ops s) = fold spec_apply ops (hooks_abs s)" for s
    by (induction ops arbitrary: s) (use hook_apply_ok in auto)
  from this [OF hooks_ok_new] show ?thesis by (simp add: hooks_after_def hooks_abs_def hooks_new_def)
qed

subsection \<open>Properties\<close>

text \<open>
  C16. Whatever history of sets, batches, removals and clears the agent was given, the lock-free
  checks of the instrumentation callback answer exactly the sets of points and functions that history
  describes: the Bloom prefilter never hides a point, capacity is respected, and every function
  entry is also a point.
\<close>

theorem hook_sets_exact:
  "case fold spec_apply ops ({}, {}) of (points, functions) \<Rightarrow>
     (\<forall>a. hooks_contains (hooks_after ops) a = (a \<in> points))
     \<and> (\<forall>a. function_contains (hooks_after ops) a = (a \<in> functions))
     \<and> functions \<subseteq> points \<and> card points \<le> MAX_HOOK_POINTS
     \<and> hooks_list (hooks_after ops) = sorted_list_of_set points
     \<and> function_list (hooks_after ops) = sorted_list_of_set functions"
proof -
  have ok: "hooks_ok (hooks_after ops)" and abs: "fold spec_apply ops ({}, {}) = hooks_abs (hooks_after ops)"
    using hooks_after_ok by auto
  have sorted: "xs = sorted_list_of_set (set xs)" if "ssorted xs" for xs :: "u64 list"
    using that by (metis sorted_list_of_set.idem_if_sorted_distinct strict_sorted_iff)
  show ?thesis
    using ok sorted unfolding abs hooks_abs_def
    by (simp add: hooks_contains_iff function_contains_iff hooks_list_def function_list_def)
      (auto simp: hooks_ok_def distinct_card strict_sorted_iff)
qed

text \<open>
  C17. Arming a batch forces exactly the code it changes to be compiled again: the flushed ranges of a
  function batch cover the 64 KiB windows of the points and functions that are new, those of a plain
  batch the 16-byte windows of the new points, nothing else, and the ranges of one batch are
  ascending and apart, so none is flushed twice.
\<close>

theorem batch_flushes_exactly:
  "case set_batch as (hooks_after ops) of (_, s', flushed) \<Rightarrow>
     (\<Union>(low, high) \<in> set flushed. {low..high}) =
       (\<Union>a \<in> (set (hooks_list s') - set (hooks_list (hooks_after ops)))
          \<union> (set (function_list s') - set (function_list (hooks_after ops))). {a..sat_add a 0xffff})
     \<and> sorted_wrt (\<lambda>(l, h) (l', h'). h < l') flushed
     \<and> (case set_plain_batch as (hooks_after ops) of (_, s'', flushed') \<Rightarrow>
       (\<Union>(low, high) \<in> set flushed'. {low..high}) =
         (\<Union>a \<in> set (hooks_list s'') - set (hooks_list (hooks_after ops)). {a..sat_add a 15})
       \<and> sorted_wrt (\<lambda>(l, h) (l', h'). sat_add h 1 < l') flushed')"
proof -
  have ok: "hooks_ok (hooks_after ops)" using hooks_after_ok by blast
  let ?s = "hooks_after ops"
  obtain r s' fl where b: "set_batch as ?s = (r, s', fl)" by (metis prod_cases3)
  obtain r' s'' fl' where p: "set_plain_batch as ?s = (r', s'', fl')" by (metis prod_cases3)
  obtain a1 t1 f1 a2 t2 f2 where r: "r = (a1, t1, f1)" "r' = (a2, t2, f2)" by (metis prod_cases3)
  note batch = set_batch_ok [OF ok b [unfolded r]] and plain = set_plain_batch_ok [OF ok p [unfolded r]]
  have "set (take (MAX_HOOK_POINTS - length (hk_master ?s)) (fresh_of (hk_master ?s) as))
      = set (hk_master s'') - set (hk_master ?s)"
    unfolding plain(2) by (auto simp: fresh_of_def dest: in_set_takeD)
  then have "span fl' = (\<Union>a \<in> set (hk_master s'') - set (hk_master ?s). {a..sat_add a 15})"
    unfolding plain(5) windows_def by simp
  then show ?thesis
    using batch(5,6) plain(6) unfolding b p by (simp add: hooks_list_def function_list_def span_def apart_def Un_commute)
qed

text \<open>
  A return instruction inside a routine is owned by the nearest selected function at or before
  it, when that function starts inside the routine, and by none otherwise.
\<close>

theorem return_owner_exact:
  "function_for_return (hooks_after ops) ip start fin = Some f \<longleftrightarrow>
     f \<in> set (function_list (hooks_after ops)) \<and> start \<le> f \<and> f < fin \<and> f \<le> ip
     \<and> (\<forall>g \<in> set (function_list (hooks_after ops)). g \<le> ip \<longrightarrow> g \<le> f)"
proof -
  have ok: "hooks_ok (hooks_after ops)" using hooks_after_ok by blast
  then have sorted: "ssorted (hk_functions (hooks_after ops))" by (simp add: hooks_ok_def)
  have "function_for_return (hooks_after ops) ip start fin =
     (if fin \<le> start \<or> ip < start then None
      else case function_at_or_before (hk_functions (hooks_after ops)) ip of
             None \<Rightarrow> None | Some c \<Rightarrow> if start \<le> c \<and> c < fin then Some c else None)"
    using ok by (auto simp: function_for_return_def hooks_ok_def published_def function_at_or_before_def
        partition_point_def split: option.splits)
  then have "function_for_return (hooks_after ops) ip start fin = Some f \<longleftrightarrow>
     function_at_or_before (hk_functions (hooks_after ops)) ip = Some f \<and> start \<le> f \<and> f < fin \<and> f \<le> ip"
    using function_at_or_before_exact [OF sorted, of ip f]
    by (auto split: option.splits if_splits)
  then show ?thesis
    unfolding function_at_or_before_exact [OF sorted] function_list_def by auto
qed

lemma return_owner_exact_witness:
  "function_for_return (hooks_after [Op_batch [0x1000]]) 0x1010 0x1000 0x2000 = Some 0x1000"
proof -
  have "hooks_abs (hooks_after [Op_batch [0x1000]]) = spec_apply (Op_batch [0x1000]) ({}, {})"
    using hooks_after_ok [of "[Op_batch [0x1000]]"] by simp
  then have "set (function_list (hooks_after [Op_batch [0x1000]])) = {0x1000}"
    by (auto simp: hooks_abs_def function_list_def accepted_def MAX_HOOK_POINTS_def Let_def)
  then show ?thesis by (subst return_owner_exact) simp
qed

end
