(* ===== verification/Pb_Hook_Rules.thy ===== *)
theory Pb_Hook_Rules
  imports Pb_Hooks
begin

section \<open>Action rules, replay guard and function frames (hooks.rs)\<close>

text \<open>
  \<open>bindings/rust/pinbridge-agent/src/hooks.rs\<close>: the synchronous rules a hook applies to the Pin
  context, the guard that swallows the one replay after a context change, and the per-thread stack
  of function frames that pairs a return with its entry. Pin calls go through \<open>pin_calls\<close>; a Pin
  thread-data slot is a map from threads to its value, empty for a null pointer.
\<close>

definition MAX_HOOK_RULES :: nat where "MAX_HOOK_RULES = 65536"
definition HOOK_STACK_ARG_BASE :: u32 where "HOOK_STACK_ARG_BASE = 0x80000000"
definition PB_REG_INVALID :: u32 where "PB_REG_INVALID = 0"
definition PB_INVALID_TLS_KEY :: int where "PB_INVALID_TLS_KEY = - 1"
definition ALL_THREADS :: u32 where "ALL_THREADS = 4294967295"
definition MAX_FUNCTION_CALL_DEPTH :: nat where "MAX_FUNCTION_CALL_DEPTH = 64"
definition MAX_PIN_THREADS :: nat where "MAX_PIN_THREADS = 8192"

definition stack_arg_index :: "u32 \<Rightarrow> u32 option" where
  "stack_arg_index reg =
     (if reg < HOOK_STACK_ARG_BASE then None
      else let index = reg - HOOK_STACK_ARG_BASE in if index < 1024 then Some index else None)"

record hook_rule =
  hr_address :: u64
  hr_thread_id :: u32
  hr_match_reg :: u32
  hr_match_mask :: u64
  hr_match_value :: u64
  hr_set_reg :: u32
  hr_set_value :: u64

record hook_rules =
  rl_master :: "hook_rule list"
  rl_snapshot :: "hook_rule list option"
  rl_count :: nat

definition hook_rules_new :: hook_rules where
  "hook_rules_new = \<lparr>rl_master = [], rl_snapshot = None, rl_count = 0\<rparr>"

subsection \<open>Rules\<close>

definition publish_rules :: "hook_rule list \<Rightarrow> hook_rules \<Rightarrow> hook_rules" where
  "publish_rules rules s = s\<lparr>rl_snapshot := Some rules, rl_count := length rules\<rparr>"

definition rule_interested :: "hook_rules \<Rightarrow> u64 \<Rightarrow> bool" where
  "rule_interested s address =
     (if rl_count s = 0 then False
      else case rl_snapshot s of
             None \<Rightarrow> False
           | Some rules \<Rightarrow>
               let index = partition_point (\<lambda>item. hr_address item < address) rules
               in index < length rules \<and> hr_address (rules ! index) = address)"

definition same_rule :: "hook_rule \<Rightarrow> hook_rule \<Rightarrow> bool" where
  "same_rule rule item \<longleftrightarrow>
     hr_address item = hr_address rule \<and> hr_thread_id item = hr_thread_id rule \<and>
     hr_match_reg item = hr_match_reg rule \<and> hr_match_mask item = hr_match_mask rule \<and>
     hr_match_value item = hr_match_value rule \<and> hr_set_reg item = hr_set_reg rule"

text \<open>
  The result, the new table and the flushed ranges. \<open>sort_unstable_by_key\<close> may leave rules of one
  address in any order; \<open>resort\<close> is that sort, and the properties ask of it only a permutation
  sorted by address.
\<close>

definition set_rule ::
  "(hook_rule list \<Rightarrow> hook_rule list) \<Rightarrow> hook_rule \<Rightarrow> hook_rules \<Rightarrow> bool \<times> hook_rules \<times> ranges" where
  "set_rule resort rule s =
     (if hr_address rule = 0 \<or> hr_set_reg rule = PB_REG_INVALID
         \<or> (hr_match_reg rule \<noteq> PB_REG_INVALID \<and> hr_match_mask rule = 0)
      then (False, s, [])
      else let rules = rl_master s;
               address_was_active = list_ex (\<lambda>item. hr_address item = hr_address rule) rules;
               flushed = (if address_was_active then [] else refresh_instrumentation [hr_address rule])
           in case List.find (\<lambda>i. same_rule rule (rules ! i)) [0..<length rules] of
                Some i \<Rightarrow>
                  (let rules = resort (rules[i := (rules ! i)\<lparr>hr_set_value := hr_set_value rule\<rparr>])
                   in (True, publish_rules rules (s\<lparr>rl_master := rules\<rparr>), flushed))
              | None \<Rightarrow>
                  if length rules \<ge> MAX_HOOK_RULES then (False, s, [])
                  else let rules = resort (rules @ [rule])
                       in (True, publish_rules rules (s\<lparr>rl_master := rules\<rparr>), flushed))"

definition clear_rules :: "hook_rules \<Rightarrow> hook_rules \<times> ranges" where
  "clear_rules s =
     (if rl_master s = [] then (s, [])
      else let addresses = map hr_address (rl_master s)
           in (publish_rules [] (s\<lparr>rl_master := []\<rparr>), refresh_instrumentation (sort_dedup addresses)))"

definition position :: "'a list \<Rightarrow> 'a \<Rightarrow> nat option" where
  "position xs x = List.find (\<lambda>i. xs ! i = x) [0..<length xs]"

definition rule_operand ::
  "'c pin_calls \<Rightarrow> u32 \<Rightarrow> 'c \<Rightarrow> u64 list \<Rightarrow> u32 \<Rightarrow> u64 option" where
  "rule_operand pin width context captured reg =
     (case position (hook_arg_regs width) reg of
        Some index \<Rightarrow> Some (captured ! index)
      | None \<Rightarrow>
          (case (case stack_arg_index reg of
                   Some index \<Rightarrow> pin_get_stack_arg pin context index
                 | None \<Rightarrow> pin_get_reg pin context reg) of
             (status, value) \<Rightarrow> if status = PB_OK then Some value else None))"

definition rule_applies ::
  "'c pin_calls \<Rightarrow> u32 \<Rightarrow> u32 \<Rightarrow> 'c \<Rightarrow> u64 list \<Rightarrow> bool \<Rightarrow> hook_rule \<Rightarrow> bool" where
  "rule_applies pin width thread_id context captured is_return rule =
     (if hr_thread_id rule \<noteq> ALL_THREADS \<and> hr_thread_id rule \<noteq> thread_id then False
      else if is_return \<and> (stack_arg_index (hr_match_reg rule) \<noteq> None \<or> stack_arg_index (hr_set_reg rule) \<noteq> None)
      then False
      else if hr_match_reg rule \<noteq> PB_REG_INVALID
      then (case rule_operand pin width context captured (hr_match_reg rule) of
              None \<Rightarrow> False
            | Some value \<Rightarrow> value AND hr_match_mask rule = hr_match_value rule AND hr_match_mask rule)
      else True)"

definition rule_write :: "'c pin_calls \<Rightarrow> hook_rule \<Rightarrow> 'c \<Rightarrow> u32 \<times> 'c" where
  "rule_write pin rule context =
     (case stack_arg_index (hr_set_reg rule) of
        Some index \<Rightarrow> pin_set_stack_arg pin context index (hr_set_value rule)
      | None \<Rightarrow> pin_set_reg pin context (hr_set_reg rule) (hr_set_value rule))"

fun apply_rules_from ::
  "'c pin_calls \<Rightarrow> u32 \<Rightarrow> u64 \<Rightarrow> u32 \<Rightarrow> u64 list \<Rightarrow> bool \<Rightarrow> hook_rule list \<Rightarrow> 'c \<Rightarrow> nat \<times> 'c" where
  "apply_rules_from pin width address thread_id captured is_return [] context = (0, context)"
| "apply_rules_from pin width address thread_id captured is_return (rule # rules) context =
     (if hr_address rule \<noteq> address then (0, context)
      else if \<not> rule_applies pin width thread_id context captured is_return rule
      then apply_rules_from pin width address thread_id captured is_return rules context
      else case rule_write pin rule context of
             (status, context) \<Rightarrow>
               (case apply_rules_from pin width address thread_id captured is_return rules context of
                  (writes, context) \<Rightarrow> (if status = PB_OK then Suc writes else writes, context)))"

definition apply_rules ::
  "'c pin_calls \<Rightarrow> u32 \<Rightarrow> hook_rules \<Rightarrow> u64 \<Rightarrow> u32 \<Rightarrow> 'c option \<Rightarrow> u64 list \<Rightarrow> bool \<Rightarrow> nat \<times> 'c option" where
  "apply_rules pin width s address thread_id context captured is_return =
     (if rl_count s = 0 then (0, context)
      else case (rl_snapshot s, context) of
             (Some rules, Some c) \<Rightarrow>
               (let index = partition_point (\<lambda>item. hr_address item < address) rules
                in case apply_rules_from pin width address thread_id captured is_return (drop index rules) c of
                     (writes, c) \<Rightarrow> (writes, Some c))
           | _ \<Rightarrow> (0, context))"

subsection \<open>The replay guard\<close>

record replay_guard =
  rg_key :: int
  rg_slot :: "u32 \<Rightarrow> u64"
  rg_count :: u64

definition replay_init :: "u32 \<Rightarrow> int \<Rightarrow> replay_guard \<Rightarrow> u32 \<times> replay_guard" where
  "replay_init status key s = (status, if status = PB_OK then s\<lparr>rg_key := key\<rparr> else s)"

definition guard_encoding :: "u64 \<Rightarrow> u64" where
  "guard_encoding address = (case checked_add address 1 of Some w \<Rightarrow> w | None \<Rightarrow> address)"

text \<open>\<open>write_ok\<close>: \<open>pb_pin_set_thread_data\<close> returned \<open>PB_OK\<close> and reported the value as set.\<close>

definition set_replay_guard :: "bool \<Rightarrow> u32 \<Rightarrow> u64 \<Rightarrow> replay_guard \<Rightarrow> bool \<times> replay_guard" where
  "set_replay_guard write_ok thread_id address s =
     (if rg_key s = PB_INVALID_TLS_KEY then (False, s)
      else if write_ok
      then (True, s\<lparr>rg_slot := (rg_slot s)(thread_id := guard_encoding address), rg_count := rg_count s + 1\<rparr>)
      else (False, s))"

definition take_replay_guard :: "u32 \<Rightarrow> bool \<Rightarrow> u32 \<Rightarrow> u64 \<Rightarrow> replay_guard \<Rightarrow> bool \<times> replay_guard" where
  "take_replay_guard status clear_ok thread_id address s =
     (if rg_count s = 0 then (False, s)
      else if rg_key s = PB_INVALID_TLS_KEY then (False, s)
      else if status \<noteq> PB_OK \<or> rg_slot s thread_id = 0 then (False, s)
      else if rg_slot s thread_id \<noteq> guard_encoding address then (False, s)
      else let s = (if clear_ok then s\<lparr>rg_slot := (rg_slot s)(thread_id := 0)\<rparr> else s)
           in (True, s\<lparr>rg_count := rg_count s - 1\<rparr>))"

definition clear_replay_guard :: "bool \<Rightarrow> u32 \<Rightarrow> replay_guard \<Rightarrow> replay_guard" where
  "clear_replay_guard clear_ok thread_id s =
     (if rg_key s \<noteq> PB_INVALID_TLS_KEY \<and> clear_ok
      then s\<lparr>rg_slot := (rg_slot s)(thread_id := 0), rg_count := rg_count s - 1\<rparr> else s)"

text \<open>\<open>execute\<close> is the status of \<open>pb_pin_execute_at\<close>, which only returns when it fails.\<close>

definition execute_modified_context ::
  "bool \<Rightarrow> u32 \<Rightarrow> bool \<Rightarrow> u32 \<Rightarrow> u64 \<Rightarrow> replay_guard \<Rightarrow> bool \<times> replay_guard" where
  "execute_modified_context write_ok execute clear_ok thread_id address s =
     (case set_replay_guard write_ok thread_id address s of
        (False, s) \<Rightarrow> (False, s)
      | (True, s) \<Rightarrow> if execute \<noteq> PB_OK then (False, clear_replay_guard clear_ok thread_id s) else (True, s))"

subsection \<open>Function frames\<close>

record call_frame =
  cf_function :: u64
  cf_stack :: u64

record call_state =
  cs_frames :: "call_frame list"
  cs_depth :: nat

definition call_state_new :: call_state where
  "call_state_new = \<lparr>cs_frames = replicate MAX_FUNCTION_CALL_DEPTH \<lparr>cf_function = 0, cf_stack = 0\<rparr>, cs_depth = 0\<rparr>"

type_synonym call_states = "nat \<Rightarrow> call_state"

definition on_call_state :: "u32 \<Rightarrow> (call_state \<Rightarrow> 'a \<times> call_state) \<Rightarrow> 'a \<Rightarrow> call_states \<Rightarrow> 'a \<times> call_states" where
  "on_call_state thread_id f missing s =
     (let index = unat thread_id
      in if index \<ge> MAX_PIN_THREADS then (missing, s)
         else case f (s index) of (result, state) \<Rightarrow> (result, s(index := state)))"

definition thread_start :: "u32 \<Rightarrow> call_states \<Rightarrow> call_states" where
  "thread_start thread_id s = snd (on_call_state thread_id (\<lambda>_. ((), call_state_new)) () s)"

definition thread_fini :: "u32 \<Rightarrow> call_states \<Rightarrow> call_states" where
  "thread_fini thread_id s = snd (on_call_state thread_id (\<lambda>_. ((), call_state_new)) () s)"

function unwind :: "u64 \<Rightarrow> call_state \<Rightarrow> call_state" where
  "unwind stack_pointer state =
     (if cs_depth state > 0 \<and> cf_stack (cs_frames state ! (cs_depth state - 1)) \<le> stack_pointer
      then unwind stack_pointer (state\<lparr>cs_depth := cs_depth state - 1\<rparr>)
      else state)"
  by pat_completeness auto
termination by (relation "measure (\<lambda>(_, state). cs_depth state)") auto

declare unwind.simps [simp del]

definition push_frame :: "u64 \<Rightarrow> u64 \<Rightarrow> call_state \<Rightarrow> call_state" where
  "push_frame stack_pointer function_address state =
     (let state = unwind stack_pointer state
      in if cs_depth state = MAX_FUNCTION_CALL_DEPTH then state
         else state\<lparr>cs_frames := (cs_frames state)[cs_depth state :=
                      \<lparr>cf_function = function_address, cf_stack = stack_pointer\<rparr>],
                    cs_depth := cs_depth state + 1\<rparr>)"

definition pop_frame :: "u64 \<Rightarrow> u64 \<Rightarrow> call_state \<Rightarrow> bool \<times> call_state" where
  "pop_frame stack_pointer function_address state =
     (if cs_depth state = 0 then (False, state)
      else let frame = cs_frames state ! (cs_depth state - 1)
           in if cf_function frame \<noteq> function_address \<or> cf_stack frame \<noteq> stack_pointer then (False, state)
              else (True, state\<lparr>cs_depth := cs_depth state - 1\<rparr>))"

definition track_function_entry_stack :: "u32 \<Rightarrow> u64 \<Rightarrow> u64 \<Rightarrow> call_states \<Rightarrow> call_states" where
  "track_function_entry_stack thread_id stack_pointer function_address s =
     snd (on_call_state thread_id (\<lambda>state. ((), push_frame stack_pointer function_address state)) () s)"

definition take_function_return_stack :: "u32 \<Rightarrow> u64 \<Rightarrow> u64 \<Rightarrow> call_states \<Rightarrow> bool \<times> call_states" where
  "take_function_return_stack thread_id stack_pointer function_address s =
     on_call_state thread_id (pop_frame stack_pointer function_address) False s"

definition context_stack_pointer :: "'c pin_calls \<Rightarrow> u32 \<Rightarrow> 'c \<Rightarrow> u64 option" where
  "context_stack_pointer pin width context =
     (case pin_get_reg pin context (stack_ptr_reg width) of
        (status, value) \<Rightarrow> if status = PB_OK then Some value else None)"

definition track_function_entry :: "'c pin_calls \<Rightarrow> u32 \<Rightarrow> u32 \<Rightarrow> 'c \<Rightarrow> u64 \<Rightarrow> call_states \<Rightarrow> call_states" where
  "track_function_entry pin width thread_id context function_address s =
     (case context_stack_pointer pin width context of
        None \<Rightarrow> s
      | Some stack_pointer \<Rightarrow> track_function_entry_stack thread_id stack_pointer function_address s)"

definition take_function_return ::
  "'c pin_calls \<Rightarrow> u32 \<Rightarrow> u32 \<Rightarrow> 'c \<Rightarrow> u64 \<Rightarrow> call_states \<Rightarrow> bool \<times> call_states" where
  "take_function_return pin width thread_id context function_address s =
     (case context_stack_pointer pin width context of
        None \<Rightarrow> (False, s)
      | Some stack_pointer \<Rightarrow> take_function_return_stack thread_id stack_pointer function_address s)"

definition cancel_function_entry :: "u32 \<Rightarrow> u64 \<Rightarrow> call_states \<Rightarrow> call_states" where
  "cancel_function_entry thread_id function_address s =
     snd (on_call_state thread_id (\<lambda>state.
       if cs_depth state \<noteq> 0 \<and> cf_function (cs_frames state ! (cs_depth state - 1)) = function_address
       then ((), state\<lparr>cs_depth := cs_depth state - 1\<rparr>) else ((), state)) () s)"

end
