(* ===== verification/Pb_Hook_Actions.thy ===== *)
theory Pb_Hook_Actions
  imports Pb_Hook_Rules
begin

section \<open>Rules and function frames do what was asked\<close>

text \<open>
  Lemmas and properties of \<open>Pb_Hook_Rules\<close>: the frames of a thread as a stack of live calls, runs of
  entries and returns, and the rules of an address against applying every stored rule in turn.
\<close>

subsection \<open>Function frames\<close>

text \<open>The live frames, innermost first.\<close>

definition live_frames :: "call_state \<Rightarrow> (u64 \<times> u64) list" where
  "live_frames state = rev (map (\<lambda>f. (cf_function f, cf_stack f)) (take (cs_depth state) (cs_frames state)))"

definition call_state_ok :: "call_state \<Rightarrow> bool" where
  "call_state_ok state \<longleftrightarrow> length (cs_frames state) = MAX_FUNCTION_CALL_DEPTH \<and> cs_depth state \<le> MAX_FUNCTION_CALL_DEPTH"

fun drop_unwound :: "u64 \<Rightarrow> (u64 \<times> u64) list \<Rightarrow> (u64 \<times> u64) list" where
  "drop_unwound sp [] = []"
| "drop_unwound sp ((f, s) # frames) = (if s \<le> sp then drop_unwound sp frames else (f, s) # frames)"

definition spec_entry :: "u64 \<Rightarrow> u64 \<Rightarrow> (u64 \<times> u64) list \<Rightarrow> (u64 \<times> u64) list" where
  "spec_entry sp f frames = (let frames = drop_unwound sp frames
     in if length frames = MAX_FUNCTION_CALL_DEPTH then frames else (f, sp) # frames)"

definition spec_return :: "u64 \<Rightarrow> u64 \<Rightarrow> (u64 \<times> u64) list \<Rightarrow> bool \<times> (u64 \<times> u64) list" where
  "spec_return sp f frames = (case frames of [] \<Rightarrow> (False, []) | frame # rest \<Rightarrow> if frame = (f, sp) then (True, rest) else (False, frames))"

lemma live_frames_length: "call_state_ok st \<Longrightarrow> length (live_frames st) = cs_depth st"
  by (simp add: live_frames_def call_state_ok_def)

lemma live_frames_top:
  assumes "call_state_ok st" "cs_depth st = Suc n"
  shows "live_frames st = (cf_function (cs_frames st ! n), cf_stack (cs_frames st ! n))
     # live_frames (st\<lparr>cs_depth := n\<rparr>)"
  using assms by (simp add: live_frames_def call_state_ok_def take_Suc_conv_app_nth)

lemma live_frames_0: "cs_depth st = 0 \<Longrightarrow> live_frames st = []"
  by (simp add: live_frames_def)

lemma unwind_refines:
  "call_state_ok st \<Longrightarrow> call_state_ok (unwind sp st) \<and> live_frames (unwind sp st) = drop_unwound sp (live_frames st)"
proof (induction sp st rule: unwind.induct)
  case (1 sp st)
  show ?case
  proof (cases "cs_depth st")
    case 0
    then show ?thesis using 1(2) by (simp add: unwind.simps live_frames_0)
  next
    case (Suc n)
    note top = live_frames_top [OF 1(2) Suc]
    have ok: "call_state_ok (st\<lparr>cs_depth := n\<rparr>)" using 1(2) Suc by (simp add: call_state_ok_def)
    show ?thesis
      using 1(1) ok 1(2) Suc by (subst (1 2) unwind.simps) (simp add: top)
  qed
qed

lemma push_refines:
  assumes "call_state_ok st"
  shows "call_state_ok (push_frame sp f st) \<and> live_frames (push_frame sp f st) = spec_entry sp f (live_frames st)"
proof -
  let ?u = "unwind sp st"
  have u: "call_state_ok ?u" "live_frames ?u = drop_unwound sp (live_frames st)"
    using unwind_refines [OF assms] by auto
  have len: "length (drop_unwound sp (live_frames st)) = cs_depth ?u"
    using u live_frames_length by metis
  show ?thesis
  proof (cases "cs_depth ?u = MAX_FUNCTION_CALL_DEPTH")
    case True
    then show ?thesis using u len by (simp add: push_frame_def spec_entry_def Let_def)
  next
    case False
    then have "cs_depth ?u < length (cs_frames ?u)" using u by (simp add: call_state_ok_def)
    then have "live_frames (?u\<lparr>cs_frames := (cs_frames ?u)[cs_depth ?u := \<lparr>cf_function = f, cf_stack = sp\<rparr>],
        cs_depth := cs_depth ?u + 1\<rparr>) = (f, sp) # live_frames ?u"
      by (simp add: live_frames_def take_Suc_conv_app_nth)
    then show ?thesis using u len False
      by (simp add: push_frame_def spec_entry_def Let_def call_state_ok_def)
  qed
qed

lemma pop_refines:
  assumes "call_state_ok st"
  shows "call_state_ok (snd (pop_frame sp f st))
    \<and> (fst (pop_frame sp f st), live_frames (snd (pop_frame sp f st))) = spec_return sp f (live_frames st)"
proof (cases "cs_depth st")
  case 0
  then show ?thesis using assms by (simp add: pop_frame_def spec_return_def live_frames_0)
next
  case (Suc n)
  show ?thesis using assms live_frames_top [OF assms Suc] Suc
    by (auto simp: pop_frame_def spec_return_def Let_def call_state_ok_def)
qed

subsection \<open>Runs of one thread\<close>

datatype call_event = Enter u64 u64 | Leave u64 u64

fun call_run :: "u32 \<Rightarrow> call_event list \<Rightarrow> call_states \<Rightarrow> bool list \<times> call_states" where
  "call_run t [] s = ([], s)"
| "call_run t (Enter f sp # es) s = call_run t es (track_function_entry_stack t sp f s)"
| "call_run t (Leave f sp # es) s =
     (case take_function_return_stack t sp f s of
        (taken, s) \<Rightarrow> (case call_run t es s of (rs, s) \<Rightarrow> (taken # rs, s)))"

fun spec_run :: "call_event list \<Rightarrow> (u64 \<times> u64) list \<Rightarrow> bool list \<times> (u64 \<times> u64) list" where
  "spec_run [] fs = ([], fs)"
| "spec_run (Enter f sp # es) fs = spec_run es (spec_entry sp f fs)"
| "spec_run (Leave f sp # es) fs =
     (case spec_return sp f fs of (taken, fs) \<Rightarrow> (case spec_run es fs of (rs, fs) \<Rightarrow> (taken # rs, fs)))"

lemma call_run_refines:
  assumes "unat t < MAX_PIN_THREADS" "call_state_ok (s (unat t))"
  shows "fst (call_run t es s) = fst (spec_run es (live_frames (s (unat t))))"
  using assms(2)
proof (induction es arbitrary: s)
  case (Cons e es)
  show ?case
  proof (cases e)
    case (Enter f sp)
    show ?thesis
    proof -
      have "track_function_entry_stack t sp f s (unat t) = push_frame sp f (s (unat t))"
        using assms(1) by (simp add: track_function_entry_stack_def on_call_state_def Let_def)
      then show ?thesis
        using Cons.IH [of "track_function_entry_stack t sp f s"] push_refines [OF Cons.prems, of sp f]
        by (simp add: Enter)
    qed
  next
    case (Leave f sp)
    obtain b s1 where r: "take_function_return_stack t sp f s = (b, s1)" by fastforce
    have b: "b = fst (pop_frame sp f (s (unat t)))" "s1 (unat t) = snd (pop_frame sp f (s (unat t)))"
      using r assms(1) by (auto simp: take_function_return_stack_def on_call_state_def Let_def split: prod.splits)
    show ?thesis
      using Cons.IH [of s1] pop_refines [OF Cons.prems, of sp f] b
      by (auto simp: Leave r split: prod.splits)
  qed
qed simp

text \<open>Nested calls: each selected function is entered below the stack pointer of its caller.\<close>

datatype call = Call u64 u64 "call list"

fun call_events :: "call \<Rightarrow> call_event list" where
  "call_events (Call f sp nested) = Enter f sp # concat (map call_events nested) @ [Leave f sp]"

fun below :: "u64 \<Rightarrow> call \<Rightarrow> bool" where
  "below limit (Call f sp nested) \<longleftrightarrow> sp < limit \<and> (\<forall>c \<in> set nested. below sp c)"

text \<open>What the returns should answer, in order: a frame was free when the function was entered.\<close>

fun expected_returns :: "nat \<Rightarrow> call \<Rightarrow> bool list" where
  "expected_returns depth (Call f sp nested) =
     concat (map (expected_returns (min (Suc depth) MAX_FUNCTION_CALL_DEPTH)) nested) @ [depth < MAX_FUNCTION_CALL_DEPTH]"


lemma drop_unwound_none: "\<forall>(g, s) \<in> set fs. sp < s \<Longrightarrow> drop_unwound sp fs = fs"
  by (cases fs) auto

lemma spec_run_append:
  "spec_run (a @ b) fs = (fst (spec_run a fs) @ fst (spec_run b (snd (spec_run a fs))), snd (spec_run b (snd (spec_run a fs))))"
proof (induction a arbitrary: fs)
  case (Cons e a)
  then show ?case by (cases e) (auto split: prod.splits)
qed simp

lemma spec_run_nested:
  "below limit c \<Longrightarrow> \<forall>(g, s) \<in> set fs. limit \<le> s \<Longrightarrow> length fs \<le> MAX_FUNCTION_CALL_DEPTH
    \<Longrightarrow> spec_run (call_events c) fs = (expected_returns (length fs) c, fs)"
proof (induction c arbitrary: limit fs)
  case (Call f sp nested)
  have above: "\<forall>(g, s) \<in> set fs. sp < s" using Call.prems by fastforce
  note keep = drop_unwound_none [OF above]
  have seq: "spec_run (concat (map call_events cs)) gs = (concat (map (expected_returns (length gs)) cs), gs)"
    if "set cs \<subseteq> set nested" "\<forall>(g, s) \<in> set gs. sp \<le> s" "length gs \<le> MAX_FUNCTION_CALL_DEPTH" for cs gs
    using that
  proof (induction cs)
    case (Cons d cs)
    then have "spec_run (call_events d) gs = (expected_returns (length gs) d, gs)"
      using Call.IH [of d sp gs] Call.prems(1) by auto
    then show ?case using Cons by (simp add: spec_run_append)
  qed simp
  show ?case
  proof (cases "length fs = MAX_FUNCTION_CALL_DEPTH")
    case True
    then obtain g s rest where fs: "fs = (g, s) # rest" by (cases fs) (auto simp: MAX_FUNCTION_CALL_DEPTH_def)
    have ge: "\<forall>(g, s) \<in> set fs. sp \<le> s" using above by (auto intro: less_imp_le)
    have "(g, s) \<noteq> (f, sp)" using above fs by auto
    then have leave: "spec_return sp f fs = (False, fs)" by (simp add: spec_return_def fs)
    have "spec_run (Enter f sp # concat (map call_events nested) @ [Leave f sp]) fs
        = spec_run (concat (map call_events nested) @ [Leave f sp]) fs"
      using keep True by (simp add: spec_entry_def)
    also have "\<dots> = (concat (map (expected_returns (length fs)) nested) @ [False], fs)"
      using seq [of nested fs] ge True leave by (simp add: spec_run_append)
    finally show ?thesis using True by simp
  next
    case False
    let ?gs = "(f, sp) # fs"
    have len: "length ?gs \<le> MAX_FUNCTION_CALL_DEPTH" using False Call.prems(3) by simp
    have ge: "\<forall>(g, s) \<in> set ?gs. sp \<le> s" using above by (auto intro: less_imp_le)
    have "spec_run (Enter f sp # concat (map call_events nested) @ [Leave f sp]) fs
        = spec_run (concat (map call_events nested) @ [Leave f sp]) ?gs"
      using keep False by (simp add: spec_entry_def)
    also have "\<dots> = (concat (map (expected_returns (length ?gs)) nested) @ [True], fs)"
      using seq [of nested ?gs] ge len by (simp add: spec_run_append spec_return_def)
    finally show ?thesis using False len Call.prems(3) by (simp add: min_absorb1)
  qed
qed

lemma call_state_new_ok: "call_state_ok call_state_new" "live_frames call_state_new = []"
  by (simp_all add: call_state_ok_def call_state_new_def live_frames_def)

lemma thread_start_state: "unat t < MAX_PIN_THREADS \<Longrightarrow> thread_start t s (unat t) = call_state_new"
  by (simp add: thread_start_def on_call_state_def Let_def)

text \<open>
  C19. Entries and returns pair up through any depth of nesting: in a well-nested run of selected
  calls of one thread, where each call's stack pointer lies below its caller's, a return is reported
  for exactly the calls entered while fewer than 64 frames were live, recursion included.
\<close>

theorem nested_returns_exact:
  assumes "unat t < MAX_PIN_THREADS" and "\<forall>c \<in> set calls. below limit c"
  shows "fst (call_run t (concat (map call_events calls)) (thread_start t s)) =
    concat (map (expected_returns 0) calls)"
proof -
  have "spec_run (concat (map call_events calls)) [] = (concat (map (expected_returns 0) calls), [])"
    using assms(2) by (induction calls) (auto simp: spec_run_append spec_run_nested)
  then show ?thesis
    using call_run_refines [OF assms(1), of "thread_start t s"] assms(1)
    by (simp add: thread_start_state call_state_new_ok)
qed

lemma nested_returns_exact_witness:
  "fst (call_run 3 [Enter 4096 1000, Enter 8192 900, Enter 8192 800, Leave 8192 800, Leave 8192 900, Leave 4096 1000]
     (thread_start 3 (\<lambda>_. call_state_new))) = [True, True, True]"
proof -
  let ?c = "Call 4096 1000 [Call 8192 900 [Call 8192 800 []]]"
  have "fst (call_run 3 (concat (map call_events [?c])) (thread_start 3 (\<lambda>_. call_state_new)))
      = concat (map (expected_returns 0) [?c])"
    by (rule nested_returns_exact [where limit = 2000]) (simp_all add: MAX_PIN_THREADS_def)
  then show ?thesis by (simp add: MAX_FUNCTION_CALL_DEPTH_def)
qed

fun entries :: "call_event list \<Rightarrow> (u64 \<times> u64) list" where
  "entries [] = []"
| "entries (Enter f sp # es) = (f, sp) # entries es"
| "entries (Leave f sp # es) = entries es"

fun reported :: "call_event list \<Rightarrow> bool list \<Rightarrow> (u64 \<times> u64) list" where
  "reported (Enter f sp # es) rs = reported es rs"
| "reported (Leave f sp # es) (r # rs) = (if r then (f, sp) # reported es rs else reported es rs)"
| "reported _ _ = []"

lemma drop_unwound_count: "count_list (drop_unwound sp fs) x \<le> count_list fs x"
  by (induction sp fs rule: drop_unwound.induct) (auto intro: le_SucI)

lemma spec_entry_count: "count_list (spec_entry sp f fs) x \<le> count_list ((f, sp) # fs) x"
  using drop_unwound_count [of sp fs x] by (auto simp: spec_entry_def Let_def intro: le_SucI)

lemma spec_run_safe:
  "count_list (reported es (fst (spec_run es fs))) x \<le> count_list fs x + count_list (entries es) x"
proof (induction es arbitrary: fs)
  case (Cons e es)
  show ?case
  proof (cases e)
    case (Enter f sp)
    then show ?thesis
      using Cons [of "spec_entry sp f fs"] spec_entry_count [of sp f fs x] by (auto split: if_splits)
  next
    case (Leave f sp)
    then show ?thesis
    proof -
      let ?gs = "snd (spec_return sp f fs)"
      have "count_list ?gs x + (if fst (spec_return sp f fs) \<and> (f, sp) = x then 1 else 0) = count_list fs x"
        by (cases fs) (auto simp: spec_return_def)
      then show ?thesis
        using Cons [of ?gs] by (auto simp: Leave split_beta split: if_splits)
    qed
  qed
qed simp

text \<open>
  C20. No false return: in any sequence of entries and returns of a thread, exceptions, long jumps and
  tail calls included, a function is reported to return from a stack level at most as often as it was
  entered there.
\<close>

theorem returns_never_invented:
  assumes "unat t < MAX_PIN_THREADS"
  shows "count_list (reported es (fst (call_run t es (thread_start t s)))) (f, sp)
    \<le> count_list (entries es) (f, sp)"
  using call_run_refines [OF assms, of "thread_start t s" es] spec_run_safe [of es "[]" "(f, sp)"] assms
  by (simp add: thread_start_state call_state_new_ok)

lemma returns_never_invented_witness:
  "count_list (reported [Enter 4096 1000, Enter 8192 900, Enter 4096 1000, Leave 8192 900]
     (fst (call_run 3 [Enter 4096 1000, Enter 8192 900, Enter 4096 1000, Leave 8192 900]
       (thread_start 3 (\<lambda>_. call_state_new))))) (8192, 900) \<le> 1"
  using returns_never_invented [of 3 "[Enter 4096 1000, Enter 8192 900, Enter 4096 1000, Leave 8192 900]" "\<lambda>_. call_state_new" 8192 900]
  by (simp add: MAX_PIN_THREADS_def)

subsection \<open>Rules\<close>

definition rules_ok :: "hook_rules \<Rightarrow> bool" where
  "rules_ok s \<longleftrightarrow> sorted (map hr_address (rl_master s)) \<and> distinct (rl_master s)
     \<and> (\<forall>a \<in> set (rl_master s). \<forall>b \<in> set (rl_master s). same_rule a b \<longrightarrow> a = b)
     \<and> length (rl_master s) \<le> MAX_HOOK_RULES \<and> rl_count s = length (rl_master s)
     \<and> (case rl_snapshot s of None \<Rightarrow> rl_master s = [] | Some rules \<Rightarrow> rules = rl_master s)"

text \<open>What the code relies on of \<open>sort_unstable_by_key\<close>: a permutation, sorted by the key.\<close>

definition sorts_by_address :: "(hook_rule list \<Rightarrow> hook_rule list) \<Rightarrow> bool" where
  "sorts_by_address resort \<longleftrightarrow> (\<forall>xs. sorted (map hr_address (resort xs)) \<and> set (resort xs) = set xs
     \<and> length (resort xs) = length xs)"

lemma resort_distinct: "sorts_by_address resort \<Longrightarrow> distinct xs \<Longrightarrow> distinct (resort xs)"
  by (metis card_distinct distinct_card sorts_by_address_def)

lemma rules_ok_new: "rules_ok hook_rules_new"
  by (simp add: rules_ok_def hook_rules_new_def)

lemma same_rule_sym: "same_rule a b = same_rule b a"
  by (auto simp: same_rule_def)

lemma set_rule_ok:
  assumes ok: "rules_ok s" and sort: "sorts_by_address resort" and set: "set_rule resort rule s = (r, s', flushed)"
  shows "rules_ok s' \<and> (if r then set (rl_master s') = insert rule {q \<in> set (rl_master s). \<not> same_rule rule q}
      \<and> flushed = (if \<exists>q \<in> set (rl_master s). hr_address q = hr_address rule then [] else refresh_instrumentation [hr_address rule])
    else s' = s \<and> flushed = [])"
proof -
  let ?rs = "rl_master s"
  have uniq: "\<And>a b. a \<in> set ?rs \<Longrightarrow> b \<in> set ?rs \<Longrightarrow> same_rule a b \<Longrightarrow> a = b" and d: "distinct ?rs"
    and len: "length ?rs \<le> MAX_HOOK_RULES" using ok by (auto simp: rules_ok_def)
  have publish: "rules_ok (publish_rules (resort xs) (s\<lparr>rl_master := resort xs\<rparr>))"
    if "distinct xs" "length xs \<le> MAX_HOOK_RULES" "\<forall>a \<in> set xs. \<forall>b \<in> set xs. same_rule a b \<longrightarrow> a = b" for xs
    using that sort resort_distinct [OF sort that(1)] by (simp add: rules_ok_def publish_rules_def sorts_by_address_def)
  have trans: "same_rule a c" if "same_rule a b" "same_rule b c" for a b c
    using that by (simp add: same_rule_def)
  let ?find = "List.find (\<lambda>i. same_rule rule (?rs ! i)) [0..<length ?rs]"
  show ?thesis
  proof (cases "r")
    case False
    then show ?thesis using set ok by (auto simp: set_rule_def Let_def split: if_splits option.splits)
  next
    case True
    have fl: "flushed = (if \<exists>q \<in> set ?rs. hr_address q = hr_address rule then [] else refresh_instrumentation [hr_address rule])"
      using set True by (auto simp: set_rule_def Let_def list_ex_iff split: if_splits option.splits)
    show ?thesis
    proof (cases ?find)
      case None
      then have none: "\<forall>q \<in> set ?rs. \<not> same_rule rule q" by (auto simp: find_index_None in_set_conv_nth)
      have s': "s' = publish_rules (resort (?rs @ [rule])) (s\<lparr>rl_master := resort (?rs @ [rule])\<rparr>)"
        and room: "length ?rs < MAX_HOOK_RULES"
        using set True None by (auto simp: set_rule_def Let_def split: if_splits)
      have notin: "rule \<notin> set ?rs" using none by (auto simp: same_rule_def)
      have "rules_ok s'"
        unfolding s' by (rule publish) (use d room notin none uniq same_rule_sym in auto)
      moreover have "set (rl_master s') = insert rule {q \<in> set ?rs. \<not> same_rule rule q}"
        using none sort by (auto simp: s' publish_rules_def sorts_by_address_def)
      ultimately show ?thesis using True fl by simp
    next
      case (Some i)
      then have i: "i < length ?rs" "same_rule rule (?rs ! i)" by (auto dest: find_index_Some)
      have new: "(?rs ! i)\<lparr>hr_set_value := hr_set_value rule\<rparr> = rule"
        using i(2) by (simp add: same_rule_def)
      have s': "s' = publish_rules (resort (?rs[i := rule])) (s\<lparr>rl_master := resort (?rs[i := rule])\<rparr>)"
        using set True Some new by (auto simp: set_rule_def Let_def split: if_splits)
      have other: "\<not> same_rule rule q" if "q \<in> set ?rs" "q \<noteq> ?rs ! i" for q
        using that i uniq trans same_rule_sym by (metis nth_mem)
      have self: "same_rule a a" for a by (simp add: same_rule_def)
      have upd: "set (?rs[i := rule]) = insert rule (set ?rs - {?rs ! i})"
        by (rule set_update_distinct [OF d i(1)])
      have eq: "set ?rs - {?rs ! i} = {q \<in> set ?rs. \<not> same_rule rule q}"
        using other i by auto
      have "distinct (?rs[i := rule])"
        using d i other self by (intro distinct_list_update) auto
      moreover have "\<forall>a \<in> set (?rs[i := rule]). \<forall>b \<in> set (?rs[i := rule]). same_rule a b \<longrightarrow> a = b"
        unfolding upd eq using uniq same_rule_sym by auto
      ultimately have "rules_ok s'" unfolding s' using len by (intro publish) auto
      moreover have "set (rl_master s') = insert rule {q \<in> set ?rs. \<not> same_rule rule q}"
        using sort unfolding eq [symmetric] upd [symmetric] by (simp add: s' publish_rules_def sorts_by_address_def)
      ultimately show ?thesis using True fl by simp
    qed
  qed
qed

text \<open>The reference: every rule of the address, in table order, each on the context the last left.\<close>

definition rule_step ::
  "'c pin_calls \<Rightarrow> u32 \<Rightarrow> u32 \<Rightarrow> u64 list \<Rightarrow> bool \<Rightarrow> hook_rule \<Rightarrow> nat \<times> 'c \<Rightarrow> nat \<times> 'c" where
  "rule_step pin width thread_id captured is_return rule st =
     (case st of (writes, c) \<Rightarrow>
        if rule_applies pin width thread_id c captured is_return rule
        then (case rule_write pin rule c of (status, c) \<Rightarrow> (writes + of_bool (status = PB_OK), c))
        else (writes, c))"

lemma apply_rules_from_fold:
  "sorted (map hr_address rs) \<Longrightarrow> \<forall>q \<in> set rs. a \<le> hr_address q \<Longrightarrow>
    fold (rule_step pin width t captured ret) (filter (\<lambda>q. hr_address q = a) rs) (n, c)
    = (case apply_rules_from pin width a t captured ret rs c of (writes, c) \<Rightarrow> (n + writes, c))"
proof (induction rs arbitrary: n c)
  case (Cons q rs)
  show ?case
  proof (cases "hr_address q = a")
    case False
    then have "a < hr_address q" using Cons.prems(2) by auto
    then have "filter (\<lambda>q. hr_address q = a) (q # rs) = []"
      using Cons.prems(1) by (auto simp: filter_empty_conv)
    then show ?thesis using False by simp
  next
    case True
    then show ?thesis using Cons
      by (auto simp: rule_step_def split: prod.splits if_splits)
  qed
qed simp

lemma partition_filter:
  "sorted (map hr_address rs) \<Longrightarrow>
    filter (\<lambda>q. hr_address q = a) (drop (partition_point (\<lambda>q. hr_address q < a) rs) rs) = filter (\<lambda>q. hr_address q = a) rs
    \<and> (\<forall>q \<in> set (drop (partition_point (\<lambda>q. hr_address q < a) rs) rs). a \<le> hr_address q)"
proof (induction rs)
  case (Cons q rs)
  then show ?case by (auto simp: partition_point_def)
qed (simp add: partition_point_def)

lemma rule_interested_exact:
  assumes ok: "rules_ok s"
  shows "rule_interested s a \<longleftrightarrow> (\<exists>q \<in> set (rl_master s). hr_address q = a)"
proof -
  let ?rs = "rl_master s"
  let ?d = "drop (partition_point (\<lambda>q. hr_address q < a) ?rs) ?rs"
  have sorted: "sorted (map hr_address ?rs)" using ok by (simp add: rules_ok_def)
  note part = partition_filter [OF sorted, of a]
  have "rule_interested s a \<longleftrightarrow> ?d \<noteq> [] \<and> hr_address (hd ?d) = a"
    using ok by (auto simp: rule_interested_def rules_ok_def hd_drop_conv_nth partition_point_def Let_def
        split: option.splits)
  also have "\<dots> \<longleftrightarrow> filter (\<lambda>q. hr_address q = a) ?d \<noteq> []"
  proof (cases ?d)
    case (Cons q qs)
    have "sorted (map hr_address ?d)" using sorted by (simp add: sorted_wrt_drop drop_map [symmetric])
    then have "\<forall>p \<in> set qs. hr_address q \<le> hr_address p" unfolding Cons by simp
    moreover have "a \<le> hr_address q" using part unfolding Cons by simp
    ultimately show ?thesis unfolding Cons by (auto simp: filter_empty_conv intro: order_antisym)
  qed simp
  also have "\<dots> \<longleftrightarrow> (\<exists>q \<in> set ?rs. hr_address q = a)"
    using part by (simp add: filter_empty_conv)
  finally show ?thesis .
qed

lemma apply_rules_exact:
  assumes ok: "rules_ok s"
  shows "apply_rules pin width s a t (Some c) captured ret =
        map_prod id Some (fold (rule_step pin width t captured ret) (filter (\<lambda>q. hr_address q = a) (rl_master s)) (0, c))"
proof -
  let ?rs = "rl_master s"
  let ?d = "drop (partition_point (\<lambda>q. hr_address q < a) ?rs) ?rs"
  have sorted: "sorted (map hr_address ?rs)" using ok by (simp add: rules_ok_def)
  note part = partition_filter [OF sorted, of a]
  have "sorted (map hr_address ?d)" using sorted by (simp add: sorted_wrt_drop drop_map [symmetric])
  then have "fold (rule_step pin width t captured ret) (filter (\<lambda>q. hr_address q = a) ?rs) (0, c)
      = apply_rules_from pin width a t captured ret ?d c"
    using apply_rules_from_fold [of ?d a pin width t captured ret 0 c] part by (simp split: prod.splits)
  moreover have "apply_rules pin width s a t (Some c) captured ret
      = map_prod id Some (apply_rules_from pin width a t captured ret ?d c)"
    using ok by (cases "?rs = []")
      (auto simp: apply_rules_def rules_ok_def Let_def partition_point_def split: option.splits prod.splits)
  ultimately show ?thesis by simp
qed

text \<open>
  C21. The rules of an address act as written: after any accepted rule is set, a hook applies to its
  context exactly the rules stored for its address, one after the other, each only where its thread,
  its operand and its kind of operand allow, and counts the writes Pin accepted; setting a rule that
  differs only in the value replaces it, any other is added, and the address is compiled again when
  it had no rule before.
\<close>

theorem rules_apply_exactly:
  assumes ok: "rules_ok s" and sort: "sorts_by_address resort"
    and set: "set_rule resort rule s = (accepted, s', flushed)"
  shows "rules_ok s'
    \<and> (accepted \<longrightarrow> set (rl_master s') = insert rule {q \<in> set (rl_master s). \<not> same_rule rule q})
    \<and> (\<not> accepted \<longrightarrow> s' = s)
    \<and> (accepted \<longrightarrow> flushed = (if rule_interested s (hr_address rule) then [] else refresh_instrumentation [hr_address rule]))
    \<and> (\<forall>a. rule_interested s' a \<longleftrightarrow> (\<exists>q \<in> set (rl_master s'). hr_address q = a))
    \<and> apply_rules pin width s' a t (Some c) captured ret =
        map_prod id Some (fold (rule_step pin width t captured ret) (filter (\<lambda>q. hr_address q = a) (rl_master s')) (0, c))"
proof -
  note step = set_rule_ok [OF ok sort set]
  have new: "rules_ok s'" using step by blast
  show ?thesis
    using step rule_interested_exact [OF ok] rule_interested_exact [OF new] apply_rules_exact [OF new]
    by auto
qed

lemma rules_apply_exactly_witness:
  "let rule = \<lparr>hr_address = 4096, hr_thread_id = ALL_THREADS, hr_match_reg = PB_REG_RCX, hr_match_mask = 255,
         hr_match_value = 7, hr_set_reg = PB_REG_RAX, hr_set_value = 1\<rparr>;
       s' = fst (snd (set_rule (sort_key hr_address) rule hook_rules_new))
   in rule_interested s' 4096 \<and> \<not> rule_interested s' 8192 \<and>
      apply_rules logging_pin 8 s' 4096 3 (Some []) [263, 0, 0, 0] False = (1, Some [Reg_write PB_REG_RAX 1])"
proof -
  let ?r = "\<lparr>hr_address = 4096, hr_thread_id = ALL_THREADS, hr_match_reg = PB_REG_RCX, hr_match_mask = 255,
         hr_match_value = 7, hr_set_reg = PB_REG_RAX, hr_set_value = 1\<rparr>"
  have sort: "sorts_by_address (sort_key hr_address)" by (simp add: sorts_by_address_def)
  obtain acc s' fl where set: "set_rule (sort_key hr_address) ?r hook_rules_new = (acc, s', fl)"
    by (metis prod_cases3)
  have s': "s' = publish_rules [?r] (hook_rules_new\<lparr>rl_master := [?r]\<rparr>)"
    using set by (simp add: set_rule_def hook_rules_new_def PB_REG_INVALID_def pb_reg_defs MAX_HOOK_RULES_def Let_def)
  have "rule_applies logging_pin 8 3 [] [263, 0, 0, 0] False ?r"
    by (simp add: rule_applies_def ALL_THREADS_def PB_REG_INVALID_def rule_operand_def position_def
        hook_arg_regs_def is_64_def upt_rec pb_reg_defs)
  moreover have "rule_write logging_pin ?r [] = (PB_OK, [Reg_write PB_REG_RAX 1])"
    by (simp add: rule_write_def stack_arg_index_def HOOK_STACK_ARG_BASE_def pb_reg_defs logging_pin_def)
  ultimately have "fold (rule_step logging_pin 8 3 [263, 0, 0, 0] False)
      (filter (\<lambda>q. hr_address q = 4096) (rl_master s')) (0, []) = (1, [Reg_write PB_REG_RAX 1])"
    by (simp add: s' publish_rules_def rule_step_def)
  with rules_apply_exactly [OF rules_ok_new sort set, where pin = logging_pin and width = 8 and a = 4096 and t = 3
      and c = "[]" and captured = "[263, 0, 0, 0]" and ret = False]
  have "apply_rules logging_pin 8 s' 4096 3 (Some []) [263, 0, 0, 0] False = (1, Some [Reg_write PB_REG_RAX 1])"
    and "rule_interested s' 4096" "\<not> rule_interested s' 8192"
    by (auto simp: s' publish_rules_def)
  then show ?thesis by (simp add: set Let_def)
qed
end
