(* ===== verification/Pb_Text.thy ===== *)
theory Pb_Text
  imports Pb_Prelude
begin

section \<open>Text\<close>

text \<open>
  The \<open>str\<close> methods the parsers use, on strings of ASCII characters: \<open>trim\<close>, \<open>to_ascii_lowercase\<close>,
  \<open>contains\<close>, \<open>find\<close>, \<open>split_whitespace\<close>, \<open>replace\<close>. Positions are byte positions, which on ASCII are
  character positions; Rust's \<open>trim\<close> also strips the white space of Unicode, which no string here has.
\<close>

definition char_code :: "char \<Rightarrow> nat" where "char_code c = of_char c"

definition is_space :: "char \<Rightarrow> bool" where
  "is_space c \<longleftrightarrow> char_code c = 32 \<or> (9 \<le> char_code c \<and> char_code c \<le> 13)"

definition is_upper :: "char \<Rightarrow> bool" where "is_upper c \<longleftrightarrow> 65 \<le> char_code c \<and> char_code c \<le> 90"
definition is_lower :: "char \<Rightarrow> bool" where "is_lower c \<longleftrightarrow> 97 \<le> char_code c \<and> char_code c \<le> 122"
definition is_digit :: "char \<Rightarrow> bool" where "is_digit c \<longleftrightarrow> 48 \<le> char_code c \<and> char_code c \<le> 57"

definition is_word_char :: "char \<Rightarrow> bool" where
  "is_word_char c \<longleftrightarrow> is_upper c \<or> is_lower c \<or> is_digit c \<or> c = CHR ''_''"

definition lower_char :: "char \<Rightarrow> char" where
  "lower_char c = (if is_upper c then char_of (char_code c + 32) else c)"

definition to_lower :: "string \<Rightarrow> string" where "to_lower s = map lower_char s"

definition trim_start :: "string \<Rightarrow> string" where "trim_start s = dropWhile is_space s"
definition trim_end :: "string \<Rightarrow> string" where "trim_end s = rev (dropWhile is_space (rev s))"
definition trim :: "string \<Rightarrow> string" where "trim s = trim_end (trim_start s)"

definition trim_end_matches :: "char \<Rightarrow> string \<Rightarrow> string" where
  "trim_end_matches c s = rev (dropWhile (\<lambda>d. d = c) (rev s))"

fun contains_text :: "string \<Rightarrow> string \<Rightarrow> bool" where
  "contains_text needle [] \<longleftrightarrow> needle = []"
| "contains_text needle (c # s) \<longleftrightarrow> take (length needle) (c # s) = needle \<or> contains_text needle s"

definition starts_with :: "string \<Rightarrow> string \<Rightarrow> bool" where
  "starts_with prefix s \<longleftrightarrow> take (length prefix) s = prefix"

definition strip_prefix :: "string \<Rightarrow> string \<Rightarrow> string option" where
  "strip_prefix prefix s = (if starts_with prefix s then Some (drop (length prefix) s) else None)"

fun find_text :: "string \<Rightarrow> string \<Rightarrow> nat option" where
  "find_text needle [] = (if needle = [] then Some 0 else None)"
| "find_text needle (c # s) =
     (if take (length needle) (c # s) = needle then Some 0 else map_option Suc (find_text needle s))"

definition find_char :: "char \<Rightarrow> string \<Rightarrow> nat option" where
  "find_char c s = List.find (\<lambda>i. s ! i = c) [0..<length s]"

definition rfind_char :: "char \<Rightarrow> string \<Rightarrow> nat option" where
  "rfind_char c s = List.find (\<lambda>i. s ! i = c) (rev [0..<length s])"

function split_whitespace :: "string \<Rightarrow> string list" where
  "split_whitespace s =
     (let s = dropWhile is_space s
      in if s = [] then []
         else takeWhile (\<lambda>c. \<not> is_space c) s # split_whitespace (dropWhile (\<lambda>c. \<not> is_space c) s))"
  by pat_completeness auto
termination
proof (relation "measure length", goal_cases)
  case (2 s s')
  then obtain c rest where s': "s' = c # rest" by (meson neq_Nil_conv)
  have "\<not> is_space c" using 2(1) s' by (metis hd_dropWhile list.distinct(1) list.sel(1))
  then have "length (dropWhile (\<lambda>c. \<not> is_space c) s') \<le> length rest"
    by (simp add: s' length_dropWhile_le)
  also have "length rest < length s'" by (simp add: s')
  also have "length s' \<le> length s" unfolding 2(1) by (rule length_dropWhile_le)
  finally show ?case by simp
qed simp

declare split_whitespace.simps [simp del]

definition split_first :: "char \<Rightarrow> string \<Rightarrow> string" where
  "split_first c s = takeWhile (\<lambda>d. d \<noteq> c) s"

fun join_with :: "string \<Rightarrow> string list \<Rightarrow> string" where
  "join_with sep [] = []"
| "join_with sep [s] = s"
| "join_with sep (s # t # rest) = s @ sep @ join_with sep (t # rest)"

function replace_text :: "string \<Rightarrow> string \<Rightarrow> string \<Rightarrow> string" where
  "replace_text needle new s =
     (case s of
        [] \<Rightarrow> []
      | c # rest \<Rightarrow>
          if needle \<noteq> [] \<and> take (length needle) s = needle
          then new @ replace_text needle new (drop (length needle) s)
          else c # replace_text needle new rest)"
  by pat_completeness auto
termination by (relation "measure (\<lambda>(_, _, s). length s)") auto

declare replace_text.simps [simp del]

definition digit_value :: "nat \<Rightarrow> char \<Rightarrow> nat option" where
  "digit_value base c =
     (let v = (if is_digit c then char_code c - 48
               else if is_lower c then char_code c - 87
               else if is_upper c then char_code c - 55 else base)
      in if v < base then Some v else None)"

fun parse_digits :: "nat \<Rightarrow> nat \<Rightarrow> string \<Rightarrow> nat option" where
  "parse_digits base acc [] = Some acc"
| "parse_digits base acc (c # s) =
     (case digit_value base c of None \<Rightarrow> None | Some v \<Rightarrow> parse_digits base (acc * base + v) s)"

text \<open>
  \<open>from_str_radix\<close> and \<open>str::parse\<close> of an unsigned type: an optional plus sign, at least one digit,
  and a value below the bound of the type.
\<close>

definition parse_unsigned :: "nat \<Rightarrow> nat \<Rightarrow> string \<Rightarrow> nat option" where
  "parse_unsigned base bound s =
     (let digits = (case s of c # rest \<Rightarrow> if c = CHR ''+'' then rest else s | [] \<Rightarrow> [])
      in if digits = [] then None
         else case parse_digits base 0 digits of
                None \<Rightarrow> None
              | Some n \<Rightarrow> if n < bound then Some n else None)"

definition digit_char :: "nat \<Rightarrow> char" where
  "digit_char d = char_of (if d < 10 then 48 + d else 87 + d)"

text \<open>The digits of \<open>Display\<close> and \<open>LowerHex\<close>.\<close>

function show_radix :: "nat \<Rightarrow> nat \<Rightarrow> string" where
  "show_radix base n =
     (if base < 2 \<or> n < base then [digit_char n] else show_radix base (n div base) @ [digit_char (n mod base)])"
  by pat_completeness auto
termination by (relation "measure snd") auto

declare show_radix.simps [simp del]

definition show_nat :: "nat \<Rightarrow> string" where "show_nat n = show_radix 10 n"
definition show_hex :: "nat \<Rightarrow> string" where "show_hex n = ''0x'' @ show_radix 16 n"

definition show_int :: "int \<Rightarrow> string" where
  "show_int i = (if i < 0 then ''-'' @ show_nat (nat (- i)) else show_nat (nat i))"

subsection \<open>JSON values\<close>

datatype json =
    JNull
  | JBool bool
  | JString string
  | JArray "json list"
  | JObject "(string \<times> json) list"

definition json_as_str :: "json \<Rightarrow> string option" where
  "json_as_str j = (case j of JString s \<Rightarrow> Some s | _ \<Rightarrow> None)"

definition json_option :: "json option \<Rightarrow> json" where
  "json_option j = (case j of None \<Rightarrow> JNull | Some v \<Rightarrow> v)"

subsection \<open>Printing and parsing numbers\<close>

lemma char_code_of: "n < 256 \<Longrightarrow> char_code (char_of n) = n"
  by (simp add: char_code_def)

lemma digit_value_char: "d < base \<Longrightarrow> base \<le> 36 \<Longrightarrow> digit_value base (digit_char d) = Some d"
  by (auto simp: digit_value_def digit_char_def is_digit_def is_lower_def is_upper_def char_code_of)

lemma parse_digits_append:
  "parse_digits base acc (s @ t) = (case parse_digits base acc s of None \<Rightarrow> None | Some n \<Rightarrow> parse_digits base n t)"
  by (induction s arbitrary: acc) (auto split: option.splits)

lemma parse_show_radix: "2 \<le> base \<Longrightarrow> base \<le> 36 \<Longrightarrow> parse_digits base 0 (show_radix base n) = Some n"
proof (induction base n rule: show_radix.induct)
  case (1 base n)
  show ?case
  proof (cases "n < base")
    case True
    then show ?thesis using 1(3) by (simp add: show_radix.simps [of base n] digit_value_char)
  next
    case False
    then have "parse_digits base 0 (show_radix base (n div base)) = Some (n div base)" using 1 by simp
    then show ?thesis using False 1(2,3)
      by (subst show_radix.simps) (simp add: parse_digits_append digit_value_char div_mult_mod_eq)
  qed
qed

lemma show_radix_first:
  "2 \<le> base \<Longrightarrow> base \<le> 36 \<Longrightarrow> \<exists>c s. show_radix base n = c # s \<and> c \<noteq> CHR ''+'' \<and> \<not> is_space c \<and> c \<noteq> CHR ''-''"
proof (induction base n rule: show_radix.induct)
  case (1 base n)
  have digit: "char_code (digit_char d) = (if d < 10 then 48 + d else 87 + d)" if "d < 36" for d
    using that by (auto simp: digit_char_def char_code_of)
  show ?case
  proof (cases "n < base")
    case True
    then have "char_code (digit_char n) = (if n < 10 then 48 + n else 87 + n)" using digit 1(3) by simp
    then have "digit_char n \<noteq> CHR ''+''" "\<not> is_space (digit_char n)" "digit_char n \<noteq> CHR ''-''"
      by (auto simp: is_space_def char_code_def split: if_splits)
    then show ?thesis using True by (simp add: show_radix.simps [of base n])
  next
    case False
    then obtain c s where "show_radix base (n div base) = c # s" "c \<noteq> CHR ''+''" "\<not> is_space c" "c \<noteq> CHR ''-''" using 1 by auto
    then show ?thesis using False 1(2) by (simp add: show_radix.simps [of base n])
  qed
qed

lemma parse_show_unsigned:
  assumes "2 \<le> base" "base \<le> 36" "n < bound"
  shows "parse_unsigned base bound (show_radix base n) = Some n"
proof -
  obtain c s where "show_radix base n = c # s" "c \<noteq> CHR ''+''" using show_radix_first [OF assms(1,2)] by blast
  then show ?thesis using parse_show_radix [OF assms(1,2), of n] assms(3)
    by (simp add: parse_unsigned_def Let_def)
qed

end
