(* ===== verification/Pb_Leases.thy ===== *)
theory Pb_Leases
  imports Pb_Text
begin

section \<open>Script subscriptions: stop decisions, selectors and leases (subscriptions.rs, decisions.rs)\<close>

text \<open>
  \<open>bindings/rust/pinbridge-agent/src/scripting/subscriptions.rs\<close> and \<open>decisions.rs\<close>: the merge of the
  actions several handlers ask for at one stop, the names of actions and of decision selectors, and
  the two lease tables that share a native breakpoint or hook point between plugins. All of it is
  script-thread data, so every operation is one step. The Python callback of a subscription is not
  modelled, only the data around it.
\<close>

subsection \<open>Stop actions\<close>

datatype stop_action = Stay | Resume | StepInto | StepOver

definition stop_action_name :: "stop_action \<Rightarrow> string" where
  "stop_action_name action =
     (case action of Stay \<Rightarrow> ''stay'' | Resume \<Rightarrow> ''resume'' | StepInto \<Rightarrow> ''step_into''
      | StepOver \<Rightarrow> ''step_over'')"

definition stop_action_from_name :: "string \<Rightarrow> stop_action option" where
  "stop_action_from_name name =
     (let word = to_lower (trim name)
      in if word \<in> {''stay'', ''stop''} then Some Stay
         else if word \<in> {''resume'', ''continue''} then Some Resume
         else if word \<in> {''step_into'', ''step'', ''into''} then Some StepInto
         else if word \<in> {''step_over'', ''over''} then Some StepOver
         else None)"

definition merge_action :: "stop_action option \<Rightarrow> stop_action \<Rightarrow> stop_action" where
  "merge_action current' new =
     (case current' of
        None \<Rightarrow> new
      | Some current \<Rightarrow>
          if current = new then current
          else if current = Stay \<or> new = Stay then Stay
          else if current = Resume then new
          else if new = Resume then current
          else Stay)"

text \<open>
  The decision of all handlers of one stop, as \<open>dispatch_bound_breakpoints\<close> of \<open>host.rs\<close> accumulates it:
  a breakpoint the debugger owns starts the merge at \<open>Stay\<close>.
\<close>

definition merge_all :: "bool \<Rightarrow> stop_action list \<Rightarrow> stop_action option" where
  "merge_all external actions =
     fold (\<lambda>action merged. Some (merge_action merged action)) actions (if external then Some Stay else None)"

subsection \<open>Decision selectors\<close>

datatype decision_selector =
    ChildFollow | HookEntry | HookReturn | SyscallEntry | SyscallExit | ExceptionHandle
  | DebuggerBreakpoint | DebuggerSingleStep | DebuggerAsyncBreak

definition PUBLIC_DECISION_NAMES :: "string list" where
  "PUBLIC_DECISION_NAMES = [''child.follow'', ''hook.entry'', ''hook.return'', ''syscall.entry'',
     ''syscall.exit'', ''exception.handle'', ''debugger.breakpoint'', ''debugger.single_step'',
     ''debugger.async_break'']"

definition decision_parse :: "string \<Rightarrow> decision_selector option" where
  "decision_parse name =
     (let word = to_lower (trim name)
      in if word \<in> {''child.follow'', ''child_follow'', ''follow_child''} then Some ChildFollow
         else if word \<in> {''hook.entry'', ''hook_entry''} then Some HookEntry
         else if word \<in> {''hook.return'', ''hook_return''} then Some HookReturn
         else if word \<in> {''syscall.entry'', ''syscall_entry''} then Some SyscallEntry
         else if word \<in> {''syscall.exit'', ''syscall_exit''} then Some SyscallExit
         else if word \<in> {''exception.handle'', ''exception_handle'', ''exception.intercept''}
         then Some ExceptionHandle
         else if word \<in> {''debugger.breakpoint'', ''debugger_breakpoint''} then Some DebuggerBreakpoint
         else if word \<in> {''debugger.single_step'', ''debugger_single_step''} then Some DebuggerSingleStep
         else if word \<in> {''debugger.async_break'', ''debugger_async_break''} then Some DebuggerAsyncBreak
         else None)"

definition decision_name :: "decision_selector \<Rightarrow> string" where
  "decision_name selector =
     (case selector of
        ChildFollow \<Rightarrow> ''child.follow'' | HookEntry \<Rightarrow> ''hook.entry'' | HookReturn \<Rightarrow> ''hook.return''
      | SyscallEntry \<Rightarrow> ''syscall.entry'' | SyscallExit \<Rightarrow> ''syscall.exit''
      | ExceptionHandle \<Rightarrow> ''exception.handle'' | DebuggerBreakpoint \<Rightarrow> ''debugger.breakpoint''
      | DebuggerSingleStep \<Rightarrow> ''debugger.single_step'' | DebuggerAsyncBreak \<Rightarrow> ''debugger.async_break'')"

definition is_hook :: "decision_selector \<Rightarrow> bool" where
  "is_hook selector \<longleftrightarrow> selector \<in> {HookEntry, HookReturn}"

definition is_debugger :: "decision_selector \<Rightarrow> bool" where
  "is_debugger selector \<longleftrightarrow> selector \<in> {DebuggerBreakpoint, DebuggerSingleStep, DebuggerAsyncBreak}"

subsection \<open>Leases of native breakpoints\<close>

record lease =
  le_subscribers :: u32
  le_remove_at_zero :: bool

record 'k leases =
  ls_leases :: "'k \<Rightarrow> lease option"
  ls_pending :: "'k list option"

definition leases_new :: "'k leases" where
  "leases_new = \<lparr>ls_leases = (\<lambda>_. None), ls_pending = None\<rparr>"

definition native_lease_acquire :: "bool \<Rightarrow> lease \<Rightarrow> lease" where
  "native_lease_acquire created l =
     l\<lparr>le_subscribers := sat_add (le_subscribers l) 1, le_remove_at_zero := le_remove_at_zero l \<or> created\<rparr>"

definition native_lease_release :: "lease \<Rightarrow> bool \<times> lease" where
  "native_lease_release l =
     (let l = l\<lparr>le_subscribers := sat_sub (le_subscribers l) 1\<rparr>
      in (le_subscribers l = 0 \<and> le_remove_at_zero l, l))"

definition cancel_pending_removal :: "u32 \<Rightarrow> u32 leases \<Rightarrow> bool \<times> u32 leases" where
  "cancel_pending_removal ident s =
     (case ls_pending s of
        None \<Rightarrow> (False, s)
      | Some pending \<Rightarrow>
          let kept = filter (\<lambda>p. p \<noteq> ident) pending
          in (length pending \<noteq> length kept, s\<lparr>ls_pending := Some kept\<rparr>))"

definition acquire_native :: "u32 \<Rightarrow> bool \<Rightarrow> u32 leases \<Rightarrow> u32 leases" where
  "acquire_native ident created s =
     (case cancel_pending_removal ident s of
        (revived, s) \<Rightarrow>
          let created = created \<or> revived;
              l = (case ls_leases s ident of
                     Some l \<Rightarrow> native_lease_acquire created l
                   | None \<Rightarrow> \<lparr>le_subscribers = 1, le_remove_at_zero = created\<rparr>)
          in s\<lparr>ls_leases := (ls_leases s)(ident := Some l)\<rparr>)"

definition has_external_owner :: "u32 \<Rightarrow> u32 leases \<Rightarrow> bool" where
  "has_external_owner ident s =
     (case ls_leases s ident of None \<Rightarrow> False | Some l \<Rightarrow> \<not> le_remove_at_zero l)"

definition mark_external_owner :: "u32 \<Rightarrow> u32 leases \<Rightarrow> u32 leases" where
  "mark_external_owner ident s =
     (case ls_leases s ident of
        None \<Rightarrow> s
      | Some l \<Rightarrow> s\<lparr>ls_leases := (ls_leases s)(ident := Some (l\<lparr>le_remove_at_zero := False\<rparr>))\<rparr>)"

definition release_native :: "u32 \<Rightarrow> u32 leases \<Rightarrow> bool \<times> u32 leases" where
  "release_native ident s =
     (let (remove_native, s) =
            (case ls_leases s ident of
               None \<Rightarrow> (False, s)
             | Some l \<Rightarrow>
                 (case native_lease_release l of
                    (remove, l) \<Rightarrow> (remove, s\<lparr>ls_leases := (ls_leases s)(ident := Some l)\<rparr>)));
          s = (case ls_leases s ident of
                 None \<Rightarrow> s
               | Some l \<Rightarrow> if le_subscribers l = 0 then s\<lparr>ls_leases := (ls_leases s)(ident := None)\<rparr> else s)
      in (remove_native, s))"

definition queue_native_removal :: "u32 \<Rightarrow> u32 leases \<Rightarrow> u32 leases" where
  "queue_native_removal ident s =
     (let pending = (case ls_pending s of None \<Rightarrow> [] | Some pending \<Rightarrow> pending)
      in s\<lparr>ls_pending := Some (if ident \<in> set pending then pending else pending @ [ident])\<rparr>)"

definition take_native_removals :: "u32 leases \<Rightarrow> u32 list \<times> u32 leases" where
  "take_native_removals s =
     (case ls_pending s of None \<Rightarrow> [] | Some pending \<Rightarrow> pending, s\<lparr>ls_pending := None\<rparr>)"

definition has_native_removals :: "u32 leases \<Rightarrow> bool" where
  "has_native_removals s = (case ls_pending s of None \<Rightarrow> False | Some pending \<Rightarrow> pending \<noteq> [])"

definition native_set_is_script :: "u64 \<Rightarrow> u64 \<Rightarrow> bool" where
  "native_set_is_script script_address address \<longleftrightarrow> script_address = address"

text \<open>\<open>note_external_breakpoint_set\<close> of \<open>scripting/mod.rs\<close>; \<open>script_address\<close> is the address a script is setting.\<close>

definition note_external_breakpoint_set :: "u64 \<Rightarrow> u32 \<Rightarrow> u64 \<Rightarrow> u32 leases \<Rightarrow> u32 leases" where
  "note_external_breakpoint_set script_address ident address s =
     (if \<not> native_set_is_script script_address address then mark_external_owner ident s else s)"

subsection \<open>Leases of hook points\<close>

definition hook_lease_acquire :: "bool \<Rightarrow> lease \<Rightarrow> lease" where
  "hook_lease_acquire created l =
     l\<lparr>le_subscribers := sat_add (le_subscribers l) 1, le_remove_at_zero := le_remove_at_zero l \<or> created\<rparr>"

definition hook_lease_release :: "lease \<Rightarrow> bool \<times> lease" where
  "hook_lease_release l =
     (let l = l\<lparr>le_subscribers := sat_sub (le_subscribers l) 1\<rparr>
      in (le_subscribers l = 0 \<and> le_remove_at_zero l, l))"

definition cancel_pending_hook_removal :: "u64 \<Rightarrow> u64 leases \<Rightarrow> bool \<times> u64 leases" where
  "cancel_pending_hook_removal address s =
     (case ls_pending s of
        None \<Rightarrow> (False, s)
      | Some pending \<Rightarrow>
          let kept = filter (\<lambda>p. p \<noteq> address) pending
          in (length pending \<noteq> length kept, s\<lparr>ls_pending := Some kept\<rparr>))"

definition acquire_hook :: "u64 \<Rightarrow> bool \<Rightarrow> u64 leases \<Rightarrow> u64 leases" where
  "acquire_hook address created s =
     (case cancel_pending_hook_removal address s of
        (revived, s) \<Rightarrow>
          let l = (case ls_leases s address of
                     Some l \<Rightarrow> hook_lease_acquire (created \<or> revived) l
                   | None \<Rightarrow> \<lparr>le_subscribers = 1, le_remove_at_zero = created \<or> revived\<rparr>)
          in s\<lparr>ls_leases := (ls_leases s)(address := Some l)\<rparr>)"

definition release_hook :: "u64 \<Rightarrow> u64 leases \<Rightarrow> bool \<times> u64 leases" where
  "release_hook address s =
     (let (remove, s) =
            (case ls_leases s address of
               None \<Rightarrow> (False, s)
             | Some l \<Rightarrow>
                 (case hook_lease_release l of
                    (remove, l) \<Rightarrow> (remove, s\<lparr>ls_leases := (ls_leases s)(address := Some l)\<rparr>)));
          s = (case ls_leases s address of
                 None \<Rightarrow> s
               | Some l \<Rightarrow> if le_subscribers l = 0 then s\<lparr>ls_leases := (ls_leases s)(address := None)\<rparr> else s)
      in (remove, s))"

definition queue_hook_removal :: "u64 \<Rightarrow> u64 leases \<Rightarrow> u64 leases" where
  "queue_hook_removal address s =
     (let pending = (case ls_pending s of None \<Rightarrow> [] | Some pending \<Rightarrow> pending)
      in s\<lparr>ls_pending := Some (if address \<in> set pending then pending else pending @ [address])\<rparr>)"

definition take_hook_removals :: "u64 leases \<Rightarrow> u64 list \<times> u64 leases" where
  "take_hook_removals s =
     (case ls_pending s of None \<Rightarrow> [] | Some pending \<Rightarrow> pending, s\<lparr>ls_pending := None\<rparr>)"

definition has_hook_removals :: "u64 leases \<Rightarrow> bool" where
  "has_hook_removals s = (case ls_pending s of None \<Rightarrow> False | Some pending \<Rightarrow> pending \<noteq> [])"

subsection \<open>The contract of a lease table\<close>

definition pending_of :: "'k leases \<Rightarrow> 'k list" where
  "pending_of s = (case ls_pending s of None \<Rightarrow> [] | Some pending \<Rightarrow> pending)"

text \<open>
  What the script host relies on of either table: acquiring a key cancels its pending removal and adds
  a subscriber, releasing takes one away and asks for removal when a script-owned key has none left,
  queueing adds a key once, and taking hands everything out.
\<close>

locale lease_table =
  fixes acquire :: "'k \<Rightarrow> bool \<Rightarrow> 'k leases \<Rightarrow> 'k leases"
    and release :: "'k \<Rightarrow> 'k leases \<Rightarrow> bool \<times> 'k leases"
    and queue :: "'k \<Rightarrow> 'k leases \<Rightarrow> 'k leases"
    and take_all :: "'k leases \<Rightarrow> 'k list \<times> 'k leases"
  assumes acquire_leases: "ls_leases (acquire k c s) = (ls_leases s)(k :=
      Some (case ls_leases s k of
              None \<Rightarrow> \<lparr>le_subscribers = 1, le_remove_at_zero = c \<or> k \<in> set (pending_of s)\<rparr>
            | Some l \<Rightarrow> \<lparr>le_subscribers = sat_add (le_subscribers l) 1,
                le_remove_at_zero = le_remove_at_zero l \<or> c \<or> k \<in> set (pending_of s)\<rparr>))"
    and acquire_pending: "pending_of (acquire k c s) = filter (\<lambda>p. p \<noteq> k) (pending_of s)"
    and release_result: "fst (release k s) = (case ls_leases s k of
        None \<Rightarrow> False | Some l \<Rightarrow> sat_sub (le_subscribers l) 1 = 0 \<and> le_remove_at_zero l)"
    and release_leases: "ls_leases (snd (release k s)) = (ls_leases s)(k :=
      (case ls_leases s k of
         None \<Rightarrow> None
       | Some l \<Rightarrow> if sat_sub (le_subscribers l) 1 = 0 then None
                   else Some (l\<lparr>le_subscribers := sat_sub (le_subscribers l) 1\<rparr>)))"
    and release_pending: "pending_of (snd (release k s)) = pending_of s"
    and queue_leases: "ls_leases (queue k s) = ls_leases s"
    and queue_pending: "pending_of (queue k s) = (if k \<in> set (pending_of s) then pending_of s else pending_of s @ [k])"
    and take_all_result: "fst (take_all s) = pending_of s"
    and take_all_leases: "ls_leases (snd (take_all s)) = ls_leases s"
    and take_all_pending: "pending_of (snd (take_all s)) = []"

lemma length_filter_neq: "length xs \<noteq> length (filter (\<lambda>p. p \<noteq> k) xs) \<longleftrightarrow> k \<in> set xs"
proof
  assume "length xs \<noteq> length (filter (\<lambda>p. p \<noteq> k) xs)"
  then show "k \<in> set xs" by (metis (mono_tags, lifting) filter_True)
next
  assume "k \<in> set xs"
  then have "length (filter (\<lambda>p. p \<noteq> k) xs) < length xs" by (rule length_filter_less) simp
  then show "length xs \<noteq> length (filter (\<lambda>p. p \<noteq> k) xs)" by simp
qed

interpretation natives: lease_table acquire_native release_native queue_native_removal take_native_removals
  by unfold_locales
    (auto simp: acquire_native_def cancel_pending_removal_def pending_of_def length_filter_neq
      native_lease_acquire_def release_native_def native_lease_release_def queue_native_removal_def
      take_native_removals_def Let_def fun_eq_iff split: option.splits)

interpretation hook_points: lease_table acquire_hook release_hook queue_hook_removal take_hook_removals
  by unfold_locales
    (auto simp: acquire_hook_def cancel_pending_hook_removal_def pending_of_def length_filter_neq
      hook_lease_acquire_def release_hook_def hook_lease_release_def queue_hook_removal_def
      take_hook_removals_def Let_def fun_eq_iff split: option.splits)

end
