(* ===== verification/Pb_Lease_Histories.thy ===== *)
theory Pb_Lease_Histories
  imports Pb_Leases
begin

section \<open>What the lease tables and the merge of actions guarantee\<close>

text \<open>
  Lemmas and properties of \<open>Pb_Leases\<close>, proved once from the contract \<open>lease_table\<close> over histories
  of handlers and host ticks, and used for native breakpoints and hook points through its two
  interpretations.
\<close>

subsection \<open>Histories\<close>

text \<open>
  A history of one table as the script host drives it: a handler is bound, a handler is dropped and the
  removal queued when the release asks for it, and the host tick takes the queued removals.
\<close>

datatype 'k lease_op = Bind 'k bool | Drop 'k | Tick

fun lease_step ::
  "('k \<Rightarrow> bool \<Rightarrow> 'k leases \<Rightarrow> 'k leases) \<Rightarrow> ('k \<Rightarrow> 'k leases \<Rightarrow> bool \<times> 'k leases)
     \<Rightarrow> ('k \<Rightarrow> 'k leases \<Rightarrow> 'k leases) \<Rightarrow> ('k leases \<Rightarrow> 'k list \<times> 'k leases)
     \<Rightarrow> 'k lease_op \<Rightarrow> 'k leases \<Rightarrow> 'k leases" where
  "lease_step acquire release queue take_all (Bind k created) s = acquire k created s"
| "lease_step acquire release queue take_all (Drop k) s =
     (case release k s of (remove, s) \<Rightarrow> if remove then queue k s else s)"
| "lease_step acquire release queue take_all Tick s = snd (take_all s)"

text \<open>The handlers that hold a key after a history.\<close>

fun holder_step :: "'k lease_op \<Rightarrow> ('k \<Rightarrow> nat) \<Rightarrow> 'k \<Rightarrow> nat" where
  "holder_step (Bind k created) h = h(k := h k + 1)"
| "holder_step (Drop k) h = h(k := h k - 1)"
| "holder_step Tick h = h"

definition holders :: "'k lease_op list \<Rightarrow> 'k \<Rightarrow> nat" where
  "holders ops = fold holder_step ops (\<lambda>_. 0)"

definition lease_inv :: "('k \<Rightarrow> nat) \<Rightarrow> 'k leases \<Rightarrow> bool" where
  "lease_inv h s \<longleftrightarrow>
     (\<forall>k. ls_leases s k = None \<longrightarrow> h k = 0)
     \<and> (\<forall>k l. ls_leases s k = Some l \<longrightarrow> 0 < h k \<and> unat (le_subscribers l) = h k)
     \<and> distinct (pending_of s) \<and> (\<forall>k \<in> set (pending_of s). h k = 0)"

lemma holders_le: "holders ops k \<le> length ops"
proof -
  have "fold holder_step ops h k \<le> h k + length ops" for h
  proof (induction ops arbitrary: h)
    case (Cons op ops)
    have "holder_step op h k \<le> h k + 1" by (cases op) auto
    then show ?case using Cons [of "holder_step op h"] by simp
  qed simp
  then show ?thesis unfolding holders_def by (metis add_0)
qed

lemma lease_inv_new: "lease_inv (\<lambda>_. 0) leases_new"
  by (simp add: lease_inv_def leases_new_def pending_of_def)

lemma sat_sub_1_u32: "unat (l :: u32) = n \<Longrightarrow> unat (sat_sub l 1) = n - 1"
  by (simp add: unat_sat_sub)

lemma sat_add_1_u32: "unat (l :: u32) = n \<Longrightarrow> n + 1 < 2 ^ 32 \<Longrightarrow> unat (sat_add l 1) = n + 1"
  by (simp add: unat_sat_add)

context lease_table begin

abbreviation step where "step \<equiv> lease_step acquire release queue take_all"

lemma step_inv:
  assumes inv: "lease_inv h s" and bound: "\<forall>k. h k + 1 < 2 ^ 32"
  shows "lease_inv (holder_step op h) (step op s)"
proof (cases op)
  case (Bind k c)
  have "unat (1 :: u32) = 1" by simp
  then show ?thesis
    using inv bound unfolding Bind lease_inv_def
    by (auto simp: acquire_leases acquire_pending sat_add_1_u32 split: option.splits)
next
  case (Drop k)
  have z: "sat_sub (l :: u32) 1 = 0 \<longleftrightarrow> unat l \<le> 1" for l
    by (metis diff_is_0_eq sat_sub_1_u32 unat_eq_zero)
  obtain r s1 where r: "release k s = (r, s1)" by fastforce
  have rel: "r = (case ls_leases s k of None \<Rightarrow> False | Some l \<Rightarrow> unat (le_subscribers l) \<le> 1 \<and> le_remove_at_zero l)"
    "ls_leases s1 = (ls_leases s)(k := (case ls_leases s k of None \<Rightarrow> None
       | Some l \<Rightarrow> if unat (le_subscribers l) \<le> 1 then None else Some (l\<lparr>le_subscribers := sat_sub (le_subscribers l) 1\<rparr>)))"
    "pending_of s1 = pending_of s"
    using release_result [of k s] release_leases [of k s] release_pending [of k s]
    by (simp_all add: r z cong: option.case_cong)
  have "lease_inv (h(k := h k - 1)) s1"
    using inv unfolding lease_inv_def
    by (auto simp: rel(2,3) unat_sat_sub split: option.splits)
  moreover have "h k - 1 = 0" if "r"
    using that inv rel(1) by (auto simp: lease_inv_def split: option.splits dest!: spec [of _ k])
  ultimately show ?thesis
    by (auto simp: Drop r lease_inv_def queue_leases queue_pending)
next
  case Tick
  then show ?thesis using inv by (simp add: lease_inv_def take_all_leases take_all_pending)
qed

lemma history_inv:
  assumes "length ops < 2 ^ 32 - 1"
  shows "lease_inv (holders ops) (fold step ops leases_new)"
  using assms
proof (induction ops rule: rev_induct)
  case Nil
  show ?case by (simp add: holders_def lease_inv_new)
next
  case (snoc op ops)
  have "\<forall>k. holders ops k + 1 < 2 ^ 32" using snoc.prems le_less_trans [OF holders_le [of ops]] by simp
  then show ?case using step_inv [of "holders ops" _ op] snoc by (simp add: holders_def)
qed

text \<open>A key a script created, dropped by its last handler, is queued.\<close>

lemma owned_kept:
  assumes "ls_leases s k = Some l" "le_remove_at_zero l" "\<forall>op \<in> set ops. op \<noteq> Drop k" "lease_inv h s"
    and "\<forall>k. h k + length ops < 2 ^ 32"
  shows "\<exists>l. ls_leases (fold step ops s) k = Some l \<and> le_remove_at_zero l"
  using assms
proof (induction ops arbitrary: s h l)
  case (Cons op ops)
  have "\<exists>l. ls_leases (step op s) k = Some l \<and> le_remove_at_zero l"
    using Cons.prems(1-3)
    by (cases op) (auto simp: acquire_leases take_all_leases release_leases queue_leases split_beta)
  then obtain l' where l': "ls_leases (step op s) k = Some l'" "le_remove_at_zero l'" by blast
  have inv: "lease_inv (holder_step op h) (step op s)"
  proof (rule step_inv [OF Cons.prems(4)], rule allI)
    fix j show "h j + 1 < 2 ^ 32" using Cons.prems(5) [rule_format, of j] by simp
  qed
  have le: "\<forall>j. holder_step op h j + length ops < 2 ^ 32"
  proof
    fix j
    have "holder_step op h j \<le> h j + 1" by (cases op) auto
    then show "holder_step op h j + length ops < 2 ^ 32" using Cons.prems(5)[rule_format, of j] by simp
  qed
  show ?case using Cons.IH [OF l' _ inv le] Cons.prems(3) by simp
qed auto

lemma last_drop_queues:
  assumes "holders ops k = 0" "\<forall>op \<in> set rest. op \<noteq> Drop k \<and> (\<forall>c. op \<noteq> Bind k c)"
    and "length ops + length rest + 2 < 2 ^ 32 - 1"
  shows "k \<in> set (pending_of (fold step (ops @ Bind k True # rest @ [Drop k]) leases_new))"
proof -
  let ?s = "fold step ops leases_new" let ?s1 = "fold step (ops @ Bind k True # rest) leases_new"
  have inv: "lease_inv (holders ops) ?s" using assms(3) by (intro history_inv) simp
  have inv0: "lease_inv (holders (ops @ [Bind k True])) (step (Bind k True) ?s)"
    using history_inv [of "ops @ [Bind k True]"] assms(3) by simp
  have inv1: "lease_inv (holders (ops @ Bind k True # rest)) ?s1" using assms(3) by (intro history_inv) simp
  have same: "fold holder_step rest h k = h k" for h
    using assms(2)
  proof (induction rest arbitrary: h)
    case (Cons op rest)
    then show ?case by (cases op) auto
  qed simp
  have one: "holders (ops @ Bind k True # rest) k = 1"
    using assms(1) same by (simp add: holders_def)
  obtain l where l: "ls_leases (step (Bind k True) ?s) k = Some l" "le_remove_at_zero l"
    by (simp add: acquire_leases split: option.splits)
  have len: "\<forall>j. holders (ops @ [Bind k True]) j + length rest < 2 ^ 32"
  proof
    fix j show "holders (ops @ [Bind k True]) j + length rest < 2 ^ 32"
      using holders_le [of "ops @ [Bind k True]" j] assms(3) by simp
  qed
  obtain l' where l': "ls_leases ?s1 k = Some l'" "le_remove_at_zero l'"
    using owned_kept [OF l _ inv0 len] assms(2) by auto
  then have "unat (le_subscribers l') = 1" using inv1 one by (auto simp: lease_inv_def dest!: spec [of _ k])
  then have "fst (release k ?s1)" using l' by (simp add: release_result unat_eq_zero [symmetric] unat_sat_sub)
  then show ?thesis by (auto simp: queue_pending split_beta)
qed

end

subsection \<open>Properties\<close>





lemma merge_fold:
  "fold (\<lambda>action merged. Some (merge_action merged action)) actions (Some a) =
     Some (if Stay \<in> set (a # actions) \<or> {StepInto, StepOver} \<subseteq> set (a # actions) then Stay
           else if StepInto \<in> set (a # actions) then StepInto
           else if StepOver \<in> set (a # actions) then StepOver else Resume)"
proof (induction actions arbitrary: a)
  case Nil
  show ?case by (cases a) auto
next
  case (Cons b actions)
  show ?case unfolding fold.simps o_def Cons
    by (cases a; cases b) (simp_all add: merge_action_def)
qed

text \<open>
  C24. Merging the actions of the handlers at one stop is conservative and does not depend on their
  order: the target stays stopped if the debugger owns the breakpoint, if any handler says so or if
  two ask for different steps; it steps if some handler asks for that step, and resumes only if all do.
\<close>

theorem merge_is_conservative:
  "merge_all external actions =
     (if external then Some Stay
      else if actions = [] then None
      else Some (if Stay \<in> set actions \<or> {StepInto, StepOver} \<subseteq> set actions then Stay
                 else if StepInto \<in> set actions then StepInto
                 else if StepOver \<in> set actions then StepOver else Resume))"
proof (cases "external \<or> actions = []")
  case False
  then obtain a rest where "actions = a # rest" by (cases actions) auto
  moreover then have "merge_all external actions = fold (\<lambda>action merged. Some (merge_action merged action)) rest (Some a)"
    using False by (simp add: merge_all_def merge_action_def [of None])
  ultimately show ?thesis using False by (simp add: merge_fold)
qed (auto simp: merge_all_def merge_fold)

end
