(* ===== verification/Pb_Signature.thy ===== *)
theory Pb_Signature
  imports Pb_Text Pb_Hooks
begin

section \<open>Function prototypes (hook_signature.rs)\<close>

text \<open>
  \<open>bindings/rust/pinbridge-hub-core/src/hook_signature.rs\<close>: the parser of C-like prototypes, the
  classification of types, the capture layout sent to the agent, and the typed rendering of captured
  values. Error messages are the constructors of \<open>signature_error\<close>. JSON objects are lists of pairs in
  the order written. The \<open>Debug\<close> format of floats belongs to Rust's float printer and is an argument.
\<close>

definition MAX_PARAMETERS :: nat where "MAX_PARAMETERS = 16"

datatype value_kind =
    Void | Signed | Unsigned | Boolean | Float32 | Float64 | Pointer | Utf8Pointer | Utf16Pointer
  | Aggregate | Unknown

definition value_kind_name :: "value_kind \<Rightarrow> string" where
  "value_kind_name kind =
     (case kind of
        Void \<Rightarrow> ''void'' | Signed \<Rightarrow> ''signed'' | Unsigned \<Rightarrow> ''unsigned'' | Boolean \<Rightarrow> ''bool''
      | Float32 \<Rightarrow> ''float32'' | Float64 \<Rightarrow> ''float64'' | Pointer \<Rightarrow> ''pointer''
      | Utf8Pointer \<Rightarrow> ''utf8_pointer'' | Utf16Pointer \<Rightarrow> ''utf16_pointer''
      | Aggregate \<Rightarrow> ''aggregate'' | Unknown \<Rightarrow> ''unknown'')"

definition capture_code :: "value_kind \<Rightarrow> u32" where
  "capture_code kind = (case kind of Float32 \<Rightarrow> 1 | Float64 \<Rightarrow> 2 | _ \<Rightarrow> 0)"

record type_info =
  ty_spelling :: string
  ty_kind :: value_kind
  ty_size :: "u32 option"
  ty_pointer_sized :: bool

definition size_for :: "type_info \<Rightarrow> u32 \<Rightarrow> u32 option" where
  "size_for ty pointer_width = (if ty_pointer_sized ty then Some pointer_width else ty_size ty)"

record parameter =
  pm_name :: string
  pm_ty :: type_info

record hook_signature =
  hs_prototype :: string
  hs_source :: string
  hs_confidence :: u32
  hs_function :: string
  hs_calling_convention :: string
  hs_return_type :: type_info
  hs_parameters :: "parameter list"
  hs_variadic :: bool

record capture_layout =
  cl_calling_convention :: u32
  cl_return_kind :: u32
  cl_parameter_count :: u32
  cl_float_mask :: u32

datatype signature_error =
    Bad_length | Bad_source | Bad_confidence | Not_a_prototype | No_closing_parenthesis
  | Unexpected_text | No_function_name | Vectorcall_unsupported | No_return_type
  | Unbalanced_type | Empty_parameter | Too_many_parameters nat | Fastcall_float

definition float_mask :: "type_info list \<Rightarrow> u32" where
  "float_mask types =
     fold (\<lambda>(index, ty) m. if capture_code (ty_kind ty) \<noteq> 0 then m OR push_bit index 1 else m)
       (enumerate 0 types) 0"

definition capture_layout :: "hook_signature \<Rightarrow> capture_layout" where
  "capture_layout s =
     \<lparr>cl_calling_convention = of_bool (hs_calling_convention s = ''fastcall''),
      cl_return_kind = capture_code (ty_kind (hs_return_type s)),
      cl_parameter_count = word_of_nat (length (hs_parameters s)),
      cl_float_mask = float_mask (map pm_ty (hs_parameters s))\<rparr>"

subsection \<open>Types\<close>

definition pointer_alias :: "string \<Rightarrow> bool" where
  "pointer_alias compact \<longleftrightarrow>
     compact \<in> {''handle'', ''hwnd'', ''hmodule'', ''hinstance'', ''hkey'', ''hfile'', ''hprocess'', ''hthread'',
       ''socket'', ''lpvoid'', ''lpcvoid'', ''pvoid'', ''farproc''}
     \<or> starts_with ''lp'' compact \<or> starts_with ''pc'' compact \<or> starts_with ''p_'' compact"

definition utf8_pointer :: "string \<Rightarrow> bool" where
  "utf8_pointer compact \<longleftrightarrow> contains_text ''char*'' compact
     \<or> compact \<in> {''lpstr'', ''lpcstr'', ''pstr'', ''pcstr'', ''pchar''}"

definition utf16_pointer :: "string \<Rightarrow> bool" where
  "utf16_pointer compact \<longleftrightarrow> contains_text ''wchar_t*'' compact \<or> contains_text ''wchar*'' compact
     \<or> compact \<in> {''lpwstr'', ''lpcwstr'', ''pwstr'', ''pcwstr'', ''pwchar''}"

definition aggregate_size :: "string \<Rightarrow> u32 option" where
  "aggregate_size compact =
     (case (case strip_prefix ''struct'' compact of Some rest \<Rightarrow> Some rest | None \<Rightarrow> strip_prefix ''bytes'' compact) of
        None \<Rightarrow> None
      | Some rest \<Rightarrow>
          (case parse_unsigned 10 (2 ^ 32) rest of
             None \<Rightarrow> None
           | Some width_of \<Rightarrow> if 0 < width_of \<and> width_of \<le> 4096 then Some (word_of_nat width_of) else None))"

definition classify_compact :: "string \<Rightarrow> value_kind \<times> u32 option \<times> bool" where
  "classify_compact compact =
     (let pointer = CHR ''*'' \<in> set compact \<or> pointer_alias compact
      in if compact = ''void'' then (Void, Some 0, False)
         else if pointer
         then (if utf16_pointer compact then Utf16Pointer
               else if utf8_pointer compact then Utf8Pointer else Pointer, None, True)
         else if compact = ''float'' \<or> compact = ''f32'' then (Float32, Some 4, False)
         else if compact = ''double'' \<or> compact = ''f64'' then (Float64, Some 8, False)
         else if compact \<in> {''bool'', ''boolean'', ''bool32'', ''winbool''} then (Boolean, Some 4, False)
         else if compact \<in> {''bool8'', ''_bool''} then (Boolean, Some 1, False)
         else if compact \<in> {''size_t'', ''uintptr_t'', ''ulong_ptr'', ''dword_ptr''} then (Unsigned, None, True)
         else if compact \<in> {''ssize_t'', ''intptr_t'', ''long_ptr''} then (Signed, None, True)
         else if compact \<in> {''char'', ''signedchar'', ''int8_t'', ''i8'', ''c_char'', ''__int8'', ''signed__int8''}
         then (Signed, Some 1, False)
         else if compact \<in> {''unsignedchar'', ''uint8_t'', ''u8'', ''byte'', ''uchar'', ''unsigned__int8''}
         then (Unsigned, Some 1, False)
         else if compact \<in> {''short'', ''shortint'', ''signedshort'', ''int16_t'', ''i16'', ''__int16'', ''signed__int16''}
         then (Signed, Some 2, False)
         else if compact \<in> {''unsignedshort'', ''uint16_t'', ''u16'', ''word'', ''ushort'', ''wchar_t'', ''wchar'',
             ''unsigned__int16''}
         then (Unsigned, Some 2, False)
         else if compact \<in> {''int'', ''signed'', ''signedint'', ''long'', ''signedlong'', ''int32_t'', ''i32'', ''long32'',
             ''hresult'', ''ntstatus'', ''__int32'', ''signed__int32''} \<or> starts_with ''enum'' compact
         then (Signed, Some 4, False)
         else if compact \<in> {''unsigned'', ''unsignedint'', ''unsignedlong'', ''uint32_t'', ''u32'', ''dword'', ''ulong'',
             ''uint'', ''unsigned__int32''}
         then (Unsigned, Some 4, False)
         else if compact \<in> {''longlong'', ''signedlonglong'', ''int64_t'', ''i64'', ''long64'', ''large_integer'',
             ''__int64'', ''signed__int64''}
         then (Signed, Some 8, False)
         else if compact \<in> {''unsignedlonglong'', ''uint64_t'', ''u64'', ''ulonglong'', ''dword64'',
             ''ularge_integer'', ''unsigned__int64''}
         then (Unsigned, Some 8, False)
         else if compact \<in> {''guid'', ''uuid''} then (Aggregate, Some 16, False)
         else case aggregate_size compact of
                Some width_of \<Rightarrow> (Aggregate, Some width_of, False)
              | None \<Rightarrow> (Unknown, None, False))"

definition classify_type :: "string \<Rightarrow> type_info" where
  "classify_type spelling =
     (let spelling = replace_text ''  '' '' '' (trim spelling);
          compact = replace_text '' '' '''' (replace_text ''volatile'' '''' (replace_text ''const'' '''' (to_lower spelling)))
      in case classify_compact compact of
           (kind, width_of, pointer_sized) \<Rightarrow>
             \<lparr>ty_spelling = spelling, ty_kind = kind, ty_size = width_of, ty_pointer_sized = pointer_sized\<rparr>)"

subsection \<open>The parser\<close>

definition calling_convention :: "string \<Rightarrow> string" where
  "calling_convention declaration =
     (let lower = to_lower declaration; words = split_whitespace lower
      in if contains_text ''__fastcall'' lower \<or> ''fastcall'' \<in> set words then ''fastcall''
         else if contains_text ''__stdcall'' lower
           \<or> list_ex (\<lambda>word. word \<in> {''winapi'', ''ntapi'', ''callback'', ''apientry'', ''stdcall''}) words
         then ''stdcall''
         else if contains_text ''__vectorcall'' lower then ''vectorcall''
         else ''cdecl'')"

definition remove_calling_convention :: "string \<Rightarrow> string" where
  "remove_calling_convention declaration =
     join_with '' '' (filter (\<lambda>word. to_lower word \<notin> {''__cdecl'', ''cdecl'', ''__stdcall'', ''stdcall'', ''__fastcall'',
       ''fastcall'', ''__vectorcall'', ''vectorcall'', ''winapi'', ''ntapi'', ''callback'', ''apientry'', ''extern'',
       [CHR 0x22, CHR ''c'', CHR 0x22]}) (split_whitespace declaration))"

fun split_from :: "string \<Rightarrow> string \<Rightarrow> int \<Rightarrow> string list \<Rightarrow> signature_error + string list" where
  "split_from [] piece depth result =
     (if depth \<noteq> 0 then Inl Unbalanced_type else Inr (result @ [trim piece]))"
| "split_from (c # rest) piece depth result =
     (if c \<in> {CHR ''('', CHR ''['', CHR ''<''} then split_from rest (piece @ [c]) (depth + 1) result
      else if c \<in> {CHR '')'', CHR '']'', CHR ''>''}
      then (if depth - 1 < 0 then Inl Unbalanced_type else split_from rest (piece @ [c]) (depth - 1) result)
      else if c = CHR '','' \<and> depth = 0 then split_from rest [] depth (result @ [trim piece])
      else split_from rest (piece @ [c]) depth result)"

definition split_parameters :: "string \<Rightarrow> signature_error + string list" where
  "split_parameters arguments =
     (case split_from arguments [] 0 [] of
        Inl e \<Rightarrow> Inl e
      | Inr result \<Rightarrow> if list_ex (\<lambda>parameter. parameter = []) result then Inl Empty_parameter else Inr result)"

definition is_type_keyword :: "string \<Rightarrow> bool" where
  "is_type_keyword value \<longleftrightarrow> to_lower value \<in> {''void'', ''char'', ''short'', ''int'', ''long'', ''float'', ''double'',
     ''signed'', ''unsigned'', ''bool'', ''size_t'', ''ssize_t''}"

text \<open>The start of the trailing run of word characters, \<open>None\<close> when there is none.\<close>

definition word_suffix_start :: "string \<Rightarrow> nat option" where
  "word_suffix_start s =
     (let n = length (takeWhile is_word_char (rev s)) in if n = 0 then None else Some (length s - n))"

definition plain_parts :: "string \<Rightarrow> nat \<Rightarrow> string \<times> string" where
  "plain_parts declaration index =
     (let before_array = trim (split_first CHR ''['' declaration)
      in case word_suffix_start before_array of
           None \<Rightarrow> (''arg'' @ show_nat index, declaration)
         | Some name_start \<Rightarrow>
             let candidate = trim (drop name_start before_array);
                 type_part = trim (take name_start before_array)
             in if type_part = [] \<or> is_type_keyword candidate then (''arg'' @ show_nat index, declaration)
                else let array_suffix = (case find_char CHR ''['' declaration of
                           None \<Rightarrow> [] | Some position \<Rightarrow> trim (drop position declaration))
                     in (candidate, if array_suffix = [] then type_part else type_part @ '' '' @ array_suffix))"

definition parameter_parts :: "string \<Rightarrow> nat \<Rightarrow> string \<times> string" where
  "parameter_parts declaration index =
     (let declaration = trim (split_first CHR ''='' declaration)
      in case find_text ''(*'' declaration of
           None \<Rightarrow> plain_parts declaration index
         | Some pointer_open \<Rightarrow>
             let name_start = pointer_open + 2
             in case find_char CHR '')'' (drop name_start declaration) of
                  None \<Rightarrow> plain_parts declaration index
                | Some name_end \<Rightarrow>
                    (trim (take name_end (drop name_start declaration)),
                     trim (take pointer_open declaration) @ '' *''))"

fun parse_parameters :: "string list \<Rightarrow> parameter list \<Rightarrow> bool \<Rightarrow> parameter list \<times> bool" where
  "parse_parameters [] parameters variadic = (parameters, variadic)"
| "parse_parameters (declaration # rest) parameters variadic =
     (if trim declaration = ''...'' then parse_parameters rest parameters True
      else case parameter_parts declaration (length parameters) of
             (name, spelling) \<Rightarrow>
               parse_parameters rest (parameters @ [\<lparr>pm_name = name, pm_ty = classify_type spelling\<rparr>]) variadic)"

text \<open>Where the function name starts in the text before the parenthesis.\<close>

definition function_start :: "string \<Rightarrow> nat" where
  "function_start lead = length lead - length (takeWhile is_word_char (rev lead))"

definition parse_arguments :: "string \<Rightarrow> signature_error + parameter list \<times> bool" where
  "parse_arguments arguments =
     (if arguments \<noteq> [] \<and> arguments \<noteq> ''void''
      then (case split_parameters arguments of
              Inl e \<Rightarrow> Inl e
            | Inr declarations \<Rightarrow> Inr (parse_parameters declarations [] False))
      else Inr ([], False))"

definition signature_parse :: "string \<Rightarrow> string \<Rightarrow> u32 \<Rightarrow> signature_error + hook_signature" where
  "signature_parse prototype source confidence =
     (let prototype = trim (trim_end_matches CHR '';'' (trim prototype))
      in if prototype = [] \<or> length prototype > 2048 then Inl Bad_length
         else if source \<notin> {''pdb'', ''header'', ''manual'', ''ai_inferred''} then Inl Bad_source
         else if confidence > 100 then Inl Bad_confidence
         else case find_char CHR ''('' prototype of
           None \<Rightarrow> Inl Not_a_prototype
         | Some open' \<Rightarrow>
             (case (case rfind_char CHR '')'' prototype of
                      None \<Rightarrow> None | Some close \<Rightarrow> if close > open' then Some close else None) of
                None \<Rightarrow> Inl No_closing_parenthesis
              | Some close \<Rightarrow>
                  if trim (drop (close + 1) prototype) \<noteq> [] then Inl Unexpected_text
                  else let lead = trim (take open' prototype);
                           start = function_start lead;
                           function = trim (drop start lead)
                       in if function = [] \<or> \<not> list_all is_word_char function then Inl No_function_name
                          else let declaration = trim (take start lead);
                                   convention = calling_convention declaration
                               in if convention = ''vectorcall'' then Inl Vectorcall_unsupported
                                  else let return_spelling = remove_calling_convention declaration
                                       in if return_spelling = [] then Inl No_return_type
                                          else case parse_arguments (trim (take (close - (open' + 1)) (drop (open' + 1) prototype))) of
                                                 Inl e \<Rightarrow> Inl e
                                               | Inr (parameters, variadic) \<Rightarrow>
                                                   if length parameters > MAX_PARAMETERS
                                                   then Inl (Too_many_parameters (length parameters))
                                                   else if convention = ''fastcall''
                                                     \<and> list_ex (\<lambda>p. ty_kind (pm_ty p) \<in> {Float32, Float64}) (take 2 parameters)
                                                   then Inl Fastcall_float
                                                   else Inr \<lparr>hs_prototype = prototype @ '';'', hs_source = source,
                                                     hs_confidence = confidence, hs_function = function,
                                                     hs_calling_convention = convention,
                                                     hs_return_type = classify_type return_spelling,
                                                     hs_parameters = parameters, hs_variadic = variadic\<rparr>))"

subsection \<open>Typed values\<close>

definition mask_width :: "u64 \<Rightarrow> u32 \<Rightarrow> u64" where
  "mask_width value width_of =
     (if width_of = 0 then 0
      else if width_of \<le> 7 then value AND (push_bit (unat (width_of * 8)) 1 - 1)
      else value)"

definition sign_extend :: "u64 \<Rightarrow> u32 \<Rightarrow> int" where
  "sign_extend value width_of =
     (let bits = min (max width_of 1) 8 * 8
      in if bits = 64 then sint value
         else let shift = unat (64 - bits)
              in sint (signed_drop_bit shift (push_bit shift value)))"

definition raw_u64 :: "json option \<Rightarrow> u64 option" where
  "raw_u64 value =
     (case value of
        None \<Rightarrow> None
      | Some j \<Rightarrow>
          (case json_as_str j of
             None \<Rightarrow> None
           | Some s \<Rightarrow>
               let s = trim s;
                   hex = (case strip_prefix ''0x'' s of Some rest \<Rightarrow> Some rest | None \<Rightarrow> strip_prefix ''0X'' s)
               in map_option word_of_nat
                    (case hex of
                       Some rest \<Rightarrow> parse_unsigned 16 (2 ^ 64) rest
                     | None \<Rightarrow> parse_unsigned 10 (2 ^ 64) s)))"

text \<open>
  The value, its display and the quality of a captured word. \<open>show_float\<close> and \<open>show_double\<close> are the
  \<open>Debug\<close> formats of \<open>f32\<close> and \<open>f64\<close>, applied to the bits.
\<close>

definition typed_parts ::
  "(u32 \<Rightarrow> string) \<Rightarrow> (u64 \<Rightarrow> string) \<Rightarrow> value_kind \<Rightarrow> u64 option \<Rightarrow> u32 \<Rightarrow> json \<times> string \<times> string" where
  "typed_parts show_float show_double kind masked width =
     (if kind = Void then (JNull, ''void'', ''exact'')
      else case masked of
             None \<Rightarrow> (JNull, [CHR 0xE6, CHR 0x9C, CHR 0xAA, CHR 0xE6, CHR 0x8D, CHR 0x95, CHR 0xE8, CHR 0x8E, CHR 0xB7], ''missing'')
           | Some value \<Rightarrow>
               (let hex = show_hex (unat value)
                in case kind of
                     Void \<Rightarrow> (JNull, ''void'', ''exact'')
                   | Signed \<Rightarrow> (let s = show_int (sign_extend value width) in (JString s, s, ''exact''))
                   | Unsigned \<Rightarrow>
                       (let s = show_nat (unat value) in (JString s, s @ '' ('' @ hex @ '')'', ''exact''))
                   | Boolean \<Rightarrow> (JBool (value \<noteq> 0), if value = 0 then ''false'' else ''true'', ''exact'')
                   | Float32 \<Rightarrow> (let s = show_float (ucast value) in (JString s, s, ''exact''))
                   | Float64 \<Rightarrow> (let s = show_double value in (JString s, s, ''exact''))
                   | Pointer \<Rightarrow> (JString hex, if value = 0 then ''NULL'' else hex, ''address_only'')
                   | Utf8Pointer \<Rightarrow> (JString hex, if value = 0 then ''NULL'' else hex, ''address_only'')
                   | Utf16Pointer \<Rightarrow> (JString hex, if value = 0 then ''NULL'' else hex, ''address_only'')
                   | Aggregate \<Rightarrow> (JString hex, ''ABI'' @ [CHR 0xE6, CHR 0xA7, CHR 0xBD] @ '' '' @ hex, ''aggregate_layout_required'')
                   | Unknown \<Rightarrow> (JString hex, hex, ''unknown_type'')))"

definition typed_value ::
  "(u32 \<Rightarrow> string) \<Rightarrow> (u64 \<Rightarrow> string) \<Rightarrow> nat \<Rightarrow> string \<Rightarrow> type_info \<Rightarrow> json option \<Rightarrow> u32 \<Rightarrow> json" where
  "typed_value show_float show_double index name ty raw pointer_width =
     (let width_of = size_for ty pointer_width;
          width = (case width_of of Some n \<Rightarrow> n | None \<Rightarrow> pointer_width);
          masked = map_option (\<lambda>value. mask_width value width) (raw_u64 raw)
      in case typed_parts show_float show_double (ty_kind ty) masked width of
           (value, display, quality) \<Rightarrow>
             JObject [(''index'', JString (show_nat index)), (''name'', JString name),
               (''type'', JString (ty_spelling ty)), (''kind'', JString (value_kind_name (ty_kind ty))),
               (''size'', json_option (map_option (\<lambda>n. JString (show_nat (unat n))) width_of)),
               (''raw'', json_option raw), (''value'', value), (''display'', JString display),
               (''quality'', JString quality)])"

definition typed_arguments ::
  "(u32 \<Rightarrow> string) \<Rightarrow> (u64 \<Rightarrow> string) \<Rightarrow> hook_signature \<Rightarrow> json list \<Rightarrow> u32 \<Rightarrow> json list" where
  "typed_arguments show_float show_double s raw pointer_width =
     map (\<lambda>(index, p). typed_value show_float show_double index (pm_name p) (pm_ty p)
            (if index < length raw then Some (raw ! index) else None) pointer_width)
       (enumerate 0 (hs_parameters s))"

definition typed_return ::
  "(u32 \<Rightarrow> string) \<Rightarrow> (u64 \<Rightarrow> string) \<Rightarrow> hook_signature \<Rightarrow> json option \<Rightarrow> u32 \<Rightarrow> json" where
  "typed_return show_float show_double s raw pointer_width =
     typed_value show_float show_double 0 ''return'' (hs_return_type s) raw pointer_width"

definition type_info_json :: "type_info \<Rightarrow> u32 \<Rightarrow> json" where
  "type_info_json ty pointer_width =
     JObject [(''type'', JString (ty_spelling ty)), (''kind'', JString (value_kind_name (ty_kind ty))),
       (''size'', json_option (map_option (\<lambda>n. JString (show_nat (unat n))) (size_for ty pointer_width))),
       (''pointer_sized'', JBool (ty_pointer_sized ty))]"

definition signature_json :: "hook_signature \<Rightarrow> u32 \<Rightarrow> json" where
  "signature_json s pointer_width =
     JObject [(''prototype'', JString (hs_prototype s)), (''source'', JString (hs_source s)),
       (''confidence'', JString (show_nat (unat (hs_confidence s)))), (''function'', JString (hs_function s)),
       (''calling_convention'', JString (hs_calling_convention s)),
       (''return_type'', type_info_json (hs_return_type s) pointer_width),
       (''parameters'', JArray (map (\<lambda>(index, p).
          JObject [(''index'', JString (show_nat index)), (''name'', JString (pm_name p)),
            (''type'', JString (ty_spelling (pm_ty p))), (''kind'', JString (value_kind_name (ty_kind (pm_ty p)))),
            (''size'', json_option (map_option (\<lambda>n. JString (show_nat (unat n))) (size_for (pm_ty p) pointer_width))),
            (''pointer_sized'', JBool (ty_pointer_sized (pm_ty p)))]) (enumerate 0 (hs_parameters s)))),
       (''variadic'', JBool (hs_variadic s)), (''capture_limit'', JString (show_nat MAX_PARAMETERS))]"

end
