(* ===== verification/Pb_Signature_Proofs.thy ===== *)
theory Pb_Signature_Proofs
  imports Pb_Signature
begin

section \<open>Prototypes: what the parser guarantees\<close>

text \<open>
  The facts about \<open>hook_signature.rs\<close>: which signatures the parser lets through, the bits of the capture
  layout, the comma splitter as a round trip, and the display of integers of a declared width.
\<close>

subsection \<open>The capture layout fits the agent\<close>

lemma bit_shifted_one: "bit (push_bit k (1 :: u32)) j \<longleftrightarrow> j = k \<and> j < 32"
  by (auto simp: bit_push_bit_iff bit_1_iff simp del: push_bit_of_1)

lemma fold_mask:
  "bit (fold (\<lambda>(index, ty) m. if capture_code (ty_kind ty) \<noteq> 0 then m OR push_bit index 1 else m)
     (enumerate k types) (m :: u32)) j \<longleftrightarrow>
   bit m j \<or> (j < 32 \<and> k \<le> j \<and> j < k + length types \<and> capture_code (ty_kind (types ! (j - k))) \<noteq> 0)"
proof (induction types arbitrary: k m)
  case (Cons ty types)
  show ?case
    by (auto simp: Cons bit_or_iff bit_shifted_one nth_Cons' Suc_le_eq simp del: push_bit_of_1)
qed auto

lemma float_mask_bit:
  "bit (float_mask types) j \<longleftrightarrow> j < 32 \<and> j < length types \<and> capture_code (ty_kind (types ! j)) \<noteq> 0"
  by (simp add: float_mask_def fold_mask)

lemma low_mask_bit: "bit (push_bit n (1 :: u32) - 1) j \<longleftrightarrow> j < n \<and> j < 32"
  by (simp add: push_bit_of_1 flip: mask_eq_exp_minus_1) (auto simp: bit_mask_iff)

definition signature_ok :: "hook_signature \<Rightarrow> bool" where
  "signature_ok s \<longleftrightarrow> length (hs_parameters s) \<le> MAX_PARAMETERS
     \<and> hs_confidence s \<le> 100 \<and> hs_function s \<noteq> [] \<and> list_all is_word_char (hs_function s)
     \<and> hs_calling_convention s \<in> {''cdecl'', ''stdcall'', ''fastcall''}
     \<and> (hs_calling_convention s = ''fastcall'' \<longrightarrow>
          (\<forall>q \<in> set (take 2 (hs_parameters s)). ty_kind (pm_ty q) \<notin> {Float32, Float64}))"

lemma calling_convention_cases:
  "calling_convention d \<in> {''cdecl'', ''stdcall'', ''fastcall'', ''vectorcall''}"
  by (simp add: calling_convention_def Let_def)

lemma accepted_convention:
  "calling_convention d \<noteq> ''vectorcall'' \<Longrightarrow> calling_convention d \<in> {''cdecl'', ''stdcall'', ''fastcall''}"
  using calling_convention_cases [of d] by auto

lemma fail_Inr: "(if b then Inl e else r) = Inr s \<longleftrightarrow> \<not> b \<and> r = Inr s"
  by simp

lemma bind_Inr: "(case x of Inl e \<Rightarrow> Inl e | Inr y \<Rightarrow> f y) = Inr s \<longleftrightarrow> (\<exists>y. x = Inr y \<and> f y = Inr s)"
  by (cases x) auto

lemma require_Inr: "(case x of None \<Rightarrow> Inl e | Some y \<Rightarrow> f y) = Inr s \<longleftrightarrow> (\<exists>y. x = Some y \<and> f y = Inr s)"
  by (cases x) auto

lemma pair_Inr: "(case y of (a, b) \<Rightarrow> f a b) = Inr s \<longleftrightarrow> (\<exists>a b. y = (a, b) \<and> f a b = Inr s)"
  by (cases y) auto

lemmas error_flow = fail_Inr bind_Inr require_Inr pair_Inr sum.inject

lemma signature_parse_ok:
  assumes "signature_parse p src conf = Inr s"
  shows "signature_ok s"
  using assms unfolding signature_parse_def Let_def error_flow
  apply (elim exE conjE)
  apply hypsubst
  unfolding signature_ok_def hook_signature.simps de_Morgan_disj not_not
  apply (elim conjE)
  apply (intro conjI)
  subgoal by (rule leI, assumption)
  subgoal by (rule leI, assumption)
  subgoal by assumption
  subgoal by assumption
  subgoal by (rule accepted_convention, assumption)
  subgoal unfolding list_ex_iff by blast
  done

subsection \<open>Splitting the parameter list\<close>

text \<open>The bracket depth after a piece, \<open>None\<close> when a bracket closes too early or a comma is not enclosed.\<close>

fun depth_after :: "string \<Rightarrow> int \<Rightarrow> int option" where
  "depth_after [] depth = Some depth"
| "depth_after (c # rest) depth =
     (if c \<in> {CHR ''('', CHR ''['', CHR ''<''} then depth_after rest (depth + 1)
      else if c \<in> {CHR '')'', CHR '']'', CHR ''>''} then (if depth - 1 < 0 then None else depth_after rest (depth - 1))
      else if c = CHR '','' \<and> depth = 0 then None
      else depth_after rest depth)"

definition good_piece :: "string \<Rightarrow> bool" where
  "good_piece d \<longleftrightarrow> d \<noteq> [] \<and> trim d = d \<and> depth_after d 0 = Some 0"

lemma depth_after_append:
  "depth_after (s @ t) depth = (case depth_after s depth of None \<Rightarrow> None | Some d \<Rightarrow> depth_after t d)"
  by (induction s depth rule: depth_after.induct) auto

lemma space_not_bracket: "is_space c \<Longrightarrow> c \<notin> {CHR ''('', CHR ''['', CHR ''<'', CHR '')'', CHR '']'', CHR ''>'', CHR '',''}"
  by (auto simp: is_space_def char_code_def)

lemma depth_after_spaces: "list_all is_space s \<Longrightarrow> depth_after s depth = Some depth"
  by (induction s) (use space_not_bracket in auto)

lemma trim_split: "\<exists>a b. s = a @ trim s @ b \<and> list_all is_space a \<and> list_all is_space b"
proof -
  let ?t = "dropWhile is_space s"
  have "s = takeWhile is_space s @ ?t" by simp
  moreover have "?t = rev (dropWhile is_space (rev ?t)) @ rev (takeWhile is_space (rev ?t))"
    by (metis rev_append rev_rev_ident takeWhile_dropWhile_id)
  moreover have "list_all is_space (takeWhile is_space s)" "list_all is_space (rev (takeWhile is_space (rev ?t)))"
    by (auto simp: list_all_iff dest: set_takeWhileD)
  ultimately show ?thesis unfolding trim_def trim_end_def trim_start_def by metis
qed

lemma depth_after_trim: "depth_after (trim s) depth = depth_after s depth"
proof -
  obtain a b where s: "s = a @ trim s @ b" and ab: "list_all is_space a" "list_all is_space b"
    using trim_split by blast
  have "depth_after s depth = depth_after (a @ trim s @ b) depth" using s by simp
  also have "\<dots> = depth_after (trim s) depth"
    by (simp add: depth_after_append depth_after_spaces ab option.case_eq_if)
  finally show ?thesis by simp
qed

lemma dropWhile_idem_rev:
  "dropWhile P (rev (dropWhile P (rev (dropWhile P s)))) = rev (dropWhile P (rev (dropWhile P s)))"
proof (cases "dropWhile P s")
  case (Cons c rest)
  then have c: "\<not> P c" by (metis hd_dropWhile list.distinct(1) list.sel(1))
  have "dropWhile P (rev rest @ [c]) = dropWhile P (rev rest) @ [c]"
    using c by (simp add: dropWhile_append)
  then show ?thesis using c Cons by simp
qed (simp only: rev.simps dropWhile.simps)

lemma trim_idem [simp]: "trim (trim s) = trim s"
  unfolding trim_def trim_end_def trim_start_def by (simp add: dropWhile_idem_rev)

lemma trim_space: "trim (CHR '' '' # s) = trim s"
  by (simp add: trim_def trim_start_def is_space_def char_code_def)

lemma split_from_good:
  "split_from s piece depth result = Inr ds \<Longrightarrow> depth_after piece 0 = Some depth \<Longrightarrow>
     \<exists>ds'. ds = result @ ds' \<and> ds' \<noteq> [] \<and> (\<forall>d \<in> set ds'. trim d = d \<and> depth_after d 0 = Some 0)"
proof (induction s piece depth result rule: split_from.induct)
  case (1 piece depth result)
  then show ?case by (auto simp: depth_after_trim split: if_splits)
next
  case (2 c rest piece depth result)
  have step: "depth_after (piece @ [c]) 0 = depth_after [c] depth"
    using 2(6) by (simp add: depth_after_append)
  show ?case
  proof (cases "c = CHR '','' \<and> depth = 0")
    case True
    have "split_from rest [] depth (result @ [trim piece]) = Inr ds" using 2(5) True by simp
    moreover have "depth_after [] 0 = Some depth" using True by simp
    ultimately obtain ds' where "ds = (result @ [trim piece]) @ ds'" "ds' \<noteq> []"
        "\<forall>d \<in> set ds'. trim d = d \<and> depth_after d 0 = Some 0"
      using 2(3) True by auto
    moreover have "depth_after (trim piece) 0 = Some 0" using 2(6) True by (simp add: depth_after_trim)
    ultimately show ?thesis by (intro exI [of _ "trim piece # ds'"]) auto
  next
    case False
    then show ?thesis using 2 step by (simp split: if_splits)
  qed
qed

lemma split_from_piece:
  "depth_after d depth = Some depth' \<Longrightarrow> split_from (d @ rest) piece depth result = split_from rest (piece @ d) depth' result"
  by (induction d depth arbitrary: piece rule: depth_after.induct) (auto split: if_splits)

lemma trim_spaces: "list_all is_space p \<Longrightarrow> trim (p @ d) = trim d"
  by (simp add: trim_def trim_start_def dropWhile_append2 list_all_iff)

lemma split_from_join:
  "ds \<noteq> [] \<Longrightarrow> list_all good_piece ds \<Longrightarrow> list_all is_space p \<Longrightarrow>
     split_from (join_with '', '' ds) p 0 result = Inr (result @ ds)"
proof (induction ds arbitrary: p result rule: induct_list012)
  case (2 d)
  then show ?case
    using split_from_piece [of d 0 0 "[]" p result] by (simp add: good_piece_def trim_spaces)
next
  case (3 d e rest)
  have d: "depth_after d 0 = Some 0" "trim (p @ d) = d" using 3 by (simp_all add: good_piece_def trim_spaces)
  have "list_all is_space '' ''" by (simp add: is_space_def char_code_def)
  then have "split_from (join_with '', '' (e # rest)) '' '' 0 (result @ [d]) = Inr ((result @ [d]) @ e # rest)"
    using 3 by auto
  then show ?case using d by (simp add: split_from_piece)
qed simp

text \<open>
  C25. The comma splitter of the prototype parser returns the parameters: each piece is trimmed, not
  empty, with balanced brackets and no comma outside them, and writing the pieces down with commas
  between them and splitting again gives the same pieces; any such list of pieces is split exactly.
\<close>

theorem parameters_roundtrip:
  "(\<forall>arguments ds. split_parameters arguments = Inr ds \<longrightarrow>
      ds \<noteq> [] \<and> list_all good_piece ds \<and> split_parameters (join_with '', '' ds) = Inr ds)
   \<and> (\<forall>ds. ds \<noteq> [] \<and> list_all good_piece ds \<longrightarrow> split_parameters (join_with '', '' ds) = Inr ds)"
proof -
  have join: "split_parameters (join_with '', '' ds) = Inr ds" if "ds \<noteq> []" "list_all good_piece ds" for ds
    using that split_from_join [of ds "[]" "[]"]
    by (auto simp: split_parameters_def list_ex_iff list_all_iff good_piece_def)
  have "ds \<noteq> [] \<and> list_all good_piece ds" if "split_parameters arguments = Inr ds" for arguments ds
    using that split_from_good [of arguments "[]" 0 "[]" ds]
    by (auto simp: split_parameters_def good_piece_def list_all_iff list_ex_iff split: sum.splits if_splits)
  with join show ?thesis by blast
qed

lemma parameters_roundtrip_witness:
  "split_parameters ''int (*cb)(int, int), char b'' = Inr [''int (*cb)(int, int)'', ''char b''] \<and>
   split_parameters (join_with '', '' [''int (*cb)(int, int)'', ''char b'']) = Inr [''int (*cb)(int, int)'', ''char b'']"
proof -
  have "split_parameters ''int (*cb)(int, int), char b'' = Inr [''int (*cb)(int, int)'', ''char b'']" by code_simp
  then show ?thesis using parameters_roundtrip by blast
qed

subsection \<open>Widths\<close>

lemma mask_width_exact: "w \<le> 8 \<Longrightarrow> mask_width v w = take_bit (8 * unat w) v"
proof (cases "w \<le> 7")
  case True
  then have w: "unat w \<le> 7" "unat (w * 8) = 8 * unat w"
    by (simp_all add: word_le_nat_alt unat_word_ariths)
  show ?thesis
  proof (cases "w = 0")
    case False
    then show ?thesis using True w by (simp add: mask_width_def take_bit_eq_mask mask_eq_exp_minus_1)
  qed (simp add: mask_width_def)
next
  case False
  assume "w \<le> 8"
  with False have "unat w = 8" by (simp add: word_le_nat_alt)
  moreover from False have "w \<noteq> 0" by auto
  ultimately show ?thesis using False by (simp add: mask_width_def take_bit_word_eq_self)
qed

lemma sint_shift_back:
  assumes "k < 64"
  shows "sint (signed_drop_bit k (push_bit k (v :: u64))) = signed_take_bit (63 - k) (uint v)"
proof (rule bit_eqI)
  fix i
  have "bit (sint (signed_drop_bit k (push_bit k v))) i \<longleftrightarrow> bit v (min (63 - k) i)"
  proof (cases "i < 63 - k")
    case True
    then show ?thesis
      using assms by (auto simp: bit_sint_iff bit_signed_drop_bit_iff bit_push_bit_iff min_def)
  next
    case False
    then have "min (63 - k) i = 63 - k" "i < 64 - k \<Longrightarrow> i = 63 - k" by auto
    then show ?thesis
      using assms False by (cases "k = 0"; cases "i = 63") (auto simp: bit_sint_iff bit_signed_drop_bit_iff bit_push_bit_iff not_less dest: bit_imp_le_length)
  qed
  then show "bit (sint (signed_drop_bit k (push_bit k v))) i \<longleftrightarrow> bit (signed_take_bit (63 - k) (uint v)) i"
    by (auto simp: bit_signed_take_bit_iff bit_uint_iff dest: bit_imp_le_length)
qed

lemma sign_extend_exact:
  assumes "1 \<le> w" "w \<le> 8"
  shows "sign_extend v w = signed_take_bit (8 * unat w - 1) (uint v)"
proof -
  have w: "1 \<le> unat w" "unat w \<le> 8" using assms by (simp_all add: word_le_nat_alt)
  have clamp: "min (max w 1) 8 = w" using assms by (simp add: min_def max_def)
  have eight: "unat (w * 8) = 8 * unat w" using w by (simp add: unat_word_ariths)
  show ?thesis
  proof (cases "w = 8")
    case False
    then have less: "unat w < 8" using w word_unat_eq_iff [of w 8] by simp
    have "w * 8 \<noteq> 64" using eight less by auto
    moreover have "unat (64 - w * 8) = 64 - 8 * unat w"
      using eight less by (simp add: unat_sub word_le_nat_alt)
    ultimately show ?thesis using less w
      by (simp add: sign_extend_def clamp Let_def sint_shift_back)
  next
    case True
    then show ?thesis by (simp add: sign_extend_def sint_uint)
  qed
qed

text \<open>
  C26. A captured integer of a declared width of one to eight bytes is shown as the two's complement
  value of its low bytes: in range for the width, congruent to the captured register, and never
  influenced by the garbage above the width.
\<close>

theorem signed_display_exact:
  assumes "ty_kind ty = Signed" "size_for ty pointer_width = Some w" "1 \<le> w" "w \<le> 8"
    and "raw_u64 raw = Some v"
  shows "\<exists>i. typed_value show_float show_double index name ty raw pointer_width =
       JObject [(''index'', JString (show_nat index)), (''name'', JString name),
         (''type'', JString (ty_spelling ty)), (''kind'', JString ''signed''),
         (''size'', JString (show_nat (unat w))), (''raw'', json_option raw), (''value'', JString (show_int i)),
         (''display'', JString (show_int i)), (''quality'', JString ''exact'')]
     \<and> - (2 ^ (8 * unat w - 1)) \<le> i \<and> i < 2 ^ (8 * unat w - 1)
     \<and> i mod 2 ^ (8 * unat w) = uint v mod 2 ^ (8 * unat w)"
proof -
  let ?b = "8 * unat w"
  let ?i = "signed_take_bit (?b - 1) (uint v)"
  have w: "1 \<le> unat w" "unat w \<le> 8" using assms(3,4) by (simp_all add: word_le_nat_alt)
  have mask: "mask_width v w = take_bit ?b v" by (rule mask_width_exact) fact
  have "sign_extend (take_bit ?b v) w = signed_take_bit (?b - 1) (take_bit ?b (uint v))"
    using sign_extend_exact [OF assms(3,4), of "take_bit ?b v"] by (simp add: unsigned_take_bit_eq)
  also have "\<dots> = ?i"
  proof -
    have "\<not> ?b \<le> ?b - 1" using w by linarith
    then show ?thesis by (simp only: signed_take_bit_take_bit if_False)
  qed
  finally have shown: "sign_extend (mask_width v w) w = ?i" by (simp add: mask)
  have range: "- (2 ^ (?b - 1)) \<le> ?i" "?i < 2 ^ (?b - 1)"
    by (rule signed_take_bit_int_greater_eq_minus_exp, rule signed_take_bit_int_less_exp)
  have "take_bit ?b ?i = take_bit ?b (uint v)" using w by (intro take_bit_signed_take_bit) simp
  then have low: "?i mod 2 ^ ?b = uint v mod 2 ^ ?b" by (simp add: take_bit_eq_mod)
  show ?thesis
    by (rule exI [of _ ?i]) (use range low in \<open>simp add: typed_value_def typed_parts_def shown assms Let_def value_kind_name_def json_option_def\<close>)
qed

lemma signed_display_exact_witness:
  "\<exists>i. typed_value (\<lambda>_. []) (\<lambda>_. []) 0 ''n'' (classify_type ''ssize_t'') (Some (JString ''0x1ffffffff'')) 4 =
       JObject [(''index'', JString (show_nat 0)), (''name'', JString ''n''),
         (''type'', JString ''ssize_t''), (''kind'', JString ''signed''),
         (''size'', JString (show_nat (unat (4 :: u32)))), (''raw'', JString ''0x1ffffffff''),
         (''value'', JString (show_int i)), (''display'', JString (show_int i)), (''quality'', JString ''exact'')]
     \<and> - (2 ^ 31) \<le> i \<and> i < 2 ^ 31 \<and> i mod 2 ^ 32 = 2 ^ 32 - 1"
proof -
  have ty: "ty_kind (classify_type ''ssize_t'') = Signed" by code_simp
  have spelling: "ty_spelling (classify_type ''ssize_t'') = ''ssize_t''" by code_simp
  have "ty_pointer_sized (classify_type ''ssize_t'')" by code_simp
  then have width: "size_for (classify_type ''ssize_t'') 4 = Some 4" by (simp add: size_for_def)
  have "parse_unsigned 16 (2 ^ 64) ''1ffffffff'' = Some 0x1ffffffff"
    by (simp add: parse_unsigned_def digit_value_def is_digit_def is_lower_def char_code_def)
  then have raw: "raw_u64 (Some (JString ''0x1ffffffff'')) = Some 0x1ffffffff"
    by (simp add: raw_u64_def json_as_str_def trim_def trim_start_def trim_end_def is_space_def char_code_def
        strip_prefix_def starts_with_def)
  have "unat (4 :: u32) = 4" "uint (0x1ffffffff :: u64) = 0x1ffffffff" by simp_all
  then show ?thesis
    using signed_display_exact [OF ty width _ _ raw, where show_float = "\<lambda>_. []" and show_double = "\<lambda>_. []"
        and index = 0 and name = "''n''"]
    unfolding spelling json_option_def by simp
qed

subsection \<open>Calling conventions\<close>

lemma sum_case_InrE:
  "(case x of Inl e \<Rightarrow> False | Inr s \<Rightarrow> P s) \<Longrightarrow> (\<And>s. x = Inr s \<Longrightarrow> P s \<Longrightarrow> Q) \<Longrightarrow> Q"
  by (cases x) auto

text \<open>
  C27. What the parser lets through: at most sixteen parameters, a confidence of at most 100, a plain
  function name, a known convention, and no floating argument in a fastcall register. The vector
  convention is only recognised in its spelling with two underscores: the bare word is stripped from
  the return type like the other conventions, but the prototype is then taken for cdecl.
\<close>

theorem vectorcall_word_accepted:
  "(\<forall>p source confidence s. signature_parse p source confidence = Inr s \<longrightarrow>
      length (hs_parameters s) \<le> MAX_PARAMETERS \<and> hs_confidence s \<le> 100
      \<and> hs_function s \<noteq> [] \<and> list_all is_word_char (hs_function s)
      \<and> hs_calling_convention s \<in> {''cdecl'', ''stdcall'', ''fastcall''}
      \<and> (hs_calling_convention s = ''fastcall'' \<longrightarrow>
          (\<forall>q \<in> set (take 2 (hs_parameters s)). ty_kind (pm_ty q) \<notin> {Float32, Float64})))
   \<and> signature_parse ''float __vectorcall F(float x);'' ''header'' 90 = Inl Vectorcall_unsupported
   \<and> (\<exists>s. signature_parse ''float vectorcall F(float x);'' ''header'' 90 = Inr s
       \<and> hs_calling_convention s = ''cdecl'' \<and> ty_kind (hs_return_type s) = Float32)"
proof -
  have "signature_parse ''float __vectorcall F(float x);'' ''header'' 90 = Inl Vectorcall_unsupported" by code_simp
  moreover have "case signature_parse ''float vectorcall F(float x);'' ''header'' 90 of
      Inl _ \<Rightarrow> False | Inr s \<Rightarrow> hs_calling_convention s = ''cdecl'' \<and> ty_kind (hs_return_type s) = Float32"
    by code_simp
  ultimately show ?thesis
    using signature_parse_ok by (auto simp: signature_ok_def split: sum.splits)
qed

lemma vectorcall_word_accepted_witness:
  "\<exists>s. signature_parse ''float __stdcall F(float a, double b)'' ''pdb'' 100 = Inr s
     \<and> length (hs_parameters s) = 2 \<and> hs_calling_convention s \<in> {''cdecl'', ''stdcall'', ''fastcall''}"
proof -
  have "case signature_parse ''float __stdcall F(float a, double b)'' ''pdb'' 100 of
      Inl _ \<Rightarrow> False | Inr s \<Rightarrow> length (hs_parameters s) = 2" by code_simp
  then obtain s where "signature_parse ''float __stdcall F(float a, double b)'' ''pdb'' 100 = Inr s" "length (hs_parameters s) = 2"
    by (rule sum_case_InrE)
  then show ?thesis using vectorcall_word_accepted by blast
qed

end
