(* ===== verification/Pb_Utf8.thy ===== *)
theory Pb_Utf8
  imports Pb_Prelude
begin

section \<open>UTF-8 text\<close>

text \<open>
  A Rust \<open>String\<close> is its UTF-8 bytes. The methods the wire code uses: \<open>String::from_utf8_lossy\<close>, which
  puts U+FFFD for each maximal ill-formed run, \<open>chars\<close>, and \<open>is_char_boundary\<close>. \<open>utf8_next\<close> tells
  whether a well-formed character starts the text, and how many bytes it, or the ill-formed run, takes.
\<close>

definition utf8_cont :: "u8 \<Rightarrow> bool" where "utf8_cont b \<longleftrightarrow> 0x80 \<le> b \<and> b < 0xC0"

definition utf8_width :: "u8 \<Rightarrow> nat" where
  "utf8_width b = (if b < 0x80 then 1 else if b < 0xC2 then 0 else if b < 0xE0 then 2
     else if b < 0xF0 then 3 else if b < 0xF5 then 4 else 0)"

definition utf8_second :: "u8 \<Rightarrow> u8 \<Rightarrow> bool" where
  "utf8_second first b \<longleftrightarrow>
     (if first = 0xE0 then 0xA0 \<le> b \<and> b < 0xC0
      else if first = 0xED then 0x80 \<le> b \<and> b < 0xA0
      else if first = 0xF0 then 0x90 \<le> b \<and> b < 0xC0
      else if first = 0xF4 then 0x80 \<le> b \<and> b < 0x90
      else utf8_cont b)"

fun utf8_next :: "bytes \<Rightarrow> bool \<times> nat" where
  "utf8_next [] = (False, 0)"
| "utf8_next (b # rest) =
     (let width = utf8_width b
      in if width = 1 then (True, 1)
         else if width = 0 \<or> rest = [] \<or> \<not> utf8_second b (rest ! 0) then (False, 1)
         else if width = 2 then (True, 2)
         else if length rest < 2 \<or> \<not> utf8_cont (rest ! 1) then (False, 2)
         else if width = 3 then (True, 3)
         else if length rest < 3 \<or> \<not> utf8_cont (rest ! 2) then (False, 3)
         else (True, 4))"

lemma utf8_next_ok:
  "utf8_next (b # rest) = (True, n) \<longleftrightarrow> n = utf8_width b \<and> 0 < n \<and> n \<le> Suc (length rest) \<and>
     (1 < n \<longrightarrow> utf8_second b (rest ! 0)) \<and> (2 < n \<longrightarrow> utf8_cont (rest ! 1)) \<and> (3 < n \<longrightarrow> utf8_cont (rest ! 2))"
proof -
  have "utf8_width b \<in> {0, 1, 2, 3, 4}" by (simp add: utf8_width_def)
  then show ?thesis by (cases rest; cases "tl rest"; cases "tl (tl rest)") (auto simp: Let_def)
qed

lemma utf8_next_pos: "utf8_next (b # s) = (ok, n) \<Longrightarrow> 0 < n"
  by (auto simp: Let_def split: if_splits)

function utf8_chunks :: "bytes \<Rightarrow> (bool \<times> bytes) list" where
  "utf8_chunks [] = []"
| "utf8_chunks (b # s) =
     (case utf8_next (b # s) of (ok, n) \<Rightarrow> (ok, take n (b # s)) # utf8_chunks (drop n (b # s)))"
  by pat_completeness auto
termination
proof (relation "measure length", goal_cases)
  case (2 b s ok n)
  then show ?case using utf8_next_pos [of b s ok n] by (cases n) auto
qed simp

definition is_utf8 :: "bytes \<Rightarrow> bool" where "is_utf8 s \<longleftrightarrow> list_all fst (utf8_chunks s)"

definition utf8_chars :: "bytes \<Rightarrow> bytes list" where "utf8_chars s = map snd (utf8_chunks s)"

definition REPLACEMENT :: bytes where "REPLACEMENT = [0xEF, 0xBF, 0xBD]"

definition utf8_lossy :: "bytes \<Rightarrow> bytes" where
  "utf8_lossy s = concat (map (\<lambda>(ok, c). if ok then c else REPLACEMENT) (utf8_chunks s))"

definition is_char_boundary :: "bytes \<Rightarrow> nat \<Rightarrow> bool" where
  "is_char_boundary s i \<longleftrightarrow> i = 0 \<or> i = length s \<or> (i < length s \<and> \<not> utf8_cont (s ! i))"

subsection \<open>Characters\<close>

definition utf8_char :: "bytes \<Rightarrow> bool" where "utf8_char c \<longleftrightarrow> utf8_next c = (True, length c)"

lemma utf8_char_ne: "utf8_char c \<Longrightarrow> c \<noteq> []"
  by (auto simp: utf8_char_def)

text \<open>Whether a character starts the text does not depend on what follows it.\<close>

lemma utf8_next_append: "utf8_next s = (True, n) \<Longrightarrow> utf8_next (s @ rest) = (True, n)"
  by (cases s) (auto simp: utf8_next_ok nth_append simp del: utf8_next.simps(2))

lemma utf8_next_take:
  assumes "utf8_next s = (True, n)"
  shows "utf8_char (take n s)"
proof (cases s)
  case (Cons b rest)
  with assms have n: "0 < n" "n \<le> length s" by (auto simp: utf8_next_ok simp del: utf8_next.simps(2))
  have "utf8_next (b # take (n - 1) rest) = (True, n)"
    using assms Cons by (auto simp add: utf8_next_ok simp del: utf8_next.simps(2))
  then show ?thesis using n Cons by (simp add: utf8_char_def take_Cons' del: utf8_next.simps(2))
qed (use assms in simp)

lemma utf8_chunks_char: "utf8_char c \<Longrightarrow> utf8_chunks (c @ s) = (True, c) # utf8_chunks s"
  using utf8_next_append [of c "length c" s] utf8_char_ne [of c]
  by (cases c) (auto simp: utf8_char_def simp del: utf8_next.simps)

lemma utf8_chunks_chars: "list_all utf8_char cs \<Longrightarrow> utf8_chunks (concat cs) = map (Pair True) cs"
  by (induction cs) (auto simp: utf8_chunks_char)

lemma utf8_chunks_ok: "(True, c) \<in> set (utf8_chunks s) \<Longrightarrow> utf8_char c"
proof (induction s rule: utf8_chunks.induct)
  case (2 b s)
  obtain ok n where n: "utf8_next (b # s) = (ok, n)" by (cases "utf8_next (b # s)")
  then show ?case using 2 utf8_next_take [of "b # s" n] by (auto simp del: utf8_next.simps)
qed simp

lemma concat_chunks: "concat (map snd (utf8_chunks s)) = s"
  by (induction s rule: utf8_chunks.induct) (auto simp del: utf8_next.simps split: prod.split)

lemma concat_chars [simp]: "concat (utf8_chars s) = s"
  by (simp add: utf8_chars_def concat_chunks)

lemma is_utf8_chunks: "is_utf8 s \<Longrightarrow> utf8_chunks s = map (Pair True) (utf8_chars s)"
  unfolding is_utf8_def utf8_chars_def by (induction "utf8_chunks s" arbitrary: s) (auto simp: list_all_iff intro!: map_idI [symmetric])

lemma utf8_chars_ok: "is_utf8 s \<Longrightarrow> list_all utf8_char (utf8_chars s)"
  using is_utf8_chunks [of s] utf8_chunks_ok [of _ s] by (auto simp: list_all_iff)

lemma utf8_concat: "list_all utf8_char cs \<Longrightarrow> is_utf8 (concat cs) \<and> utf8_chars (concat cs) = cs"
  by (simp add: is_utf8_def utf8_chars_def utf8_chunks_chars list_all_iff comp_def)

lemma is_utf8_iff: "is_utf8 s \<longleftrightarrow> (\<exists>cs. list_all utf8_char cs \<and> s = concat cs)"
  using utf8_concat utf8_chars_ok concat_chars by metis

lemma is_utf8_Nil [simp]: "is_utf8 []"
  by (simp add: is_utf8_def)

lemma is_utf8_append: "is_utf8 s \<Longrightarrow> is_utf8 t \<Longrightarrow> is_utf8 (s @ t)"
  by (metis is_utf8_iff concat_append list_all_append)

lemma utf8_lossy_id [simp]: "is_utf8 s \<Longrightarrow> utf8_lossy s = s"
  by (simp add: utf8_lossy_def is_utf8_chunks comp_def)

lemma replacement_char: "utf8_char REPLACEMENT"
  by (simp add: utf8_char_def REPLACEMENT_def utf8_width_def utf8_second_def utf8_cont_def)

lemma lossy_is_utf8 [simp]: "is_utf8 (utf8_lossy s)"
proof -
  have "list_all utf8_char (map (\<lambda>(ok, c). if ok then c else REPLACEMENT) (utf8_chunks s))"
    using utf8_chunks_ok [of _ s] by (auto simp: list_all_iff replacement_char)
  then show ?thesis unfolding utf8_lossy_def by (rule utf8_concat [THEN conjunct1])
qed

lemma ascii_char: "b < 0x80 \<Longrightarrow> utf8_char [b]"
  by (simp add: utf8_char_def utf8_width_def)

lemma ascii_utf8: "list_all (\<lambda>b. b < 0x80) s \<Longrightarrow> is_utf8 s \<and> utf8_chars s = map (\<lambda>b. [b]) s"
  using utf8_concat [of "map (\<lambda>b. [b]) s"] by (auto simp: list_all_iff ascii_char)

lemma take_chars: "is_utf8 s \<Longrightarrow> is_utf8 (concat (take n (utf8_chars s)))"
  by (rule utf8_concat [THEN conjunct1]) (use utf8_chars_ok [of s] in \<open>auto simp: list_all_iff dest: in_set_takeD\<close>)

subsection \<open>Boundaries\<close>

text \<open>A continuation byte never starts a character, and every byte after the first is one.\<close>

lemma second_cont: "utf8_second a b \<Longrightarrow> utf8_cont b"
  by (auto simp: utf8_second_def utf8_cont_def word_less_nat_alt word_le_nat_alt split: if_splits)

lemma char_cases:
  assumes "utf8_char (b # c)"
  shows "\<not> utf8_cont b" and "length c < 4" and "list_all utf8_cont c"
proof -
  have w: "utf8_width b = Suc (length c)"
    and 1: "0 < length c \<longrightarrow> utf8_cont (c ! 0)" and 2: "1 < length c \<longrightarrow> utf8_cont (c ! 1)"
    and 3: "2 < length c \<longrightarrow> utf8_cont (c ! 2)"
    using assms by (auto simp: utf8_char_def utf8_next_ok dest: second_cont simp del: utf8_next.simps(2))
  show "\<not> utf8_cont b"
    using w by (auto simp: utf8_width_def utf8_cont_def word_less_nat_alt word_le_nat_alt split: if_splits)
  show len: "length c < 4" using w by (auto simp: utf8_width_def split: if_splits)
  show "list_all utf8_cont c"
    unfolding list_all_length
  proof (intro allI impI)
    fix i assume i: "i < length c"
    then have "i = 0 \<or> i = 1 \<or> i = 2" using len by linarith
    then show "utf8_cont (c ! i)" using i 1 2 3 by auto
  qed
qed

lemma boundary_char:
  assumes "utf8_char c" "list_all utf8_char cs"
  shows "is_char_boundary (c @ concat cs) i \<longleftrightarrow> i = 0 \<or> (length c \<le> i \<and> is_char_boundary (concat cs) (i - length c))"
proof -
  obtain b t where c: "c = b # t" using utf8_char_ne [OF assms(1)] by (cases c) auto
  have tail: "utf8_cont (c ! i)" if "0 < i" "i < length c"
    using char_cases(3) [where b = b and c = t] assms(1) that c by (cases i) (auto simp: list_all_length)
  have head: "\<not> utf8_cont (concat cs ! 0)" if "concat cs \<noteq> []"
  proof (cases cs)
    case (Cons d ds)
    then obtain h u where "d = h # u" using assms(2) utf8_char_ne [of d] by (cases d) auto
    then show ?thesis using Cons assms(2) char_cases(1) by auto
  qed (use that in simp)
  show ?thesis
  proof (cases "i < length c")
    case True
    then show ?thesis using tail by (cases "i = 0") (auto simp: is_char_boundary_def nth_append)
  next
    case False
    then show ?thesis using head c by (auto simp: is_char_boundary_def nth_append)
  qed
qed

text \<open>Cutting well-formed text at a boundary leaves well-formed text.\<close>

lemma boundary_take: "is_utf8 s \<Longrightarrow> is_char_boundary s i \<Longrightarrow> is_utf8 (take i s)"
proof -
  have "list_all utf8_char cs \<Longrightarrow> is_char_boundary (concat cs) i \<Longrightarrow> is_utf8 (take i (concat cs))" for cs
  proof (induction cs arbitrary: i)
    case (Cons c cs)
    then have c: "is_utf8 c" using utf8_concat [of "[c]"] by simp
    show ?case
    proof (cases "i = 0")
      case False
      then have i: "length c \<le> i" "is_char_boundary (concat cs) (i - length c)"
        using Cons.prems boundary_char [of c cs i] by auto
      then have "is_utf8 (take (i - length c) (concat cs))" using Cons by auto
      with i c show ?thesis by (simp add: is_utf8_append)
    qed simp
  qed simp
  then show "is_utf8 s \<Longrightarrow> is_char_boundary s i \<Longrightarrow> is_utf8 (take i s)"
    using utf8_chars_ok concat_chars by metis
qed

end
