(* ===== verification/Pb_Formats.thy ===== *)
theory Pb_Formats
  imports Pb_Wire Pb_Utf8
begin

section \<open>Request and reply formats\<close>

text \<open>
  The readers of \<open>query_server.rs\<close> and \<open>client.rs\<close> chain the methods of \<open>proto::Reader\<close> with \<open>?\<close>: the
  first that fails ends the whole parse. A \<open>parser\<close> is such a chain, \<open>then_read\<close> its sequencing and
  \<open>repeat_read\<close> the loops \<open>for _ in 0..count\<close>. \<open>reads p bs x\<close> says that \<open>p\<close> takes exactly \<open>bs\<close> off the
  unread bytes and returns \<open>x\<close>; a \<open>wire_format\<close> is a writer whose image its parser reads back.
\<close>

type_synonym 'a parser = "reader \<Rightarrow> ('a \<times> reader) option"

definition read_return :: "'a \<Rightarrow> 'a parser" where "read_return x r = Some (x, r)"

definition read_fail :: "'a parser" where "read_fail r = None"

definition then_read :: "'a parser \<Rightarrow> ('a \<Rightarrow> 'b parser) \<Rightarrow> 'b parser" where
  "then_read p f r = (case p r of None \<Rightarrow> None | Some (x, r) \<Rightarrow> f x r)"

fun repeat_read :: "nat \<Rightarrow> 'a parser \<Rightarrow> 'a list parser" where
  "repeat_read 0 p = read_return []"
| "repeat_read (Suc count) p = then_read p (\<lambda>x. then_read (repeat_read count p) (\<lambda>xs. read_return (x # xs)))"

text \<open>\<open>reader.remaining()\<close> as a step that takes nothing, and \<open>take_str\<close> of \<open>query_server.rs\<close>.\<close>

definition read_remaining :: "bytes parser" where "read_remaining r = Some (reader_remaining r, r)"

definition take_str :: "nat \<Rightarrow> bytes parser" where
  "take_str count r =
     (let rest = reader_remaining r
      in if length rest < count then None
         else map_option (\<lambda>(_, r). (utf8_lossy (take count rest), r)) (reader_skip count r))"

definition parse :: "'a parser \<Rightarrow> bytes \<Rightarrow> 'a option" where
  "parse p payload = map_option fst (p (reader_new payload))"

subsection \<open>Reading back\<close>

definition reader_ok :: "reader \<Rightarrow> bool" where "reader_ok r \<longleftrightarrow> rd_pos r \<le> length (rd_bytes r)"

definition reads :: "'a parser \<Rightarrow> bytes \<Rightarrow> 'a \<Rightarrow> bool" where
  "reads p bs x \<longleftrightarrow> (\<forall>r rest. reader_ok r \<longrightarrow> reader_remaining r = bs @ rest \<longrightarrow>
     p r = Some (x, reader_advance (length bs) r))"

named_theorems pb_reads

lemma reader_advance_add [simp]: "reader_advance m (reader_advance n r) = reader_advance (n + m) r"
  by (simp add: reader_advance_def add.assoc)

lemma reader_advance_0 [simp]: "reader_advance 0 r = r"
  by (simp add: reader_advance_def)

lemma reader_ok_advance:
  "reader_ok r \<Longrightarrow> reader_remaining r = bs @ rest \<Longrightarrow> reader_ok (reader_advance (length bs) r)"
  unfolding reader_ok_def reader_advance_def reader_remaining_def
  by (drule arg_cong [where f = length]) simp

lemma reader_ok_new [simp]: "reader_ok (reader_new bs)"
  by (simp add: reader_ok_def reader_new_def)

lemma reads_return [pb_reads]: "reads (read_return x) [] x"
  by (simp add: reads_def read_return_def)

lemma reads_then [pb_reads]:
  assumes "reads p bs x" "reads (f x) cs y"
  shows "reads (then_read p f) (bs @ cs) y"
  unfolding reads_def
proof (intro allI impI)
  fix r rest
  assume r: "reader_ok r" "reader_remaining r = (bs @ cs) @ rest"
  have "p r = Some (x, reader_advance (length bs) r)" using assms(1) r by (simp add: reads_def)
  moreover have "f x (reader_advance (length bs) r) = Some (y, reader_advance (length cs) (reader_advance (length bs) r))"
    using assms(2) r reader_ok_advance [OF r(1), of bs "cs @ rest"] by (simp add: reads_def)
  ultimately show "then_read p f r = Some (y, reader_advance (length (bs @ cs)) r)"
    by (simp add: then_read_def)
qed

text \<open>The last step of a chain takes nothing.\<close>

lemma reads_last [pb_reads]: "reads p bs x \<Longrightarrow> reads (then_read p (\<lambda>x. read_return (f x))) bs (f x)"
  using reads_then [of p bs x "\<lambda>x. read_return (f x)" "[]" "f x"] by (simp add: reads_return)

lemma reads_u8 [pb_reads]: "reads reader_u8 [b] b"
  by (auto simp: reads_def)

lemma reads_u16 [pb_reads]: "reads reader_u16 (le_u16 v) v"
  by (auto simp: reads_def reader_u16_remaining)

lemma reads_u32 [pb_reads]: "reads reader_u32 (le_u32 v) v"
  by (auto simp: reads_def)

lemma reads_u64 [pb_reads]: "reads reader_u64 (le_u64 v) v"
  by (auto simp: reads_def)

lemma reads_repeat:
  "\<forall>x \<in> set xs. reads p (put x) x \<Longrightarrow> reads (repeat_read (length xs) p) (concat (map put xs)) xs"
proof (induction xs)
  case (Cons x xs)
  have "reads (then_read (repeat_read (length xs) p) (\<lambda>ys. read_return (x # ys))) (concat (map put xs)) (x # xs)"
    by (rule reads_last) (use Cons in auto)
  then show ?case using reads_then [of p "put x" x] Cons by simp
qed (simp add: reads_return)

lemma reader_skip_remaining:
  "reader_ok r \<Longrightarrow>
     reader_skip n r = (if length (reader_remaining r) < n then None else Some ((), reader_advance n r))"
  by (auto simp: reader_skip_def get_range_def reader_remaining_def reader_ok_def)

lemma reads_str [pb_reads]: "reads (take_str (length s)) s (utf8_lossy s)"
  by (auto simp: reads_def take_str_def reader_skip_remaining Let_def)

lemma reads_parse: "reads p bs x \<Longrightarrow> parse p (bs @ rest) = Some x"
  by (simp add: reads_def parse_def)

lemma reads_parse_exact: "reads p bs x \<Longrightarrow> parse p bs = Some x"
  using reads_parse [of p bs x "[]"] by simp

text \<open>\<open>remaining()\<close> at the end of a payload: the rest of the bytes.\<close>

lemma parse_then_remaining:
  assumes "reads p bs x"
  shows "parse (then_read p (\<lambda>x. then_read read_remaining (f x))) (bs @ rest) =
    map_option fst (f x rest (reader_advance (length bs) (reader_new (bs @ rest))))"
  using assms by (simp add: reads_def parse_def then_read_def read_remaining_def)

subsection \<open>The format interface\<close>

locale wire_format =
  fixes get :: "'a parser" and put :: "'a \<Rightarrow> bytes" and ok :: "'a \<Rightarrow> bool"
  assumes get_put: "ok x \<Longrightarrow> reads get (put x) x"
begin

lemma get_list: "list_all ok xs \<Longrightarrow> reads (repeat_read (length xs) get) (concat (map put xs)) xs"
  by (rule reads_repeat) (simp add: list_all_iff get_put)

lemma get_pair:
  assumes "reads (f x) bs y" "ok x"
  shows "reads (then_read get f) (put x @ bs) y"
  by (rule reads_then) (use assms get_put in auto)

end

interpretation u64s: wire_format reader_u64 le_u64 "\<lambda>_. True"
  by unfold_locales (rule reads_u64)

interpretation u32s: wire_format reader_u32 le_u32 "\<lambda>_. True"
  by unfold_locales (rule reads_u32)

text \<open>Text with a length of two bytes in front, and the ranges and rows of several fields.\<close>

definition put_short :: "bytes \<Rightarrow> bytes" where
  "put_short s = le_u16 (word_of_nat (length s)) @ s"

definition read_short :: "bytes parser" where
  "read_short = then_read reader_u16 (\<lambda>n. take_str (unat n))"

definition short_ok :: "bytes \<Rightarrow> bool" where "short_ok s \<longleftrightarrow> length s < 2 ^ 16 \<and> is_utf8 s"

interpretation shorts: wire_format read_short put_short short_ok
proof unfold_locales
  fix s assume ok: "short_ok s"
  then have "unat (word_of_nat (length s) :: u16) = length s" by (simp add: short_ok_def unat_of_nat)
  then have "reads (take_str (unat (word_of_nat (length s) :: u16))) s s"
    using reads_str [of s] ok by (simp add: short_ok_def)
  then show "reads read_short (put_short s) s"
    unfolding read_short_def put_short_def by (rule reads_then [OF reads_u16])
qed

definition put_name :: "bytes \<Rightarrow> bytes" where
  "put_name s = le_u32 (word_of_nat (length s)) @ s"

definition read_name :: "bytes parser" where
  "read_name = then_read reader_u32 (\<lambda>n. take_str (unat n))"

definition name_ok :: "bytes \<Rightarrow> bool" where "name_ok s \<longleftrightarrow> length s < 2 ^ 32 \<and> is_utf8 s"

interpretation names: wire_format read_name put_name name_ok
proof unfold_locales
  fix s assume ok: "name_ok s"
  then have "unat (word_of_nat (length s) :: u32) = length s" by (simp add: name_ok_def unat_of_nat)
  then have "reads (take_str (unat (word_of_nat (length s) :: u32))) s s"
    using reads_str [of s] ok by (simp add: name_ok_def)
  then show "reads read_name (put_name s) s"
    unfolding read_name_def put_name_def by (rule reads_then [OF reads_u32])
qed

text \<open>Rows of a counted list: the count in four bytes, then each row.\<close>

definition put_rows :: "('a \<Rightarrow> bytes) \<Rightarrow> 'a list \<Rightarrow> bytes" where
  "put_rows put xs = le_u32 (word_of_nat (length xs)) @ concat (map put xs)"

definition read_rows :: "'a parser \<Rightarrow> 'a list parser" where
  "read_rows p = then_read reader_u32 (\<lambda>n. repeat_read (unat n) p)"

lemma reads_rows:
  assumes "length xs < 2 ^ 32" "\<forall>x \<in> set xs. reads p (put x) x"
  shows "reads (read_rows p) (put_rows put xs) xs"
proof -
  have "unat (word_of_nat (length xs) :: u32) = length xs" using assms by (simp add: unat_of_nat)
  then have "reads (repeat_read (unat (word_of_nat (length xs) :: u32)) p) (concat (map put xs)) xs"
    using reads_repeat [of xs p put] assms by simp
  then show ?thesis unfolding read_rows_def put_rows_def by (rule reads_then [OF reads_u32])
qed

definition read_range :: "(u64 \<times> u64) parser" where
  "read_range = then_read reader_u64 (\<lambda>lo. then_read reader_u64 (\<lambda>hi. read_return (lo, hi)))"

definition put_range :: "u64 \<times> u64 \<Rightarrow> bytes" where
  "put_range bounds = le_u64 (fst bounds) @ le_u64 (snd bounds)"

interpretation ranges: wire_format read_range put_range "\<lambda>_. True"
  by unfold_locales
    (auto simp: read_range_def put_range_def intro!: pb_reads)

end
