(* ===== verification/Pb_Syscalls.thy ===== *)
theory Pb_Syscalls
  imports Pb_Intercept Pb_Hook_Rules
begin

section \<open>The system call engine (syscall_engine.rs)\<close>

text \<open>
  \<open>bindings/rust/pinbridge-agent/src/syscall_engine.rs\<close>: the number and caller filter, the state an
  entry leaves in Pin's thread-local storage for the exit it belongs to, and the two callbacks. What
  Pin answers is an argument: the values read from the context (\<open>syscall_probe\<close>) and whether each call
  on the thread-local storage succeeded (\<open>tls_calls\<close>). A slot that holds 0 is null. The callbacks
  return their submissions in order; the lanes are those of \<open>Pb_Channels\<close>. \<open>width\<close> is the pointer
  width of the image (4 or 8), which is also the size of \<open>usize\<close>. Filter snapshots are immutable and
  never freed, so a callback's one load of the pointer is one read of \<open>sy_filter\<close>.
\<close>

definition SYSCALL_NUMBER_LIMIT :: nat where "SYSCALL_NUMBER_LIMIT = 4096"

definition canonical_number :: "u32 \<Rightarrow> u64 \<Rightarrow> u64" where
  "canonical_number width number =
     (if width = 4 then number AND (word_of_nat SYSCALL_NUMBER_LIMIT - 1) else number)"

record filter_snapshot =
  fs_mode :: u8
  fs_bitmap :: "u64 list"
  fs_scope_start :: u64
  fs_scope_end :: u64

record syscalls =
  sy_enabled :: bool
  sy_observation :: bool
  sy_key :: int
  sy_generation :: u64
  sy_filter :: "filter_snapshot option"
  sy_retired :: "filter_snapshot list"
  sy_tls :: "u32 \<Rightarrow> u64"

definition syscalls_new :: syscalls where
  "syscalls_new = \<lparr>sy_enabled = True, sy_observation = False, sy_key = PB_INVALID_TLS_KEY,
     sy_generation = 0, sy_filter = None, sy_retired = [], sy_tls = (\<lambda>_. 0)\<rparr>"

definition syscall_generation :: "syscalls \<Rightarrow> u64" where "syscall_generation s = sy_generation s"

definition next_generation :: "syscalls \<Rightarrow> u64 \<times> syscalls" where
  "next_generation s = (sy_generation s + 1, s\<lparr>sy_generation := sy_generation s + 1\<rparr>)"

definition set_enabled :: "bool \<Rightarrow> syscalls \<Rightarrow> syscalls" where "set_enabled on s = s\<lparr>sy_enabled := on\<rparr>"
definition set_syscall_observation :: "bool \<Rightarrow> syscalls \<Rightarrow> syscalls" where
  "set_syscall_observation on s = s\<lparr>sy_observation := on\<rparr>"

subsection \<open>The filter\<close>

definition capture_allowed :: "syscalls \<Rightarrow> u64 \<Rightarrow> u64 \<Rightarrow> bool" where
  "capture_allowed s number instruction_pointer =
     (case sy_filter s of
        None \<Rightarrow> True
      | Some snapshot \<Rightarrow>
          if fs_scope_end snapshot \<noteq> 0 \<and> (instruction_pointer < fs_scope_start snapshot
               \<or> instruction_pointer \<ge> fs_scope_end snapshot) then False
          else if fs_mode snapshot \<noteq> 0
          then if unat number \<ge> SYSCALL_NUMBER_LIMIT then False
               else (fs_bitmap snapshot ! (unat number div 64)) AND push_bit (unat (number mod 64)) 1 \<noteq> 0
          else True)"

definition list_number :: "u32 \<Rightarrow> u64 list \<Rightarrow> u64 list" where
  "list_number number bitmap =
     (if unat number < SYSCALL_NUMBER_LIMIT
      then bitmap[unat number div 64 := bitmap ! (unat number div 64) OR push_bit (unat (number mod 64)) 1]
      else bitmap)"

definition set_filter :: "u8 \<Rightarrow> u32 list \<Rightarrow> u64 \<Rightarrow> u64 \<Rightarrow> syscalls \<Rightarrow> syscalls" where
  "set_filter mode numbers scope_start scope_end s =
     (let empty = replicate (SYSCALL_NUMBER_LIMIT div 64) 0;
          bitmap = (if mode \<noteq> 0 then fold list_number numbers empty else empty);
          snapshot = \<lparr>fs_mode = mode, fs_bitmap = bitmap, fs_scope_start = scope_start, fs_scope_end = scope_end\<rparr>
      in s\<lparr>sy_filter := Some snapshot,
           sy_retired := (case sy_filter s of None \<Rightarrow> sy_retired s | Some old \<Rightarrow> sy_retired s @ [old])\<rparr>)"

subsection \<open>The state between entry and exit\<close>

definition encode_syscall_state :: "u32 \<Rightarrow> u64 \<Rightarrow> bool \<Rightarrow> u64 option" where
  "encode_syscall_state width number capture =
     (if unat number * 2 \<ge> 2 ^ 64 then None
      else case checked_add (number * 2) (of_bool capture) of
             None \<Rightarrow> None
           | Some encoded \<Rightarrow>
               (case checked_add encoded 1 of
                  None \<Rightarrow> None
                | Some encoded \<Rightarrow> if unat encoded < 2 ^ (8 * unat width) then Some encoded else None))"

definition decode_syscall_state :: "u64 \<Rightarrow> (u64 \<times> bool) option" where
  "decode_syscall_state data =
     (if data = 0 then None else let v = data - 1 in Some (drop_bit 1 v, v AND 1 \<noteq> 0))"

record tls_calls =
  tl_get :: bool
  tl_clear :: bool
  tl_set :: bool

definition remember_syscall_state ::
  "tls_calls \<Rightarrow> u32 \<Rightarrow> u32 \<Rightarrow> u64 \<Rightarrow> bool \<Rightarrow> syscalls \<Rightarrow> bool \<times> syscalls" where
  "remember_syscall_state tls width thread_id number capture s =
     (case encode_syscall_state width number capture of
        None \<Rightarrow> (False, s)
      | Some data \<Rightarrow>
          if sy_key s = PB_INVALID_TLS_KEY \<or> \<not> tl_set tls then (False, s)
          else (True, s\<lparr>sy_tls := (sy_tls s)(thread_id := data)\<rparr>))"

definition take_syscall_state :: "tls_calls \<Rightarrow> u32 \<Rightarrow> syscalls \<Rightarrow> (u64 \<times> bool) option \<times> syscalls" where
  "take_syscall_state tls thread_id s =
     (if sy_key s = PB_INVALID_TLS_KEY \<or> \<not> tl_get tls \<or> sy_tls s thread_id = 0 then (None, s)
      else (decode_syscall_state (sy_tls s thread_id),
            if tl_clear tls then s\<lparr>sy_tls := (sy_tls s)(thread_id := 0)\<rparr> else s))"

subsection \<open>The callbacks\<close>

datatype submission = To_observation event | To_hook_log event | To_ring event | To_record event

definition submit_syscall_event :: "syscalls \<Rightarrow> event \<Rightarrow> submission list" where
  "submit_syscall_event s e =
     (if sy_observation s then [To_observation e] else []) @ [To_hook_log e, To_ring e, To_record e]"

record syscall_probe =
  sp_number :: u64
  sp_instruction_pointer :: u64
  sp_arguments :: "u64 list"
  sp_return :: u64
  sp_errno :: u64

definition entry_event :: "u32 \<Rightarrow> u64 \<Rightarrow> u64 \<Rightarrow> u64 list \<Rightarrow> event" where
  "entry_event thread_id generation number arguments =
     event_empty\<lparr>ev_kind := EVENT_SYSCALL, ev_thread_id := thread_id, ev_address := generation,
       ev_arg0 := number, ev_arg1 := 0, ev_arg2 := arguments ! 0, ev_arg3 := arguments ! 1,
       ev_arg4 := arguments ! 2, ev_arg5 := arguments ! 3, ev_arg6 := arguments ! 4,
       ev_arg7 := arguments ! 5\<rparr>"

definition exit_event :: "u32 \<Rightarrow> u64 \<Rightarrow> u64 \<Rightarrow> u64 \<Rightarrow> u64 \<Rightarrow> event" where
  "exit_event thread_id generation number return_value errno =
     event_empty\<lparr>ev_kind := EVENT_SYSCALL, ev_thread_id := thread_id, ev_address := generation,
       ev_arg0 := number, ev_arg1 := 1, ev_arg3 := return_value, ev_arg4 := errno\<rparr>"

text \<open>
  \<open>on_entry\<close>. The decision is asked for and applied before the capture is decided; what it changes is
  the context, not the number the event reports.
\<close>

definition on_syscall_entry ::
  "rendezvous \<Rightarrow> 'c pin_calls \<Rightarrow> u32 \<Rightarrow> bool \<Rightarrow> interests \<Rightarrow> tls_calls \<Rightarrow> syscall_probe \<Rightarrow> u32 \<Rightarrow> 'c \<Rightarrow> u32
     \<Rightarrow> syscalls \<Rightarrow> submission list \<times> 'c \<times> syscalls" where
  "on_syscall_entry rendezvous pin width python_ready interests tls probe thread_id context standard s =
     (let s = snd (take_syscall_state tls thread_id s);
          number = canonical_number width (sp_number probe);
          context = (case decide_syscall rendezvous pin width python_ready interests SYSCALL_ENTRY thread_id
                            (Some context) standard number (sp_arguments probe) 0 0 of
                       None \<Rightarrow> context
                     | Some response \<Rightarrow> apply_syscall_response pin context standard SYSCALL_ENTRY response);
          capture = (sy_enabled s \<and> capture_allowed s number (sp_instruction_pointer probe));
          intercept_exit = syscall_interested interests SYSCALL_EXIT number;
          (kept, s) = (if capture \<or> intercept_exit
                       then remember_syscall_state tls width thread_id number capture s else (True, s))
      in if \<not> kept \<or> \<not> capture then ([], context, s)
         else case next_generation s of
                (generation, s) \<Rightarrow>
                  (submit_syscall_event s (entry_event thread_id generation number (sp_arguments probe)), context, s))"

definition on_syscall_exit ::
  "rendezvous \<Rightarrow> 'c pin_calls \<Rightarrow> u32 \<Rightarrow> bool \<Rightarrow> interests \<Rightarrow> tls_calls \<Rightarrow> syscall_probe \<Rightarrow> u32 \<Rightarrow> 'c \<Rightarrow> u32
     \<Rightarrow> syscalls \<Rightarrow> submission list \<times> 'c \<times> syscalls" where
  "on_syscall_exit rendezvous pin width python_ready interests tls probe thread_id context standard s =
     (case take_syscall_state tls thread_id s of
        (None, s) \<Rightarrow> ([], context, s)
      | (Some (number, capture), s) \<Rightarrow>
          let context = (case decide_syscall rendezvous pin width python_ready interests SYSCALL_EXIT thread_id
                            (Some context) standard number (replicate 6 0) (sp_return probe) (sp_errno probe) of
                           None \<Rightarrow> context
                         | Some response \<Rightarrow> apply_syscall_response pin context standard SYSCALL_EXIT response)
          in if \<not> capture then ([], context, s)
             else case next_generation s of
                    (generation, s) \<Rightarrow>
                      (submit_syscall_event s
                         (exit_event thread_id generation number (sp_return probe) (sp_errno probe)), context, s))"

text \<open>\<open>register\<close>: the key and its status, then the two callbacks' statuses.\<close>

definition syscalls_register :: "u32 \<times> int \<Rightarrow> u32 \<Rightarrow> u32 \<Rightarrow> syscalls \<Rightarrow> u32 \<times> syscalls" where
  "syscalls_register created entry_status exit_status s =
     (case created of (status, key) \<Rightarrow>
        if status \<noteq> PB_OK then (status, s)
        else if key = PB_INVALID_TLS_KEY then (PB_ERR_INTERNAL, s)
        else let s = s\<lparr>sy_key := key\<rparr>
             in (if entry_status \<noteq> PB_OK then entry_status else exit_status, s))"

subsection \<open>The filter is exact\<close>

lemma word_bit_test: "(w :: u64) AND push_bit n 1 \<noteq> 0 \<longleftrightarrow> bit w n"
  by (metis and_exp_eq_0_iff_not_bit push_bit_of_1)

definition listed :: "u64 list \<Rightarrow> nat \<Rightarrow> bool" where
  "listed bitmap n \<longleftrightarrow> bit (bitmap ! (n div 64)) (n mod 64)"

lemma unat_mod_64: "unat ((number :: u32) mod 64) = unat number mod 64" "unat ((wide :: u64) mod 64) = unat wide mod 64"
  by (simp_all add: unat_mod)

lemma list_number_listed:
  assumes "length bitmap = 64" "n < SYSCALL_NUMBER_LIMIT"
  shows "listed (list_number number bitmap) n \<longleftrightarrow> listed bitmap n \<or> unat number = n"
proof (cases "unat number < SYSCALL_NUMBER_LIMIT")
  case True
  let ?i = "unat number div 64" and ?k = "unat number mod 64"
  have i: "?i < 64" "n div 64 < 64" using True assms by (auto simp: SYSCALL_NUMBER_LIMIT_def)
  have same: "unat number = n \<longleftrightarrow> ?i = n div 64 \<and> ?k = n mod 64"
    by (metis div_mult_mod_eq)
  have bits: "bit (push_bit ?k (1 :: u64)) (n mod 64) \<longleftrightarrow> ?k = n mod 64"
    unfolding bit_push_bit_iff bit_1_iff by auto
  have "list_number number bitmap = bitmap[?i := bitmap ! ?i OR push_bit ?k 1]"
    using True by (simp only: list_number_def unat_mod_64 if_True)
  then show ?thesis
    using i assms(1) unfolding listed_def same
    by (cases "?i = n div 64") (simp_all only: nth_list_update_eq nth_list_update_neq bit_or_iff bits, auto)
qed (use assms in \<open>auto simp: list_number_def\<close>)

lemma list_numbers_listed:
  "length bitmap = 64 \<Longrightarrow> n < SYSCALL_NUMBER_LIMIT \<Longrightarrow>
     listed (fold list_number numbers bitmap) n \<longleftrightarrow> listed bitmap n \<or> n \<in> unat ` set numbers"
proof (induction numbers arbitrary: bitmap)
  case (Cons number numbers)
  have "length (list_number number bitmap) = 64" using Cons by (simp add: list_number_def)
  then show ?case using Cons list_number_listed [of bitmap n number] by auto
qed simp

lemma filter_exact:
  "capture_allowed (set_filter mode numbers scope_start scope_end s) number ip \<longleftrightarrow>
     (scope_end = 0 \<or> scope_start \<le> ip \<and> ip < scope_end)
     \<and> (mode = 0 \<or> unat number < SYSCALL_NUMBER_LIMIT \<and> unat number \<in> unat ` set numbers)"
proof -
  let ?empty = "replicate (SYSCALL_NUMBER_LIMIT div 64) (0 :: u64)"
  have "\<not> listed ?empty n" if "n < SYSCALL_NUMBER_LIMIT" for n
    using that by (simp add: listed_def SYSCALL_NUMBER_LIMIT_def)
  moreover have "length ?empty = 64" by (simp add: SYSCALL_NUMBER_LIMIT_def)
  ultimately have "listed (fold list_number numbers ?empty) (unat number) \<longleftrightarrow> unat number \<in> unat ` set numbers"
    if "unat number < SYSCALL_NUMBER_LIMIT" using that list_numbers_listed by blast
  then show ?thesis
    unfolding capture_allowed_def set_filter_def Let_def listed_def
    by (simp only: syscalls.simps filter_snapshot.simps option.case word_bit_test unat_mod_64 not_less split: if_split) (auto simp: not_less not_le)
qed

lemma set_filter_fields [simp]:
  "sy_enabled (set_filter mode numbers low high s) = sy_enabled s"
  "sy_observation (set_filter mode numbers low high s) = sy_observation s"
  "sy_key (set_filter mode numbers low high s) = sy_key s"
  "sy_generation (set_filter mode numbers low high s) = sy_generation s"
  "sy_tls (set_filter mode numbers low high s) = sy_tls s"
  by (simp_all add: set_filter_def Let_def)

subsection \<open>The encoding\<close>

lemma encode_exact:
  assumes "width = 4 \<or> width = 8"
  shows "encode_syscall_state width number capture =
    (if unat number * 2 + of_bool capture + 1 < 2 ^ (8 * unat width)
     then Some (word_of_nat (unat number * 2 + of_bool capture + 1)) else None)"
proof (cases "unat number * 2 < 2 ^ 64")
  case True
  have width: "2 ^ (8 * unat width) \<le> (2 :: nat) ^ 64" using assms by auto
  have twice: "unat (number * 2) = unat number * 2" using True by (simp add: unat_word_ariths)
  have bound: "unat number * 2 + of_bool capture < 2 ^ 64" using True by (cases capture) auto
  have one: "checked_add (number * 2) (of_bool capture) = Some (number * 2 + of_bool capture)"
    using bound twice by (cases capture) (auto simp: checked_add_def)
  have first: "unat (number * 2 + of_bool capture) = unat number * 2 + of_bool capture"
    using bound twice by (cases capture) (auto simp: unat_word_ariths)
  show ?thesis
  proof (cases "unat number * 2 + of_bool capture + 1 < 2 ^ 64")
    case True
    then have "checked_add (number * 2 + of_bool capture) 1 = Some (number * 2 + of_bool capture + 1)"
      and "unat (number * 2 + of_bool capture + 1) = unat number * 2 + of_bool capture + 1"
      using first by (auto simp: checked_add_def unat_word_ariths)
    moreover have "number * 2 + of_bool capture + 1 = word_of_nat (unat number * 2 + of_bool capture + 1)" by simp
    ultimately show ?thesis using \<open>unat number * 2 < 2 ^ 64\<close> one
      by (simp add: encode_syscall_state_def)
  next
    case False
    then have "checked_add (number * 2 + of_bool capture) 1 = None" using first by (simp add: checked_add_def)
    then show ?thesis using False width one True by (simp add: encode_syscall_state_def)
  qed
next
  case False
  moreover have "2 ^ (8 * unat width) \<le> (2 :: nat) ^ 64" using assms by auto
  ultimately show ?thesis by (simp add: encode_syscall_state_def)
qed

lemma decode_encode:
  assumes "width = 4 \<or> width = 8" "encode_syscall_state width number capture = Some data"
  shows "data \<noteq> 0 \<and> decode_syscall_state data = Some (number, capture)"
proof -
  let ?n = "unat number * 2 + of_bool capture :: nat"
  have width: "2 ^ (8 * unat width) \<le> (2 :: nat) ^ 64" using assms(1) by auto
  have n: "?n + 1 < 2 ^ 64" and data: "data = word_of_nat (?n + 1)"
    using assms(2) width by (auto simp: encode_exact [OF assms(1)] split: if_splits)
  have "unat data = ?n + 1" using n data by (simp only: unat_of_nat) simp
  then have nz: "data \<noteq> 0" by auto
  have v: "data - 1 = word_of_nat ?n" by (simp add: data)
  have u: "unat (data - 1) = ?n" using n unfolding v by (simp only: unat_of_nat) simp
  have "unat (drop_bit 1 (data - 1)) = unat number"
    unfolding unat_drop_bit_eq u by (cases capture) (simp_all add: drop_bit_Suc)
  then have "drop_bit 1 (data - 1) = number" by (simp only: word_unat_eq_iff)
  moreover have "(data - 1) AND 1 \<noteq> 0 \<longleftrightarrow> odd (unat (data - 1))"
    by (simp add: and_one_eq odd_iff_mod_2_eq_one word_unat_eq_iff unat_mod)
  then have "(data - 1) AND 1 \<noteq> 0 \<longleftrightarrow> capture" unfolding u by simp
  ultimately show ?thesis using nz by (simp add: decode_syscall_state_def Let_def)
qed


subsection \<open>Runs\<close>

text \<open>
  Any interleaving of callbacks of any threads with the configuration calls of the query server. The
  environment of a callback is part of the step; Pin's thread-local storage works.
\<close>

record 'c syscall_world =
  sw_rendezvous :: rendezvous
  sw_pin :: "'c pin_calls"
  sw_ready :: bool
  sw_interests :: interests
  sw_context :: 'c
  sw_standard :: u32

datatype 'c syscall_op =
    Enter u32 syscall_probe "'c syscall_world"
  | Leave u32 syscall_probe "'c syscall_world"
  | Filter u8 "u32 list" u64 u64
  | Enable bool
  | Observe bool

definition tls_works :: tls_calls where "tls_works = \<lparr>tl_get = True, tl_clear = True, tl_set = True\<rparr>"

fun syscall_step :: "u32 \<Rightarrow> 'c syscall_op \<Rightarrow> submission list \<times> syscalls \<Rightarrow> submission list \<times> syscalls" where
  "syscall_step width (Enter t probe w) (log, s) =
     (case on_syscall_entry (sw_rendezvous w) (sw_pin w) width (sw_ready w) (sw_interests w) tls_works probe t
             (sw_context w) (sw_standard w) s of
        (out, _, s) \<Rightarrow> (log @ out, s))"
| "syscall_step width (Leave t probe w) (log, s) =
     (case on_syscall_exit (sw_rendezvous w) (sw_pin w) width (sw_ready w) (sw_interests w) tls_works probe t
             (sw_context w) (sw_standard w) s of
        (out, _, s) \<Rightarrow> (log @ out, s))"
| "syscall_step width (Filter mode numbers low high) (log, s) = (log, set_filter mode numbers low high s)"
| "syscall_step width (Enable on) (log, s) = (log, set_enabled on s)"
| "syscall_step width (Observe on) (log, s) = (log, set_syscall_observation on s)"

definition syscall_run :: "u32 \<Rightarrow> 'c syscall_op list \<Rightarrow> syscalls \<Rightarrow> submission list \<times> syscalls" where
  "syscall_run width ops s = fold (syscall_step width) ops ([], s)"

text \<open>What one lane receives, and one thread's part of it.\<close>

definition ring_lane :: "submission list \<Rightarrow> event list" where
  "ring_lane log = List.map_filter (\<lambda>x. case x of To_ring e \<Rightarrow> Some e | _ \<Rightarrow> None) log"

definition hook_log_lane :: "submission list \<Rightarrow> event list" where
  "hook_log_lane log = List.map_filter (\<lambda>x. case x of To_hook_log e \<Rightarrow> Some e | _ \<Rightarrow> None) log"

definition of_thread :: "u32 \<Rightarrow> event list \<Rightarrow> event list" where
  "of_thread t es = filter (\<lambda>e. ev_thread_id e = t) es"

text \<open>Every exit event follows the entry event of its call, with nothing of the thread between.\<close>

definition paired :: "event list \<Rightarrow> bool" where
  "paired es \<longleftrightarrow> (\<forall>i < length es. ev_arg1 (es ! i) = 1 \<longrightarrow>
     0 < i \<and> ev_arg1 (es ! (i - 1)) = 0 \<and> ev_arg0 (es ! (i - 1)) = ev_arg0 (es ! i))"

definition numbered :: "event list \<Rightarrow> bool" where
  "numbered es \<longleftrightarrow> (\<forall>i < length es. ev_address (es ! i) = word_of_nat (Suc i))"

definition syscalls_inv :: "submission list \<Rightarrow> syscalls \<Rightarrow> bool" where
  "syscalls_inv log s \<longleftrightarrow> hook_log_lane log = ring_lane log
     \<and> sy_generation s = word_of_nat (length (ring_lane log)) \<and> numbered (ring_lane log)
     \<and> (\<forall>t. paired (of_thread t (ring_lane log)))
     \<and> (\<forall>t n. sy_tls s t \<noteq> 0 \<longrightarrow> decode_syscall_state (sy_tls s t) = Some (n, True) \<longrightarrow>
          of_thread t (ring_lane log) \<noteq> [] \<and> ev_arg1 (last (of_thread t (ring_lane log))) = 0
          \<and> ev_arg0 (last (of_thread t (ring_lane log))) = n)"

lemma lanes_append:
  "ring_lane (log @ submit_syscall_event s e) = ring_lane log @ [e]"
  "hook_log_lane (log @ submit_syscall_event s e) = hook_log_lane log @ [e]"
  by (simp_all add: ring_lane_def hook_log_lane_def submit_syscall_event_def map_filter_def)

lemma numbered_snoc: "numbered (es @ [e]) \<longleftrightarrow> numbered es \<and> ev_address e = word_of_nat (Suc (length es))"
  by (auto simp: numbered_def nth_append less_Suc_eq)

lemma paired_snoc:
  "paired (es @ [e]) \<longleftrightarrow> paired es \<and> (ev_arg1 e = 1 \<longrightarrow> es \<noteq> [] \<and> ev_arg1 (last es) = 0 \<and> ev_arg0 (last es) = ev_arg0 e)"
proof -
  let ?P = "\<lambda>es i. ev_arg1 (es ! i) = 1 \<longrightarrow>
     0 < i \<and> ev_arg1 (es ! (i - 1)) = 0 \<and> ev_arg0 (es ! (i - 1)) = ev_arg0 (es ! i)"
  have "paired (es @ [e]) \<longleftrightarrow> (\<forall>i < length es. ?P (es @ [e]) i) \<and> ?P (es @ [e]) (length es)"
    unfolding paired_def by (simp only: length_append_singleton All_less_Suc conj_commute)
  also have "(\<forall>i < length es. ?P (es @ [e]) i) \<longleftrightarrow> paired es"
    unfolding paired_def by (intro all_cong) (simp add: nth_append less_imp_diff_less)
  also have "?P (es @ [e]) (length es) \<longleftrightarrow>
      (ev_arg1 e = 1 \<longrightarrow> es \<noteq> [] \<and> ev_arg1 (last es) = 0 \<and> ev_arg0 (last es) = ev_arg0 e)"
    by (cases "es = []") (simp_all add: nth_append last_conv_nth)
  finally show ?thesis .
qed

lemma take_fields:
  assumes "take_syscall_state tls t s = (r, s')"
  shows "sy_generation s' = sy_generation s" "sy_filter s' = sy_filter s" "sy_enabled s' = sy_enabled s"
    "sy_key s' = sy_key s" "sy_observation s' = sy_observation s"
    "\<And>u. sy_tls s' u \<noteq> 0 \<Longrightarrow> sy_tls s' u = sy_tls s u"
    "r = Some x \<Longrightarrow> sy_tls s t \<noteq> 0 \<and> decode_syscall_state (sy_tls s t) = Some x"
  using assms by (auto simp: take_syscall_state_def split: if_splits)

lemma syscalls_inv_entry:
  assumes inv: "syscalls_inv log s" and width: "width = 4 \<or> width = 8"
    and step: "on_syscall_entry rz pin width ready ints tls probe t c std s = (out, c', s')"
  shows "syscalls_inv (log @ out) s'"
proof -
  obtain r s1 where take: "take_syscall_state tls t s = (r, s1)" by fastforce
  note fields = take_fields [OF take]
  have inv1: "syscalls_inv log s1" using inv fields(1) fields(6) unfolding syscalls_inv_def by metis
  define number where "number = canonical_number width (sp_number probe)"
  define capture where "capture = (sy_enabled s1 \<and> capture_allowed s1 number (sp_instruction_pointer probe))"
  define exit' where "exit' = syscall_interested ints SYSCALL_EXIT number"
  obtain kept s2 where keep: "(if capture \<or> exit' then remember_syscall_state tls width t number capture s1 else (True, s1)) = (kept, s2)"
    by fastforce
  have s2: "sy_generation s2 = sy_generation s1" "\<And>u. u \<noteq> t \<Longrightarrow> sy_tls s2 u = sy_tls s1 u"
    "kept \<Longrightarrow> capture \<Longrightarrow> decode_syscall_state (sy_tls s2 t) = Some (number, True)"
    "\<And>n. \<not> (kept \<and> capture) \<Longrightarrow> decode_syscall_state (sy_tls s2 t) = Some (n, True) \<Longrightarrow> sy_tls s2 t = sy_tls s1 t"
    using keep decode_encode [OF width]
    by (auto simp: remember_syscall_state_def split: if_splits option.splits)
  note step' = step [unfolded on_syscall_entry_def take snd_conv Let_def, folded number_def, folded capture_def exit'_def,
      unfolded keep prod.case]
  show ?thesis
  proof (cases "kept \<and> capture")
    case False
    then have out: "out = []" "s' = s2"
      using step' by auto
    show ?thesis
      using inv1 s2(1) s2(2,4) False unfolding out syscalls_inv_def append_Nil2 by metis
  next
    case True
    define e where "e = entry_event t (sy_generation s2 + 1) number (sp_arguments probe)"
    have out: "out = submit_syscall_event (s2\<lparr>sy_generation := sy_generation s2 + 1\<rparr>) e"
        "s' = s2\<lparr>sy_generation := sy_generation s2 + 1\<rparr>"
      using step' True by (auto simp: next_generation_def e_def)
    have e: "ev_thread_id e = t" "ev_arg1 e = 0" "ev_arg0 e = number" "ev_address e = sy_generation s2 + 1"
      by (simp_all add: e_def entry_event_def)
    have threads: "of_thread u (ring_lane log @ [e]) = of_thread u (ring_lane log) @ (if u = t then [e] else [])" for u
      by (simp add: of_thread_def e)
    show ?thesis
      using inv1 s2(1,2) s2(3) True unfolding syscalls_inv_def out lanes_append threads
      by (auto simp: numbered_snoc paired_snoc e)
  qed
qed

lemma syscalls_inv_exit:
  assumes inv: "syscalls_inv log s"
    and step: "on_syscall_exit rz pin width ready ints tls_works probe t c std s = (out, c', s')"
  shows "syscalls_inv (log @ out) s'"
proof -
  obtain r s1 where take: "take_syscall_state tls_works t s = (r, s1)" by fastforce
  note fields = take_fields [OF take]
  have inv1: "syscalls_inv log s1" using inv fields(1) fields(6) unfolding syscalls_inv_def by metis
  show ?thesis
  proof (cases "\<exists>n. r = Some (n, True)")
    case False
    then have "out = []" "s' = s1"
      using step by (auto simp: on_syscall_exit_def take Let_def split: option.splits prod.splits)
    then show ?thesis using inv1 by simp
  next
    case True
    then obtain n where r: "r = Some (n, True)" by blast
    define e where "e = exit_event t (sy_generation s1 + 1) n (sp_return probe) (sp_errno probe)"
    have out: "out = submit_syscall_event (s1\<lparr>sy_generation := sy_generation s1 + 1\<rparr>) e"
        "s' = s1\<lparr>sy_generation := sy_generation s1 + 1\<rparr>"
      using step by (auto simp: on_syscall_exit_def take r Let_def next_generation_def e_def)
    have e: "ev_thread_id e = t" "ev_arg1 e = 1" "ev_arg0 e = n" "ev_address e = sy_generation s1 + 1"
      by (simp_all add: e_def exit_event_def)
    have threads: "of_thread u (ring_lane log @ [e]) = of_thread u (ring_lane log) @ (if u = t then [e] else [])" for u
      by (simp add: of_thread_def e)
    have cleared: "sy_tls s1 t = 0"
      using take r by (auto simp: take_syscall_state_def tls_works_def split: if_splits)
    have "of_thread t (ring_lane log) \<noteq> [] \<and> ev_arg1 (last (of_thread t (ring_lane log))) = 0
        \<and> ev_arg0 (last (of_thread t (ring_lane log))) = n"
      using inv fields(7) [OF r] unfolding syscalls_inv_def by blast
    then show ?thesis
      using inv1 cleared unfolding syscalls_inv_def out lanes_append threads
      by (auto simp: numbered_snoc paired_snoc e)
  qed
qed

lemma syscalls_inv_quiet:
  "syscalls_inv log s \<Longrightarrow> sy_generation s' = sy_generation s \<Longrightarrow> sy_tls s' = sy_tls s \<Longrightarrow> syscalls_inv log s'"
  by (simp add: syscalls_inv_def)

lemma syscalls_inv_step:
  assumes "syscalls_inv log s" "width = 4 \<or> width = 8" "syscall_step width op (log, s) = (log', s')"
  shows "syscalls_inv log' s'"
proof (cases op)
  case (Enter t probe w)
  then show ?thesis using syscalls_inv_entry [OF assms(1,2)] assms(3) by (auto split: prod.splits)
next
  case (Leave t probe w)
  then show ?thesis using syscalls_inv_exit [OF assms(1)] assms(3) by (auto split: prod.splits)
qed (use assms in \<open>auto simp: set_filter_def set_enabled_def set_syscall_observation_def Let_def
    elim!: syscalls_inv_quiet\<close>)

lemma syscalls_inv_run:
  assumes "width = 4 \<or> width = 8"
  shows "syscalls_inv log s \<Longrightarrow> fold (syscall_step width) ops (log, s) = (log', s') \<Longrightarrow> syscalls_inv log' s'"
proof (induction ops arbitrary: log s)
  case (Cons op ops)
  obtain log1 s1 where step: "syscall_step width op (log, s) = (log1, s1)" by fastforce
  then have "syscalls_inv log1 s1" by (rule syscalls_inv_step [OF Cons.prems(1) assms])
  then show ?case using Cons.IH [of log1 s1] Cons.prems(2) step by simp
qed simp

subsection \<open>Properties\<close>


definition quiet_world :: "context_write list syscall_world" where
  "quiet_world = \<lparr>sw_rendezvous = (\<lambda>_. None), sw_pin = logging_pin, sw_ready = False,
     sw_interests = interests_new, sw_context = [], sw_standard = 0\<rparr>"


text \<open>
  The filter is exact: after \<open>set_filter\<close> a call is captured exactly when its caller lies in the
  scope, if one is given, and, in mode 1, its number is listed and below the limit.
\<close>

theorem syscall_filter_exact:
  "capture_allowed (set_filter mode numbers scope_start scope_end s) number ip \<longleftrightarrow>
     (if scope_end = 0 then True else scope_start \<le> ip \<and> ip < scope_end)
     \<and> (if mode = 0 then True else unat number < SYSCALL_NUMBER_LIMIT \<and> unat number \<in> unat ` set numbers)"
  by (simp add: filter_exact)


end
