(* ===== verification/Pb_Query.thy ===== *)
theory Pb_Query
  imports Pb_Formats Pb_Syscalls Pb_Breakpoints Pb_Hook_Rules Pb_Leases
begin

section \<open>The query server (query_server.rs)\<close>

text \<open>
  \<open>bindings/rust/pinbridge-agent/src/query_server.rs\<close>: the handlers of the binary protocol over the
  agent's state, and the dispatch of one request. A handler takes the payload and the state and gives
  a status or a reply beside the new state. What Pin and the operating system answer during the request
  is the argument \<open>q\<close>. The operations on parts of the agent outside this development (memory, images,
  disassembly, symbols, the recorder, the script host) are one argument \<open>other\<close> of the dispatch, and
  log lines are left out. Strings are their UTF-8 bytes.
\<close>

subsection \<open>Operation codes (pinbridge-proto)\<close>

definition OP_PING :: u8 where "OP_PING = 0x01"
definition OP_COUNTERS :: u8 where "OP_COUNTERS = 0x02"
definition OP_RING_PAGE :: u8 where "OP_RING_PAGE = 0x03"
definition OP_PRIORITY_NEWEST :: u8 where "OP_PRIORITY_NEWEST = 0x04"
definition OP_STOP :: u8 where "OP_STOP = 0x10"
definition OP_RESUME :: u8 where "OP_RESUME = 0x11"
definition OP_READ_MEM :: u8 where "OP_READ_MEM = 0x12"
definition OP_WRITE_MEM :: u8 where "OP_WRITE_MEM = 0x13"
definition OP_BP_SET :: u8 where "OP_BP_SET = 0x14"
definition OP_BP_LIST :: u8 where "OP_BP_LIST = 0x15"
definition OP_BP_REMOVE :: u8 where "OP_BP_REMOVE = 0x16"
definition OP_MODULES :: u8 where "OP_MODULES = 0x17"
definition OP_THREADS :: u8 where "OP_THREADS = 0x20"
definition OP_CONTEXT_GET :: u8 where "OP_CONTEXT_GET = 0x21"
definition OP_CONTEXT_SET :: u8 where "OP_CONTEXT_SET = 0x22"
definition OP_ENGINE_SET :: u8 where "OP_ENGINE_SET = 0x23"
definition OP_EXC_POLICY_SET :: u8 where "OP_EXC_POLICY_SET = 0x24"
definition OP_EXC_POLICY_GET :: u8 where "OP_EXC_POLICY_GET = 0x25"
definition OP_STEP :: u8 where "OP_STEP = 0x26"
definition OP_MEMORY_REGION :: u8 where "OP_MEMORY_REGION = 0x28"
definition OP_MEMORY_MAP :: u8 where "OP_MEMORY_MAP = 0x29"
definition OP_DISASM :: u8 where "OP_DISASM = 0x30"
definition OP_RESOLVE :: u8 where "OP_RESOLVE = 0x31"
definition OP_RESOLVE_NAME :: u8 where "OP_RESOLVE_NAME = 0x32"
definition OP_EXPORTS :: u8 where "OP_EXPORTS = 0x33"
definition OP_SYSCALL_FILTER :: u8 where "OP_SYSCALL_FILTER = 0x34"
definition OP_TRACE_START :: u8 where "OP_TRACE_START = 0x35"
definition OP_TRACE_STOP :: u8 where "OP_TRACE_STOP = 0x36"
definition OP_TRACE_STATUS :: u8 where "OP_TRACE_STATUS = 0x37"
definition OP_TRACE_START_SPEC :: u8 where "OP_TRACE_START_SPEC = 0x38"
definition OP_TRACE_EXTEND :: u8 where "OP_TRACE_EXTEND = 0x39"
definition OP_SCRIPT_LOAD :: u8 where "OP_SCRIPT_LOAD = 0x40"
definition OP_SCRIPT_UNLOAD :: u8 where "OP_SCRIPT_UNLOAD = 0x41"
definition OP_SCRIPT_LIST :: u8 where "OP_SCRIPT_LIST = 0x42"
definition OP_SCRIPT_OUTPUT :: u8 where "OP_SCRIPT_OUTPUT = 0x43"
definition OP_HOOK_SET :: u8 where "OP_HOOK_SET = 0x50"
definition OP_HOOK_REMOVE :: u8 where "OP_HOOK_REMOVE = 0x51"
definition OP_HOOK_CLEAR :: u8 where "OP_HOOK_CLEAR = 0x52"
definition OP_HOOK_LIST :: u8 where "OP_HOOK_LIST = 0x53"
definition OP_HOOK_RULE_SET :: u8 where "OP_HOOK_RULE_SET = 0x54"
definition OP_HOOK_RULE_CLEAR :: u8 where "OP_HOOK_RULE_CLEAR = 0x55"
definition OP_HOOK_SET_BATCH :: u8 where "OP_HOOK_SET_BATCH = 0x56"
definition OP_HOOK_FUNCTION_LIST :: u8 where "OP_HOOK_FUNCTION_LIST = 0x57"
definition OP_HOOK_EVENTS_NEWEST :: u8 where "OP_HOOK_EVENTS_NEWEST = 0x58"
definition OP_HOOK_SIGNATURE_SET :: u8 where "OP_HOOK_SIGNATURE_SET = 0x59"
definition OP_HOOK_SIGNATURE_REMOVE :: u8 where "OP_HOOK_SIGNATURE_REMOVE = 0x5a"
definition OP_HOOK_RANGE :: u8 where "OP_HOOK_RANGE = 0x5b"
definition OP_SYSCALL_EVENTS_NEWEST :: u8 where "OP_SYSCALL_EVENTS_NEWEST = 0x5c"

lemmas op_defs = OP_PING_def OP_COUNTERS_def OP_RING_PAGE_def OP_PRIORITY_NEWEST_def OP_STOP_def
  OP_RESUME_def OP_READ_MEM_def OP_WRITE_MEM_def OP_BP_SET_def OP_BP_LIST_def OP_BP_REMOVE_def
  OP_MODULES_def OP_THREADS_def OP_CONTEXT_GET_def OP_CONTEXT_SET_def OP_ENGINE_SET_def
  OP_EXC_POLICY_SET_def OP_EXC_POLICY_GET_def OP_STEP_def OP_MEMORY_REGION_def OP_MEMORY_MAP_def
  OP_DISASM_def OP_RESOLVE_def OP_RESOLVE_NAME_def OP_EXPORTS_def OP_SYSCALL_FILTER_def
  OP_TRACE_START_def OP_TRACE_STOP_def OP_TRACE_STATUS_def OP_TRACE_START_SPEC_def
  OP_TRACE_EXTEND_def OP_SCRIPT_LOAD_def OP_SCRIPT_UNLOAD_def OP_SCRIPT_LIST_def
  OP_SCRIPT_OUTPUT_def OP_HOOK_SET_def OP_HOOK_REMOVE_def OP_HOOK_CLEAR_def OP_HOOK_LIST_def
  OP_HOOK_RULE_SET_def OP_HOOK_RULE_CLEAR_def OP_HOOK_SET_BATCH_def OP_HOOK_FUNCTION_LIST_def
  OP_HOOK_EVENTS_NEWEST_def OP_HOOK_SIGNATURE_SET_def OP_HOOK_SIGNATURE_REMOVE_def
  OP_HOOK_RANGE_def OP_SYSCALL_EVENTS_NEWEST_def

definition PB_ABI_VERSION_MAJOR :: u32 where "PB_ABI_VERSION_MAJOR = 1"
definition PB_ABI_VERSION_MINOR :: u32 where "PB_ABI_VERSION_MINOR = 11"

subsection \<open>The state\<close>

text \<open>The exception pause policy of \<open>exception.rs\<close> and the output ring of \<open>scripting/output.rs\<close>.\<close>

record exception_policy =
  ex_enabled :: bool
  ex_code :: u32
  ex_pending :: bool

definition set_policy :: "bool \<Rightarrow> u32 \<Rightarrow> exception_policy \<Rightarrow> exception_policy" where
  "set_policy enabled code s = s\<lparr>ex_code := code, ex_enabled := enabled, ex_pending := False\<rparr>"

definition policy :: "exception_policy \<Rightarrow> bool \<times> u32 \<times> bool" where
  "policy s = (ex_enabled s, ex_code s, ex_pending s)"

definition OUTPUT_CAPACITY :: nat where "OUTPUT_CAPACITY = 4096"

record output_entry =
  ou_seq :: u64
  ou_plugin :: bytes
  ou_line :: bytes

record output_ring =
  or_entries :: "output_entry list"
  or_next_seq :: u64

definition output_new :: output_ring where "output_new = \<lparr>or_entries = [], or_next_seq = 1\<rparr>"

definition output_push :: "bytes \<Rightarrow> bytes \<Rightarrow> output_ring \<Rightarrow> output_ring" where
  "output_push plugin line s =
     (let seq = or_next_seq s;
          entries = (if length (or_entries s) \<ge> OUTPUT_CAPACITY then tl (or_entries s) else or_entries s)
      in \<lparr>or_entries = entries @ [\<lparr>ou_seq = seq, ou_plugin = plugin, ou_line = line\<rparr>], or_next_seq = seq + 1\<rparr>)"

definition output_page :: "u64 \<Rightarrow> nat \<Rightarrow> output_ring \<Rightarrow> u64 \<times> output_entry list" where
  "output_page after limit s =
     (let out = take limit (filter (\<lambda>entry. ou_seq entry > after) (or_entries s))
      in (if out = [] then after else ou_seq (last out), out))"

record agent =
  ag_ring :: ring_state
  ag_priority :: event_channel
  ag_lanes :: hook_lanes
  ag_breaker :: breaker
  ag_hooks :: hooks
  ag_rules :: hook_rules
  ag_syscalls :: syscalls
  ag_policy :: exception_policy
  ag_leases :: "u32 leases"
  ag_output :: output_ring
  ag_effects :: "pin_effect list"
  ag_turns :: "turn list"

text \<open>
  \<open>ag_effects\<close> are the Pin calls made, in order, and \<open>ag_turns\<close> what the breaker did in the turns that
  answered a command. What the environment answers while one request is served is a \<open>query_env\<close>: the
  process, whether Pin is in probe mode, the outcomes of the try-locks of each lane, whether the
  breakpoint table was locked, the address a script is setting, the planted entry breakpoint, the sort
  of the rule table, the stopped world, whether the breaker answered in time, the instruction pointers
  of stopped threads, and the status of Pin's calls while a step is armed.
\<close>

record query_env =
  qe_pid :: u32
  qe_width :: u32
  qe_ring_locks :: "nat \<Rightarrow> try_lock"
  qe_priority_locks :: "nat \<Rightarrow> try_lock"
  qe_hook_locks :: "nat \<Rightarrow> try_lock"
  qe_syscall_locks :: "nat \<Rightarrow> try_lock"
  qe_bp_locked :: bool
  qe_script_address :: u64
  qe_entry_bp :: u64
  qe_resort :: "hook_rule list \<Rightarrow> hook_rule list"
  qe_world :: world
  qe_in_time :: bool
  qe_stopped_ip :: "u32 \<Rightarrow> u64 option"
  qe_probe_mode :: bool
  qe_tf_status :: u32
  qe_fallback_status :: u32
  qe_flush_status :: "u64 \<Rightarrow> u64 \<Rightarrow> u32"

type_synonym reply = "u8 + bytes"

definition flush :: "ranges \<Rightarrow> agent \<Rightarrow> agent" where
  "flush flushed s = s\<lparr>ag_effects := ag_effects s @ map (\<lambda>(lo, hi). Flush lo hi) flushed\<rparr>"

definition after_turn :: "breaker \<Rightarrow> turn \<Rightarrow> agent \<Rightarrow> agent" where
  "after_turn b t s = s\<lparr>ag_breaker := b, ag_turns := ag_turns s @ [t]\<rparr>"

text \<open>A parse that fails is a bad request; otherwise the handler goes on with what was read.\<close>

definition with_parsed :: "'a parser \<Rightarrow> bytes \<Rightarrow> ('a \<Rightarrow> agent \<Rightarrow> reply \<times> agent) \<Rightarrow> agent \<Rightarrow> reply \<times> agent" where
  "with_parsed p payload f s =
     (case parse p payload of None \<Rightarrow> (Inl STATUS_BAD_REQUEST, s) | Some x \<Rightarrow> f x s)"

subsection \<open>Observation\<close>

definition to_record :: "event \<Rightarrow> event_record" where
  "to_record e = \<lparr>er_sequence = ev_sequence e, er_kind = ev_kind e, er_thread_id = ev_thread_id e,
     er_address = ev_address e, er_arg0 = ev_arg0 e, er_arg1 = ev_arg1 e, er_arg2 = ev_arg2 e,
     er_arg3 = ev_arg3 e, er_arg4 = ev_arg4 e, er_arg5 = ev_arg5 e, er_arg6 = ev_arg6 e,
     er_arg7 = ev_arg7 e\<rparr>"

definition handle_ping :: "query_env \<Rightarrow> agent \<Rightarrow> bytes" where
  "handle_ping q s =
     (let out = put_u32 [] PB_ABI_VERSION_MAJOR;
          out = put_u32 out PB_ABI_VERSION_MINOR;
          out = put_u32 out (qe_pid q);
          out = put_u64 out (ring_ring_total (ag_ring s));
          out = put_u32 out (wire_id (qe_width q))
      in put_u32 out (qe_width q))"

definition handle_counters :: "agent \<Rightarrow> bytes" where
  "handle_counters s =
     (let edge = ring_ring_total (ag_ring s);
          retained = min edge (word_of_nat RING_CAPACITY);
          out = put_u64 [] edge;
          out = put_u64 out (sat_sub (ring_total_seq (ag_ring s)) retained);
          out = put_u64 out (word_of_nat RING_CAPACITY)
      in fold (\<lambda>kind out. put_u64 out (ring_kind_count (ag_ring s) kind)) [1..<EVENT_KIND_COUNT] out)"

definition RING_PAGE_MAX_LIMIT :: u64 where "RING_PAGE_MAX_LIMIT = 2048"

definition read_page_request :: "(u64 \<times> u64) parser" where
  "read_page_request = then_read reader_u64 (\<lambda>after. then_read reader_u64 (\<lambda>limit. read_return (after, limit)))"

definition event_page :: "u64 \<Rightarrow> u64 \<Rightarrow> u64 \<Rightarrow> event list \<Rightarrow> bytes" where
  "event_page first second after events =
     (let out = put_u64 [] first;
          out = put_u64 out second;
          out = put_u64 out (if events = [] then after else ev_sequence (last events));
          out = put_u64 out (word_of_nat (length events))
      in fold (\<lambda>e out. event_encode (to_record e) out) events out)"

definition handle_ring_page :: "query_env \<Rightarrow> bytes \<Rightarrow> agent \<Rightarrow> reply \<times> agent" where
  "handle_ring_page q payload s = with_parsed read_page_request payload (\<lambda>(after, limit) s.
     let limit = min limit RING_PAGE_MAX_LIMIT;
         (result, events) = ring_try_page (qe_ring_locks q) (ag_ring s) after (unat limit) [];
         (missed, edge) = (case result of Some pair \<Rightarrow> pair | None \<Rightarrow> (0, ring_ring_total (ag_ring s)))
     in (Inr (event_page edge missed after events), s)) s"

definition PRIORITY_PAGE_MAX_LIMIT :: u64 where "PRIORITY_PAGE_MAX_LIMIT = 1024"

definition handle_priority_newest :: "query_env \<Rightarrow> bytes \<Rightarrow> agent \<Rightarrow> reply \<times> agent" where
  "handle_priority_newest q payload s = with_parsed reader_u64 payload (\<lambda>limit s.
     let limit = min (max limit 1) PRIORITY_PAGE_MAX_LIMIT;
         edge = event_channel_total (ag_priority s);
         after = sat_sub edge limit;
         (result, events) = event_channel_try_page (qe_priority_locks q) (ag_priority s) after (unat limit) [];
         (_, live_total) = (case result of Some pair \<Rightarrow> pair | None \<Rightarrow> (0, edge))
     in (Inr (event_page live_total (event_channel_dropped (ag_priority s)) after events), s)) s"

definition HOOK_PAGE_MAX_LIMIT :: u64 where "HOOK_PAGE_MAX_LIMIT = 4096"

text \<open>The limit, and the optional sequence the page ends before.\<close>

definition read_window_request :: "(u64 \<times> u64) parser" where
  "read_window_request = then_read reader_u64 (\<lambda>limit r.
     Some (case reader_u64 r of None \<Rightarrow> ((limit, 0), r) | Some (before', r) \<Rightarrow> ((limit, before'), r)))"

definition hook_window :: "(nat \<Rightarrow> try_lock) \<Rightarrow> hook_channel \<Rightarrow> u64 \<times> u64 \<Rightarrow> bytes" where
  "hook_window locks c request =
     (case request of (limit, requested_before) \<Rightarrow>
        let limit = min (max limit 1) HOOK_PAGE_MAX_LIMIT;
            edge = hook_channel_total c;
            before' = (if requested_before = 0 then 0 else min requested_before (sat_add edge 1));
            after = (if before' = 0 then sat_sub edge limit else sat_sub before' (sat_add limit 1));
            (result, events) = hook_channel_try_page locks c after (unat limit) [];
            (_, live_total) = (case result of Some pair \<Rightarrow> pair | None \<Rightarrow> (0, edge));
            events = (if before' \<noteq> 0 then filter (\<lambda>e. hl_sequence e < before') events else events);
            out = put_u64 [] live_total;
            out = put_u64 out (hook_channel_dropped c);
            out = put_u64 out (if events = [] then after else hl_sequence (last events));
            out = put_u64 out (word_of_nat (length events))
        in fold hook_log_encode events out)"

definition handle_hook_events_newest :: "query_env \<Rightarrow> bytes \<Rightarrow> agent \<Rightarrow> reply \<times> agent" where
  "handle_hook_events_newest q payload s = with_parsed read_window_request payload
     (\<lambda>request s. (Inr (hook_window (qe_hook_locks q) (hk_channel (ag_lanes s)) request), s)) s"

definition handle_syscall_events_newest :: "query_env \<Rightarrow> bytes \<Rightarrow> agent \<Rightarrow> reply \<times> agent" where
  "handle_syscall_events_newest q payload s = with_parsed read_window_request payload
     (\<lambda>request s. (Inr (hook_window (qe_syscall_locks q) (hk_syscall_channel (ag_lanes s)) request), s)) s"

subsection \<open>Breakpoints and the stopped world\<close>

definition handle_bp_set :: "query_env \<Rightarrow> bytes \<Rightarrow> agent \<Rightarrow> reply \<times> agent" where
  "handle_bp_set q payload s = with_parsed reader_u64 payload (\<lambda>address s.
     case bp_set (qe_bp_locked q) address (ag_breaker s) of
       (Inl _, b, flushed) \<Rightarrow> (Inl STATUS_INTERNAL, flush flushed (s\<lparr>ag_breaker := b\<rparr>))
     | (Inr ident, b, flushed) \<Rightarrow>
         (Inr (put_u32 [] ident),
          flush flushed (s\<lparr>ag_breaker := b,
            ag_leases := note_external_breakpoint_set (qe_script_address q) ident address (ag_leases s)\<rparr>))) s"

definition handle_bp_list :: "query_env \<Rightarrow> agent \<Rightarrow> bytes" where
  "handle_bp_list q s =
     (let b = ag_breaker s;
          entries = bp_list (qe_bp_locked q) b;
          out = [of_bool (bp_stopped b)];
          out = put_u32 out (bp_last_hit_tid b);
          out = put_u64 out (bp_last_hit_addr b);
          out = put_u64 out (bp_stop_gen b);
          out = put_u32 out (word_of_nat (length entries));
          out = fold (\<lambda>(ident, address, hits) out. put_u64 (put_u64 (put_u32 out ident) address) hits) entries out
      in put_u64 out (qe_entry_bp q))"

definition handle_bp_remove :: "query_env \<Rightarrow> bytes \<Rightarrow> agent \<Rightarrow> reply \<times> agent" where
  "handle_bp_remove q payload s = with_parsed reader_u32 payload (\<lambda>ident s.
     case bp_remove (qe_bp_locked q) ident (ag_breaker s) of
       (found, b, flushed) \<Rightarrow>
         (if \<not> found then Inl STATUS_BAD_REQUEST else Inr (put_u32 [] ident),
          flush flushed (s\<lparr>ag_breaker := b\<rparr>))) s"

text \<open>\<open>control::handle_stop\<close> and \<open>handle_resume\<close> of \<open>control.rs\<close>.\<close>

definition handle_stop :: "query_env \<Rightarrow> agent \<Rightarrow> bytes \<times> agent" where
  "handle_stop q s =
     (if bp_stopped (ag_breaker s) then ([1], s)
      else case control_command (qe_in_time q) (qe_world q) CMD_STOP (ag_breaker s) of
             (stopped, b, t) \<Rightarrow> ([of_bool stopped], after_turn b t s))"

definition handle_resume :: "query_env \<Rightarrow> agent \<Rightarrow> bytes \<times> agent" where
  "handle_resume q s =
     (if \<not> bp_stopped (ag_breaker s) then ([0], s)
      else case control_command (qe_in_time q) (qe_world q) CMD_RESUME (arm_resume_skip (qe_stopped_ip q) (ag_breaker s)) of
             (resumed, b, t) \<Rightarrow> ([of_bool resumed], after_turn b t s))"

subsection \<open>Policies and filters\<close>

definition handle_exc_policy_set :: "bytes \<Rightarrow> agent \<Rightarrow> reply \<times> agent" where
  "handle_exc_policy_set payload s =
     with_parsed (then_read reader_u8 (\<lambda>enabled. then_read reader_u32 (\<lambda>code. read_return (enabled \<noteq> 0, code))))
       payload (\<lambda>(enabled, code) s. (Inr [], s\<lparr>ag_policy := set_policy enabled code (ag_policy s)\<rparr>)) s"

definition handle_exc_policy_get :: "agent \<Rightarrow> bytes" where
  "handle_exc_policy_get s =
     (case policy (ag_policy s) of
        (enabled, code, pending) \<Rightarrow> put_u32 [of_bool enabled] code @ [of_bool pending])"

definition MAX_FILTER_NUMBERS :: nat where "MAX_FILTER_NUMBERS = 4096"

definition read_filter_request :: "(u8 \<times> u32 list \<times> u64 \<times> u64) parser" where
  "read_filter_request =
     then_read reader_u8 (\<lambda>mode.
       if mode > 1 then read_fail
       else then_read reader_u16 (\<lambda>count.
         if unat count > MAX_FILTER_NUMBERS then read_fail
         else then_read (repeat_read (unat count) reader_u32) (\<lambda>numbers.
           then_read read_remaining (\<lambda>rest.
             if length rest = 0 then read_return (mode, numbers, 0, 0)
             else if length rest = 16
             then then_read reader_u64 (\<lambda>scope_start. then_read reader_u64 (\<lambda>scope_end.
                    read_return (mode, numbers, scope_start, scope_end)))
             else read_fail))))"

definition handle_syscall_filter :: "bytes \<Rightarrow> agent \<Rightarrow> reply \<times> agent" where
  "handle_syscall_filter payload s = with_parsed read_filter_request payload
     (\<lambda>(mode, numbers, scope_start, scope_end) s.
        if (scope_start = 0) \<noteq> (scope_end = 0) \<or> (scope_end \<noteq> 0 \<and> scope_end \<le> scope_start)
        then (Inl STATUS_BAD_REQUEST, s)
        else (Inr [], s\<lparr>ag_syscalls := set_filter mode numbers scope_start scope_end (ag_syscalls s)\<rparr>)) s"

subsection \<open>Hook points\<close>

definition handle_hook_set :: "bytes \<Rightarrow> agent \<Rightarrow> reply \<times> agent" where
  "handle_hook_set payload s = with_parsed reader_u64 payload (\<lambda>address s.
     case hook_set address (ag_hooks s) of
       (ok, h, flushed) \<Rightarrow> (Inr (put_u32 [] (of_bool ok)), flush flushed (s\<lparr>ag_hooks := h\<rparr>))) s"

definition read_batch_request :: "u64 list parser" where
  "read_batch_request =
     then_read reader_u32 (\<lambda>count. then_read read_remaining (\<lambda>rest.
       if unat count > MAX_HOOK_POINTS \<or> length rest \<noteq> unat count * 8 then read_fail
       else repeat_read (unat count) reader_u64))"

definition handle_hook_set_batch :: "bytes \<Rightarrow> agent \<Rightarrow> reply \<times> agent" where
  "handle_hook_set_batch payload s = with_parsed read_batch_request payload (\<lambda>addresses s.
     case set_batch addresses (ag_hooks s) of
       ((added, tot, capacity_full), h, flushed) \<Rightarrow>
         (Inr (put_u32 (put_u32 (put_u32 [] (word_of_nat added)) (word_of_nat tot)) (of_bool capacity_full)),
          flush flushed (s\<lparr>ag_hooks := h\<rparr>))) s"

text \<open>The result of \<open>disasm::scan_range\<close>, which is an argument: a status or what was found.\<close>

record scan_result =
  sc_decoded :: u64
  sc_matched :: u64
  sc_addresses :: "u64 list"
  sc_complete :: bool
  sc_truncated :: bool

definition read_hook_range_request :: "(u64 \<times> u64 \<times> u32 \<times> bool) parser" where
  "read_hook_range_request =
     then_read reader_u64 (\<lambda>start. then_read reader_u64 (\<lambda>fin. then_read reader_u32 (\<lambda>kind_mask.
       then_read reader_u8 (\<lambda>apply'. then_read read_remaining (\<lambda>rest.
         if rest \<noteq> [] then read_fail else read_return (start, fin, kind_mask, apply' \<noteq> 0))))))"

definition handle_hook_range ::
  "(u64 \<Rightarrow> u64 \<Rightarrow> u32 \<Rightarrow> u8 + scan_result) \<Rightarrow> bytes \<Rightarrow> agent \<Rightarrow> reply \<times> agent" where
  "handle_hook_range scan_range payload s = with_parsed read_hook_range_request payload
     (\<lambda>(start, fin, kind_mask, apply') s.
        case scan_range start fin kind_mask of
          Inl status \<Rightarrow> (Inl status, s)
        | Inr scan \<Rightarrow>
            let ((added, tot, capacity_full, applied), s) =
                  (if apply' \<and> sc_complete scan
                   then case set_plain_batch (sc_addresses scan) (ag_hooks s) of
                          ((added, tot, capacity_full), h, flushed) \<Rightarrow>
                            ((added, tot, capacity_full, True), flush flushed (s\<lparr>ag_hooks := h\<rparr>))
                   else ((0, length (hooks_list (ag_hooks s)), False, False), s));
                flags = 0 OR of_bool capacity_full OR push_bit 1 (of_bool (sc_truncated scan))
                  OR push_bit 2 (of_bool (sc_complete scan)) OR push_bit 3 (of_bool applied);
                out = put_u64 [] (sc_decoded scan);
                out = put_u64 out (sc_matched scan);
                out = put_u32 out (word_of_nat (length (sc_addresses scan)));
                out = put_u32 out (word_of_nat added);
                out = put_u32 out (word_of_nat tot);
                out = put_u32 out flags
            in (Inr (fold (\<lambda>address out. put_u64 out address) (sc_addresses scan) out), s)) s"

definition handle_hook_remove :: "bytes \<Rightarrow> agent \<Rightarrow> reply \<times> agent" where
  "handle_hook_remove payload s = with_parsed reader_u64 payload (\<lambda>address s.
     case hook_remove address (ag_hooks s) of
       (h, flushed) \<Rightarrow> (Inr [], flush flushed (s\<lparr>ag_hooks := h\<rparr>))) s"

definition address_list :: "u64 list \<Rightarrow> bytes" where
  "address_list addresses =
     fold (\<lambda>address out. put_u64 out address) addresses (put_u32 [] (word_of_nat (length addresses)))"

definition handle_hook_list :: "agent \<Rightarrow> bytes" where
  "handle_hook_list s = address_list (hooks_list (ag_hooks s))"

definition handle_hook_function_list :: "agent \<Rightarrow> bytes" where
  "handle_hook_function_list s = address_list (function_list (ag_hooks s))"

definition read_layout :: "signature_layout parser" where
  "read_layout =
     then_read reader_u64 (\<lambda>address. then_read reader_u32 (\<lambda>convention. then_read reader_u32 (\<lambda>return_kind.
       then_read reader_u32 (\<lambda>count. then_read reader_u32 (\<lambda>float_mask.
         read_return \<lparr>sg_address = address, sg_calling_convention = convention, sg_return_kind = return_kind,
           sg_parameter_count = count, sg_float_mask = float_mask\<rparr>)))))"

definition handle_hook_signature_set :: "bytes \<Rightarrow> agent \<Rightarrow> reply \<times> agent" where
  "handle_hook_signature_set payload s = with_parsed read_layout payload (\<lambda>layout s.
     case set_function_signature layout (ag_hooks s) of
       (ok, h) \<Rightarrow> (Inr (put_u32 [] (of_bool ok)), s\<lparr>ag_hooks := h\<rparr>)) s"

definition handle_hook_signature_remove :: "bytes \<Rightarrow> agent \<Rightarrow> reply \<times> agent" where
  "handle_hook_signature_remove payload s = with_parsed reader_u64 payload (\<lambda>address s.
     (Inr [], s\<lparr>ag_hooks := remove_function_signature address (ag_hooks s)\<rparr>)) s"

definition read_rule :: "hook_rule parser" where
  "read_rule =
     then_read reader_u64 (\<lambda>address. then_read reader_u32 (\<lambda>thread_id. then_read reader_u32 (\<lambda>match_reg.
       then_read reader_u64 (\<lambda>match_mask. then_read reader_u64 (\<lambda>match_value. then_read reader_u32 (\<lambda>set_reg.
         then_read reader_u64 (\<lambda>set_value.
           read_return \<lparr>hr_address = address, hr_thread_id = thread_id, hr_match_reg = match_reg,
             hr_match_mask = match_mask, hr_match_value = match_value, hr_set_reg = set_reg,
             hr_set_value = set_value\<rparr>)))))))"

definition handle_hook_rule_set :: "query_env \<Rightarrow> bytes \<Rightarrow> agent \<Rightarrow> reply \<times> agent" where
  "handle_hook_rule_set q payload s = with_parsed read_rule payload (\<lambda>rule s.
     if hr_match_reg rule = PB_REG_INVALID \<and> hr_match_mask rule \<noteq> 0 then (Inl STATUS_BAD_REQUEST, s)
     else case set_rule (qe_resort q) rule (ag_rules s) of
            (ok, rules, flushed) \<Rightarrow> (Inr (put_u32 [] (of_bool ok)), flush flushed (s\<lparr>ag_rules := rules\<rparr>))) s"

definition handle_hook_clear :: "agent \<Rightarrow> agent" where
  "handle_hook_clear s = (case hooks_clear (ag_hooks s) of (h, flushed) \<Rightarrow> flush flushed (s\<lparr>ag_hooks := h\<rparr>))"

subsection \<open>Script output\<close>

definition OUTPUT_PAGE_MAX :: u32 where "OUTPUT_PAGE_MAX = 1024"

text \<open>\<open>text.chars().take(u16::MAX).collect()\<close> of \<open>handle_script_output\<close>.\<close>

definition take_chars_u16 :: "bytes \<Rightarrow> bytes" where
  "take_chars_u16 s = concat (take 65535 (utf8_chars s))"

definition put_output_line :: "output_entry \<Rightarrow> bytes" where
  "put_output_line entry =
     le_u64 (ou_seq entry) @ put_short (take_chars_u16 (ou_plugin entry)) @ put_short (take_chars_u16 (ou_line entry))"

definition handle_script_output :: "bytes \<Rightarrow> agent \<Rightarrow> reply \<times> agent" where
  "handle_script_output payload s =
     with_parsed (then_read reader_u64 (\<lambda>after. then_read reader_u32 (\<lambda>limit. read_return (after, limit))))
       payload (\<lambda>(after, limit) s.
         case output_page after (unat (min limit OUTPUT_PAGE_MAX)) (ag_output s) of
           (nxt, entries) \<Rightarrow> (Inr (le_u64 nxt @ put_rows put_output_line entries), s)) s"

definition handle_hook_rule_clear :: "agent \<Rightarrow> agent" where
  "handle_hook_rule_clear s =
     (case clear_rules (ag_rules s) of (rules, flushed) \<Rightarrow> flush flushed (s\<lparr>ag_rules := rules\<rparr>))"

end
