(* ===== verification/Pb_Control.thy ===== *)
theory Pb_Control
  imports Pb_Query
begin

section \<open>Memory, images and thread contexts (control.rs, context.rs)\<close>

text \<open>
  \<open>bindings/rust/pinbridge-agent/src/control.rs\<close> and \<open>context.rs\<close>: reading and writing target memory,
  the region walk, the image layout, and the registers of stopped threads, in the state \<open>agent\<close> only as far as it is stopped. The process is \<open>'m\<close>, and the
  calls into Windows and Pin on it are the fields of one record; nothing is assumed of them. Names are
  the bytes the reply carries.
\<close>

definition READ_MEM_MAX :: u64 where "READ_MEM_MAX = 65536"
definition WRITE_MEM_MAX :: u64 where "WRITE_MEM_MAX = 65536"
definition MAX_MODULES :: nat where "MAX_MODULES = 512"
definition MAX_SECTIONS_PER_MODULE :: nat where "MAX_SECTIONS_PER_MODULE = 256"
definition MEM_FREE :: u32 where "MEM_FREE = 0x10000"
definition MAX_REGIONS :: nat where "MAX_REGIONS = 65536"

record memory_region =
  mr_base :: u64
  mr_size :: u64
  mr_allocation_base :: u64
  mr_allocation_protect :: u32
  mr_protect :: u32
  mr_state :: u32
  mr_kind :: u32

record module_section =
  se_address :: u64
  se_size :: u64
  se_kind :: u32
  se_readable :: bool
  se_writable :: bool
  se_executable :: bool
  se_mapped :: bool
  se_name :: bytes

record module_layout =
  ml_low :: u64
  ml_high :: u64
  ml_entry :: u64
  ml_mapped_size :: u64
  ml_image_type :: u32
  ml_is_main :: bool
  ml_name :: bytes
  ml_sections :: "module_section list"

text \<open>
  \<open>os_query\<close> is \<open>VirtualQuery\<close>; \<open>os_heap_count\<close> and \<open>os_heaps\<close> the two calls of \<open>GetProcessHeaps\<close>;
  \<open>os_copy\<close> the bytes \<open>pb_pin_safe_copy\<close> could copy; \<open>os_write\<close> is \<open>WriteProcessMemory\<close>, with the number
  of bytes written; \<open>os_images\<close> the images Pin's iterator visits, each with the sections it visits; the
  rest are the calls on stopped threads.
\<close>

record 'm os_calls =
  os_query :: "'m \<Rightarrow> u64 \<Rightarrow> memory_region option"
  os_heap_count :: "'m \<Rightarrow> u32"
  os_heaps :: "'m \<Rightarrow> u32 \<times> u64 list"
  os_copy :: "'m \<Rightarrow> u64 \<Rightarrow> nat \<Rightarrow> bytes"
  os_write :: "'m \<Rightarrow> u64 \<Rightarrow> bytes \<Rightarrow> u64 \<times> 'm"
  os_images :: "'m \<Rightarrow> module_layout list"
  os_stopped_count :: "'m \<Rightarrow> u32 option"
  os_stopped_id :: "'m \<Rightarrow> u32 \<Rightarrow> u32 option"
  os_context_reg :: "'m \<Rightarrow> u32 \<Rightarrow> (u32 \<Rightarrow> u64 option) option"
  os_set_reg :: "'m \<Rightarrow> u32 \<Rightarrow> (u32 \<Rightarrow> u64 \<Rightarrow> bool \<times> 'm) option"

subsection \<open>The region walk\<close>

fun memory_walk :: "(u64 \<Rightarrow> memory_region option) \<Rightarrow> nat \<Rightarrow> u64 \<Rightarrow> memory_region list" where
  "memory_walk query 0 address = []"
| "memory_walk query (Suc left) address =
     (case query address of
        None \<Rightarrow> []
      | Some region \<Rightarrow>
          (case checked_add (mr_base region) (mr_size region) of
             None \<Rightarrow> []
           | Some fin \<Rightarrow>
               if fin \<le> address then []
               else (if mr_state region \<noteq> MEM_FREE then [region] else []) @ memory_walk query left fin))"

definition memory_map :: "'m os_calls \<Rightarrow> 'm \<Rightarrow> memory_region list \<times> u64 list" where
  "memory_map os m =
     (let regions = memory_walk (os_query os m) MAX_REGIONS 0;
          heap_count = os_heap_count os m;
          raw_heaps = take (unat heap_count) (snd (os_heaps os m) @ replicate (unat heap_count) 0);
          written = (if raw_heaps = [] then 0 else min (fst (os_heaps os m)) heap_count)
      in (regions, filter (\<lambda>heap. heap \<noteq> 0) (take (unat written) raw_heaps)))"

definition module_layout_of :: "'m os_calls \<Rightarrow> 'm \<Rightarrow> module_layout list" where
  "module_layout_of os m =
     map (\<lambda>img. img\<lparr>ml_sections := take MAX_SECTIONS_PER_MODULE (ml_sections img)\<rparr>)
       (take MAX_MODULES (os_images os m))"

definition modules :: "'m os_calls \<Rightarrow> 'm \<Rightarrow> (u64 \<times> u64 \<times> bool \<times> bytes) list" where
  "modules os m = map (\<lambda>img. (ml_low img, ml_high img, ml_is_main img, ml_name img)) (module_layout_of os m)"

subsection \<open>Replies\<close>

definition put_region :: "bytes \<Rightarrow> memory_region \<Rightarrow> bytes" where
  "put_region out r =
     put_u32 (put_u32 (put_u32 (put_u32 (put_u64 (put_u64 (put_u64 out (mr_base r)) (mr_size r))
       (mr_allocation_base r)) (mr_allocation_protect r)) (mr_protect r)) (mr_state r)) (mr_kind r)"

definition handle_read_mem :: "'m os_calls \<Rightarrow> 'm \<Rightarrow> bytes \<Rightarrow> reply" where
  "handle_read_mem os m payload =
     (case parse read_page_request payload of
        None \<Rightarrow> Inl STATUS_BAD_REQUEST
      | Some (address, count) \<Rightarrow>
          if count = 0 \<or> count > READ_MEM_MAX then Inl STATUS_BAD_REQUEST
          else let buffer = take (unat count) (os_copy os m address (unat count))
               in Inr (put_u64 (put_u64 [] address) (word_of_nat (length buffer)) @ buffer))"

definition handle_memory_region :: "'m os_calls \<Rightarrow> 'm \<Rightarrow> bytes \<Rightarrow> reply" where
  "handle_memory_region os m payload =
     (case parse reader_u64 payload of
        None \<Rightarrow> Inl STATUS_BAD_REQUEST
      | Some address \<Rightarrow>
          (case os_query os m address of
             None \<Rightarrow> Inr [0]
           | Some info \<Rightarrow> Inr (put_region [1] info)))"

definition read_write_request :: "(u64 \<times> u64 \<times> bytes) parser" where
  "read_write_request = then_read reader_u64 (\<lambda>address. then_read reader_u64 (\<lambda>count.
     then_read read_remaining (\<lambda>data. read_return (address, count, data))))"

definition handle_write_mem :: "'m os_calls \<Rightarrow> bool \<Rightarrow> 'm \<Rightarrow> bytes \<Rightarrow> reply \<times> 'm" where
  "handle_write_mem os is_stopped m payload =
     (case parse read_write_request payload of
        None \<Rightarrow> (Inl STATUS_BAD_REQUEST, m)
      | Some (address, count, data) \<Rightarrow>
          if count = 0 \<or> count > WRITE_MEM_MAX \<or> length data < unat count then (Inl STATUS_BAD_REQUEST, m)
          else if \<not> is_stopped then (Inl STATUS_BAD_REQUEST, m)
          else case os_write os m address (take (unat count) data) of
                 (written, m) \<Rightarrow> (Inr (put_u64 [] written), m))"

definition handle_modules :: "'m os_calls \<Rightarrow> 'm \<Rightarrow> bytes" where
  "handle_modules os m =
     (let entries = modules os m
      in fold (\<lambda>(low, high, is_main, name) out. put_u64 (put_u64 out low) high @ [of_bool is_main] @ put_name name)
           entries (put_u32 [] (word_of_nat (length entries))))"

definition section_flags :: "module_section \<Rightarrow> u8" where
  "section_flags s = of_bool (se_readable s) OR push_bit 1 (of_bool (se_writable s))
     OR push_bit 2 (of_bool (se_executable s)) OR push_bit 3 (of_bool (se_mapped s))"

definition put_section :: "bytes \<Rightarrow> module_section \<Rightarrow> bytes" where
  "put_section out s =
     put_u32 (put_u64 (put_u64 out (se_address s)) (se_size s)) (se_kind s) @ [section_flags s] @ put_name (se_name s)"

definition put_module :: "bytes \<Rightarrow> module_layout \<Rightarrow> bytes" where
  "put_module out img =
     (let out = put_u64 (put_u64 (put_u64 (put_u64 out (ml_low img)) (ml_high img)) (ml_entry img)) (ml_mapped_size img);
          out = put_u32 out (ml_image_type img) @ [of_bool (ml_is_main img)];
          out = out @ put_name (ml_name img);
          out = put_u32 out (word_of_nat (length (ml_sections img)))
      in fold (\<lambda>s out. put_section out s) (ml_sections img) out)"

definition handle_memory_map :: "'m os_calls \<Rightarrow> 'm \<Rightarrow> bytes" where
  "handle_memory_map os m =
     (case memory_map os m of
        (regions, heaps) \<Rightarrow>
          let images = module_layout_of os m;
              out = put_u32 [] (word_of_nat (length regions));
              out = fold (\<lambda>r out. put_region out r) regions out;
              out = put_u32 out (word_of_nat (length heaps));
              out = fold (\<lambda>heap out. put_u64 out heap) heaps out;
              out = put_u32 out (word_of_nat (length images))
          in fold (\<lambda>img out. put_module out img) images out)"

subsection \<open>Thread contexts (context.rs)\<close>

definition stopped_ids :: "'m os_calls \<Rightarrow> 'm \<Rightarrow> u32 list" where
  "stopped_ids os m =
     (case os_stopped_count os m of
        None \<Rightarrow> []
      | Some count \<Rightarrow> List.map_filter (\<lambda>index. os_stopped_id os m (word_of_nat index)) [0..<unat count])"

definition handle_threads :: "'m os_calls \<Rightarrow> 'm \<Rightarrow> bytes" where
  "handle_threads os m =
     (let ids = stopped_ids os m
      in fold (\<lambda>tid out. put_u32 out tid) ids (put_u32 [] (word_of_nat (length ids))))"

definition handle_context_get :: "'m os_calls \<Rightarrow> u32 \<Rightarrow> 'm \<Rightarrow> bytes \<Rightarrow> reply" where
  "handle_context_get os width m payload =
     (case parse reader_u32 payload of
        None \<Rightarrow> Inl STATUS_BAD_REQUEST
      | Some tid \<Rightarrow>
          (case os_context_reg os m tid of
             None \<Rightarrow> Inl STATUS_BAD_REQUEST
           | Some value_of \<Rightarrow>
               let registers = gp_registers width
               in Inr (fold (\<lambda>(_, reg) out. put_u64 (put_u32 out reg) (case value_of reg of None \<Rightarrow> 0 | Some v \<Rightarrow> v)) registers
                    (put_u32 [] (word_of_nat (length registers))))))"

definition handle_context_set :: "'m os_calls \<Rightarrow> 'm \<Rightarrow> bytes \<Rightarrow> reply \<times> 'm" where
  "handle_context_set os m payload =
     (case parse (then_read reader_u32 (\<lambda>tid. then_read reader_u32 (\<lambda>reg. then_read reader_u64 (\<lambda>new.
                    read_return (tid, reg, new))))) payload of
        None \<Rightarrow> (Inl STATUS_BAD_REQUEST, m)
      | Some (tid, reg, new) \<Rightarrow>
          (case os_set_reg os m tid of
             None \<Rightarrow> (Inl STATUS_BAD_REQUEST, m)
           | Some write_reg \<Rightarrow> (case write_reg reg new of (ok, m) \<Rightarrow> (if ok then Inr [] else Inl STATUS_INTERNAL, m))))"

end
