(* ===== verification/Pb_Client.thy ===== *)
theory Pb_Client
  imports Pb_Control
begin

section \<open>The client library (pinbridge-client/src/client.rs)\<close>

text \<open>
  \<open>bindings/rust/pinbridge-client/src/client.rs\<close>: every operation of \<open>Client\<close> writes one request frame,
  reads one reply frame and parses its payload. What the server does with the bytes written is the
  argument \<open>peer\<close>, a function of the bytes and its state \<open>'s\<close> to the bytes it writes back. A call gives
  an error or its result. Allocation and time-outs are left out.
\<close>

datatype client_error = Io io_error | Server u8 bytes | Refused

type_synonym 's peer = "bytes \<Rightarrow> 's \<Rightarrow> bytes \<times> 's"
type_synonym ('s, 'a) call = "'s \<Rightarrow> (client_error + 'a) \<times> 's"

text \<open>\<open>Server\<close> carries the status and the reason of the payload, which the code formats into a message.\<close>

definition request :: "'s peer \<Rightarrow> u8 \<Rightarrow> bytes \<Rightarrow> ('s, bytes) call" where
  "request peer op_code payload s =
     (case write_frame [] op_code STATUS_OK payload of
        Inl e \<Rightarrow> (Inl (Io e), s)
      | Inr sent \<Rightarrow>
          (case peer sent s of (stream, s) \<Rightarrow>
             (case read_frame stream of
                Inl e \<Rightarrow> (Inl (Io e), s)
              | Inr ((resp_op, status, body), _) \<Rightarrow>
                  if resp_op \<noteq> op_code then (Inl (Io InvalidData), s)
                  else if status \<noteq> STATUS_OK then (Inl (Server status (utf8_lossy body)), s)
                  else (Inr body, s))))"

text \<open>A request whose reply is read by \<open>decode\<close>; a short payload is \<open>InvalidData\<close>.\<close>

definition ask :: "'s peer \<Rightarrow> u8 \<Rightarrow> bytes \<Rightarrow> (bytes \<Rightarrow> 'a option) \<Rightarrow> ('s, 'a) call" where
  "ask peer op_code payload decode s =
     (case request peer op_code payload s of
        (Inl e, s) \<Rightarrow> (Inl e, s)
      | (Inr body, s) \<Rightarrow> (case decode body of None \<Rightarrow> (Inl (Io InvalidData), s) | Some x \<Rightarrow> (Inr x, s)))"

definition no_reply :: "bytes \<Rightarrow> unit option" where "no_reply body = Some ()"

definition first_flag :: "bytes \<Rightarrow> bool option" where
  "first_flag body = Some (case body of [] \<Rightarrow> False | b # _ \<Rightarrow> b \<noteq> 0)"

definition word_flag :: "bytes \<Rightarrow> bool option" where
  "word_flag body = map_option (\<lambda>w. w \<noteq> 0) (parse reader_u32 body)"

definition read_optional :: "'a parser \<Rightarrow> 'a option parser" where
  "read_optional p r = Some (case p r of None \<Rightarrow> (None, r) | Some (x, r) \<Rightarrow> (Some x, r))"

text \<open>The rows of an event page: each decoder reads the unread bytes and the next starts one row later.\<close>

definition read_event_rows :: "(bytes \<Rightarrow> 'a option) \<Rightarrow> nat \<Rightarrow> u64 \<Rightarrow> 'a list parser" where
  "read_event_rows decode row count r =
     map_option (\<lambda>xs. (xs, r)) (decode_rows decode row (unat count) (reader_remaining r))"

subsection \<open>Observation\<close>

record ping_info =
  pi_abi_major :: u32
  pi_abi_minor :: u32
  pi_pid :: u32
  pi_total :: u64
  pi_arch :: "u32 option"
  pi_pointer_width :: "u32 option"

definition read_ping :: "ping_info parser" where
  "read_ping = then_read reader_u32 (\<lambda>major. then_read reader_u32 (\<lambda>minor. then_read reader_u32 (\<lambda>pid.
     then_read reader_u64 (\<lambda>tot. then_read (read_optional reader_u32) (\<lambda>arch.
       then_read (read_optional reader_u32) (\<lambda>width.
         read_return \<lparr>pi_abi_major = major, pi_abi_minor = minor, pi_pid = pid, pi_total = tot,
           pi_arch = arch, pi_pointer_width = width\<rparr>))))))"

definition ping_full :: "'s peer \<Rightarrow> ('s, ping_info) call" where
  "ping_full peer = ask peer OP_PING [] (parse read_ping)"

definition client_counters :: "'s peer \<Rightarrow> ('s, u64 \<times> u64 \<times> u64 \<times> u64 list) call" where
  "client_counters peer = ask peer OP_COUNTERS [] (parse
     (then_read reader_u64 (\<lambda>tot. then_read reader_u64 (\<lambda>dropped. then_read reader_u64 (\<lambda>capacity.
        then_read (repeat_read 8 reader_u64) (\<lambda>kinds. read_return (tot, dropped, capacity, kinds)))))))"

definition read_page :: "(bytes \<Rightarrow> 'a option) \<Rightarrow> nat \<Rightarrow> (u64 \<times> u64 \<times> u64 \<times> 'a list) parser" where
  "read_page decode row =
     then_read reader_u64 (\<lambda>tot. then_read reader_u64 (\<lambda>second. then_read reader_u64 (\<lambda>nxt.
       then_read reader_u64 (\<lambda>count. then_read (read_event_rows decode row count) (\<lambda>events.
         read_return (tot, second, nxt, events))))))"

definition client_ring_page :: "'s peer \<Rightarrow> u64 \<Rightarrow> u64 \<Rightarrow> ('s, u64 \<times> u64 \<times> event_record list) call" where
  "client_ring_page peer after limit = ask peer OP_RING_PAGE (put_u64 (put_u64 [] after) limit)
     (\<lambda>body. map_option (\<lambda>(_, missed, nxt, events). (missed, nxt, events))
        (parse (read_page event_decode EVENT_WIRE_LEN) body))"

definition ring_newest :: "'s peer \<Rightarrow> u64 \<Rightarrow> ('s, u64 \<times> event_record list) call" where
  "ring_newest peer limit s =
     (case client_counters peer s of
        (Inl e, s) \<Rightarrow> (Inl e, s)
      | (Inr (tot, _), s) \<Rightarrow>
          (case client_ring_page peer (sat_sub tot limit) limit s of
             (Inl e, s) \<Rightarrow> (Inl e, s)
           | (Inr (_, _, events), s) \<Rightarrow> (Inr (tot, events), s)))"

definition client_priority_newest :: "'s peer \<Rightarrow> u64 \<Rightarrow> ('s, u64 \<times> u64 \<times> u64 \<times> event_record list) call" where
  "client_priority_newest peer limit =
     ask peer OP_PRIORITY_NEWEST (put_u64 [] limit) (parse (read_page event_decode EVENT_WIRE_LEN))"

definition window_request :: "u64 \<Rightarrow> u64 \<Rightarrow> bytes" where
  "window_request limit before' = put_u64 (put_u64 [] (min (max limit 1) 4096)) before'"

definition hook_events_window :: "'s peer \<Rightarrow> u64 \<Rightarrow> u64 \<Rightarrow> ('s, u64 \<times> u64 \<times> u64 \<times> hook_log_record list) call" where
  "hook_events_window peer limit before' = ask peer OP_HOOK_EVENTS_NEWEST (window_request limit before')
     (parse (read_page hook_log_decode HOOK_LOG_WIRE_LEN))"

definition hook_events_newest :: "'s peer \<Rightarrow> u64 \<Rightarrow> ('s, u64 \<times> u64 \<times> u64 \<times> hook_log_record list) call" where
  "hook_events_newest peer limit = hook_events_window peer limit 0"

definition syscall_events_window :: "'s peer \<Rightarrow> u64 \<Rightarrow> u64 \<Rightarrow> ('s, u64 \<times> u64 \<times> u64 \<times> hook_log_record list) call" where
  "syscall_events_window peer limit before' = ask peer OP_SYSCALL_EVENTS_NEWEST (window_request limit before')
     (parse (read_page hook_log_decode HOOK_LOG_WIRE_LEN))"

definition syscall_events_newest :: "'s peer \<Rightarrow> u64 \<Rightarrow> ('s, u64 \<times> u64 \<times> u64 \<times> hook_log_record list) call" where
  "syscall_events_newest peer limit = syscall_events_window peer limit 0"

subsection \<open>Execution control and breakpoints\<close>

definition client_stop :: "'s peer \<Rightarrow> ('s, bool) call" where
  "client_stop peer = ask peer OP_STOP [] first_flag"

definition client_resume :: "'s peer \<Rightarrow> ('s, bool) call" where
  "client_resume peer = ask peer OP_RESUME [] first_flag"

definition client_step :: "'s peer \<Rightarrow> u32 \<Rightarrow> bool \<Rightarrow> ('s, bool) call" where
  "client_step peer thread_id over = ask peer OP_STEP (put_u32 [] thread_id @ [of_bool over]) first_flag"

definition client_bp_set :: "'s peer \<Rightarrow> u64 \<Rightarrow> ('s, u32) call" where
  "client_bp_set peer address = ask peer OP_BP_SET (put_u64 [] address) (parse reader_u32)"

definition client_bp_remove :: "'s peer \<Rightarrow> u32 \<Rightarrow> ('s, u32) call" where
  "client_bp_remove peer ident = ask peer OP_BP_REMOVE (put_u32 [] ident) (parse reader_u32)"

definition read_bp_row :: "(u32 \<times> u64 \<times> u64) parser" where
  "read_bp_row = then_read reader_u32 (\<lambda>ident. then_read reader_u64 (\<lambda>address. then_read reader_u64 (\<lambda>hits.
     read_return (ident, address, hits))))"

text \<open>The flag byte first, then a reader over the rest.\<close>

definition after_flag :: "nat \<Rightarrow> 'a parser \<Rightarrow> bytes \<Rightarrow> (bool \<times> 'a) option" where
  "after_flag least p body =
     (if length body < least then None else map_option (\<lambda>x. (hd body \<noteq> 0, x)) (parse p (tl body)))"

definition client_bp_list ::
  "'s peer \<Rightarrow> ('s, bool \<times> u32 \<times> u64 \<times> u64 \<times> (u32 \<times> u64 \<times> u64) list) call" where
  "client_bp_list peer = ask peer OP_BP_LIST [] (after_flag 21
     (then_read reader_u32 (\<lambda>hit_tid. then_read reader_u64 (\<lambda>hit_addr. then_read reader_u64 (\<lambda>stop_gen.
        then_read (read_rows read_bp_row) (\<lambda>entries. read_return (hit_tid, hit_addr, stop_gen, entries)))))))"

definition entry_stop_status :: "'s peer \<Rightarrow> ('s, bool \<times> u32 \<times> u64 \<times> u64 option) call" where
  "entry_stop_status peer = ask peer OP_BP_LIST [] (after_flag 21
     (then_read reader_u32 (\<lambda>hit_tid. then_read reader_u64 (\<lambda>hit_addr. then_read reader_u64 (\<lambda>stop_gen.
        then_read reader_u32 (\<lambda>count. then_read (reader_skip (unat count * 20)) (\<lambda>_.
          then_read (read_optional reader_u64) (\<lambda>entry. read_return (hit_tid, hit_addr, entry)))))))))"

subsection \<open>Memory, modules and registers\<close>

definition client_read_memory :: "'s peer \<Rightarrow> u64 \<Rightarrow> u64 \<Rightarrow> ('s, bytes) call" where
  "client_read_memory peer address count = ask peer OP_READ_MEM (put_u64 (put_u64 [] address) count)
     (parse (then_read reader_u64 (\<lambda>_. then_read reader_u64 (\<lambda>copied. then_read read_remaining (\<lambda>data.
        if length data < unat copied then read_fail else read_return (take (unat copied) data))))))"

definition client_write_memory :: "'s peer \<Rightarrow> u64 \<Rightarrow> bytes \<Rightarrow> ('s, u64) call" where
  "client_write_memory peer address data =
     ask peer OP_WRITE_MEM (put_u64 (put_u64 [] address) (word_of_nat (length data)) @ data) (parse reader_u64)"

definition read_module :: "(u64 \<times> u64 \<times> bool \<times> bytes) parser" where
  "read_module = then_read reader_u64 (\<lambda>low. then_read reader_u64 (\<lambda>high. then_read reader_u8 (\<lambda>is_main.
     then_read read_name (\<lambda>name. read_return (low, high, is_main \<noteq> 0, name)))))"

definition client_modules :: "'s peer \<Rightarrow> ('s, (u64 \<times> u64 \<times> bool \<times> bytes) list) call" where
  "client_modules peer = ask peer OP_MODULES [] (parse (read_rows read_module))"

definition client_threads :: "'s peer \<Rightarrow> ('s, u32 list) call" where
  "client_threads peer = ask peer OP_THREADS [] (parse (read_rows reader_u32))"

definition client_context_get :: "'s peer \<Rightarrow> u32 \<Rightarrow> ('s, (u32 \<times> u64) list) call" where
  "client_context_get peer thread_id = ask peer OP_CONTEXT_GET (put_u32 [] thread_id)
     (parse (read_rows (then_read reader_u32 (\<lambda>reg. then_read reader_u64 (\<lambda>v. read_return (reg, v))))))"

definition client_context_set :: "'s peer \<Rightarrow> u32 \<Rightarrow> u32 \<Rightarrow> u64 \<Rightarrow> ('s, unit) call" where
  "client_context_set peer thread_id reg new =
     ask peer OP_CONTEXT_SET (put_u64 (put_u32 (put_u32 [] thread_id) reg) new) no_reply"

definition read_region :: "memory_region parser" where
  "read_region = then_read reader_u64 (\<lambda>base. then_read reader_u64 (\<lambda>region_size. then_read reader_u64 (\<lambda>allocation_base.
     then_read reader_u32 (\<lambda>allocation_protect. then_read reader_u32 (\<lambda>protect. then_read reader_u32 (\<lambda>state.
       then_read reader_u32 (\<lambda>kind.
         read_return \<lparr>mr_base = base, mr_size = region_size, mr_allocation_base = allocation_base,
           mr_allocation_protect = allocation_protect, mr_protect = protect, mr_state = state, mr_kind = kind\<rparr>)))))))"

definition client_memory_region :: "'s peer \<Rightarrow> u64 \<Rightarrow> ('s, memory_region option) call" where
  "client_memory_region peer address = ask peer OP_MEMORY_REGION (put_u64 [] address)
     (\<lambda>body. if body = [] \<or> hd body = 0 then Some None else map_option Some (parse read_region (tl body)))"

definition read_section :: "module_section parser" where
  "read_section = then_read reader_u64 (\<lambda>address. then_read reader_u64 (\<lambda>section_size. then_read reader_u32 (\<lambda>kind.
     then_read reader_u8 (\<lambda>flags. then_read read_name (\<lambda>name.
       read_return \<lparr>se_address = address, se_size = section_size, se_kind = kind, se_readable = (flags AND 1 \<noteq> 0),
         se_writable = (flags AND 2 \<noteq> 0), se_executable = (flags AND 4 \<noteq> 0), se_mapped = (flags AND 8 \<noteq> 0),
         se_name = name\<rparr>)))))"

text \<open>A counted list of at most \<open>most\<close> rows.\<close>

definition read_rows_upto :: "nat \<Rightarrow> 'a parser \<Rightarrow> 'a list parser" where
  "read_rows_upto most p =
     then_read reader_u32 (\<lambda>n. if unat n > most then read_fail else repeat_read (unat n) p)"

definition read_layout_module :: "module_layout parser" where
  "read_layout_module = then_read reader_u64 (\<lambda>low. then_read reader_u64 (\<lambda>high. then_read reader_u64 (\<lambda>entry.
     then_read reader_u64 (\<lambda>mapped_size. then_read reader_u32 (\<lambda>image_type. then_read reader_u8 (\<lambda>is_main.
       then_read read_name (\<lambda>name. then_read (read_rows_upto 256 read_section) (\<lambda>sections.
         read_return \<lparr>ml_low = low, ml_high = high, ml_entry = entry, ml_mapped_size = mapped_size,
           ml_image_type = image_type, ml_is_main = (is_main \<noteq> 0), ml_name = name, ml_sections = sections\<rparr>))))))))"

definition client_memory_map ::
  "'s peer \<Rightarrow> ('s, memory_region list \<times> u64 list \<times> module_layout list) call" where
  "client_memory_map peer = ask peer OP_MEMORY_MAP [] (parse
     (then_read (read_rows_upto 65536 read_region) (\<lambda>regions.
        then_read (read_rows_upto 16384 reader_u64) (\<lambda>heaps.
          then_read (read_rows_upto 512 read_layout_module) (\<lambda>modules.
            read_return (regions, heaps, modules))))))"

subsection \<open>Policies and filters\<close>

definition client_engine_set :: "'s peer \<Rightarrow> u32 \<Rightarrow> bool \<Rightarrow> ('s, unit) call" where
  "client_engine_set peer kind on = ask peer OP_ENGINE_SET (put_u32 [] kind @ [of_bool on]) no_reply"

definition client_exc_policy_set :: "'s peer \<Rightarrow> bool \<Rightarrow> u32 \<Rightarrow> ('s, unit) call" where
  "client_exc_policy_set peer enabled code = ask peer OP_EXC_POLICY_SET (put_u32 [of_bool enabled] code) no_reply"

definition client_exc_policy_get :: "'s peer \<Rightarrow> ('s, bool \<times> u32 \<times> bool) call" where
  "client_exc_policy_get peer = ask peer OP_EXC_POLICY_GET []
     (\<lambda>body. if length body < 6 then None else Some (body ! 0 \<noteq> 0, u32_at body 1, body ! 5 \<noteq> 0))"

definition syscall_filter_scoped :: "'s peer \<Rightarrow> u8 \<Rightarrow> u32 list \<Rightarrow> u64 \<Rightarrow> u64 \<Rightarrow> ('s, unit) call" where
  "syscall_filter_scoped peer mode numbers scope_start scope_end s =
     (if (scope_start = 0) \<noteq> (scope_end = 0) \<or> (scope_end \<noteq> 0 \<and> scope_end \<le> scope_start)
      then (Inl (Io InvalidInput), s)
      else ask peer OP_SYSCALL_FILTER
        ([mode] @ le_u16 (word_of_nat (length numbers)) @ concat (map le_u32 numbers)
           @ le_u64 scope_start @ le_u64 scope_end) no_reply s)"

definition client_syscall_filter :: "'s peer \<Rightarrow> u8 \<Rightarrow> u32 list \<Rightarrow> ('s, unit) call" where
  "client_syscall_filter peer mode numbers = syscall_filter_scoped peer mode numbers 0 0"

subsection \<open>Hook points\<close>

definition client_hook_set :: "'s peer \<Rightarrow> u64 \<Rightarrow> ('s, bool) call" where
  "client_hook_set peer address = ask peer OP_HOOK_SET (put_u64 [] address) word_flag"

definition client_hook_set_batch :: "'s peer \<Rightarrow> u64 list \<Rightarrow> ('s, u32 \<times> u32 \<times> bool) call" where
  "client_hook_set_batch peer addresses s =
     (if length addresses > 32768 then (Inl (Io InvalidInput), s)
      else ask peer OP_HOOK_SET_BATCH (put_rows le_u64 addresses)
        (parse (then_read reader_u32 (\<lambda>added. then_read reader_u32 (\<lambda>tot. then_read reader_u32 (\<lambda>full.
           read_return (added, tot, full \<noteq> 0)))))) s)"

record hook_range_result =
  hg_decoded :: u64
  hg_matched :: u64
  hg_added :: u32
  hg_total :: u32
  hg_capacity_full :: bool
  hg_truncated :: bool
  hg_complete :: bool
  hg_applied :: bool
  hg_addresses :: "u64 list"

definition read_hook_range :: "hook_range_result parser" where
  "read_hook_range = then_read reader_u64 (\<lambda>decoded. then_read reader_u64 (\<lambda>matched. then_read reader_u32 (\<lambda>count.
     then_read reader_u32 (\<lambda>added. then_read reader_u32 (\<lambda>tot. then_read reader_u32 (\<lambda>flags.
       then_read (repeat_read (unat count) reader_u64) (\<lambda>addresses.
         read_return \<lparr>hg_decoded = decoded, hg_matched = matched, hg_added = added, hg_total = tot,
           hg_capacity_full = (flags AND 1 \<noteq> 0), hg_truncated = (flags AND 2 \<noteq> 0),
           hg_complete = (flags AND 4 \<noteq> 0), hg_applied = (flags AND 8 \<noteq> 0), hg_addresses = addresses\<rparr>)))))))"

definition client_hook_range :: "'s peer \<Rightarrow> u64 \<Rightarrow> u64 \<Rightarrow> u32 \<Rightarrow> bool \<Rightarrow> ('s, hook_range_result) call" where
  "client_hook_range peer start fin kind_mask apply' = ask peer OP_HOOK_RANGE
     (put_u32 (put_u64 (put_u64 [] start) fin) kind_mask @ [of_bool apply']) (parse read_hook_range)"

definition client_hook_remove :: "'s peer \<Rightarrow> u64 \<Rightarrow> ('s, unit) call" where
  "client_hook_remove peer address = ask peer OP_HOOK_REMOVE (put_u64 [] address) no_reply"

definition client_hook_clear :: "'s peer \<Rightarrow> ('s, unit) call" where
  "client_hook_clear peer = ask peer OP_HOOK_CLEAR [] no_reply"

definition client_hook_list :: "'s peer \<Rightarrow> ('s, u64 list) call" where
  "client_hook_list peer = ask peer OP_HOOK_LIST [] (parse (read_rows reader_u64))"

definition client_hook_function_list :: "'s peer \<Rightarrow> ('s, u64 list) call" where
  "client_hook_function_list peer = ask peer OP_HOOK_FUNCTION_LIST [] (parse (read_rows reader_u64))"

definition client_hook_signature_set :: "'s peer \<Rightarrow> signature_layout \<Rightarrow> ('s, bool) call" where
  "client_hook_signature_set peer layout = ask peer OP_HOOK_SIGNATURE_SET
     (put_u32 (put_u32 (put_u32 (put_u32 (put_u64 [] (sg_address layout)) (sg_calling_convention layout))
        (sg_return_kind layout)) (sg_parameter_count layout)) (sg_float_mask layout)) word_flag"

definition client_hook_signature_remove :: "'s peer \<Rightarrow> u64 \<Rightarrow> ('s, unit) call" where
  "client_hook_signature_remove peer address = ask peer OP_HOOK_SIGNATURE_REMOVE (put_u64 [] address) no_reply"

definition client_hook_rule_set :: "'s peer \<Rightarrow> hook_rule \<Rightarrow> ('s, bool) call" where
  "client_hook_rule_set peer rule = ask peer OP_HOOK_RULE_SET
     (put_u64 (put_u32 (put_u64 (put_u64 (put_u32 (put_u32 (put_u64 [] (hr_address rule)) (hr_thread_id rule))
        (hr_match_reg rule)) (hr_match_mask rule)) (hr_match_value rule)) (hr_set_reg rule)) (hr_set_value rule))
     word_flag"

definition client_hook_rule_clear :: "'s peer \<Rightarrow> ('s, unit) call" where
  "client_hook_rule_clear peer = ask peer OP_HOOK_RULE_CLEAR [] no_reply"

subsection \<open>Symbols and instructions\<close>

record resolution =
  rs_kind :: u8
  rs_offset :: u64
  rs_module :: bytes
  rs_symbol :: bytes

definition read_resolution :: "resolution parser" where
  "read_resolution = then_read reader_u8 (\<lambda>kind. then_read reader_u64 (\<lambda>_. then_read reader_u64 (\<lambda>offset.
     then_read read_short (\<lambda>module. then_read read_short (\<lambda>symbol.
       read_return \<lparr>rs_kind = kind, rs_offset = offset, rs_module = module, rs_symbol = symbol\<rparr>)))))"

definition client_resolve :: "'s peer \<Rightarrow> u64 list \<Rightarrow> ('s, resolution list) call" where
  "client_resolve peer addresses = ask peer OP_RESOLVE (put_rows le_u64 addresses) (parse (read_rows read_resolution))"

definition client_resolve_name :: "'s peer \<Rightarrow> bytes \<Rightarrow> ('s, u64) call" where
  "client_resolve_name peer spec = ask peer OP_RESOLVE_NAME (put_short spec) (parse reader_u64)"

definition client_exports :: "'s peer \<Rightarrow> bytes \<Rightarrow> ('s, (u64 \<times> bytes) list) call" where
  "client_exports peer module = ask peer OP_EXPORTS (put_short module)
     (parse (read_rows (then_read reader_u64 (\<lambda>address. then_read read_short (\<lambda>name. read_return (address, name))))))"

definition read_disasm_row :: "(u64 \<times> u32 \<times> u32 \<times> bytes \<times> bytes \<times> u64) parser" where
  "read_disasm_row = then_read reader_u64 (\<lambda>address. then_read reader_u32 (\<lambda>insn_size. then_read reader_u32 (\<lambda>kind.
     then_read reader_u64 (\<lambda>target. then_read reader_u32 (\<lambda>text_len. then_read read_remaining (\<lambda>rest.
       let n = unat text_len; m = unat insn_size
       in if length rest < n + m then read_fail
          else then_read (reader_skip (n + m)) (\<lambda>_.
            read_return (address, insn_size, kind, utf8_lossy (take n rest), take m (drop n rest), target))))))))"

definition client_disasm :: "'s peer \<Rightarrow> u64 \<Rightarrow> u64 \<Rightarrow> ('s, (u64 \<times> u32 \<times> u32 \<times> bytes \<times> bytes \<times> u64) list) call" where
  "client_disasm peer address count = ask peer OP_DISASM (put_u64 (put_u64 [] address) count)
     (parse (read_rows read_disasm_row))"

subsection \<open>Recording\<close>

text \<open>\<open>1 << kind\<close> on \<open>u32\<close> shifts by \<open>kind\<close> modulo 32 in a release build.\<close>

definition kinds_mask :: "u32 list \<Rightarrow> u32" where
  "kinds_mask kinds = fold (\<lambda>kind m. m OR push_bit (unat kind mod 32) 1) kinds 0"

definition refused_if_zero :: "(client_error + u32) \<times> 's \<Rightarrow> (client_error + unit) \<times> 's" where
  "refused_if_zero r =
     (case r of (Inl e, s) \<Rightarrow> (Inl e, s) | (Inr ok, s) \<Rightarrow> (if ok = 0 then Inl Refused else Inr (), s))"

definition trace_start :: "'s peer \<Rightarrow> u32 list \<Rightarrow> u64 \<Rightarrow> u64 \<Rightarrow> bytes \<Rightarrow> ('s, unit) call" where
  "trace_start peer kinds lo hi path s =
     refused_if_zero (ask peer OP_TRACE_START
       (put_u64 (put_u64 (put_u32 [] (kinds_mask kinds)) lo) hi @ put_short path) (parse reader_u32) s)"

definition put_count16 :: "('a \<Rightarrow> bytes) \<Rightarrow> 'a list \<Rightarrow> bytes" where
  "put_count16 put xs = le_u16 (word_of_nat (length xs)) @ concat (map put xs)"

definition trace_start_spec :: "'s peer \<Rightarrow> u32 list \<Rightarrow> (u64 \<times> u64) list \<Rightarrow> u32 list \<Rightarrow> bytes \<Rightarrow> ('s, unit) call" where
  "trace_start_spec peer kinds ranges threads path s =
     (if ranges = [] \<or> length ranges > 16 \<or> length threads > 64 then (Inl (Io InvalidInput), s)
      else if list_ex (\<lambda>kind. kind \<ge> 32) kinds then (Inl (Io InvalidInput), s)
      else if length path > 65535 then (Inl (Io InvalidInput), s)
      else refused_if_zero (ask peer OP_TRACE_START_SPEC
        (put_u32 [] (kinds_mask kinds) @ put_count16 put_range ranges @ put_count16 le_u32 threads @ put_short path)
        (parse reader_u32) s))"

definition trace_extend :: "'s peer \<Rightarrow> (u64 \<times> u64) list \<Rightarrow> ('s, unit) call" where
  "trace_extend peer ranges s =
     (if ranges = [] \<or> length ranges > 16 then (Inl (Io InvalidInput), s)
      else ask peer OP_TRACE_EXTEND (put_count16 put_range ranges) no_reply s)"

definition trace_stop :: "'s peer \<Rightarrow> ('s, u64 \<times> u64) call" where
  "trace_stop peer = ask peer OP_TRACE_STOP [] (parse read_range)"

record trace_status =
  ts_state :: u8
  ts_active :: bool
  ts_recorded :: u64
  ts_dropped :: u64

definition trace_status_detail :: "'s peer \<Rightarrow> ('s, trace_status) call" where
  "trace_status_detail peer = ask peer OP_TRACE_STATUS []
     (\<lambda>body. map_option (\<lambda>(active, recorded, dropped, state).
        \<lparr>ts_state = (case state of None \<Rightarrow> if active then 1 else 3 | Some v \<Rightarrow> v), ts_active = active,
         ts_recorded = recorded, ts_dropped = dropped\<rparr>)
        (after_flag 1 (then_read reader_u64 (\<lambda>recorded. then_read reader_u64 (\<lambda>dropped.
           then_read (read_optional reader_u8) (\<lambda>state. read_return (recorded, dropped, state))))) body))"

definition state_name :: "trace_status \<Rightarrow> string" where
  "state_name t =
     (if ts_state t = 0 then ''idle'' else if ts_state t = 1 then ''recording''
      else if ts_state t = 2 then ''draining'' else if ts_state t = 3 then ''complete''
      else if ts_state t = 4 then ''failed'' else ''unknown'')"

subsection \<open>Scripts\<close>

definition client_script_load :: "'s peer \<Rightarrow> bytes \<Rightarrow> bytes \<Rightarrow> ('s, u32) call" where
  "client_script_load peer name source =
     ask peer OP_SCRIPT_LOAD (put_short name @ put_name source) (parse reader_u32)"

definition client_script_unload :: "'s peer \<Rightarrow> bytes \<Rightarrow> ('s, unit) call" where
  "client_script_unload peer name = ask peer OP_SCRIPT_UNLOAD (put_short name) no_reply"

definition read_output_line :: "output_entry parser" where
  "read_output_line = then_read reader_u64 (\<lambda>seq. then_read read_short (\<lambda>plugin. then_read read_short (\<lambda>line.
     read_return \<lparr>ou_seq = seq, ou_plugin = plugin, ou_line = line\<rparr>)))"

definition client_script_output :: "'s peer \<Rightarrow> u64 \<Rightarrow> u32 \<Rightarrow> ('s, u64 \<times> output_entry list) call" where
  "client_script_output peer after limit = ask peer OP_SCRIPT_OUTPUT (put_u32 (put_u64 [] after) limit)
     (parse (then_read reader_u64 (\<lambda>nxt. then_read (read_rows read_output_line) (\<lambda>lines.
        read_return (nxt, lines)))))"

end
