(* ===== verification/Pb_Script_Wire.thy ===== *)
theory Pb_Script_Wire
  imports Pb_Client
begin

section \<open>Scripts, recording and symbols on the wire\<close>

text \<open>
  The handlers of \<open>query_server.rs\<close> whose work is done outside the agent's state: the script host, the
  recorder, the engine switches and the symbol resolver are functions on \<open>'m\<close>, the fields of
  \<open>externals\<close>. Also the script inventory of \<open>client.rs\<close>, which reads the reply of \<open>SCRIPT_LIST\<close> back.
\<close>

subsection \<open>The script inventory\<close>

record breakpoint_binding =
  bb_id :: u32
  bb_plugin :: bytes
  bb_callback :: bytes
  bb_description :: bytes
  bb_once :: bool
  bb_thread_id :: "u32 option"
  bb_last_stop_generation :: u64
  bb_last_action :: "bytes option"
  bb_last_return :: "bytes option"
  bb_last_error :: "bytes option"

record decision_binding =
  db_id :: u64
  db_plugin :: bytes
  db_selector :: bytes
  db_callback :: bytes
  db_description :: bytes
  db_once :: bool
  db_address :: "u64 option"
  db_thread_id :: "u32 option"
  db_codes :: "u32 list option"
  db_last_generation :: u64
  db_last_return :: "bytes option"
  db_last_error :: "bytes option"

record script_entry =
  sn_name :: bytes
  sn_state :: u8
  sn_delivered :: u64
  sn_dropped :: u64

text \<open>\<open>PluginInfo\<close>: one script with its bindings, whose plugin name is the script's.\<close>

record plugin_info =
  pl_entry :: script_entry
  pl_breakpoints :: "breakpoint_binding list"
  pl_decisions :: "decision_binding list"

definition short_wire_text :: "bytes \<Rightarrow> bytes" where
  "short_wire_text s =
     (if length s \<le> 65535 then s
      else case List.find (is_char_boundary s) (rev [0..<65536]) of None \<Rightarrow> [] | Some fin \<Rightarrow> take fin s)"

definition put_thread :: "u32 option \<Rightarrow> bytes" where
  "put_thread tid = le_u32 (case tid of None \<Rightarrow> - 1 | Some t \<Rightarrow> t)"

definition put_text :: "bytes option \<Rightarrow> bytes" where
  "put_text t = put_short (short_wire_text (case t of None \<Rightarrow> [] | Some s \<Rightarrow> s))"

definition put_script :: "script_entry \<Rightarrow> bytes" where
  "put_script e = put_short (sn_name e) @ [sn_state e] @ le_u64 (sn_delivered e) @ le_u64 (sn_dropped e)"

definition put_binding :: "breakpoint_binding \<Rightarrow> bytes" where
  "put_binding b =
     le_u32 (bb_id b) @ put_short (bb_plugin b) @ put_short (short_wire_text (bb_callback b))
       @ put_short (short_wire_text (bb_description b)) @ [of_bool (bb_once b)] @ put_thread (bb_thread_id b)
       @ le_u64 (bb_last_stop_generation b) @ put_text (bb_last_action b) @ put_text (bb_last_return b)
       @ put_text (bb_last_error b)"

definition put_codes :: "u32 list option \<Rightarrow> bytes" where
  "put_codes codes = (case codes of None \<Rightarrow> [0] | Some cs \<Rightarrow> [1] @ put_rows le_u32 cs)"

definition put_decision :: "decision_binding \<Rightarrow> bytes" where
  "put_decision b =
     le_u64 (db_id b) @ put_short (db_plugin b) @ put_short (short_wire_text (db_selector b))
       @ put_short (short_wire_text (db_callback b)) @ [of_bool (db_once b)] @ put_thread (db_thread_id b)
       @ put_codes (db_codes b) @ le_u64 (db_last_generation b) @ put_text (db_last_return b)
       @ put_text (db_last_error b)"

definition put_metadata :: "u64 \<times> u64 \<times> bytes \<Rightarrow> bytes" where
  "put_metadata row = (case row of (ident, address, description) \<Rightarrow>
     le_u64 ident @ le_u64 address @ put_short description)"

definition decision_metadata :: "decision_binding \<Rightarrow> u64 \<times> u64 \<times> bytes" where
  "decision_metadata b =
     (db_id b, case db_address b of None \<Rightarrow> 0 | Some a \<Rightarrow> a, short_wire_text (db_description b))"

definition handle_script_list :: "plugin_info list \<Rightarrow> bytes" where
  "handle_script_list plugins =
     (let own = (\<lambda>p. map (\<lambda>b. b\<lparr>bb_plugin := sn_name (pl_entry p)\<rparr>) (pl_breakpoints p));
          own_decisions = (\<lambda>p. map (\<lambda>b. b\<lparr>db_plugin := sn_name (pl_entry p)\<rparr>) (pl_decisions p));
          bindings = concat (map own plugins);
          decisions = concat (map own_decisions plugins)
      in put_rows put_script (map pl_entry plugins) @ put_rows put_binding bindings
           @ put_rows put_decision decisions @ put_rows put_metadata (map decision_metadata decisions))"

subsection \<open>Reading it back (\<open>Client::script_inventory\<close>)\<close>

definition read_script :: "script_entry parser" where
  "read_script = then_read read_short (\<lambda>name. then_read reader_u8 (\<lambda>state. then_read reader_u64 (\<lambda>delivered.
     then_read reader_u64 (\<lambda>dropped.
       read_return \<lparr>sn_name = name, sn_state = state, sn_delivered = delivered, sn_dropped = dropped\<rparr>))))"

definition thread_of :: "u32 \<Rightarrow> u32 option" where "thread_of w = (if w = - 1 then None else Some w)"

definition text_of :: "bytes \<Rightarrow> bytes option" where "text_of s = (if s = [] then None else Some s)"

definition read_binding :: "breakpoint_binding parser" where
  "read_binding = then_read reader_u32 (\<lambda>ident. then_read read_short (\<lambda>plugin. then_read read_short (\<lambda>callback.
     then_read read_short (\<lambda>description. then_read reader_u8 (\<lambda>once. then_read reader_u32 (\<lambda>thread_id.
       then_read reader_u64 (\<lambda>generation. then_read read_short (\<lambda>action. then_read read_short (\<lambda>returned.
         then_read read_short (\<lambda>error.
           read_return \<lparr>bb_id = ident, bb_plugin = plugin, bb_callback = callback, bb_description = description,
             bb_once = (once \<noteq> 0), bb_thread_id = thread_of thread_id, bb_last_stop_generation = generation,
             bb_last_action = text_of action, bb_last_return = text_of returned,
             bb_last_error = text_of error\<rparr>))))))))))"

definition read_codes :: "u32 list option parser" where
  "read_codes = then_read reader_u8 (\<lambda>tag.
     if tag = 0 then read_return None
     else if tag = 1 then then_read (read_rows reader_u32) (\<lambda>codes. read_return (Some codes))
     else read_fail)"

definition read_decision :: "decision_binding parser" where
  "read_decision = then_read reader_u64 (\<lambda>ident. then_read read_short (\<lambda>plugin. then_read read_short (\<lambda>selector.
     then_read read_short (\<lambda>callback. then_read reader_u8 (\<lambda>once. then_read reader_u32 (\<lambda>thread_id.
       then_read read_codes (\<lambda>codes. then_read reader_u64 (\<lambda>generation. then_read read_short (\<lambda>returned.
         then_read read_short (\<lambda>error.
           read_return \<lparr>db_id = ident, db_plugin = plugin, db_selector = selector, db_callback = callback,
             db_description = [], db_once = (once \<noteq> 0), db_address = None, db_thread_id = thread_of thread_id,
             db_codes = codes, db_last_generation = generation, db_last_return = text_of returned,
             db_last_error = text_of error\<rparr>))))))))))"

definition read_metadata :: "(u64 \<times> u64 \<times> bytes) parser" where
  "read_metadata = then_read reader_u64 (\<lambda>ident. then_read reader_u64 (\<lambda>address. then_read read_short (\<lambda>description.
     read_return (ident, address, description))))"

text \<open>The tails are additive: a reply that ends before one has no rows in it.\<close>

definition read_tail :: "'a parser \<Rightarrow> 'a list parser" where
  "read_tail p = then_read read_remaining (\<lambda>rest. if rest = [] then read_return [] else read_rows p)"

text \<open>\<open>decisions.iter_mut().find(..)\<close>: the first binding of the id takes the metadata.\<close>

fun attach_metadata :: "u64 \<times> u64 \<times> bytes \<Rightarrow> decision_binding list \<Rightarrow> decision_binding list" where
  "attach_metadata row [] = []"
| "attach_metadata row (b # bs) =
     (case row of (ident, address, description) \<Rightarrow>
        if db_id b = ident
        then b\<lparr>db_address := (if address \<noteq> 0 then Some address else None), db_description := description\<rparr> # bs
        else b # attach_metadata row bs)"

definition read_inventory ::
  "(script_entry list \<times> breakpoint_binding list \<times> decision_binding list) parser" where
  "read_inventory = then_read (read_rows read_script) (\<lambda>scripts. then_read (read_tail read_binding) (\<lambda>bindings.
     then_read (read_tail read_decision) (\<lambda>decisions. then_read (read_tail read_metadata) (\<lambda>rows.
       read_return (scripts, bindings, fold attach_metadata rows decisions)))))"

definition script_inventory ::
  "'s peer \<Rightarrow> ('s, script_entry list \<times> breakpoint_binding list \<times> decision_binding list) call" where
  "script_inventory peer = ask peer OP_SCRIPT_LIST [] (parse read_inventory)"

definition script_list :: "'s peer \<Rightarrow> ('s, script_entry list) call" where
  "script_list peer s =
     (case script_inventory peer s of (Inl e, s) \<Rightarrow> (Inl e, s) | (Inr (scripts, _), s) \<Rightarrow> (Inr scripts, s))"

text \<open>The reply of the single-script server, before its flag bytes.\<close>

record script_status =
  ss_loaded :: bool
  ss_state :: u8
  ss_delivered :: u64
  ss_dropped :: u64
  ss_name :: bytes

definition script_status_call :: "'s peer \<Rightarrow> ('s, script_status) call" where
  "script_status_call peer = ask peer OP_SCRIPT_LIST []
     (\<lambda>body. if length body < 20 then None
             else parse (then_read reader_u64 (\<lambda>delivered. then_read reader_u64 (\<lambda>dropped. then_read read_short (\<lambda>name.
               read_return \<lparr>ss_loaded = (body ! 0 \<noteq> 0), ss_state = body ! 1, ss_delivered = delivered,
                 ss_dropped = dropped, ss_name = name\<rparr>)))) (drop 2 body))"

subsection \<open>Handlers over the outside\<close>

text \<open>
  A record of what the server calls outside the agent. \<open>record::start\<close> is \<open>start_spec\<close> of the one range;
  \<open>Inl\<close> is the reason a call refuses.
\<close>

record 'm externals =
  xt_os :: "'m os_calls"
  xt_scan :: "'m \<Rightarrow> u64 \<Rightarrow> u64 \<Rightarrow> u32 \<Rightarrow> u8 + scan_result"
  xt_engine :: "u32 \<Rightarrow> bool \<Rightarrow> 'm \<Rightarrow> bool \<times> 'm"
  xt_start_spec :: "u32 \<Rightarrow> (u64 \<times> u64) list \<Rightarrow> u32 list \<Rightarrow> bytes \<Rightarrow> 'm \<Rightarrow> (bytes + unit) \<times> 'm"
  xt_extend :: "(u64 \<times> u64) list \<Rightarrow> 'm \<Rightarrow> (bytes + unit) \<times> 'm"
  xt_trace_stop :: "'m \<Rightarrow> (u64 \<times> u64) \<times> 'm"
  xt_trace_status :: "'m \<Rightarrow> bool \<times> u64 \<times> u64 \<times> u8"
  xt_load :: "bytes \<Rightarrow> bytes \<Rightarrow> 'm \<Rightarrow> (bytes + u32) \<times> 'm"
  xt_unload :: "bytes \<Rightarrow> 'm \<Rightarrow> (bytes + unit) \<times> 'm"
  xt_plugins :: "'m \<Rightarrow> plugin_info list option"
  xt_resolve_name :: "bytes \<Rightarrow> 'm \<Rightarrow> u64 option \<times> 'm"
  xt_other :: "u8 \<Rightarrow> bytes \<Rightarrow> 'm \<Rightarrow> reply \<times> 'm"

text \<open>A parse that fails, and a refusal, carry a text.\<close>

definition text_bytes :: "string \<Rightarrow> bytes" where "text_bytes s = map of_char s"

definition with_request ::
  "'a parser \<Rightarrow> string \<Rightarrow> bytes \<Rightarrow> ('a \<Rightarrow> 'm \<Rightarrow> (u8 \<times> bytes) \<times> 'm) \<Rightarrow> 'm \<Rightarrow> (u8 \<times> bytes) \<times> 'm" where
  "with_request p bad payload f m =
     (case parse p payload of None \<Rightarrow> ((STATUS_BAD_REQUEST, text_bytes bad), m) | Some x \<Rightarrow> f x m)"

definition outcome :: "('a \<Rightarrow> bytes) \<Rightarrow> (bytes + 'a) \<times> 'm \<Rightarrow> (u8 \<times> bytes) \<times> 'm" where
  "outcome body r =
     (case r of (Inl message, m) \<Rightarrow> ((STATUS_INTERNAL, message), m) | (Inr x, m) \<Rightarrow> ((STATUS_OK, body x), m))"

definition handle_engine_set :: "'m externals \<Rightarrow> bytes \<Rightarrow> 'm \<Rightarrow> reply \<times> 'm" where
  "handle_engine_set x payload m =
     (case parse (then_read reader_u32 (\<lambda>kind. then_read reader_u8 (\<lambda>on. read_return (kind, on \<noteq> 0)))) payload of
        None \<Rightarrow> (Inl STATUS_BAD_REQUEST, m)
      | Some (kind, on) \<Rightarrow>
          (case xt_engine x kind on m of (ok, m) \<Rightarrow> (if ok then Inr [] else Inl STATUS_BAD_REQUEST, m)))"

definition handle_trace_start :: "'m externals \<Rightarrow> bytes \<Rightarrow> 'm \<Rightarrow> (u8 \<times> bytes) \<times> 'm" where
  "handle_trace_start x payload = with_request
     (then_read reader_u32 (\<lambda>kinds. then_read read_range (\<lambda>bounds. then_read read_short (\<lambda>path.
        read_return (kinds, bounds, path))))) ''bad trace_start payload'' payload
     (\<lambda>(kinds, bounds, path) m. outcome (\<lambda>_. put_u32 [] 1) (xt_start_spec x kinds [bounds] [] path m))"

text \<open>A count in two bytes that must satisfy \<open>ok\<close>, then that many rows.\<close>

definition read_count16 :: "(nat \<Rightarrow> bool) \<Rightarrow> 'a parser \<Rightarrow> 'a list parser" where
  "read_count16 ok p = then_read reader_u16 (\<lambda>n. if ok (unat n) then repeat_read (unat n) p else read_fail)"

definition handle_trace_start_spec :: "'m externals \<Rightarrow> bytes \<Rightarrow> 'm \<Rightarrow> (u8 \<times> bytes) \<times> 'm" where
  "handle_trace_start_spec x payload = with_request
     (then_read reader_u32 (\<lambda>kinds. then_read (read_count16 (\<lambda>n. n \<noteq> 0 \<and> n \<le> 16) read_range) (\<lambda>ranges.
        then_read (read_count16 (\<lambda>n. n \<le> 64) reader_u32) (\<lambda>threads. then_read read_short (\<lambda>path.
          read_return (kinds, ranges, threads, path)))))) ''bad trace_start_spec payload'' payload
     (\<lambda>(kinds, ranges, threads, path) m.
        outcome (\<lambda>_. put_u32 [] 1) (xt_start_spec x kinds ranges threads path m))"

definition handle_trace_extend :: "'m externals \<Rightarrow> bytes \<Rightarrow> 'm \<Rightarrow> (u8 \<times> bytes) \<times> 'm" where
  "handle_trace_extend x payload = with_request (read_count16 (\<lambda>n. n \<noteq> 0 \<and> n \<le> 16) read_range)
     ''bad trace_extend payload'' payload (\<lambda>ranges m. outcome (\<lambda>_. []) (xt_extend x ranges m))"

definition handle_trace_stop :: "'m externals \<Rightarrow> 'm \<Rightarrow> bytes \<times> 'm" where
  "handle_trace_stop x m = (case xt_trace_stop x m of (counts, m) \<Rightarrow> (put_range counts, m))"

definition handle_trace_status :: "'m externals \<Rightarrow> 'm \<Rightarrow> bytes" where
  "handle_trace_status x m =
     (case xt_trace_status x m of (active, recorded, dropped, state) \<Rightarrow>
        [of_bool active] @ le_u64 recorded @ le_u64 dropped @ [state])"

definition handle_script_load :: "'m externals \<Rightarrow> bytes \<Rightarrow> 'm \<Rightarrow> (u8 \<times> bytes) \<times> 'm" where
  "handle_script_load x payload = with_request
     (then_read read_short (\<lambda>name. then_read read_name (\<lambda>source. read_return (name, source))))
     ''bad script_load payload'' payload
     (\<lambda>(name, source) m. outcome (put_u32 []) (xt_load x name source m))"

definition handle_script_unload :: "'m externals \<Rightarrow> bytes \<Rightarrow> 'm \<Rightarrow> (u8 \<times> bytes) \<times> 'm" where
  "handle_script_unload x payload = with_request read_short ''bad script_unload payload'' payload
     (\<lambda>name m. outcome (\<lambda>_. []) (xt_unload x name m))"

definition handle_resolve_name :: "'m externals \<Rightarrow> bytes \<Rightarrow> 'm \<Rightarrow> reply \<times> 'm" where
  "handle_resolve_name x payload m =
     (case parse read_short payload of
        None \<Rightarrow> (Inl STATUS_BAD_REQUEST, m)
      | Some spec \<Rightarrow>
          (case xt_resolve_name x spec m of
             (address, m) \<Rightarrow> (Inr (put_u64 [] (case address of None \<Rightarrow> 0 | Some a \<Rightarrow> a)), m)))"

end
