(* ===== verification/Pb_Serve.thy ===== *)
theory Pb_Serve
  imports Pb_Script_Wire
begin

section \<open>Serving requests (query_server.rs)\<close>

text \<open>
  The step request, the dispatch of one operation and the loop of one connection. The process \<open>'m\<close> stands
  for target memory and threads and whatever else is outside the agent's state, read and changed through
  the fields of \<open>externals\<close> alone; \<open>xt_other\<close> answers the disassembler and the symbol tables.
\<close>

subsection \<open>STEP\<close>

text \<open>What \<open>pb_disassemble_flow\<close> fills in (\<open>PbFlowInsn\<close>).\<close>

record flow =
  fl_size :: u32
  fl_kind :: u32
  fl_conditional :: bool
  fl_has_target :: bool
  fl_target :: u64
  fl_ind_reg :: bool
  fl_ind_mem :: bool
  fl_base_reg :: u32
  fl_index_reg :: u32
  fl_scale :: u64
  fl_disp :: u64

text \<open>A register number is an \<open>i32\<close> of which the negative ones name none.\<close>

definition read_step_reg :: "(u32 \<Rightarrow> u64 option) \<Rightarrow> u32 \<Rightarrow> u64 option" where
  "read_step_reg regs reg = (if sint reg < 0 then None else regs reg)"

definition read_mem_ptr :: "'m os_calls \<Rightarrow> 'm \<Rightarrow> u32 \<Rightarrow> u64 \<Rightarrow> u64 option" where
  "read_mem_ptr os m width address =
     (let copied = os_copy os m address (unat width)
      in if length copied = unat width then Some (of_le copied) else None)"

definition pointer_wrap :: "u32 \<Rightarrow> u64 \<Rightarrow> u64" where
  "pointer_wrap width address = (if width = 4 then address AND 0xFFFFFFFF else address)"

definition next_ip :: "u32 \<Rightarrow> u64 \<Rightarrow> u32 \<Rightarrow> u64" where
  "next_ip width rip size' = pointer_wrap width (rip + ucast size')"

definition decode_flow :: "(bytes \<Rightarrow> u64 \<Rightarrow> flow option) \<Rightarrow> 'm os_calls \<Rightarrow> 'm \<Rightarrow> u64 \<Rightarrow> flow option" where
  "decode_flow disassemble os m rip =
     (let copied = os_copy os m rip 16
      in if copied = [] then None
         else case disassemble copied rip of
                None \<Rightarrow> None | Some insn \<Rightarrow> if fl_size insn > 0 then Some insn else None)"

text \<open>The address an indirect transfer through memory reads its target from.\<close>

definition indirect_address :: "u32 \<Rightarrow> (u32 \<Rightarrow> u64 option) \<Rightarrow> u64 \<Rightarrow> flow \<Rightarrow> u64 option" where
  "indirect_address width regs fallthrough insn =
     (case (if fl_base_reg insn = instr_ptr_reg width then Some fallthrough
            else read_step_reg regs (fl_base_reg insn)) of
        None \<Rightarrow> None
      | Some base \<Rightarrow>
          let index = (case read_step_reg regs (fl_index_reg insn) of None \<Rightarrow> 0 | Some v \<Rightarrow> v)
          in Some (pointer_wrap width (base + index * fl_scale insn + fl_disp insn)))"

definition step_candidates ::
  "'m os_calls \<Rightarrow> 'm \<Rightarrow> u32 \<Rightarrow> (u32 \<Rightarrow> u64 option) \<Rightarrow> u64 \<Rightarrow> flow \<Rightarrow> u64 list" where
  "step_candidates os m width regs fallthrough insn =
     (let opt = (\<lambda>x. case x of None \<Rightarrow> [] | Some v \<Rightarrow> [v]);
          indirect = (if fl_ind_mem insn
            then opt (Option.bind (indirect_address width regs fallthrough insn) (read_mem_ptr os m width)) else []);
          returned = (if fl_kind insn = 3
            then opt (Option.bind (read_step_reg regs (stack_ptr_reg width)) (read_mem_ptr os m width)) else [])
      in sort_dedup
           ((if fl_kind insn = 0 \<or> fl_conditional insn then [fallthrough] else [])
            @ (if fl_has_target insn then [fl_target insn] else [])
            @ (if fl_ind_reg insn then opt (read_step_reg regs (fl_base_reg insn)) else [])
            @ indirect @ returned))"

text \<open>Arm the watchdog and resume; without the resume the armed step is cancelled where the code does.\<close>

definition step_resume :: "query_env \<Rightarrow> bool \<Rightarrow> agent \<Rightarrow> reply \<times> agent" where
  "step_resume q cancel s =
     (case control_command (qe_in_time q) (qe_world q) CMD_RESUME (arm_step_watchdog 100 (ag_breaker s)) of
        (resumed, b, t) \<Rightarrow>
          let s = after_turn b t s
          in if resumed then (Inr [1], s)
             else if cancel
             then case step_cancel (bp_stepper (ag_breaker s)) of
                    (st, effects) \<Rightarrow>
                      (Inl STATUS_INTERNAL, s\<lparr>ag_breaker := (ag_breaker s)\<lparr>bp_stepper := st\<rparr>,
                         ag_effects := ag_effects s @ effects\<rparr>)
             else (Inl STATUS_INTERNAL, s))"

definition with_stepper :: "stepper \<Rightarrow> pin_effect list \<Rightarrow> agent \<Rightarrow> agent" where
  "with_stepper st effects s =
     s\<lparr>ag_breaker := (ag_breaker s)\<lparr>bp_stepper := st\<rparr>, ag_effects := ag_effects s @ effects\<rparr>"

definition arm_step :: "query_env \<Rightarrow> u32 \<Rightarrow> u64 \<Rightarrow> u64 list \<Rightarrow> agent \<Rightarrow> (u32 + nat) \<times> agent" where
  "arm_step q tid rip candidates s =
     (case arm_candidates (qe_tf_status q) (qe_flush_status q) tid rip candidates (bp_stepper (ag_breaker s)) of
        (result, st, effects) \<Rightarrow> (result, with_stepper st effects s))"

definition step_fallback :: "query_env \<Rightarrow> u32 \<Rightarrow> u64 \<Rightarrow> agent \<Rightarrow> reply \<times> agent" where
  "step_fallback q tid rip s =
     (case step_arm (qe_fallback_status q) tid rip False (bp_stepper (ag_breaker s)) of
        (Inl _, st, effects) \<Rightarrow> (Inl STATUS_INTERNAL, with_stepper st effects s)
      | (Inr _, st, effects) \<Rightarrow> step_resume q False (with_stepper st effects s))"

definition handle_step ::
  "query_env \<Rightarrow> (bytes \<Rightarrow> u64 \<Rightarrow> flow option) \<Rightarrow> 'm os_calls \<Rightarrow> 'm \<Rightarrow> bytes \<Rightarrow> agent \<Rightarrow> reply \<times> agent" where
  "handle_step q disassemble os m payload s =
     with_parsed (then_read reader_u32 (\<lambda>tid. then_read reader_u8 (\<lambda>over. read_return (tid, over \<noteq> 0))))
       payload (\<lambda>(tid, over) s.
         if \<not> bp_stopped (ag_breaker s) then (Inl STATUS_BAD_REQUEST, s)
         else case os_context_reg os m tid of
           None \<Rightarrow> (Inl STATUS_BAD_REQUEST, s)
         | Some regs \<Rightarrow>
             let width = qe_width q
             in case read_step_reg regs (instr_ptr_reg width) of
                  None \<Rightarrow> (Inl STATUS_BAD_REQUEST, s)
                | Some rip \<Rightarrow>
                    (case decode_flow disassemble os m rip of
                       None \<Rightarrow> step_fallback q tid rip s
                     | Some insn \<Rightarrow>
                         let fallthrough = next_ip width rip (fl_size insn)
                         in if over \<and> fl_kind insn = 2
                            then case arm_step q tid rip [fallthrough] s of
                                   (Inl _, s) \<Rightarrow> (Inl STATUS_INTERNAL, s)
                                 | (Inr _, s) \<Rightarrow> step_resume q True s
                            else case arm_step q tid rip (step_candidates os m width regs fallthrough insn) s of
                                   (Inr _, s) \<Rightarrow> step_resume q True s
                                 | (Inl _, s) \<Rightarrow> step_fallback q tid rip s)) s"

subsection \<open>The dispatch\<close>

definition requires_jit :: "u8 \<Rightarrow> bool" where
  "requires_jit op_code \<longleftrightarrow> op_code \<in> set [OP_STOP, OP_RESUME, OP_BP_SET, OP_BP_REMOVE, OP_CONTEXT_GET,
     OP_CONTEXT_SET, OP_ENGINE_SET, OP_EXC_POLICY_SET, OP_STEP, OP_SYSCALL_FILTER, OP_TRACE_START,
     OP_TRACE_START_SPEC, OP_TRACE_EXTEND, OP_HOOK_SET, OP_HOOK_SET_BATCH, OP_HOOK_RANGE, OP_HOOK_REMOVE,
     OP_HOOK_CLEAR, OP_HOOK_RULE_SET, OP_HOOK_RULE_CLEAR]"

definition PROBE_TEXT :: bytes where
  "PROBE_TEXT = map of_char ''operation unavailable in probe mode''"

definition answer :: "reply \<Rightarrow> u8 \<times> bytes" where
  "answer r = (case r of Inl code \<Rightarrow> (code, []) | Inr body \<Rightarrow> (STATUS_OK, body))"

text \<open>The handlers that read or write the agent, and those that read the process.\<close>

type_synonym decoder = "bytes \<Rightarrow> u64 \<Rightarrow> flow option"

definition agent_op :: "query_env \<Rightarrow> decoder \<Rightarrow> 'm externals \<Rightarrow> 'm \<Rightarrow> u8 \<Rightarrow> bytes \<Rightarrow> agent \<Rightarrow> (reply \<times> agent) option" where
  "agent_op q decode x m op_code payload s =
     (if op_code = OP_PING then Some (Inr (handle_ping q s), s)
      else if op_code = OP_COUNTERS then Some (Inr (handle_counters s), s)
      else if op_code = OP_RING_PAGE then Some (handle_ring_page q payload s)
      else if op_code = OP_HOOK_EVENTS_NEWEST then Some (handle_hook_events_newest q payload s)
      else if op_code = OP_SYSCALL_EVENTS_NEWEST then Some (handle_syscall_events_newest q payload s)
      else if op_code = OP_PRIORITY_NEWEST then Some (handle_priority_newest q payload s)
      else if op_code = OP_STOP then Some (map_prod Inr id (handle_stop q s))
      else if op_code = OP_RESUME then Some (map_prod Inr id (handle_resume q s))
      else if op_code = OP_READ_MEM then Some (handle_read_mem (xt_os x) m payload, s)
      else if op_code = OP_MEMORY_REGION then Some (handle_memory_region (xt_os x) m payload, s)
      else if op_code = OP_MEMORY_MAP then Some (Inr (handle_memory_map (xt_os x) m), s)
      else if op_code = OP_MODULES then Some (Inr (handle_modules (xt_os x) m), s)
      else if op_code = OP_BP_SET then Some (handle_bp_set q payload s)
      else if op_code = OP_BP_LIST then Some (Inr (handle_bp_list q s), s)
      else if op_code = OP_BP_REMOVE then Some (handle_bp_remove q payload s)
      else if op_code = OP_THREADS then Some (Inr (handle_threads (xt_os x) m), s)
      else if op_code = OP_CONTEXT_GET then Some (handle_context_get (xt_os x) (qe_width q) m payload, s)
      else if op_code = OP_EXC_POLICY_SET then Some (handle_exc_policy_set payload s)
      else if op_code = OP_EXC_POLICY_GET then Some (Inr (handle_exc_policy_get s), s)
      else if op_code = OP_STEP then Some (handle_step q decode (xt_os x) m payload s)
      else if op_code = OP_SYSCALL_FILTER then Some (handle_syscall_filter payload s)
      else if op_code = OP_HOOK_SET then Some (handle_hook_set payload s)
      else if op_code = OP_HOOK_SET_BATCH then Some (handle_hook_set_batch payload s)
      else if op_code = OP_HOOK_RANGE then Some (handle_hook_range (xt_scan x m) payload s)
      else if op_code = OP_HOOK_REMOVE then Some (handle_hook_remove payload s)
      else if op_code = OP_HOOK_CLEAR then Some (Inr [], handle_hook_clear s)
      else if op_code = OP_HOOK_LIST then Some (Inr (handle_hook_list s), s)
      else if op_code = OP_HOOK_FUNCTION_LIST then Some (Inr (handle_hook_function_list s), s)
      else if op_code = OP_HOOK_SIGNATURE_SET then Some (handle_hook_signature_set payload s)
      else if op_code = OP_HOOK_SIGNATURE_REMOVE then Some (handle_hook_signature_remove payload s)
      else if op_code = OP_HOOK_RULE_SET then Some (handle_hook_rule_set q payload s)
      else if op_code = OP_HOOK_RULE_CLEAR then Some (Inr [], handle_hook_rule_clear s)
      else if op_code = OP_SCRIPT_OUTPUT then Some (handle_script_output payload s)
      else None)"

text \<open>The handlers that work outside the agent.\<close>

definition outside_op :: "'m externals \<Rightarrow> bool \<Rightarrow> u8 \<Rightarrow> bytes \<Rightarrow> 'm \<Rightarrow> ((u8 \<times> bytes) \<times> 'm) option" where
  "outside_op x is_stopped op_code payload m =
     (let plain = map_prod answer id
      in if op_code = OP_WRITE_MEM then Some (plain (handle_write_mem (xt_os x) is_stopped m payload))
         else if op_code = OP_CONTEXT_SET then Some (plain (handle_context_set (xt_os x) m payload))
         else if op_code = OP_ENGINE_SET then Some (plain (handle_engine_set x payload m))
         else if op_code \<in> set [OP_DISASM, OP_RESOLVE, OP_EXPORTS] then Some (plain (xt_other x op_code payload m))
         else if op_code = OP_RESOLVE_NAME then Some (plain (handle_resolve_name x payload m))
         else if op_code = OP_TRACE_START then Some (handle_trace_start x payload m)
         else if op_code = OP_TRACE_START_SPEC then Some (handle_trace_start_spec x payload m)
         else if op_code = OP_TRACE_EXTEND then Some (handle_trace_extend x payload m)
         else if op_code = OP_TRACE_STOP then Some (map_prod (Pair STATUS_OK) id (handle_trace_stop x m))
         else if op_code = OP_TRACE_STATUS then Some ((STATUS_OK, handle_trace_status x m), m)
         else if op_code = OP_SCRIPT_LOAD then Some (handle_script_load x payload m)
         else if op_code = OP_SCRIPT_UNLOAD then Some (handle_script_unload x payload m)
         else if op_code = OP_SCRIPT_LIST
         then Some ((STATUS_OK, handle_script_list (case xt_plugins x m of None \<Rightarrow> [] | Some ps \<Rightarrow> ps)), m)
         else None)"

definition dispatch ::
  "query_env \<Rightarrow> decoder \<Rightarrow> 'm externals \<Rightarrow> u8 \<Rightarrow> bytes \<Rightarrow> agent \<times> 'm \<Rightarrow> (u8 \<times> bytes) \<times> agent \<times> 'm" where
  "dispatch q decode x op_code payload st =
     (case st of (s, m) \<Rightarrow>
        if qe_probe_mode q \<and> requires_jit op_code then ((STATUS_BAD_REQUEST, PROBE_TEXT), s, m)
        else case outside_op x (bp_stopped (ag_breaker s)) op_code payload m of
               Some (r, m) \<Rightarrow> (r, s, m)
             | None \<Rightarrow>
                 (case agent_op q decode x m op_code payload s of
                    None \<Rightarrow> ((STATUS_BAD_REQUEST, []), s, m)
                  | Some (r, s) \<Rightarrow> (answer r, s, m)))"

subsection \<open>A connection\<close>

text \<open>
  \<open>serve_client\<close> answers the frames of one connection in turn; \<open>qs\<close> gives the environment of each
  request. It ends at the first frame that cannot be read and at the first reply that cannot be written.
\<close>

function serve_client ::
  "(nat \<Rightarrow> query_env) \<Rightarrow> decoder \<Rightarrow> 'm externals \<Rightarrow> nat \<Rightarrow> bytes \<Rightarrow> agent \<times> 'm \<Rightarrow> bytes \<times> agent \<times> 'm" where
  "serve_client qs decode x served stream st =
     (case read_frame stream of
        Inl _ \<Rightarrow> ([], st)
      | Inr ((op_code, _, payload), rest) \<Rightarrow>
          (case dispatch (qs served) decode x op_code payload st of
             ((status, body), st) \<Rightarrow>
               (case write_frame [] op_code status body of
                  Inl _ \<Rightarrow> ([], st)
                | Inr out \<Rightarrow>
                    (case serve_client qs decode x (Suc served) rest st of (later, st) \<Rightarrow> (out @ later, st)))))"
  by pat_completeness auto
termination
  by (relation "measure (\<lambda>(_, _, _, _, stream, _). length stream)") (auto dest: read_frame_shorter)

declare serve_client.simps [simp del]

end
