(* ===== verification/Pb_Served.thy ===== *)
theory Pb_Served
  imports Pb_Serve
begin

section \<open>A client and the agent it talks to\<close>

text \<open>
  The client library of \<open>client.rs\<close> over the server of \<open>query_server.rs\<close>: the peer of a request is the
  server's loop on the bytes of one request. \<open>request_served\<close> reduces a request to one \<open>dispatch\<close>; the
  lemmas after it say what each operation of the client does to the agent's components.
\<close>

definition agent_peer :: "query_env \<Rightarrow> decoder \<Rightarrow> 'm externals \<Rightarrow> (agent \<times> 'm) peer" where
  "agent_peer q decode x = serve_client (\<lambda>_. q) decode x 0"

definition FRAME_ROOM :: nat where "FRAME_ROOM = 1048574"

lemma read_frame_nil: "read_frame [] = Inl UnexpectedEof"
  by (simp add: read_frame_def read_exact_def HEADER_LEN_def)

lemma serve_nil: "serve_client qs decode x n [] st = ([], st)"
  by (simp add: serve_client.simps [of qs decode x n "[]"] read_frame_nil)

lemma serve_one:
  assumes "length payload + 2 \<le> 1048576"
  shows "serve_client qs decode x n (le_u32 (frame_len payload) @ [op_code, st'] @ payload) st =
    (case dispatch (qs n) decode x op_code payload st of ((status, body), st) \<Rightarrow>
       (case write_frame [] op_code status body of Inl _ \<Rightarrow> ([], st) | Inr out \<Rightarrow> (out, st)))"
  using read_frame_write [OF assms, of op_code st' "[]"]
  by (subst serve_client.simps) (simp add: serve_nil split: prod.splits sum.splits)

lemma write_frame_long: "\<not> length payload + 2 \<le> 1048576 \<Longrightarrow> length payload < 2 ^ 31 \<Longrightarrow> write_frame s c st payload = Inl InvalidInput"
proof -
  assume long: "\<not> length payload + 2 \<le> 1048576" "length payload < 2 ^ 31"
  then have "unat (frame_len payload) = length payload + 2"
    unfolding frame_len_def by (subst unat_of_nat) simp
  then show ?thesis using long by (simp add: write_frame_def word_less_nat_alt Let_def)
qed

text \<open>
  What a request gives, and the state after it: a request or a reply that does not fit a frame is not
  sent, and without a reply the client sees the end of the stream. (Lengths below \<open>2 ^ 31\<close>: the frame
  writer counts in \<open>u32\<close>.)
\<close>

theorem request_served:
  assumes "length payload < 2 ^ 31" and "\<And>r st'. dispatch q decode x op_code payload st = (r, st') \<Longrightarrow> length (snd r) < 2 ^ 31"
  shows "request (agent_peer q decode x) op_code payload st =
    (if length payload > FRAME_ROOM then (Inl (Io InvalidInput), st)
     else case dispatch q decode x op_code payload st of
            ((status, body), st) \<Rightarrow>
              (if length body > FRAME_ROOM then Inl (Io UnexpectedEof)
               else if status \<noteq> STATUS_OK then Inl (Server status (utf8_lossy body))
               else Inr body, st))"
proof (cases "length payload > FRAME_ROOM")
  case True
  then show ?thesis using assms(1) by (simp add: request_def write_frame_long FRAME_ROOM_def)
next
  case False
  then have fits: "length payload + 2 \<le> 1048576" by (simp add: FRAME_ROOM_def)
  obtain status body st' where d: "dispatch q decode x op_code payload st = ((status, body), st')"
    by (metis prod.exhaust)
  have short: "length body < 2 ^ 31" using assms(2) [OF d] by simp
  show ?thesis
  proof (cases "length body > FRAME_ROOM")
    case True
    then have "write_frame [] op_code status body = Inl InvalidInput"
      using short by (simp add: write_frame_long FRAME_ROOM_def)
    then show ?thesis using False True serve_one [OF fits, of "\<lambda>_. q" decode x 0 op_code STATUS_OK st]
      by (simp add: request_def write_frame_fits [OF fits] agent_peer_def d read_frame_nil)
  next
    case small: False
    then have fits': "length body + 2 \<le> 1048576" by (simp add: FRAME_ROOM_def)
    show ?thesis using False small serve_one [OF fits, of "\<lambda>_. q" decode x 0 op_code STATUS_OK st]
        read_frame_write [OF fits', of op_code status "[]"]
      by (simp add: request_def write_frame_fits [OF fits] write_frame_fits [OF fits'] agent_peer_def d)
  qed
qed


subsection \<open>Requests that fit\<close>

lemmas status_defs = STATUS_OK_def STATUS_BAD_REQUEST_def STATUS_INTERNAL_def

text \<open>Replies are short: each handler below bounds its own.\<close>

lemma ask_dispatch:
  assumes "length payload \<le> FRAME_ROOM" "dispatch q decode x op_code payload st = ((status, body), st')"
    and "length body \<le> FRAME_ROOM"
  shows "ask (agent_peer q decode x) op_code payload dec st =
    (if status \<noteq> STATUS_OK then Inl (Server status (utf8_lossy body))
     else case dec body of None \<Rightarrow> Inl (Io InvalidData) | Some y \<Rightarrow> Inr y, st')"
proof -
  have "request (agent_peer q decode x) op_code payload st =
      (if status \<noteq> STATUS_OK then Inl (Server status (utf8_lossy body)) else Inr body, st')"
    using assms by (subst request_served) (auto simp: FRAME_ROOM_def)
  then show ?thesis by (simp add: ask_def split: option.split)
qed

lemma ask_ok:
  assumes "dispatch q decode x op_code payload st = ((STATUS_OK, body), st')" "dec body = Some y"
    and "length payload \<le> FRAME_ROOM" "length body \<le> FRAME_ROOM"
  shows "ask (agent_peer q decode x) op_code payload dec st = (Inr y, st')"
  using ask_dispatch [OF assms(3) assms(1) assms(4), of dec] assms(2) by simp

lemma ask_refused:
  assumes "dispatch q decode x op_code payload st = ((status, body), st')" "status \<noteq> STATUS_OK"
    and "length payload \<le> FRAME_ROOM" "length body \<le> FRAME_ROOM"
  shows "ask (agent_peer q decode x) op_code payload dec st = (Inl (Server status (utf8_lossy body)), st')"
  using ask_dispatch [OF assms(3) assms(1) assms(4), of dec] assms(2) by simp

lemma lossy_nil [simp]: "utf8_lossy [] = []"
  by (simp add: utf8_lossy_def)

text \<open>The dispatch of each operation outside probe mode, from the code's table.\<close>

named_theorems pb_dispatch

lemma dispatch_agent:
  "outside_op x (bp_stopped (ag_breaker s)) op_code payload m = None \<Longrightarrow> \<not> (qe_probe_mode q \<and> requires_jit op_code) \<Longrightarrow>
   agent_op q decode x m op_code payload s = Some (r, s') \<Longrightarrow>
   dispatch q decode x op_code payload (s, m) = (answer r, s', m)"
  by (auto simp: dispatch_def)

lemmas table_defs = outside_op_def agent_op_def op_defs

lemma dispatch_bp_set [pb_dispatch]:
  "\<not> qe_probe_mode q \<Longrightarrow> dispatch q decode x OP_BP_SET payload (s, m) =
     (case handle_bp_set q payload s of (r, s) \<Rightarrow> (answer r, s, m))"
  by (cases "handle_bp_set q payload s") (auto intro!: dispatch_agent simp: table_defs)

lemma dispatch_bp_remove [pb_dispatch]:
  "\<not> qe_probe_mode q \<Longrightarrow> dispatch q decode x OP_BP_REMOVE payload (s, m) =
     (case handle_bp_remove q payload s of (r, s) \<Rightarrow> (answer r, s, m))"
  by (cases "handle_bp_remove q payload s") (auto intro!: dispatch_agent simp: table_defs)

lemma dispatch_bp_list [pb_dispatch]:
  "dispatch q decode x OP_BP_LIST payload (s, m) = ((STATUS_OK, handle_bp_list q s), s, m)"
  by (subst dispatch_agent [where r = "Inr (handle_bp_list q s)" and s' = s])
    (simp_all add: table_defs requires_jit_def answer_def)

lemma dispatch_ring_page [pb_dispatch]:
  "dispatch q decode x OP_RING_PAGE payload (s, m) =
     (case handle_ring_page q payload s of (r, s) \<Rightarrow> (answer r, s, m))"
  by (cases "handle_ring_page q payload s") (auto intro!: dispatch_agent simp: table_defs requires_jit_def)

lemma dispatch_hook_window [pb_dispatch]:
  "dispatch q decode x OP_HOOK_EVENTS_NEWEST payload (s, m) =
     (case handle_hook_events_newest q payload s of (r, s) \<Rightarrow> (answer r, s, m))"
  "dispatch q decode x OP_SYSCALL_EVENTS_NEWEST payload (s, m) =
     (case handle_syscall_events_newest q payload s of (r, s) \<Rightarrow> (answer r, s, m))"
  by (cases "handle_hook_events_newest q payload s"; cases "handle_syscall_events_newest q payload s";
      auto intro!: dispatch_agent simp: table_defs requires_jit_def)+

lemma dispatch_hook_batch [pb_dispatch]:
  "\<not> qe_probe_mode q \<Longrightarrow> dispatch q decode x OP_HOOK_SET_BATCH payload (s, m) =
     (case handle_hook_set_batch payload s of (r, s) \<Rightarrow> (answer r, s, m))"
  by (cases "handle_hook_set_batch payload s") (auto intro!: dispatch_agent simp: table_defs)

lemma dispatch_signature_set [pb_dispatch]:
  "dispatch q decode x OP_HOOK_SIGNATURE_SET payload (s, m) =
     (case handle_hook_signature_set payload s of (r, s) \<Rightarrow> (answer r, s, m))"
  by (cases "handle_hook_signature_set payload s") (auto intro!: dispatch_agent simp: table_defs requires_jit_def)

lemma dispatch_syscall_filter [pb_dispatch]:
  "\<not> qe_probe_mode q \<Longrightarrow> dispatch q decode x OP_SYSCALL_FILTER payload (s, m) =
     (case handle_syscall_filter payload s of (r, s) \<Rightarrow> (answer r, s, m))"
  by (cases "handle_syscall_filter payload s") (auto intro!: dispatch_agent simp: table_defs)

subsection \<open>Reading a payload field by field\<close>

text \<open>What is left to show after a field is about the rest of the chain. A field may end the payload.\<close>

named_theorems pb_steps

lemma reads_end: "reads p bs x \<Longrightarrow> reads (f x) [] y \<Longrightarrow> reads (then_read p f) bs y"
  using reads_then [of p bs x f "[]" y] by simp

lemma reads_u8_step [pb_steps]: "reads (f b) cs y \<Longrightarrow> reads (then_read reader_u8 f) (b # cs) y"
  using reads_then [OF reads_u8] by fastforce

lemma reads_u16_step [pb_steps]: "reads (f v) cs y \<Longrightarrow> reads (then_read reader_u16 f) (le_u16 v @ cs) y"
  by (rule reads_then [OF reads_u16])

lemma reads_u32_step [pb_steps]: "reads (f v) cs y \<Longrightarrow> reads (then_read reader_u32 f) (le_u32 v @ cs) y"
  by (rule reads_then [OF reads_u32])

lemma reads_u64_step [pb_steps]: "reads (f v) cs y \<Longrightarrow> reads (then_read reader_u64 f) (le_u64 v @ cs) y"
  by (rule reads_then [OF reads_u64])

lemma reads_u32_end [pb_steps]: "reads (f v) [] y \<Longrightarrow> reads (then_read reader_u32 f) (le_u32 v) y"
  by (rule reads_end [OF reads_u32])

lemma reads_u64_end [pb_steps]: "reads (f v) [] y \<Longrightarrow> reads (then_read reader_u64 f) (le_u64 v) y"
  by (rule reads_end [OF reads_u64])

lemma reads_short_step [pb_steps]:
  "short_ok s \<Longrightarrow> reads (f s) cs y \<Longrightarrow> reads (then_read read_short f) (put_short s @ cs) y"
  by (rule reads_then [OF shorts.get_put])

lemma reads_short_end [pb_steps]:
  "short_ok s \<Longrightarrow> reads (f s) [] y \<Longrightarrow> reads (then_read read_short f) (put_short s) y"
  by (rule reads_end [OF shorts.get_put])

lemmas [pb_steps] = reads_return

subsection \<open>Breakpoints\<close>

lemma parse_word [simp]:
  "parse reader_u64 (le_u64 v) = Some v" "parse reader_u32 (le_u32 w) = Some w"
  by (rule reads_parse_exact, rule pb_reads)+

lemma put_nil [simp]: "put_u64 [] v = le_u64 v" "put_u32 [] w = le_u32 w"
  by (simp_all add: put_u64_def put_u32_def)

lemma fold_put: "fold (\<lambda>x out. out @ f x) xs out = out @ concat (map f xs)"
  by (induction xs arbitrary: out) simp_all

definition put_bp_row :: "u32 \<times> u64 \<times> u64 \<Rightarrow> bytes" where
  "put_bp_row row = (case row of (ident, address, hits) \<Rightarrow> le_u32 ident @ le_u64 address @ le_u64 hits)"

lemma reads_bp_row: "reads read_bp_row (put_bp_row row) row"
  by (cases row) (auto simp: read_bp_row_def put_bp_row_def intro!: pb_steps)

lemma handle_bp_list_image:
  "handle_bp_list q s =
     (let b = ag_breaker s
      in of_bool (bp_stopped b) # le_u32 (bp_last_hit_tid b) @ le_u64 (bp_last_hit_addr b) @ le_u64 (bp_stop_gen b)
           @ put_rows put_bp_row (bp_list (qe_bp_locked q) b) @ le_u64 (qe_entry_bp q))"
proof -
  have "(\<lambda>(ident, address, hits) out. put_u64 (put_u64 (put_u32 out ident) address) hits)
      = (\<lambda>row out. out @ put_bp_row row)"
    by (auto simp: fun_eq_iff put_bp_row_def put_u64_def put_u32_def)
  then show ?thesis
    by (simp add: handle_bp_list_def Let_def fold_put put_rows_def put_u64_def put_u32_def)
qed

lemma bp_list_short: "length (bp_slots b) \<le> 64 \<Longrightarrow> length (bp_list locked b) \<le> 64"
  unfolding bp_list_def by (auto intro: order_trans [OF length_filter_le])

lemma length_rows: "\<forall>x \<in> set xs. length (put x) = k \<Longrightarrow> length (put_rows put xs) = 4 + k * length xs"
  unfolding put_rows_def by (induction xs) (auto simp: algebra_simps)

lemma length_bp_list_reply:
  assumes "length (bp_slots (ag_breaker s)) \<le> 64"
  shows "length (handle_bp_list q s) \<le> FRAME_ROOM"
proof -
  have "length (put_rows put_bp_row (bp_list l (ag_breaker s))) = 4 + 20 * length (bp_list l (ag_breaker s))" for l
    by (rule length_rows) (auto simp: put_bp_row_def)
  then show ?thesis
    using bp_list_short [OF assms, of "qe_bp_locked q"] by (simp add: handle_bp_list_image Let_def FRAME_ROOM_def)
qed

text \<open>What the client reads from the reply: the whole list, and from its tail the entry breakpoint.\<close>

lemma read_bp_list_reply:
  assumes "length (bp_slots b) \<le> 64"
  shows "parse (then_read reader_u32 (\<lambda>hit_tid. then_read reader_u64 (\<lambda>hit_addr. then_read reader_u64 (\<lambda>stop_gen.
        then_read (read_rows read_bp_row) (\<lambda>entries. read_return (hit_tid, hit_addr, stop_gen, entries))))))
      (le_u32 t @ le_u64 a @ le_u64 g @ put_rows put_bp_row (bp_list l b) @ rest) = Some (t, a, g, bp_list l b)"
proof -
  have rows: "reads (read_rows read_bp_row) (put_rows put_bp_row (bp_list l b)) (bp_list l b)"
    by (rule reads_rows) (use bp_list_short [OF assms, of l] reads_bp_row in auto)
  have "reads (then_read reader_u32 (\<lambda>hit_tid. then_read reader_u64 (\<lambda>hit_addr. then_read reader_u64 (\<lambda>stop_gen.
        then_read (read_rows read_bp_row) (\<lambda>entries. read_return (hit_tid, hit_addr, stop_gen, entries))))))
      (le_u32 t @ le_u64 a @ le_u64 g @ put_rows put_bp_row (bp_list l b)) (t, a, g, bp_list l b)"
    by (intro pb_steps reads_end [OF rows])
  from reads_parse [OF this, of rest] show ?thesis by simp
qed


text \<open>The agent as it starts, and a quiet environment: every lock is taken at once and Pin answers.\<close>

definition PRIORITY_CAPACITY :: nat where "PRIORITY_CAPACITY = 4096"

definition agent_new :: agent where
  "agent_new = \<lparr>ag_ring = ring_state_new, ag_priority = event_channel_new PRIORITY_CAPACITY,
     ag_lanes = hook_lanes_new, ag_breaker = breaker_new, ag_hooks = hooks_new, ag_rules = hook_rules_new,
     ag_syscalls = syscalls_new, ag_policy = \<lparr>ex_enabled = False, ex_code = 0, ex_pending = False\<rparr>,
     ag_leases = leases_new, ag_output = output_new, ag_effects = [], ag_turns = []\<rparr>"

definition quiet_env :: query_env where
  "quiet_env = \<lparr>qe_pid = 1, qe_width = 8, qe_ring_locks = (\<lambda>_. (PB_OK, 1)), qe_priority_locks = (\<lambda>_. (PB_OK, 1)),
     qe_hook_locks = (\<lambda>_. (PB_OK, 1)), qe_syscall_locks = (\<lambda>_. (PB_OK, 1)), qe_bp_locked = True,
     qe_script_address = 0, qe_entry_bp = 0, qe_resort = (\<lambda>rs. rs),
     qe_world = \<lparr>wd_stop_hit = True, wd_stop_cmd = True, wd_resume = True, wd_trap_locked = True,
       wd_writeable = (\<lambda>_. True)\<rparr>,
     qe_in_time = True, qe_stopped_ip = (\<lambda>_. None), qe_probe_mode = False, qe_tf_status = PB_OK,
     qe_fallback_status = PB_OK, qe_flush_status = (\<lambda>_ _. PB_OK)\<rparr>"

lemma quiet_simps [simp]:
  "\<not> qe_probe_mode quiet_env" "qe_bp_locked quiet_env" "qe_script_address quiet_env = 0"
  "qe_hook_locks quiet_env = (\<lambda>_. (PB_OK, 1))" "qe_syscall_locks quiet_env = (\<lambda>_. (PB_OK, 1))"
  by (simp_all add: quiet_env_def)

lemma agent_new_simps [simp]:
  "ag_breaker agent_new = breaker_new" "ag_lanes agent_new = hook_lanes_new" "ag_hooks agent_new = hooks_new"
  "ag_syscalls agent_new = syscalls_new"
  by (simp_all add: agent_new_def)


end
