(* ===== verification/Pb_Signature_Wire.thy ===== *)
theory Pb_Signature_Wire
  imports Pb_Served Pb_Hook_Sets Pb_Signature_Proofs
begin

section \<open>Hooks and signatures end to end\<close>

text \<open>
  From a prototype to the capture: \<open>hook_signature.rs\<close> parses and lays out, \<open>client.rs\<close> sends the layout,
  \<open>query_server.rs\<close> hands it to \<open>hooks.rs\<close>, and the analysis callbacks look it up without a lock.
\<close>

subsection \<open>What the lookup answers after a set\<close>

lemma function_signature_iff:
  assumes "hooks_ok s"
  shows "function_signature s a = Some l \<longleftrightarrow> l \<in> set (hk_signatures s) \<and> sg_address l = a"
proof -
  have sorted: "ssorted (map sg_address (hk_signatures s))"
    and pub: "published (hk_signatures s) (hk_sig_snapshot s) (hk_sig_count s)"
    using assms by (auto simp: hooks_ok_def)
  have uniq: "x = y" if "x \<in> set (hk_signatures s)" "y \<in> set (hk_signatures s)" "sg_address x = sg_address y" for x y
    using sorted that by (meson inj_onD distinct_map strict_sorted_iff)
  show ?thesis
  proof (cases "hk_signatures s = []")
    case True
    then show ?thesis using pub by (auto simp: function_signature_def published_def)
  next
    case False
    then have snap: "hk_sig_snapshot s = Some (hk_signatures s)" "hk_sig_count s \<noteq> 0"
      using pub by (auto simp: published_def split: option.splits)
    show ?thesis
    proof (cases "binary_search (map sg_address (hk_signatures s)) a")
      case (Inl i)
      then have "a \<notin> set (map sg_address (hk_signatures s))"
        using binary_search_ok [OF sorted, of a] by simp
      then show ?thesis using snap Inl by (auto simp: function_signature_def)
    next
      case (Inr i)
      then have "i < length (hk_signatures s)" "sg_address (hk_signatures s ! i) = a"
        using binary_search_Inr [OF Inr] by auto
      then show ?thesis using snap Inr uniq nth_mem by (auto simp: function_signature_def)
    qed
  qed
qed

definition layout_ok :: "signature_layout \<Rightarrow> bool" where
  "layout_ok l \<longleftrightarrow> sg_address l \<noteq> 0 \<and> sg_parameter_count l \<le> 16 \<and> sg_float_mask l AND NOT 0xffff = 0
     \<and> sg_return_kind l \<le> VALUE_FLOAT64 \<and> sg_calling_convention l \<le> CALL_CONV_X86_FASTCALL
     \<and> sg_float_mask l AND (if sg_parameter_count l = 0 then 0 else push_bit (unat (sg_parameter_count l)) 1 - 1)
         = sg_float_mask l"

lemma set_signature_accepts:
  assumes "layout_ok l"
  shows "set_function_signature l s =
    (case binary_search (map sg_address (hk_signatures s)) (sg_address l) of
       Inr i \<Rightarrow> (let sigs = (hk_signatures s)[i := l] in (True, publish_signatures sigs (s\<lparr>hk_signatures := sigs\<rparr>)))
     | Inl i \<Rightarrow> if length (hk_signatures s) \<ge> MAX_HOOK_POINTS then (False, s)
         else let sigs = insert_at i l (hk_signatures s) in (True, publish_signatures sigs (s\<lparr>hk_signatures := sigs\<rparr>)))"
proof -
  let ?m = "if sg_parameter_count l = 0 then 0 else push_bit (unat (sg_parameter_count l)) 1 - 1 :: u32"
  have same: "l\<lparr>sg_float_mask := sg_float_mask l AND ?m\<rparr> = l" using assms by (cases l) (auto simp: layout_ok_def)
  have "\<not> (sg_address l = 0 \<or> sg_parameter_count l > 16 \<or> sg_float_mask l AND NOT 0xffff \<noteq> 0
      \<or> sg_return_kind l > VALUE_FLOAT64 \<or> sg_calling_convention l > CALL_CONV_X86_FASTCALL)"
    using assms unfolding layout_ok_def by (auto simp: not_less)
  then show ?thesis unfolding set_function_signature_def Let_def same by (simp only: if_False)
qed

lemma set_signature_lookup:
  assumes ok: "hooks_ok s" and room: "length (hk_signatures s) < MAX_HOOK_POINTS" and l: "layout_ok l"
  shows "\<exists>h. set_function_signature l s = (True, h) \<and> hooks_ok h
    \<and> function_signature h = (function_signature s)(sg_address l := Some l)"
proof -
  obtain r h where set: "set_function_signature l s = (r, h)" by fastforce
  have hok: "hooks_ok h" using set_signature_ok [OF ok set] by simp
  have sorted: "ssorted (map sg_address (hk_signatures s))" using ok by (simp add: hooks_ok_def)
  have mem: "r \<and> (\<forall>x. x \<in> set (hk_signatures h) \<longleftrightarrow>
      x = l \<or> (x \<in> set (hk_signatures s) \<and> sg_address x \<noteq> sg_address l))"
  proof (cases "binary_search (map sg_address (hk_signatures s)) (sg_address l)")
    case (Inr i)
    then have i: "i < length (hk_signatures s)" "sg_address (hk_signatures s ! i) = sg_address l"
      using binary_search_Inr [OF Inr] by auto
    have eq: "r" "hk_signatures h = (hk_signatures s)[i := l]"
      using set Inr by (auto simp: set_signature_accepts [OF l] Let_def publish_signatures_def)
    have "distinct (map sg_address (hk_signatures s))" using sorted by (simp add: strict_sorted_iff)
    then have "x \<in> set ((hk_signatures s)[i := l]) \<longleftrightarrow>
        x = l \<or> (x \<in> set (hk_signatures s) \<and> sg_address x \<noteq> sg_address l)" for x
      using i by (auto simp: in_set_conv_nth nth_list_update distinct_conv_nth split: if_splits) (metis i)+
    with eq show ?thesis by simp
  next
    case (Inl i)
    have eq: "r" "hk_signatures h = insert_at i l (hk_signatures s)"
      using set Inl room by (auto simp: set_signature_accepts [OF l] Let_def publish_signatures_def)
    have "sg_address l \<notin> set (map sg_address (hk_signatures s))"
      using binary_search_ok [OF sorted, of "sg_address l"] Inl by simp
    moreover have "set (insert_at i l (hk_signatures s)) = insert l (set (hk_signatures s))"
      by (auto simp: insert_at_def dest: in_set_takeD in_set_dropD) (metis Un_iff append_take_drop_id set_append)
    ultimately show ?thesis using eq by (auto simp: image_iff)
  qed
  then have "function_signature h a = ((function_signature s)(sg_address l := Some l)) a" for a
  proof -
    have "function_signature h a = Some x \<longleftrightarrow> ((function_signature s)(sg_address l := Some l)) a = Some x" for x
      using mem function_signature_iff [OF hok, of a x] function_signature_iff [OF ok, of a x] by auto
    then show ?thesis by (metis option.exhaust)
  qed
  then show ?thesis using set mem hok by (auto simp: fun_eq_iff)
qed

subsection \<open>From the parsed prototype\<close>

definition layout_of :: "u64 \<Rightarrow> hook_signature \<Rightarrow> signature_layout" where
  "layout_of address s =
     (let c = capture_layout s
      in \<lparr>sg_address = address, sg_calling_convention = cl_calling_convention c, sg_return_kind = cl_return_kind c,
          sg_parameter_count = cl_parameter_count c, sg_float_mask = cl_float_mask c\<rparr>)"

lemma layout_of_ok:
  assumes "signature_ok s" "a \<noteq> 0"
  shows "layout_ok (layout_of a s)"
proof -
  have few: "length (hs_parameters s) \<le> 16" using assms by (simp add: signature_ok_def MAX_PARAMETERS_def)
  let ?n = "word_of_nat (length (hs_parameters s)) :: u32"
  let ?m = "float_mask (map pm_ty (hs_parameters s))"
  have n: "unat ?n = length (hs_parameters s)" using few by (simp add: unat_of_nat)
  have low: "(0xffff :: u32) = mask 16" by (simp add: mask_eq_exp_minus_1)
  have "?m AND NOT 0xffff = 0"
    unfolding low using few by (intro bit_word_eqI) (auto simp: bit_and_iff bit_not_iff bit_mask_iff float_mask_bit)
  moreover have "?m AND (if ?n = 0 then 0 else push_bit (unat ?n) 1 - 1) = ?m"
  proof (cases "?n = 0")
    case True
    then have "hs_parameters s = []" using n by simp
    then show ?thesis by (simp add: float_mask_def)
  next
    case False
    have "bit (?m AND (push_bit (length (hs_parameters s)) 1 - 1)) j = bit ?m j" for j
      by (auto simp: bit_and_iff float_mask_bit low_mask_bit [unfolded push_bit_of_1])
    then have "?m AND (push_bit (length (hs_parameters s)) 1 - 1) = ?m" by (intro bit_word_eqI)
    then show ?thesis using False n by simp
  qed
  moreover have "?n \<le> 16" using few n by (simp add: word_le_nat_alt)
  moreover have "capture_code k \<le> VALUE_FLOAT64" for k
    by (simp add: capture_code_def VALUE_FLOAT64_def split: value_kind.split)
  moreover have "(of_bool c :: u32) \<le> CALL_CONV_X86_FASTCALL" for c
    by (simp add: CALL_CONV_X86_FASTCALL_def)
  ultimately show ?thesis
    unfolding layout_ok_def layout_of_def Let_def capture_layout_def signature_layout.simps capture_layout.simps
    using \<open>a \<noteq> 0\<close> by blast
qed

lemma read_layout_image:
  "parse read_layout (put_u32 (put_u32 (put_u32 (put_u32 (put_u64 [] (sg_address l)) (sg_calling_convention l))
     (sg_return_kind l)) (sg_parameter_count l)) (sg_float_mask l)) = Some l"
proof -
  have "reads read_layout (le_u64 (sg_address l) @ le_u32 (sg_calling_convention l) @ le_u32 (sg_return_kind l)
      @ le_u32 (sg_parameter_count l) @ le_u32 (sg_float_mask l)) l"
    unfolding read_layout_def by (cases l) (auto intro!: pb_steps)
  from reads_parse_exact [OF this] show ?thesis by (simp add: put_u32_def put_u64_def)
qed

text \<open>
  C31. A prototype the hub accepts reaches the capture unchanged. Whatever \<open>parse\<close> accepts, the agent
  accepts the layout computed from it, in probe mode too, answers so, and from then on the lock-free
  lookup of the callbacks gives exactly that layout for the address and what it gave before for every
  other one.
\<close>

theorem signature_over_wire:
  assumes "signature_parse prototype source confidence = Inr sig" and "address \<noteq> 0"
    and "hooks_ok (ag_hooks s)" and "length (hk_signatures (ag_hooks s)) < MAX_HOOK_POINTS"
  shows "\<exists>h. client_hook_signature_set (agent_peer q decode x) (layout_of address sig) (s, m)
        = (Inr True, s\<lparr>ag_hooks := h\<rparr>, m)
    \<and> hooks_ok h
    \<and> function_signature h = (function_signature (ag_hooks s))(address \<mapsto> layout_of address sig)"
proof -
  let ?l = "layout_of address sig"
  have l: "layout_ok ?l" using assms signature_parse_ok layout_of_ok by blast
  have a: "sg_address ?l = address" by (simp add: layout_of_def Let_def)
  obtain h where h: "set_function_signature ?l (ag_hooks s) = (True, h)" "hooks_ok h"
    "function_signature h = (function_signature (ag_hooks s))(address \<mapsto> ?l)"
    using set_signature_lookup [OF assms(3,4) l] a by auto
  let ?p = "put_u32 (put_u32 (put_u32 (put_u32 (put_u64 [] (sg_address ?l)) (sg_calling_convention ?l))
     (sg_return_kind ?l)) (sg_parameter_count ?l)) (sg_float_mask ?l)"
  have d: "dispatch q decode x OP_HOOK_SIGNATURE_SET ?p (s, m) = ((STATUS_OK, le_u32 1), s\<lparr>ag_hooks := h\<rparr>, m)"
    by (simp only: dispatch_signature_set handle_hook_signature_set_def with_parsed_def read_layout_image)
      (simp add: h answer_def)
  have "client_hook_signature_set (agent_peer q decode x) ?l (s, m) = (Inr True, s\<lparr>ag_hooks := h\<rparr>, m)"
    unfolding client_hook_signature_set_def
    by (rule ask_ok [OF d]) (simp_all add: word_flag_def FRAME_ROOM_def put_u32_def)
  with h show ?thesis by blast
qed


lemma signature_over_wire_witness:
  "\<exists>sig. signature_parse ''float __stdcall F(float a, double b)'' ''pdb'' 100 = Inr sig
     \<and> (\<forall>decode (x :: 'm externals) m. \<exists>h.
           client_hook_signature_set (agent_peer quiet_env decode x) (layout_of 4096 sig) (agent_new, m)
             = (Inr True, agent_new\<lparr>ag_hooks := h\<rparr>, m)
         \<and> function_signature h 4096 = Some (layout_of 4096 sig))"
proof -
  have "case signature_parse ''float __stdcall F(float a, double b)'' ''pdb'' 100 of Inl _ \<Rightarrow> False | Inr s \<Rightarrow> True"
    by code_simp
  then obtain sig where sig: "signature_parse ''float __stdcall F(float a, double b)'' ''pdb'' 100 = Inr sig"
    by (auto split: sum.splits)
  have "hooks_ok (ag_hooks agent_new)" "length (hk_signatures (ag_hooks agent_new)) < MAX_HOOK_POINTS"
    using hooks_ok_new by (simp_all add: hooks_new_def MAX_HOOK_POINTS_def)
  note set = signature_over_wire [OF sig _ this, of 4096]
  have "\<exists>h. client_hook_signature_set (agent_peer quiet_env decode x) (layout_of 4096 sig) (agent_new, m)
             = (Inr True, agent_new\<lparr>ag_hooks := h\<rparr>, m)
         \<and> function_signature h 4096 = Some (layout_of 4096 sig)" for decode and x :: "'m externals" and m
    using set [of quiet_env decode x m] by auto
  then show ?thesis using sig by blast
qed

end
