(* ===== verification/Pb_History.thy ===== *)
theory Pb_History
  imports Pb_Served
begin

section \<open>The hook history a client sees\<close>

text \<open>
  \<open>hook_events.rs\<close> records the captured calls, \<open>query_server.rs\<close> cuts the page a request asks for out
  of the ring, and \<open>client.rs\<close> reads it. A client pages backwards with \<open>before\<close>.
\<close>

subsection \<open>What a lane has retained\<close>

type_synonym hook_submission = "try_lock \<times> (u32 \<times> u32) \<times> hook_log_record"

definition hook_channel_run :: "hook_submission list \<Rightarrow> hook_channel \<Rightarrow> hook_channel" where
  "hook_channel_run acts c = fold (\<lambda>(tried, filetime, e). hook_channel_submit tried filetime e) acts c"

text \<open>The records of the submissions that got the lock, stamped with their time and sequence number.\<close>

fun retained_log :: "hook_submission list \<Rightarrow> hook_log_record list \<Rightarrow> hook_log_record list" where
  "retained_log [] log = log"
| "retained_log ((tried, filetime, e) # acts) log =
     retained_log acts (if lock_taken tried
       then log @ [e\<lparr>hl_timestamp_unix_ns := unix_time_ns filetime, hl_sequence := word_of_nat (Suc (length log))\<rparr>]
       else log)"

definition hook_channel_holds :: "hook_channel \<Rightarrow> nat \<Rightarrow> hook_log_record list \<Rightarrow> bool" where
  "hook_channel_holds c submitted log \<longleftrightarrow>
     hook_ring_holds (hc_ring c) log \<and> hc_mutex c \<noteq> 0 \<and> length (hg_events (hc_ring c)) = HOOK_EVENT_CAPACITY
     \<and> hc_submitted c = word_of_nat submitted \<and> hc_retained_total c = word_of_nat (length log)
     \<and> length log \<le> submitted"

lemma hook_channel_submit_holds:
  assumes "hook_channel_holds c n log" and "n + 2 < 2 ^ 64"
  shows "hook_channel_holds (hook_channel_submit tried filetime e c) (Suc n)
    (if lock_taken tried
     then log @ [e\<lparr>hl_timestamp_unix_ns := unix_time_ns filetime, hl_sequence := word_of_nat (Suc (length log))\<rparr>]
     else log)"
proof -
  let ?e = "e\<lparr>hl_timestamp_unix_ns := unix_time_ns filetime\<rparr>"
  have rep: "hook_ring_holds (hc_ring c) log" and len: "length log \<le> n"
    using assms(1) by (auto simp: hook_channel_holds_def)
  have "hook_ring_holds (fst (hook_ring_push (hc_ring c) ?e))
      (log @ [?e\<lparr>hl_sequence := word_of_nat (Suc (length log))\<rparr>])"
    using len assms(2) by (intro hook_rings.lane.rep_push [OF rep]) simp
  moreover have "length (hg_events (fst (hook_ring_push (hc_ring c) ?e))) = length (hg_events (hc_ring c))"
    by (simp add: hook_ring_push_def Let_def)
  moreover have "hook_ring.hg_total (hc_ring c) = word_of_nat (length log)"
    using rep by (simp add: lane_rep_def ring_rep_def)
  then have "snd (hook_ring_push (hc_ring c) ?e) = word_of_nat (Suc (length log))"
    by (simp add: hook_ring_push_def Let_def)
  ultimately show ?thesis
    using assms(1) len by (cases "hook_ring_push (hc_ring c) ?e")
      (auto simp: hook_channel_holds_def hook_channel_submit_def lock_taken_def Let_def)
qed

lemma hook_channel_run_holds:
  assumes "hook_channel_holds c n log" and "n + length acts + 2 < 2 ^ 64"
  shows "hook_channel_holds (hook_channel_run acts c) (n + length acts) (retained_log acts log)"
  using assms
proof (induction acts arbitrary: c n log)
  case (Cons a acts)
  obtain tried filetime e where a: "a = (tried, filetime, e)" by (metis prod_cases3)
  have "n + 2 < 2 ^ 64" using Cons.prems(2) by simp
  from Cons.IH [OF hook_channel_submit_holds [OF Cons.prems(1) this, of tried filetime e]] Cons.prems(2)
  show ?case by (simp add: a hook_channel_run_def)
qed (simp add: hook_channel_run_def)

lemma retained_log_ok:
  "\<forall>(_, _, e) \<in> set acts. hook_log_ok e \<Longrightarrow> list_all hook_log_ok log \<Longrightarrow> list_all hook_log_ok (retained_log acts log)"
  by (induction acts log rule: retained_log.induct) (auto simp: hook_log_ok_def)

lemma retained_log_length: "length (retained_log acts log) = length log + length (filter (\<lambda>(tried, _, _). lock_taken tried) acts)"
  by (induction acts log rule: retained_log.induct) auto

definition started_channel :: "u64 \<Rightarrow> hook_channel" where
  "started_channel handle = snd (hook_channel_init PB_OK handle (hook_channel_new HOOK_EVENT_CAPACITY))"

lemma started_channel_holds: "handle \<noteq> 0 \<Longrightarrow> hook_channel_holds (started_channel handle) 0 []"
  using hook_ring_new_holds [of HOOK_EVENT_CAPACITY]
  by (simp add: started_channel_def hook_channel_holds_def hook_channel_init_def hook_channel_new_def
      hook_ring_new_def HOOK_EVENT_CAPACITY_def)

subsection \<open>The page of a request\<close>

text \<open>The newest \<open>limit\<close> of the first \<open>newest\<close> records, as far as the ring still has them.\<close>

definition history_page :: "nat \<Rightarrow> nat \<Rightarrow> nat \<Rightarrow> 'e list \<Rightarrow> 'e list" where
  "history_page capacity limit newest log = drop (max (newest - limit) (length log - capacity)) (take newest log)"

definition page_end :: "u64 \<Rightarrow> nat \<Rightarrow> nat" where
  "page_end before' len = (if before' = 0 then len else min (unat before' - 1) len)"

lemma filter_below:
  "\<forall>i < length xs. unat (seq (xs ! i)) = Suc (m + i) \<Longrightarrow> filter (\<lambda>e. unat (seq e) \<le> k) xs = take (k - m) xs"
proof (induction xs arbitrary: m)
  case (Cons x xs)
  have x: "unat (seq x) = Suc m" using Cons.prems by fastforce
  have "\<forall>i < length xs. unat (seq (xs ! i)) = Suc (Suc m + i)"
    using Cons.prems by (metis Suc_less_eq add_Suc_shift length_Cons nth_Cons_Suc)
  note ih = Cons.IH [OF this]
  show ?case
  proof (cases "m < k")
    case True
    then have "k - m = Suc (k - Suc m)" by simp
    then show ?thesis using True ih by (simp add: x)
  next
    case False
    then show ?thesis using ih by (simp add: x)
  qed
qed simp

lemma window_page:
  assumes "\<forall>i < length log. unat (seq (log ! i)) = Suc i" and "e \<le> length log"
  shows "filter (\<lambda>r. unat (seq r) \<le> e) (log_window capacity log (e - l) l) = history_page capacity l e log"
proof -
  let ?m = "max (e - l) (length log - capacity)"
  have "filter (\<lambda>r. unat (seq r) \<le> e) (take l (drop ?m log)) = take (e - ?m) (take l (drop ?m log))"
    by (rule filter_below) (use assms(1) in auto)
  also have "\<dots> = take (e - ?m) (drop ?m log)" by (simp add: min_def)
  finally show ?thesis by (simp only: log_window_def history_page_def drop_take)
qed

lemma window_newest: "log_window capacity log (length log - l) l = history_page capacity l (length log) log"
  by (auto simp: log_window_def history_page_def)

lemma history_page_last:
  "history_page capacity l e log \<noteq> [] \<Longrightarrow> e \<le> length log \<Longrightarrow> last (history_page capacity l e log) = log ! (e - 1) \<and> 0 < e"
  unfolding history_page_def by (auto simp: last_drop last_conv_nth)

lemma length_history_page: "length (history_page capacity l e log) \<le> l"
  by (simp add: history_page_def)


subsection \<open>The reply and how it is read\<close>

text \<open>A parser that starts at the rest of a payload; the last one may leave bytes unread.\<close>

definition gets :: "'a parser \<Rightarrow> bytes \<Rightarrow> 'a \<Rightarrow> bool" where
  "gets p bs x \<longleftrightarrow> (\<forall>r. reader_ok r \<longrightarrow> reader_remaining r = bs \<longrightarrow> map_option fst (p r) = Some x)"

lemma reader_remaining_advanced:
  "reader_ok r \<Longrightarrow> reader_remaining r = bs @ rest \<Longrightarrow> reader_remaining (reader_advance (length bs) r) = rest"
  by (simp add: reader_remaining_def reader_advance_def) (metis add.commute append_eq_conv_conj drop_drop)

lemma gets_then: "reads p bs x \<Longrightarrow> gets (f x) rest y \<Longrightarrow> gets (then_read p f) (bs @ rest) y"
  by (auto simp: gets_def reads_def then_read_def reader_ok_advance reader_remaining_advanced)

lemma gets_parse: "gets p bs x \<Longrightarrow> parse p bs = Some x"
  by (simp add: gets_def parse_def reader_remaining_def reader_new_def reader_ok_def)

lemma reader_u64_last: "reader_ok r \<Longrightarrow> reader_remaining r = le_u64 v \<Longrightarrow> reader_u64 r = Some (v, reader_advance 8 r)"
  using reads_u64 [of v] by (auto simp: reads_def)

lemma gets_event_rows:
  "decode_rows decode row (unat count) rest = Some xs \<Longrightarrow>
     gets (then_read (read_event_rows decode row count) (\<lambda>events. read_return (f events))) rest (f xs)"
  by (simp add: gets_def then_read_def read_event_rows_def read_return_def)

lemma parse_page:
  assumes "decode_rows decode row (unat count) rest = Some xs"
  shows "parse (read_page decode row) (le_u64 a @ le_u64 b @ le_u64 c @ le_u64 count @ rest) = Some (a, b, c, xs)"
  unfolding read_page_def
  by (intro gets_parse gets_then [OF reads_u64] gets_event_rows [OF assms, of "\<lambda>events. (a, b, c, events)"])


subsection \<open>The window in words\<close>

definition clamp_limit :: "u64 \<Rightarrow> nat" where "clamp_limit limit = min (max (unat limit) 1) 4096"

lemma unat_min: "unat (min a b) = min (unat a) (unat b)" for a b :: "'a::len word"
  by (simp add: min_def word_le_nat_alt)

lemma unat_max: "unat (max a b) = max (unat a) (unat b)" for a b :: "'a::len word"
  by (simp add: max_def word_le_nat_alt)

lemma clamp_limit_bounds: "0 < clamp_limit limit" "clamp_limit limit \<le> 4096"
  by (simp_all add: clamp_limit_def)

lemma clamp_limit_word: "unat (min (max limit 1) HOOK_PAGE_MAX_LIMIT) = clamp_limit limit"
  by (simp add: unat_min unat_max HOOK_PAGE_MAX_LIMIT_def clamp_limit_def)

lemma clamp_limit_again: "clamp_limit (min (max limit 1) 4096) = clamp_limit limit"
  by (simp add: clamp_limit_def unat_min unat_max)

lemma unat_sat_add_one: "unat edge + 1 < 2 ^ 64 \<Longrightarrow> unat (sat_add edge 1) = Suc (unat edge)" for edge :: u64
  by (simp add: unat_sat_add)

lemma page_bounds:
  fixes edge before' limit :: u64
  assumes "unat edge = len" and "len < 2 ^ 63"
  defines "b \<equiv> if before' = 0 then 0 else min before' (sat_add edge 1)"
    and "l \<equiv> min (max limit 1) HOOK_PAGE_MAX_LIMIT"
  shows "b = 0 \<longleftrightarrow> before' = 0"
    and "before' \<noteq> 0 \<Longrightarrow> unat b = Suc (page_end before' len)"
    and "unat (if b = 0 then sat_sub edge l else sat_sub b (sat_add l 1)) = page_end before' len - clamp_limit limit"
    and "page_end before' len \<le> len"
proof -
  have one: "unat (sat_add edge 1) = Suc len" using assms(1,2) by (subst unat_sat_add_one) simp_all
  have l: "unat l = clamp_limit limit" unfolding l_def by (rule clamp_limit_word)
  have "unat l + 1 < 2 ^ 64" using clamp_limit_bounds(2) [of limit] by (simp add: l)
  then have l1: "unat (sat_add l 1) = Suc (clamp_limit limit)" by (simp add: unat_sat_add_one l)
  show end_le: "page_end before' len \<le> len" by (simp add: page_end_def)
  show b: "unat b = Suc (page_end before' len)" if "before' \<noteq> 0"
  proof -
    have "0 < unat before'" using that by (simp add: unat_gt_0)
    then show ?thesis using that by (auto simp: b_def unat_min one page_end_def)
  qed
  show zero: "b = 0 \<longleftrightarrow> before' = 0"
    using b by (cases "before' = 0") (auto simp: b_def)
  show "unat (if b = 0 then sat_sub edge l else sat_sub b (sat_add l 1)) = page_end before' len - clamp_limit limit"
    using b by (cases "before' = 0") (simp_all add: zero unat_sat_sub l l1 assms(1) page_end_def)
qed


lemma hook_window_taken:
  assumes "hc_mutex c \<noteq> 0" "lock_spin locks" "hook_ring_page_into (hc_ring c) after limit' [] = (missed, events)"
    and "after = (if b = 0 then sat_sub (hc_retained_total c) l else sat_sub b (sat_add l 1))"
    and "b = (if before' = 0 then 0 else min before' (sat_add (hc_retained_total c) 1))"
    and "l = min (max limit 1) HOOK_PAGE_MAX_LIMIT" "limit' = unat l"
    and "page = (if b \<noteq> 0 then filter (\<lambda>e. hl_sequence e < b) events else events)"
  shows "hook_window locks c (limit, before') =
    le_u64 (hook_ring.hg_total (hc_ring c)) @ le_u64 (hook_channel_dropped c)
      @ le_u64 (if page = [] then after else hl_sequence (last page)) @ le_u64 (word_of_nat (length page))
      @ fold hook_log_encode page []"
  unfolding hook_window_def hook_channel_total_def Let_def prod.case
    assms(4) [symmetric, unfolded assms(5,6)] assms(6) [symmetric] assms(5) [symmetric]
  using assms(1-3) assms(7,8)
  by (simp add: hook_channel_try_page_def assms(4) [symmetric] put_u64_def hl.enc_fold)


lemma hook_window_history:
  fixes limit before' :: u64
  assumes holds: "hook_channel_holds c n log" and n: "n < 2 ^ 63" and locks: "lock_spin locks"
    and ok: "list_all hook_log_ok log"
  defines "e \<equiv> page_end before' (length log)" and "l \<equiv> clamp_limit limit"
  defines "page \<equiv> history_page HOOK_EVENT_CAPACITY l e log"
  shows "parse (read_page hook_log_decode HOOK_LOG_WIRE_LEN) (hook_window locks c (limit, before')) =
      Some (word_of_nat (length log), word_of_nat (n - length log), word_of_nat (if page = [] then e - l else e), page)"
    and "length (hook_window locks c (limit, before')) \<le> FRAME_ROOM"
proof -
  let ?edge = "hc_retained_total c" and ?len = "length log"
  define lw :: u64 where "lw = min (max limit 1) HOOK_PAGE_MAX_LIMIT"
  define b where "b = (if before' = 0 then 0 else min before' (sat_add ?edge 1))"
  define after where "after = (if b = 0 then sat_sub ?edge lw else sat_sub b (sat_add lw 1))"
  have rep: "hook_ring_holds (hc_ring c) log" and mutex: "hc_mutex c \<noteq> 0" and cap: "length (hg_events (hc_ring c)) = HOOK_EVENT_CAPACITY"
    and submitted: "hc_submitted c = word_of_nat n" and edge: "?edge = word_of_nat ?len" and len: "?len \<le> n"
    using holds by (auto simp: hook_channel_holds_def)
  have lane: "\<forall>i < ?len. unat (hl_sequence (log ! i)) = Suc i" and hg: "hook_ring.hg_total (hc_ring c) = word_of_nat ?len"
    using rep by (auto simp: lane_rep_def ring_rep_def)
  have uedge: "unat ?edge = ?len" unfolding edge using len n by (subst unat_of_nat) simp
  have small: "?len < 2 ^ 63" using len n by simp
  note bounds = page_bounds(1) [OF uedge small, of before', folded b_def]
    page_bounds(2) [OF uedge small, of before', folded b_def, folded e_def]
    page_bounds(3) [OF uedge small, of before' limit, folded b_def lw_def, folded after_def, folded e_def l_def]
    page_bounds(4) [OF uedge small, of before', folded e_def]
  have lw: "unat lw = l" unfolding lw_def l_def by (rule clamp_limit_word)
  have l: "0 < l" "l \<le> 4096" unfolding l_def by (rule clamp_limit_bounds)+
  let ?events = "log_window HOOK_EVENT_CAPACITY log (e - l) l"
  have "hook_ring_page_into (hc_ring c) after l [] =
      (word_of_nat (max (unat after) (?len - length (hg_events (hc_ring c))) - unat after),
       [] @ log_window (length (hg_events (hc_ring c))) log (unat after) l)"
    using small l bounds(3,4) by (intro hook_rings.lane.rep_page [OF rep]) auto
  then have page_into: "hook_ring_page_into (hc_ring c) after l [] =
      (word_of_nat (max (e - l) (?len - HOOK_EVENT_CAPACITY) - (e - l)), ?events)"
    by (simp only: cap bounds(3) append_Nil)
  have page: "page = (if b \<noteq> 0 then filter (\<lambda>r. hl_sequence r < b) ?events else ?events)"
  proof (cases "before' = 0")
    case True
    then have "e = ?len" by (simp add: e_def page_end_def)
    then show ?thesis using True bounds(1) by (simp add: page_def window_newest)
  next
    case False
    then have "hl_sequence r < b \<longleftrightarrow> unat (hl_sequence r) \<le> e" for r :: hook_log_record
      using bounds(2) by (simp add: word_less_nat_alt less_Suc_eq_le)
    then show ?thesis using False bounds(1) window_page [OF lane bounds(4)] by (simp add: page_def)
  qed
  have uafter: "after = word_of_nat (e - l)" using bounds(3) by (metis of_nat_unat ucast_id)
  have nxt: "(if page = [] then after else hl_sequence (last page)) = word_of_nat (if page = [] then e - l else e)"
  proof (cases "page = []")
    case False
    then have "last page = log ! (e - 1)" "0 < e"
      using history_page_last [OF _ bounds(4)] by (auto simp: page_def)
    moreover then have "unat (hl_sequence (log ! (e - 1))) = e" using lane bounds(4) by simp
    ultimately show ?thesis using False by (metis of_nat_unat ucast_id)
  qed (simp add: uafter)
  have dropped: "hook_channel_dropped c = word_of_nat (n - ?len)"
  proof (rule unsigned_word_eqI)
    have u: "unat (word_of_nat k :: u64) = k" if "k \<le> n" for k
      using that n by (subst unat_of_nat) simp
    show "unat (hook_channel_dropped c) = unat (word_of_nat (n - ?len) :: u64)"
      using len by (simp only: hook_channel_dropped_def unat_sat_sub submitted edge u diff_le_self order_refl)
  qed
  have image: "hook_window locks c (limit, before') = le_u64 (word_of_nat ?len) @ le_u64 (word_of_nat (n - ?len))
      @ le_u64 (word_of_nat (if page = [] then e - l else e)) @ le_u64 (word_of_nat (length page)) @ fold hook_log_encode page []"
    using hook_window_taken [OF mutex locks page_into after_def b_def lw_def lw [symmetric] page]
    by (simp only: hg dropped nxt)
  have okp: "\<forall>r \<in> set page. hook_log_ok r"
    using ok set_drop_subset set_take_subset unfolding page_def history_page_def list_all_iff by (metis subsetD)
  have plen: "length page \<le> 4096" using length_history_page l(2) unfolding page_def by (metis order_trans)
  have count: "unat (word_of_nat (length page) :: u64) = length page" using plen by (subst unat_of_nat) simp
  have "decode_rows hook_log_decode HOOK_LOG_WIRE_LEN (unat (word_of_nat (length page) :: u64)) (fold hook_log_encode page []) = Some page"
    using hl.decode_rows_fold [OF okp, of "[]"] by (simp only: count append_Nil2)
  from parse_page [OF this] show "parse (read_page hook_log_decode HOOK_LOG_WIRE_LEN) (hook_window locks c (limit, before')) =
      Some (word_of_nat (length log), word_of_nat (n - length log), word_of_nat (if page = [] then e - l else e), page)"
    unfolding image .
  show "length (hook_window locks c (limit, before')) \<le> FRAME_ROOM"
    using plen by (simp add: image hl.fold_length [OF okp] FRAME_ROOM_def HOOK_LOG_WIRE_LEN_def)
qed


subsection \<open>Property\<close>




end
