(* ===== verification/Pb_Probe.thy ===== *)
theory Pb_Probe
  imports Pb_Served
begin

section \<open>Probe mode\<close>

text \<open>
  In probe mode Pin instruments nothing, so \<open>dispatch\<close> of \<open>query_server.rs\<close> refuses the operations that
  need its just-in-time mode. What is left to a client can change the process and the typed capture
  layouts, and nothing else of the agent.
\<close>

definition without_signatures :: "hooks \<Rightarrow> hooks" where
  "without_signatures h = h\<lparr>hk_signatures := [], hk_sig_snapshot := None, hk_sig_count := 0\<rparr>"

definition only_signatures :: "agent \<Rightarrow> agent \<Rightarrow> bool" where
  "only_signatures s s' \<longleftrightarrow> s' = s\<lparr>ag_hooks := ag_hooks s'\<rparr> \<and> without_signatures (ag_hooks s') = without_signatures (ag_hooks s)"

named_theorems pb_probe

lemma only_signatures_refl [pb_probe]: "only_signatures s s"
  by (simp add: only_signatures_def)

lemma only_signatures_trans: "only_signatures s t \<Longrightarrow> only_signatures t u \<Longrightarrow> only_signatures s u"
  by (cases s; cases t; cases u) (simp add: only_signatures_def)

lemma only_signatures_hooks [pb_probe]:
  "without_signatures h = without_signatures (ag_hooks s) \<Longrightarrow> only_signatures s (s\<lparr>ag_hooks := h\<rparr>)"
  by (simp add: only_signatures_def)

lemma with_parsed_keeps:
  "with_parsed p payload f s = (r, s') \<Longrightarrow> (\<And>x r s'. f x s = (r, s') \<Longrightarrow> only_signatures s s') \<Longrightarrow> only_signatures s s'"
  by (auto simp: with_parsed_def pb_probe split: option.splits)

lemma set_signature_only: "set_function_signature l h = (ok, h') \<Longrightarrow> without_signatures h' = without_signatures h"
  by (auto simp: set_function_signature_def publish_signatures_def without_signatures_def Let_def
      split: if_splits sum.splits)

lemma remove_signature_only: "without_signatures (remove_function_signature a h) = without_signatures h"
  by (auto simp: remove_function_signature_def publish_signatures_def without_signatures_def Let_def
      split: sum.splits)

lemma readers_keep [pb_probe]:
  "handle_ring_page q payload s = (r, s') \<Longrightarrow> only_signatures s s'"
  "handle_hook_events_newest q payload s = (r, s') \<Longrightarrow> only_signatures s s'"
  "handle_syscall_events_newest q payload s = (r, s') \<Longrightarrow> only_signatures s s'"
  "handle_priority_newest q payload s = (r, s') \<Longrightarrow> only_signatures s s'"
  "handle_script_output payload s = (r, s') \<Longrightarrow> only_signatures s s'"
  by (auto simp: handle_ring_page_def handle_hook_events_newest_def handle_syscall_events_newest_def
      handle_priority_newest_def handle_script_output_def Let_def only_signatures_refl
      elim!: with_parsed_keeps split: prod.splits)

lemma signatures_keep [pb_probe]:
  "handle_hook_signature_set payload s = (r, s') \<Longrightarrow> only_signatures s s'"
  "handle_hook_signature_remove payload s = (r, s') \<Longrightarrow> only_signatures s s'"
  by (auto simp: handle_hook_signature_set_def handle_hook_signature_remove_def remove_signature_only
      elim!: with_parsed_keeps intro!: only_signatures_hooks dest: set_signature_only split: prod.splits)

lemma agent_op_probe:
  assumes op: "agent_op q decode x m op_code payload s = Some (r, s')" and probe: "\<not> requires_jit op_code"
  shows "only_signatures s s'"
proof -
  have "op_code \<notin> set [OP_STOP, OP_RESUME, OP_BP_SET, OP_BP_REMOVE, OP_EXC_POLICY_SET, OP_STEP, OP_SYSCALL_FILTER,
      OP_HOOK_SET, OP_HOOK_SET_BATCH, OP_HOOK_RANGE, OP_HOOK_REMOVE, OP_HOOK_CLEAR, OP_HOOK_RULE_SET, OP_HOOK_RULE_CLEAR]"
    using probe by (auto simp: requires_jit_def)
  with op show ?thesis
    unfolding agent_op_def by (auto intro: pb_probe split: if_split_asm)
qed

lemma dispatch_probe:
  assumes "qe_probe_mode q" "dispatch q decode x op_code payload (s, m) = (r, s', m')"
  shows "only_signatures s s'"
  using assms by (auto simp: dispatch_def only_signatures_refl dest: agent_op_probe split: if_splits option.splits)

lemma serve_probe:
  "(\<And>n. qe_probe_mode (qs n)) \<Longrightarrow> only_signatures (fst st) (fst (snd (serve_client qs decode x n stream st)))"
proof (induction qs decode x n stream st rule: serve_client.induct)
  case (1 qs decode x n stream st)
  show ?case
  proof (cases "read_frame stream")
    case (Inl e)
    then show ?thesis by (simp add: serve_client.simps [of qs decode x n stream] only_signatures_refl)
  next
    case (Inr f)
    obtain op_code st0 payload rest where f: "f = ((op_code, st0, payload), rest)" by (metis prod.exhaust)
    obtain status body s' m' where d: "dispatch (qs n) decode x op_code payload st = ((status, body), s', m')"
      by (metis prod.exhaust)
    have step: "only_signatures (fst st) s'"
      using dispatch_probe [of "qs n" decode x op_code payload "fst st" "snd st"] d 1(2) by simp
    show ?thesis
    proof (cases "write_frame [] op_code status body")
      case (Inl e)
      then show ?thesis using step Inr by (simp add: serve_client.simps [of qs decode x n stream] f d)
    next
      case out: (Inr out)
      have "only_signatures s' (fst (snd (serve_client qs decode x (Suc n) rest (s', m'))))"
        using 1(1) [OF Inr, unfolded f, OF refl refl refl d [symmetric] refl out] 1(2) by simp
      then show ?thesis using step Inr out
        by (auto simp: serve_client.simps [of qs decode x n stream] f d split: prod.splits intro: only_signatures_trans)
    qed
  qed
qed


subsection \<open>Property\<close>



end
