(* ===== verification/Pb_Record.thy ===== *)
theory Pb_Record
  imports Pb_Hook_Rules Pb_Text
begin

section \<open>The trace recorder (record.rs)\<close>

text \<open>
  \<open>bindings/rust/pinbridge-agent/src/record.rs\<close>: the statics of the record channel, the gates and
  callbacks that fill it, its session control, and the atomic actions of a producer, which
  \<open>Pb_Record_Protocol\<close> interleaves with the drainer of \<open>Pb_Tape\<close>. The slab is allocated once and
  kept, as in the code; \<open>width\<close> is the pointer width of the build.
\<close>

definition DEFAULT_CAP :: nat where "DEFAULT_CAP = 1000000"
definition MARKER_START :: u64 where "MARKER_START = 1"
definition MARKER_STOP :: u64 where "MARKER_STOP = 2"
definition MARKER_SCOPE_ADD :: u64 where "MARKER_SCOPE_ADD = 3"

definition RECORDABLE_MASK :: u32 where
  "RECORDABLE_MASK = fold (\<lambda>kind m. m OR push_bit (unat kind) 1)
     [EVENT_MEMORY, EVENT_EXEC, EVENT_BRANCH_EDGE, EVENT_EXEC_BYTES, EVENT_MEM_VALUE, EVENT_REG_SNAPSHOT,
      EVENT_SYSCALL, EVENT_CONTEXT_CHANGE] 0"

definition CONTEXT_SLOTS :: nat where "CONTEXT_SLOTS = 64"
definition NO_CONTEXT_OWNER :: u32 where "NO_CONTEXT_OWNER = - 1"
definition CONTEXT_REG_COUNT :: nat where "CONTEXT_REG_COUNT = 114"
definition CONTEXT_CHUNKS :: nat where "CONTEXT_CHUNKS = 8"
definition MAX_RECORD_RANGES :: nat where "MAX_RECORD_RANGES = 16"
definition MAX_RECORD_THREADS :: nat where "MAX_RECORD_THREADS = 64"

definition PB_REG_XMM0 :: u32 where "PB_REG_XMM0 = 91"
definition PB_REG_YMM0 :: u32 where "PB_REG_YMM0 = 123"
definition PB_REG_ZMM0 :: u32 where "PB_REG_ZMM0 = 155"

text \<open>The values a thread's last complete snapshot left, by register and chunk.\<close>

record register_slot =
  cx_owner :: u32
  cx_valid :: bool
  cx_values :: "nat \<Rightarrow> nat \<Rightarrow> u64"

record recorder =
  rr_slab :: "(u64 list \<times> event list) option"
  rr_cap :: nat
  rr_claim :: u64
  rr_drained :: u64
  rr_dropped :: u64
  rr_written :: u64
  rr_armed :: bool
  rr_drain_done :: bool
  rr_in_flight :: u64
  rr_failed :: bool
  rr_started :: bool
  rr_sticky :: bool
  rr_lo :: u64
  rr_hi :: u64
  rr_kinds :: u64
  rr_range_count :: nat
  rr_ranges :: "(u64 \<times> u64) list"
  rr_thread_count :: nat
  rr_threads :: "u32 list"
  rr_context_frame :: u64
  rr_contexts :: "register_slot list"

definition context_slot_new :: register_slot where
  "context_slot_new = \<lparr>cx_owner = NO_CONTEXT_OWNER, cx_valid = False, cx_values = (\<lambda>_ _. 0)\<rparr>"

definition recorder_new :: recorder where
  "recorder_new = \<lparr>rr_slab = None, rr_cap = 0, rr_claim = 0, rr_drained = 0, rr_dropped = 0, rr_written = 0,
     rr_armed = False, rr_drain_done = True, rr_in_flight = 0, rr_failed = False, rr_started = False,
     rr_sticky = False, rr_lo = 0, rr_hi = 0, rr_kinds = 0, rr_range_count = 0,
     rr_ranges = replicate MAX_RECORD_RANGES (0, 0), rr_thread_count = 0,
     rr_threads = replicate MAX_RECORD_THREADS 0, rr_context_frame = 0,
     rr_contexts = replicate CONTEXT_SLOTS context_slot_new\<rparr>"

subsection \<open>The gates\<close>

definition in_record_ranges :: "recorder \<Rightarrow> u64 \<Rightarrow> bool" where
  "in_record_ranges s address =
     (if rr_range_count s = 0 then address \<ge> rr_lo s \<and> address < rr_hi s
      else list_ex (\<lambda>(lo, hi). address \<ge> lo \<and> address < hi) (take (min (rr_range_count s) MAX_RECORD_RANGES) (rr_ranges s)))"

definition thread_allowed :: "recorder \<Rightarrow> u32 \<Rightarrow> bool" where
  "thread_allowed s thread_id =
     (if rr_thread_count s = 0 then True
      else thread_id \<in> set (take (min (rr_thread_count s) MAX_RECORD_THREADS) (rr_threads s)))"

text \<open>\<open>1 << kind\<close> is a shift of an \<open>i32\<close>; in a release build the amount wraps at 32.\<close>

definition kind_bit :: "u32 \<Rightarrow> u64" where
  "kind_bit kind = scast (push_bit (unat kind mod 32) (1 :: 32 word))"

definition armed_in_range :: "recorder \<Rightarrow> u64 \<Rightarrow> u32 \<Rightarrow> u32 \<Rightarrow> bool" where
  "armed_in_range s address thread_id kind \<longleftrightarrow>
     rr_armed s \<and> rr_kinds s AND kind_bit kind \<noteq> 0 \<and> in_record_ranges s address \<and> thread_allowed s thread_id"

subsection \<open>Submitting, one atomic action at a time\<close>

datatype producer =
    Outside
  | Entered event
  | Counted event
  | Gated event
  | Loaded event u64
  | Reserving event u64
  | Full event
  | Reserved event u64
  | Written event u64
  | Leaving event bool

text \<open>The optimistic check at the entry of \<open>submit\<close>.\<close>

definition may_enter :: "recorder \<Rightarrow> bool" where "may_enter s \<longleftrightarrow> rr_slab s \<noteq> None \<and> rr_armed s"

definition payload_write :: "nat \<Rightarrow> event \<Rightarrow> recorder \<Rightarrow> recorder" where
  "payload_write slot e s = s\<lparr>rr_slab := map_option (\<lambda>(tags, payloads). (tags, payloads[slot := e])) (rr_slab s)\<rparr>"

definition tag_store :: "nat \<Rightarrow> u64 \<Rightarrow> recorder \<Rightarrow> recorder" where
  "tag_store slot tag s = s\<lparr>rr_slab := map_option (\<lambda>(tags, payloads). (tags[slot := tag], payloads)) (rr_slab s)\<rparr>"

definition claim_slot :: "recorder \<Rightarrow> u64 \<Rightarrow> nat" where "claim_slot s claim = unat claim mod rr_cap s"

text \<open>
  One action of a thread inside \<open>submit\<close>, the compare-exchange loop of \<open>try_reserve\<close> included;
  \<open>spurious\<close> is a weak compare-exchange that fails although the value was the expected one.
\<close>

fun producer_action :: "bool \<Rightarrow> producer \<Rightarrow> recorder \<Rightarrow> producer \<times> recorder" where
  "producer_action spurious Outside s = (Outside, s)"
| "producer_action spurious (Entered e) s = (Counted e, s\<lparr>rr_in_flight := rr_in_flight s + 1\<rparr>)"
| "producer_action spurious (Counted e) s = (if \<not> rr_armed s then (Leaving e False, s) else (Gated e, s))"
| "producer_action spurious (Gated e) s = (if rr_cap s = 0 then (Full e, s) else (Loaded e (rr_claim s), s))"
| "producer_action spurious (Loaded e current) s =
     (if current - rr_drained s \<ge> word_of_nat (rr_cap s) then (Full e, s) else (Reserving e current, s))"
| "producer_action spurious (Full e) s = (Leaving e False, s\<lparr>rr_dropped := rr_dropped s + 1\<rparr>)"
| "producer_action spurious (Reserving e current) s =
     (if \<not> spurious \<and> rr_claim s = current then (Reserved e current, s\<lparr>rr_claim := current + 1\<rparr>)
      else (Loaded e (rr_claim s), s))"
| "producer_action spurious (Reserved e claim) s =
     (Written e claim, payload_write (claim_slot s claim) (e\<lparr>ev_sequence := claim + 1\<rparr>) s)"
| "producer_action spurious (Written e claim) s = (Leaving e True, tag_store (claim_slot s claim) (claim + 1) s)"
| "producer_action spurious (Leaving e recorded) s = (Outside, s\<lparr>rr_in_flight := rr_in_flight s - 1\<rparr>)"

text \<open>The same calls of a thread that nobody interrupts, as the code composes them.\<close>

definition try_reserve :: "u64 \<Rightarrow> u64 \<Rightarrow> u64 \<Rightarrow> (u64 \<times> u64) option" where
  "try_reserve claim drained cap =
     (if cap = 0 then None else if claim - drained \<ge> cap then None else Some (claim, claim + 1))"

definition record_submit :: "event \<Rightarrow> recorder \<Rightarrow> bool \<times> recorder" where
  "record_submit e s =
     (if rr_slab s = None \<or> \<not> rr_armed s then (False, s)
      else let s = s\<lparr>rr_in_flight := rr_in_flight s + 1\<rparr>;
               (recorded, s) =
                 (case try_reserve (rr_claim s) (rr_drained s) (word_of_nat (rr_cap s)) of
                    None \<Rightarrow> (False, s\<lparr>rr_dropped := rr_dropped s + 1\<rparr>)
                  | Some (claim, claimed) \<Rightarrow>
                      let s = s\<lparr>rr_claim := claimed\<rparr>;
                          s = payload_write (claim_slot s claim) (e\<lparr>ev_sequence := claim + 1\<rparr>) s
                      in (True, tag_store (claim_slot s claim) (claim + 1) s))
           in (recorded, s\<lparr>rr_in_flight := rr_in_flight s - 1\<rparr>))"

fun producer_actions :: "nat \<Rightarrow> producer \<Rightarrow> recorder \<Rightarrow> producer \<times> recorder" where
  "producer_actions 0 p s = (p, s)"
| "producer_actions (Suc n) p s = (case producer_action False p s of (p, s) \<Rightarrow> producer_actions n p s)"

text \<open>Alone, at most eight actions take a producer through \<open>submit\<close>, and they amount to it.\<close>

lemma producer_actions_outside [simp]: "producer_actions n Outside s = (Outside, s)"
  by (induction n) simp_all

lemma producer_actions_Suc: "producer_action False p s = (p', s') \<Longrightarrow> producer_actions (Suc n) p s = producer_actions n p' s'"
  by simp

lemma cap_word: "n < 2 ^ 64 \<Longrightarrow> unat (word_of_nat n :: u64) = n"
  by (simp add: unat_of_nat)

lemma record_submit_actions:
  assumes "may_enter s" and cap: "rr_cap s < 2 ^ 64"
  shows "producer_actions 9 (Entered e) s = (Outside, snd (record_submit e s))"
proof -
  have nine: "9 = Suc (Suc (Suc (Suc (Suc (Suc (Suc (Suc (Suc 0))))))))" by simp
  have zero: "(word_of_nat (rr_cap s) :: u64) = 0 \<longleftrightarrow> rr_cap s = 0"
  proof
    assume "(word_of_nat (rr_cap s) :: u64) = 0"
    then have "unat (word_of_nat (rr_cap s) :: u64) = 0" by (simp only: unsigned_0)
    then show "rr_cap s = 0" by (simp only: cap_word [OF cap])
  qed simp
  have gate: "rr_slab s \<noteq> None" "rr_armed s" using assms(1) by (auto simp: may_enter_def)
  consider "rr_cap s = 0" | "rr_cap s \<noteq> 0" "rr_claim s - rr_drained s \<ge> word_of_nat (rr_cap s)"
    | "rr_cap s \<noteq> 0" "\<not> rr_claim s - rr_drained s \<ge> word_of_nat (rr_cap s)" by blast
  then show ?thesis
    unfolding nine by cases (simp_all add: record_submit_def try_reserve_def zero gate Let_def
      payload_write_def tag_store_def claim_slot_def)
qed


subsection \<open>The callbacks\<close>

definition record_event :: "u32 \<Rightarrow> u32 \<Rightarrow> u64 \<Rightarrow> u64 \<Rightarrow> u64 \<Rightarrow> u64 \<Rightarrow> u64 \<Rightarrow> event" where
  "record_event kind thread_id address a0 a1 a2 a3 =
     event_empty\<lparr>ev_kind := kind, ev_thread_id := thread_id, ev_address := address, ev_arg0 := a0,
       ev_arg1 := a1, ev_arg2 := a2, ev_arg3 := a3\<rparr>"

definition record_if_armed :: "u64 \<Rightarrow> u32 \<Rightarrow> u32 \<Rightarrow> event \<Rightarrow> recorder \<Rightarrow> recorder" where
  "record_if_armed address thread_id kind e s =
     (if \<not> armed_in_range s address thread_id kind then s else snd (record_submit e s))"

text \<open>\<open>ip\<close> is what Pin reads from the context of a syscall or context-change event.\<close>

definition submit_global :: "u64 option \<Rightarrow> event \<Rightarrow> recorder \<Rightarrow> recorder" where
  "submit_global ip e s =
     (case ip of None \<Rightarrow> s
      | Some rip \<Rightarrow> record_if_armed rip (ev_thread_id e) (ev_kind e) (e\<lparr>ev_address := rip\<rparr>) s)"

definition on_rec_exec_bytes :: "u64 \<Rightarrow> u32 \<Rightarrow> u32 \<Rightarrow> u64 \<Rightarrow> u64 \<Rightarrow> recorder \<Rightarrow> recorder" where
  "on_rec_exec_bytes address thread_id count bytes_lo bytes_hi =
     record_if_armed address thread_id EVENT_EXEC_BYTES
       (record_event EVENT_EXEC_BYTES thread_id address (ucast count) bytes_lo bytes_hi 0)"

definition on_rec_mem_value :: "u64 \<Rightarrow> u32 \<Rightarrow> u64 \<Rightarrow> u32 \<Rightarrow> u32 \<Rightarrow> u64 \<Rightarrow> recorder \<Rightarrow> recorder" where
  "on_rec_mem_value address thread_id memory_address count access v =
     record_if_armed address thread_id EVENT_MEM_VALUE
       (record_event EVENT_MEM_VALUE thread_id address memory_address (ucast count) (ucast access) v)"

definition on_rec_exec :: "u64 \<Rightarrow> u32 \<Rightarrow> u32 \<Rightarrow> recorder \<Rightarrow> recorder" where
  "on_rec_exec address thread_id count =
     record_if_armed address thread_id EVENT_EXEC (record_event EVENT_EXEC thread_id address (ucast count) 0 0 0)"

definition on_rec_memory :: "u64 \<Rightarrow> u32 \<Rightarrow> u64 \<Rightarrow> u32 \<Rightarrow> u32 \<Rightarrow> recorder \<Rightarrow> recorder" where
  "on_rec_memory address thread_id memory_address count access =
     record_if_armed address thread_id EVENT_MEMORY
       (record_event EVENT_MEMORY thread_id address memory_address (ucast count) (ucast access) 0)"

definition on_rec_branch :: "u64 \<Rightarrow> u32 \<Rightarrow> u64 \<Rightarrow> u64 \<Rightarrow> recorder \<Rightarrow> recorder" where
  "on_rec_branch address thread_id target_address taken =
     record_if_armed address thread_id EVENT_BRANCH_EDGE
       (record_event EVENT_BRANCH_EDGE thread_id address target_address taken 0 0)"

subsection \<open>Register snapshots\<close>

definition context_reg :: "u32 \<Rightarrow> nat \<Rightarrow> u32" where
  "context_reg width index =
     (if index < 18 then (if index < length (gp_registers width) then snd (gp_registers width ! index) else PB_REG_INVALID)
      else if index < 50 then PB_REG_XMM0 + word_of_nat (index - 18)
      else if index < 82 then PB_REG_YMM0 + word_of_nat (index - 50)
      else if index < 114 then PB_REG_ZMM0 + word_of_nat (index - 82)
      else PB_REG_INVALID)"

definition context_width :: "u32 \<Rightarrow> nat \<Rightarrow> nat" where
  "context_width width index =
     (if index < 18 then (if index < length (gp_registers width) then 8 else 0)
      else if index < 50 then 16 else if index < 82 then 32 else if index < 114 then 64 else 0)"

text \<open>The first slot the thread owns or finds free; a free one becomes its own.\<close>

definition context_slot :: "u32 \<Rightarrow> recorder \<Rightarrow> nat option \<times> recorder" where
  "context_slot thread_id s =
     (case List.find (\<lambda>i. cx_owner (rr_contexts s ! i) = thread_id \<or> cx_owner (rr_contexts s ! i) = NO_CONTEXT_OWNER)
             [0..<length (rr_contexts s)] of
        None \<Rightarrow> (None, s)
      | Some i \<Rightarrow>
          (Some i, s\<lparr>rr_contexts := (rr_contexts s)[i := (rr_contexts s ! i)\<lparr>cx_owner := thread_id\<rparr>]\<rparr>))"

definition reset_context_state :: "recorder \<Rightarrow> recorder" where
  "reset_context_state s =
     s\<lparr>rr_contexts := map (\<lambda>c. c\<lparr>cx_valid := False, cx_owner := NO_CONTEXT_OWNER\<rparr>) (rr_contexts s)\<rparr>"

text \<open>What Pin reads from the stopped context: scalar registers, and wide ones with the size it needed.\<close>

record register_reader =
  gr_thread :: "u32 option"
  gr_scalar :: "u32 \<Rightarrow> u64 option"
  gr_wide :: "u32 \<Rightarrow> nat \<Rightarrow> (bytes \<times> u64) option"

definition read_register :: "u32 \<Rightarrow> register_reader \<Rightarrow> nat \<Rightarrow> (nat \<Rightarrow> u64) option" where
  "read_register width pin index =
     (let reg = context_reg width index; w = context_width width index
      in if w = 0 then None
         else if w = 8 then map_option (\<lambda>v chunk. if chunk = 0 then v else 0) (gr_scalar pin reg)
         else case gr_wide pin reg w of
                None \<Rightarrow> None
              | Some (bytes, needed) \<Rightarrow>
                  if needed \<ge> word_of_nat w
                  then Some (\<lambda>chunk. if chunk < w div 8 then of_le (take 8 (drop (8 * chunk) bytes)) else 0)
                  else None)"

definition register_changed :: "u32 \<Rightarrow> register_slot option \<Rightarrow> nat \<Rightarrow> (nat \<Rightarrow> u64) \<Rightarrow> bool" where
  "register_changed width slot index v \<longleftrightarrow>
     (case slot of None \<Rightarrow> True
      | Some c \<Rightarrow> \<not> cx_valid c \<or> list_ex (\<lambda>chunk. cx_values c index chunk \<noteq> v chunk) [0..<context_width width index div 8])"

definition index_mask :: "nat list \<Rightarrow> u64" where
  "index_mask bits = fold (\<lambda>i m. m OR push_bit i 1) bits 0"

definition snapshot_component :: "u32 \<Rightarrow> u32 \<Rightarrow> u64 \<Rightarrow> u64 \<Rightarrow> nat \<Rightarrow> (nat \<Rightarrow> u64) \<Rightarrow> nat \<Rightarrow> event" where
  "snapshot_component width thread_id rip frame index v part =
     event_empty\<lparr>ev_kind := EVENT_REG_SNAPSHOT, ev_thread_id := thread_id, ev_address := rip,
       ev_arg0 := ucast (context_reg width index), ev_arg1 := v (part * 2), ev_arg2 := v (part * 2 + 1),
       ev_arg3 := word_of_nat (context_width width index), ev_arg4 := word_of_nat part, ev_arg7 := frame\<rparr>"

definition snapshot_events ::
  "u32 \<Rightarrow> u32 \<Rightarrow> u64 \<Rightarrow> u64 \<Rightarrow> register_slot option \<Rightarrow> (nat \<Rightarrow> (nat \<Rightarrow> u64) option) \<Rightarrow> event list" where
  "snapshot_events width thread_id rip frame slot values =
     (let baseline = (case slot of None \<Rightarrow> True | Some c \<Rightarrow> \<not> cx_valid c);
          changed = filter (\<lambda>i. case values i of None \<Rightarrow> False | Some v \<Rightarrow> register_changed width slot i v)
            [0..<CONTEXT_REG_COUNT];
          header = event_empty\<lparr>ev_kind := EVENT_REG_SNAPSHOT, ev_thread_id := thread_id, ev_address := rip,
            ev_arg1 := index_mask (filter (\<lambda>i. i < 64) changed),
            ev_arg2 := index_mask (map (\<lambda>i. i - 64) (filter (\<lambda>i. \<not> i < 64) changed)),
            ev_arg3 := (if baseline then 1 else 2), ev_arg7 := frame\<rparr>;
          parts = (\<lambda>i. if context_width width i \<le> 8 then 1 else context_width width i div 16)
      in header # concat (map (\<lambda>i. map (snapshot_component width thread_id rip frame i (the (values i))) [0..<parts i]) changed))"

fun record_all :: "event list \<Rightarrow> recorder \<Rightarrow> bool \<times> recorder" where
  "record_all [] s = (True, s)"
| "record_all (e # es) s =
     (case record_submit e s of (recorded, s) \<Rightarrow>
        (case record_all es s of (rest, s) \<Rightarrow> (recorded \<and> rest, s)))"

definition keep_values :: "u32 \<Rightarrow> (nat \<Rightarrow> (nat \<Rightarrow> u64) option) \<Rightarrow> register_slot \<Rightarrow> register_slot" where
  "keep_values width values c = c\<lparr>cx_valid := True, cx_values := (\<lambda>i chunk.
     case values i of
       Some v \<Rightarrow> if chunk < context_width width i div 8 then v chunk else cx_values c i chunk
     | None \<Rightarrow> cx_values c i chunk)\<rparr>"

definition on_rec_registers :: "u32 \<Rightarrow> register_reader \<Rightarrow> recorder \<Rightarrow> recorder" where
  "on_rec_registers width pin s =
     (case gr_thread pin of None \<Rightarrow> s
      | Some tid \<Rightarrow>
          (case gr_scalar pin (instr_ptr_reg width) of None \<Rightarrow> s
           | Some rip \<Rightarrow>
               if \<not> armed_in_range s rip tid EVENT_REG_SNAPSHOT then s
               else let s = s\<lparr>rr_context_frame := rr_context_frame s + 1\<rparr>;
                        frame = rr_context_frame s;
                        values = (\<lambda>i. if i < CONTEXT_REG_COUNT then read_register width pin i else None);
                        (slot, s) = context_slot tid s;
                        events = snapshot_events width tid rip frame (map_option ((!) (rr_contexts s)) slot) values;
                        (complete, s) = record_all events s
                    in if complete
                       then case slot of None \<Rightarrow> s
                            | Some i \<Rightarrow> s\<lparr>rr_contexts := (rr_contexts s)[i := keep_values width values (rr_contexts s ! i)]\<rparr>
                       else s))"


subsection \<open>Instrumentation\<close>

definition record_instrumentation_enabled :: "recorder \<Rightarrow> bool" where
  "record_instrumentation_enabled s \<longleftrightarrow> rr_armed s \<or> rr_sticky s"

definition record_range :: "recorder \<Rightarrow> u64 \<times> u64" where "record_range s = (rr_lo s, rr_hi s)"

definition instrumentation_range :: "recorder \<Rightarrow> u64 \<times> u64" where
  "instrumentation_range s =
     (if rr_range_count s = 0 then record_range s
      else fold (\<lambda>(lo1, hi1) (lo, hi). (min lo lo1, max hi hi1))
             (take (min (rr_range_count s) MAX_RECORD_RANGES) (rr_ranges s)) (- 1, 0))"

datatype record_probe =
    Probe_registers | Probe_exec_bytes | Probe_memory_values | Probe_exec | Probe_memory | Probe_branch

definition record_instrument :: "recorder \<Rightarrow> bool \<Rightarrow> record_probe list" where
  "record_instrument s branchy =
     (let asked = (\<lambda>kind. (ucast (rr_kinds s) :: u32) AND push_bit (unat kind) 1 \<noteq> 0)
      in (if asked EVENT_REG_SNAPSHOT then [Probe_registers] else [])
         @ (if asked EVENT_EXEC_BYTES then [Probe_exec_bytes] else [])
         @ (if asked EVENT_MEM_VALUE then [Probe_memory_values] else [])
         @ (if asked EVENT_EXEC then [Probe_exec] else [])
         @ (if asked EVENT_MEMORY then [Probe_memory] else [])
         @ (if asked EVENT_BRANCH_EDGE \<and> branchy then [Probe_branch] else []))"

subsection \<open>Session control\<close>

definition record_status :: "recorder \<Rightarrow> bool \<times> u64 \<times> u64" where
  "record_status s = (rr_armed s, rr_written s, rr_dropped s)"

datatype session = Session_idle | Session_recording | Session_draining | Session_complete | Session_failed

fun session_code :: "session \<Rightarrow> u8" where
  "session_code Session_idle = 0"
| "session_code Session_recording = 1"
| "session_code Session_draining = 2"
| "session_code Session_complete = 3"
| "session_code Session_failed = 4"

definition session_state :: "recorder \<Rightarrow> session" where
  "session_state s =
     (if rr_armed s then Session_recording
      else if \<not> rr_drain_done s then Session_draining
      else if rr_failed s then Session_failed
      else if rr_started s then Session_complete
      else Session_idle)"

datatype record_error =
    Already_recording | Still_draining | Bad_kinds u32 | Bad_range_count | Bad_range | Too_many_threads
  | Empty_path | Slab_alloc nat | Create_failed | Spawn_failed u32 | Flush_failed u64 u64 u32
  | Not_recording | Bad_extension_count | Bad_extension_range | Too_many_ranges nat nat

text \<open>The environment variable, the allocator, the file system and Pin during one call.\<close>

record record_env =
  re_cap_variable :: "string option"
  re_alloc :: "nat \<Rightarrow> bool"
  re_create :: "bytes \<Rightarrow> bool"
  re_spawn :: u32
  re_flush :: "u64 \<Rightarrow> u64 \<Rightarrow> u32"

definition slab_capacity :: "string option \<Rightarrow> nat" where
  "slab_capacity variable =
     (case Option.bind variable (parse_unsigned 10 (2 ^ 64)) of
        Some v \<Rightarrow> if v \<ge> 1024 then v else DEFAULT_CAP
      | None \<Rightarrow> DEFAULT_CAP)"

definition ensure_slab :: "record_env \<Rightarrow> recorder \<Rightarrow> (record_error + unit) \<times> recorder" where
  "ensure_slab env s =
     (if rr_slab s \<noteq> None then (Inr (), s)
      else let cap = slab_capacity (re_cap_variable env)
           in if \<not> re_alloc env cap then (Inl (Slab_alloc cap), s)
              else (Inr (), s\<lparr>rr_cap := cap, rr_slab := Some (replicate cap 0, replicate cap event_empty)\<rparr>))"

definition check_spec :: "recorder \<Rightarrow> u32 \<Rightarrow> (u64 \<times> u64) list \<Rightarrow> u32 list \<Rightarrow> bytes \<Rightarrow> record_error option" where
  "check_spec s kinds ranges threads path =
     (if rr_armed s then Some Already_recording
      else if \<not> rr_drain_done s then Some Still_draining
      else if kinds = 0 \<or> kinds AND NOT RECORDABLE_MASK \<noteq> 0 then Some (Bad_kinds kinds)
      else if ranges = [] \<or> length ranges > MAX_RECORD_RANGES then Some Bad_range_count
      else if list_ex (\<lambda>(lo, hi). lo \<ge> hi) ranges then Some Bad_range
      else if length threads > MAX_RECORD_THREADS then Some Too_many_threads
      else if path = [] then Some Empty_path
      else None)"

definition pad :: "nat \<Rightarrow> 'a \<Rightarrow> 'a list \<Rightarrow> 'a list" where
  "pad n x xs = take n xs @ replicate (n - length xs) x"

text \<open>The reset of a session, from the counters to the filter, before the gate opens.\<close>

definition session_reset :: "u32 \<Rightarrow> (u64 \<times> u64) list \<Rightarrow> u32 list \<Rightarrow> recorder \<Rightarrow> recorder" where
  "session_reset kinds ranges threads s =
     (let s = s\<lparr>rr_claim := 0, rr_drained := 0, rr_dropped := 0, rr_written := 0, rr_drain_done := False,
                rr_in_flight := 0, rr_failed := False, rr_started := True\<rparr>;
          s = reset_context_state s;
          s = s\<lparr>rr_slab := map_option (\<lambda>(tags, payloads). (replicate (rr_cap s) 0, payloads)) (rr_slab s)\<rparr>;
          (lo, hi) = fold (\<lambda>(lo1, hi1) (lo, hi). (min lo lo1, max hi hi1)) ranges (- 1, 0)
      in s\<lparr>rr_kinds := ucast kinds, rr_lo := lo, rr_hi := hi,
           rr_ranges := pad MAX_RECORD_RANGES (0, 0) ranges, rr_range_count := length ranges,
           rr_threads := pad MAX_RECORD_THREADS 0 threads, rr_thread_count := length threads\<rparr>)"

text \<open>\<open>stop\<close>: the gate closes and, unless the session was closed, the drainer works while it is awaited.\<close>

definition record_stop :: "(recorder \<Rightarrow> recorder) \<Rightarrow> recorder \<Rightarrow> (u64 \<times> u64) \<times> recorder" where
  "record_stop awaited s =
     (let was_armed = rr_armed s;
          s = s\<lparr>rr_armed := False\<rparr>;
          s = (if was_armed \<or> \<not> rr_drain_done s then awaited s else s)
      in ((rr_written s, rr_dropped s), s))"

fun flush_windows :: "(u64 \<Rightarrow> u64 \<Rightarrow> u32) \<Rightarrow> (u64 \<times> u64) list \<Rightarrow> (u64 \<times> u64 \<times> u32) option" where
  "flush_windows flush_status [] = None"
| "flush_windows flush_status ((lo, hi) # ranges) =
     (if flush_status lo hi \<noteq> PB_OK then Some (lo, hi, flush_status lo hi) else flush_windows flush_status ranges)"

text \<open>What is reserved but unwritten when no drainer could be started counts as dropped.\<close>

definition settle_undrained :: "recorder \<Rightarrow> recorder" where
  "settle_undrained s =
     (if rr_claim s > rr_drained s
      then s\<lparr>rr_dropped := rr_dropped s + (rr_claim s - rr_drained s), rr_drained := rr_claim s\<rparr> else s)"

definition start_spec ::
  "record_env \<Rightarrow> (recorder \<Rightarrow> recorder) \<Rightarrow> u32 \<Rightarrow> (u64 \<times> u64) list \<Rightarrow> u32 list \<Rightarrow> bytes \<Rightarrow> recorder
     \<Rightarrow> (record_error + unit) \<times> recorder" where
  "start_spec env awaited kinds ranges threads path s =
     (case check_spec s kinds ranges threads path of
        Some e \<Rightarrow> (Inl e, s)
      | None \<Rightarrow>
          (case ensure_slab env s of
             (Inl e, s) \<Rightarrow> (Inl e, s)
           | (Inr _, s) \<Rightarrow>
               if \<not> re_create env path then (Inl Create_failed, s)
               else let s = session_reset kinds ranges threads s;
                        s = s\<lparr>rr_armed := True\<rparr>
                    in if re_spawn env \<noteq> PB_OK
                       then let s = s\<lparr>rr_armed := False, rr_failed := True\<rparr>;
                                s = settle_undrained s
                            in (Inl (Spawn_failed (re_spawn env)), s\<lparr>rr_drain_done := True\<rparr>)
                       else let s = s\<lparr>rr_sticky := True\<rparr>
                            in case flush_windows (re_flush env) ranges of
                                 Some (lo, hi, status) \<Rightarrow>
                                   (Inl (Flush_failed lo hi status), snd (record_stop awaited (s\<lparr>rr_failed := True\<rparr>)))
                               | None \<Rightarrow> (Inr (), s)))"

definition record_start ::
  "record_env \<Rightarrow> (recorder \<Rightarrow> recorder) \<Rightarrow> u32 \<Rightarrow> u64 \<Rightarrow> u64 \<Rightarrow> bytes \<Rightarrow> recorder \<Rightarrow> (record_error + unit) \<times> recorder" where
  "record_start env awaited kinds lo hi path = start_spec env awaited kinds [(lo, hi)] [] path"

definition store_ranges :: "nat \<Rightarrow> (u64 \<times> u64) list \<Rightarrow> (u64 \<times> u64) list \<Rightarrow> (u64 \<times> u64) list" where
  "store_ranges start new old = take start old @ new @ drop (start + length new) old"

definition extend_ranges ::
  "record_env \<Rightarrow> (recorder \<Rightarrow> recorder) \<Rightarrow> (u64 \<times> u64) list \<Rightarrow> recorder \<Rightarrow> (record_error + unit) \<times> recorder" where
  "extend_ranges env awaited ranges s =
     (let old_count = rr_range_count s; new_count = old_count + length ranges
      in if \<not> rr_armed s then (Inl Not_recording, s)
         else if ranges = [] \<or> length ranges > MAX_RECORD_RANGES then (Inl Bad_extension_count, s)
         else if list_ex (\<lambda>(lo, hi). lo \<ge> hi) ranges then (Inl Bad_extension_range, s)
         else if new_count > MAX_RECORD_RANGES then (Inl (Too_many_ranges old_count (length ranges)), s)
         else let (lo, hi) = fold (\<lambda>(lo1, hi1) (lo, hi). (min lo lo1, max hi hi1)) ranges (rr_lo s, rr_hi s);
                  s = s\<lparr>rr_ranges := store_ranges old_count ranges (rr_ranges s), rr_lo := lo, rr_hi := hi,
                        rr_range_count := new_count\<rparr>
              in case flush_windows (re_flush env) ranges of
                   Some (lo, hi, status) \<Rightarrow>
                     (Inl (Flush_failed lo hi status), snd (record_stop awaited (s\<lparr>rr_failed := True\<rparr>)))
                 | None \<Rightarrow>
                     (Inr (), snd (record_all (map (\<lambda>(lo, hi). event_empty\<lparr>ev_kind := EVENT_MARKER, ev_address := 0,
                        ev_arg0 := MARKER_SCOPE_ADD, ev_arg1 := lo, ev_arg2 := hi\<rparr>) ranges) s)))"

end
