(* ===== verification/Pb_Tape.thy ===== *)
theory Pb_Tape
  imports Pb_Record
begin

section \<open>The drainer and its file (record.rs)\<close>

text \<open>
  The thread that empties the slab: \<open>drain_main\<close> as a state machine of atomic actions, and the file it
  writes, header, markers, records and run-length encoded repeats. A write either appends its bytes or
  fails; what a failed write leaves on disk is not modelled.
\<close>

subsection \<open>Records\<close>

definition tape_record :: "event \<Rightarrow> event_record" where
  "tape_record e = \<lparr>er_sequence = ev_sequence e, er_kind = ev_kind e, er_thread_id = ev_thread_id e,
     er_address = ev_address e, er_arg0 = ev_arg0 e, er_arg1 = ev_arg1 e, er_arg2 = ev_arg2 e,
     er_arg3 = ev_arg3 e, er_arg4 = ev_arg4 e, er_arg5 = ev_arg5 e, er_arg6 = ev_arg6 e, er_arg7 = ev_arg7 e\<rparr>"

definition tape_marker :: "u64 \<Rightarrow> u64 \<Rightarrow> u64 \<Rightarrow> event" where
  "tape_marker sequence tag v = event_empty\<lparr>ev_sequence := sequence, ev_kind := EVENT_MARKER, ev_address := 0,
     ev_arg0 := tag, ev_arg1 := v\<rparr>"

definition write_record :: "event \<Rightarrow> bytes" where "write_record e = event_encode (tape_record e) []"

definition same_payload :: "event \<Rightarrow> event \<Rightarrow> bool" where
  "same_payload left right \<longleftrightarrow> ev_kind left = ev_kind right \<and> ev_thread_id left = ev_thread_id right
     \<and> ev_address left = ev_address right \<and> ev_arg0 left = ev_arg0 right \<and> ev_arg1 left = ev_arg1 right
     \<and> ev_arg2 left = ev_arg2 right \<and> ev_arg3 left = ev_arg3 right \<and> ev_arg4 left = ev_arg4 right
     \<and> ev_arg5 left = ev_arg5 right \<and> ev_arg6 left = ev_arg6 right \<and> ev_arg7 left = ev_arg7 right"

definition repeat_marker :: "event \<Rightarrow> u64 \<Rightarrow> event" where
  "repeat_marker e count = event_empty\<lparr>ev_sequence := sat_add (ev_sequence e) count, ev_kind := EVENT_REPEAT,
     ev_thread_id := ev_thread_id e, ev_address := ev_address e, ev_arg0 := count, ev_arg1 := ucast (ev_kind e)\<rparr>"

definition run_records :: "event \<Rightarrow> u64 \<Rightarrow> event list" where
  "run_records e count = e # (if count > 0 then [repeat_marker e count] else [])"

definition flush_run :: "event \<Rightarrow> u64 \<Rightarrow> bytes" where
  "flush_run e count = concat (map write_record (run_records e count))"

subsection \<open>The header\<close>

record drain_args =
  da_kinds :: u32
  da_lo :: u64
  da_hi :: u64
  da_ranges :: "(u64 \<times> u64) list"
  da_threads :: "u32 list"

text \<open>A loaded image as Pin's image walk shows it; \<open>im_name\<close> is None when the name call fails.\<close>

record image =
  im_low :: u64
  im_high :: u64
  im_main :: bool
  im_name :: "string option"

definition file_name :: "string \<Rightarrow> string" where
  "file_name path = rev (takeWhile (\<lambda>c. c \<noteq> CHR 0x5C \<and> c \<noteq> CHR ''/'') (rev path))"

definition main_module_name :: "image list \<Rightarrow> string" where
  "main_module_name images =
     (case List.find im_main images of
        None \<Rightarrow> [] | Some img \<Rightarrow> (case im_name img of None \<Rightarrow> [] | Some path \<Rightarrow> file_name path))"

definition scoped_modules :: "(u64 \<times> u64) list \<Rightarrow> image list \<Rightarrow> image list" where
  "scoped_modules ranges images =
     take 512 (filter (\<lambda>img. list_ex (\<lambda>(lo, hi). lo < im_high img \<and> hi > im_low img) ranges) images)"

definition json_escape :: "string \<Rightarrow> string" where
  "json_escape s = replace_text [CHR 0x22] [CHR 0x5C, CHR 0x22] (replace_text [CHR 0x5C] [CHR 0x5C, CHR 0x5C] s)"

text \<open>\<open>civil_from_days\<close> on the days since 1970 (of a \<open>u64\<close> count of seconds).\<close>

definition civil_from_days :: "int \<Rightarrow> int \<times> int \<times> int" where
  "civil_from_days days =
     (let z = days + 719468;
          era = (if z \<ge> 0 then z else z - 146096) div 146097;
          doe = z - era * 146097;
          yoe = (doe - doe div 1460 + doe div 36524 - doe div 146096) div 365;
          y = yoe + era * 400;
          doy = doe - (365 * yoe + yoe div 4 - yoe div 100);
          mp = (5 * doy + 2) div 153;
          d = doy - (153 * mp + 2) div 5 + 1;
          m = (if mp < 10 then mp + 3 else mp - 9);
          y = (if m \<le> 2 then y + 1 else y)
      in (y, m, d))"

definition pad_number :: "nat \<Rightarrow> nat \<Rightarrow> string" where
  "pad_number width n = replicate (width - length (show_nat n)) (CHR ''0'') @ show_nat n"

definition iso8601 :: "u64 \<Rightarrow> string" where
  "iso8601 secs =
     (let day_secs = unat secs mod 86400; (y, m, d) = civil_from_days (int (unat secs div 86400))
      in pad_number 4 (nat y) @ ''-'' @ pad_number 2 (nat m) @ ''-'' @ pad_number 2 (nat d) @ ''T''
           @ pad_number 2 (day_secs div 3600) @ '':'' @ pad_number 2 ((day_secs div 60) mod 60) @ '':''
           @ pad_number 2 (day_secs mod 60) @ ''Z'')"

definition show_word :: "'a::len word \<Rightarrow> string" where "show_word w = show_nat (unat w)"

definition quoted :: "string \<Rightarrow> string" where "quoted s = [CHR 0x22] @ s @ [CHR 0x22]"

definition json_field :: "string \<Rightarrow> string \<Rightarrow> string" where
  "json_field name v = quoted name @ '':'' @ v"

definition module_json :: "image \<Rightarrow> string" where
  "module_json img = ''{'' @ join_with '','' [json_field ''base'' (show_word (im_low img)),
     json_field ''end'' (show_word (im_high img)),
     json_field ''is_main'' (if im_main img then ''true'' else ''false''),
     json_field ''name'' (quoted (json_escape (case im_name img of None \<Rightarrow> [] | Some n \<Rightarrow> n)))] @ ''}''"

definition drain_meta :: "u32 \<Rightarrow> u64 \<Rightarrow> image list \<Rightarrow> drain_args \<Rightarrow> string" where
  "drain_meta width secs images args =
     (let kinds = filter (\<lambda>k. da_kinds args AND push_bit k 1 \<noteq> 0) [0..<32];
          list = (\<lambda>xs. ''['' @ join_with '','' xs @ '']'')
      in ''{'' @ join_with '',''
           [json_field ''target'' (quoted (json_escape (main_module_name images))),
            json_field ''created'' (quoted (iso8601 secs)),
            json_field ''kinds'' (list (map show_nat kinds)),
            json_field ''agent'' (quoted ''pinbridge-agent''),
            json_field ''arch'' (quoted (arch_name width)),
            json_field ''pointer_width'' (show_word width),
            json_field ''format'' (''{'' @ join_with '','' [json_field ''version'' ''1'', json_field ''repeat_kind'' ''12'',
              json_field ''repeat_encoding'' (quoted ''rle''), json_field ''reg_snapshot_kind'' ''13''] @ ''}''),
            json_field ''modules'' (list (map module_json (scoped_modules (da_ranges args) images))),
            json_field ''ranges'' (list (map (\<lambda>(lo, hi). ''['' @ show_word lo @ '','' @ show_word hi @ '']'') (da_ranges args))),
            json_field ''threads'' (list (map show_word (da_threads args))),
            json_field ''note'' (quoted (''window ['' @ show_hex (unat (da_lo args)) @ '','' @ show_hex (unat (da_hi args))
              @ ''); exact multi-range/thread filtering is applied before ring claim; skip unknown kinds, tolerate truncated tail''))]
         @ ''}'')"

definition tape_header :: "bytes \<Rightarrow> bytes" where
  "tape_header meta = map of_char ''PBTR'' @ le_u32 1 @ le_u32 (word_of_nat (length meta)) @ le_u32 0 @ meta"

subsection \<open>The drainer, one atomic action at a time\<close>

record drain =
  dn_next :: u64
  dn_pending :: "event option"
  dn_repeats :: u64
  dn_out :: bytes

definition drain_new :: drain where
  "drain_new = \<lparr>dn_next = 0, dn_pending = None, dn_repeats = 0, dn_out = []\<rparr>"

datatype drain_phase =
    Opening | Starting | At_top | Have_claim u64 | Slot_ready | Advancing | Slot_missing | Missing_stopped
  | Caught_up | Caught_up_stopped | Finishing | Io_failed | Io_waiting | Io_settling | Closing
  | Fail_waiting | Fail_settling | Releasing | Closed

text \<open>An event joins the pending run or, when it does not continue it, the run is written out.\<close>

definition absorb :: "bool \<Rightarrow> event \<Rightarrow> drain \<Rightarrow> drain option" where
  "absorb write_ok e d =
     (case dn_pending d of
        None \<Rightarrow> Some (d\<lparr>dn_pending := Some e\<rparr>)
      | Some previous \<Rightarrow>
          if sat_add (sat_add (ev_sequence previous) (dn_repeats d)) 1 = ev_sequence e \<and> same_payload previous e
          then Some (d\<lparr>dn_repeats := sat_add (dn_repeats d) 1\<rparr>)
          else if \<not> write_ok then None
          else Some (d\<lparr>dn_out := dn_out d @ flush_run previous (dn_repeats d), dn_pending := Some e, dn_repeats := 0\<rparr>))"

definition slab_tag :: "recorder \<Rightarrow> nat \<Rightarrow> u64" where
  "slab_tag s slot = (case rr_slab s of None \<Rightarrow> 0 | Some (tags, _) \<Rightarrow> tags ! slot)"

definition slab_event :: "recorder \<Rightarrow> nat \<Rightarrow> event" where
  "slab_event s slot = (case rr_slab s of None \<Rightarrow> event_empty | Some (_, payloads) \<Rightarrow> payloads ! slot)"

text \<open>
  \<open>write_ok\<close> says whether the write of this action succeeds, \<open>kinds\<close> and \<open>header\<close> are those of the
  session. A sleep leads back to the load it precedes.
\<close>

fun drain_action :: "u32 \<Rightarrow> bytes \<Rightarrow> bool \<Rightarrow> drain_phase \<times> drain \<times> recorder \<Rightarrow> drain_phase \<times> drain \<times> recorder" where
  "drain_action kinds header write_ok (Opening, d, s) =
     (if write_ok then (Starting, d\<lparr>dn_out := dn_out d @ header\<rparr>, s)
      else (Fail_waiting, d, s\<lparr>rr_failed := True, rr_armed := False\<rparr>))"
| "drain_action kinds header write_ok (Starting, d, s) =
     (if write_ok then (At_top, d\<lparr>dn_out := dn_out d @ write_record (tape_marker 0 MARKER_START (ucast kinds))\<rparr>, s)
      else (Fail_waiting, d, s\<lparr>rr_failed := True, rr_armed := False\<rparr>))"
| "drain_action kinds header write_ok (At_top, d, s) = (Have_claim (rr_claim s), d, s)"
| "drain_action kinds header write_ok (Have_claim claim, d, s) =
     (if dn_next d < claim
      then (if slab_tag s (claim_slot s (dn_next d)) = dn_next d + 1 then Slot_ready else Slot_missing, d, s)
      else (Caught_up, d, s))"
| "drain_action kinds header write_ok (Slot_ready, d, s) =
     (case absorb write_ok (slab_event s (claim_slot s (dn_next d))) d of
        None \<Rightarrow> (Io_failed, d, s\<lparr>rr_armed := False\<rparr>)
      | Some d \<Rightarrow> (Advancing, d, s\<lparr>rr_written := rr_written s + 1\<rparr>))"
| "drain_action kinds header write_ok (Advancing, d, s) =
     (At_top, d\<lparr>dn_next := dn_next d + 1\<rparr>, s\<lparr>rr_drained := dn_next d + 1\<rparr>)"
| "drain_action kinds header write_ok (Slot_missing, d, s) = (if rr_armed s then At_top else Missing_stopped, d, s)"
| "drain_action kinds header write_ok (Missing_stopped, d, s) =
     (if rr_in_flight s = 0
      then (At_top, d\<lparr>dn_next := dn_next d + 1\<rparr>,
            s\<lparr>rr_failed := True, rr_dropped := rr_dropped s + 1, rr_drained := dn_next d + 1\<rparr>)
      else (At_top, d, s))"
| "drain_action kinds header write_ok (Caught_up, d, s) = (if rr_armed s then At_top else Caught_up_stopped, d, s)"
| "drain_action kinds header write_ok (Caught_up_stopped, d, s) =
     (if rr_in_flight s = 0 then Finishing else At_top, d, s)"
| "drain_action kinds header write_ok (Finishing, d, s) =
     (case dn_pending d of
        None \<Rightarrow> (Closing, d, s)
      | Some previous \<Rightarrow>
          if write_ok then (Closing, d\<lparr>dn_out := dn_out d @ flush_run previous (dn_repeats d)\<rparr>, s)
          else (Io_failed, d, s))"
| "drain_action kinds header write_ok (Io_failed, d, s) = (Io_waiting, d, s\<lparr>rr_failed := True\<rparr>)"
| "drain_action kinds header write_ok (Io_waiting, d, s) = (if rr_in_flight s = 0 then Io_settling else Io_waiting, d, s)"
| "drain_action kinds header write_ok (Io_settling, d, s) =
     (Closing, d, if rr_claim s > dn_next d
        then s\<lparr>rr_dropped := rr_dropped s + (rr_claim s - dn_next d), rr_drained := rr_claim s\<rparr> else s)"
| "drain_action kinds header write_ok (Closing, d, s) =
     (if write_ok
      then (Releasing, d\<lparr>dn_out := dn_out d @ write_record (tape_marker (dn_next d + 1) MARKER_STOP (rr_written s))\<rparr>, s)
      else (Releasing, d, s\<lparr>rr_failed := True\<rparr>))"
| "drain_action kinds header write_ok (Fail_waiting, d, s) =
     (if rr_in_flight s = 0 then Fail_settling else Fail_waiting, d, s)"
| "drain_action kinds header write_ok (Fail_settling, d, s) = (Releasing, d, settle_undrained s)"
| "drain_action kinds header write_ok (Releasing, d, s) = (Closed, d, s\<lparr>rr_drain_done := True\<rparr>)"
| "drain_action kinds header write_ok (Closed, d, s) = (Closed, d, s)"

end
