(* ===== verification/Pb_Record_Protocol.thy ===== *)
theory Pb_Record_Protocol
  imports Pb_Tape
begin

section \<open>Producers and the drainer, interleaved (record.rs)\<close>

text \<open>
  One session of the recorder: any number of threads inside \<open>submit\<close>, the drainer, and the query thread
  that may stop it, one atomic action at a time in any order. \<open>sy_log\<close> and \<open>sy_taken\<close> are history, read by
  the statements only: the events that were given a sequence number, in that order, and those the
  drainer took. Atomic accesses are taken as sequentially consistent.
\<close>

record rec_system =
  sy_rec :: recorder
  sy_producers :: "nat \<Rightarrow> producer"
  sy_phase :: drain_phase
  sy_drain :: drain
  sy_log :: "event list"
  sy_taken :: "event list"

definition session_begin :: "recorder \<Rightarrow> rec_system" where
  "session_begin s = \<lparr>sy_rec = s, sy_producers = (\<lambda>_. Outside), sy_phase = Opening, sy_drain = drain_new,
     sy_log = [], sy_taken = []\<rparr>"

text \<open>The history a producer's action adds: the event it got a claim for.\<close>

fun newly_reserved :: "producer \<Rightarrow> producer \<Rightarrow> event list" where
  "newly_reserved (Reserving _ _) (Reserved e claim) = [e\<lparr>ev_sequence := claim + 1\<rparr>]"
| "newly_reserved _ _ = []"

definition newly_taken :: "rec_system \<Rightarrow> drain_phase \<Rightarrow> event list" where
  "newly_taken S phase =
     (if sy_phase S = Slot_ready \<and> phase = Advancing
      then [slab_event (sy_rec S) (claim_slot (sy_rec S) (dn_next (sy_drain S)))] else [])"

definition enter :: "nat \<Rightarrow> event \<Rightarrow> rec_system \<Rightarrow> rec_system" where
  "enter t e S = S\<lparr>sy_producers := (sy_producers S)(t := Entered e)\<rparr>"

definition produce :: "nat \<Rightarrow> bool \<Rightarrow> rec_system \<Rightarrow> rec_system" where
  "produce t spurious S =
     (case producer_action spurious (sy_producers S t) (sy_rec S) of
        (p, s) \<Rightarrow> S\<lparr>sy_rec := s, sy_producers := (sy_producers S)(t := p),
                     sy_log := sy_log S @ newly_reserved (sy_producers S t) p\<rparr>)"

definition drain_once :: "u32 \<Rightarrow> bytes \<Rightarrow> bool \<Rightarrow> rec_system \<Rightarrow> rec_system" where
  "drain_once kinds header write_ok S =
     (case drain_action kinds header write_ok (sy_phase S, sy_drain S, sy_rec S) of
        (phase, d, s) \<Rightarrow> S\<lparr>sy_rec := s, sy_phase := phase, sy_drain := d, sy_taken := sy_taken S @ newly_taken S phase\<rparr>)"

definition disarm :: "rec_system \<Rightarrow> rec_system" where
  "disarm S = S\<lparr>sy_rec := (sy_rec S)\<lparr>rr_armed := False\<rparr>\<rparr>"

inductive record_step :: "nat \<Rightarrow> u32 \<Rightarrow> bytes \<Rightarrow> rec_system \<Rightarrow> rec_system \<Rightarrow> bool" for threads kinds header where
  step_enter: "t < threads \<Longrightarrow> sy_producers S t = Outside \<Longrightarrow> may_enter (sy_rec S) \<Longrightarrow>
    record_step threads kinds header S (enter t e S)"
| step_produce: "t < threads \<Longrightarrow> record_step threads kinds header S (produce t spurious S)"
| step_drain: "record_step threads kinds header S (drain_once kinds header write_ok S)"
| step_stop: "record_step threads kinds header S (disarm S)"

definition session_ready :: "recorder \<Rightarrow> bool" where
  "session_ready s \<longleftrightarrow> (\<exists>payloads. rr_slab s = Some (replicate (rr_cap s) 0, payloads) \<and> length payloads = rr_cap s)
     \<and> 0 < rr_cap s \<and> rr_cap s < 2 ^ 62
     \<and> rr_claim s = 0 \<and> rr_drained s = 0 \<and> rr_written s = 0 \<and> rr_in_flight s = 0 \<and> \<not> rr_failed s \<and> rr_armed s
     \<and> rr_dropped s = 0"

inductive record_reachable :: "nat \<Rightarrow> u32 \<Rightarrow> bytes \<Rightarrow> recorder \<Rightarrow> rec_system \<Rightarrow> bool"
  for threads kinds header s where
  start: "record_reachable threads kinds header s (session_begin s)"
| step: "record_reachable threads kinds header s S \<Longrightarrow> record_step threads kinds header S S' \<Longrightarrow>
    record_reachable threads kinds header s S'"

inductive_cases record_stepE: "record_step threads kinds header S S'"

subsection \<open>The invariant\<close>

fun owned :: "producer \<Rightarrow> u64 option" where
  "owned (Reserved e c) = Some c"
| "owned (Written e c) = Some c"
| "owned _ = None"

fun active :: "producer \<Rightarrow> bool" where
  "active Outside = False"
| "active (Entered e) = False"
| "active _ = True"

text \<open>The claim's payload and tag are in its slot.\<close>

definition published :: "recorder \<Rightarrow> event list \<Rightarrow> nat \<Rightarrow> bool" where
  "published r log i \<longleftrightarrow> slab_tag r (i mod rr_cap r) = word_of_nat (Suc i) \<and> slab_event r (i mod rr_cap r) = log ! i"

definition slab_ok :: "recorder \<Rightarrow> event list \<Rightarrow> bool" where
  "slab_ok r log \<longleftrightarrow> (\<exists>tags payloads. rr_slab r = Some (tags, payloads) \<and> length tags = rr_cap r \<and> length payloads = rr_cap r)
     \<and> 0 < rr_cap r \<and> rr_cap r < 2 ^ 62 \<and> rr_claim r = word_of_nat (length log)
     \<and> unat (rr_drained r) \<le> length log \<and> length log \<le> unat (rr_drained r) + rr_cap r
     \<and> (\<forall>slot < rr_cap r. unat (slab_tag r slot) \<le> length log)
     \<and> (\<forall>i < length log. ev_sequence (log ! i) = word_of_nat (Suc i))"

definition owner_ok :: "recorder \<Rightarrow> event list \<Rightarrow> event \<Rightarrow> u64 \<Rightarrow> bool" where
  "owner_ok r log e c \<longleftrightarrow> unat (rr_drained r) \<le> unat c \<and> unat c < length log \<and> log ! unat c = e\<lparr>ev_sequence := c + 1\<rparr>
     \<and> slab_tag r (unat c mod rr_cap r) \<noteq> c + 1"

fun producer_ok :: "recorder \<Rightarrow> event list \<Rightarrow> producer \<Rightarrow> bool" where
  "producer_ok r log (Loaded e c) = (unat c \<le> length log)"
| "producer_ok r log (Reserving e c) = (unat c \<le> length log \<and> unat c < unat (rr_drained r) + rr_cap r)"
| "producer_ok r log (Reserved e c) = owner_ok r log e c"
| "producer_ok r log (Written e c) = (owner_ok r log e c \<and> slab_event r (unat c mod rr_cap r) = log ! unat c)"
| "producer_ok r log _ = True"

definition owners_ok :: "recorder \<Rightarrow> event list \<Rightarrow> (nat \<Rightarrow> producer) \<Rightarrow> bool" where
  "owners_ok r log P \<longleftrightarrow> (\<forall>t. producer_ok r log (P t))
     \<and> (\<forall>t t' c. owned (P t) = Some c \<longrightarrow> owned (P t') = Some c \<longrightarrow> t = t')
     \<and> (\<forall>i. unat (rr_drained r) \<le> i \<longrightarrow> i < length log \<longrightarrow> published r log i \<or> (\<exists>t. owned (P t) = Some (word_of_nat i)))"

subsection \<open>What each action does to it\<close>

definition same_core :: "recorder \<Rightarrow> recorder \<Rightarrow> bool" where
  "same_core r r' \<longleftrightarrow> rr_slab r' = rr_slab r \<and> rr_cap r' = rr_cap r \<and> rr_claim r' = rr_claim r \<and> rr_drained r' = rr_drained r"

lemma same_core_tag: "same_core r r' \<Longrightarrow> slab_tag r' = slab_tag r \<and> slab_event r' = slab_event r"
  by (simp add: same_core_def slab_tag_def slab_event_def fun_eq_iff)

lemma same_core_slab: "same_core r r' \<Longrightarrow> slab_ok r log \<Longrightarrow> slab_ok r' log"
  by (frule same_core_tag) (simp add: slab_ok_def same_core_def)

lemma same_core_producer: "same_core r r' \<Longrightarrow> producer_ok r' log p = producer_ok r log p"
  by (frule same_core_tag) (cases p; simp add: same_core_def owner_ok_def)

lemma same_core_owners:
  assumes "same_core r r'" "owners_ok r log P" "owned p = owned (P t)" "producer_ok r log p"
  shows "owners_ok r' log (P(t := p))"
proof -
  have own: "owned ((P(t := p)) u) = owned (P u)" for u using assms(3) by simp
  have "published r' log i = published r log i" for i
    using same_core_tag [OF assms(1)] assms(1) by (simp add: published_def same_core_def)
  moreover have "rr_drained r' = rr_drained r" using assms(1) by (simp add: same_core_def)
  moreover have "producer_ok r' log ((P(t := p)) u)" for u
    using assms(2,4) by (simp add: owners_ok_def same_core_producer [OF assms(1)])
  ultimately show ?thesis using assms(2) unfolding owners_ok_def own by simp
qed

lemma small_nat: "n < 2 ^ 62 \<Longrightarrow> unat (word_of_nat n :: u64) = n"
  by (simp add: unat_of_nat)

lemma small_Suc: "n < 2 ^ 62 \<Longrightarrow> unat (word_of_nat (Suc n) :: u64) = Suc n"
  by (subst unat_of_nat) simp

lemma word_nat: "unat (c :: u64) = n \<Longrightarrow> c = word_of_nat n"
  by auto

lemma other_slot:
  fixes i j :: nat
  assumes "d \<le> i" "i < d + cap" "d \<le> j" "j < d + cap" "i \<noteq> j"
  shows "i mod cap \<noteq> j mod cap"
proof
  assume eq: "i mod cap = j mod cap"
  have "cap dvd (if i < j then j - i else i - j)"
    using eq assms(5) by (metis mod_eq_dvd_iff_nat nat_le_linear not_less order_le_imp_less_or_eq)
  moreover have "0 < (if i < j then j - i else i - j)" "(if i < j then j - i else i - j) < cap"
    using assms by auto
  ultimately show False by (meson nat_dvd_not_less)
qed


lemma reserve_ok:
  assumes slab: "slab_ok r log" and own: "owners_ok r log P" and p: "P t = Reserving e c"
    and claim: "rr_claim r = c" and small: "length log < 2 ^ 62"
  defines "r' \<equiv> r\<lparr>rr_claim := c + 1\<rparr>" and "log' \<equiv> log @ [e\<lparr>ev_sequence := c + 1\<rparr>]"
  shows "slab_ok r' log'" and "owners_ok r' log' (P(t := Reserved e c))"
    and "published r log i \<Longrightarrow> i < length log \<Longrightarrow> published r' log' i"
proof -
  let ?L = "length log" and ?D = "unat (rr_drained r)"
  have c: "c = word_of_nat ?L" using slab claim by (simp add: slab_ok_def)
  then have uc: "unat c = ?L" using small_nat [OF small] by simp
  have tags: "slab_tag r' = slab_tag r" "slab_event r' = slab_event r" "rr_cap r' = rr_cap r" "rr_drained r' = rr_drained r"
    by (simp_all add: r'_def slab_tag_def slab_event_def fun_eq_iff)
  have pok: "producer_ok r log (P u)" for u using own by (simp add: owners_ok_def)
  have room: "?L < ?D + rr_cap r" using pok [of t] p uc by simp
  have c1: "c + 1 = word_of_nat (Suc ?L)" by (simp add: c)
  have u1: "unat (c + 1) = Suc ?L" unfolding c1 by (rule small_Suc [OF small])
  show "slab_ok r' log'"
    using slab room unfolding slab_ok_def tags
    by (auto simp: r'_def log'_def c nth_append less_Suc_eq le_SucI)
  have old_tag: "slab_tag r (?L mod rr_cap r) \<noteq> c + 1"
  proof
    assume "slab_tag r (?L mod rr_cap r) = c + 1"
    moreover have "unat (slab_tag r (?L mod rr_cap r)) \<le> ?L" using slab by (simp add: slab_ok_def)
    ultimately show False using u1 by simp
  qed
  have "owner_ok r' log' e c"
    using slab old_tag by (simp add: owner_ok_def tags uc log'_def slab_ok_def)
  moreover have "producer_ok r' log' (P u)" for u
    using pok [of u] by (cases "P u") (auto simp: owner_ok_def tags log'_def nth_append)
  moreover have fresh: "owned (P u) \<noteq> Some c" for u
  proof
    assume "owned (P u) = Some c"
    then have "unat c < ?L" using pok [of u] by (cases "P u") (auto simp: owner_ok_def)
    then show False by (simp add: uc)
  qed
  moreover show pub: "published r' log' i" if "published r log i" "i < ?L" for i
    using that by (simp add: published_def tags log'_def nth_append)
  moreover have "?D \<le> i \<Longrightarrow> i < ?L \<Longrightarrow> published r log i \<or> (\<exists>u. u \<noteq> t \<and> owned (P u) = Some (word_of_nat i))" for i
    using own p unfolding owners_ok_def by (metis option.distinct(1) owned.simps(8))
  ultimately show "owners_ok r' log' (P(t := Reserved e c))"
    using own unfolding owners_ok_def tags
    by (auto simp: log'_def less_Suc_eq c split: if_splits; metis)
qed


lemma slab_writes:
  assumes "slab_ok r log" "slot < rr_cap r"
  shows "slab_tag (payload_write slot e r) = slab_tag r"
    and "slab_event (payload_write slot e r) = (slab_event r)(slot := e)"
    and "slab_tag (tag_store slot v r) = (slab_tag r)(slot := v)"
    and "slab_event (tag_store slot v r) = slab_event r"
  using assms by (auto simp: slab_ok_def slab_tag_def slab_event_def payload_write_def tag_store_def fun_eq_iff
      split: option.splits)

lemma writes_frame [simp]:
  "rr_cap (payload_write slot e r) = rr_cap r" "rr_drained (payload_write slot e r) = rr_drained r"
  "rr_claim (payload_write slot e r) = rr_claim r"
  "rr_cap (tag_store slot v r) = rr_cap r" "rr_drained (tag_store slot v r) = rr_drained r"
  "rr_claim (tag_store slot v r) = rr_claim r"
  by (simp_all add: payload_write_def tag_store_def)

lemma slab_ok_payload: "slab_ok r log \<Longrightarrow> slot < rr_cap r \<Longrightarrow> slab_ok (payload_write slot e r) log"
  by (frule slab_writes(1) [where e = e]) (auto simp: slab_ok_def payload_write_def)

lemma slab_ok_tag:
  "slab_ok r log \<Longrightarrow> slot < rr_cap r \<Longrightarrow> unat v \<le> length log \<Longrightarrow> slab_ok (tag_store slot v r) log"
  by (frule slab_writes(3) [where v = v]) (auto simp: slab_ok_def tag_store_def)

text \<open>Two claims that are not yet drained have different slots.\<close>

lemma owner_slot:
  assumes "slab_ok r log" "owner_ok r log e c" "unat (rr_drained r) \<le> i" "i < length log" "i \<noteq> unat c"
  shows "i mod rr_cap r \<noteq> unat c mod rr_cap r"
  using assms by (intro other_slot [of "unat (rr_drained r)"]) (auto simp: slab_ok_def owner_ok_def)

lemma other_owner:
  assumes "owners_ok r log P" "owned (P t) = Some c" "u \<noteq> t" "owned (P u) = Some c'"
  shows "unat c' \<noteq> unat c"
  using assms unfolding owners_ok_def by (metis word_unat_eq_iff)

lemma owned_ok: "producer_ok r log p \<Longrightarrow> owned p = Some c \<Longrightarrow> \<exists>e. owner_ok r log e c"
  by (cases p) auto

lemma payload_ok:
  assumes slab: "slab_ok r log" and own: "owners_ok r log P" and p: "P t = Reserved e c"
  defines "r' \<equiv> payload_write (claim_slot r c) (e\<lparr>ev_sequence := c + 1\<rparr>) r"
  shows "slab_ok r' log" and "owners_ok r' log (P(t := Written e c))"
    and "published r log i \<Longrightarrow> unat (rr_drained r) \<le> i \<Longrightarrow> i < length log \<Longrightarrow> published r' log i"
proof -
  have slot: "claim_slot r c < rr_cap r" using slab by (simp add: claim_slot_def slab_ok_def)
  have pok: "producer_ok r log (P u)" for u using own by (simp add: owners_ok_def)
  have ok: "owner_ok r log e c" using pok [of t] p by simp
  have frame: "slab_tag r' = slab_tag r" "slab_event r' = (slab_event r)(unat c mod rr_cap r := e\<lparr>ev_sequence := c + 1\<rparr>)"
      "rr_cap r' = rr_cap r" "rr_drained r' = rr_drained r"
    using slab_writes(1,2) [OF slab slot] by (simp_all add: r'_def claim_slot_def)
  show "slab_ok r' log" unfolding r'_def by (rule slab_ok_payload [OF slab slot])
  have elsewhere: "slab_event r' (i mod rr_cap r) = slab_event r (i mod rr_cap r)"
    if "unat (rr_drained r) \<le> i" "i < length log" "i \<noteq> unat c" for i
    using owner_slot [OF slab ok that] by (simp add: frame)
  have mine: "owner_ok r' log e c \<and> slab_event r' (unat c mod rr_cap r') = log ! unat c"
    using ok by (simp add: owner_ok_def frame)
  have others: "producer_ok r' log (P u)" if "u \<noteq> t" for u
    using pok [of u] other_owner [OF own _ that, of c] elsewhere p
    by (cases "P u") (auto simp: owner_ok_def frame)
  show pub: "published r' log i" if "published r log i" "unat (rr_drained r) \<le> i" "i < length log" for i
  proof (cases "i = unat c")
    case True
    then show ?thesis using that(1) ok by (simp add: published_def owner_ok_def)
  next
    case False
    then show ?thesis using that elsewhere by (simp add: published_def frame)
  qed
  have same: "owned ((P(t := Written e c)) u) = owned (P u)" for u using p by simp
  have all: "producer_ok r' log ((P(t := Written e c)) u)" for u using mine others by simp
  show "owners_ok r' log (P(t := Written e c))"
    using own all pub unfolding owners_ok_def same frame(4) by blast
qed

lemma publish_ok:
  assumes slab: "slab_ok r log" and own: "owners_ok r log P" and p: "P t = Written e c" and small: "length log < 2 ^ 62"
  defines "r' \<equiv> tag_store (claim_slot r c) (c + 1) r"
  shows "slab_ok r' log" and "owners_ok r' log (P(t := Leaving e True))"
    and "published r log i \<Longrightarrow> unat (rr_drained r) \<le> i \<Longrightarrow> i < length log \<Longrightarrow> published r' log i"
proof -
  have slot: "claim_slot r c < rr_cap r" using slab by (simp add: claim_slot_def slab_ok_def)
  have pok: "producer_ok r log (P u)" for u using own by (simp add: owners_ok_def)
  have ok: "owner_ok r log e c" and payload: "slab_event r (unat c mod rr_cap r) = log ! unat c"
    using pok [of t] p by simp_all
  have frame: "slab_tag r' = (slab_tag r)(unat c mod rr_cap r := c + 1)" "slab_event r' = slab_event r"
      "rr_cap r' = rr_cap r" "rr_drained r' = rr_drained r"
    using slab_writes(3,4) [OF slab slot] by (simp_all add: r'_def claim_slot_def)
  have c1: "c + 1 = word_of_nat (Suc (unat c))" by simp
  have "unat c < 2 ^ 62" using ok small by (simp add: owner_ok_def)
  then have "unat (c + 1) = Suc (unat c)" unfolding c1 by (rule small_Suc)
  then have "unat (c + 1) \<le> length log" using ok by (simp add: owner_ok_def)
  then show "slab_ok r' log" unfolding r'_def by (rule slab_ok_tag [OF slab slot])
  have others: "producer_ok r' log (P u)" if "u \<noteq> t" for u
  proof (cases "owned (P u)")
    case None
    then show ?thesis using pok [of u] by (cases "P u") (auto simp: frame)
  next
    case (Some c')
    have "unat c' \<noteq> unat c" using other_owner [OF own _ that Some, of c] p by simp
    moreover have "unat (rr_drained r) \<le> unat c'" "unat c' < length log"
      using owned_ok [OF pok Some] by (auto simp: owner_ok_def)
    ultimately have "unat c' mod rr_cap r \<noteq> unat c mod rr_cap r" by (intro owner_slot [OF slab ok])
    then show ?thesis using pok [of u] Some by (cases "P u") (auto simp: owner_ok_def frame)
  qed
  have pub: "published r' log i" if "published r log i \<or> i = unat c" "unat (rr_drained r) \<le> i" "i < length log" for i
  proof (cases "i = unat c")
    case True
    then show ?thesis using payload by (simp add: published_def frame)
  next
    case False
    then show ?thesis using that owner_slot [OF slab ok that(2,3) False] by (simp add: published_def frame)
  qed
  then show "published r log i \<Longrightarrow> unat (rr_drained r) \<le> i \<Longrightarrow> i < length log \<Longrightarrow> published r' log i" for i
    by blast
  show "owners_ok r' log (P(t := Leaving e True))"
    unfolding owners_ok_def frame
  proof (intro conjI allI impI)
    fix i assume i: "unat (rr_drained r) \<le> i" "i < length log"
    consider "published r log i" | u where "owned (P u) = Some (word_of_nat i)"
      using own i unfolding owners_ok_def by blast
    then show "published r' log i \<or> (\<exists>u. owned ((P(t := Leaving e True)) u) = Some (word_of_nat i))"
    proof cases
      case 2
      have "i < 2 ^ 62" using i small by simp
      then show ?thesis using 2 p pub [of i] i small_nat [of i] by (cases "u = t") auto
    qed (use pub i in blast)
  next
    fix u u' c' assume "owned ((P(t := Leaving e True)) u) = Some c'" "owned ((P(t := Leaving e True)) u') = Some c'"
    then show "u = u'" using own unfolding owners_ok_def by (auto split: if_splits)
  qed (use others in simp)
qed


lemma drained_ok:
  assumes slab: "slab_ok r log" and own: "owners_ok r log P" and d: "unat d = Suc (unat (rr_drained r))"
    and less: "unat (rr_drained r) < length log"
    and free: "published r log (unat (rr_drained r)) \<or> (\<forall>t. owned (P t) = None)"
  defines "r' \<equiv> r\<lparr>rr_drained := d\<rparr>"
  shows "slab_ok r' log" and "owners_ok r' log P"
    and "published r' log i = published r log i"
proof -
  have frame: "slab_tag r' = slab_tag r" "slab_event r' = slab_event r" "rr_cap r' = rr_cap r" "rr_drained r' = d"
    by (simp_all add: r'_def slab_tag_def slab_event_def fun_eq_iff)
  show pub: "published r' log i = published r log i" for i by (simp add: published_def frame)
  show "slab_ok r' log" using slab d less unfolding slab_ok_def frame by (simp add: r'_def)
  have later: "unat (rr_drained r) < unat c" if holds: "owned (P t) = Some c" for t c
  proof -
    obtain e where ok: "owner_ok r log e c" using owned_ok [of r log "P t" c] own holds by (auto simp: owners_ok_def)
    have "unat c \<noteq> unat (rr_drained r)"
    proof
      assume eq: "unat c = unat (rr_drained r)"
      then have "published r log (unat c)" using free holds by auto
      then show False using ok by (simp add: published_def owner_ok_def)
    qed
    then show ?thesis using ok by (simp add: owner_ok_def)
  qed
  have "producer_ok r' log (P t)" for t
  proof (cases "owned (P t)")
    case None
    have "producer_ok r log (P t)" using own by (simp add: owners_ok_def)
    then show ?thesis using None d by (cases "P t") (auto simp: frame)
  next
    case (Some c)
    have "producer_ok r log (P t)" using own by (simp add: owners_ok_def)
    then show ?thesis using Some later [OF Some] d by (cases "P t") (auto simp: owner_ok_def frame)
  qed
  then show "owners_ok r' log P" using own d unfolding owners_ok_def pub by (simp add: frame)
qed

fun inside :: "producer \<Rightarrow> bool" where
  "inside (Gated e) = True"
| "inside (Loaded e c) = True"
| "inside (Reserving e c) = True"
| "inside (Full e) = True"
| "inside (Reserved e c) = True"
| "inside (Written e c) = True"
| "inside _ = False"

definition quiet :: "recorder \<Rightarrow> (nat \<Rightarrow> producer) \<Rightarrow> bool" where
  "quiet r P \<longleftrightarrow> \<not> rr_armed r \<and> (\<forall>t. \<not> inside (P t))"

lemma not_inside: "\<not> inside p \<Longrightarrow> owned p = None \<and> producer_ok r log p"
  by (cases p) auto

lemma settled_ok:
  assumes "slab_ok r log" "quiet r P" "same_core (r\<lparr>rr_drained := rr_claim r\<rparr>) r'" "length log < 2 ^ 62"
  shows "slab_ok r' log" and "owners_ok r' log P"
proof -
  have claim: "unat (rr_claim r) = length log" using assms(1,4) small_nat by (simp add: slab_ok_def)
  have "slab_ok (r\<lparr>rr_drained := rr_claim r\<rparr>) log"
    using assms(1) claim by (auto simp: slab_ok_def slab_tag_def)
  then show "slab_ok r' log" by (rule same_core_slab [OF assms(3)])
  have "unat (rr_drained r') = length log" using assms(3) claim by (simp add: same_core_def)
  then show "owners_ok r' log P" using assms(2) not_inside by (simp add: owners_ok_def quiet_def)
qed


subsection \<open>Reachable states\<close>

definition in_flight_ok :: "nat \<Rightarrow> recorder \<Rightarrow> (nat \<Rightarrow> producer) \<Rightarrow> bool" where
  "in_flight_ok threads r P \<longleftrightarrow> (\<forall>t \<ge> threads. P t = Outside) \<and> rr_in_flight r = word_of_nat (card {t. active (P t)})"

definition in_loop :: "drain_phase \<Rightarrow> bool" where
  "in_loop phase \<longleftrightarrow> phase \<notin> {Closing, Fail_waiting, Fail_settling, Releasing, Closed}"

fun phase_ok :: "recorder \<Rightarrow> event list \<Rightarrow> (nat \<Rightarrow> producer) \<Rightarrow> nat \<Rightarrow> drain_phase \<Rightarrow> bool" where
  "phase_ok r log P n (Have_claim c) = (unat c \<le> length log)"
| "phase_ok r log P n Slot_ready = (n < length log \<and> published r log n)"
| "phase_ok r log P n Advancing = (n < length log \<and> published r log n)"
| "phase_ok r log P n Slot_missing = (n < length log)"
| "phase_ok r log P n Missing_stopped = (n < length log \<and> \<not> rr_armed r)"
| "phase_ok r log P n Caught_up_stopped = (\<not> rr_armed r)"
| "phase_ok r log P n Io_failed = (\<not> rr_armed r)"
| "phase_ok r log P n Io_waiting = (\<not> rr_armed r \<and> rr_failed r)"
| "phase_ok r log P n Fail_waiting = (\<not> rr_armed r \<and> rr_failed r)"
| "phase_ok r log P n Finishing = quiet r P"
| "phase_ok r log P n Io_settling = (quiet r P \<and> rr_failed r)"
| "phase_ok r log P n Closing = quiet r P"
| "phase_ok r log P n Fail_settling = (quiet r P \<and> rr_failed r)"
| "phase_ok r log P n Releasing = quiet r P"
| "phase_ok r log P n Closed = quiet r P"
| "phase_ok r log P n _ = True"

definition taken_upto :: "drain_phase \<Rightarrow> drain \<Rightarrow> nat" where
  "taken_upto phase d = unat (dn_next d) + (if phase = Advancing then 1 else 0)"

definition drain_ok :: "recorder \<Rightarrow> event list \<Rightarrow> (nat \<Rightarrow> producer) \<Rightarrow> drain_phase \<Rightarrow> drain \<Rightarrow> event list \<Rightarrow> bool" where
  "drain_ok r log P phase d taken \<longleftrightarrow> phase_ok r log P (unat (dn_next d)) phase
     \<and> (in_loop phase \<longrightarrow> dn_next d = rr_drained r) \<and> taken_upto phase d \<le> length log
     \<and> unat (dn_next d) \<le> unat (rr_drained r)
     \<and> rr_written r = word_of_nat (length taken) \<and> subseq taken (take (taken_upto phase d) log)
     \<and> (\<not> rr_failed r \<longrightarrow> taken = take (taken_upto phase d) log)"

definition record_inv :: "nat \<Rightarrow> rec_system \<Rightarrow> bool" where
  "record_inv threads S \<longleftrightarrow> slab_ok (sy_rec S) (sy_log S) \<and> owners_ok (sy_rec S) (sy_log S) (sy_producers S)
     \<and> in_flight_ok threads (sy_rec S) (sy_producers S)
     \<and> drain_ok (sy_rec S) (sy_log S) (sy_producers S) (sy_phase S) (sy_drain S) (sy_taken S)"

lemma record_inv_start: "session_ready s \<Longrightarrow> record_inv threads (session_begin s)"
  by (auto simp: record_inv_def session_begin_def session_ready_def slab_ok_def owners_ok_def in_flight_ok_def drain_ok_def
      slab_tag_def drain_new_def taken_upto_def in_loop_def split: option.splits prod.splits)

lemma active_finite: "in_flight_ok threads r P \<Longrightarrow> finite {t. active (P t)} \<and> card {t. active (P t)} \<le> threads"
proof -
  assume "in_flight_ok threads r P"
  then have sub: "{t. active (P t)} \<subseteq> {..<threads}"
    unfolding in_flight_ok_def by (metis (mono_tags) active.simps(1) lessThan_iff mem_Collect_eq not_le subsetI)
  then show ?thesis using card_mono [OF _ sub] finite_subset [OF sub] by simp
qed

lemma none_in_flight:
  assumes "in_flight_ok threads r P" "rr_in_flight r = 0" "threads < 2 ^ 62"
  shows "\<not> active (P t)"
proof -
  have fin: "finite {t. active (P t)}" "card {t. active (P t)} < 2 ^ 62"
    using active_finite [OF assms(1)] assms(3) by auto
  have "unat (rr_in_flight r) = card {t. active (P t)}"
    using assms(1) small_nat [OF fin(2)] by (simp add: in_flight_ok_def)
  then have "{t. active (P t)} = {}" using assms(2) fin(1) by simp
  then show ?thesis by blast
qed

lemma active_inside: "inside p \<Longrightarrow> active p" by (cases p) auto

lemma quiet_now:
  "in_flight_ok threads r P \<Longrightarrow> rr_in_flight r = 0 \<Longrightarrow> threads < 2 ^ 62 \<Longrightarrow> \<not> rr_armed r \<Longrightarrow> quiet r P"
  unfolding quiet_def using none_in_flight active_inside by blast

lemma in_flight_same:
  "in_flight_ok threads r P \<Longrightarrow> t < threads \<Longrightarrow> active p = active (P t) \<Longrightarrow> rr_in_flight r' = rr_in_flight r \<Longrightarrow>
     in_flight_ok threads r' (P(t := p))"
proof -
  assume a: "in_flight_ok threads r P" "t < threads" "active p = active (P t)" "rr_in_flight r' = rr_in_flight r"
  have "{u. active ((P(t := p)) u)} = {u. active (P u)}" using a(3) by auto
  then show ?thesis using a by (auto simp: in_flight_ok_def)
qed

lemma in_flight_more:
  assumes "in_flight_ok threads r P" "t < threads" "active p" "\<not> active (P t)" "rr_in_flight r' = rr_in_flight r + 1"
  shows "in_flight_ok threads r' (P(t := p))"
proof -
  have "{u. active ((P(t := p)) u)} = insert t {u. active (P u)}" using assms(3) by auto
  then have "card {u. active ((P(t := p)) u)} = Suc (card {u. active (P u)})"
    using assms(4) active_finite [OF assms(1)] by simp
  then show ?thesis using assms(1,2,5) by (auto simp: in_flight_ok_def simp del: fun_upd_apply) auto
qed

lemma in_flight_less:
  assumes "in_flight_ok threads r P" "t < threads" "\<not> active p" "active (P t)" "rr_in_flight r' = rr_in_flight r - 1"
  shows "in_flight_ok threads r' (P(t := p))"
proof -
  have "{u. active (P u)} = insert t {u. active ((P(t := p)) u)}" "t \<notin> {u. active ((P(t := p)) u)}" using assms(3,4) by auto
  moreover have "finite {u. active ((P(t := p)) u)}"
    using active_finite [OF assms(1)] by (rule finite_subset [rotated, OF conjunct1]) (use assms(3) in auto)
  ultimately have "card {u. active (P u)} = Suc (card {u. active ((P(t := p)) u)})" by simp
  then show ?thesis using assms(1,2,5) by (auto simp: in_flight_ok_def simp del: fun_upd_apply) auto
qed


lemma drain_ok_keeps:
  assumes "drain_ok r log P phase d taken" "rr_drained r' = rr_drained r" "rr_written r' = rr_written r"
    and "rr_failed r' = rr_failed r" "rr_armed r' = rr_armed r" "quiet r P \<Longrightarrow> quiet r' P'"
    and "\<And>i. published r log i \<Longrightarrow> unat (rr_drained r) \<le> i \<Longrightarrow> i < length log \<Longrightarrow> published r' (log @ added) i"
  shows "drain_ok r' (log @ added) P' phase d taken"
proof -
  have "phase_ok r' (log @ added) P' (unat (dn_next d)) phase"
    using assms(1,2,4-7) by (cases phase) (auto simp: drain_ok_def in_loop_def)
  then show ?thesis using assms(1-4) by (auto simp: drain_ok_def)
qed

lemma quiet_produce: "quiet r P \<Longrightarrow> producer_action spurious (P t) r = (p, r') \<Longrightarrow> quiet r' (P(t := p))"
  by (cases "P t") (auto simp: quiet_def split: if_splits dest: spec [of _ t])

lemma produce_quietly:
  assumes inv: "record_inv threads S" and t: "t < threads"
    and act: "producer_action spurious (sy_producers S t) (sy_rec S) = (p, r')"
    and core: "same_core (sy_rec S) r'" and own: "owned p = owned (sy_producers S t)" "producer_ok (sy_rec S) (sy_log S) p"
    and flight: "in_flight_ok threads r' ((sy_producers S)(t := p))"
    and rest: "rr_written r' = rr_written (sy_rec S)" "rr_failed r' = rr_failed (sy_rec S)" "rr_armed r' = rr_armed (sy_rec S)"
    and new: "newly_reserved (sy_producers S t) p = []"
  shows "record_inv threads (produce t spurious S)"
proof -
  let ?r = "sy_rec S" and ?log = "sy_log S" and ?P = "sy_producers S"
  have "drain_ok r' (?log @ []) (?P(t := p)) (sy_phase S) (sy_drain S) (sy_taken S)"
  proof (rule drain_ok_keeps [where r = ?r and P = ?P])
    show "rr_drained r' = rr_drained ?r" using core by (simp add: same_core_def)
    show "quiet ?r ?P \<Longrightarrow> quiet r' (?P(t := p))" using act by (rule quiet_produce [rotated])
    show "published ?r ?log i \<Longrightarrow> published r' (?log @ []) i" for i
      using same_core_tag [OF core] core by (simp add: published_def same_core_def)
  qed (use inv rest in \<open>simp_all add: record_inv_def\<close>)
  then show ?thesis
    using inv same_core_slab [OF core] same_core_owners [where P = "sy_producers S" and t = t, OF core _ own] flight new
    by (simp add: produce_def act record_inv_def)
qed

lemma produce_inv:
  assumes inv: "record_inv threads S" and t: "t < threads"
    and small: "length (sy_log (produce t spurious S)) < 2 ^ 62"
  shows "record_inv threads (produce t spurious S)"
proof -
  let ?r = "sy_rec S" and ?log = "sy_log S" and ?P = "sy_producers S"
  have parts: "slab_ok ?r ?log" "owners_ok ?r ?log ?P" "in_flight_ok threads ?r ?P"
      "drain_ok ?r ?log ?P (sy_phase S) (sy_drain S) (sy_taken S)"
    using inv by (simp_all add: record_inv_def)
  have pok: "producer_ok ?r ?log (?P t)" using parts(2) by (simp add: owners_ok_def)
  have L: "length ?log < 2 ^ 62" using small by (auto simp: produce_def split: prod.splits)
  have claim: "unat (rr_claim ?r) = length ?log" using parts(1) small_nat [OF L] by (simp add: slab_ok_def)
  note same = in_flight_same [OF parts(3) t]
  have step: "record_inv threads (produce t spurious S)"
    if "producer_action spurious (?P t) ?r = (p, r')" "same_core ?r r'" "owned p = owned (?P t)" "producer_ok ?r ?log p"
      "in_flight_ok threads r' (?P(t := p))" "rr_written r' = rr_written ?r" "rr_failed r' = rr_failed ?r"
      "rr_armed r' = rr_armed ?r" "newly_reserved (?P t) p = []" for p r'
    using produce_quietly [OF inv t that(1-5) that(6-9)] .
  show ?thesis
  proof (cases "?P t")
    case Outside
    then show ?thesis by (intro step [of Outside ?r]) (auto simp: same_core_def intro!: same)
  next
    case (Entered e)
    then show ?thesis
      by (intro step [of "Counted e" "?r\<lparr>rr_in_flight := rr_in_flight ?r + 1\<rparr>"])
        (auto simp: same_core_def intro!: in_flight_more [OF parts(3) t])
  next
    case (Counted e)
    then show ?thesis
      by (intro step [of "if rr_armed ?r then Gated e else Leaving e False" ?r]) (auto simp: same_core_def intro!: same)
  next
    case (Gated e)
    then show ?thesis
      by (intro step [of "if rr_cap ?r = 0 then Full e else Loaded e (rr_claim ?r)" ?r])
        (auto simp: same_core_def claim intro!: same)
  next
    case (Full e)
    then show ?thesis
      by (intro step [of "Leaving e False" "?r\<lparr>rr_dropped := rr_dropped ?r + 1\<rparr>"])
        (auto simp: same_core_def intro!: same)
  next
    case (Leaving e recorded)
    then show ?thesis
      by (intro step [of Outside "?r\<lparr>rr_in_flight := rr_in_flight ?r - 1\<rparr>"])
        (auto simp: same_core_def intro!: in_flight_less [OF parts(3) t])
  next
    case (Loaded e c)
    have "unat c < unat (rr_drained ?r) + rr_cap ?r" if "\<not> c - rr_drained ?r \<ge> word_of_nat (rr_cap ?r)"
    proof -
      have cap: "unat (word_of_nat (rr_cap ?r) :: u64) = rr_cap ?r"
        using parts(1) by (intro small_nat) (simp add: slab_ok_def)
      have less: "unat (c - rr_drained ?r) < rr_cap ?r" using that by (simp add: word_le_nat_alt cap)
      show ?thesis
      proof (cases "rr_drained ?r \<le> c")
        case True
        then show ?thesis using less by (simp add: unat_sub word_le_nat_alt)
      next
        case False
        then show ?thesis using parts(1) by (simp add: word_le_nat_alt slab_ok_def)
      qed
    qed
    then show ?thesis using Loaded pok
      by (intro step [of "if c - rr_drained ?r \<ge> word_of_nat (rr_cap ?r) then Full e else Reserving e c" ?r])
        (auto simp: same_core_def intro!: same)
  next
    case (Reserving e c)
    show ?thesis
    proof (cases "\<not> spurious \<and> rr_claim ?r = c")
      case False
      then show ?thesis using Reserving
        by (intro step [of "Loaded e (rr_claim ?r)" ?r]) (auto simp: same_core_def claim intro!: same)
    next
      case True
      let ?r' = "?r\<lparr>rr_claim := c + 1\<rparr>" and ?added = "[e\<lparr>ev_sequence := c + 1\<rparr>]"
      note ok = reserve_ok [OF parts(1,2) Reserving _ L, OF conjunct2 [OF True]]
      have "drain_ok ?r' (?log @ ?added) (?P(t := Reserved e c)) (sy_phase S) (sy_drain S) (sy_taken S)"
        using ok(3) Reserving by (intro drain_ok_keeps [OF parts(4)]) (auto simp: quiet_def dest: spec [of _ t])
      moreover have "in_flight_ok threads ?r' (?P(t := Reserved e c))" using Reserving by (intro same) simp_all
      ultimately show ?thesis using ok(1,2) True Reserving by (simp add: produce_def record_inv_def)
    qed
  next
    case (Reserved e c)
    let ?r' = "payload_write (claim_slot ?r c) (e\<lparr>ev_sequence := c + 1\<rparr>) ?r"
    note ok = payload_ok [OF parts(1,2) Reserved]
    have same_rest: "rr_written ?r' = rr_written ?r" "rr_failed ?r' = rr_failed ?r" "rr_armed ?r' = rr_armed ?r"
        "rr_in_flight ?r' = rr_in_flight ?r" by (simp_all add: payload_write_def)
    have "drain_ok ?r' (?log @ []) (?P(t := Written e c)) (sy_phase S) (sy_drain S) (sy_taken S)"
      using ok(3) Reserved same_rest by (intro drain_ok_keeps [OF parts(4)]) (auto simp: quiet_def dest: spec [of _ t])
    moreover have "in_flight_ok threads ?r' (?P(t := Written e c))" using Reserved same_rest by (intro same) simp_all
    ultimately show ?thesis using ok(1,2) Reserved by (simp add: produce_def record_inv_def)
  next
    case (Written e c)
    let ?r' = "tag_store (claim_slot ?r c) (c + 1) ?r"
    note ok = publish_ok [OF parts(1,2) Written L]
    have same_rest: "rr_written ?r' = rr_written ?r" "rr_failed ?r' = rr_failed ?r" "rr_armed ?r' = rr_armed ?r"
        "rr_in_flight ?r' = rr_in_flight ?r" by (simp_all add: tag_store_def)
    have "drain_ok ?r' (?log @ []) (?P(t := Leaving e True)) (sy_phase S) (sy_drain S) (sy_taken S)"
      using ok(3) Written same_rest by (intro drain_ok_keeps [OF parts(4)]) (auto simp: quiet_def dest: spec [of _ t])
    moreover have "in_flight_ok threads ?r' (?P(t := Leaving e True))" using Written same_rest by (intro same) simp_all
    ultimately show ?thesis using ok(1,2) Written by (simp add: produce_def record_inv_def)
  qed
qed


lemma drain_core:
  assumes inv: "record_inv threads S"
    and act: "drain_action kinds header ok (sy_phase S, sy_drain S, sy_rec S) = (phase, d, r')"
    and core: "same_core (sy_rec S) r'" and flight: "rr_in_flight r' = rr_in_flight (sy_rec S)"
    and drain: "drain_ok r' (sy_log S) (sy_producers S) phase d (sy_taken S @ newly_taken S phase)"
  shows "record_inv threads (drain_once kinds header ok S)"
proof -
  have "owners_ok r' (sy_log S) ((sy_producers S)(0 := sy_producers S 0))"
    using inv by (intro same_core_owners [OF core]) (auto simp: record_inv_def owners_ok_def)
  then show ?thesis using inv same_core_slab [OF core] flight drain
    by (simp add: drain_once_def act record_inv_def in_flight_ok_def)
qed

lemma newly_taken_none: "sy_phase S \<noteq> Slot_ready \<or> phase \<noteq> Advancing \<Longrightarrow> newly_taken S phase = []"
  by (auto simp: newly_taken_def)

lemma quiet_frame: "quiet r P \<Longrightarrow> \<not> rr_armed r' \<Longrightarrow> quiet r' P"
  by (simp add: quiet_def)

lemma absorb_next: "absorb ok e d = Some d' \<Longrightarrow> dn_next d' = dn_next d"
  by (auto simp: absorb_def split: option.splits if_splits)

lemma published_same: "same_core r r' \<Longrightarrow> published r' log i = published r log i"
  using same_core_tag [of r r'] by (simp add: published_def same_core_def)

lemma next_word: "unat (c :: u64) < 2 ^ 62 \<Longrightarrow> unat (c + 1) = Suc (unat c)"
  by (subst unat_plus_no_wrap) simp_all

lemma record_inv_parts:
  assumes "record_inv threads S"
  shows "slab_ok (sy_rec S) (sy_log S)" "owners_ok (sy_rec S) (sy_log S) (sy_producers S)"
    "in_flight_ok threads (sy_rec S) (sy_producers S)"
    "drain_ok (sy_rec S) (sy_log S) (sy_producers S) (sy_phase S) (sy_drain S) (sy_taken S)"
  using assms by (simp_all add: record_inv_def)

lemma record_inv_claim: "record_inv threads S \<Longrightarrow> length (sy_log S) < 2 ^ 62 \<Longrightarrow> unat (rr_claim (sy_rec S)) = length (sy_log S)"
  using small_nat by (simp add: record_inv_def slab_ok_def)

lemma drain_plain:
  assumes "record_inv threads S" "drain_action kinds header ok (sy_phase S, sy_drain S, sy_rec S) = (phase, d, r')"
    and "same_core (sy_rec S) r'" "rr_in_flight r' = rr_in_flight (sy_rec S)" "newly_taken S phase = []"
    and "drain_ok r' (sy_log S) (sy_producers S) phase d (sy_taken S)"
  shows "record_inv threads (drain_once kinds header ok S)"
  using drain_core [OF assms(1-4)] assms(5,6) by simp

lemmas phase_defs = same_core_def newly_taken_def drain_ok_def in_loop_def taken_upto_def

lemma drain_claimed_inv:
  assumes inv: "record_inv threads S" and Have_claim: "sy_phase S = Have_claim c"
  shows "record_inv threads (drain_once kinds header ok S)"
proof -
  let ?r = "sy_rec S" and ?log = "sy_log S" and ?P = "sy_producers S" and ?d = "sy_drain S" and ?T = "sy_taken S"
  let ?n = "unat (dn_next (sy_drain S))"
  note parts = record_inv_parts [OF inv]
  note step = drain_plain [where kinds = kinds and header = header and ok = ok, OF inv]
  have "published ?r ?log ?n" if "?n < unat c" "slab_tag ?r (claim_slot ?r (dn_next ?d)) = dn_next ?d + 1"
  proof -
    have c: "unat c \<le> length ?log" and D: "dn_next ?d = rr_drained ?r"
      using parts(4) Have_claim by (auto simp: drain_ok_def in_loop_def)
    have "\<not> (\<exists>t. owned (?P t) = Some (word_of_nat ?n))"
    proof
      assume "\<exists>t. owned (?P t) = Some (word_of_nat ?n)"
      then obtain t where t: "owned (?P t) = Some (dn_next ?d)" by auto
      have "producer_ok ?r ?log (?P t)" using parts(2) by (simp add: owners_ok_def)
      from owned_ok [OF this t] show False using that(2) by (auto simp: owner_ok_def claim_slot_def)
    qed
    then show ?thesis using parts(2) D that(1) c unfolding owners_ok_def by (metis le_refl less_le_trans)
  qed
  then show ?thesis using parts(4) Have_claim
    by (intro step [of "if dn_next ?d < c then (if slab_tag ?r (claim_slot ?r (dn_next ?d)) = dn_next ?d + 1 then Slot_ready
          else Slot_missing) else Caught_up" ?d ?r])
      (auto simp: phase_defs word_less_nat_alt)
qed

lemma drain_ready_inv:
  assumes inv: "record_inv threads S" and Slot_ready: "sy_phase S = Slot_ready"
  shows "record_inv threads (drain_once kinds header ok S)"
proof -
  let ?r = "sy_rec S" and ?log = "sy_log S" and ?P = "sy_producers S" and ?d = "sy_drain S" and ?T = "sy_taken S"
  let ?n = "unat (dn_next (sy_drain S))"
  note parts = record_inv_parts [OF inv]
  note step = drain_plain [where kinds = kinds and header = header and ok = ok, OF inv]
  have D: "dn_next ?d = rr_drained ?r" and n: "?n < length ?log" and pub: "published ?r ?log ?n"
    using parts(4) Slot_ready by (auto simp: drain_ok_def in_loop_def)
  have read: "slab_event ?r (claim_slot ?r (dn_next ?d)) = ?log ! ?n" using pub by (simp add: published_def claim_slot_def)
  show ?thesis
  proof (cases "absorb ok (?log ! ?n) ?d")
    case None
    then show ?thesis using Slot_ready parts(4) read
      by (intro step [of Io_failed ?d "?r\<lparr>rr_armed := False\<rparr>"])
        (auto simp: phase_defs)
  next
    case (Some d)
    let ?r' = "?r\<lparr>rr_written := rr_written ?r + 1\<rparr>"
    have core: "same_core ?r ?r'" by (simp add: same_core_def)
    have more: "take (Suc ?n) ?log = take ?n ?log @ [?log ! ?n]" by (rule take_Suc_conv_app_nth [OF n])
    have "drain_ok ?r' ?log ?P Advancing d (?T @ [?log ! ?n])"
      using parts(4) Slot_ready n D absorb_next [OF Some] published_same [OF core] pub more
      by (auto simp: drain_ok_def in_loop_def taken_upto_def)
    then show ?thesis
      by (intro drain_core [OF inv, of _ _ _ Advancing d ?r']) (use Slot_ready Some read in \<open>auto simp: same_core_def newly_taken_def\<close>)
  qed
qed

lemma drain_advancing_inv:
  assumes inv: "record_inv threads S" and Advancing: "sy_phase S = Advancing" and L: "length (sy_log S) < 2 ^ 62"
  shows "record_inv threads (drain_once kinds header ok S)"
proof -
  let ?r = "sy_rec S" and ?log = "sy_log S" and ?P = "sy_producers S" and ?d = "sy_drain S" and ?T = "sy_taken S"
  let ?n = "unat (dn_next (sy_drain S))"
  note parts = record_inv_parts [OF inv]
  have D: "dn_next ?d = rr_drained ?r" and n: "?n < length ?log" and pub: "published ?r ?log ?n"
    using parts(4) Advancing by (auto simp: drain_ok_def in_loop_def)
  have up: "unat (dn_next ?d + 1) = Suc ?n" using n L by (intro next_word) simp
  note ok = drained_ok [OF parts(1,2), of "dn_next ?d + 1", folded D, OF up n disjI1, OF pub]
  show ?thesis using parts(3,4) ok(1,2) Advancing up n D
    by (auto simp: drain_once_def record_inv_def drain_ok_def in_loop_def taken_upto_def in_flight_ok_def newly_taken_def)
qed

lemma drain_missing_inv:
  assumes inv: "record_inv threads S" and Missing_stopped: "sy_phase S = Missing_stopped" and threads: "threads < 2 ^ 62" and L: "length (sy_log S) < 2 ^ 62"
  shows "record_inv threads (drain_once kinds header ok S)"
proof -
  let ?r = "sy_rec S" and ?log = "sy_log S" and ?P = "sy_producers S" and ?d = "sy_drain S" and ?T = "sy_taken S"
  let ?n = "unat (dn_next (sy_drain S))"
  note parts = record_inv_parts [OF inv]
  note quietly = quiet_now [OF parts(3) _ threads]
  note step = drain_plain [where kinds = kinds and header = header and ok = ok, OF inv]
  have D: "dn_next ?d = rr_drained ?r" and n: "?n < length ?log" and off: "\<not> rr_armed ?r"
    using parts(4) Missing_stopped by (auto simp: drain_ok_def in_loop_def)
  show ?thesis
  proof (cases "rr_in_flight ?r = 0")
    case False
    then show ?thesis using parts(4) Missing_stopped
      by (intro step [of At_top ?d ?r]) (auto simp: phase_defs)
  next
    case True
    have none: "\<forall>t. owned (?P t) = None" using quietly [OF True off] not_inside by (auto simp: quiet_def)
    have up: "unat (dn_next ?d + 1) = Suc ?n" using n L by (intro next_word) simp
    let ?rd = "?r\<lparr>rr_drained := dn_next ?d + 1\<rparr>"
    let ?r' = "?r\<lparr>rr_failed := True, rr_dropped := rr_dropped ?r + 1, rr_drained := dn_next ?d + 1\<rparr>"
    note ok = drained_ok [OF parts(1,2), of "dn_next ?d + 1", folded D, OF up n disjI2, OF none]
    have core: "same_core ?rd ?r'" by (simp add: same_core_def)
    have "owners_ok ?r' ?log (?P(0 := ?P 0))"
      using ok(2) by (intro same_core_owners [OF core]) (auto simp: owners_ok_def)
    moreover have "subseq ?T (take (Suc ?n) ?log)"
      using parts(4) Missing_stopped n subseq_append_right [of ?T "take ?n ?log"]
      by (auto simp: drain_ok_def taken_upto_def take_Suc_conv_app_nth)
    ultimately show ?thesis using parts(3,4) same_core_slab [OF core ok(1)] Missing_stopped up n True
      by (auto simp: drain_once_def record_inv_def drain_ok_def in_loop_def taken_upto_def in_flight_ok_def newly_taken_def)
  qed
qed

lemma drain_io_settling_inv:
  assumes inv: "record_inv threads S" and Io_settling: "sy_phase S = Io_settling" and L: "length (sy_log S) < 2 ^ 62"
  shows "record_inv threads (drain_once kinds header ok S)"
proof -
  let ?r = "sy_rec S" and ?log = "sy_log S" and ?P = "sy_producers S" and ?d = "sy_drain S" and ?T = "sy_taken S"
  let ?n = "unat (dn_next (sy_drain S))"
  note parts = record_inv_parts [OF inv]
  note claim = record_inv_claim [OF inv L]
  note step = drain_plain [where kinds = kinds and header = header and ok = ok, OF inv]
  have q: "quiet ?r ?P" and failed: "rr_failed ?r" and D: "dn_next ?d = rr_drained ?r"
    using parts(4) Io_settling by (auto simp: drain_ok_def in_loop_def)
  show ?thesis
  proof (cases "rr_claim ?r > dn_next ?d")
    case False
    then show ?thesis using Io_settling parts(4)
      by (intro step [of Closing ?d ?r]) (auto simp: phase_defs)
  next
    case True
    let ?r' = "?r\<lparr>rr_dropped := rr_dropped ?r + (rr_claim ?r - dn_next ?d), rr_drained := rr_claim ?r\<rparr>"
    have core: "same_core (?r\<lparr>rr_drained := rr_claim ?r\<rparr>) ?r'" by (simp add: same_core_def)
    have "drain_ok ?r' ?log ?P Closing ?d ?T" using parts(4) Io_settling claim quiet_frame [OF q, of ?r'] q
      by (auto simp: drain_ok_def in_loop_def taken_upto_def quiet_def)
    then show ?thesis using Io_settling True settled_ok [OF parts(1) q core L] parts(3)
      by (simp add: drain_once_def record_inv_def in_flight_ok_def newly_taken_def)
  qed
qed

lemma drain_fail_settling_inv:
  assumes inv: "record_inv threads S" and Fail_settling: "sy_phase S = Fail_settling" and L: "length (sy_log S) < 2 ^ 62"
  shows "record_inv threads (drain_once kinds header ok S)"
proof -
  let ?r = "sy_rec S" and ?log = "sy_log S" and ?P = "sy_producers S" and ?d = "sy_drain S" and ?T = "sy_taken S"
  let ?n = "unat (dn_next (sy_drain S))"
  note parts = record_inv_parts [OF inv]
  note claim = record_inv_claim [OF inv L]
  note step = drain_plain [where kinds = kinds and header = header and ok = ok, OF inv]
  have q: "quiet ?r ?P" and failed: "rr_failed ?r" using parts(4) Fail_settling by (auto simp: drain_ok_def)
  show ?thesis
  proof (cases "rr_claim ?r > rr_drained ?r")
    case False
    then show ?thesis using Fail_settling parts(4)
      by (intro step [of Releasing ?d ?r])
        (auto simp: phase_defs settle_undrained_def)
  next
    case True
    let ?r' = "?r\<lparr>rr_dropped := rr_dropped ?r + (rr_claim ?r - rr_drained ?r), rr_drained := rr_claim ?r\<rparr>"
    have core: "same_core (?r\<lparr>rr_drained := rr_claim ?r\<rparr>) ?r'" by (simp add: same_core_def)
    have "drain_ok ?r' ?log ?P Releasing ?d ?T" using parts(4) Fail_settling claim q
      by (auto simp: drain_ok_def in_loop_def taken_upto_def quiet_def)
    then show ?thesis using Fail_settling True settled_ok [OF parts(1) q core L] parts(3)
      by (simp add: drain_once_def record_inv_def in_flight_ok_def newly_taken_def settle_undrained_def)
  qed
qed

lemma drain_inv:
  assumes inv: "record_inv threads S" and threads: "threads < 2 ^ 62" and L: "length (sy_log S) < 2 ^ 62"
  shows "record_inv threads (drain_once kinds header ok S)"
proof -
  let ?r = "sy_rec S" and ?d = "sy_drain S"
  note parts = record_inv_parts [OF inv]
  note claim = record_inv_claim [OF inv L] and quietly = quiet_now [OF parts(3) _ threads]
  note step = drain_plain [where kinds = kinds and header = header and ok = ok, OF inv]
  show ?thesis
  proof (cases "sy_phase S")
    case Opening
    show ?thesis
    proof (cases ok)
      case True
      then show ?thesis using Opening parts(4)
        by (intro step [of Starting "?d\<lparr>dn_out := dn_out ?d @ header\<rparr>" ?r])
          (auto simp: phase_defs)
    next
      case False
      then show ?thesis using Opening parts(4)
        by (intro step [of Fail_waiting ?d "?r\<lparr>rr_failed := True, rr_armed := False\<rparr>"])
          (auto simp: phase_defs)
    qed
  next
    case Starting
    show ?thesis
    proof (cases ok)
      case True
      then show ?thesis using Starting parts(4)
        by (intro step [of At_top "?d\<lparr>dn_out := dn_out ?d @ write_record (tape_marker 0 MARKER_START (ucast kinds))\<rparr>" ?r])
          (auto simp: phase_defs)
    next
      case False
      then show ?thesis using Starting parts(4)
        by (intro step [of Fail_waiting ?d "?r\<lparr>rr_failed := True, rr_armed := False\<rparr>"])
          (auto simp: phase_defs)
    qed
  next
    case At_top
    then show ?thesis using parts(4) claim
      by (intro step [of "Have_claim (rr_claim ?r)" ?d ?r])
        (auto simp: phase_defs)
  next
    case (Have_claim c)
    show ?thesis by (rule drain_claimed_inv [OF inv Have_claim])
  next
    case Slot_ready
    show ?thesis by (rule drain_ready_inv [OF inv Slot_ready])
  next
    case Advancing
    show ?thesis by (rule drain_advancing_inv [OF inv Advancing L])
  next
    case Slot_missing
    then show ?thesis using parts(4)
      by (intro step [of "if rr_armed ?r then At_top else Missing_stopped" ?d ?r])
        (auto simp: phase_defs)
  next
    case Missing_stopped
    show ?thesis by (rule drain_missing_inv [OF inv Missing_stopped threads L])
  next
    case Caught_up
    then show ?thesis using parts(4)
      by (intro step [of "if rr_armed ?r then At_top else Caught_up_stopped" ?d ?r])
        (auto simp: phase_defs)
  next
    case Caught_up_stopped
    then show ?thesis using parts(4) quietly
      by (intro step [of "if rr_in_flight ?r = 0 then Finishing else At_top" ?d ?r])
        (auto simp: phase_defs)
  next
    case Finishing
    show ?thesis
    proof (cases "dn_pending ?d = None \<or> ok")
      case True
      then show ?thesis using Finishing parts(4)
        by (intro step [of Closing "case dn_pending ?d of None \<Rightarrow> ?d
              | Some previous \<Rightarrow> ?d\<lparr>dn_out := dn_out ?d @ flush_run previous (dn_repeats ?d)\<rparr>" ?r])
          (auto simp: phase_defs split: option.splits)
    next
      case False
      then show ?thesis using Finishing parts(4)
        by (intro step [of Io_failed ?d ?r])
          (auto simp: phase_defs quiet_def)
    qed
  next
    case Io_failed
    then show ?thesis using parts(4)
      by (intro step [of Io_waiting ?d "?r\<lparr>rr_failed := True\<rparr>"])
        (auto simp: phase_defs)
  next
    case Io_waiting
    then show ?thesis using parts(4) quietly
      by (intro step [of "if rr_in_flight ?r = 0 then Io_settling else Io_waiting" ?d ?r])
        (auto simp: phase_defs)
  next
    case Fail_waiting
    then show ?thesis using parts(4) quietly
      by (intro step [of "if rr_in_flight ?r = 0 then Fail_settling else Fail_waiting" ?d ?r])
        (auto simp: phase_defs)
  next
    case Io_settling
    show ?thesis by (rule drain_io_settling_inv [OF inv Io_settling L])
  next
    case Fail_settling
    show ?thesis by (rule drain_fail_settling_inv [OF inv Fail_settling L])
  next
    case Closing
    show ?thesis
    proof (cases ok)
      case True
      then show ?thesis using Closing parts(4)
        by (intro step [of Releasing "?d\<lparr>dn_out := dn_out ?d @ write_record (tape_marker (dn_next ?d + 1) MARKER_STOP (rr_written ?r))\<rparr>" ?r])
          (auto simp: phase_defs)
    next
      case False
      then show ?thesis using Closing parts(4)
        by (intro step [of Releasing ?d "?r\<lparr>rr_failed := True\<rparr>"])
          (auto simp: phase_defs quiet_def)
    qed
  next
    case Releasing
    then show ?thesis using parts(4)
      by (intro step [of Closed ?d "?r\<lparr>rr_drain_done := True\<rparr>"])
        (auto simp: phase_defs quiet_def)
  next
    case Closed
    then show ?thesis using parts(4)
      by (intro step [of Closed ?d ?r]) (auto simp: same_core_def newly_taken_def)
  qed
qed

end
