(* ===== verification/Pb_Record_Runs.thy ===== *)
theory Pb_Record_Runs
  imports Pb_Record_Protocol
begin

section \<open>Runs of the recorder\<close>

text \<open>
  What the protocol guarantees in every run, that it comes to an end, and three runs in which it does
  less than \<open>record.rs\<close> says.
\<close>

lemma step_log: "record_step threads kinds header S S' \<Longrightarrow> length (sy_log S) \<le> length (sy_log S')"
  by (induction rule: record_step.induct)
    (auto simp: enter_def produce_def drain_once_def disarm_def split: prod.splits)

lemma enter_inv:
  assumes "record_inv threads S" "t < threads" "sy_producers S t = Outside"
  shows "record_inv threads (enter t e S)"
proof -
  let ?P = "(sy_producers S)(t := Entered e)"
  have "owners_ok (sy_rec S) (sy_log S) ?P"
    using assms by (intro same_core_owners [of "sy_rec S"]) (auto simp: record_inv_def same_core_def)
  moreover have "in_flight_ok threads (sy_rec S) ?P"
    using assms by (intro in_flight_same [of threads "sy_rec S"]) (auto simp: record_inv_def)
  moreover have "drain_ok (sy_rec S) (sy_log S @ []) ?P (sy_phase S) (sy_drain S) (sy_taken S)"
    using assms by (intro drain_ok_keeps [of "sy_rec S" _ "sy_producers S"]) (auto simp: record_inv_def quiet_def)
  ultimately show ?thesis using assms(1) by (simp add: record_inv_def enter_def)
qed

lemma disarm_inv:
  assumes "record_inv threads S"
  shows "record_inv threads (disarm S)"
proof -
  let ?r = "(sy_rec S)\<lparr>rr_armed := False\<rparr>"
  have core: "same_core (sy_rec S) ?r" by (simp add: same_core_def)
  have "owners_ok ?r (sy_log S) ((sy_producers S)(0 := sy_producers S 0))"
    using assms by (intro same_core_owners [OF core]) (auto simp: record_inv_def owners_ok_def)
  moreover have "phase_ok ?r (sy_log S) (sy_producers S) n phase"
    if "phase_ok (sy_rec S) (sy_log S) (sy_producers S) n phase" for n phase
    using that published_same [OF core] by (cases phase) (auto simp: quiet_def)
  ultimately show ?thesis using assms same_core_slab [OF core]
    by (auto simp: record_inv_def disarm_def in_flight_ok_def drain_ok_def)
qed

lemma record_reachable_inv:
  assumes "record_reachable threads kinds header s S" "session_ready s" "threads < 2 ^ 62"
  shows "length (sy_log S) < 2 ^ 62 \<Longrightarrow> record_inv threads S"
  using assms(1)
proof (induction rule: record_reachable.induct)
  case start
  then show ?case using record_inv_start [OF assms(2)] by simp
next
  case (step S S')
  have small: "length (sy_log S) < 2 ^ 62" using step_log [OF step.hyps(2)] step.prems by simp
  note inv = step.IH [OF small]
  from step.hyps(2) show ?case
    by (cases rule: record_stepE)
      (use inv small step.prems in \<open>auto intro: enter_inv disarm_inv produce_inv drain_inv [OF _ assms(3)]\<close>)
qed

text \<open>
  C34. The tape keeps order and loses nothing silently while the drainer works. In every interleaving of
  producers, drainer and stop: accepted events are numbered 1, 2, 3 and so on; at most \<open>cap\<close> of them are
  undrained, so none is overwritten; what the drainer took is a subsequence of them in their order, each
  at most once, and unless the session is marked failed it is exactly the first \<open>WRITTEN\<close> of them.
\<close>

theorem recorder_in_order:
  assumes "record_reachable threads kinds header s S" "session_ready s" "threads < 2 ^ 62" "length (sy_log S) < 2 ^ 62"
  shows "(\<forall>i < length (sy_log S). ev_sequence (sy_log S ! i) = word_of_nat (Suc i))
    \<and> length (sy_log S) \<le> unat (rr_drained (sy_rec S)) + rr_cap (sy_rec S)
    \<and> rr_written (sy_rec S) = word_of_nat (length (sy_taken S))
    \<and> subseq (sy_taken S) (sy_log S)
    \<and> (\<not> rr_failed (sy_rec S) \<longrightarrow> sy_taken S = take (length (sy_taken S)) (sy_log S))"
proof -
  have inv: "record_inv threads S" by (rule record_reachable_inv [OF assms(1-4)])
  then have drain: "drain_ok (sy_rec S) (sy_log S) (sy_producers S) (sy_phase S) (sy_drain S) (sy_taken S)"
    by (simp add: record_inv_def)
  have "subseq (sy_taken S) (take k (sy_log S) @ drop k (sy_log S))" if "subseq (sy_taken S) (take k (sy_log S))" for k
    using that by (rule subseq_append_right)
  then have "subseq (sy_taken S) (sy_log S)" using drain by (auto simp: drain_ok_def)
  then show ?thesis using inv drain
    by (auto simp: record_inv_def slab_ok_def drain_ok_def)
qed


subsection \<open>The drainer comes to an end\<close>

definition drains :: "u32 \<Rightarrow> bytes \<Rightarrow> nat \<Rightarrow> rec_system \<Rightarrow> rec_system" where
  "drains kinds header n S = ((drain_once kinds header True) ^^ n) S"

lemma drains_0 [simp]: "drains kinds header 0 S = S"
  and drains_Suc: "drains kinds header (Suc n) S = drains kinds header n (drain_once kinds header True S)"
  by (simp_all add: drains_def funpow_swap1)

lemma drains_add: "drains kinds header (m + n) S = drains kinds header n (drains kinds header m S)"
  unfolding drains_def by (subst add.commute) (simp add: funpow_add)

lemma absorb_writes: "\<exists>d'. absorb True e d = Some d'"
  by (simp add: absorb_def split: option.splits)

text \<open>Stopped, nobody in flight, and the drainer about to load \<open>CLAIM\<close>.\<close>

definition stopped_at_top :: "nat \<Rightarrow> rec_system \<Rightarrow> bool" where
  "stopped_at_top threads S \<longleftrightarrow> record_inv threads S \<and> sy_phase S = At_top \<and> \<not> rr_armed (sy_rec S)
     \<and> rr_in_flight (sy_rec S) = 0 \<and> \<not> rr_failed (sy_rec S) \<and> length (sy_log S) < 2 ^ 62"

lemma drain_one_event:
  assumes top: "stopped_at_top threads S" and threads: "threads < 2 ^ 62"
    and more: "unat (dn_next (sy_drain S)) < length (sy_log S)"
  shows "stopped_at_top threads (drains kinds header 4 S)" and "sy_log (drains kinds header 4 S) = sy_log S"
    and "unat (dn_next (sy_drain (drains kinds header 4 S))) = Suc (unat (dn_next (sy_drain S)))"
proof -
  let ?r = "sy_rec S" and ?log = "sy_log S" and ?n = "unat (dn_next (sy_drain S))"
  have inv: "record_inv threads S" and at: "sy_phase S = At_top" and off: "\<not> rr_armed ?r" "rr_in_flight ?r = 0" "\<not> rr_failed ?r"
    and L: "length ?log < 2 ^ 62" using top by (auto simp: stopped_at_top_def)
  have parts: "slab_ok ?r ?log" "owners_ok ?r ?log (sy_producers S)" "in_flight_ok threads ?r (sy_producers S)"
      and D: "dn_next (sy_drain S) = rr_drained ?r"
    using inv at by (auto simp: record_inv_def drain_ok_def in_loop_def)
  have claim: "unat (rr_claim ?r) = length ?log" using parts(1) small_nat [OF L] by (simp add: slab_ok_def)
  have "quiet ?r (sy_producers S)" by (rule quiet_now [OF parts(3) off(2) threads off(1)])
  then have none: "owned (sy_producers S t) = None" for t using not_inside by (auto simp: quiet_def)
  have "published ?r ?log ?n" using parts(2) none more D by (auto simp: owners_ok_def)
  then have tag: "slab_tag ?r (claim_slot ?r (dn_next (sy_drain S))) = dn_next (sy_drain S) + 1"
    by (simp add: published_def claim_slot_def)
  obtain d where d: "absorb True (slab_event ?r (claim_slot ?r (dn_next (sy_drain S)))) (sy_drain S) = Some d"
    using absorb_writes by blast
  have next_d: "dn_next d = dn_next (sy_drain S)" by (rule absorb_next [OF d])
  let ?S = "drains kinds header 4 S"
  have result: "sy_phase ?S = At_top \<and> sy_drain ?S = d\<lparr>dn_next := dn_next d + 1\<rparr> \<and> sy_log ?S = ?log
      \<and> sy_rec ?S = ?r\<lparr>rr_written := rr_written ?r + 1, rr_drained := dn_next d + 1\<rparr>"
    using more claim by (simp add: numeral_eq_Suc drains_Suc drain_once_def at word_less_nat_alt tag d)
  have "record_inv threads (drains kinds header k S) \<and> sy_log (drains kinds header k S) = ?log" for k
  proof (induction k)
    case (Suc k)
    have "drains kinds header (Suc k) S = drain_once kinds header True (drains kinds header k S)"
      by (simp add: drains_def)
    then show ?case using Suc drain_inv [OF _ threads] L
      by (auto simp: drain_once_def split: prod.splits)
  qed (simp add: inv)
  then show "stopped_at_top threads ?S" using result off L by (simp add: stopped_at_top_def)
  show "sy_log ?S = ?log" using result by simp
  show "unat (dn_next (sy_drain ?S)) = Suc ?n"
    using result next_d more L by (simp add: next_word)
qed

lemma drain_all_events:
  assumes "stopped_at_top threads S" "threads < 2 ^ 62" "unat (dn_next (sy_drain S)) + k = length (sy_log S)"
  shows "stopped_at_top threads (drains kinds header (4 * k) S) \<and> sy_log (drains kinds header (4 * k) S) = sy_log S
    \<and> unat (dn_next (sy_drain (drains kinds header (4 * k) S))) = length (sy_log S)"
  using assms
proof (induction k arbitrary: S)
  case (Suc k)
  have more: "unat (dn_next (sy_drain S)) < length (sy_log S)" using Suc.prems(3) by simp
  note one = drain_one_event [OF Suc.prems(1,2) more, of kinds header]
  have "4 * Suc k = 4 + 4 * k" by simp
  then show ?case using Suc.IH [OF one(1) Suc.prems(2)] one(2,3) Suc.prems(3) by (simp only: drains_add)
qed simp

lemma drain_finish:
  assumes top: "stopped_at_top threads S" and finished: "unat (dn_next (sy_drain S)) = length (sy_log S)"
  shows "sy_phase (drains kinds header 7 S) = Closed \<and> sy_taken (drains kinds header 7 S) = sy_log S
    \<and> rr_drain_done (sy_rec (drains kinds header 7 S)) \<and> \<not> rr_failed (sy_rec (drains kinds header 7 S))
    \<and> \<not> rr_armed (sy_rec (drains kinds header 7 S))
    \<and> rr_written (sy_rec (drains kinds header 7 S)) = word_of_nat (length (sy_log S))"
proof -
  let ?r = "sy_rec S" and ?log = "sy_log S"
  have inv: "record_inv threads S" and at: "sy_phase S = At_top" and off: "\<not> rr_armed ?r" "rr_in_flight ?r = 0" "\<not> rr_failed ?r"
    and L: "length ?log < 2 ^ 62" using top by (auto simp: stopped_at_top_def)
  have claim: "unat (rr_claim ?r) = length ?log" using inv small_nat [OF L] by (simp add: record_inv_def slab_ok_def)
  have taken: "sy_taken S = ?log" "rr_written ?r = word_of_nat (length (sy_taken S))"
    using inv off finished at by (auto simp: record_inv_def drain_ok_def taken_upto_def)
  have "\<not> dn_next (sy_drain S) < rr_claim ?r" using finished claim by (simp add: word_less_nat_alt)
  then show ?thesis using off taken
    by (cases "dn_pending (sy_drain S)") (simp_all add: numeral_eq_Suc drains_Suc drain_once_def at newly_taken_def)
qed


subsection \<open>Schedules\<close>

text \<open>A run given move by move. A move that is not possible in a state makes the run fail.\<close>

datatype move = Enter nat event | Produce nat | Drain | Stop

fun make_move :: "nat \<Rightarrow> u32 \<Rightarrow> bytes \<Rightarrow> move \<Rightarrow> rec_system \<Rightarrow> rec_system option" where
  "make_move threads kinds header (Enter t e) S =
     (if t < threads \<and> sy_producers S t = Outside \<and> may_enter (sy_rec S) then Some (enter t e S) else None)"
| "make_move threads kinds header (Produce t) S = (if t < threads then Some (produce t False S) else None)"
| "make_move threads kinds header Drain S = Some (drain_once kinds header True S)"
| "make_move threads kinds header Stop S = Some (disarm S)"

fun make_moves :: "nat \<Rightarrow> u32 \<Rightarrow> bytes \<Rightarrow> move list \<Rightarrow> rec_system \<Rightarrow> rec_system option" where
  "make_moves threads kinds header [] S = Some S"
| "make_moves threads kinds header (m # ms) S =
     (case make_move threads kinds header m S of None \<Rightarrow> None | Some S \<Rightarrow> make_moves threads kinds header ms S)"

lemma make_move_step: "make_move threads kinds header m S = Some S' \<Longrightarrow> record_step threads kinds header S S'"
  by (cases m) (auto split: if_splits intro: record_step.intros)

lemma make_moves_reachable:
  "record_reachable threads kinds header s S \<Longrightarrow> make_moves threads kinds header ms S = Some S' \<Longrightarrow>
     record_reachable threads kinds header s S'"
  by (induction ms arbitrary: S) (auto split: option.splits dest: make_move_step intro: record_reachable.step)

lemmas run_defs = enter_def produce_def drain_once_def disarm_def newly_taken_def claim_slot_def slab_tag_def
  slab_event_def payload_write_def tag_store_def session_begin_def drain_new_def may_enter_def

text \<open>The session of a first \<open>start_spec\<close> where nothing fails: a million slots, one window.\<close>

definition good_env :: record_env where
  "good_env = \<lparr>re_cap_variable = None, re_alloc = (\<lambda>_. True), re_create = (\<lambda>_. True), re_spawn = PB_OK,
     re_flush = (\<lambda>_ _. PB_OK)\<rparr>"

definition default_session :: recorder where
  "default_session = snd (start_spec good_env id (push_bit 3 1) [(0, 4096)] [] [0] recorder_new)"

lemma exec_kind_ok: "(push_bit 3 1 :: u32) AND NOT RECORDABLE_MASK = 0" "(push_bit 3 1 :: u32) \<noteq> 0"
  by code_simp+

lemma default_session_is:
  "default_session = (session_reset (push_bit 3 1) [(0, 4096)] []
     (recorder_new\<lparr>rr_cap := DEFAULT_CAP, rr_slab := Some (replicate DEFAULT_CAP 0, replicate DEFAULT_CAP event_empty)\<rparr>))
       \<lparr>rr_armed := True, rr_sticky := True\<rparr>"
proof -
  have "check_spec recorder_new (push_bit 3 1) [(0, 4096)] [] [0] = None"
    using exec_kind_ok by (simp add: check_spec_def recorder_new_def MAX_RECORD_RANGES_def MAX_RECORD_THREADS_def)
  moreover have "ensure_slab good_env recorder_new = (Inr (),
      recorder_new\<lparr>rr_cap := DEFAULT_CAP, rr_slab := Some (replicate DEFAULT_CAP 0, replicate DEFAULT_CAP event_empty)\<rparr>)"
    by (simp add: ensure_slab_def slab_capacity_def good_env_def recorder_new_def)
  ultimately show ?thesis by (simp add: default_session_def start_spec_def good_env_def Let_def)
qed

lemma default_session_explicit:
  "default_session = recorder_new\<lparr>rr_slab := Some (replicate DEFAULT_CAP 0, replicate DEFAULT_CAP event_empty),
     rr_cap := DEFAULT_CAP, rr_armed := True, rr_drain_done := False, rr_started := True, rr_sticky := True,
     rr_kinds := push_bit 3 1, rr_hi := 4096, rr_range_count := 1, rr_ranges := pad MAX_RECORD_RANGES (0, 0) [(0, 4096)]\<rparr>"
  unfolding default_session_is
  by (simp add: session_reset_def reset_context_state_def recorder_new_def context_slot_new_def pad_def push_bit_eq_mult)

lemma default_session_fields [simp]:
  "rr_slab default_session = Some (replicate DEFAULT_CAP 0, replicate DEFAULT_CAP event_empty)"
  "rr_cap default_session = DEFAULT_CAP" "rr_claim default_session = 0" "rr_drained default_session = 0"
  "rr_dropped default_session = 0" "rr_written default_session = 0" "rr_armed default_session"
  "\<not> rr_drain_done default_session" "rr_in_flight default_session = 0" "\<not> rr_failed default_session"
  "rr_started default_session"
  unfolding default_session_is by (simp_all add: session_reset_def reset_context_state_def)

lemma default_cap [simp]: "0 < DEFAULT_CAP" "DEFAULT_CAP \<noteq> 0" "(word_of_nat DEFAULT_CAP :: u64) \<noteq> 0"
proof -
  have "unat (word_of_nat DEFAULT_CAP :: u64) = 1000000" by (simp add: DEFAULT_CAP_def)
  then show "(word_of_nat DEFAULT_CAP :: u64) \<noteq> 0" by force
qed (simp_all add: DEFAULT_CAP_def)

lemma default_session_ready: "session_ready default_session"
  by (simp add: session_ready_def) (simp add: DEFAULT_CAP_def)

lemmas session_defs = run_defs default_session_explicit recorder_new_def

definition lost_tail_moves :: "event \<Rightarrow> move list" where
  "lost_tail_moves e = [Drain, Drain, Enter 0 e, Produce 0, Produce 0, Produce 0, Produce 0, Drain, Drain,
     Produce 0, Produce 0, Produce 0, Produce 0, Stop, Drain, Drain, Drain, Drain, Drain]"

text \<open>
  The last events of a session can be lost without a trace. There is a run in which \<open>submit\<close>
  accepts an event (and returns true), the session is stopped and completes, and the event is neither
  written nor counted as dropped: the drainer compares its position with a \<open>CLAIM\<close> it loaded before the
  producer reserved, and only then looks whether the gate is closed and no producer is in flight.
\<close>

theorem recorder_lost_tail:
  "\<exists>S. record_reachable 1 kinds header default_session S \<and> sy_log S = [e\<lparr>ev_sequence := 1\<rparr>]
     \<and> sy_phase S = Closed \<and> (\<forall>t. sy_producers S t = Outside) \<and> session_state (sy_rec S) = Session_complete
     \<and> record_status (sy_rec S) = (False, 0, 0) \<and> sy_taken S = []"
proof -
  have "\<exists>S. make_moves 1 kinds header (lost_tail_moves e) (session_begin default_session) = Some S
     \<and> sy_log S = [e\<lparr>ev_sequence := 1\<rparr>]
     \<and> sy_phase S = Closed \<and> (\<forall>t. sy_producers S t = Outside) \<and> session_state (sy_rec S) = Session_complete
     \<and> record_status (sy_rec S) = (False, 0, 0) \<and> sy_taken S = []"
    by (simp add: lost_tail_moves_def session_defs session_state_def record_status_def)
  then show ?thesis using make_moves_reachable [OF record_reachable.start] by blast
qed

definition spurious_drop_moves :: "event \<Rightarrow> event \<Rightarrow> move list" where
  "spurious_drop_moves e e' = [Drain, Drain, Enter 0 e, Produce 0, Produce 0, Produce 0,
     Enter 1 e', Produce 1, Produce 1, Produce 1, Produce 1, Produce 1, Produce 1, Produce 1, Produce 1,
     Drain, Drain, Drain, Drain, Produce 0, Produce 0, Produce 0]"

text \<open>
  An event can be dropped although the slab is empty. There is a run in which everything accepted
  has been drained, the million slots are free, and an event is counted as dropped: \<open>try_reserve\<close> loads \<open>CLAIM\<close>
  before \<open>DRAINED\<close>, and when the drainer has passed the stale claim in between, the wrapping difference
  looks like a full slab.
\<close>

theorem recorder_spurious_drop:
  "\<exists>S. record_reachable 2 kinds header default_session S \<and> sy_log S = [e'\<lparr>ev_sequence := 1\<rparr>]
     \<and> sy_producers S 0 = Outside \<and> rr_claim (sy_rec S) = 1 \<and> rr_drained (sy_rec S) = 1
     \<and> record_status (sy_rec S) = (True, 1, 1)"
proof -
  have "\<exists>S. make_moves 2 kinds header (spurious_drop_moves e e') (session_begin default_session) = Some S
     \<and> sy_log S = [e'\<lparr>ev_sequence := 1\<rparr>]
     \<and> sy_producers S 0 = Outside \<and> rr_claim (sy_rec S) = 1 \<and> rr_drained (sy_rec S) = 1
     \<and> record_status (sy_rec S) = (True, 1, 1)"
    by (simp add: spurious_drop_moves_def session_defs record_status_def absorb_def)
  then show ?thesis using make_moves_reachable [OF record_reachable.start] by blast
qed


definition one_event_moves :: "event \<Rightarrow> move list" where
  "one_event_moves e = [Drain, Drain, Enter 0 e, Produce 0, Produce 0, Produce 0, Produce 0, Produce 0,
     Produce 0, Produce 0, Produce 0, Stop]"

lemma one_event_run:
  "\<exists>S. record_reachable 1 kinds header default_session S \<and> sy_log S = [e\<lparr>ev_sequence := 1\<rparr>] \<and> sy_taken S = []
     \<and> sy_phase S = At_top \<and> \<not> rr_armed (sy_rec S) \<and> rr_in_flight (sy_rec S) = 0 \<and> \<not> rr_failed (sy_rec S)"
proof -
  have "\<exists>S. make_moves 1 kinds header (one_event_moves e) (session_begin default_session) = Some S
     \<and> sy_log S = [e\<lparr>ev_sequence := 1\<rparr>] \<and> sy_taken S = []
     \<and> sy_phase S = At_top \<and> \<not> rr_armed (sy_rec S) \<and> rr_in_flight (sy_rec S) = 0 \<and> \<not> rr_failed (sy_rec S)"
    by (simp add: one_event_moves_def session_defs)
  then show ?thesis using make_moves_reachable [OF record_reachable.start] by blast
qed

lemma recorder_in_order_witness:
  "\<exists>S. record_reachable 1 0 [] default_session S \<and> length (sy_log S) = 1 \<and> ev_sequence (sy_log S ! 0) = 1
     \<and> rr_written (sy_rec S) = 0 \<and> subseq (sy_taken S) (sy_log S)"
proof -
  obtain S where S: "record_reachable 1 0 [] default_session S" "sy_log S = [event_empty\<lparr>ev_sequence := 1\<rparr>]" "sy_taken S = []"
    using one_event_run by blast
  show ?thesis using recorder_in_order [OF S(1) default_session_ready] S by (intro exI [of _ S]) simp
qed


subsection \<open>A session that follows too closely\<close>

fun waits_for_producers :: "drain_phase \<Rightarrow> bool" where
  "waits_for_producers Finishing = False"
| "waits_for_producers Io_settling = False"
| "waits_for_producers Closing = False"
| "waits_for_producers Fail_settling = False"
| "waits_for_producers Releasing = False"
| "waits_for_producers Closed = False"
| "waits_for_producers _ = True"

lemma drain_waits:
  assumes "waits_for_producers (sy_phase S)" "rr_in_flight (sy_rec S) \<noteq> 0" "\<not> rr_drain_done (sy_rec S)" "\<not> rr_armed (sy_rec S)"
  shows "waits_for_producers (sy_phase (drain_once kinds header ok S)) \<and> rr_in_flight (sy_rec (drain_once kinds header ok S)) \<noteq> 0
    \<and> \<not> rr_drain_done (sy_rec (drain_once kinds header ok S)) \<and> \<not> rr_armed (sy_rec (drain_once kinds header ok S))"
  using assms by (cases "sy_phase S") (auto simp: drain_once_def split: option.splits)

lemma drains_wait:
  "waits_for_producers (sy_phase S) \<Longrightarrow> rr_in_flight (sy_rec S) \<noteq> 0 \<Longrightarrow> \<not> rr_drain_done (sy_rec S) \<Longrightarrow> \<not> rr_armed (sy_rec S) \<Longrightarrow>
     session_state (sy_rec (fold (drain_once kinds header) oks S)) = Session_draining"
proof (induction oks arbitrary: S)
  case (Cons ok oks)
  then show ?case using drain_waits [OF Cons.prems] by simp
qed (simp add: session_state_def)

definition late_leaver_moves :: "event \<Rightarrow> move list" where
  "late_leaver_moves e = [Enter 0 e, Stop, Drain, Drain, Drain, Drain, Drain, Drain, Drain, Drain, Drain,
     Produce 0, Produce 0]"

text \<open>
  A session started while a producer of the previous one is still leaving never ends. There is a run
  in which the drainer has closed the old session and a preempted producer has just seen the closed gate;
  \<open>start_spec\<close> accepts the next session and resets \<open>IN_FLIGHT\<close> to 0; when the producer leaves, the counter
  wraps to \<open>2 ^ 64 - 1\<close>. From then on, stopped and with nobody inside, the drainer waits for producers for
  ever and every further start is refused.
\<close>

theorem recorder_restart_hangs:
  "\<exists>S. record_reachable 1 kinds header default_session S \<and> session_state (sy_rec S) = Session_complete
     \<and> check_spec (sy_rec S) (push_bit 3 1) [(0, 4096)] [] [0] = None
     \<and> (let reset = (session_reset (push_bit 3 1) [(0, 4096)] [] (sy_rec S))\<lparr>rr_armed := True\<rparr>;
            (p, left) = producer_action False (sy_producers S 0) reset
        in p = Outside \<and> rr_in_flight left = - 1
           \<and> (\<forall>oks. session_state (sy_rec (fold (drain_once kinds header) oks (disarm (session_begin left)))) = Session_draining))"
proof -
  have "\<exists>S. make_moves 1 kinds header (late_leaver_moves e) (session_begin default_session) = Some S
     \<and> session_state (sy_rec S) = Session_complete \<and> sy_producers S 0 = Leaving e False
     \<and> \<not> rr_armed (sy_rec S) \<and> rr_drain_done (sy_rec S)" for e
    by (simp add: late_leaver_moves_def session_defs session_state_def)
  then obtain S where S: "record_reachable 1 kinds header default_session S" "session_state (sy_rec S) = Session_complete"
      "sy_producers S 0 = Leaving event_empty False" "\<not> rr_armed (sy_rec S)" "rr_drain_done (sy_rec S)"
    using make_moves_reachable [OF record_reachable.start] by blast
  let ?reset = "(session_reset (push_bit 3 1) [(0, 4096)] [] (sy_rec S))\<lparr>rr_armed := True\<rparr>"
  have reset: "rr_in_flight ?reset = 0" "\<not> rr_drain_done ?reset" by (simp_all add: session_reset_def reset_context_state_def)
  have "check_spec (sy_rec S) (push_bit 3 1) [(0, 4096)] [] [0] = None"
    using S(4,5) exec_kind_ok by (simp add: check_spec_def MAX_RECORD_RANGES_def MAX_RECORD_THREADS_def)
  then show ?thesis using S reset
    by (intro exI [of _ S]) (auto simp: Let_def disarm_def session_begin_def intro!: drains_wait)
qed

end
