(* ===== verification/Pb_Tape_File.thy ===== *)
theory Pb_Tape_File
  imports Pb_Record_Runs
begin

section \<open>What is in the file\<close>

text \<open>
  The run-length encoding of the drainer against the reader its comment describes, and the file of a
  session as a whole.
\<close>

subsection \<open>Runs\<close>

text \<open>A reader: a repeat marker stands for copies of the record before it with the next sequence numbers.\<close>

definition copies :: "event \<Rightarrow> u64 \<Rightarrow> event list" where
  "copies e count = map (\<lambda>k. e\<lparr>ev_sequence := ev_sequence e + word_of_nat k\<rparr>) [0..<Suc (unat count)]"

fun expand_records :: "event list \<Rightarrow> event list" where
  "expand_records [] = []"
| "expand_records [e] = [e]"
| "expand_records (e # r # rest) =
     (if ev_kind r = EVENT_REPEAT then copies e (ev_arg0 r) @ expand_records rest else e # expand_records (r # rest))"

type_synonym runs = "(event \<times> u64) list"

definition runs_records :: "runs \<Rightarrow> event list" where
  "runs_records rs = concat (map (\<lambda>(e, count). run_records e count) rs)"

definition runs_events :: "runs \<Rightarrow> event list" where
  "runs_events rs = concat (map (\<lambda>(e, count). copies e count) rs)"

lemma runs_append: "runs_records (xs @ ys) = runs_records xs @ runs_records ys"
  "runs_events (xs @ ys) = runs_events xs @ runs_events ys"
  by (simp_all add: runs_records_def runs_events_def)

lemma runs_Cons: "runs_records ((e, c) # rs) = run_records e c @ runs_records rs"
  "runs_events ((e, c) # rs) = copies e c @ runs_events rs"
  by (simp_all add: runs_records_def runs_events_def)

lemma runs_Nil [simp]: "runs_records [] = []" "runs_events [] = []"
  by (simp_all add: runs_records_def runs_events_def)

lemma copies_0 [simp]: "copies e 0 = [e]" by (simp add: copies_def)

lemma repeat_marker_simps [simp]: "ev_kind (repeat_marker e c) = EVENT_REPEAT" "ev_arg0 (repeat_marker e c) = c"
  "ev_sequence (repeat_marker e c) = sat_add (ev_sequence e) c"
  by (simp_all add: repeat_marker_def)

lemma runs_records_first: "runs_records rs = r # rest \<Longrightarrow> \<forall>(e, _) \<in> set rs. ev_kind e \<noteq> EVENT_REPEAT \<Longrightarrow> ev_kind r \<noteq> EVENT_REPEAT"
  by (cases rs) (auto simp: runs_records_def run_records_def)

lemma expand_runs: "\<forall>(e, _) \<in> set rs. ev_kind e \<noteq> EVENT_REPEAT \<Longrightarrow> expand_records (runs_records rs) = runs_events rs"
proof (induction rs)
  case (Cons run rs)
  obtain e c where run: "run = (e, c)" by fastforce
  have ih: "expand_records (runs_records rs) = runs_events rs" using Cons by simp
  show ?case
  proof (cases "c = 0")
    case True
    show ?thesis
    proof (cases "runs_records rs")
      case Nil
      then show ?thesis using ih True by (simp add: run runs_Cons run_records_def)
    next
      case (Cons r rest)
      then have "ev_kind r \<noteq> EVENT_REPEAT" using runs_records_first Cons.prems by auto
      then show ?thesis using ih True Cons by (simp add: run runs_Cons run_records_def)
    qed
  next
    case False
    then have "c > 0" by (simp add: word_neq_0_conv)
    then show ?thesis using ih by (simp add: run runs_Cons run_records_def)
  qed
qed (simp add: runs_records_def runs_events_def)

text \<open>A continued run is the longer run.\<close>

lemma sat_next:
  fixes s c v :: u64
  assumes "sat_add (sat_add s c) 1 = v" "unat v < 2 ^ 63"
  shows "unat s + unat c + 1 = unat v" "v = s + c + 1" "unat (sat_add c 1) = Suc (unat c)" "sat_add s c = s + c"
proof -
  have v: "unat v = min (min (unat s + unat c) (2 ^ 64 - 1) + 1) (2 ^ 64 - 1)"
    unfolding assms(1) [symmetric] by (simp add: unat_sat_add)
  then show sum: "unat s + unat c + 1 = unat v" using assms(2) by (simp add: min_def split: if_splits)
  have "unat (s + c) = unat s + unat c" using sum assms(2) by (subst unat_plus_no_wrap) simp_all
  then have "unat (s + c + 1) = unat v" using sum assms(2) by (subst unat_plus_no_wrap) simp_all
  then show "v = s + c + 1" by (simp add: word_unat_eq_iff)
  show "unat (sat_add c 1) = Suc (unat c)" using sum assms(2) by (simp add: unat_sat_add)
  show "sat_add s c = s + c" using sum assms(2) by (simp add: sat_add_def)
qed

lemma copies_more:
  assumes "sat_add (sat_add (ev_sequence e) c) 1 = ev_sequence e'" "same_payload e e'" "unat (ev_sequence e') < 2 ^ 63"
  shows "copies e (sat_add c 1) = copies e c @ [e']"
proof -
  note next' = sat_next [OF assms(1,3)]
  have "e' = e\<lparr>ev_sequence := ev_sequence e'\<rparr>"
    using assms(2) by (cases e; cases e') (simp add: same_payload_def)
  also have "ev_sequence e' = ev_sequence e + word_of_nat (Suc (unat c))" using next'(2) by (simp add: add.assoc add.commute)
  finally show ?thesis by (simp add: copies_def next'(3))
qed

subsection \<open>The file as the drainer works\<close>

definition tape_start :: "u32 \<Rightarrow> bytes \<Rightarrow> bytes" where
  "tape_start kinds header = header @ write_record (tape_marker 0 MARKER_START (ucast kinds))"

definition pending_runs :: "drain \<Rightarrow> runs" where
  "pending_runs d = (case dn_pending d of None \<Rightarrow> [] | Some e \<Rightarrow> [(e, dn_repeats d)])"

definition file_of :: "u32 \<Rightarrow> bytes \<Rightarrow> runs \<Rightarrow> bytes" where
  "file_of kinds header rs = tape_start kinds header @ concat (map write_record (runs_records rs))"

definition file_ok :: "u32 \<Rightarrow> bytes \<Rightarrow> drain_phase \<Rightarrow> bool \<Rightarrow> drain \<Rightarrow> u64 \<Rightarrow> event list \<Rightarrow> bool" where
  "file_ok kinds header phase failed d written taken \<longleftrightarrow>
     (dn_pending d = None \<longrightarrow> dn_repeats d = 0)
     \<and> (if phase = Opening then dn_out d = [] \<and> taken = [] \<and> dn_pending d = None
        else if phase = Starting then dn_out d = header \<and> taken = [] \<and> dn_pending d = None
        else if phase = Closing then failed \<or> (\<exists>rs. dn_out d = file_of kinds header rs \<and> taken = runs_events rs)
        else if phase = Releasing \<or> phase = Closed
        then failed \<or> (\<exists>rs. dn_out d = file_of kinds header rs @ write_record (tape_marker (dn_next d + 1) MARKER_STOP written)
                        \<and> taken = runs_events rs)
        else if phase \<in> {Io_failed, Io_waiting, Io_settling, Fail_waiting, Fail_settling} then True
        else \<exists>rs. dn_out d = file_of kinds header rs \<and> taken = runs_events (rs @ pending_runs d))"

lemma pending_runs_next [simp]: "pending_runs (d\<lparr>dn_next := n\<rparr>) = pending_runs d"
  "pending_runs (d\<lparr>dn_out := out\<rparr>) = pending_runs d"
  by (simp_all add: pending_runs_def split: option.split)

lemma file_of_start: "header @ write_record (tape_marker 0 MARKER_START (ucast kinds)) = file_of kinds header []"
  by (simp add: file_of_def tape_start_def)

lemma flush_run_runs: "file_of kinds header rs @ flush_run e c = file_of kinds header (rs @ [(e, c)])"
  by (simp add: file_of_def runs_append flush_run_def) (simp add: runs_records_def)

lemma absorb_file:
  assumes d: "absorb ok e d = Some d'" and out: "dn_out d = file_of kinds header rs" and e: "unat (ev_sequence e) < 2 ^ 63"
    and none: "dn_pending d = None \<longrightarrow> dn_repeats d = 0"
  shows "(dn_pending d' = None \<longrightarrow> dn_repeats d' = 0)
    \<and> (\<exists>rs'. dn_out d' = file_of kinds header rs' \<and> runs_events (rs' @ pending_runs d') = runs_events (rs @ pending_runs d) @ [e])"
proof (cases "dn_pending d")
  case None
  then show ?thesis using d out none
    by (intro conjI exI [of _ rs]) (auto simp: absorb_def pending_runs_def runs_append runs_events_def)
next
  case (Some p)
  show ?thesis
  proof (cases "sat_add (sat_add (ev_sequence p) (dn_repeats d)) 1 = ev_sequence e \<and> same_payload p e")
    case True
    then have "copies p (sat_add (dn_repeats d) 1) = copies p (dn_repeats d) @ [e]" using copies_more e by blast
    then show ?thesis using d out Some True
      by (intro conjI exI [of _ rs]) (auto simp: absorb_def pending_runs_def runs_append runs_Cons)
  next
    case False
    then show ?thesis using d out Some
      by (intro conjI exI [of _ "rs @ [(p, dn_repeats d)]"])
        (auto simp: absorb_def pending_runs_def runs_append runs_Cons flush_run_runs split: if_splits)
  qed
qed

definition system_file_ok :: "u32 \<Rightarrow> bytes \<Rightarrow> rec_system \<Rightarrow> bool" where
  "system_file_ok kinds header S \<longleftrightarrow>
     file_ok kinds header (sy_phase S) (rr_failed (sy_rec S)) (sy_drain S) (rr_written (sy_rec S)) (sy_taken S)"

lemma drain_file:
  assumes written: "system_file_ok kinds header S" and inv: "record_inv threads S" and L: "length (sy_log S) < 2 ^ 62"
  shows "system_file_ok kinds header (drain_once kinds header ok S)"
proof (cases "sy_phase S = Slot_ready")
  case False
  show ?thesis
  proof (cases "sy_phase S = Finishing")
    case True
    then show ?thesis using written
      by (cases "dn_pending (sy_drain S)")
        (auto simp: system_file_ok_def file_ok_def drain_once_def pending_runs_def newly_taken_def flush_run_runs)
  next
    case no: False
    have settled: "sy_phase S = Io_settling \<or> sy_phase S = Fail_settling \<Longrightarrow> rr_failed (sy_rec S)"
      using inv by (auto simp: record_inv_def drain_ok_def)
    show ?thesis
    proof (cases "sy_phase S = Starting")
      case True
      then show ?thesis using written
        by (auto simp: system_file_ok_def file_ok_def drain_once_def newly_taken_def pending_runs_def file_of_start
            intro!: exI [of _ "[]"])
    next
      case start: False
      show ?thesis using written False no settled start
        by (cases "sy_phase S")
          (auto simp: system_file_ok_def file_ok_def drain_once_def newly_taken_def settle_undrained_def)
    qed
  qed
next
  case True
  let ?e = "slab_event (sy_rec S) (claim_slot (sy_rec S) (dn_next (sy_drain S)))" and ?n = "unat (dn_next (sy_drain S))"
  have n: "?n < length (sy_log S)" "published (sy_rec S) (sy_log S) ?n" "slab_ok (sy_rec S) (sy_log S)"
    using inv True by (auto simp: record_inv_def drain_ok_def)
  then have "ev_sequence ?e = word_of_nat (Suc ?n)" by (simp add: published_def claim_slot_def slab_ok_def)
  moreover have "unat (word_of_nat (Suc ?n) :: u64) = Suc ?n" using n(1) L by (intro small_Suc) simp
  ultimately have e: "unat (ev_sequence ?e) < 2 ^ 63" using n(1) L by simp
  obtain rs where rs: "dn_out (sy_drain S) = file_of kinds header rs" "sy_taken S = runs_events (rs @ pending_runs (sy_drain S))"
    and none: "dn_pending (sy_drain S) = None \<longrightarrow> dn_repeats (sy_drain S) = 0"
    using written True by (auto simp: system_file_ok_def file_ok_def)
  show ?thesis
  proof (cases "absorb ok ?e (sy_drain S)")
    case None
    then show ?thesis using True none by (simp add: system_file_ok_def file_ok_def drain_once_def)
  next
    case (Some d)
    then show ?thesis using True absorb_file [OF Some rs(1) e none] rs(2)
      by (auto simp: system_file_ok_def file_ok_def drain_once_def newly_taken_def)
  qed
qed

end
