(* ===== verification/Pb_Trace_Query.thy ===== *)
theory Pb_Trace_Query
  imports Pb_Tape
begin

section \<open>Trace queries of the hub (trace_query.rs)\<close>

text \<open>
  \<open>bindings/rust/pinbridge-hub-core/src/trace_query.rs\<close>: reading a recorded trace file, importing its
  records, and the bounded queries and exports over them. The SQLite table is a parameter, a \<open>store\<close>
  with the four statements the code prepares; \<open>store_ok\<close> says what SQL promises of them. The JSON library
  is a parameter too: \<open>json_parse\<close> reads the metadata, \<open>json_text\<close> and \<open>json_pretty\<close> print a value. The
  file system (where the sidecar database is kept, when it is stale, and the temporary it is built in) is
  not modelled: a query takes the database or the error \<open>ensure_database\<close> gave. A JSON object is the list
  of its members, the order is that of the code that makes it.
\<close>

datatype hub_error =
    Validation string | Permission string | Agent string | Connection string | Internal string
  | Operation string hub_error

definition TRACE_HEADER_LEN :: nat where "TRACE_HEADER_LEN = 16"
definition RECORD_LEN :: nat where "RECORD_LEN = 88"
definition MAX_META_LEN :: nat where "MAX_META_LEN = 1024 * 1024"

record trace_row =
  tq_sequence :: u64
  tq_kind :: u32
  tq_thread_id :: u32
  tq_address :: u64
  tq_args :: "u64 list"

definition parse_record :: "bytes \<Rightarrow> trace_row" where
  "parse_record bs = \<lparr>tq_sequence = u64_at bs 0, tq_kind = u32_at bs 8, tq_thread_id = u32_at bs 12,
     tq_address = u64_at bs 16, tq_args = map (\<lambda>index. u64_at bs (24 + index * 8)) [0..<8]\<rparr>"

text \<open>The header and the metadata; what is left are the records.\<close>

definition open_trace :: "(bytes \<Rightarrow> json option) \<Rightarrow> bytes \<Rightarrow> hub_error + (bytes \<times> bytes)" where
  "open_trace json_parse file' =
     (if length file' < TRACE_HEADER_LEN then Inl (Validation ''Trace artifact has a short header'')
      else let header = take TRACE_HEADER_LEN file'; rest = drop TRACE_HEADER_LEN file'
           in if take 4 header \<noteq> map of_char ''PBTR'' then Inl (Validation ''Trace artifact has invalid PBTR magic'')
              else let version = u32_at header 4
                   in if version \<noteq> 1 then Inl (Validation (''unsupported PBTR version: '' @ show_word version))
                      else let metadata_len = unat (u32_at header 8)
                           in if metadata_len > MAX_META_LEN then Inl (Validation ''Trace metadata exceeds 1 MiB'')
                              else if length rest < metadata_len then Inl (Validation ''Trace artifact has truncated metadata'')
                              else let metadata = take metadata_len rest
                                   in if metadata = [] then Inr (rest, map of_char ''{}'')
                                      else if json_parse metadata = None then Inl (Validation ''invalid Trace metadata'')
                                      else Inr (drop metadata_len rest, metadata))"

subsection \<open>The table\<close>

datatype trace_filter = Kind u32 | Address u64 | Thread u32 | Sequence u64 | Memory u64

text \<open>The \<open>FROM\<close> and \<open>WHERE\<close> clauses of \<open>database_filter\<close>; the memory index holds the records of kind 2 and 10.\<close>

fun row_matches :: "trace_filter \<Rightarrow> trace_row \<Rightarrow> bool" where
  "row_matches (Kind kind) r = (tq_kind r = kind)"
| "row_matches (Address address) r = (tq_address r = address)"
| "row_matches (Thread thread) r = (tq_thread_id r = thread)"
| "row_matches (Sequence sequence) r = (tq_sequence r = sequence)"
| "row_matches (Memory address) r = (tq_kind r \<in> {2, 10} \<and> tq_args r ! 0 = address)"

definition eligible :: "trace_filter \<Rightarrow> u64 option \<Rightarrow> trace_row \<Rightarrow> bool" where
  "eligible f before' r \<longleftrightarrow> row_matches f r \<and> (case before' of None \<Rightarrow> True | Some b \<Rightarrow> tq_sequence r < b)"

text \<open>
  \<open>INSERT\<close> into the table, \<open>SELECT COUNT(*)\<close> and \<open>SELECT ... ORDER BY sequence DESC LIMIT\<close>; \<open>st_rows\<close> is
  what a database holds.
\<close>

record 'd store =
  st_rows :: "'d \<Rightarrow> trace_row list"
  st_empty :: 'd
  st_insert :: "trace_row \<Rightarrow> 'd \<Rightarrow> 'd option"
  st_count :: "trace_filter \<Rightarrow> u64 option \<Rightarrow> 'd \<Rightarrow> nat"
  st_select :: "trace_filter \<Rightarrow> u64 option \<Rightarrow> nat \<Rightarrow> 'd \<Rightarrow> trace_row list"

definition store_ok :: "'d store \<Rightarrow> bool" where
  "store_ok st \<longleftrightarrow> st_rows st (st_empty st) = []
     \<and> (\<forall>r d. tq_sequence r \<notin> tq_sequence ` set (st_rows st d) \<longrightarrow>
          (\<exists>d'. st_insert st r d = Some d' \<and> st_rows st d' = st_rows st d @ [r]))
     \<and> (\<forall>r d. tq_sequence r \<in> tq_sequence ` set (st_rows st d) \<longrightarrow> st_insert st r d = None)
     \<and> (\<forall>f b d. st_count st f b d = length (filter (eligible f b) (st_rows st d)))
     \<and> (\<forall>f b limit d. st_select st f b limit d =
          take limit (rev (sort_key tq_sequence (filter (eligible f b) (st_rows st d)))))"

text \<open>The import loop: whole records, a short tail, a sequence beyond \<open>i64\<close>, a duplicate key.\<close>

function import_rows :: "'d store \<Rightarrow> bytes \<Rightarrow> nat \<Rightarrow> 'd \<Rightarrow> hub_error + ('d \<times> nat \<times> nat)" where
  "import_rows st bs records d =
     (if bs = [] then Inr (d, records, 0)
      else if length bs < RECORD_LEN then Inr (d, records, length bs)
      else let r = parse_record (take RECORD_LEN bs)
           in if unat (tq_sequence r) \<ge> 2 ^ 63
              then Inl (Validation ''Trace sequence exceeds the local database range'')
              else case st_insert st r d of
                     None \<Rightarrow> Inl (Internal ''import Trace event'')
                   | Some d \<Rightarrow> import_rows st (drop RECORD_LEN bs) (Suc records) d)"
  by pat_completeness auto
termination by (relation "measure (\<lambda>(_, bs, _, _). length bs)") (auto simp: RECORD_LEN_def)

declare import_rows.simps [simp del]

record 'd trace_database =
  tb_store :: 'd
  tb_path :: string
  tb_source_bytes :: nat
  tb_physical_records :: nat
  tb_truncated_tail :: nat
  tb_metadata :: bytes

definition build_database ::
  "'d store \<Rightarrow> (bytes \<Rightarrow> json option) \<Rightarrow> string \<Rightarrow> bytes \<Rightarrow> hub_error + 'd trace_database" where
  "build_database st json_parse database source =
     (case open_trace json_parse source of
        Inl e \<Rightarrow> Inl e
      | Inr (rest, metadata) \<Rightarrow>
          (case import_rows st rest 0 (st_empty st) of
             Inl e \<Rightarrow> Inl e
           | Inr (d, records, tail) \<Rightarrow>
               Inr \<lparr>tb_store = d, tb_path = database, tb_source_bytes = length source, tb_physical_records = records,
                    tb_truncated_tail = tail, tb_metadata = metadata\<rparr>))"


subsection \<open>Arguments\<close>

type_synonym json_args = "(string \<times> json) list"

definition required_string :: "json_args \<Rightarrow> string \<Rightarrow> hub_error + string" where
  "required_string args name =
     (case Option.bind (map_of args name) json_as_str of
        None \<Rightarrow> Inl (Validation (name @ '' must be string'')) | Some s \<Rightarrow> Inr s)"

definition parse_integer :: "string \<Rightarrow> hub_error + u64" where
  "parse_integer text' =
     (let v = trim text';
          hex = (case strip_prefix ''0x'' v of Some rest \<Rightarrow> Some rest | None \<Rightarrow> strip_prefix ''0X'' v);
          parsed = (case hex of Some digits \<Rightarrow> parse_unsigned 16 (2 ^ 64) digits | None \<Rightarrow> parse_unsigned 10 (2 ^ 64) v)
      in case parsed of
           None \<Rightarrow> Inl (Validation (''invalid Trace integer: '' @ v)) | Some n \<Rightarrow> Inr (word_of_nat n))"

definition as_u32 :: "string \<Rightarrow> hub_error + u64 \<Rightarrow> hub_error + u32" where
  "as_u32 message parsed =
     (case parsed of Inl e \<Rightarrow> Inl e
      | Inr v \<Rightarrow> if unat v < 2 ^ 32 then Inr (ucast v) else Inl (Validation message))"

definition trace_kinds :: "(string \<times> u32) list" where
  "trace_kinds = [(''memory_plain'', 2), (''exec_plain'', 3), (''branch'', 4), (''branch_edge'', 4), (''syscall'', 5),
     (''exception'', 6), (''context_change'', 6), (''exec'', 9), (''exec_bytes'', 9), (''memory'', 10),
     (''mem_value'', 10), (''marker'', 11), (''repeat'', 12), (''registers'', 13), (''reg_snapshot'', 13)]"

definition parse_kind :: "string \<Rightarrow> hub_error + u32" where
  "parse_kind v =
     (case map_of trace_kinds (to_lower (trim v)) of
        Some kind \<Rightarrow> Inr kind | None \<Rightarrow> as_u32 ''Trace kind id is out of range'' (parse_integer v))"

definition trace_kind_name :: "u32 \<Rightarrow> string" where
  "trace_kind_name kind =
     (case map_of [(1, ''hook_regs''), (2, ''memory_plain''), (3, ''exec_plain''), (4, ''branch''), (5, ''syscall''),
        (6, ''exception''), (7, ''module_load''), (8, ''module_unload''), (9, ''exec''), (10, ''memory''),
        (11, ''marker''), (12, ''repeat''), (13, ''registers'')] kind of
        Some name \<Rightarrow> name | None \<Rightarrow> ''unknown_'' @ show_word kind)"

definition predicate_parse :: "string \<Rightarrow> string \<Rightarrow> hub_error + trace_filter" where
  "predicate_parse index key =
     (if index = ''kind'' then map_sum id Kind (parse_kind key)
      else if index = ''address'' then map_sum id Address (parse_integer key)
      else if index = ''thread'' then map_sum id Thread (as_u32 ''Trace thread id is out of range'' (parse_integer key))
      else if index = ''sequence'' then map_sum id Sequence (parse_integer key)
      else if index = ''memory'' then map_sum id Memory (parse_integer key)
      else Inl (Validation ''Trace index must be kind, address, thread, sequence, or memory''))"

text \<open>A sequence key or a page position beyond \<open>i64\<close> is refused.\<close>

definition filter_ok :: "trace_filter \<Rightarrow> bool" where
  "filter_ok f \<longleftrightarrow> (case f of Sequence sequence \<Rightarrow> unat sequence < 2 ^ 63 | _ \<Rightarrow> True)"

definition TRACE_FIELDS :: "string list" where
  "TRACE_FIELDS = [''sequence'', ''kind'', ''kind_id'', ''thread_id'', ''address'', ''size'', ''bytes'', ''memory'', ''access'',
     ''value'', ''target'', ''taken'', ''number'', ''phase'', ''arguments'', ''return_value'', ''errno'', ''reason'', ''info'',
     ''context_ip'', ''tag'', ''marker_value'', ''frame'', ''reg_id'', ''width'', ''part'', ''repeat_count'', ''original_kind'', ''args'']"

fun check_fields :: "json list \<Rightarrow> hub_error + string list" where
  "check_fields [] = Inr []"
| "check_fields (v # vs) =
     (case json_as_str v of
        None \<Rightarrow> Inl (Validation ''Trace projected field must be a string'')
      | Some field \<Rightarrow>
          if field \<notin> set TRACE_FIELDS then Inl (Validation (''unsupported Trace projected field: '' @ field))
          else map_sum id (Cons field) (check_fields vs))"

definition parse_fields :: "json_args \<Rightarrow> hub_error + string list" where
  "parse_fields args =
     (case map_of args ''fields'' of
        Some (JArray vs) \<Rightarrow>
          if length vs > 32 then Inl (Validation ''Trace field projection exceeds 32 entries'') else check_fields vs
      | _ \<Rightarrow> Inr [])"

definition json_flag :: "json_args \<Rightarrow> string \<Rightarrow> bool" where
  "json_flag args name = (case map_of args name of Some (JBool b) \<Rightarrow> b | _ \<Rightarrow> False)"

subsection \<open>Rows as JSON\<close>

text \<open>\<open>{:02x}\<close> and \<open>{:016x}\<close>.\<close>

definition pad_hex :: "nat \<Rightarrow> nat \<Rightarrow> string" where
  "pad_hex width n = replicate (width - length (show_radix 16 n)) (CHR ''0'') @ show_radix 16 n"

definition hex_bytes :: "bytes \<Rightarrow> string" where "hex_bytes bs = concat (map (\<lambda>b. pad_hex 2 (unat b)) bs)"

definition hex_word :: "u64 \<Rightarrow> string" where "hex_word w = show_hex (unat w)"

definition payload_fields :: "trace_row \<Rightarrow> (string \<times> json) list" where
  "payload_fields r =
     (let arg = (\<lambda>i. tq_args r ! i); dec = (\<lambda>v. JString (show_word v)); hex = (\<lambda>v. JString (hex_word v)); kind = tq_kind r
      in if kind = 2 \<or> kind = 10
         then [(''memory'', hex (arg 0)), (''size'', dec (arg 1)),
               (''access'', JString (if arg 2 = 0 then ''read'' else if arg 2 = 1 then ''write''
                                     else if arg 2 = 2 then ''read2'' else ''unknown''))]
              @ (if kind = 10 then [(''value'', hex (arg 3))] else [])
         else if kind = 3 then [(''size'', dec (arg 0))]
         else if kind = 4 then [(''target'', hex (arg 0)), (''taken'', JBool (arg 1 \<noteq> 0))]
         else if kind = 5
         then [(''number'', dec (arg 0)), (''phase'', JString (if arg 1 \<noteq> 0 then ''exit'' else ''entry''))]
              @ (if arg 1 \<noteq> 0 then [(''return_value'', hex (arg 3)), (''errno'', hex (arg 4))]
                 else [(''arguments'', JArray (map hex (drop 2 (tq_args r))))])
         else if kind = 6 then [(''reason'', dec (arg 0)), (''info'', hex (arg 1)), (''context_ip'', hex (arg 2))]
         else if kind = 9
         then [(''size'', dec (arg 0)),
               (''bytes'', JString (hex_bytes (take (unat (min (arg 0) 15)) (le_u64 (arg 1) @ le_u64 (arg 2)))))]
         else if kind = 11 then [(''tag'', dec (arg 0)), (''marker_value'', hex (arg 1))]
         else if kind = 12
         then [(''repeat_count'', dec (arg 0)), (''original_kind'', JString (trace_kind_name (ucast (arg 1))))]
         else if kind = 13
         then [(''frame'', dec (arg 7)), (''reg_id'', dec (arg 0)), (''width'', dec (arg 3)), (''part'', dec (arg 4)),
               (''value'', JString (''0x'' @ pad_hex 16 (unat (arg 2)) @ pad_hex 16 (unat (arg 1))))]
         else [(''args'', JArray (map hex (tq_args r)))])"

definition base_fields :: "trace_row \<Rightarrow> (string \<times> json) list" where
  "base_fields r = [(''sequence'', JString (show_word (tq_sequence r))), (''kind'', JString (trace_kind_name (tq_kind r))),
     (''kind_id'', JString (show_word (tq_kind r))), (''thread_id'', JString (show_word (tq_thread_id r))),
     (''address'', JString (hex_word (tq_address r)))]"

definition project_record :: "bool \<Rightarrow> string list \<Rightarrow> trace_row \<Rightarrow> json" where
  "project_record payload wanted r =
     (let row = base_fields r @ (if payload then payload_fields r else [])
      in if wanted = []
         then JObject (if \<not> payload then filter (\<lambda>(name, _). name \<noteq> ''kind_id'') row else row)
         else let row = (if list_ex (\<lambda>field. map_of row field = None) wanted then base_fields r @ payload_fields r else row)
              in JObject (List.map_filter (\<lambda>field. map_option (Pair field) (map_of row field)) (remdups wanted)))"

subsection \<open>A query\<close>

record trace_page =
  pg_matched :: nat
  pg_eligible :: nat
  pg_rows :: "trace_row list"
  pg_has_older :: bool
  pg_next_before :: u64

text \<open>\<open>query_database\<close> and what \<open>query\<close> makes of it: the rows in ascending order and the next position.\<close>

definition trace_query_page :: "'d store \<Rightarrow> trace_filter \<Rightarrow> u64 \<Rightarrow> nat \<Rightarrow> 'd \<Rightarrow> hub_error + trace_page" where
  "trace_query_page st f before' limit d =
     (if \<not> filter_ok f then Inl (Validation ''Trace sequence is out of range'')
      else if before' \<noteq> 0 \<and> unat before' \<ge> 2 ^ 63 then Inl (Validation ''Trace page position is out of range'')
      else let bound = (if before' = 0 then None else Some before');
               matched = st_count st f None d;
               eligible_total = (case bound of None \<Rightarrow> matched | Some b \<Rightarrow> st_count st f (Some b) d);
               rows = rev (st_select st f bound limit d);
               first_sequence = (case rows of [] \<Rightarrow> 0 | r # _ \<Rightarrow> tq_sequence r);
               has_older = eligible_total > length rows
           in Inr \<lparr>pg_matched = matched, pg_eligible = eligible_total, pg_rows = rows, pg_has_older = has_older,
                   pg_next_before = (if has_older then first_sequence else 0)\<rparr>)"

definition parse_limit :: "string \<Rightarrow> hub_error + nat" where
  "parse_limit s =
     (case parse_unsigned 10 (2 ^ 64) s of
        None \<Rightarrow> Inl (Validation ''Trace index limit must be decimal'')
      | Some limit \<Rightarrow> if 1 \<le> limit \<and> limit \<le> 256 then Inr limit else Inl (Validation ''Trace index limit must be 1..256''))"

definition and_then :: "hub_error + 'a \<Rightarrow> ('a \<Rightarrow> hub_error + 'b) \<Rightarrow> hub_error + 'b" where
  "and_then x f = (case x of Inl e \<Rightarrow> Inl e | Inr v \<Rightarrow> f v)"

definition metadata_value :: "(bytes \<Rightarrow> json option) \<Rightarrow> bool \<Rightarrow> bytes \<Rightarrow> hub_error + json" where
  "metadata_value json_parse include metadata =
     (if \<not> include then Inr JNull
      else (case json_parse metadata of None \<Rightarrow> Inl (Validation ''invalid Trace metadata'') | Some v \<Rightarrow> Inr v))"

definition trace_query ::
  "(bytes \<Rightarrow> json option) \<Rightarrow> 'd store \<Rightarrow> hub_error + 'd trace_database \<Rightarrow> string \<Rightarrow> json_args
     \<Rightarrow> hub_error + (json \<times> json list)" where
  "trace_query json_parse st database path args =
     and_then (required_string args ''index'') (\<lambda>index.
     and_then (required_string args ''key'') (\<lambda>key.
     and_then (required_string args ''limit'') (\<lambda>limit_text.
     and_then (parse_limit limit_text) (\<lambda>limit.
     and_then (case Option.bind (map_of args ''before'') json_as_str of None \<Rightarrow> Inr 0 | Some s \<Rightarrow> parse_integer s) (\<lambda>before'.
     and_then (parse_fields args) (\<lambda>wanted.
     and_then (predicate_parse index key) (\<lambda>f.
     and_then database (\<lambda>db.
     and_then (trace_query_page st f before' limit (tb_store db)) (\<lambda>page.
     and_then (metadata_value json_parse (json_flag args ''metadata'') (tb_metadata db)) (\<lambda>metadata.
       let payload = json_flag args ''payload''; dec = (\<lambda>n. JString (show_nat n));
           events = map (project_record payload wanted) (pg_rows page)
       in Inr (JObject [(''artifact'', JString path), (''database'', JString (tb_path db)),
            (''file_bytes'', dec (tb_source_bytes db)), (''format'', JString ''pbtr''),
            (''version'', JString ''1''), (''query_store'', JString ''sqlite''), (''index'', JString index), (''key'', JString key),
            (''before'', JString (show_word before')), (''limit'', dec limit), (''payload'', JBool payload),
            (''physical_records'', dec (tb_physical_records db)), (''matched_total'', dec (pg_matched page)),
            (''eligible_total'', dec (pg_eligible page)), (''returned'', dec (length events)),
            (''has_older'', JBool (pg_has_older page)), (''next_before'', JString (show_word (pg_next_before page))),
            (''truncated_tail_bytes'', dec (tb_truncated_tail db)), (''metadata'', metadata),
            (''events'', JArray events)], events)))))))))))"

text \<open>\<open>prepare\<close>, given the size of the database file.\<close>

definition trace_prepare :: "nat \<Rightarrow> hub_error + 'd trace_database \<Rightarrow> hub_error + json" where
  "trace_prepare database_bytes database =
     and_then database (\<lambda>db.
       Inr (JObject [(''state'', JString ''ready''), (''query_store'', JString ''sqlite''), (''database'', JString (tb_path db)),
         (''database_bytes'', JString (show_nat database_bytes)), (''records'', JString (show_nat (tb_physical_records db)))]))"

subsection \<open>Exports\<close>

definition csv_cell :: "string \<Rightarrow> string" where
  "csv_cell s =
     (if list_ex (\<lambda>c. c \<in> set [CHR '','', CHR 0x22, CHR 0x0D, CHR 0x0A]) s
      then [CHR 0x22] @ replace_text [CHR 0x22] [CHR 0x22, CHR 0x22] s @ [CHR 0x22] else s)"

definition CSV_FIELDS :: "string list" where
  "CSV_FIELDS = [''sequence'', ''kind'', ''thread_id'', ''address'', ''memory'', ''access'', ''size'', ''value'', ''target'',
     ''taken'', ''number'', ''phase'', ''bytes'']"

definition csv_value :: "(json \<Rightarrow> string) \<Rightarrow> json \<Rightarrow> string \<Rightarrow> string" where
  "csv_value json_text event field =
     (case event of
        JObject wanted \<Rightarrow>
          (case map_of wanted field of None \<Rightarrow> [] | Some JNull \<Rightarrow> [] | Some (JString s) \<Rightarrow> s | Some v \<Rightarrow> json_text v)
      | _ \<Rightarrow> [])"

definition csv_line :: "string list \<Rightarrow> string" where
  "csv_line cells = join_with '','' cells @ [CHR 0x0D, CHR 0x0A]"

definition trace_csv :: "(json \<Rightarrow> string) \<Rightarrow> json list \<Rightarrow> string" where
  "trace_csv json_text events =
     csv_line CSV_FIELDS @ concat (map (\<lambda>e. csv_line (map (\<lambda>f. csv_cell (csv_value json_text e f)) CSV_FIELDS)) events)"

definition strip_suffix :: "string \<Rightarrow> string \<Rightarrow> string option" where
  "strip_suffix ending s = map_option rev (strip_prefix (rev ending) (rev s))"

definition safe_filename :: "string \<Rightarrow> string \<Rightarrow> hub_error + string" where
  "safe_filename requested extension =
     (let requested = trim requested;
          stem = (case strip_suffix (''.'' @ extension) requested of None \<Rightarrow> requested | Some s \<Rightarrow> s)
      in if stem = [] \<or> length stem > 128
            \<or> \<not> list_all (\<lambda>c. is_upper c \<or> is_lower c \<or> is_digit c \<or> c \<in> set ''-_.'') stem
         then Inl (Validation ''Trace export filename must use 1..128 ASCII letters, digits, dot, dash, or underscore'')
         else Inr (stem @ ''.'' @ extension))"

definition string_or :: "json_args \<Rightarrow> string \<Rightarrow> string \<Rightarrow> string" where
  "string_or args name otherwise = (case Option.bind (map_of args name) json_as_str of None \<Rightarrow> otherwise | Some s \<Rightarrow> s)"

text \<open>\<open>write_file\<close> stores the data under a fresh path in the export directory and says which.\<close>

definition trace_export ::
  "(bytes \<Rightarrow> json option) \<Rightarrow> (json \<Rightarrow> string) \<Rightarrow> (json \<Rightarrow> string) \<Rightarrow> (string \<Rightarrow> string \<Rightarrow> hub_error + string)
     \<Rightarrow> 'd store \<Rightarrow> hub_error + 'd trace_database \<Rightarrow> string \<Rightarrow> json_args \<Rightarrow> hub_error + json" where
  "trace_export json_parse json_text json_pretty write_file st database path args =
     and_then (trace_query json_parse st database path args) (\<lambda>(_, events).
       let form = string_or args ''format'' ''jsonl'';
           chosen = (if form = ''json'' then Inr (''json'', ''application/json'', json_pretty (JArray events))
              else if form = ''jsonl''
              then Inr (''jsonl'', ''application/x-ndjson'', join_with [CHR 0x0A] (map json_text events))
              else if form = ''csv'' then Inr (''csv'', ''text/csv'', trace_csv json_text events)
              else Inl (Validation ''Trace index export format must be json, jsonl, or csv''))
       in and_then chosen (\<lambda>(extension, mime_type, data).
          and_then (safe_filename (string_or args ''filename'' ''trace-index'') extension) (\<lambda>filename.
            let delivery = string_or args ''delivery'' ''file'';
                first = [(''delivery'', JString delivery), (''format'', JString form), (''mime_type'', JString mime_type),
                  (''filename'', JString filename)];
                rows = (''rows'', JString (show_nat (length events))); size' = (''bytes'', JString (show_nat (length data)))
            in if delivery = ''inline''
               then if length data > 2 * 1024 * 1024 then Inl (Validation ''inline Trace export exceeds 2 MiB; use delivery=file'')
                    else Inr (JObject (first @ [rows, size', (''data'', JString data)]))
               else if delivery = ''file''
               then and_then (write_file filename data) (\<lambda>output. Inr (JObject (first @ [(''path'', JString output), rows, size'])))
               else Inl (Validation ''Trace index export delivery must be file or inline''))))"

end
