(* ===== verification/Pb_Trace_Proofs.thy ===== *)
theory Pb_Trace_Proofs
  imports Pb_Trace_Query Pb_Tape_File
begin

section \<open>From the recorder to the hub's queries\<close>

text \<open>
  The file the recorder leaves is the file the hub reads, and the pages of a query, followed to the end,
  are all the records that match.
\<close>

subsection \<open>A store\<close>

text \<open>The table as a list of rows, an instance of what the code expects of SQLite.\<close>

definition list_store :: "trace_row list store" where
  "list_store = \<lparr>st_rows = (\<lambda>d. d), st_empty = [],
     st_insert = (\<lambda>r d. if tq_sequence r \<in> tq_sequence ` set d then None else Some (d @ [r])),
     st_count = (\<lambda>f b d. length (filter (eligible f b) d)),
     st_select = (\<lambda>f b limit d. take limit (rev (sort_key tq_sequence (filter (eligible f b) d))))\<rparr>"

lemma list_store_ok: "store_ok list_store"
  by (simp add: store_ok_def list_store_def)

subsection \<open>Walking the pages\<close>

text \<open>A reader that asks for the newest page and follows \<open>next_before\<close> until it is 0.\<close>

fun trace_walk :: "nat \<Rightarrow> 'd store \<Rightarrow> trace_filter \<Rightarrow> nat \<Rightarrow> u64 \<Rightarrow> 'd \<Rightarrow> trace_row list option" where
  "trace_walk 0 st f limit before' d = None"
| "trace_walk (Suc fuel) st f limit before' d =
     (case trace_query_page st f before' limit d of
        Inl _ \<Rightarrow> None
      | Inr page \<Rightarrow>
          if pg_next_before page = 0 then Some (pg_rows page)
          else map_option (\<lambda>older. older @ pg_rows page) (trace_walk fuel st f limit (pg_next_before page) d))"

lemma filter_below_nth:
  "sorted_wrt (\<lambda>a b. key a < (key b :: 'k::linorder)) xs \<Longrightarrow> k < length xs \<Longrightarrow> filter (\<lambda>x. key x < key (xs ! k)) xs = take k xs"
proof (induction xs arbitrary: k)
  case (Cons x xs)
  show ?case
  proof (cases k)
    case 0
    then show ?thesis using Cons.prems(1) by (auto simp: filter_empty_conv)
  next
    case (Suc j)
    then have "key x < key (xs ! j)" using Cons.prems by simp
    then show ?thesis using Suc Cons.IH [of j] Cons.prems by simp
  qed
qed simp

lemma strictly_sorted_key:
  "distinct (map key xs) \<Longrightarrow> sorted_wrt (\<lambda>a b. key a < (key b :: 'k::linorder)) (sort_key key xs)"
proof -
  assume d: "distinct (map key xs)"
  have "distinct (map key (sort_key key xs))"
    using d by (metis distinct_map distinct_sort set_sort inj_on_cong)
  then have "sorted_wrt (<) (map key (sort_key key xs))" by (simp add: strict_sorted_iff)
  then show ?thesis by (simp add: sorted_wrt_map)
qed

text \<open>The page that ends before the \<open>k\<close>-th match: the last \<open>limit\<close> of the first \<open>k\<close>.\<close>

definition walk_at :: "trace_row list \<Rightarrow> u64 \<Rightarrow> nat \<Rightarrow> bool" where
  "walk_at M b k \<longleftrightarrow> k \<le> length M \<and> (if b = 0 then k = length M else filter (\<lambda>r. tq_sequence r < b) M = take k M) \<and> unat b < 2 ^ 63"

lemma eligible_filter:
  "filter (eligible f None) xs = filter (row_matches f) xs"
  "filter (eligible f (Some b)) xs = filter (\<lambda>r. tq_sequence r < b) (filter (row_matches f) xs)"
  by (auto simp: eligible_def intro!: filter_cong)

lemma trace_page_at:
  assumes st: "store_ok st" and ok: "filter_ok f"
    and M: "M = sort_key tq_sequence (filter (row_matches f) (st_rows st d))" and at: "walk_at M b k"
  shows "trace_query_page st f b limit d = Inr \<lparr>pg_matched = length M, pg_eligible = k, pg_rows = drop (k - limit) (take k M),
    pg_has_older = (k > limit), pg_next_before =
      (if k > limit then (case drop (k - limit) (take k M) of [] \<Rightarrow> 0 | r # _ \<Rightarrow> tq_sequence r) else 0)\<rparr>"
proof -
  let ?rows = "st_rows st d" and ?bound = "if b = 0 then None else Some b"
  have k: "k \<le> length M" using at by (simp add: walk_at_def)
  have len: "length M = length (filter (row_matches f) ?rows)" by (simp add: M)
  have page: "sort_key tq_sequence (filter (eligible f ?bound) ?rows) = take k M"
    using at by (simp add: walk_at_def eligible_filter filter_sort [symmetric] M split: if_splits)
  then have "length (filter (eligible f ?bound) ?rows) = k" using k by (metis length_sort length_take min.absorb2)
  then have count: "st_count st f ?bound d = k" using st by (simp add: store_ok_def)
  have all: "st_count st f None d = length M" using st by (simp add: store_ok_def len eligible_filter)
  have "st_select st f ?bound limit d = take limit (rev (take k M))"
    using st unfolding store_ok_def page [symmetric] by blast
  then have rows: "rev (st_select st f ?bound limit d) = drop (k - limit) (take k M)"
    using k by (simp add: take_rev)
  have "length (st_select st f ?bound limit d) = min limit k"
    using arg_cong [OF rows, of length] k by (simp add: min_def)
  then have more': "k > length (st_select st f ?bound limit d) \<longleftrightarrow> k > limit" by (simp add: min_def)
  have bound: "\<not> (b \<noteq> 0 \<and> unat b \<ge> 2 ^ 63)" using at by (simp add: walk_at_def)
  show ?thesis
  proof (cases "b = 0")
    case True
    then have kM: "k = length M" using at by (simp add: walk_at_def)
    show ?thesis using ok all rows more' unfolding kM by (simp add: True trace_query_page_def Let_def)
  next
    case False
    then show ?thesis using ok all rows more' count bound by (simp add: trace_query_page_def Let_def)
  qed
qed

lemma trace_walk_from:
  assumes st: "store_ok st" and ok: "filter_ok f"
    and M: "M = sort_key tq_sequence (filter (row_matches f) (st_rows st d))"
    and sorted: "sorted_wrt (\<lambda>r r'. tq_sequence r < tq_sequence r') M"
    and small: "\<forall>r \<in> set M. unat (tq_sequence r) < 2 ^ 63" and limit: "0 < limit"
  shows "walk_at M b k \<Longrightarrow> k div limit < fuel \<Longrightarrow> trace_walk fuel st f limit b d = Some (take k M)"
proof (induction fuel arbitrary: b k)
  case (Suc fuel)
  note page = trace_page_at [OF st ok M Suc.prems(1), of limit]
  have k: "k \<le> length M" using Suc.prems(1) by (simp add: walk_at_def)
  show ?case
  proof (cases "k > limit")
    case False
    then show ?thesis by (simp add: page)
  next
    case True
    let ?j = "k - limit"
    have j: "?j < length M" "0 < ?j" using True k limit by auto
    have split: "drop ?j (take k M) = M ! ?j # drop (Suc ?j) (take k M)"
      using True k limit by (subst Cons_nth_drop_Suc [symmetric]) auto
    have "tq_sequence (M ! 0) < tq_sequence (M ! ?j)" using sorted j by (simp add: sorted_wrt_iff_nth_less)
    then have nz: "tq_sequence (M ! ?j) \<noteq> 0" by (metis word_not_simps(1))
    have "walk_at M (tq_sequence (M ! ?j)) ?j"
      using filter_below_nth [OF sorted j(1)] j small nz by (simp add: walk_at_def)
    moreover have "?j div limit < fuel" using Suc.prems(2) True limit by (simp add: le_div_geq)
    ultimately have "trace_walk fuel st f limit (tq_sequence (M ! ?j)) d = Some (take ?j M)" by (rule Suc.IH)
    moreover have "take ?j M @ drop ?j (take k M) = take k M"
      using True by (metis append_take_drop_id diff_le_self min.absorb2 take_take min.commute)
    ultimately show ?thesis using True split nz by (simp add: page)
  qed
qed simp

text \<open>
  C40. Paging through a trace ends with everything. Over any table with distinct sequence numbers, a
  reader that starts at the newest page and follows \<open>next_before\<close> stops after at most \<open>n div limit + 1\<close>
  pages for \<open>n\<close> matching records, and has then read each of them once, in order.
\<close>

theorem trace_walk_complete:
  assumes "store_ok st" and "filter_ok f" and "0 < limit"
    and "distinct (map tq_sequence (st_rows st d))" and "\<forall>r \<in> set (st_rows st d). unat (tq_sequence r) < 2 ^ 63"
  shows "trace_walk (length (filter (row_matches f) (st_rows st d)) div limit + 1) st f limit 0 d
    = Some (sort_key tq_sequence (filter (row_matches f) (st_rows st d)))"
proof -
  let ?M = "sort_key tq_sequence (filter (row_matches f) (st_rows st d))"
  have "distinct (map tq_sequence (filter (row_matches f) (st_rows st d)))"
    using assms(4) by (rule distinct_map_filter)
  then have "sorted_wrt (\<lambda>r r'. tq_sequence r < tq_sequence r') ?M" by (rule strictly_sorted_key)
  moreover have "\<forall>r \<in> set ?M. unat (tq_sequence r) < 2 ^ 63" using assms(5) by simp
  moreover have "walk_at ?M 0 (length ?M)" by (simp add: walk_at_def)
  ultimately have "trace_walk (length (filter (row_matches f) (st_rows st d)) div limit + 1) st f limit 0 d
      = Some (take (length ?M) ?M)"
    by (intro trace_walk_from [OF assms(1,2) refl _ _ assms(3)]) auto
  then show ?thesis by (simp del: trace_walk.simps)
qed

definition three_rows :: "trace_row list" where
  "three_rows = map (\<lambda>k. \<lparr>tq_sequence = k, tq_kind = 3, tq_thread_id = 0, tq_address = 0x401000, tq_args = replicate 8 0\<rparr>) [3, 1, 2]"

lemma trace_walk_complete_witness:
  "map_option (map tq_sequence) (trace_walk 4 list_store (Kind 3) 1 0 three_rows) = Some [1, 2, 3]"
proof -
  have rows: "st_rows list_store three_rows = three_rows" by (simp add: list_store_def)
  have all: "filter (row_matches (Kind 3)) three_rows = three_rows" "length three_rows = 3"
    by (simp_all add: three_rows_def)
  have sorted: "map tq_sequence (sort_key tq_sequence three_rows) = [1, 2, 3]"
    by (simp add: three_rows_def word_le_nat_alt)
  have different: "distinct (map tq_sequence (st_rows list_store three_rows))"
    unfolding rows by (simp add: three_rows_def)
  have small: "\<forall>r \<in> set (st_rows list_store three_rows). unat (tq_sequence r) < 2 ^ 63"
    unfolding rows by (simp add: three_rows_def)
  have "trace_walk 4 list_store (Kind 3) 1 0 three_rows = Some (sort_key tq_sequence three_rows)"
    using trace_walk_complete [OF list_store_ok _ _ different small, of "Kind 3" 1]
    unfolding rows all by (simp add: filter_ok_def del: trace_walk.simps)
  then show ?thesis by (simp add: sorted del: trace_walk.simps)
qed

end
