(* ===== verification/Pb_Tape_Read.thy ===== *)
theory Pb_Tape_Read
  imports Pb_Trace_Proofs
begin

section \<open>The hub reads what the recorder wrote\<close>

text \<open>
  The file a session leaves, opened by the hub: the header is accepted, every record is imported, and the
  reader of repeats gets the events back.
\<close>

subsection \<open>One record\<close>

definition row_of :: "event \<Rightarrow> trace_row" where
  "row_of e = \<lparr>tq_sequence = ev_sequence e, tq_kind = ev_kind e, tq_thread_id = ev_thread_id e, tq_address = ev_address e,
     tq_args = [ev_arg0 e, ev_arg1 e, ev_arg2 e, ev_arg3 e, ev_arg4 e, ev_arg5 e, ev_arg6 e, ev_arg7 e]\<rparr>"

lemma length_write_record [simp]: "length (write_record e) = RECORD_LEN"
  by (simp add: write_record_def event_encode_def RECORD_LEN_def)

lemma parse_write_record [simp]: "parse_record (write_record e) = row_of e"
proof -
  have args: "map (\<lambda>index. f (24 + index * 8)) [0..<8] = [f 24, f 32, f 40, f 48, f 56, f 64, f 72, f (80 :: nat)]"
    for f :: "nat \<Rightarrow> u64" by (simp add: upt_rec)
  show ?thesis
    unfolding parse_record_def args
    by (simp add: write_record_def event_encode_def row_of_def tape_record_def u64_at_def u32_at_def bytes_at_def)
qed

lemma row_of_sequence [simp]: "tq_sequence (row_of e) = ev_sequence e"
  by (simp add: row_of_def)

subsection \<open>The import loop\<close>

lemma import_records:
  assumes st: "store_ok st"
  shows "\<forall>e \<in> set es. unat (ev_sequence e) < 2 ^ 63 \<Longrightarrow> distinct (map ev_sequence es) \<Longrightarrow>
    (\<forall>e \<in> set es. ev_sequence e \<notin> tq_sequence ` set (st_rows st d)) \<Longrightarrow>
    \<exists>d'. import_rows st (concat (map write_record es)) n d = Inr (d', n + length es, 0)
       \<and> st_rows st d' = st_rows st d @ map row_of es"
proof (induction es arbitrary: n d)
  case Nil
  then show ?case by (simp add: import_rows.simps)
next
  case (Cons e es)
  obtain d' where d': "st_insert st (row_of e) d = Some d'" "st_rows st d' = st_rows st d @ [row_of e]"
    using st Cons.prems(3) unfolding store_ok_def by (metis list.set_intros(1) row_of_sequence)
  have fresh: "\<forall>e' \<in> set es. ev_sequence e' \<notin> tq_sequence ` set (st_rows st d')"
    using Cons.prems(2,3) by (auto simp: d') (metis imageI)
  obtain d'' where d'': "import_rows st (concat (map write_record es)) (Suc n) d' = Inr (d'', Suc n + length es, 0)"
      "st_rows st d'' = st_rows st d' @ map row_of es"
    using Cons.IH [of d' "Suc n"] Cons.prems(1,2) fresh by auto
  have len: "length (write_record e @ concat (map write_record es)) \<ge> RECORD_LEN" by simp
  have ne: "write_record e \<noteq> []" using length_write_record [of e] by (metis RECORD_LEN_def list.size(3) zero_neq_numeral)
  have "import_rows st (write_record e @ concat (map write_record es)) n d
      = import_rows st (concat (map write_record es)) (Suc n) d'"
    using Cons.prems(1) d'(1) ne len by (subst import_rows.simps) (simp add: Let_def not_less [symmetric])
  then show ?case using d'' d'(2) by simp
qed

subsection \<open>The header\<close>

lemma open_tape:
  assumes "meta \<noteq> []" "length meta \<le> MAX_META_LEN" "json_parse meta = Some v"
  shows "open_trace json_parse (tape_header meta @ rest) = Inr (rest, meta)"
proof -
  have magic: "length (map of_char ''PBTR'' :: bytes) = 4" by simp
  have n: "unat (word_of_nat (length meta) :: u32) = length meta"
    using assms(2) by (simp add: MAX_META_LEN_def unat_of_nat)
  let ?h = "map of_char ''PBTR'' @ le_u32 1 @ le_u32 (word_of_nat (length meta)) @ le_u32 0 :: bytes"
  have h: "length ?h = TRACE_HEADER_LEN" by (simp add: TRACE_HEADER_LEN_def)
  have whole: "tape_header meta @ rest = ?h @ meta @ rest" by (simp add: tape_header_def)
  have parts: "take TRACE_HEADER_LEN (?h @ meta @ rest) = ?h" "drop TRACE_HEADER_LEN (?h @ meta @ rest) = meta @ rest"
    using h by (metis append_eq_conv_conj)+
  have fields: "take 4 ?h = map of_char ''PBTR''" "u32_at ?h 4 = 1" "unat (u32_at ?h 8) = length meta"
    using n by (simp_all add: u32_at_def bytes_at_def)
  have long: "\<not> length (?h @ meta @ rest) < TRACE_HEADER_LEN" using h by simp
  show ?thesis
    unfolding open_trace_def whole Let_def parts fields using assms long by (simp del: append_assoc append.simps list.map)
qed

subsection \<open>Sequence numbers in the file\<close>

definition run_numbers :: "runs \<Rightarrow> nat list" where
  "run_numbers rs = map (\<lambda>e. unat (ev_sequence e)) (runs_records rs)"

lemma copies_sequences: "map ev_sequence (copies e c) = map (\<lambda>k. ev_sequence e + word_of_nat k) [0..<Suc (unat c)]"
  by (simp add: copies_def del: upt_Suc)

lemma length_copies [simp]: "length (copies e c) = Suc (unat c)"
  by (simp add: copies_def)

lemma run_numbers_sorted:
  "map ev_sequence (runs_events rs) = map word_of_nat [a..<b] \<Longrightarrow> a \<le> b \<Longrightarrow> b \<le> 2 ^ 62 \<Longrightarrow>
    sorted_wrt (<) (run_numbers rs) \<and> (\<forall>n \<in> set (run_numbers rs). a \<le> n \<and> n < b)"
proof (induction rs arbitrary: a)
  case Nil
  then show ?case by (simp add: run_numbers_def)
next
  case (Cons run rs)
  obtain e c where run: "run = (e, c)" by fastforce
  let ?m = "Suc (unat c)"
  have both: "map ev_sequence (copies e c) @ map ev_sequence (runs_events rs) = map word_of_nat [a..<b]"
    using Cons.prems(1) by (simp add: run runs_Cons)
  from arg_cong [OF both, of length] have room: "a + ?m \<le> b" using Cons.prems(2) by simp
  have "[a..<b] = [a..<a + ?m] @ [a + ?m..<b]" using room by (metis le_add1 upt_add_eq_append le_iff_add)
  then have "map ev_sequence (copies e c) @ map ev_sequence (runs_events rs)
      = map word_of_nat [a..<a + ?m] @ map word_of_nat [a + ?m..<b]" using both by simp
  then have parts: "map ev_sequence (copies e c) = map word_of_nat [a..<a + ?m]"
      "map ev_sequence (runs_events rs) = map word_of_nat [a + ?m..<b]"
    by (subst (asm) append_eq_append_conv; simp)+
  have "ev_sequence e = map ev_sequence (copies e c) ! 0" unfolding copies_sequences by (simp del: upt_Suc)
  also have "\<dots> = word_of_nat a" unfolding parts by (simp del: upt_Suc)
  finally have e: "unat (ev_sequence e) = a" using small_nat [of a] room Cons.prems(3) by simp
  have "unat (sat_add (ev_sequence e) c) = a + unat c" using e room Cons.prems(3) by (simp add: unat_sat_add)
  then have mine: "run_numbers [(e, c)] = (if c > 0 then [a, a + unat c] else [a])"
    using e by (simp add: run_numbers_def runs_Cons run_records_def)
  have "c > 0 \<Longrightarrow> 0 < unat c" by (simp add: word_less_nat_alt)
  then have mine_ok: "sorted_wrt (<) (run_numbers [(e, c)]) \<and> (\<forall>n \<in> set (run_numbers [(e, c)]). a \<le> n \<and> n < a + ?m)"
    unfolding mine by auto
  have "run_numbers (run # rs) = run_numbers [(e, c)] @ run_numbers rs"
    by (simp add: run run_numbers_def runs_Cons)
  then show ?case using mine_ok Cons.IH [OF parts(2) room Cons.prems(3)] room
    by (auto simp: sorted_wrt_append intro: less_le_trans)
qed

subsection \<open>Every session\<close>

lemma produce_file: "system_file_ok kinds header S \<Longrightarrow> system_file_ok kinds header (produce t spurious S)"
proof -
  have "rr_failed (sy_rec (produce t spurious S)) = rr_failed (sy_rec S)
      \<and> rr_written (sy_rec (produce t spurious S)) = rr_written (sy_rec S)"
    by (cases "sy_producers S t") (auto simp: produce_def payload_write_def tag_store_def split: prod.splits)
  then show "system_file_ok kinds header S \<Longrightarrow> system_file_ok kinds header (produce t spurious S)"
    by (simp add: system_file_ok_def produce_def split: prod.splits)
qed

lemma enter_file: "system_file_ok kinds header (enter t e S) = system_file_ok kinds header S"
  and disarm_file: "system_file_ok kinds header (disarm S) = system_file_ok kinds header S"
  by (simp_all add: system_file_ok_def enter_def disarm_def)

lemma reachable_file:
  assumes "record_reachable threads kinds header s S" "session_ready s" "threads < 2 ^ 62"
  shows "length (sy_log S) < 2 ^ 62 \<Longrightarrow> system_file_ok kinds header S"
  using assms(1)
proof (induction rule: record_reachable.induct)
  case start
  then show ?case by (simp add: system_file_ok_def file_ok_def session_begin_def drain_new_def)
next
  case (step S S')
  have small: "length (sy_log S) < 2 ^ 62" using step_log [OF step.hyps(2)] step.prems by simp
  note written = step.IH [OF small] and inv = record_reachable_inv [OF step.hyps(1) assms(2,3) small]
  from step.hyps(2) show ?case
    by (cases rule: record_stepE)
      (use written inv small in \<open>auto intro: drain_file produce_file simp: enter_file disarm_file\<close>)
qed

text \<open>What is not a marker and not a repeat was taken from the slab.\<close>

lemma runs_kinds:
  assumes "\<forall>e \<in> set (runs_events rs). ev_kind e \<noteq> EVENT_REPEAT"
  shows "\<forall>(e, _) \<in> set rs. ev_kind e \<noteq> EVENT_REPEAT"
proof clarify
  fix e c assume "(e, c) \<in> set rs" and kind: "ev_kind e = EVENT_REPEAT"
  then have "e\<lparr>ev_sequence := ev_sequence e + word_of_nat 0\<rparr> \<in> set (runs_events rs)"
    by (auto simp: runs_events_def copies_def simp del: upt_Suc intro!: bexI [of _ "(e, c)"] image_eqI [of _ _ 0])
  then show False using assms kind by auto
qed

text \<open>
  C39. The hub reads back what the recorder wrote. When a session has closed without a failure, the file
  opens in the hub with the metadata of its header and no truncated tail, every record becomes a row of
  the table, none with a sequence number twice, the first row is the start marker, the last the stop
  marker with the written count, and a reader that expands the repeat records between them has exactly the
  written events, in their order.
\<close>

theorem tape_readable:
  assumes "record_reachable threads kinds (tape_header meta) s S" "session_ready s" "threads < 2 ^ 62"
    and "length (sy_log S) < 2 ^ 62" "sy_phase S = Closed" "\<not> rr_failed (sy_rec S)"
    and "meta \<noteq> []" "length meta \<le> MAX_META_LEN" "json_parse meta = Some v" "store_ok st"
    and "\<forall>e \<in> set (sy_log S). ev_kind e \<noteq> EVENT_REPEAT"
  shows "\<exists>db records. build_database st json_parse path (dn_out (sy_drain S)) = Inr db \<and> tb_metadata db = meta
    \<and> tb_truncated_tail db = 0 \<and> tb_physical_records db = length records + 2
    \<and> st_rows st (tb_store db) = map row_of (tape_marker 0 MARKER_START (ucast kinds) # records
        @ [tape_marker (rr_written (sy_rec S) + 1) MARKER_STOP (rr_written (sy_rec S))])
    \<and> distinct (map tq_sequence (st_rows st (tb_store db)))
    \<and> expand_records records = take (unat (rr_written (sy_rec S))) (sy_log S)"
proof -
  let ?log = "sy_log S" and ?w = "rr_written (sy_rec S)" and ?start = "tape_marker 0 MARKER_START (ucast kinds)"
  have inv: "record_inv threads S" by (rule record_reachable_inv [OF assms(1-4)])
  let ?n = "unat (dn_next (sy_drain S))"
  have numbered: "\<forall>i < length ?log. ev_sequence (?log ! i) = word_of_nat (Suc i)"
    using inv by (simp add: record_inv_def slab_ok_def)
  have n: "?n \<le> length ?log" "sy_taken S = take ?n ?log" "?w = word_of_nat (length (sy_taken S))"
    using inv assms(5,6) by (auto simp: record_inv_def drain_ok_def taken_upto_def)
  then have w: "unat ?w = ?n" "?w = dn_next (sy_drain S)" by simp_all
  obtain rs where rs: "dn_out (sy_drain S) = file_of kinds (tape_header meta) rs @ write_record (tape_marker (?w + 1) MARKER_STOP ?w)"
      "sy_taken S = runs_events rs"
    using reachable_file [OF assms(1-4)] assms(5,6) by (auto simp: system_file_ok_def file_ok_def w(2))
  let ?stop = "tape_marker (?w + 1) MARKER_STOP ?w" and ?es = "runs_records rs"
  let ?all = "?start # ?es @ [tape_marker (?w + 1) MARKER_STOP ?w]"
  have events: "runs_events rs = take ?n ?log" using n(2) rs(2) by simp
  have "map ev_sequence (runs_events rs) = map word_of_nat [1..<Suc ?n]"
    unfolding events using numbered n(1) by (intro nth_equalityI) (simp_all del: upt_Suc)
  then have seqs: "sorted_wrt (<) (run_numbers rs)" "\<forall>k \<in> set (run_numbers rs). 1 \<le> k \<and> k < Suc ?n"
    using run_numbers_sorted [of rs 1 "Suc ?n"] n(1) assms(4) by simp_all
  have stop: "unat (?w + 1) = Suc ?n" using w(1) n(1) assms(4) next_word [of ?w] by simp
  have marks: "ev_sequence ?start = 0" "ev_sequence ?stop = ?w + 1" by (simp_all add: tape_marker_def)
  have all: "sorted_wrt (<) (map (\<lambda>e. unat (ev_sequence e)) ?all)"
    using seqs unfolding run_numbers_def by (auto simp: sorted_wrt_append marks stop)
  then have "distinct (map (\<lambda>e. unat (ev_sequence e)) ?all)" by (simp only: strict_sorted_iff)
  then have "distinct (map unat (map ev_sequence ?all))" by (simp only: map_map comp_def)
  then have distinct': "distinct (map ev_sequence ?all)" by (simp only: distinct_map)
  have bound: "\<forall>e \<in> set ?all. unat (ev_sequence e) < 2 ^ 63"
    using seqs(2) n(1) assms(4) unfolding run_numbers_def by (auto simp: marks stop)
  have empty: "st_rows st (st_empty st) = []" using assms(10) by (simp add: store_ok_def)
  have file': "dn_out (sy_drain S) = tape_header meta @ concat (map write_record ?all)"
    by (simp add: rs(1) file_of_def tape_start_def)
  obtain d where d: "import_rows st (concat (map write_record ?all)) 0 (st_empty st) = Inr (d, length ?all, 0)"
      "st_rows st d = map row_of ?all"
    using import_records [OF assms(10) bound distinct', of "st_empty st" 0] empty by auto
  have built: "build_database st json_parse path (dn_out (sy_drain S))
      = Inr \<lparr>tb_store = d, tb_path = path, tb_source_bytes = length (dn_out (sy_drain S)), tb_physical_records = length ?all, tb_truncated_tail = 0, tb_metadata = meta\<rparr>"
    unfolding build_database_def file' open_tape [where json_parse = json_parse, OF assms(7-9)] using d(1) by simp
  have "\<forall>e \<in> set (runs_events rs). ev_kind e \<noteq> EVENT_REPEAT" using assms(11) by (auto simp: events dest: in_set_takeD)
  then have expanded: "expand_records ?es = take (unat ?w) ?log" using expand_runs [OF runs_kinds] events w(1) by simp
  show ?thesis
    using built d(2) expanded distinct' by (intro exI conjI) (assumption | simp add: comp_def)+
qed

definition drain_moves :: "move list" where
  "drain_moves = [Drain, Drain, Drain, Drain, Drain, Drain, Drain, Drain, Drain, Drain, Drain]"

lemma closed_session:
  "\<exists>S. record_reachable 1 kinds header default_session S \<and> sy_log S = [e\<lparr>ev_sequence := 1\<rparr>] \<and> sy_phase S = Closed
     \<and> \<not> rr_failed (sy_rec S) \<and> rr_written (sy_rec S) = 1"
proof -
  have "\<exists>S. make_moves 1 kinds header (one_event_moves e @ drain_moves) (session_begin default_session) = Some S
     \<and> sy_log S = [e\<lparr>ev_sequence := 1\<rparr>] \<and> sy_phase S = Closed
     \<and> \<not> rr_failed (sy_rec S) \<and> rr_written (sy_rec S) = 1"
    by (simp add: one_event_moves_def session_defs absorb_def drain_moves_def)
  then show ?thesis using make_moves_reachable [OF record_reachable.start] by blast
qed

lemma tape_readable_witness:
  "\<exists>S db records. record_reachable 1 0 (tape_header [0x7B, 0x7D]) default_session S \<and> sy_phase S = Closed
     \<and> build_database list_store (\<lambda>_. Some JNull) [] (dn_out (sy_drain S)) = Inr db \<and> tb_metadata db = [0x7B, 0x7D]
     \<and> tb_physical_records db = length records + 2
     \<and> expand_records records = [event_empty\<lparr>ev_sequence := 1\<rparr>]"
proof -
  obtain S where S: "record_reachable 1 0 (tape_header [0x7B, 0x7D]) default_session S"
    "sy_log S = [event_empty\<lparr>ev_sequence := 1\<rparr>]" "sy_phase S = Closed" "\<not> rr_failed (sy_rec S)" "rr_written (sy_rec S) = 1"
    using closed_session by blast
  have "ev_kind event_empty \<noteq> EVENT_REPEAT" by (simp add: event_empty_def EVENT_REPEAT_def)
  then show ?thesis
    using tape_readable [OF S(1) default_session_ready _ _ S(3,4) _ _ _ list_store_ok, of "\<lambda>_. Some JNull" JNull "[]"] S
    by (force simp: MAX_META_LEN_def)
qed

end
