(* ===== verification/Pb_Json.thy ===== *)
theory Pb_Json
  imports Pb_Trace_Query "HOL-Library.Char_ord" "HOL-Library.List_Lexorder"
begin

section \<open>JSON objects and ordered maps\<close>

text \<open>
  What the hub uses of \<open>serde_json::Value\<close> and of \<open>BTreeMap\<close> and \<open>BTreeSet\<close>. A JSON object is the list of its
  members, each name once; the order is that of the code that makes it, and no operation here depends on it.
  Numbers do not occur: the hub and the agent write integers as strings, and an argument that is a number
  is handled like any other value that is not a string. Strings are their bytes, so the order of the lists of
  characters is Rust's order of strings.
\<close>

definition json_get :: "string \<Rightarrow> json \<Rightarrow> json option" where
  "json_get name j = (case j of JObject members \<Rightarrow> map_of members name | _ \<Rightarrow> None)"

definition json_as_array :: "json \<Rightarrow> json list option" where
  "json_as_array j = (case j of JArray vs \<Rightarrow> Some vs | _ \<Rightarrow> None)"

definition json_as_bool :: "json \<Rightarrow> bool option" where
  "json_as_bool j = (case j of JBool b \<Rightarrow> Some b | _ \<Rightarrow> None)"

fun member_set :: "string \<Rightarrow> json \<Rightarrow> (string \<times> json) list \<Rightarrow> (string \<times> json) list" where
  "member_set name v [] = [(name, v)]"
| "member_set name v ((n, w) # members) = (if n = name then (n, v) # members else (n, w) # member_set name v members)"

text \<open>\<open>as_object_mut\<close> and \<open>insert\<close>: a value that is not an object is left as it is.\<close>

definition json_set :: "string \<Rightarrow> json \<Rightarrow> json \<Rightarrow> json" where
  "json_set name v j = (case j of JObject members \<Rightarrow> JObject (member_set name v members) | _ \<Rightarrow> j)"

definition json_set_all :: "(string \<times> json) list \<Rightarrow> json \<Rightarrow> json" where
  "json_set_all = fold (\<lambda>(name, v). json_set name v)"

text \<open>\<open>BTreeMap\<close> and \<open>BTreeSet\<close> as ascending lists.\<close>

fun om_insert :: "'k::linorder \<Rightarrow> 'v \<Rightarrow> ('k \<times> 'v) list \<Rightarrow> ('k \<times> 'v) list" where
  "om_insert k v [] = [(k, v)]"
| "om_insert k v ((k', v') # rest) =
     (if k < k' then (k, v) # (k', v') # rest else if k = k' then (k, v) # rest else (k', v') # om_insert k v rest)"

definition om_remove :: "'k \<Rightarrow> ('k \<times> 'v) list \<Rightarrow> ('k \<times> 'v) list" where
  "om_remove k xs = filter (\<lambda>(k', _). k' \<noteq> k) xs"

fun os_insert :: "'k::linorder \<Rightarrow> 'k list \<Rightarrow> 'k list" where
  "os_insert k [] = [k]"
| "os_insert k (k' # rest) = (if k < k' then k # k' # rest else if k = k' then k' # rest else k' # os_insert k rest)"

definition ssorted_keys :: "('k::linorder \<times> 'v) list \<Rightarrow> bool" where
  "ssorted_keys xs \<longleftrightarrow> sorted_wrt (<) (map fst xs)"

lemma om_insert_keys: "fst ` set (om_insert k v xs) = insert k (fst ` set xs)"
  by (induction k v xs rule: om_insert.induct) auto

lemma om_insert_sorted: "ssorted_keys xs \<Longrightarrow> ssorted_keys (om_insert k v xs)"
proof (induction k v xs rule: om_insert.induct)
  case (2 k v k' v' rest)
  then show ?case
    using om_insert_keys [of k v rest] by (fastforce simp: ssorted_keys_def)
qed (simp add: ssorted_keys_def)

lemma om_insert_lookup: "ssorted_keys xs \<Longrightarrow> map_of (om_insert k v xs) = (map_of xs)(k \<mapsto> v)"
proof (induction k v xs rule: om_insert.induct)
  case (2 k v k' v' rest)
  have "k < k' \<Longrightarrow> map_of rest k = None"
    using "2.prems" by (force simp: ssorted_keys_def map_of_eq_None_iff)
  then show ?case using 2 by (auto simp: ssorted_keys_def)
qed (simp add: ssorted_keys_def)

lemma om_remove_sorted: "ssorted_keys xs \<Longrightarrow> ssorted_keys (om_remove k xs)"
  unfolding ssorted_keys_def om_remove_def by (induction xs) (auto simp: sorted_wrt_map)

lemma om_remove_lookup: "map_of (om_remove k xs) = (map_of xs)(k := None)"
  by (induction xs) (auto simp: om_remove_def fun_eq_iff)

end
