(* ===== verification/Pb_Hub_Control.thy ===== *)
theory Pb_Hub_Control
  imports Pb_Json
begin

section \<open>Who may write: control, journal and session of the hub\<close>

text \<open>
  \<open>bindings/rust/pinbridge-hub-core/src/control.rs\<close>, \<open>activities.rs\<close> and \<open>session.rs\<close>. The two locks of
  \<open>ControlState\<close> matter only between threads; the step relation below has the gate, the operations here
  are what happens while it is held. A lock is never poisoned: nothing panics while one is held.
\<close>

datatype control_mode = Manual | Ai_read_only | Ai_assist | Ai_autonomous | Automation_paused

datatype channel_actor = Human | Ai | System

record caller =
  ca_actor :: channel_actor
  ca_trusted :: bool

definition TRUSTED_HUMAN :: caller where "TRUSTED_HUMAN = \<lparr>ca_actor = Human, ca_trusted = True\<rparr>"
definition AI :: caller where "AI = \<lparr>ca_actor = Ai, ca_trusted = False\<rparr>"
definition SYSTEM :: caller where "SYSTEM = \<lparr>ca_actor = System, ca_trusted = True\<rparr>"

definition ai_can_write :: "control_mode \<Rightarrow> bool" where "ai_can_write mode \<longleftrightarrow> mode = Ai_autonomous"

record control =
  ct_mode :: control_mode
  ct_previous :: "control_mode option"

definition control_new :: "control_mode \<Rightarrow> control" where
  "control_new mode = \<lparr>ct_mode = mode, ct_previous = None\<rparr>"

definition control_default :: control where "control_default = control_new Manual"

record control_status =
  cs_mode :: control_mode
  cs_can_ai_write :: bool
  cs_previous :: "control_mode option"

definition status_of :: "control \<Rightarrow> control_status" where
  "status_of c = \<lparr>cs_mode = ct_mode c, cs_can_ai_write = ai_can_write (ct_mode c), cs_previous = ct_previous c\<rparr>"

definition ensure_ai_write :: "control \<Rightarrow> string + unit" where
  "ensure_ai_write c = (if ai_can_write (ct_mode c) then Inr () else Inl ''AI write requires ai_autonomous'')"

definition ensure_human_write :: "control \<Rightarrow> string + unit" where
  "ensure_human_write c =
     (if ct_mode c = Manual then Inr () else Inl ''human write requires manual mode; use takeover_manual'')"

definition trusted_human :: "caller \<Rightarrow> bool" where
  "trusted_human caller \<longleftrightarrow> ca_actor caller = Human \<and> ca_trusted caller"

definition handoff :: "caller \<Rightarrow> control_mode \<Rightarrow> control \<Rightarrow> (string + control_status) \<times> control" where
  "handoff caller mode c =
     (if \<not> trusted_human caller then (Inl ''handoff requires trusted human'', c)
      else if mode \<notin> {Ai_read_only, Ai_assist, Ai_autonomous} then (Inl ''invalid AI handoff mode'', c)
      else (Inr \<lparr>cs_mode = mode, cs_can_ai_write = ai_can_write mode, cs_previous = None\<rparr>,
            c\<lparr>ct_mode := mode, ct_previous := None\<rparr>))"

definition pause_automation :: "caller \<Rightarrow> control \<Rightarrow> (string + control_status) \<times> control" where
  "pause_automation caller c =
     (if \<not> trusted_human caller then (Inl ''pause automation requires trusted human'', c)
      else let previous = (if ct_mode c \<noteq> Automation_paused then Some (ct_mode c) else ct_previous c);
               c = c\<lparr>ct_mode := Automation_paused, ct_previous := previous\<rparr>
           in (Inr \<lparr>cs_mode = ct_mode c, cs_can_ai_write = False, cs_previous = ct_previous c\<rparr>, c))"

definition begin_takeover :: "caller \<Rightarrow> control \<Rightarrow> (string + unit) \<times> control" where
  "begin_takeover caller c =
     (if \<not> trusted_human caller then (Inl ''takeover requires trusted human'', c)
      else (Inr (), c\<lparr>ct_mode := Manual, ct_previous := Some (ct_mode c)\<rparr>))"

text \<open>The check of \<open>dispatch_guarded\<close> for a tool that writes (service.rs).\<close>

definition write_permission :: "caller \<Rightarrow> control \<Rightarrow> string + unit" where
  "write_permission caller c =
     (case ca_actor caller of
        Ai \<Rightarrow> ensure_ai_write c | Human \<Rightarrow> ensure_human_write c
      | System \<Rightarrow> Inl ''system cannot perform target writes'')"

subsection \<open>The journal\<close>

record activity =
  ac_operation_id :: string
  ac_parent :: "string option"
  ac_actor :: string
  ac_action :: string
  ac_purpose :: "string option"
  ac_started_at_ms :: string
  ac_completed_at_ms :: "string option"
  ac_outcome :: string
  ac_resource_refs :: json

record journal =
  jn_next :: u64
  jn_rows :: "activity list"
  jn_capacity :: nat

definition JOURNAL_CAPACITY :: nat where "JOURNAL_CAPACITY = 256"

definition journal_new :: "nat \<Rightarrow> journal" where
  "journal_new capacity = \<lparr>jn_next = 1, jn_rows = [], jn_capacity = max capacity 1\<rparr>"

definition operation_id :: "u64 \<Rightarrow> string" where "operation_id n = ''op-'' @ pad_hex 16 (unat n)"

definition journal_begin ::
  "string \<Rightarrow> string \<Rightarrow> string \<Rightarrow> string option \<Rightarrow> string option \<Rightarrow> journal \<Rightarrow> string \<times> journal" where
  "journal_begin now actor' action purpose parent j =
     (let ident = operation_id (jn_next j);
          row = \<lparr>ac_operation_id = ident, ac_parent = parent, ac_actor = actor', ac_action = action, ac_purpose = purpose,
                 ac_started_at_ms = now, ac_completed_at_ms = None, ac_outcome = ''in_progress'', ac_resource_refs = JObject []\<rparr>;
          rows = jn_rows j @ [row]
      in (ident, j\<lparr>jn_next := max (jn_next j + 1) 1, jn_rows := drop (length rows - jn_capacity j) rows\<rparr>))"

text \<open>The first row with the id is updated; none when it was evicted meanwhile.\<close>

fun finish_row :: "string \<Rightarrow> string \<Rightarrow> string \<Rightarrow> json \<Rightarrow> activity list \<Rightarrow> activity list" where
  "finish_row now ident outcome' refs [] = []"
| "finish_row now ident outcome' refs (r # rows) =
     (if ac_operation_id r = ident
      then r\<lparr>ac_completed_at_ms := Some now, ac_outcome := outcome', ac_resource_refs := refs\<rparr> # rows
      else r # finish_row now ident outcome' refs rows)"

definition journal_finish :: "string \<Rightarrow> string \<Rightarrow> string \<Rightarrow> json \<Rightarrow> journal \<Rightarrow> journal" where
  "journal_finish now ident outcome' refs j = j\<lparr>jn_rows := finish_row now ident outcome' refs (jn_rows j)\<rparr>"

definition journal_list :: "nat \<Rightarrow> journal \<Rightarrow> activity list" where
  "journal_list limit j = take (min limit (jn_capacity j)) (rev (jn_rows j))"

definition journal_get :: "string \<Rightarrow> journal \<Rightarrow> activity option" where
  "journal_get ident j = List.find (\<lambda>r. ac_operation_id r = ident) (jn_rows j)"

subsection \<open>The session\<close>

record session_status =
  se_connected :: bool
  se_agent_port :: string
  se_pid :: "string option"
  se_target :: "string option"

definition session_new :: "u16 \<Rightarrow> session_status" where
  "session_new port = \<lparr>se_connected = False, se_agent_port = show_word port, se_pid = None, se_target = None\<rparr>"

subsection \<open>The gate between threads\<close>

text \<open>
  Any number of threads serve callers. A write holds the gate as a reader from before its check until its
  last request to the agent; a change of mode holds it as the writer. \<open>gs_log\<close> is history: the changes of
  mode, the pauses of a takeover and the writes, in the order they happen.
\<close>

datatype gate_event = Switched control_mode | Wrote caller | Takeover_pause

datatype gate_phase = Away | Guarded caller | Permitted caller | Taking_over

record gate_system =
  gs_control :: control
  gs_phase :: "nat \<Rightarrow> gate_phase"
  gs_log :: "gate_event list"

definition gate_free :: "gate_system \<Rightarrow> bool" where "gate_free S \<longleftrightarrow> (\<forall>t. gs_phase S t = Away)"

definition no_writer :: "gate_system \<Rightarrow> bool" where "no_writer S \<longleftrightarrow> (\<forall>t. gs_phase S t \<noteq> Taking_over)"

definition at_gate :: "nat \<Rightarrow> gate_phase \<Rightarrow> gate_system \<Rightarrow> gate_system" where
  "at_gate t phase S = S\<lparr>gs_phase := (gs_phase S)(t := phase)\<rparr>"

definition gate_note :: "gate_event \<Rightarrow> gate_system \<Rightarrow> gate_system" where
  "gate_note event S = S\<lparr>gs_log := gs_log S @ [event]\<rparr>"

definition switch :: "control \<Rightarrow> gate_system \<Rightarrow> gate_system" where
  "switch c S = gate_note (Switched (ct_mode c)) (S\<lparr>gs_control := c\<rparr>)"

inductive gate_step :: "gate_system \<Rightarrow> gate_system \<Rightarrow> bool" where
  enter: "gs_phase S t = Away \<Longrightarrow> no_writer S \<Longrightarrow> gate_step S (at_gate t (Guarded caller) S)"
| permit: "gs_phase S t = Guarded caller \<Longrightarrow> write_permission caller (gs_control S) = Inr () \<Longrightarrow>
    gate_step S (at_gate t (Permitted caller) S)"
| refuse: "gs_phase S t = Guarded caller \<Longrightarrow> write_permission caller (gs_control S) = Inl e \<Longrightarrow> gate_step S (at_gate t Away S)"
| perform: "gs_phase S t = Permitted caller \<Longrightarrow> gate_step S (gate_note (Wrote caller) S)"
| leave: "gs_phase S t = Permitted caller \<Longrightarrow> gate_step S (at_gate t Away S)"
| hand: "gate_free S \<Longrightarrow> handoff caller mode (gs_control S) = (Inr status, c) \<Longrightarrow> gate_step S (switch c S)"
| halt: "gate_free S \<Longrightarrow> pause_automation caller (gs_control S) = (Inr status, c) \<Longrightarrow> gate_step S (switch c S)"
| take: "gs_phase S t = Away \<Longrightarrow> gate_free S \<Longrightarrow> begin_takeover caller (gs_control S) = (Inr (), c) \<Longrightarrow>
    gate_step S (at_gate t Taking_over (switch c S))"
| freeze: "gs_phase S t = Taking_over \<Longrightarrow> gate_step S (gate_note Takeover_pause S)"
| release: "gs_phase S t = Taking_over \<Longrightarrow> gate_step S (at_gate t Away S)"

inductive gate_reachable :: "control_mode \<Rightarrow> gate_system \<Rightarrow> bool" for mode where
  start: "gate_reachable mode \<lparr>gs_control = control_new mode, gs_phase = (\<lambda>_. Away), gs_log = []\<rparr>"
| step: "gate_reachable mode S \<Longrightarrow> gate_step S S' \<Longrightarrow> gate_reachable mode S'"

inductive_cases gate_stepE: "gate_step S S'"

text \<open>Reading a log: the mode in force, and whether every write had the right to it.\<close>

fun mode_after :: "control_mode \<Rightarrow> gate_event list \<Rightarrow> control_mode" where
  "mode_after mode [] = mode"
| "mode_after mode (Switched m # log) = mode_after m log"
| "mode_after mode (_ # log) = mode_after mode log"

definition may_write :: "control_mode \<Rightarrow> caller \<Rightarrow> bool" where
  "may_write mode caller \<longleftrightarrow> (ca_actor caller = Ai \<and> mode = Ai_autonomous) \<or> (ca_actor caller = Human \<and> mode = Manual)"

fun all_permitted :: "control_mode \<Rightarrow> gate_event list \<Rightarrow> bool" where
  "all_permitted mode [] = True"
| "all_permitted mode (Switched m # log) = all_permitted m log"
| "all_permitted mode (Wrote caller # log) = (may_write mode caller \<and> all_permitted mode log)"
| "all_permitted mode (Takeover_pause # log) = (mode = Manual \<and> all_permitted mode log)"

lemma mode_after_append: "mode_after mode (log @ log') = mode_after (mode_after mode log) log'"
  by (induction mode log rule: mode_after.induct) simp_all

lemma all_permitted_append: "all_permitted mode (log @ log') \<longleftrightarrow> all_permitted mode log \<and> all_permitted (mode_after mode log) log'"
  by (induction mode log rule: all_permitted.induct) auto

lemma write_permission_iff: "write_permission caller c = Inr () \<longleftrightarrow> may_write (ct_mode c) caller"
  by (cases "ca_actor caller")
    (auto simp: write_permission_def ensure_ai_write_def ensure_human_write_def ai_can_write_def may_write_def)

definition gate_ok :: "control_mode \<Rightarrow> gate_system \<Rightarrow> bool" where
  "gate_ok mode S \<longleftrightarrow> ct_mode (gs_control S) = mode_after mode (gs_log S) \<and> all_permitted mode (gs_log S)
     \<and> (\<forall>t caller. gs_phase S t = Permitted caller \<longrightarrow> may_write (ct_mode (gs_control S)) caller)
     \<and> (\<forall>t. gs_phase S t = Taking_over \<longrightarrow> ct_mode (gs_control S) = Manual \<and> (\<forall>u. u \<noteq> t \<longrightarrow> gs_phase S u = Away))"

lemma gate_switch_ok:
  "gate_ok mode S \<Longrightarrow> gate_free S \<Longrightarrow> gate_ok mode (switch c S)"
  by (simp add: gate_ok_def gate_free_def switch_def gate_note_def mode_after_append all_permitted_append)

lemma gate_step_ok: "gate_step S S' \<Longrightarrow> gate_ok mode S \<Longrightarrow> gate_ok mode S'"
proof (induction rule: gate_step.induct)
  case (take S t caller c)
  then have "ct_mode c = Manual" by (auto simp: begin_takeover_def split: if_splits)
  then show ?case using gate_switch_ok [OF take.prems take.hyps(2), of c] take.hyps(2)
    by (auto simp: gate_ok_def at_gate_def switch_def gate_note_def gate_free_def)
next
  case (hand S caller new_mode status c)
  then show ?case by (intro gate_switch_ok)
next
  case (halt S caller status c)
  then show ?case by (intro gate_switch_ok)
next
  case (freeze S t)
  then have "mode_after mode (gs_log S) = Manual" unfolding gate_ok_def by metis
  then show ?case using freeze.prems by (auto simp: gate_ok_def gate_note_def mode_after_append all_permitted_append)
qed (auto simp: gate_ok_def at_gate_def gate_note_def no_writer_def write_permission_iff mode_after_append
      all_permitted_append)

lemma gate_reachable_ok: "gate_reachable mode S \<Longrightarrow> gate_ok mode S"
proof (induction rule: gate_reachable.induct)
  case start
  show ?case by (simp add: gate_ok_def control_new_def)
next
  case (step S S')
  then show ?case by (blast intro: gate_step_ok)
qed

text \<open>
  C38. The hub never lets two hands on the target. However the threads of the hub interleave, every write
  is made by a caller the mode in force permits, the AI only in autonomous mode and a human only in manual
  mode; from the moment a takeover has begun no AI write happens until the next handoff, and the pause of
  the takeover falls into manual mode with nobody else writing.
\<close>

theorem gate_excludes:
  assumes "gate_reachable mode S"
  shows "all_permitted mode (gs_log S) \<and> ct_mode (gs_control S) = mode_after mode (gs_log S)
    \<and> (\<forall>t. gs_phase S t = Taking_over \<longrightarrow> (\<forall>u. u \<noteq> t \<longrightarrow> gs_phase S u = Away))"
  using gate_reachable_ok [OF assms] unfolding gate_ok_def by blast

text \<open>A run: the human hands over, the AI writes once, the human takes over.\<close>

definition handed :: control where "handed = \<lparr>ct_mode = Ai_autonomous, ct_previous = None\<rparr>"
definition taken_back :: control where "taken_back = \<lparr>ct_mode = Manual, ct_previous = Some Ai_autonomous\<rparr>"

definition takeover_run :: gate_system where
  "takeover_run = \<lparr>gs_control = taken_back, gs_phase = (\<lambda>_. Away)(0 := Taking_over),
     gs_log = [Switched Ai_autonomous, Wrote AI, Switched Manual]\<rparr>"

lemma takeover_run_reachable: "gate_reachable Manual takeover_run"
proof -
  let ?away = "\<lambda>_. Away" and ?new = "control_new Manual"
  let ?S1 = "\<lparr>gs_control = handed, gs_phase = ?away, gs_log = [Switched Ai_autonomous]\<rparr>"
  let ?S2 = "\<lparr>gs_control = handed, gs_phase = ?away(1 := Guarded AI), gs_log = [Switched Ai_autonomous]\<rparr>"
  let ?S3 = "\<lparr>gs_control = handed, gs_phase = ?away(1 := Permitted AI), gs_log = [Switched Ai_autonomous]\<rparr>"
  let ?S4 = "\<lparr>gs_control = handed, gs_phase = ?away(1 := Permitted AI), gs_log = [Switched Ai_autonomous, Wrote AI]\<rparr>"
  let ?S5 = "\<lparr>gs_control = handed, gs_phase = ?away, gs_log = [Switched Ai_autonomous, Wrote AI]\<rparr>"
  note start = gate_reachable.start [of Manual] and step = gate_reachable.step
  have away: "?away(Suc 0 := Away) = ?away" by auto
  have "gate_step \<lparr>gs_control = ?new, gs_phase = ?away, gs_log = []\<rparr> ?S1"
    using hand [of "\<lparr>gs_control = ?new, gs_phase = ?away, gs_log = []\<rparr>" TRUSTED_HUMAN Ai_autonomous _ handed]
    by (simp add: gate_free_def handoff_def trusted_human_def TRUSTED_HUMAN_def switch_def gate_note_def handed_def
        control_new_def)
  then have 1: "gate_reachable Manual ?S1" by (rule step [OF start])
  have "gate_step ?S1 ?S2" using enter [of ?S1 1 AI] by (simp add: no_writer_def at_gate_def)
  then have 2: "gate_reachable Manual ?S2" by (rule step [OF 1])
  have "gate_step ?S2 ?S3"
    using permit [of ?S2 1 AI] by (simp add: at_gate_def write_permission_iff may_write_def AI_def handed_def)
  then have 3: "gate_reachable Manual ?S3" by (rule step [OF 2])
  have "gate_step ?S3 ?S4" using perform [of ?S3 1 AI] by (simp add: gate_note_def)
  then have 4: "gate_reachable Manual ?S4" by (rule step [OF 3])
  have "gate_step ?S4 ?S5" using leave [of ?S4 1 AI] by (simp add: at_gate_def away)
  then have 5: "gate_reachable Manual ?S5" by (rule step [OF 4])
  have "gate_step ?S5 takeover_run"
    using take [of ?S5 0 TRUSTED_HUMAN taken_back]
    by (simp add: gate_free_def begin_takeover_def trusted_human_def TRUSTED_HUMAN_def switch_def gate_note_def
        handed_def taken_back_def at_gate_def takeover_run_def)
  then show ?thesis by (rule step [OF 5])
qed

lemma gate_excludes_witness:
  "gate_reachable Manual takeover_run \<and> Wrote AI \<in> set (gs_log takeover_run) \<and> all_permitted Manual (gs_log takeover_run)
     \<and> gs_phase takeover_run 1 = Away"
  using gate_excludes [OF takeover_run_reachable] takeover_run_reachable by (simp add: takeover_run_def)

end
