(* ===== verification/Pb_Hub_Agent.thy ===== *)
theory Pb_Hub_Agent
  imports Pb_Hub_Control Pb_Signature
begin

section \<open>What the hub asks of the agent (agent.rs)\<close>

text \<open>
  The trait \<open>AgentApi\<close> of \<open>bindings/rust/pinbridge-hub-core/src/agent.rs\<close>, its methods grouped by the type
  they return, over a state \<open>'a\<close> that stands for the connection and the process behind it. A method that
  reads is one that leaves the target alone (\<open>reads_only\<close>).
\<close>

datatype agent_error = Agent_connection string | Agent_operation string

definition hub_error_of :: "agent_error \<Rightarrow> hub_error" where
  "hub_error_of e = (case e of Agent_connection x \<Rightarrow> Connection x | Agent_operation x \<Rightarrow> Agent x)"

datatype agent_request =
    Ag_status | Ag_memory_read u64 u64 | Ag_memory_write u64 bytes
  | Ag_breakpoint_set u64 | Ag_breakpoint_remove u32 | Ag_breakpoint_list | Ag_breakpoint_inventory
  | Ag_registers_get u32 | Ag_register_set u32 u32 u64 | Ag_threads | Ag_modules | Ag_module_exports string
  | Ag_hook_set u64 | Ag_hook_function_set u64 | Ag_hook_remove u64 | Ag_hook_clear | Ag_hook_list
  | Ag_hook_inventory_page nat nat "bool option" | Ag_hook_monitor u64 u64 | Ag_hook_module string
  | Ag_hook_targets_apply string "(u64 \<times> string) list" | Ag_hook_range u64 u64 u32 bool
  | Ag_syscall_config_set bool "u32 list" u64 u64 | Ag_syscall_monitor u64 | Ag_syscall_monitor_window u64 u64
  | Ag_memory_map | Ag_exception_monitor u64 | Ag_exception_policy_get | Ag_exception_policy_set bool u32
  | Ag_exception_inventory | Ag_trace_start_spec "u32 list" "(u64 \<times> u64) list" "u32 list" string
  | Ag_trace_status | Ag_trace_stop | Ag_step u32 bool | Ag_disassemble u64 u64 | Ag_resolve "u64 list"
  | Ag_resolve_name string | Ag_events_newest u64

datatype agent_command =
    Ag_pause | Ag_resume

datatype agent_order =
    Ag_signature_set u64 capture_layout | Ag_signature_remove u64 | Ag_script_unload string

record agent_script =
  as_name :: string
  as_state :: u8
  as_delivered :: u64
  as_dropped :: u64

record agent_output_line =
  ao_seq :: u64
  ao_plugin :: string
  ao_line :: string

record 'a agent_api =
  ag_value :: "agent_request \<Rightarrow> 'a \<Rightarrow> (agent_error + json) \<times> 'a"
  ag_flag :: "agent_command \<Rightarrow> 'a \<Rightarrow> (agent_error + bool) \<times> 'a"
  ag_unit :: "agent_order \<Rightarrow> 'a \<Rightarrow> (agent_error + unit) \<times> 'a"
  ag_set_port :: "u16 \<Rightarrow> 'a \<Rightarrow> 'a"
  ag_port :: "'a \<Rightarrow> u16"
  ag_register_id :: "string \<Rightarrow> 'a \<Rightarrow> (agent_error + u32) \<times> 'a"
  ag_callback_count :: "u64 option \<Rightarrow> 'a \<Rightarrow> (agent_error + nat) \<times> 'a"
  ag_script_load :: "string \<Rightarrow> string \<Rightarrow> 'a \<Rightarrow> (agent_error + u32) \<times> 'a"
  ag_script_list :: "'a \<Rightarrow> (agent_error + agent_script list) \<times> 'a"
  ag_script_output :: "u64 \<Rightarrow> u32 \<Rightarrow> 'a \<Rightarrow> (agent_error + (u64 \<times> agent_output_line list)) \<times> 'a"

text \<open>The requests that change the target or what is planted in it.\<close>

fun changes_target :: "agent_request \<Rightarrow> bool" where
  "changes_target (Ag_memory_write address data) = True"
| "changes_target (Ag_breakpoint_set address) = True"
| "changes_target (Ag_breakpoint_remove ident) = True"
| "changes_target (Ag_register_set thread_id reg v) = True"
| "changes_target (Ag_hook_set address) = True"
| "changes_target (Ag_hook_function_set address) = True"
| "changes_target (Ag_hook_remove address) = True"
| "changes_target Ag_hook_clear = True"
| "changes_target (Ag_hook_module module) = True"
| "changes_target (Ag_hook_targets_apply module targets) = True"
| "changes_target (Ag_hook_range start end' kinds apply) = apply"
| "changes_target (Ag_syscall_config_set enabled numbers start end') = True"
| "changes_target (Ag_exception_policy_set enabled code) = True"
| "changes_target (Ag_trace_start_spec kinds ranges threads path) = True"
| "changes_target Ag_trace_stop = True"
| "changes_target (Ag_step thread_id over) = True"
| "changes_target _ = False"

definition reads_only :: "'a agent_api \<Rightarrow> ('a \<Rightarrow> 't) \<Rightarrow> bool" where
  "reads_only api target \<longleftrightarrow>
     (\<forall>r a. \<not> changes_target r \<longrightarrow> target (snd (ag_value api r a)) = target a)
     \<and> (\<forall>v a. target (snd (ag_register_id api v a)) = target a)
     \<and> (\<forall>v a. target (snd (ag_callback_count api v a)) = target a)
     \<and> (\<forall>a. target (snd (ag_script_list api a)) = target a)
     \<and> (\<forall>c n a. target (snd (ag_script_output api c n a)) = target a)"

subsection \<open>Fallible steps over a state\<close>

type_synonym ('s, 'e, 'v) fallible = "'s \<Rightarrow> ('e + 'v) \<times> 's"

type_synonym ('s, 'v) hub_m = "('s, hub_error, 'v) fallible"

definition done_with :: "'v \<Rightarrow> ('s, 'e, 'v) fallible" where "done_with v s = (Inr v, s)"
definition fail_with :: "'e \<Rightarrow> ('s, 'e, 'v) fallible" where "fail_with e s = (Inl e, s)"
definition given :: "'e + 'v \<Rightarrow> ('s, 'e, 'v) fallible" where "given r s = (r, s)"

definition hub_then :: "('s, 'e, 'v) fallible \<Rightarrow> ('v \<Rightarrow> ('s, 'e, 'w) fallible) \<Rightarrow> ('s, 'e, 'w) fallible" where
  "hub_then m f s = (case m s of (Inl e, s) \<Rightarrow> (Inl e, s) | (Inr v, s) \<Rightarrow> f v s)"

definition hub_modify :: "('s \<Rightarrow> 's) \<Rightarrow> ('s, 'e, unit) fallible" where "hub_modify f s = (Inr (), f s)"
definition hub_get :: "('s \<Rightarrow> 'v) \<Rightarrow> ('s, 'e, 'v) fallible" where "hub_get f s = (Inr (f s), s)"

lemmas hub_m_defs = done_with_def fail_with_def given_def hub_then_def hub_modify_def hub_get_def

end
