(* ===== verification/Pb_Hub_Scripts.thy ===== *)
theory Pb_Hub_Scripts
  imports Pb_Hub_Agent
begin

section \<open>Scripts the hub manages (script_service.rs)\<close>

text \<open>
  \<open>bindings/rust/pinbridge-hub-core/src/script_service.rs\<close>: the sources a hub keeps, their generations and
  states, beside the scripts the agent runs. \<open>hash\<close> is the SHA-256 of the library, printed in hex. The
  mutation lock makes each operation one step; an error is its message.
\<close>

definition MAX_SCRIPT_NAME_BYTES :: nat where "MAX_SCRIPT_NAME_BYTES = 256"
definition MAX_SCRIPT_SOURCE_BYTES :: nat where "MAX_SCRIPT_SOURCE_BYTES = 1024 * 1024"
definition MAX_OUTPUT_LIMIT :: u32 where "MAX_OUTPUT_LIMIT = 1024"
definition MAX_OUTPUT_TEXT_BYTES :: nat where "MAX_OUTPUT_TEXT_BYTES = 64 * 1024"

datatype script_kind = Module_script | Callback_script

definition script_kind_parse :: "string \<Rightarrow> string + script_kind" where
  "script_kind_parse v =
     (if v = ''module'' then Inr Module_script else if v = ''callback'' then Inr Callback_script
      else Inl ''kind must be module or callback'')"

fun script_kind_str :: "script_kind \<Rightarrow> string" where
  "script_kind_str Module_script = ''module''"
| "script_kind_str Callback_script = ''callback''"

record script_record =
  sr_id :: string
  sr_kind :: script_kind
  sr_generation :: u64
  sr_hash :: string
  sr_source :: string
  sr_created_by :: string
  sr_modified_by :: string
  sr_agent_id :: "string option"
  sr_state :: string

record registration =
  rn_state :: string
  rn_delivered :: string
  rn_dropped :: string

record script_resource =
  re_id :: string
  re_name :: string
  re_kind :: string
  re_generation :: string
  re_hash :: string
  re_state :: string
  re_created_by :: "string option"
  re_modified_by :: "string option"
  re_agent_id :: "string option"
  re_registration :: "registration option"

record scripts =
  sv_records :: "(string \<times> script_record) list"
  sv_next :: u64

definition scripts_new :: scripts where "scripts_new = \<lparr>sv_records = [], sv_next = 1\<rparr>"

type_synonym 'a script_host = "scripts \<times> 'a"
type_synonym ('a, 'v) script_m = "('a script_host, string, 'v) fallible"

definition is_control :: "char \<Rightarrow> bool" where "is_control c \<longleftrightarrow> char_code c < 32 \<or> char_code c = 127"

definition script_validate :: "string \<Rightarrow> string \<Rightarrow> string + unit" where
  "script_validate name source =
     (if name = [] then Inl ''name must not be empty''
      else if length name > MAX_SCRIPT_NAME_BYTES then Inl ''name exceeds 256 bytes''
      else if list_ex is_control name \<or> CHR 0x00 \<in> set name then Inl ''name contains control character''
      else if source = [] then Inl ''source must not be empty''
      else if length source > MAX_SCRIPT_SOURCE_BYTES then Inl ''source exceeds 1 MiB''
      else if CHR 0x00 \<in> set source then Inl ''source contains NUL''
      else Inr ())"

definition validate_name :: "string \<Rightarrow> string + unit" where
  "validate_name n =
     (if n = [] \<or> length n > MAX_SCRIPT_NAME_BYTES \<or> list_ex is_control n \<or> CHR 0x00 \<in> set n
      then Inl ''invalid script name'' else Inr ())"

definition format_agent :: "agent_error \<Rightarrow> string" where
  "format_agent e = (case e of Agent_connection x \<Rightarrow> ''connection_failed: '' @ x | Agent_operation x \<Rightarrow> ''agent_failed: '' @ x)"

text \<open>A request of the service to the agent.\<close>

definition ask_agent :: "('a \<Rightarrow> (agent_error + 'v) \<times> 'a) \<Rightarrow> ('a, 'v) script_m" where
  "ask_agent call st =
     (case st of (s, a) \<Rightarrow> (case call a of (Inl e, a) \<Rightarrow> (Inl (format_agent e), s, a) | (Inr v, a) \<Rightarrow> (Inr v, s, a)))"

definition script_row :: "string \<Rightarrow> 'a script_host \<Rightarrow> script_record option" where
  "script_row name st = map_of (sv_records (fst st)) name"

definition put_row :: "string \<Rightarrow> script_record \<Rightarrow> 'a script_host \<Rightarrow> 'a script_host" where
  "put_row name r st = (case st of (s, a) \<Rightarrow> (s\<lparr>sv_records := om_insert name r (sv_records s)\<rparr>, a))"

definition resource_of :: "string \<Rightarrow> script_record \<Rightarrow> registration option \<Rightarrow> script_resource" where
  "resource_of n r reg = \<lparr>re_id = sr_id r, re_name = n, re_kind = script_kind_str (sr_kind r),
     re_generation = show_word (sr_generation r), re_hash = sr_hash r, re_state = sr_state r,
     re_created_by = Some (sr_created_by r), re_modified_by = Some (sr_modified_by r), re_agent_id = sr_agent_id r,
     re_registration = reg\<rparr>"

definition registration_of :: "agent_script \<Rightarrow> registration" where
  "registration_of a = \<lparr>rn_state = show_word (as_state a), rn_delivered = show_word (as_delivered a),
     rn_dropped = show_word (as_dropped a)\<rparr>"

text \<open>The identity of a script that is loaded: its own, one derived from its name, or a fresh one.\<close>

definition script_identity ::
  "string \<Rightarrow> string \<Rightarrow> bool \<Rightarrow> script_record option \<Rightarrow> 'a script_host \<Rightarrow> (string \<times> u64 \<times> string) \<times> 'a script_host" where
  "script_identity name actor' agent_exists existing st =
     (case existing of
        Some r \<Rightarrow> ((sr_id r, sr_generation r + 1, sr_created_by r), st)
      | None \<Rightarrow>
          if agent_exists then ((''agent:'' @ name, 1, ''unknown''), st)
          else (case st of (s, a) \<Rightarrow>
                  ((''script-'' @ show_word (sv_next s), 1, actor'), s\<lparr>sv_next := sv_next s + 1\<rparr>, a)))"

definition script_load_and_record ::
  "'a agent_api \<Rightarrow> (string \<Rightarrow> string) \<Rightarrow> string \<Rightarrow> string \<Rightarrow> bool \<Rightarrow> string \<Rightarrow> script_kind \<Rightarrow> script_record option \<Rightarrow> bool
     \<Rightarrow> ('a, script_resource) script_m" where
  "script_load_and_record api hash name source replace actor' kind old agent_exists =
     hub_then (ask_agent (ag_script_load api name source)) (\<lambda>agent_id st.
       let existing = (case script_row name st of Some r \<Rightarrow> Some r | None \<Rightarrow> old);
           ((sid, generation, created_by), st) = script_identity name actor' agent_exists existing st;
           r = \<lparr>sr_id = sid, sr_kind = kind, sr_generation = generation, sr_hash = hash source, sr_source = source,
                sr_created_by = created_by, sr_modified_by = actor', sr_agent_id = Some (show_word agent_id),
                sr_state = (if replace then ''replacement_staged'' else ''load_staged'')\<rparr>
       in (Inr (resource_of name r None), put_row name r st))"

definition parse_requested_kind :: "string option \<Rightarrow> string + script_kind option" where
  "parse_requested_kind requested =
     (case requested of None \<Rightarrow> Inr None | Some k \<Rightarrow> map_sum id Some (script_kind_parse k))"

definition agreed_kind :: "string \<Rightarrow> script_record option \<Rightarrow> script_kind option \<Rightarrow> string + script_kind" where
  "agreed_kind name old requested =
     (case (old, requested) of
        (Some r, Some k) \<Rightarrow>
          if sr_kind r \<noteq> k
          then Inl (''script kind mismatch: '' @ name @ '' is '' @ script_kind_str (sr_kind r) @ '', not '' @ script_kind_str k)
          else Inr (sr_kind r)
      | (Some r, None) \<Rightarrow> Inr (sr_kind r)
      | (None, Some k) \<Rightarrow> Inr k
      | (None, None) \<Rightarrow> Inr Module_script)"

text \<open>A stopped module that is replaced keeps its identity and is not run.\<close>

definition stopped_update :: "(string \<Rightarrow> string) \<Rightarrow> string \<Rightarrow> string \<Rightarrow> script_record \<Rightarrow> script_record" where
  "stopped_update hash source actor' old =
     \<lparr>sr_id = sr_id old, sr_kind = sr_kind old, sr_generation = sr_generation old + 1, sr_hash = hash source,
      sr_source = source, sr_created_by = sr_created_by old, sr_modified_by = actor', sr_agent_id = None,
      sr_state = ''stopped''\<rparr>"

definition agent_has_script :: "'a agent_api \<Rightarrow> string \<Rightarrow> ('a, bool) script_m" where
  "agent_has_script api name =
     hub_then (ask_agent (ag_script_list api)) (\<lambda>scripts. done_with (list_ex (\<lambda>s. as_name s = name) scripts))"

definition script_apply_kind ::
  "'a agent_api \<Rightarrow> (string \<Rightarrow> string) \<Rightarrow> string \<Rightarrow> string \<Rightarrow> bool \<Rightarrow> string \<Rightarrow> script_record option \<Rightarrow> script_kind
     \<Rightarrow> ('a, script_resource) script_m" where
  "script_apply_kind api hash name source replace actor' old kind st =
     (if replace \<and> kind = Module_script \<and> (case old of None \<Rightarrow> False | Some r \<Rightarrow> sr_state r = ''stopped'')
      then let r = stopped_update hash source actor' (the old)
           in (Inr (resource_of name r None), put_row name r st)
      else hub_then (if replace \<and> old = None then agent_has_script api name else done_with False)
             (\<lambda>agent_exists.
                if replace \<and> old = None \<and> \<not> agent_exists
                then fail_with ''script_replace requires an existing control-plane or Agent script''
                else script_load_and_record api hash name source replace actor' kind old agent_exists) st)"

definition script_apply ::
  "'a agent_api \<Rightarrow> (string \<Rightarrow> string) \<Rightarrow> string \<Rightarrow> string \<Rightarrow> bool \<Rightarrow> string \<Rightarrow> string option \<Rightarrow> ('a, script_resource) script_m" where
  "script_apply api hash name source replace actor' requested =
     hub_then (given (script_validate name source)) (\<lambda>_.
     hub_then (given (parse_requested_kind requested)) (\<lambda>requested_kind.
     hub_then (hub_get (script_row name)) (\<lambda>old.
     hub_then (given (agreed_kind name old requested_kind)) (\<lambda>kind.
       script_apply_kind api hash name source replace actor' old kind))))"

definition UNAVAILABLE :: string where
  "UNAVAILABLE = ''module source unavailable: script was not loaded through this Hub''"

definition known_module :: "string \<Rightarrow> string \<Rightarrow> ('a, script_record) script_m" where
  "known_module name not_module =
     hub_then (given (validate_name name)) (\<lambda>_.
     hub_then (hub_get (script_row name)) (\<lambda>row.
       case row of None \<Rightarrow> fail_with UNAVAILABLE
       | Some r \<Rightarrow> if sr_kind r \<noteq> Module_script then fail_with not_module else done_with r))"

definition script_stop :: "'a agent_api \<Rightarrow> string \<Rightarrow> ('a, script_resource) script_m" where
  "script_stop api name =
     hub_then (known_module name ''callback scripts are stopped by removing their owning binding'') (\<lambda>r.
       if sr_state r = ''stopped'' then done_with (resource_of name r None)
       else hub_then (ask_agent (ag_unit api (Ag_script_unload name))) (\<lambda>_ st.
              let r = r\<lparr>sr_state := ''stopped'', sr_agent_id := None\<rparr>
              in (Inr (resource_of name r None), put_row name r st)))"

definition script_start :: "'a agent_api \<Rightarrow> string \<Rightarrow> ('a, script_resource) script_m" where
  "script_start api name =
     hub_then (known_module name ''callback scripts start with their owning binding'') (\<lambda>r.
       if sr_state r \<noteq> ''stopped'' then fail_with ''module is already active''
       else hub_then (ask_agent (ag_script_load api name (sr_source r))) (\<lambda>agent_id st.
              let r = r\<lparr>sr_state := ''load_staged'', sr_agent_id := Some (show_word agent_id)\<rparr>
              in (Inr (resource_of name r None), put_row name r st)))"

definition removed_json :: "string \<Rightarrow> script_record option \<Rightarrow> json" where
  "removed_json name row =
     (case row of
        Some r \<Rightarrow> JObject [(''script_id'', JString (sr_id r)), (''name'', JString name),
          (''generation'', JString (show_word (sr_generation r))), (''source_hash'', JString (sr_hash r)),
          (''state'', JString ''remove_accepted'')]
      | None \<Rightarrow> JObject [(''script_id'', JString (''agent:'' @ name)), (''name'', JString name),
          (''generation'', JString ''0''), (''source_hash'', JString ''unknown''), (''state'', JString ''remove_accepted'')])"

definition script_remove :: "'a agent_api \<Rightarrow> string \<Rightarrow> ('a, json) script_m" where
  "script_remove api name =
     hub_then (given (validate_name name)) (\<lambda>_.
     hub_then (hub_get (script_row name)) (\<lambda>row.
     hub_then (if (case row of None \<Rightarrow> False | Some r \<Rightarrow> sr_state r = ''stopped'') then done_with ()
               else ask_agent (ag_unit api (Ag_script_unload name))) (\<lambda>_ st.
       (Inr (removed_json name (script_row name st)),
        case st of (s, a) \<Rightarrow> (s\<lparr>sv_records := om_remove name (sv_records s)\<rparr>, a)))))"

definition reported_resource :: "agent_script \<Rightarrow> script_resource" where
  "reported_resource a = \<lparr>re_id = ''agent:'' @ as_name a, re_name = as_name a, re_kind = ''unknown'', re_generation = ''0'',
     re_hash = ''unknown'', re_state = ''agent_reported'', re_created_by = None, re_modified_by = None,
     re_agent_id = None, re_registration = Some (registration_of a)\<rparr>"

definition script_rows :: "agent_script list \<Rightarrow> (string \<times> script_record) list \<Rightarrow> script_resource list" where
  "script_rows agent rows =
     (let out = map (\<lambda>a. case map_of rows (as_name a) of
                           Some r \<Rightarrow> resource_of (as_name a) r (Some (registration_of a))
                         | None \<Rightarrow> reported_resource a) agent;
          kept = map (\<lambda>(n, r). resource_of n r None) (filter (\<lambda>(n, _). n \<notin> re_name ` set out) rows)
      in sort_key re_name (out @ kept))"

definition script_list_all :: "'a agent_api \<Rightarrow> ('a, script_resource list) script_m" where
  "script_list_all api =
     hub_then (ask_agent (ag_script_list api)) (\<lambda>agent st. (Inr (script_rows agent (sv_records (fst st))), st))"

definition optional_member :: "string \<Rightarrow> json option \<Rightarrow> (string \<times> json) list" where
  "optional_member name v = (case v of None \<Rightarrow> [] | Some j \<Rightarrow> [(name, j)])"

definition resource_json :: "script_resource \<Rightarrow> json" where
  "resource_json r =
     JObject ([(''script_id'', JString (re_id r)), (''name'', JString (re_name r)), (''kind'', JString (re_kind r)),
        (''generation'', JString (re_generation r)), (''source_hash'', JString (re_hash r)), (''state'', JString (re_state r))]
      @ optional_member ''created_by'' (map_option JString (re_created_by r))
      @ optional_member ''modified_by'' (map_option JString (re_modified_by r))
      @ optional_member ''agent_id'' (map_option JString (re_agent_id r))
      @ optional_member ''registration'' (map_option (\<lambda>g. JObject [(''state'', JString (rn_state g)),
          (''delivered'', JString (rn_delivered g)), (''dropped'', JString (rn_dropped g))]) (re_registration r)))"

definition script_get :: "string \<Rightarrow> ('a, json) script_m" where
  "script_get name =
     hub_then (given (validate_name name)) (\<lambda>_.
     hub_then (hub_get (script_row name)) (\<lambda>row.
       case row of None \<Rightarrow> fail_with ''script source unavailable: script was not loaded through this Hub''
       | Some r \<Rightarrow> done_with (json_set_all [(''source'', JString (sr_source r)), (''source_available'', JBool True)]
                                 (resource_json (resource_of name r None)))))"

definition hub_script_status :: "'a agent_api \<Rightarrow> string option \<Rightarrow> ('a, json) script_m" where
  "hub_script_status api name =
     hub_then (script_list_all api) (\<lambda>rows.
       case name of
         None \<Rightarrow> done_with (JObject [(''scripts'', JArray (map resource_json rows))])
       | Some n \<Rightarrow>
           hub_then (given (validate_name n)) (\<lambda>_.
             case List.find (\<lambda>r. re_name r = n) rows of
               None \<Rightarrow> fail_with ''script not found'' | Some r \<Rightarrow> done_with (resource_json r)))"

definition provenance :: "string \<Rightarrow> scripts \<Rightarrow> (string \<times> string) option" where
  "provenance name s = map_option (\<lambda>r. (sr_created_by r, sr_modified_by r)) (map_of (sv_records s) name)"

definition parse_cursor :: "string \<Rightarrow> string \<Rightarrow> string + u64" where
  "parse_cursor v n =
     (if trim v = [] then Inr 0
      else case parse_unsigned 10 (2 ^ 64) (trim v) of
             None \<Rightarrow> Inl (n @ '' must be unsigned decimal string'') | Some k \<Rightarrow> Inr (word_of_nat k))"

definition output_line_json :: "agent_output_line \<Rightarrow> json" where
  "output_line_json l = JObject [(''seq'', JString (show_word (ao_seq l))), (''plugin'', JString (ao_plugin l)),
     (''line'', JString (ao_line l))]"

definition script_output_page :: "'a agent_api \<Rightarrow> string \<Rightarrow> string \<Rightarrow> ('a, json) script_m" where
  "script_output_page api cursor limit_text =
     hub_then (given (parse_cursor cursor ''cursor'')) (\<lambda>after.
     hub_then (given (parse_cursor limit_text ''limit'')) (\<lambda>wide.
       if unat wide \<ge> 2 ^ 32 then fail_with ''limit exceeds u32''
       else let limit = ucast wide :: u32
            in if limit = 0 \<or> limit > MAX_OUTPUT_LIMIT then fail_with ''limit must be 1..1024''
               else hub_then (ask_agent (ag_script_output api after limit)) (\<lambda>(next', lines).
                      let page = take (unat limit) lines
                      in if list_ex (\<lambda>l. length (ao_plugin l) > MAX_SCRIPT_NAME_BYTES
                                        \<or> length (ao_line l) > MAX_OUTPUT_TEXT_BYTES) page
                         then fail_with ''agent returned oversized script output''
                         else done_with (JObject [(''next_cursor'', JString (show_word next')),
                                (''lines'', JArray (map output_line_json page))]))))"

end
