(* ===== verification/Pb_Hook_Query.thy ===== *)
theory Pb_Hook_Query
  imports Pb_Json "HOL-Library.Multiset" "HOL-Library.Product_Lexorder"
begin

section \<open>Queries over captured calls (hook_query.rs)\<close>

text \<open>
  \<open>bindings/rust/pinbridge-hub-core/src/hook_query.rs\<close>: the filter, the three layouts (events, calls that pair
  an entry with its return, groups) and the exports of a page of hook events. \<open>json_text\<close> and \<open>json_pretty\<close>
  print a value as \<open>serde_json\<close> does. Sequence numbers and times are the naturals their texts denote, below
  \<open>2 ^ 64\<close> because the parser refuses the others. The wildcard matcher is the loop of the code: not returning is
  \<open>None\<close>.
\<close>

definition MAX_QUERY_EVENTS :: nat where "MAX_QUERY_EVENTS = 4096"
definition MAX_EXPORT_BYTES :: nat where "MAX_EXPORT_BYTES = 8 * 1024 * 1024"

subsection \<open>Arguments\<close>

definition hex_digits :: "string \<Rightarrow> string option" where
  "hex_digits s = (case strip_prefix ''0x'' s of Some rest \<Rightarrow> Some rest | None \<Rightarrow> strip_prefix ''0X'' s)"

definition parse_number :: "string \<Rightarrow> nat option" where
  "parse_number s =
     (case hex_digits s of Some digits \<Rightarrow> parse_unsigned 16 (2 ^ 64) digits | None \<Rightarrow> parse_unsigned 10 (2 ^ 64) s)"

definition value_number :: "json \<Rightarrow> nat option" where
  "value_number j = Option.bind (json_as_str j) parse_number"

definition event_sequence :: "json \<Rightarrow> nat" where
  "event_sequence event =
     (case Option.bind (json_get ''sequence'' event) value_number of None \<Rightarrow> 0 | Some n \<Rightarrow> n)"

definition parse_decimal :: "json_args \<Rightarrow> string \<Rightarrow> nat \<Rightarrow> nat \<Rightarrow> hub_error + nat" where
  "parse_decimal args key otherwise maximum =
     and_then (case map_of args key of
                 None \<Rightarrow> Inr otherwise
               | Some (JString s) \<Rightarrow>
                   (case parse_unsigned 10 (2 ^ 64) s of
                      None \<Rightarrow> Inl (Validation (key @ '' must be decimal'')) | Some n \<Rightarrow> Inr n)
               | Some _ \<Rightarrow> Inl (Validation (key @ '' must be a decimal string'')))
       (\<lambda>n. if n > maximum then Inl (Validation (key @ '' exceeds '' @ show_nat maximum)) else Inr n)"

definition requested_before :: "json_args \<Rightarrow> hub_error + nat" where
  "requested_before args = parse_decimal args ''before'' 0 (2 ^ 64 - 1)"

fun collect_strings :: "string \<Rightarrow> json list \<Rightarrow> hub_error + string list" where
  "collect_strings key [] = Inr []"
| "collect_strings key (v # vs) =
     (case json_as_str v of
        None \<Rightarrow> Inl (Validation (key @ '' values must be strings''))
      | Some s \<Rightarrow> map_sum id (Cons s) (collect_strings key vs))"

definition string_list :: "json_args \<Rightarrow> string \<Rightarrow> nat \<Rightarrow> hub_error + string list" where
  "string_list args key maximum =
     (case map_of args key of
        None \<Rightarrow> Inr []
      | Some v \<Rightarrow>
          (case json_as_array v of
             None \<Rightarrow> Inl (Validation (key @ '' must be an array''))
           | Some vs \<Rightarrow>
               if length vs > maximum
               then Inl (Validation (key @ '' accepts at most '' @ show_nat maximum @ '' values''))
               else collect_strings key vs))"

fun collect_enum :: "string \<Rightarrow> string list \<Rightarrow> string list \<Rightarrow> string list \<Rightarrow> hub_error + string list" where
  "collect_enum key allowed [] result = Inr result"
| "collect_enum key allowed (v # vs) result =
     (if v \<notin> set allowed then Inl (Validation (''unsupported '' @ key @ '' value: '' @ v))
      else collect_enum key allowed vs (os_insert v result))"

definition enum_set :: "json_args \<Rightarrow> string \<Rightarrow> string list \<Rightarrow> hub_error + string list option" where
  "enum_set args key allowed =
     and_then (string_list args key (length allowed)) (\<lambda>values.
       if values = [] then Inr None else map_sum id Some (collect_enum key allowed values []))"

fun collect_numbers :: "string \<Rightarrow> string list \<Rightarrow> nat list \<Rightarrow> hub_error + nat list" where
  "collect_numbers key [] result = Inr result"
| "collect_numbers key (v # vs) result =
     (case parse_number v of
        None \<Rightarrow> Inl (Validation (''invalid numeric value in '' @ key @ '': '' @ v))
      | Some n \<Rightarrow> collect_numbers key vs (os_insert n result))"

definition numeric_set :: "json_args \<Rightarrow> string \<Rightarrow> hub_error + nat list option" where
  "numeric_set args key =
     and_then (string_list args key 1024) (\<lambda>values.
       if values = [] then Inr None else map_sum id Some (collect_numbers key values []))"

subsection \<open>The wildcard matcher\<close>

text \<open>One turn of the loop: the position in the pattern and in the value, the last star and where to try again.\<close>

type_synonym match_state = "nat \<times> nat \<times> nat option \<times> nat"

definition match_turn :: "string \<Rightarrow> string \<Rightarrow> match_state \<Rightarrow> match_state option" where
  "match_turn pattern v st =
     (case st of (p, i, star, retry) \<Rightarrow>
        if p < length pattern \<and> (pattern ! p = CHR ''?'' \<or> pattern ! p = v ! i) then Some (p + 1, i + 1, star, retry)
        else if p < length pattern \<and> pattern ! p = CHR ''*'' then Some (p + 1, i, Some p, i)
        else case star of Some star_at \<Rightarrow> Some (star_at + 1, retry + 1, star, retry + 1) | None \<Rightarrow> None)"

definition only_stars :: "string \<Rightarrow> bool" where "only_stars rest = list_all (\<lambda>c. c = CHR ''*'') rest"

partial_function (option) match_loop :: "string \<Rightarrow> string \<Rightarrow> match_state \<Rightarrow> bool option" where
  "match_loop pattern v st =
     (case st of (p, i, _) \<Rightarrow>
        if i < length v
        then (case match_turn pattern v st of None \<Rightarrow> Some False | Some st \<Rightarrow> match_loop pattern v st)
        else Some (only_stars (drop p pattern)))"

definition wildcard_match :: "string \<Rightarrow> string \<Rightarrow> bool option" where
  "wildcard_match pattern v = match_loop (to_lower pattern) (to_lower v) (0, 0, None, 0)"

definition matches_patterns :: "string option \<Rightarrow> string list \<Rightarrow> bool" where
  "matches_patterns v patterns \<longleftrightarrow>
     (case v of None \<Rightarrow> False | Some s \<Rightarrow> list_ex (\<lambda>p. wildcard_match p s = Some True) patterns)"

subsection \<open>The query\<close>

datatype query_order = Asc | Desc
datatype query_layout = Events | Calls | Summary

record query_spec =
  qs_limit :: nat
  qs_after :: nat
  qs_order :: query_order
  qs_layout :: query_layout
  qs_hook_types :: "string list option"
  qs_phases :: "string list option"
  qs_modules :: "string list"
  qs_symbols :: "string list"
  qs_thread_ids :: "nat list option"
  qs_addresses :: "nat list option"
  qs_group_by :: "string list"

definition parse_order :: "json_args \<Rightarrow> hub_error + query_order" where
  "parse_order args =
     (let v = string_or args ''order'' ''desc''
      in if v = ''asc'' then Inr Asc else if v = ''desc'' then Inr Desc
         else Inl (Validation ''Hook event order must be asc or desc''))"

definition parse_layout :: "json_args \<Rightarrow> hub_error + query_layout" where
  "parse_layout args =
     (let v = string_or args ''layout'' ''events''
      in if v = ''events'' then Inr Events else if v = ''calls'' then Inr Calls else if v = ''summary'' then Inr Summary
         else Inl (Validation ''Hook event layout must be events, calls, or summary''))"

definition GROUP_FIELDS :: "string list" where
  "GROUP_FIELDS = [''module'', ''symbol'', ''display'', ''thread_id'', ''address'', ''hook_type'', ''kind'']"

definition parse_group_by :: "json_args \<Rightarrow> hub_error + string list" where
  "parse_group_by args =
     and_then (string_list args ''group_by'' 8) (\<lambda>values.
       let values = (if values = [] then [''display''] else values)
       in case List.find (\<lambda>field. field \<notin> set GROUP_FIELDS) values of
            Some field \<Rightarrow> Inl (Validation (''unsupported Hook summary field: '' @ field)) | None \<Rightarrow> Inr values)"

definition query_spec_parse :: "json_args \<Rightarrow> hub_error + query_spec" where
  "query_spec_parse args =
     and_then (parse_decimal args ''limit'' 1024 MAX_QUERY_EVENTS) (\<lambda>limit.
     if limit = 0 then Inl (Validation ''Hook event query limit must be 1..4096'')
     else
     and_then (parse_decimal args ''after'' 0 (2 ^ 64 - 1)) (\<lambda>after.
     and_then (parse_order args) (\<lambda>order.
     and_then (parse_layout args) (\<lambda>layout.
     and_then (enum_set args ''hook_types'' [''api'', ''instruction'']) (\<lambda>hook_types.
     and_then (enum_set args ''phases'' [''hit'', ''entry'', ''return'']) (\<lambda>phases.
     and_then (string_list args ''modules'' 64) (\<lambda>modules.
     and_then (string_list args ''symbols'' 64) (\<lambda>symbols.
     and_then (numeric_set args ''thread_ids'') (\<lambda>thread_ids.
     and_then (numeric_set args ''addresses'') (\<lambda>addresses.
     and_then (parse_group_by args) (\<lambda>group_by.
       Inr \<lparr>qs_limit = limit, qs_after = after, qs_order = order, qs_layout = layout, qs_hook_types = hook_types,
            qs_phases = phases, qs_modules = modules, qs_symbols = symbols, qs_thread_ids = thread_ids,
            qs_addresses = addresses, qs_group_by = group_by\<rparr>)))))))))))"

definition get_str :: "string \<Rightarrow> json \<Rightarrow> string option" where
  "get_str name event = Option.bind (json_get name event) json_as_str"

definition member_of :: "'v option \<Rightarrow> 'v list option \<Rightarrow> bool" where
  "member_of v allowed =
     (case allowed of None \<Rightarrow> True | Some vs \<Rightarrow> (case v of None \<Rightarrow> False | Some x \<Rightarrow> x \<in> set vs))"

definition query_matches :: "query_spec \<Rightarrow> json \<Rightarrow> bool" where
  "query_matches spec event \<longleftrightarrow> event_sequence event > qs_after spec
     \<and> member_of (get_str ''hook_type'' event) (qs_hook_types spec)
     \<and> member_of (get_str ''kind'' event) (qs_phases spec)
     \<and> (qs_modules spec = [] \<or> matches_patterns (get_str ''module'' event) (qs_modules spec))
     \<and> (qs_symbols spec = [] \<or> matches_patterns (get_str ''symbol'' event) (qs_symbols spec))
     \<and> member_of (Option.bind (json_get ''thread_id'' event) value_number) (qs_thread_ids spec)
     \<and> member_of (Option.bind (json_get ''address'' event) value_number) (qs_addresses spec)"

definition dec_json :: "nat \<Rightarrow> json" where "dec_json n = JString (show_nat n)"

definition strings_json :: "string list \<Rightarrow> json" where "strings_json vs = JArray (map JString vs)"

definition query_spec_json :: "query_spec \<Rightarrow> json" where
  "query_spec_json spec = JObject [(''limit'', dec_json (qs_limit spec)), (''after'', dec_json (qs_after spec)),
     (''order'', JString (case qs_order spec of Asc \<Rightarrow> ''asc'' | Desc \<Rightarrow> ''desc'')),
     (''layout'', JString (case qs_layout spec of Events \<Rightarrow> ''events'' | Calls \<Rightarrow> ''calls'' | Summary \<Rightarrow> ''summary'')),
     (''hook_types'', json_option (map_option strings_json (qs_hook_types spec))),
     (''phases'', json_option (map_option strings_json (qs_phases spec))),
     (''modules'', strings_json (qs_modules spec)), (''symbols'', strings_json (qs_symbols spec)),
     (''thread_ids'', json_option (map_option (\<lambda>vs. JArray (map dec_json vs)) (qs_thread_ids spec))),
     (''addresses'', json_option (map_option (\<lambda>vs. JArray (map (\<lambda>n. JString (show_hex n)) vs)) (qs_addresses spec))),
     (''group_by'', strings_json (qs_group_by spec))]"

definition scalar_string :: "(json \<Rightarrow> string) \<Rightarrow> json option \<Rightarrow> string" where
  "scalar_string json_text v =
     (case v of None \<Rightarrow> [] | Some JNull \<Rightarrow> [] | Some (JString s) \<Rightarrow> s | Some other \<Rightarrow> json_text other)"

subsection \<open>Calls\<close>

record call_parts =
  cp_entry :: "json option"
  cp_return :: "json option"
  cp_status :: string

definition event_kind :: "json \<Rightarrow> string" where
  "event_kind event = (case get_str ''kind'' event of None \<Rightarrow> ''hit'' | Some k \<Rightarrow> k)"

definition call_key :: "(json \<Rightarrow> string) \<Rightarrow> json \<Rightarrow> string \<times> string" where
  "call_key json_text event =
     (scalar_string json_text (json_get ''thread_id'' event), scalar_string json_text (json_get ''address'' event))"

type_synonym call_stacks = "((string \<times> string) \<times> json list) list"

definition stack_of :: "call_stacks \<Rightarrow> string \<times> string \<Rightarrow> json list" where
  "stack_of stacks key = (case map_of stacks key of None \<Rightarrow> [] | Some es \<Rightarrow> es)"

definition pair_event :: "(json \<Rightarrow> string) \<Rightarrow> json \<Rightarrow> call_stacks \<times> call_parts list \<Rightarrow> call_stacks \<times> call_parts list" where
  "pair_event json_text event st =
     (case st of (stacks, calls) \<Rightarrow>
        let key = call_key json_text event; stack = stack_of stacks key
        in if event_kind event = ''hit''
           then (stacks, calls @ [\<lparr>cp_entry = Some event, cp_return = None, cp_status = ''hit''\<rparr>])
           else if event_kind event = ''entry'' then (om_insert key (stack @ [event]) stacks, calls)
           else if stack \<noteq> []
           then (om_insert key (butlast stack) stacks,
                 calls @ [\<lparr>cp_entry = Some (last stack), cp_return = Some event, cp_status = ''paired''\<rparr>])
           else (stacks, calls @ [\<lparr>cp_entry = None, cp_return = Some event, cp_status = ''unmatched_return''\<rparr>]))"

definition pair_parts :: "(json \<Rightarrow> string) \<Rightarrow> json list \<Rightarrow> call_parts list" where
  "pair_parts json_text events =
     (case fold (pair_event json_text) events ([], []) of (stacks, calls) \<Rightarrow>
        calls @ map (\<lambda>e. \<lparr>cp_entry = Some e, cp_return = None, cp_status = ''unmatched_entry''\<rparr>) (concat (map snd stacks)))"

definition call_from_parts :: "call_parts \<Rightarrow> json" where
  "call_from_parts c =
     (let primary = (case cp_entry c of Some e \<Rightarrow> e | None \<Rightarrow> the (cp_return c));
          entry_sequence = map_option event_sequence (cp_entry c); return_sequence = map_option event_sequence (cp_return c);
          time = (\<lambda>e. Option.bind (Option.bind e (json_get ''timestamp_unix_ns'')) value_number);
          sequence = (case entry_sequence of Some n \<Rightarrow> n | None \<Rightarrow> (case return_sequence of Some n \<Rightarrow> n | None \<Rightarrow> 0));
          of_primary = (\<lambda>name. json_option (json_get name primary));
          of_entry = (\<lambda>name. json_option (Option.bind (cp_entry c) (json_get name)));
          of_return = (\<lambda>name. json_option (Option.bind (cp_return c) (json_get name)));
          duration = (case (time (cp_entry c), time (cp_return c)) of
                        (Some start, Some end') \<Rightarrow> Some (end' - start) | _ \<Rightarrow> None)
      in JObject [(''sequence'', dec_json sequence), (''status'', JString (cp_status c)),
           (''thread_id'', of_primary ''thread_id''), (''address'', of_primary ''address''), (''module'', of_primary ''module''),
           (''symbol'', of_primary ''symbol''), (''display'', of_primary ''display''), (''hook_type'', of_primary ''hook_type''),
           (''entry_sequence'', json_option (map_option dec_json entry_sequence)),
           (''return_sequence'', json_option (map_option dec_json return_sequence)),
           (''duration_ns'', json_option (map_option dec_json duration)),
           (''arguments'', of_entry ''arguments''), (''typed_arguments'', of_entry ''typed_arguments''),
           (''return_value'', of_return ''return_value''), (''typed_return'', of_return ''typed_return''),
           (''entry'', json_option (cp_entry c)), (''return'', json_option (cp_return c))])"

definition pair_calls :: "(json \<Rightarrow> string) \<Rightarrow> json list \<Rightarrow> json list" where
  "pair_calls json_text events = sort_key event_sequence (map call_from_parts (pair_parts json_text events))"

subsection \<open>Groups\<close>

record event_group =
  eg_key :: json
  eg_count :: nat
  eg_first_sequence :: nat
  eg_last_sequence :: nat
  eg_first_timestamp :: nat
  eg_last_timestamp :: nat

definition group_key :: "string list \<Rightarrow> json \<Rightarrow> json" where
  "group_key group_by event = json_set_all (map (\<lambda>f. (f, json_option (json_get f event))) group_by) (JObject [])"

definition count_event :: "nat \<Rightarrow> nat \<Rightarrow> event_group \<Rightarrow> event_group" where
  "count_event sequence timestamp g =
     g\<lparr>eg_count := eg_count g + 1, eg_first_sequence := min (eg_first_sequence g) sequence,
       eg_last_sequence := max (eg_last_sequence g) sequence, eg_first_timestamp := min (eg_first_timestamp g) timestamp,
       eg_last_timestamp := max (eg_last_timestamp g) timestamp\<rparr>"

definition group_event ::
  "(json \<Rightarrow> string) \<Rightarrow> string list \<Rightarrow> json \<Rightarrow> (string \<times> event_group) list \<Rightarrow> (string \<times> event_group) list" where
  "group_event json_text group_by event groups =
     (let key = group_key group_by event; sequence = event_sequence event;
          timestamp = (case Option.bind (json_get ''timestamp_unix_ns'' event) value_number of None \<Rightarrow> 0 | Some n \<Rightarrow> n);
          group = (case map_of groups (json_text key) of
                     Some g \<Rightarrow> g
                   | None \<Rightarrow> \<lparr>eg_key = key, eg_count = 0, eg_first_sequence = sequence, eg_last_sequence = sequence,
                              eg_first_timestamp = timestamp, eg_last_timestamp = timestamp\<rparr>)
      in om_insert (json_text key) (count_event sequence timestamp group) groups)"

definition group_json :: "event_group \<Rightarrow> json" where
  "group_json g = JObject [(''key'', eg_key g), (''count'', dec_json (eg_count g)),
     (''first_sequence'', dec_json (eg_first_sequence g)), (''last_sequence'', dec_json (eg_last_sequence g)),
     (''first_timestamp_unix_ns'', dec_json (eg_first_timestamp g)),
     (''last_timestamp_unix_ns'', dec_json (eg_last_timestamp g))]"

definition summarize :: "(json \<Rightarrow> string) \<Rightarrow> json list \<Rightarrow> string list \<Rightarrow> json list" where
  "summarize json_text events group_by =
     sort_key (\<lambda>v. case Option.bind (json_get ''count'' v) value_number of None \<Rightarrow> 0 | Some n \<Rightarrow> n)
       (map (\<lambda>(_, g). group_json g) (fold (group_event json_text group_by) events []))"

subsection \<open>Results and exports\<close>

definition pick_members :: "string list \<Rightarrow> json \<Rightarrow> json" where
  "pick_members names source = JObject (List.map_filter (\<lambda>f. map_option (Pair f) (json_get f source)) names)"

definition lane_metadata :: "json \<Rightarrow> json" where
  "lane_metadata = pick_members [''lane_total'', ''lane_dropped'', ''history_overwritten'', ''next_cursor'', ''capacity'',
     ''pointer_width'', ''window_before'']"

definition in_order :: "query_order \<Rightarrow> 'v list \<Rightarrow> 'v list" where
  "in_order order xs = (case order of Asc \<Rightarrow> xs | Desc \<Rightarrow> rev xs)"

definition hook_query_result :: "(json \<Rightarrow> string) \<Rightarrow> query_spec \<Rightarrow> json list \<Rightarrow> json" where
  "hook_query_result json_text spec events =
     (let matched = (''matched_events'', dec_json (length events))
      in case qs_layout spec of
           Events \<Rightarrow>
             (let page = take (qs_limit spec) (in_order (qs_order spec) events)
              in JObject [(''layout'', JString ''events''), matched, (''returned'', dec_json (length page)),
                   (''events'', JArray page)])
         | Calls \<Rightarrow>
             (let calls = in_order (qs_order spec) (pair_calls json_text events); page = take (qs_limit spec) calls
              in JObject [(''layout'', JString ''calls''), matched, (''matched_calls'', dec_json (length calls)),
                   (''returned'', dec_json (length page)), (''calls'', JArray page)])
         | Summary \<Rightarrow>
             (let groups = in_order (qs_order spec) (summarize json_text events (qs_group_by spec));
                  page = take (qs_limit spec) groups
              in JObject [(''layout'', JString ''summary''), matched, (''matched_groups'', dec_json (length groups)),
                   (''returned'', dec_json (length page)), (''group_by'', strings_json (qs_group_by spec)),
                   (''groups'', JArray page)]))"

definition hook_query :: "(json \<Rightarrow> string) \<Rightarrow> json \<Rightarrow> json_args \<Rightarrow> hub_error + json" where
  "hook_query json_text source args =
     and_then (query_spec_parse args) (\<lambda>spec.
       case Option.bind (json_get ''events'' source) json_as_array of
         None \<Rightarrow> Inl (Agent ''Agent returned an invalid Hook event page'')
       | Some source_events \<Rightarrow>
           let events = sort_key event_sequence (filter (query_matches spec) source_events)
           in Inr (json_set_all [(''lane'', lane_metadata source), (''query'', query_spec_json spec)]
                    (hook_query_result json_text spec events)))"

definition result_rows :: "json \<Rightarrow> hub_error + json list" where
  "result_rows result =
     (case List.map_filter (\<lambda>key. Option.bind (json_get key result) json_as_array) [''events'', ''calls'', ''groups''] of
        rows # _ \<Rightarrow> Inr rows | [] \<Rightarrow> Inl (Internal ''Hook query result has no row collection''))"

definition export_jsonl :: "(json \<Rightarrow> string) \<Rightarrow> json \<Rightarrow> hub_error + string" where
  "export_jsonl json_text result =
     map_sum id (\<lambda>rows. concat (map (\<lambda>row. json_text row @ [CHR 0x0A]) rows)) (result_rows result)"

definition export_fields :: "string \<Rightarrow> string list" where
  "export_fields layout =
     (if layout = ''calls''
      then [''sequence'', ''status'', ''thread_id'', ''address'', ''module'', ''symbol'', ''display'', ''duration_ns'', ''arguments'',
            ''return_value'']
      else if layout = ''summary''
      then [''key'', ''count'', ''first_sequence'', ''last_sequence'', ''first_timestamp_unix_ns'', ''last_timestamp_unix_ns'']
      else [''sequence'', ''timestamp_unix_ns'', ''kind'', ''hook_type'', ''thread_id'', ''address'', ''module'', ''symbol'',
            ''display'', ''arguments'', ''return_value''])"

definition export_csv :: "(json \<Rightarrow> string) \<Rightarrow> json \<Rightarrow> json_args \<Rightarrow> hub_error + string" where
  "export_csv json_text result args =
     and_then (result_rows result) (\<lambda>rows.
     and_then (string_list args ''fields'' 64) (\<lambda>requested.
       let layout = (case get_str ''layout'' result of None \<Rightarrow> ''events'' | Some l \<Rightarrow> l);
           names = (if requested \<noteq> [] then requested else export_fields layout)
       in Inr (csv_line (map csv_cell names)
            @ concat (map (\<lambda>row. csv_line (map (\<lambda>f. csv_cell (scalar_string json_text (json_get f row))) names)) rows))))"

definition hook_export ::
  "(json \<Rightarrow> string) \<Rightarrow> (json \<Rightarrow> string) \<Rightarrow> json \<Rightarrow> json_args \<Rightarrow> hub_error + json" where
  "hook_export json_text json_pretty source args =
     and_then (hook_query json_text source args) (\<lambda>queried.
       let form = string_or args ''format'' ''jsonl''
       in and_then
            (if form = ''json'' then Inr (json_pretty queried, ''application/json'', ''json'')
             else if form = ''jsonl''
             then map_sum id (\<lambda>data. (data, ''application/x-ndjson'', ''jsonl'')) (export_jsonl json_text queried)
             else if form = ''csv''
             then map_sum id (\<lambda>data. (data, ''text/csv; charset=utf-8'', ''csv'')) (export_csv json_text queried args)
             else Inl (Validation ''Hook export format must be json, jsonl, or csv''))
            (\<lambda>(data, mime_type, extension).
               if length data > MAX_EXPORT_BYTES
               then Inl (Validation (''Hook export exceeds the inline '' @ show_nat (MAX_EXPORT_BYTES div (1024 * 1024))
                          @ '' MiB limit; narrow the query''))
               else
                 let filename = (case Option.bind (map_of args ''filename'') json_as_str of
                                   None \<Rightarrow> ''hook-events.'' @ extension
                                 | Some s \<Rightarrow> if trim s = [] then ''hook-events.'' @ extension else trim s)
                 in Inr (JObject [(''delivery'', JString ''inline''), (''format'', JString form),
                      (''mime_type'', JString mime_type), (''filename'', JString filename),
                      (''bytes'', dec_json (length data)), (''data'', JString data), (''query_result'', queried)])))"

subsection \<open>What the wildcard matcher decides\<close>

text \<open>What a wildcard pattern means.\<close>

fun glob :: "string \<Rightarrow> string \<Rightarrow> bool" where
  "glob [] v \<longleftrightarrow> v = []"
| "glob (x # pattern) [] \<longleftrightarrow> x = CHR ''*'' \<and> glob pattern []"
| "glob (x # pattern) (c # v) \<longleftrightarrow>
     (if x = CHR ''*'' then glob pattern (c # v) \<or> glob (x # pattern) v
      else (x = CHR ''?'' \<or> x = c) \<and> glob pattern v)"

lemma only_stars_glob: "only_stars pattern \<longleftrightarrow> glob pattern []"
  unfolding only_stars_def by (induction pattern) auto

lemma glob_star: "glob (CHR ''*'' # pattern) v \<longleftrightarrow> (\<exists>k \<le> length v. glob pattern (drop k v))"
proof (induction v)
  case (Cons c v)
  have "(\<exists>k \<le> length (c # v). glob pattern (drop k (c # v))) \<longleftrightarrow>
      glob pattern (c # v) \<or> (\<exists>k \<le> length v. glob pattern (drop k v))"
    by (metis Suc_le_mono drop0 drop_Suc_Cons le0 length_Cons not0_implies_Suc)
  then show ?case using Cons by simp
qed simp

text \<open>What is left to try in a state of the loop.\<close>

definition match_left :: "string \<Rightarrow> string \<Rightarrow> match_state \<Rightarrow> bool" where
  "match_left pattern v st \<longleftrightarrow>
     (case st of (p, i, star, retry) \<Rightarrow>
        glob (drop p pattern) (drop i v)
        \<or> (case star of None \<Rightarrow> False
            | Some s \<Rightarrow> \<exists>k > retry. k \<le> length v \<and> glob (drop (s + 1) pattern) (drop k v)))"

definition match_ok :: "string \<Rightarrow> string \<Rightarrow> match_state \<Rightarrow> bool" where
  "match_ok pattern v st \<longleftrightarrow>
     (case st of (p, i, star, retry) \<Rightarrow> i \<le> length v
        \<and> (case star of None \<Rightarrow> True | Some s \<Rightarrow> retry \<le> i \<and> s < p \<and> p \<le> length pattern))"

definition match_rank :: "string \<Rightarrow> string \<Rightarrow> match_state \<Rightarrow> nat \<times> nat" where
  "match_rank pattern v st =
     (case st of (p, i, star, retry) \<Rightarrow>
        (case star of None \<Rightarrow> length v + 1 | Some _ \<Rightarrow> length v - retry, length pattern - p))"

lemma match_turn_progress:
  assumes "match_turn pattern v st = Some st'" "match_ok pattern v st" "fst (snd st) < length v"
  shows "match_ok pattern v st'"
    and "(match_rank pattern v st', match_rank pattern v st) \<in> less_than <*lex*> less_than"
  using assms
  by (auto simp: match_turn_def match_ok_def match_rank_def split: prod.splits if_splits option.splits)

lemma match_turn_sound:
  assumes "match_turn pattern v st = Some st'" "fst (snd st) < length v" "match_left pattern v st'"
    "match_ok pattern v st"
  shows "match_left pattern v st"
proof -
  obtain p i star retry where st: "st = (p, i, star, retry)" by (cases st)
  have i: "i < length v" and v: "drop i v = v ! i # drop (Suc i) v"
    using assms(2) by (simp_all add: st Cons_nth_drop_Suc)
  show ?thesis
  proof (cases "p < length pattern \<and> (pattern ! p = CHR ''?'' \<or> pattern ! p = v ! i)")
    case True
    then have p: "drop p pattern = pattern ! p # drop (Suc p) pattern" by (simp add: Cons_nth_drop_Suc)
    have st': "st' = (p + 1, i + 1, star, retry)" using True assms(1) by (auto simp: match_turn_def st)
    have "glob (drop (Suc p) pattern) (drop (Suc i) v) \<Longrightarrow> glob (drop p pattern) (drop i v)"
      using True unfolding p v by (auto simp: glob_star intro: exI [of _ 0])
    then show ?thesis using assms(3) by (auto simp: match_left_def st st' split: option.splits)
  next
    case no: False
    show ?thesis
    proof (cases "p < length pattern \<and> pattern ! p = CHR ''*''")
      case True
      then have p: "drop p pattern = CHR ''*'' # drop (Suc p) pattern" by (metis Cons_nth_drop_Suc)
      have st': "st' = (p + 1, i, Some p, i)" using True no assms(1) by (auto simp: match_turn_def st)
      have "glob (drop p pattern) (drop i v)"
      proof -
        have "\<exists>k \<ge> i. k \<le> length v \<and> glob (drop (Suc p) pattern) (drop k v)"
          using assms(3) i by (auto simp: match_left_def st' intro: less_imp_le exI [of _ i])
        then obtain k where "k \<ge> i" "k \<le> length v" "glob (drop (Suc p) pattern) (drop k v)" by blast
        then show ?thesis unfolding p glob_star by (intro exI [of _ "k - i"]) auto
      qed
      then show ?thesis by (simp add: match_left_def st)
    next
      case False
      then obtain s where s: "star = Some s" "st' = (s + 1, retry + 1, star, retry + 1)"
        using no assms(1) by (auto simp: match_turn_def st split: option.splits if_splits)
      then have "retry < length v" using assms(4) i by (simp add: match_ok_def st)
      then show ?thesis using assms(3) s
        by (auto simp: match_left_def st intro: exI [of _ "Suc retry"] dest: Suc_lessD)
    qed
  qed
qed

text \<open>When the value has no star, the greedy loop loses nothing.\<close>

definition match_segment :: "string \<Rightarrow> match_state \<Rightarrow> bool" where
  "match_segment pattern st \<longleftrightarrow>
     (case st of (p, i, star, retry) \<Rightarrow>
        (case star of None \<Rightarrow> True
         | Some s \<Rightarrow> i - retry = p - Suc s
             \<and> (\<exists>seg. drop (Suc s) pattern = seg @ drop p pattern \<and> length seg = p - Suc s \<and> CHR ''*'' \<notin> set seg)))"

lemma glob_segment:
  "CHR ''*'' \<notin> set seg \<Longrightarrow> glob (seg @ rest) w \<Longrightarrow> length seg \<le> length w \<and> glob rest (drop (length seg) w)"
proof (induction seg arbitrary: w)
  case (Cons x seg)
  then show ?case by (cases w) auto
qed simp

lemma match_turn_segment:
  assumes "match_turn pattern v st = Some st'" "match_ok pattern v st" "match_segment pattern st"
    "fst (snd st) < length v" "CHR ''*'' \<notin> set v"
  shows "match_segment pattern st'"
proof -
  obtain p i star retry where st: "st = (p, i, star, retry)" by (cases st)
  have i: "v ! i \<noteq> CHR ''*''" using assms(4,5) by (metis fst_conv nth_mem snd_conv st)
  show ?thesis
  proof (cases "p < length pattern \<and> (pattern ! p = CHR ''?'' \<or> pattern ! p = v ! i)")
    case True
    then have st': "st' = (p + 1, i + 1, star, retry)" using assms(1) by (auto simp: match_turn_def st)
    show ?thesis
    proof (cases star)
      case (Some s)
      obtain seg where seg: "drop (Suc s) pattern = seg @ drop p pattern" "length seg = p - Suc s" "CHR ''*'' \<notin> set seg"
        using assms(3) by (auto simp: match_segment_def st Some)
      have "drop (Suc s) pattern = (seg @ [pattern ! p]) @ drop (Suc p) pattern"
        using seg(1) True by (simp add: Cons_nth_drop_Suc)
      then show ?thesis using seg assms(2,3) True i
        by (auto simp: match_segment_def st st' Some match_ok_def intro!: exI [of _ "seg @ [pattern ! p]"])
    qed (simp add: match_segment_def st')
  next
    case False
    then have "st' = (p + 1, i, Some p, i) \<or> (\<exists>s. st' = (s + 1, retry + 1, Some s, retry + 1))"
      using assms(1) by (auto simp: match_turn_def st split: option.splits if_splits)
    then show ?thesis by (auto simp: match_segment_def)
  qed
qed

lemma match_turn_complete:
  assumes "match_left pattern v st" "match_ok pattern v st" "match_segment pattern st"
    "fst (snd st) < length v" "CHR ''*'' \<notin> set v"
  shows "\<exists>st'. match_turn pattern v st = Some st' \<and> match_left pattern v st'"
proof -
  obtain p i star retry where st: "st = (p, i, star, retry)" by (cases st)
  have i: "v ! i \<noteq> CHR ''*''" using assms(4,5) by (metis fst_conv nth_mem snd_conv st)
  have v: "drop i v = v ! i # drop (Suc i) v" using assms(4) by (simp add: st Cons_nth_drop_Suc)
  let ?here = "glob (drop p pattern) (drop i v)"
  have alternatives: "?here \<or> (\<exists>s k. star = Some s \<and> retry < k \<and> k \<le> length v \<and> glob (drop (Suc s) pattern) (drop k v))"
    using assms(1) by (auto simp: match_left_def st split: option.splits)
  show ?thesis
  proof (cases "p < length pattern \<and> (pattern ! p = CHR ''?'' \<or> pattern ! p = v ! i)")
    case True
    then have "drop p pattern = pattern ! p # drop (Suc p) pattern" by (simp add: Cons_nth_drop_Suc)
    then have "?here \<Longrightarrow> glob (drop (Suc p) pattern) (drop (Suc i) v)" using True i v by (auto split: if_splits)
    then show ?thesis using True alternatives by (auto simp: match_turn_def match_left_def st)
  next
    case no: False
    show ?thesis
    proof (cases "p < length pattern \<and> pattern ! p = CHR ''*''")
      case True
      then have p: "drop p pattern = CHR ''*'' # drop (Suc p) pattern" by (metis Cons_nth_drop_Suc)
      have "\<exists>k \<ge> i. k \<le> length v \<and> glob (drop (Suc p) pattern) (drop k v)"
      proof (cases ?here)
        case True
        then obtain k where "k \<le> length v - i" "glob (drop (Suc p) pattern) (drop k (drop i v))"
          unfolding p glob_star by auto
        then show ?thesis using assms(4) by (intro exI [of _ "i + k"]) (auto simp: st add.commute)
      next
        case False
        then obtain s k where s: "star = Some s" and k: "retry < k" "k \<le> length v" "glob (drop (Suc s) pattern) (drop k v)"
          using alternatives by blast
        obtain seg where seg: "drop (Suc s) pattern = seg @ drop p pattern" "length seg = i - retry" "CHR ''*'' \<notin> set seg"
          using assms(3) by (auto simp: match_segment_def st s)
        then have "length seg \<le> length v - k" "glob (drop p pattern) (drop (length seg + k) v)"
          using glob_segment [of seg "drop p pattern" "drop k v"] k by auto
        then obtain l where "l \<le> length v - (length seg + k)" "glob (drop (Suc p) pattern) (drop (l + (length seg + k)) v)"
          unfolding p glob_star by auto
        then show ?thesis using seg(2) k assms(2) \<open>length seg \<le> length v - k\<close>
          by (intro exI [of _ "l + (length seg + k)"]) (auto simp: match_ok_def st s)
      qed
      then obtain k where "i \<le> k" "k \<le> length v" "glob (drop (Suc p) pattern) (drop k v)" by blast
      then show ?thesis using True no by (cases "k = i") (auto simp: match_turn_def match_left_def st)
    next
      case False
      have "\<not> ?here"
      proof (cases "p < length pattern")
        case True
        then have "drop p pattern = pattern ! p # drop (Suc p) pattern" by (simp add: Cons_nth_drop_Suc)
        then show ?thesis using True False no v by auto
      qed (simp add: v)
      then obtain s k where s: "star = Some s" and k: "retry < k" "k \<le> length v" "glob (drop (Suc s) pattern) (drop k v)"
        using alternatives by blast
      then have "match_turn pattern v st = Some (s + 1, retry + 1, star, retry + 1)"
        using no False by (auto simp: match_turn_def st)
      moreover have "match_left pattern v (s + 1, retry + 1, star, retry + 1)"
        using k s by (cases "k = Suc retry") (auto simp: match_left_def)
      ultimately show ?thesis by blast
    qed
  qed
qed

lemma match_loop_result:
  assumes "match_ok pattern v st" "match_segment pattern st \<or> CHR ''*'' \<in> set v"
  shows "\<exists>b. match_loop pattern v st = Some b \<and> (b \<longrightarrow> match_left pattern v st)
    \<and> (CHR ''*'' \<notin> set v \<longrightarrow> match_left pattern v st \<longrightarrow> b)"
  using assms
proof (induction st rule: wf_induct_rule [OF wf_inv_image [OF wf_lex_prod [OF wf_less_than wf_less_than],
      of "match_rank pattern v"]])
  case (1 st)
  obtain p i star retry where st: "st = (p, i, star, retry)" by (cases st)
  show ?case
  proof (cases "i < length v")
    case True
    then have below: "fst (snd st) < length v" by (simp add: st)
    show ?thesis
    proof (cases "match_turn pattern v st")
      case None
      then have "match_loop pattern v st = Some False" using True by (simp add: match_loop.simps st)
      then show ?thesis using match_turn_complete [OF _ 1(2) _ below] 1(3) None by auto
    next
      case (Some st')
      note progress = match_turn_progress [OF Some 1(2) below]
      have segment: "match_segment pattern st' \<or> CHR ''*'' \<in> set v"
        using match_turn_segment [OF Some 1(2) _ below] 1(3) by blast
      have "match_loop pattern v st = match_loop pattern v st'" 
        using True Some by (simp add: st match_loop.simps [of pattern v "(p, i, star, retry)"])
      moreover obtain b where b: "match_loop pattern v st' = Some b" "b \<longrightarrow> match_left pattern v st'"
          "CHR ''*'' \<notin> set v \<longrightarrow> match_left pattern v st' \<longrightarrow> b"
        using 1(1) [of st'] progress segment by (auto simp: in_inv_image)
      moreover have "match_left pattern v st' \<Longrightarrow> match_left pattern v st"
        by (rule match_turn_sound [OF Some below _ 1(2)])
      moreover have "CHR ''*'' \<notin> set v \<Longrightarrow> match_left pattern v st \<Longrightarrow> match_left pattern v st'"
        using match_turn_complete [OF _ 1(2) _ below] 1(3) Some by auto
      ultimately show ?thesis by metis
    qed
  next
    case False
    then have i: "i = length v" using 1(2) by (simp add: match_ok_def st)
    have "match_loop pattern v st = Some (only_stars (drop p pattern))" by (simp add: match_loop.simps st i)
    moreover have "match_left pattern v st \<longrightarrow> only_stars (drop p pattern)" if free: "CHR ''*'' \<notin> set v"
    proof
      assume left: "match_left pattern v st"
      show "only_stars (drop p pattern)"
      proof (rule ccontr)
        assume "\<not> ?thesis"
        then have "\<not> glob (drop p pattern) (drop i v)" by (simp add: only_stars_glob i)
        then obtain s k where s: "star = Some s" and k: "retry < k" "k \<le> length v" "glob (drop (Suc s) pattern) (drop k v)"
          using left by (auto simp: match_left_def st split: option.splits)
        obtain seg where "drop (Suc s) pattern = seg @ drop p pattern" "length seg = i - retry" "CHR ''*'' \<notin> set seg"
          using 1(3) free by (auto simp: match_segment_def st s)
        then show False using glob_segment [of seg "drop p pattern" "drop k v"] k i by auto
      qed
    qed
    ultimately show ?thesis by (auto simp: match_left_def st only_stars_glob i)
  qed
qed

text \<open>
  C29. The wildcard matcher always returns. It never accepts what the pattern does not mean, and on a value
  without a star it decides the pattern exactly; a star in the value is compared with the pattern's star
  before the star is a wildcard, and then a match can be missed.
\<close>

theorem wildcard_decides:
  "(\<exists>b. wildcard_match pattern v = Some b \<and> (b \<longrightarrow> glob (to_lower pattern) (to_lower v))
       \<and> (CHR ''*'' \<notin> set v \<longrightarrow> b = glob (to_lower pattern) (to_lower v)))
     \<and> wildcard_match ''*a'' ''*ba'' = Some False \<and> glob ''*a'' ''*ba''"
proof -
  have start: "match_ok p w (0, 0, None, 0)" "match_segment p (0, 0, None, 0)"
      "match_left p w (0, 0, None, 0) \<longleftrightarrow> glob p w" for p w
    by (simp_all add: match_ok_def match_segment_def match_left_def)
  have star: "char_code CHR ''*'' = 42" by (simp add: char_code_def)
  have "lower_char c = CHR ''*'' \<longleftrightarrow> c = CHR ''*''" for c
  proof (cases "is_upper c")
    case True
    then have "char_code (lower_char c) \<ge> 97" "char_code c \<ge> 65"
      by (simp_all add: lower_char_def is_upper_def char_code_of)
    then show ?thesis using star by auto
  qed (simp add: lower_char_def)
  then have "CHR ''*'' \<in> set (to_lower v) \<longleftrightarrow> CHR ''*'' \<in> set v" 
    unfolding to_lower_def set_map image_iff by metis
  moreover have "wildcard_match ''*a'' ''*ba'' = Some False"
    by (simp add: wildcard_match_def match_loop.simps [of _ _ "(0, 0, None, 0)"]
        match_loop.simps [of _ _ "(Suc 0, Suc 0, None, 0)"] match_turn_def to_lower_def lower_char_def is_upper_def
        char_code_def)
  ultimately show ?thesis
    using match_loop_result [of "to_lower pattern" "to_lower v" "(0, 0, None, 0)"] start
    by (auto simp: wildcard_match_def)
qed

lemma wildcard_decides_witness:
  "CHR ''*'' \<notin> set ''NtOpenFile'' \<and> wildcard_match ''nt*F?le'' ''NtOpenFile'' = Some True
     \<and> wildcard_match ''Nt*e?'' ''NtOpenFile'' = Some False"
proof -
  have "glob (to_lower ''nt*F?le'') (to_lower ''NtOpenFile'')" by code_simp
  moreover have "\<not> glob (to_lower ''Nt*e?'') (to_lower ''NtOpenFile'')" by code_simp
  ultimately show ?thesis
    using wildcard_decides [of "''nt*F?le''" "''NtOpenFile''"] wildcard_decides [of "''Nt*e?''" "''NtOpenFile''"] by auto
qed

end
