(* ===== verification/Pb_Hook_Calls.thy ===== *)
theory Pb_Hook_Calls
  imports Pb_Hook_Query
begin

section \<open>How entries and returns are paired\<close>

text \<open>
  What \<open>pair_parts\<close> makes of a page: every event is in exactly one call, and a pair is an entry and the return
  that closes it, with only whole calls of the same thread and address in between.
\<close>

definition is_entry :: "json \<Rightarrow> bool" where "is_entry e \<longleftrightarrow> event_kind e = ''entry''"
definition is_return :: "json \<Rightarrow> bool" where "is_return e \<longleftrightarrow> event_kind e \<noteq> ''hit'' \<and> event_kind e \<noteq> ''entry''"

text \<open>The frames of a key that stay open through a run of events, none when a return finds no entry.\<close>

fun open_after :: "(json \<Rightarrow> string) \<Rightarrow> string \<times> string \<Rightarrow> nat \<Rightarrow> json list \<Rightarrow> nat option" where
  "open_after json_text key n [] = Some n"
| "open_after json_text key n (e # es) =
     (if call_key json_text e \<noteq> key \<or> event_kind e = ''hit'' then open_after json_text key n es
      else if is_entry e then open_after json_text key (Suc n) es
      else if n = 0 then None else open_after json_text key (n - 1) es)"

definition balanced_run :: "(json \<Rightarrow> string) \<Rightarrow> string \<times> string \<Rightarrow> json list \<Rightarrow> bool" where
  "balanced_run json_text key es \<longleftrightarrow> open_after json_text key 0 es = Some 0"

text \<open>An entry of the key after which the events of the key are balanced: the one a return would close.\<close>

definition open_entry :: "(json \<Rightarrow> string) \<Rightarrow> string \<times> string \<Rightarrow> json list \<Rightarrow> json \<Rightarrow> json list \<Rightarrow> bool" where
  "open_entry json_text key us e vs \<longleftrightarrow> is_entry e \<and> call_key json_text e = key \<and> balanced_run json_text key vs"

definition no_open_entry :: "(json \<Rightarrow> string) \<Rightarrow> string \<times> string \<Rightarrow> json list \<Rightarrow> bool" where
  "no_open_entry json_text key es \<longleftrightarrow> (\<forall>us e vs. es = us @ e # vs \<longrightarrow> \<not> open_entry json_text key us e vs)"

definition part_events :: "call_parts \<Rightarrow> json list" where
  "part_events c = (case cp_entry c of None \<Rightarrow> [] | Some e \<Rightarrow> [e]) @ (case cp_return c of None \<Rightarrow> [] | Some e \<Rightarrow> [e])"

definition proper_part :: "(json \<Rightarrow> string) \<Rightarrow> json list \<Rightarrow> call_parts \<Rightarrow> bool" where
  "proper_part json_text es c \<longleftrightarrow>
     (case (cp_entry c, cp_return c) of
        (Some e, Some r) \<Rightarrow> cp_status c = ''paired'' \<and> is_return r
          \<and> (\<exists>xs ys zs. es = xs @ e # ys @ r # zs \<and> open_entry json_text (call_key json_text r) xs e ys)
      | (Some e, None) \<Rightarrow> (cp_status c = ''hit'' \<and> event_kind e = ''hit'') \<or> (cp_status c = ''unmatched_entry'' \<and> is_entry e
            \<and> (\<exists>xs ys n. es = xs @ e # ys \<and> open_after json_text (call_key json_text e) 0 ys = Some n))
      | (None, Some r) \<Rightarrow> cp_status c = ''unmatched_return'' \<and> is_return r
          \<and> (\<exists>xs zs. es = xs @ r # zs \<and> no_open_entry json_text (call_key json_text r) xs)
      | (None, None) \<Rightarrow> False)"

lemma open_after_append:
  "open_after json_text key n (es @ es') = Option.bind (open_after json_text key n es) (\<lambda>m. open_after json_text key m es')"
  by (induction es arbitrary: n) auto

lemma open_after_shift: "open_after json_text key n es = Some m \<Longrightarrow> open_after json_text key (n + k) es = Some (m + k)"
proof (induction es arbitrary: n m)
  case (Cons e es)
  show ?case using Cons.prems Cons.IH [of n m] Cons.IH [of "Suc n" m] Cons.IH [of "n - 1" m]
    by (auto split: if_splits)
qed simp

lemma balanced_through: "balanced_run json_text key es \<Longrightarrow> open_after json_text key n es = Some n"
  using open_after_shift [of json_text key 0 es 0 n] by (simp add: balanced_run_def)

lemma balanced_append: "balanced_run json_text key es \<Longrightarrow> balanced_run json_text key (es @ es') = balanced_run json_text key es'"
  by (simp add: balanced_run_def open_after_append)

lemma balanced_snoc: "balanced_run json_text key es \<Longrightarrow> balanced_run json_text key (es' @ es) = balanced_run json_text key es'"
  using balanced_through [of json_text key es]
  by (cases "open_after json_text key 0 es'") (auto simp: balanced_run_def open_after_append)

lemma balanced_other: "call_key json_text e \<noteq> key \<or> event_kind e = ''hit'' \<Longrightarrow> balanced_run json_text key [e]"
  by (auto simp: balanced_run_def)

lemma balanced_call:
  assumes "open_entry json_text key us e ys" "is_return r" "call_key json_text r = key"
  shows "balanced_run json_text key (e # ys @ [r])"
proof -
  have ys: "balanced_run json_text key ys" and e: "is_entry e" "call_key json_text e = key"
    using assms(1) by (simp_all add: open_entry_def)
  show ?thesis using e assms(2,3) balanced_through [OF ys, of 1]
    by (simp add: balanced_run_def open_after_append is_entry_def is_return_def)
qed

lemma open_frame_entry:
  assumes "open_after json_text key 0 es = Some (Suc m)"
  shows "\<exists>us e vs. es = us @ e # vs \<and> open_entry json_text key us e vs"
  using assms
proof (induction es arbitrary: m rule: length_induct)
  case (1 es)
  obtain es' x where es: "es = es' @ [x]" using 1(2) by (cases es rule: rev_cases) auto
  have IH: "\<exists>us e vs. xs = us @ e # vs \<and> open_entry json_text key us e vs"
    if "open_after json_text key 0 xs = Some (Suc n)" "length xs < length es" for xs n
    using 1(1) that by blast
  obtain k where k: "open_after json_text key 0 es' = Some k" "open_after json_text key k [x] = Some (Suc m)"
    using 1(2) by (auto simp: es open_after_append split: bind_splits)
  have grow: "\<exists>us e vs. es = us @ e # vs \<and> open_entry json_text key us e vs"
    if "xs = us @ e # vs" "open_entry json_text key us e vs" "es = xs @ ys" "balanced_run json_text key ys" for xs us e vs ys
    using that by (intro exI [of _ us] exI [of _ e] exI [of _ "vs @ ys"]) (simp add: open_entry_def balanced_append)
  consider "call_key json_text x \<noteq> key \<or> event_kind x = ''hit''" | "is_entry x" "call_key json_text x = key"
    | "is_return x" "call_key json_text x = key"
    by (auto simp: is_entry_def is_return_def)
  then show ?case
  proof cases
    case 1
    then have "k = Suc m" using k(2) by auto
    then show ?thesis using IH [of es' m] k(1) grow [OF _ _ es balanced_other [OF 1]] by (auto simp: es)
  next
    case 2
    then show ?thesis
      by (intro exI [of _ es'] exI [of _ x] exI [of _ "[]"]) (simp add: es open_entry_def balanced_run_def)
  next
    case 3
    then have "k = Suc (Suc m)" using k(2) by (auto simp: is_return_def is_entry_def split: if_splits)
    then obtain us e vs where inner: "es' = us @ e # vs" "open_entry json_text key us e vs"
      using IH [of es' "Suc m"] k(1) by (auto simp: es)
    then have "open_after json_text key 0 us = Some (Suc m)"
      using k(1) \<open>k = Suc (Suc m)\<close> balanced_through [of json_text key vs]
      by (auto simp: open_after_append open_entry_def is_entry_def split: bind_splits)
    then obtain us' e' vs' where "us = us' @ e' # vs'" "open_entry json_text key us' e' vs'"
      using IH [of us m] inner(1) by (auto simp: es)
    then show ?thesis using grow [of us us' e' vs' "e # vs @ [x]"] balanced_call [OF inner(2) 3] by (simp add: es inner(1))
  qed
qed

text \<open>
  The invariant: the stack of a key holds, from the top, entries after each of which the events of the key are
  balanced up to the next one.
\<close>

fun stack_rows :: "(json \<Rightarrow> string) \<Rightarrow> string \<times> string \<Rightarrow> json list \<Rightarrow> json list \<Rightarrow> bool" where
  "stack_rows json_text key es [] \<longleftrightarrow> no_open_entry json_text key es"
| "stack_rows json_text key es (e # below) \<longleftrightarrow>
     (\<exists>xs ys. es = xs @ e # ys \<and> open_entry json_text key xs e ys \<and> stack_rows json_text key xs below)"

lemma stack_rows_balanced:
  assumes "stack_rows json_text key es stack" "balanced_run json_text key bs"
    and "\<And>us e vs. bs = us @ e # vs \<Longrightarrow> \<not> open_entry json_text key us e vs"
  shows "stack_rows json_text key (es @ bs) stack"
proof (cases stack)
  case Nil
  have "\<not> open_entry json_text key us e vs" if split: "es @ bs = us @ e # vs" for us e vs
  proof
    assume opened: "open_entry json_text key us e vs"
    from split consider ws where "es = us @ e # ws" "vs = ws @ bs" | ws where "bs = ws @ e # vs"
      by (auto simp: append_eq_append_conv2 append_eq_Cons_conv)
    then show False
    proof cases
      case 1
      then show False using opened assms(1) balanced_snoc [OF assms(2)] by (auto simp: Nil no_open_entry_def open_entry_def)
    next
      case 2
      then show False using assms(3) opened by (auto simp: open_entry_def)
    qed
  qed
  then show ?thesis by (simp add: Nil no_open_entry_def)
next
  case (Cons e below)
  then obtain xs ys where "es = xs @ e # ys" "open_entry json_text key xs e ys" "stack_rows json_text key xs below"
    using assms(1) by auto
  then have "es @ bs = xs @ e # (ys @ bs)" "open_entry json_text key xs e (ys @ bs)"
    using assms(2) by (simp_all add: open_entry_def balanced_append)
  then show ?thesis using \<open>stack_rows json_text key xs below\<close> unfolding Cons stack_rows.simps by blast
qed

lemma stack_rows_neutral:
  assumes "stack_rows json_text key es stack" "call_key json_text x \<noteq> key \<or> event_kind x = ''hit''"
  shows "stack_rows json_text key (es @ [x]) stack"
  using assms(1) balanced_other [OF assms(2)]
  by (rule stack_rows_balanced) (use assms(2) in \<open>auto simp: open_entry_def is_entry_def Cons_eq_append_conv\<close>)

lemma stack_rows_pop:
  assumes "stack_rows json_text key es (e # below)" "is_return r" "call_key json_text r = key"
  shows "stack_rows json_text key (es @ [r]) below"
proof -
  obtain xs ys where split: "es = xs @ e # ys" and opened: "open_entry json_text key xs e ys"
    and below: "stack_rows json_text key xs below"
    using assms(1) by auto
  have ys: "balanced_run json_text key ys" using opened by (simp add: open_entry_def)
  have "stack_rows json_text key (xs @ e # ys @ [r]) below"
  proof (rule stack_rows_balanced [OF below balanced_call [OF opened assms(2,3)]])
    fix us e' vs assume "e # ys @ [r] = us @ e' # vs"
    show "\<not> open_entry json_text key us e' vs"
    proof
      assume entry: "open_entry json_text key us e' vs"
      then have "vs \<noteq> []" using \<open>e # ys @ [r] = us @ e' # vs\<close> assms(2)
        by (auto simp: open_entry_def is_entry_def is_return_def Cons_eq_append_conv)
      then obtain vs' where vs: "vs = vs' @ [r]" "e # ys = us @ e' # vs'"
        using \<open>e # ys @ [r] = us @ e' # vs\<close> by (cases vs rule: rev_cases) auto
      have one: "open_after json_text key 0 vs' = Some 1"
        using entry assms(2,3) by (auto simp: vs open_entry_def balanced_run_def open_after_append is_return_def is_entry_def
            split: bind_splits if_splits)
      show False
      proof (cases us)
        case Nil
        then show False using one vs(2) ys by (simp add: balanced_run_def)
      next
        case (Cons u us')
        then have "ys = us' @ e' # vs'" using vs(2) by simp
        then show False using ys one entry open_after_shift [of json_text key 0 vs' 1]
          by (auto simp: balanced_run_def open_after_append open_entry_def is_entry_def split: bind_splits)
      qed
    qed
  qed
  then show ?thesis by (simp add: split)
qed

lemma stack_rows_unmatched:
  assumes "stack_rows json_text key es []" "is_return r" "call_key json_text r = key"
  shows "stack_rows json_text key (es @ [r]) []"
proof -
  have "\<not> open_entry json_text key us e vs" if split: "es @ [r] = us @ e # vs" for us e vs
  proof
    assume opened: "open_entry json_text key us e vs"
    then have "vs \<noteq> []" using split assms(2) by (auto simp: open_entry_def is_entry_def is_return_def)
    then obtain vs' where vs: "vs = vs' @ [r]" "es = us @ e # vs'" using split by (cases vs rule: rev_cases) auto
    have "open_after json_text key 0 vs' = Some (Suc 0)"
      using opened assms(2,3) by (auto simp: vs open_entry_def balanced_run_def open_after_append is_return_def is_entry_def
          split: bind_splits if_splits)
    then obtain us' e' ws where "vs' = us' @ e' # ws" "open_entry json_text key us' e' ws"
      using open_frame_entry by blast
    then have "es = (us @ e # us') @ e' # ws" "open_entry json_text key (us @ e # us') e' ws"
      using vs(2) by (simp_all add: open_entry_def)
    then show False using assms(1) by (auto simp: no_open_entry_def)
  qed
  then show ?thesis by (simp add: no_open_entry_def)
qed

lemma stack_rows_push: "stack_rows json_text key es stack \<Longrightarrow> is_entry e \<Longrightarrow> call_key json_text e = key \<Longrightarrow>
    stack_rows json_text key (es @ [e]) (e # stack)"
  unfolding stack_rows.simps by (intro exI [of _ es] exI [of _ "[]"]) (simp add: open_entry_def balanced_run_def)

lemma stack_rows_open:
  "stack_rows json_text key es stack \<Longrightarrow> e \<in> set stack \<Longrightarrow>
     \<exists>xs ys n. es = xs @ e # ys \<and> open_after json_text key 0 ys = Some n \<and> is_entry e \<and> call_key json_text e = key"
proof (induction stack arbitrary: es)
  case (Cons top' below)
  obtain xs ys where split: "es = xs @ top' # ys" "open_entry json_text key xs top' ys" "stack_rows json_text key xs below"
    using Cons.prems(1) by auto
  show ?case
  proof (cases "e = top'")
    case True
    then show ?thesis using split by (auto simp: open_entry_def balanced_run_def)
  next
    case False
    then obtain us vs n where "xs = us @ e # vs" "open_after json_text key 0 vs = Some n" "is_entry e" "call_key json_text e = key"
      using Cons.IH [OF split(3)] Cons.prems(2) by auto
    then show ?thesis using split balanced_through [of json_text key ys "Suc n"]
      by (intro exI [of _ us] exI [of _ "vs @ top' # ys"] exI [of _ "Suc n"])
        (auto simp: open_after_append open_entry_def is_entry_def)
  qed
qed simp

lemma proper_part_extend:
  assumes "proper_part json_text es c" "cp_status c \<noteq> ''unmatched_entry''"
  shows "proper_part json_text (es @ [x]) c"
proof (cases "cp_return c")
  case None
  then show ?thesis using assms by (auto simp: proper_part_def split: option.splits)
next
  case r: (Some r)
  show ?thesis
  proof (cases "cp_entry c")
    case None
    then obtain xs zs where "es = xs @ r # zs" "no_open_entry json_text (call_key json_text r) xs"
      using assms(1) by (auto simp: proper_part_def r)
    then have "es @ [x] = xs @ r # (zs @ [x])" by simp
    then show ?thesis using assms(1) \<open>no_open_entry json_text _ xs\<close> by (auto simp: proper_part_def r None)
  next
    case (Some e)
    then obtain xs ys zs where "es = xs @ e # ys @ r # zs" "open_entry json_text (call_key json_text r) xs e ys"
      using assms(1) by (auto simp: proper_part_def r)
    then have "es @ [x] = xs @ e # ys @ r # (zs @ [x])" by simp
    then show ?thesis using assms(1) \<open>open_entry json_text _ xs e ys\<close> by (auto simp: proper_part_def r Some)
  qed
qed

lemma stack_of_insert: "ssorted_keys stacks \<Longrightarrow> stack_of (om_insert key es stacks) = (stack_of stacks)(key := es)"
  by (auto simp: stack_of_def om_insert_lookup fun_eq_iff)

lemma om_insert_events:
  "ssorted_keys stacks \<Longrightarrow>
     mset (concat (map snd (om_insert key es stacks))) + mset (stack_of stacks key) = mset (concat (map snd stacks)) + mset es"
proof (induction key es stacks rule: om_insert.induct)
  case (2 k v k' v' rest)
  have "k < k' \<Longrightarrow> map_of rest k = None"
    using "2.prems" by (force simp: ssorted_keys_def map_of_eq_None_iff)
  then show ?case using 2 by (auto simp: ssorted_keys_def stack_of_def split: option.splits)
qed (simp add: stack_of_def)

definition pairing_ok :: "(json \<Rightarrow> string) \<Rightarrow> json list \<Rightarrow> call_stacks \<times> call_parts list \<Rightarrow> bool" where
  "pairing_ok json_text es st \<longleftrightarrow>
     (case st of (stacks, calls) \<Rightarrow> ssorted_keys stacks
        \<and> (\<forall>key. stack_rows json_text key es (rev (stack_of stacks key)))
        \<and> (\<forall>c \<in> set calls. proper_part json_text es c \<and> cp_status c \<noteq> ''unmatched_entry'')
        \<and> mset (concat (map part_events calls)) + mset (concat (map snd stacks)) = mset es)"

lemma pair_event_ok:
  assumes "pairing_ok json_text es st"
  shows "pairing_ok json_text (es @ [x]) (pair_event json_text x st)"
proof -
  obtain stacks calls where st: "st = (stacks, calls)" by (cases st)
  let ?key = "call_key json_text x" and ?stack = "stack_of stacks (call_key json_text x)"
  have sorted: "ssorted_keys stacks" and rows: "\<And>key. stack_rows json_text key es (rev (stack_of stacks key))"
    and calls: "\<And>c. c \<in> set calls \<Longrightarrow> proper_part json_text (es @ [x]) c \<and> cp_status c \<noteq> ''unmatched_entry''"
    and events: "mset (concat (map part_events calls)) + mset (concat (map snd stacks)) = mset es"
    using assms proper_part_extend by (auto simp: pairing_ok_def st)
  have other: "stack_rows json_text key (es @ [x]) (rev (stack_of stacks key))" if "key \<noteq> ?key \<or> event_kind x = ''hit''" for key
    by (rule stack_rows_neutral [OF rows]) (use that in blast)
  consider (hit) "event_kind x = ''hit''" | (entry) "is_entry x" | (paired) "is_return x" "?stack \<noteq> []"
    | (unmatched) "is_return x" "?stack = []"
    by (auto simp: is_entry_def is_return_def)
  then show ?thesis
  proof cases
    case hit
    then show ?thesis using sorted calls events other
      by (auto simp: pairing_ok_def st pair_event_def proper_part_def part_events_def)
  next
    case entry
    have "stack_rows json_text key (es @ [x]) (rev (stack_of (om_insert ?key (?stack @ [x]) stacks) key))" for key
      using other [of key] stack_rows_push [OF rows entry refl] by (auto simp: stack_of_insert [OF sorted])
    moreover have "pair_event json_text x st = (om_insert ?key (?stack @ [x]) stacks, calls)"
      using entry by (simp add: pair_event_def st is_entry_def Let_def)
    ultimately show ?thesis using sorted calls events om_insert_events [OF sorted, of ?key "?stack @ [x]"]
      by (auto simp: pairing_ok_def om_insert_sorted)
  next
    case paired
    let ?e = "last ?stack" and ?c = "\<lparr>cp_entry = Some (last ?stack), cp_return = Some x, cp_status = ''paired''\<rparr>"
    have stack: "rev ?stack = ?e # rev (butlast ?stack)" using paired(2) by (metis append_butlast_last_id rev_eq_Cons_iff rev_rev_ident)
    have "stack_rows json_text key (es @ [x]) (rev (stack_of (om_insert ?key (butlast ?stack) stacks) key))" for key
      using other [of key] stack_rows_pop [of json_text ?key es ?e "rev (butlast ?stack)" x] rows [of ?key] stack paired(1)
      by (auto simp: stack_of_insert [OF sorted])
    moreover have "pair_event json_text x st = (om_insert ?key (butlast ?stack) stacks, calls @ [?c])"
      using paired by (simp add: pair_event_def st is_return_def Let_def)
    moreover have "proper_part json_text (es @ [x]) ?c"
      using rows [of ?key] paired(1) unfolding stack by (fastforce simp: proper_part_def)
    moreover have "mset (concat (map part_events calls))
        + (mset (concat (map snd (om_insert ?key (butlast ?stack) stacks))) + {#?e#}) = mset es"
    proof -
      have "mset ?stack = mset (butlast ?stack) + {#?e#}"
        using paired(2) by (metis append_butlast_last_id mset_append mset_single_iff_right)
      then show ?thesis using om_insert_events [OF sorted, of ?key "butlast ?stack"] events by simp
    qed
    ultimately show ?thesis using sorted calls by (auto simp: pairing_ok_def om_insert_sorted part_events_def)
  next
    case unmatched
    let ?c = "\<lparr>cp_entry = None, cp_return = Some x, cp_status = ''unmatched_return''\<rparr>"
    have "stack_rows json_text ?key es []" using rows [of ?key] unmatched(2) by simp
    then have "proper_part json_text (es @ [x]) ?c" "stack_rows json_text ?key (es @ [x]) []"
      using unmatched(1) stack_rows_unmatched by (fastforce simp: proper_part_def)+
    moreover have "pair_event json_text x st = (stacks, calls @ [?c])"
      using unmatched by (simp add: pair_event_def st is_return_def Let_def)
    moreover have "stack_rows json_text key (es @ [x]) (rev (stack_of stacks key))" for key
      using other [of key] calculation(2) unmatched(2) by (cases "key = ?key") auto
    ultimately show ?thesis using sorted calls events by (auto simp: pairing_ok_def part_events_def)
  qed
qed

lemma pairing_ok_fold: "pairing_ok json_text es st \<Longrightarrow> pairing_ok json_text (es @ xs) (fold (pair_event json_text) xs st)"
proof (induction xs arbitrary: es st)
  case (Cons x xs)
  then show ?case using Cons.IH [OF pair_event_ok [OF Cons.prems]] by simp
qed simp


end
