(* ===== verification/Pb_Hub_Arguments.thy ===== *)
theory Pb_Hub_Arguments
  imports Pb_Hub_Agent Pb_Hook_Query
begin

section \<open>Arguments and answers of the hub's tools (service.rs)\<close>

text \<open>
  The helpers of \<open>bindings/rust/pinbridge-hub-core/src/service.rs\<close> that read a tool's arguments, the digests of
  a selection, the table of the tools that write, and what the journal keeps of an answer.
\<close>

definition req :: "json_args \<Rightarrow> string \<Rightarrow> hub_error + string" where
  "req args k =
     (case Option.bind (map_of args k) json_as_str of
        None \<Rightarrow> Inl (Validation (k @ '' must be string'')) | Some s \<Rightarrow> Inr s)"

definition bounded_module_name :: "string \<Rightarrow> hub_error + string" where
  "bounded_module_name v =
     (let v = trim v
      in if v = [] then Inl (Validation ''module must not be empty'')
         else if length v > 1024 then Inl (Validation ''module is too long'') else Inr v)"

text \<open>The last component of a path, in lower case.\<close>

definition module_key :: "string \<Rightarrow> string" where
  "module_key v = to_lower (rev (takeWhile (\<lambda>c. c \<noteq> CHR 0x5C \<and> c \<noteq> CHR ''/'') (rev v)))"

definition hub_parse_u64 :: "string \<Rightarrow> hub_error + u64" where
  "hub_parse_u64 x =
     (let x = trim x
      in case (case hex_digits x of Some digits \<Rightarrow> parse_unsigned 16 (2 ^ 64) digits | None \<Rightarrow> parse_unsigned 10 (2 ^ 64) x) of
           None \<Rightarrow> Inl (Validation (''invalid integer: '' @ x)) | Some n \<Rightarrow> Inr (word_of_nat n))"

definition hub_parse_u32 :: "string \<Rightarrow> hub_error + u32" where
  "hub_parse_u32 x = as_u32 ''integer out of range'' (hub_parse_u64 x)"

definition hub_parse_u16 :: "string \<Rightarrow> hub_error + u16" where
  "hub_parse_u16 x =
     and_then (hub_parse_u64 x) (\<lambda>v. if unat v < 2 ^ 16 then Inr (ucast v) else Inl (Validation ''port out of range''))"

definition parse_value_u64 :: "json \<Rightarrow> hub_error + u64" where
  "parse_value_u64 v =
     (case json_as_str v of None \<Rightarrow> Inl (Validation ''address must be string'') | Some s \<Rightarrow> hub_parse_u64 s)"

definition value_u64_ok :: "json option \<Rightarrow> u64 option" where
  "value_u64_ok v = Option.bind v (\<lambda>j. case parse_value_u64 j of Inl e \<Rightarrow> None | Inr n \<Rightarrow> Some n)"

fun parse_values :: "json list \<Rightarrow> hub_error + u64 list" where
  "parse_values [] = Inr []"
| "parse_values (v # vs) = and_then (parse_value_u64 v) (\<lambda>n. map_sum id (Cons n) (parse_values vs))"

definition parse_page_value :: "json_args \<Rightarrow> string \<Rightarrow> nat \<Rightarrow> nat \<Rightarrow> hub_error + nat" where
  "parse_page_value args name otherwise maximum =
     and_then (case Option.bind (map_of args name) json_as_str of
                 None \<Rightarrow> Inr otherwise
               | Some raw \<Rightarrow>
                   (case parse_unsigned 10 (2 ^ 64) raw of
                      None \<Rightarrow> Inl (Validation (''Hook inventory '' @ name @ '' must be decimal'')) | Some n \<Rightarrow> Inr n))
       (\<lambda>n. if n > maximum then Inl (Validation (''Hook inventory '' @ name @ '' exceeds '' @ show_nat maximum)) else Inr n)"

text \<open>A decimal argument with bounds, as the monitors read their limit.\<close>

definition decimal_or :: "json_args \<Rightarrow> string \<Rightarrow> string \<Rightarrow> string \<Rightarrow> hub_error + nat" where
  "decimal_or args name otherwise message =
     (case parse_unsigned 10 (2 ^ 64) (string_or args name otherwise) of
        None \<Rightarrow> Inl (Validation message) | Some n \<Rightarrow> Inr n)"

definition limit_or :: "json_args \<Rightarrow> string \<Rightarrow> nat \<Rightarrow> string \<Rightarrow> string \<Rightarrow> hub_error + u64" where
  "limit_or args otherwise maximum not_decimal out_of_range =
     and_then (decimal_or args ''limit'' otherwise not_decimal) (\<lambda>n.
       if n = 0 \<or> n > maximum then Inl (Validation out_of_range) else Inr (word_of_nat n))"

text \<open>Two characters make a byte; \<open>from_str_radix\<close> takes a sign.\<close>

fun parse_hex_pairs :: "string \<Rightarrow> hub_error + bytes" where
  "parse_hex_pairs (a # b # rest) =
     (case parse_unsigned 16 256 [a, b] of
        None \<Rightarrow> Inl (Validation ''invalid data_hex'')
      | Some n \<Rightarrow> map_sum id (Cons (word_of_nat n)) (parse_hex_pairs rest))"
| "parse_hex_pairs _ = Inr []"

definition parse_hex :: "string \<Rightarrow> hub_error + bytes" where
  "parse_hex x = (if odd (length x) then Inl (Validation ''data_hex must be even'') else parse_hex_pairs x)"

definition parse_mode :: "json option \<Rightarrow> hub_error + control_mode" where
  "parse_mode v =
     (let s = Option.bind v json_as_str
      in if s = Some ''ai_read_only'' then Inr Ai_read_only else if s = Some ''ai_assist'' then Inr Ai_assist
         else if s = Some ''ai_autonomous'' then Inr Ai_autonomous else Inl (Validation ''invalid mode''))"

fun signature_message :: "signature_error \<Rightarrow> string" where
  "signature_message Bad_length = ''signature must contain 1..2048 bytes''"
| "signature_message Bad_source = ''signature_source must be pdb, header, manual, or ai_inferred''"
| "signature_message Bad_confidence = ''signature_confidence must be 0..100''"
| "signature_message Not_a_prototype = ''signature must be a C-like function prototype''"
| "signature_message No_closing_parenthesis = ''signature is missing the closing '' @ [CHR 0x27] @ '')'' @ [CHR 0x27]"
| "signature_message Unexpected_text = ''unexpected text after function prototype''"
| "signature_message No_function_name = ''signature must contain a plain function name''"
| "signature_message Vectorcall_unsupported = ''vectorcall signatures are not supported by Hook capture yet''"
| "signature_message No_return_type = ''signature return type is missing''"
| "signature_message Unbalanced_type = ''unbalanced parameter type''"
| "signature_message Empty_parameter = ''empty parameter declaration''"
| "signature_message (Too_many_parameters n) =
     ''signature has '' @ show_nat n @ '' fixed parameters; capture limit is '' @ show_nat MAX_PARAMETERS"
| "signature_message Fastcall_float = ''x86 fastcall floating parameters in the first two positions are unsupported''"

definition parse_hook_signature :: "json_args \<Rightarrow> hub_error + hook_signature" where
  "parse_hook_signature args =
     and_then (req args ''signature'') (\<lambda>prototype.
     and_then (req args ''signature_source'') (\<lambda>source.
     and_then (req args ''signature_confidence'') (\<lambda>confidence.
       case parse_unsigned 10 (2 ^ 32) confidence of
         None \<Rightarrow> Inl (Validation ''signature_confidence must be decimal 0..100'')
       | Some n \<Rightarrow> map_sum (Validation \<circ> signature_message) id (signature_parse prototype source (word_of_nat n)))))"

definition instruction_kinds :: "(string \<times> u32) list" where
  "instruction_kinds = [(''all'', 1), (''call'', 2), (''syscall'', 4), (''branch'', 8), (''return'', 16)]"

fun kind_mask_of :: "json list \<Rightarrow> u32 \<Rightarrow> hub_error + u32" where
  "kind_mask_of [] m = Inr m"
| "kind_mask_of (v # vs) m =
     (case Option.bind (json_as_str v) (map_of instruction_kinds) of
        None \<Rightarrow> Inl (Validation ''instruction kind must be all, call, syscall, branch, or return'')
      | Some bit' \<Rightarrow> kind_mask_of vs (m OR bit'))"

definition MAX_RANGE_BYTES :: u64 where "MAX_RANGE_BYTES = 4 * 1024 * 1024"

definition parse_hook_range :: "json_args \<Rightarrow> hub_error + (u64 \<times> u64 \<times> u32)" where
  "parse_hook_range args =
     and_then (req args ''start'') (\<lambda>start_text.
     and_then (hub_parse_u64 start_text) (\<lambda>start.
     and_then (req args ''end'') (\<lambda>end_text.
     and_then (hub_parse_u64 end_text) (\<lambda>end'.
       if start = 0 \<or> end' \<le> start then Inl (Validation ''Hook range must have non-zero start and end greater than start'')
       else if end' - start > MAX_RANGE_BYTES
       then Inl (Validation ''Hook range exceeds the 4 MiB per-operation safety limit'')
       else case Option.bind (map_of args ''kinds'') json_as_array of
              None \<Rightarrow> Inl (Validation ''kinds must be an array'')
            | Some [] \<Rightarrow> Inl (Validation ''at least one instruction kind must be selected'')
            | Some kinds \<Rightarrow> map_sum id (\<lambda>m. (start, end', m)) (kind_mask_of kinds 0)))))"

definition hub_trace_kinds :: "(string \<times> u32) list" where
  "hub_trace_kinds = [(''exec'', 9), (''memory'', 10), (''branch'', 4), (''syscall'', 5), (''exception'', 6), (''registers'', 13),
     (''exec_plain'', 3), (''memory_plain'', 2)]"

definition trace_kind_id :: "string \<Rightarrow> hub_error + u32" where
  "trace_kind_id name =
     (case map_of hub_trace_kinds name of None \<Rightarrow> Inl (Validation (''unsupported Trace kind: '' @ name)) | Some k \<Rightarrow> Inr k)"

definition plain_name :: "string \<Rightarrow> bool" where
  "plain_name stem \<longleftrightarrow> stem \<noteq> [] \<and> length stem \<le> 128
     \<and> list_all (\<lambda>c. is_upper c \<or> is_lower c \<or> is_digit c \<or> c \<in> set ''-_.'') stem"

definition safe_trace_filename :: "string \<Rightarrow> hub_error + string" where
  "safe_trace_filename requested =
     (let requested = trim requested;
          stem = (case strip_suffix ''.pbtr'' requested of Some s \<Rightarrow> s
                  | None \<Rightarrow> (case strip_suffix ''.PBTR'' requested of Some s \<Rightarrow> s | None \<Rightarrow> requested))
      in if \<not> plain_name stem
         then Inl (Validation ''Trace filename must use 1..128 ASCII letters, digits, dot, dash, or underscore'')
         else Inr (stem @ ''.pbtr''))"

text \<open>\<open>trim_end_matches\<close> takes the extension off as often as it stands there.\<close>

function trim_suffixes :: "string \<Rightarrow> string \<Rightarrow> string" where
  "trim_suffixes ending s =
     (case strip_suffix ending s of
        Some rest \<Rightarrow> if length rest < length s then trim_suffixes ending rest else rest | None \<Rightarrow> s)"
  by pat_completeness auto
termination by (relation "measure (\<lambda>(_, s). length s)") auto

declare trim_suffixes.simps [simp del]

definition safe_event_index_filename :: "string \<Rightarrow> string \<Rightarrow> hub_error + string" where
  "safe_event_index_filename requested extension =
     (let stem = trim_suffixes (''.'' @ extension) (trim requested)
      in if \<not> plain_name stem
         then Inl (Validation ''event export filename must use 1..128 ASCII letters, digits, dot, dash, or underscore'')
         else Inr (stem @ ''.'' @ extension))"

subsection \<open>Digests\<close>

definition FNV_OFFSET :: u64 where "FNV_OFFSET = 0xcbf29ce484222325"
definition FNV_PRIME :: u64 where "FNV_PRIME = 0x100000001b3"

definition fnv_update :: "bytes \<Rightarrow> u64 \<Rightarrow> u64" where
  "fnv_update bs digest = fold (\<lambda>byte d. (d XOR ucast byte) * FNV_PRIME) bs digest"

definition str_bytes :: "string \<Rightarrow> bytes" where "str_bytes = map of_char"

definition digest_text :: "u64 \<Rightarrow> string" where "digest_text d = ''fnv1a64:'' @ pad_hex 16 (unat d)"

definition scope_bytes :: "string \<Rightarrow> (u64 \<times> u64) list \<Rightarrow> u32 list \<Rightarrow> u32 list \<Rightarrow> bytes" where
  "scope_bytes module ranges kinds threads =
     str_bytes module @ [0] @ concat (map (\<lambda>(b, e). le_u64 b @ le_u64 e) ranges) @ [0xff] @ concat (map le_u32 kinds)
       @ [0xfe] @ concat (map le_u32 threads)"

definition trace_scope_digest :: "string \<Rightarrow> (u64 \<times> u64) list \<Rightarrow> u32 list \<Rightarrow> u32 list \<Rightarrow> string" where
  "trace_scope_digest module ranges kinds threads =
     digest_text (fnv_update (scope_bytes module ranges kinds threads) FNV_OFFSET)"

definition target_bytes :: "string \<Rightarrow> (u64 \<times> string) list \<Rightarrow> bytes" where
  "target_bytes module targets =
     str_bytes module @ [0] @ concat (map (\<lambda>(address, name). le_u64 address @ str_bytes name @ [0]) targets)"

definition hook_target_digest :: "string \<Rightarrow> (u64 \<times> string) list \<Rightarrow> string" where
  "hook_target_digest module targets = digest_text (fnv_update (target_bytes module targets) FNV_OFFSET)"

subsection \<open>Tools\<close>

definition TOOL_NAMES :: "string list" where
  "TOOL_NAMES = [''control_status'', ''control_handoff_to_ai'', ''control_takeover_manual'', ''control_pause_automation'',
     ''session_status'', ''session_set_agent_port'', ''target_pause'', ''target_resume'', ''target_step_into'',
     ''target_step_over'', ''breakpoint_set'', ''breakpoint_remove'', ''breakpoint_list'', ''breakpoint_inventory'',
     ''registers_get'', ''register_set'', ''memory_read'', ''memory_write'', ''disassemble'', ''modules_list'',
     ''module_exports'', ''hook_targets_query'', ''hook_monitor_apply'', ''hook_set'', ''hook_function_set'',
     ''hook_signature_set'', ''hook_signature_remove'', ''hook_remove'', ''hook_clear'', ''hook_list'', ''hook_inventory'',
     ''hook_monitor'', ''hook_events_query'', ''hook_events_export'', ''event_index_query'', ''event_index_export'',
     ''trace_scope_query'', ''trace_record_start'', ''trace_record_status'', ''trace_record_stop'', ''trace_index_query'',
     ''trace_index_export'', ''hook_module'', ''hook_range_preview'', ''hook_range_set'', ''syscall_config_get'',
     ''syscall_config_set'', ''syscall_monitor'', ''memory_map'', ''exception_monitor'', ''exception_policy_get'',
     ''exception_policy_set'', ''exception_inventory'', ''threads_list'', ''address_resolve'', ''activity_list'',
     ''activity_get'', ''script_inject'', ''script_replace'', ''script_start'', ''script_stop'', ''script_remove'',
     ''script_list'', ''script_get'', ''script_status'', ''script_output'']"

definition write_tools :: "string list" where
  "write_tools = [''target_pause'', ''target_resume'', ''target_step_into'', ''target_step_over'', ''breakpoint_set'',
     ''breakpoint_remove'', ''hook_set'', ''hook_function_set'', ''hook_signature_set'', ''hook_signature_remove'',
     ''hook_remove'', ''hook_clear'', ''hook_module'', ''hook_monitor_apply'', ''hook_range_set'', ''trace_record_start'',
     ''trace_record_stop'', ''syscall_config_set'', ''register_set'', ''memory_write'', ''session_set_agent_port'',
     ''script_inject'', ''script_replace'', ''script_start'', ''script_stop'', ''script_remove'', ''exception_policy_set'']"

definition is_write :: "string \<Rightarrow> bool" where "is_write n \<longleftrightarrow> n \<in> set write_tools"

definition actor_name :: "caller \<Rightarrow> string" where
  "actor_name c = (case ca_actor c of Human \<Rightarrow> ''human'' | Ai \<Rightarrow> ''ai'' | System \<Rightarrow> ''system'')"

fun error_kind :: "hub_error \<Rightarrow> string" where
  "error_kind (Validation x) = ''validation''"
| "error_kind (Permission x) = ''permission''"
| "error_kind (Agent x) = ''agent''"
| "error_kind (Connection x) = ''connection''"
| "error_kind (Internal x) = ''internal''"
| "error_kind (Operation ident source) = error_kind source"

fun error_text :: "hub_error \<Rightarrow> string" where
  "error_text (Validation x) = ''validation_failed: '' @ x"
| "error_text (Permission x) = ''permission_denied: '' @ x"
| "error_text (Agent x) = ''agent_failed: '' @ x"
| "error_text (Connection x) = ''connection_failed: '' @ x"
| "error_text (Internal x) = ''internal_error: '' @ x"
| "error_text (Operation ident source) = error_text source"

definition map_script_error :: "string \<Rightarrow> hub_error" where
  "map_script_error message =
     (if starts_with ''connection_failed:'' message then Connection message
      else if starts_with ''agent_failed:'' message then Agent message else Validation message)"

definition refs_of :: "string \<Rightarrow> string list \<Rightarrow> json \<Rightarrow> json" where
  "refs_of kind names v = JObject ((''kind'', JString kind) # map (\<lambda>n. (n, json_option (json_get n v))) names)"

definition resource_refs :: "string \<Rightarrow> json \<Rightarrow> json" where
  "resource_refs n v =
     (if starts_with ''script_'' n
      then JObject ([(''kind'', JString ''script''), (''script_kind'', json_option (json_get ''kind'' v))]
             @ map (\<lambda>f. (f, json_option (json_get f v))) [''script_id'', ''name'', ''generation'', ''source_hash'', ''state''])
      else if n \<in> {''breakpoint_set'', ''breakpoint_remove''} then refs_of ''breakpoint'' [''id'', ''address''] v
      else if n \<in> {''hook_set'', ''hook_function_set'', ''hook_signature_set'', ''hook_signature_remove'', ''hook_remove''}
      then refs_of (if starts_with ''hook_signature'' n then ''hook_signature''
                    else if n = ''hook_function_set'' then ''function_call_hook'' else ''instruction_hook'')
             [''address'', ''hooked'', ''function_log'', ''signature_status'', ''signature_removed'', ''removed''] v
      else if n = ''hook_module'' then refs_of ''dll_hook'' [''module'', ''armed'', ''exports'', ''capacity_full''] v
      else if n = ''hook_range_set''
      then refs_of ''instruction_range_hook'' [''start'', ''end'', ''matched'', ''added'', ''total_hooks'', ''capacity_full''] v
      else if n = ''syscall_config_set'' then refs_of ''syscall_hook'' [''enabled'', ''mode'', ''numbers''] v
      else if n \<in> {''trace_record_start'', ''trace_record_stop''}
      then refs_of ''trace_recording'' [''state'', ''active'', ''recorded'', ''dropped'', ''path'', ''selection_id''] v
      else if n = ''memory_read'' then refs_of ''memory'' [''address'', ''size''] v
      else if n = ''memory_write'' then refs_of ''memory_write'' [''address'', ''requested'', ''written''] v
      else if n \<in> {''target_pause'', ''target_resume'', ''target_step_into'', ''target_step_over''}
      then refs_of ''target_state'' [''paused'', ''running'', ''stopped'', ''thread_id''] v
      else JObject [(''kind'', JString ''tool_result''), (''tool'', JString n)])"

definition valid_operation_id :: "string \<Rightarrow> bool" where
  "valid_operation_id v \<longleftrightarrow> length v = 19 \<and> starts_with ''op-'' v \<and> list_all (\<lambda>c. digit_value 16 c \<noteq> None) (drop 3 v)"

end
