(* ===== verification/Pb_Hub_State.thy ===== *)
theory Pb_Hub_State
  imports Pb_Hub_Arguments Pb_Hub_Scripts
begin

section \<open>The hub's state and its inventories (service.rs)\<close>

text \<open>
  The struct \<open>HubService\<close> of \<open>bindings/rust/pinbridge-hub-core/src/service.rs\<close> and the reads that join what the
  agent reports with what the hub remembers: owners, signatures, the provenance of scripts. The agent and the
  clone of it in the script service are one connection. A \<open>hub_world\<close> is what a call finds outside: the agent
  interface, the libraries (\<open>serde_json\<close>, SHA-256, float printing), the clock, the file system.
\<close>

record hook_selection =
  hl_module :: string
  hl_digest :: string
  hl_targets :: "(u64 \<times> string) list"
  hl_export_count :: nat
  hl_matched_count :: nat

record trace_selection =
  tl_module :: string
  tl_module_base :: u64
  tl_module_end :: u64
  tl_ranges :: "(u64 \<times> u64) list"
  tl_rva_ranges :: "(u64 \<times> u64) list"
  tl_kinds :: "u32 list"
  tl_kind_names :: "string list"
  tl_threads :: "u32 list"
  tl_digest :: string

record trace_session =
  ts_selection_id :: string
  ts_selection :: trace_selection
  ts_path :: string
  ts_active :: bool
  ts_recorded :: u64
  ts_dropped :: u64
  ts_local_index :: "json option"

record syscall_config =
  sy_enabled :: bool
  sy_numbers :: "u32 list"
  sy_scope :: string
  sy_module :: "string option"
  sy_module_base :: u64
  sy_module_end :: u64
  sy_rva_begin :: u64
  sy_rva_end :: u64
  sy_scope_start :: u64
  sy_scope_end :: u64

definition syscall_config_default :: syscall_config where
  "syscall_config_default = \<lparr>sy_enabled = True, sy_numbers = [], sy_scope = ''all'', sy_module = None, sy_module_base = 0,
     sy_module_end = 0, sy_rva_begin = 0, sy_rva_end = 0, sy_scope_start = 0, sy_scope_end = 0\<rparr>"

definition syscall_config_members :: "syscall_config \<Rightarrow> (string \<times> json) list" where
  "syscall_config_members c = [(''enabled'', JBool (sy_enabled c)),
     (''mode'', JString (if sy_numbers c = [] then ''all'' else ''selected'')),
     (''numbers'', JArray (map (\<lambda>n. JString (show_hex (unat n))) (sy_numbers c))), (''scope'', JString (sy_scope c)),
     (''module'', json_option (map_option JString (sy_module c))), (''module_base'', JString (hex_word (sy_module_base c))),
     (''module_end'', JString (hex_word (sy_module_end c))), (''rva_begin'', JString (hex_word (sy_rva_begin c))),
     (''rva_end'', JString (hex_word (sy_rva_end c))), (''scope_start'', JString (hex_word (sy_scope_start c))),
     (''scope_end'', JString (hex_word (sy_scope_end c)))]"

type_synonym 'k owners = "('k \<times> string list) list"

record 'a hub =
  hb_agent :: 'a
  hb_control :: control
  hb_journal :: journal
  hb_session :: session_status
  hb_scripts :: scripts
  hb_breakpoint_owners :: "u32 owners"
  hb_hook_owners :: "u64 owners"
  hb_module_owners :: "string owners"
  hb_signatures :: "(u64 \<times> hook_signature) list"
  hb_hook_selections :: "(string \<times> hook_selection) list"
  hb_next_hook_selection :: u64
  hb_trace_selections :: "(string \<times> trace_selection) list"
  hb_next_trace_selection :: u64
  hb_trace_session :: "trace_session option"
  hb_syscall_config :: syscall_config

definition hub_new :: "'a agent_api \<Rightarrow> 'a \<Rightarrow> 'a hub" where
  "hub_new api agent' = \<lparr>hb_agent = agent', hb_control = control_default, hb_journal = journal_new JOURNAL_CAPACITY,
     hb_session = session_new (ag_port api agent'), hb_scripts = scripts_new, hb_breakpoint_owners = [], hb_hook_owners = [],
     hb_module_owners = [], hb_signatures = [], hb_hook_selections = [], hb_next_hook_selection = 1,
     hb_trace_selections = [], hb_next_trace_selection = 1, hb_trace_session = None,
     hb_syscall_config = syscall_config_default\<rparr>"

text \<open>A new target: what was remembered of the old one goes, the counters of the selections and the scripts stay.\<close>

definition hub_set_target :: "string option \<Rightarrow> 'a hub \<Rightarrow> 'a hub" where
  "hub_set_target target h = h\<lparr>hb_session := (hb_session h)\<lparr>se_target := target\<rparr>, hb_breakpoint_owners := [],
     hb_hook_owners := [], hb_module_owners := [], hb_signatures := [], hb_hook_selections := [],
     hb_trace_selections := [], hb_trace_session := None, hb_syscall_config := syscall_config_default\<rparr>"

record ('a, 'd) hub_world =
  hw_api :: "'a agent_api"
  hw_hash :: "string \<Rightarrow> string"
  hw_text :: "json \<Rightarrow> string"
  hw_pretty :: "json \<Rightarrow> string"
  hw_parse :: "bytes \<Rightarrow> json option"
  hw_float :: "u32 \<Rightarrow> string"
  hw_double :: "u64 \<Rightarrow> string"
  hw_decode_error :: "json_args \<Rightarrow> string"
  hw_now :: string
  hw_trace_path :: "string \<Rightarrow> hub_error + string"
  hw_write_event_export :: "string \<Rightarrow> string \<Rightarrow> hub_error + string"
  hw_write_trace_export :: "string \<Rightarrow> string \<Rightarrow> hub_error + string"
  hw_file_bytes :: "string \<Rightarrow> nat option"
  hw_store :: "'d store"
  hw_database :: "string \<Rightarrow> hub_error + 'd trace_database"
  hw_database_bytes :: "string \<Rightarrow> nat"

type_synonym ('a, 'v) hub_action = "('a hub, 'v) hub_m"

text \<open>A request to the agent, its error turned into the hub's.\<close>

definition hub_ask :: "('a \<Rightarrow> (agent_error + 'v) \<times> 'a) \<Rightarrow> ('a, 'v) hub_action" where
  "hub_ask call h = (case call (hb_agent h) of (r, a) \<Rightarrow> (map_sum hub_error_of id r, h\<lparr>hb_agent := a\<rparr>))"

definition ask_value :: "('a, 'd) hub_world \<Rightarrow> agent_request \<Rightarrow> ('a, json) hub_action" where
  "ask_value w r = hub_ask (ag_value (hw_api w) r)"

text \<open>A request whose answer does not matter (\<open>let _ =\<close>).\<close>

definition ask_ignored :: "('a \<Rightarrow> (agent_error + 'v) \<times> 'a) \<Rightarrow> ('a, unit) hub_action" where
  "ask_ignored call h = (case call (hb_agent h) of (_, a) \<Rightarrow> (Inr (), h\<lparr>hb_agent := a\<rparr>))"

definition with_scripts :: "('a, 'v) script_m \<Rightarrow> ('a, 'v) hub_action" where
  "with_scripts m h =
     (case m (hb_scripts h, hb_agent h) of (r, s, a) \<Rightarrow> (map_sum map_script_error id r, h\<lparr>hb_scripts := s, hb_agent := a\<rparr>))"

subsection \<open>Owners\<close>

definition owners_at :: "'k owners \<Rightarrow> 'k \<Rightarrow> string list" where
  "owners_at owners k = (case map_of owners k of None \<Rightarrow> [] | Some names \<Rightarrow> names)"

text \<open>\<open>entry(k).or_default().insert(name)\<close>.\<close>

definition add_owner :: "string \<Rightarrow> 'k::linorder \<Rightarrow> 'k owners \<Rightarrow> 'k owners" where
  "add_owner name k owners = om_insert k (os_insert name (owners_at owners k)) owners"

subsection \<open>Inventories\<close>

text \<open>\<open>get_mut(name)\<close> and \<open>as_array_mut\<close>: the elements of an array member are rewritten in place.\<close>

definition json_map_array :: "string \<Rightarrow> (json \<Rightarrow> json) \<Rightarrow> json \<Rightarrow> json" where
  "json_map_array name f v =
     (case Option.bind (json_get name v) json_as_array of None \<Rightarrow> v | Some rows \<Rightarrow> json_set name (JArray (map f rows)) v)"

definition str_or :: "string \<Rightarrow> string \<Rightarrow> json \<Rightarrow> string" where
  "str_or name otherwise v = (case get_str name v of None \<Rightarrow> otherwise | Some s \<Rightarrow> s)"

definition bool_or :: "string \<Rightarrow> bool \<Rightarrow> json \<Rightarrow> bool" where
  "bool_or name otherwise v = (case Option.bind (json_get name v) json_as_bool of None \<Rightarrow> otherwise | Some b \<Rightarrow> b)"

definition with_provenance :: "scripts \<Rightarrow> json \<Rightarrow> json" where
  "with_provenance s callback =
     (case provenance (str_or ''plugin'' [] callback) s of
        Some (created_by, modified_by) \<Rightarrow>
          json_set_all [(''owner'', JString created_by), (''created_by'', JString created_by),
            (''modified_by'', JString modified_by), (''source_available'', JBool True)] callback
      | None \<Rightarrow> json_set ''source_available'' (JBool False) callback)"

definition callback_count :: "json \<Rightarrow> nat" where
  "callback_count row =
     (case Option.bind (json_get ''callbacks'' row) json_as_array of None \<Rightarrow> 0 | Some callbacks \<Rightarrow> length callbacks)"

definition owned_row :: "scripts \<Rightarrow> string \<Rightarrow> string list \<Rightarrow> json \<Rightarrow> json" where
  "owned_row s plain names row =
     json_set_all [(''plain_owners'', strings_json names),
       (''kind'', JString (if names \<noteq> [] \<and> callback_count row > 0 then ''mixed'' else if callback_count row > 0 then ''callback''
                          else if names \<noteq> [] then plain else ''external'')),
       (''callback_count'', dec_json (callback_count row))]
       (json_map_array ''callbacks'' (with_provenance s) row)"

definition breakpoint_id :: "json \<Rightarrow> u32 option" where
  "breakpoint_id row = map_option word_of_nat (Option.bind (get_str ''id'' row) (parse_unsigned 10 (2 ^ 32)))"

definition owned_breakpoint :: "'a hub \<Rightarrow> json \<Rightarrow> json" where
  "owned_breakpoint h row =
     owned_row (hb_scripts h) ''traditional''
       (case breakpoint_id row of None \<Rightarrow> [] | Some n \<Rightarrow> owners_at (hb_breakpoint_owners h) n) row"

definition hub_breakpoint_inventory :: "('a, 'd) hub_world \<Rightarrow> ('a, json) hub_action" where
  "hub_breakpoint_inventory w =
     hub_then (ask_value w Ag_breakpoint_inventory) (\<lambda>v h. (Inr (json_map_array ''breakpoints'' (owned_breakpoint h) v), h))"

definition hub_exception_inventory :: "('a, 'd) hub_world \<Rightarrow> ('a, json) hub_action" where
  "hub_exception_inventory w =
     hub_then (ask_value w Ag_exception_inventory)
       (\<lambda>v h. (Inr (json_map_array ''interceptors'' (with_provenance (hb_scripts h)) v), h))"

definition width_in :: "json \<Rightarrow> u32" where
  "width_in v = ucast (case value_u64_ok (json_get ''pointer_width'' v) of None \<Rightarrow> 8 | Some n \<Rightarrow> n)"

definition target_pointer_width :: "('a, 'd) hub_world \<Rightarrow> ('a, u32) hub_action" where
  "target_pointer_width w h =
     (case ask_value w Ag_status h of (Inr status, h) \<Rightarrow> (Inr (width_in status), h) | (Inl _, h) \<Rightarrow> (Inr 8, h))"

definition signed_row :: "'a hub \<Rightarrow> u32 \<Rightarrow> json \<Rightarrow> json" where
  "signed_row h pointer_width row =
     (case Option.bind (value_u64_ok (json_get ''address'' row)) (map_of (hb_signatures h)) of
        Some s \<Rightarrow> json_set_all [(''signature'', signature_json s pointer_width), (''signature_status'', JString ''resolved'')] row
      | None \<Rightarrow> json_set ''signature_status''
                  (JString (if bool_or ''function_log'' False row then ''missing'' else ''not_applicable'')) row)"

definition owned_hook :: "'a hub \<Rightarrow> u32 \<Rightarrow> json \<Rightarrow> json" where
  "owned_hook h pointer_width row =
     (let by_address = (case value_u64_ok (json_get ''address'' row) of
                          None \<Rightarrow> [] | Some address \<Rightarrow> owners_at (hb_hook_owners h) address);
          by_module = owners_at (hb_module_owners h) (module_key (str_or ''module'' [] row));
          names = fold os_insert by_module by_address
      in signed_row h pointer_width (owned_row (hb_scripts h) ''instruction'' names row))"

definition hub_hook_inventory :: "('a, 'd) hub_world \<Rightarrow> nat \<Rightarrow> nat \<Rightarrow> bool option \<Rightarrow> ('a, json) hub_action" where
  "hub_hook_inventory w offset limit function_log =
     hub_then (ask_value w (Ag_hook_inventory_page offset limit function_log)) (\<lambda>v.
     hub_then (target_pointer_width w) (\<lambda>width h. (Inr (json_map_array ''hooks'' (owned_hook h width) v), h)))"

subsection \<open>The hook monitor\<close>

definition resolved_event :: "('a, 'd) hub_world \<Rightarrow> u32 \<Rightarrow> hook_signature \<Rightarrow> json \<Rightarrow> json" where
  "resolved_event w pointer_width s event =
     (let named = (if get_str ''display'' event = None then json_set ''display'' (JString (hs_function s)) event else event);
          signed = json_set_all [(''symbol'', JString (hs_function s)), (''signature'', signature_json s pointer_width),
                     (''signature_status'', JString ''resolved'')] named
      in if \<not> bool_or ''signature_capture'' False event
         then json_set ''capture_status'' (JString ''pre_signature_raw_abi'') signed
         else let signed = json_set ''capture_status'' (JString ''signature'') signed
              in if str_or ''kind'' ''entry'' event = ''return''
                 then json_set ''typed_return''
                        (typed_return (hw_float w) (hw_double w) s (json_get ''return_value'' event) pointer_width) signed
                 else json_set ''typed_arguments''
                        (JArray (typed_arguments (hw_float w) (hw_double w) s
                          (case Option.bind (json_get ''arguments'' event) json_as_array of None \<Rightarrow> [] | Some vs \<Rightarrow> vs)
                          pointer_width)) signed)"

definition monitored_event :: "('a, 'd) hub_world \<Rightarrow> 'a hub \<Rightarrow> u32 \<Rightarrow> json \<Rightarrow> json" where
  "monitored_event w h pointer_width event =
     (case value_u64_ok (json_get ''address'' event) of
        None \<Rightarrow> event
      | Some address \<Rightarrow>
          let function_hook = (get_str ''hook_type'' event = Some ''api'')
          in case (if function_hook then map_of (hb_signatures h) address else None) of
               Some s \<Rightarrow> resolved_event w pointer_width s event
             | None \<Rightarrow> json_set_all [(''signature_status'', JString (if function_hook then ''missing'' else ''not_applicable'')),
                         (''capture_status'', JString (if function_hook then ''raw_abi'' else ''instruction''))] event)"

definition hub_hook_monitor :: "('a, 'd) hub_world \<Rightarrow> u64 \<Rightarrow> u64 \<Rightarrow> ('a, json) hub_action" where
  "hub_hook_monitor w limit before' =
     hub_then (ask_value w (Ag_hook_monitor limit before'))
       (\<lambda>v h. (Inr (json_map_array ''events'' (monitored_event w h (width_in v)) v), h))"

end
