(* ===== verification/Pb_Hub_Index.thy ===== *)
theory Pb_Hub_Index
  imports Pb_Hub_State
begin

section \<open>The event index (service.rs)\<close>

text \<open>
  \<open>event_index_query\<close> and \<open>event_index_export\<close> of \<open>bindings/rust/pinbridge-hub-core/src/service.rs\<close>: pages of the
  hook or the system-call history are read from the newest back until enough events match the key.
\<close>

definition INDEX_FIELDS :: "string list" where
  "INDEX_FIELDS = [''sequence'', ''timestamp_unix_ns'', ''generation'', ''kind'', ''phase'', ''hook_type'', ''thread_id'',
     ''address'', ''module'', ''symbol'', ''display'', ''signature_capture'', ''signature_status'', ''capture_status'',
     ''argument_count'', ''arguments'', ''typed_arguments'', ''return_value'', ''typed_return'', ''errno'', ''number'',
     ''number_decimal'']"

fun collect_fields :: "json list \<Rightarrow> hub_error + string list" where
  "collect_fields [] = Inr []"
| "collect_fields (v # vs) =
     (case json_as_str v of
        None \<Rightarrow> Inl (Validation ''event index fields must be strings'')
      | Some field \<Rightarrow>
          if field \<notin> set INDEX_FIELDS then Inl (Validation (''unsupported event index field: '' @ field))
          else map_sum id (Cons field) (collect_fields vs))"

definition parse_event_index_fields :: "json_args \<Rightarrow> hub_error + string list" where
  "parse_event_index_fields args =
     (case map_of args ''fields'' of
        None \<Rightarrow> Inr []
      | Some v \<Rightarrow>
          (case json_as_array v of
             None \<Rightarrow> Inl (Validation ''event index fields must be an array'')
           | Some vs \<Rightarrow>
               if length vs > 32 then Inl (Validation ''event index fields accepts at most 32 names'') else collect_fields vs))"

fun collect_phases :: "json list \<Rightarrow> string list \<Rightarrow> hub_error + string list" where
  "collect_phases [] phases = Inr phases"
| "collect_phases (v # vs) phases =
     (case json_as_str v of
        None \<Rightarrow> Inl (Validation ''event index phases must be strings'')
      | Some phase \<Rightarrow>
          if phase \<notin> {''hit'', ''entry'', ''return'', ''exit''}
          then Inl (Validation (''unsupported event index phase: '' @ phase))
          else collect_phases vs (os_insert phase phases))"

definition parse_event_index_phases :: "json_args \<Rightarrow> hub_error + string list" where
  "parse_event_index_phases args =
     (case map_of args ''phases'' of
        None \<Rightarrow> Inr []
      | Some v \<Rightarrow>
          (case json_as_array v of
             None \<Rightarrow> Inl (Validation ''event index phases must be an array'') | Some vs \<Rightarrow> collect_phases vs []))"

record index_query =
  iq_index :: string
  iq_key :: string
  iq_numeric :: "u64 option"
  iq_module :: "string option"
  iq_source :: string
  iq_phases :: "string list"
  iq_fields :: "string list"
  iq_payload :: bool
  iq_limit :: nat
  iq_before :: u64

definition or_else :: "'v option \<Rightarrow> 'v option \<Rightarrow> 'v option" where
  "or_else x y = (case x of None \<Rightarrow> y | Some v \<Rightarrow> Some v)"

definition event_index_matches :: "index_query \<Rightarrow> json \<Rightarrow> bool" where
  "event_index_matches q event \<longleftrightarrow>
     (let phase = (case Option.bind (or_else (json_get ''phase'' event) (json_get ''kind'' event)) json_as_str of
                     None \<Rightarrow> [] | Some s \<Rightarrow> s);
          pattern_in = (\<lambda>name pattern. case get_str name event of
                          None \<Rightarrow> False | Some s \<Rightarrow> wildcard_match pattern s = Some True);
          number_at = (\<lambda>v. value_u64_ok v = iq_numeric q)
      in (iq_phases q = [] \<or> phase \<in> set (iq_phases q))
         \<and> (if iq_index q = ''api''
            then get_str ''hook_type'' event = Some ''api''
              \<and> pattern_in ''module'' (case iq_module q of None \<Rightarrow> ''*'' | Some m \<Rightarrow> m) \<and> pattern_in ''symbol'' (iq_key q)
            else if iq_index q = ''syscall''
            then number_at (or_else (json_get ''number_decimal'' event) (json_get ''number'' event))
            else if iq_index q = ''address'' then number_at (json_get ''address'' event)
            else if iq_index q = ''thread'' then number_at (json_get ''thread_id'' event) else False))"

fun json_remove :: "string \<Rightarrow> json \<Rightarrow> json" where
  "json_remove name (JObject members) = JObject (filter (\<lambda>(n, _). n \<noteq> name) members)"
| "json_remove name v = v"

definition strip_event_index_payload :: "json \<Rightarrow> json" where
  "strip_event_index_payload event =
     fold json_remove [''arguments'', ''typed_arguments'', ''return_value'', ''typed_return'', ''errno'', ''signature''] event"

definition project_event_index_fields :: "json \<Rightarrow> string list \<Rightarrow> json" where
  "project_event_index_fields event names =
     json_set_all (List.map_filter (\<lambda>f. map_option (Pair f) (json_get f event)) names) (JObject [])"

definition event_index_sequence :: "json \<Rightarrow> u64 option" where
  "event_index_sequence event = value_u64_ok (json_get ''sequence'' event)"

definition event_index_lane_metadata :: "json \<Rightarrow> string \<Rightarrow> json" where
  "event_index_lane_metadata page source =
     pick_members (if source = ''syscall'' then [''ring_total'', ''ring_dropped'', ''ring_capacity'', ''history_overwritten'']
                   else [''lane_total'', ''lane_dropped'', ''capacity'', ''history_overwritten'']) page"

subsection \<open>The query\<close>

definition index_source :: "json_args \<Rightarrow> string \<Rightarrow> hub_error + string" where
  "index_source args index =
     (if index = ''syscall'' then Inr ''syscall''
      else if index = ''thread''
      then let v = string_or args ''source'' ''hook''
           in if v \<in> {''hook'', ''syscall''} then Inr v else Inl (Validation ''thread index source must be hook or syscall'')
      else Inr ''hook'')"

definition index_query_parse :: "json_args \<Rightarrow> hub_error + index_query" where
  "index_query_parse args =
     and_then (map_sum id (to_lower \<circ> trim) (req args ''index'')) (\<lambda>index.
     if index \<notin> {''api'', ''syscall'', ''address'', ''thread''}
     then Inl (Validation ''event index must be api, syscall, address, or thread'')
     else
     and_then (map_sum id trim (req args ''key'')) (\<lambda>key.
     if key = [] \<or> length key > 512 then Inl (Validation ''event index key must contain 1..512 bytes'')
     else
     and_then (req args ''limit'') (\<lambda>limit_text.
     and_then (case parse_unsigned 10 (2 ^ 64) limit_text of
                 None \<Rightarrow> Inl (Validation ''event index limit must be decimal'') | Some n \<Rightarrow> Inr n) (\<lambda>limit.
     if limit = 0 \<or> limit > 256 then Inl (Validation ''event index limit must be explicitly set to 1..256'')
     else
     and_then (decimal_or args ''before'' ''0'' ''event index before must be decimal'') (\<lambda>before'.
     and_then (parse_event_index_fields args) (\<lambda>names.
     and_then (parse_event_index_phases args) (\<lambda>phases.
     let module = (case map_option trim (Option.bind (map_of args ''module'') json_as_str) of
                     Some [] \<Rightarrow> None | m \<Rightarrow> m)
     in if index = ''api'' \<and> module = None then Inl (Validation ''api index queries require an explicit module'')
     else
     and_then (if index \<in> {''syscall'', ''address'', ''thread''} then map_sum id Some (hub_parse_u64 key) else Inr None)
       (\<lambda>numeric.
     if index = ''syscall'' \<and> (case numeric of None \<Rightarrow> False | Some n \<Rightarrow> n > 0xfff)
     then Inl (Validation ''syscall index key must be in the native 0x000..0xfff range'')
     else if index = ''thread'' \<and> (case numeric of None \<Rightarrow> False | Some n \<Rightarrow> unat n \<ge> 2 ^ 32)
     then Inl (Validation ''thread index key exceeds u32'')
     else
     and_then (index_source args index) (\<lambda>source.
       Inr \<lparr>iq_index = index, iq_key = key, iq_numeric = numeric, iq_module = module, iq_source = source, iq_phases = phases,
            iq_fields = names, iq_payload = json_flag args ''payload'', iq_limit = limit,
            iq_before = word_of_nat before'\<rparr>)))))))))"

text \<open>What the loop carries; \<open>is_exhausted\<close> when the history has no more to give.\<close>

record index_scan =
  is_before :: u64
  is_scanned :: nat
  is_matches :: "json list"
  is_last :: "u64 option"
  is_lane :: json
  is_exhausted :: bool

definition INDEX_SCAN_LIMIT :: nat where "INDEX_SCAN_LIMIT = 32768"

definition index_page :: "('a, 'd) hub_world \<Rightarrow> index_query \<Rightarrow> u64 \<Rightarrow> ('a, json) hub_action" where
  "index_page w q before' =
     (if iq_source q = ''syscall'' then ask_value w (Ag_syscall_monitor_window 4096 before') else hub_hook_monitor w 4096 before')"

definition index_event :: "index_query \<Rightarrow> json \<Rightarrow> json" where
  "index_event q event =
     (let event = (if iq_payload q then event else strip_event_index_payload event)
      in if iq_fields q = [] then event else project_event_index_fields event (iq_fields q))"

text \<open>The events of one page, newest first, until the limit is reached.\<close>

fun scan_events :: "index_query \<Rightarrow> json list \<Rightarrow> index_scan \<Rightarrow> index_scan" where
  "scan_events q [] s = s"
| "scan_events q (event # events) s =
     (if \<not> event_index_matches q event then scan_events q events s
      else let s = s\<lparr>is_last := event_index_sequence event, is_matches := is_matches s @ [index_event q event]\<rparr>
           in if length (is_matches s) = iq_limit q then s else scan_events q events s)"

definition sequence_or_0 :: "json \<Rightarrow> u64" where
  "sequence_or_0 event = (case event_index_sequence event of None \<Rightarrow> 0 | Some n \<Rightarrow> n)"

text \<open>One page: \<open>Inl\<close> when the loop breaks.\<close>

definition scan_page :: "index_query \<Rightarrow> json \<Rightarrow> json list \<Rightarrow> index_scan \<Rightarrow> index_scan + index_scan" where
  "scan_page q page events s =
     (let s = (if is_lane s = JNull then s\<lparr>is_lane := event_index_lane_metadata page (iq_source q)\<rparr> else s)
      in if events = [] then Inl (s\<lparr>is_exhausted := True\<rparr>)
         else let newest_first = rev (sort_key sequence_or_0 events);
                  oldest = sequence_or_0 (last newest_first);
                  s = scan_events q newest_first (s\<lparr>is_scanned := is_scanned s + length events\<rparr>)
              in if length (is_matches s) = iq_limit q then Inl s
                 else if oldest \<le> 1 \<or> is_scanned s \<ge> INDEX_SCAN_LIMIT then Inl (s\<lparr>is_exhausted := True\<rparr>)
                 else Inr (s\<lparr>is_before := oldest\<rparr>))"

lemma scan_events_scanned: "is_scanned (scan_events q events s) = is_scanned s"
  by (induction q events s rule: scan_events.induct) (auto simp: Let_def)

lemma scan_page_scanned: "scan_page q page events s = Inr s' \<Longrightarrow> is_scanned s < is_scanned s' \<and> is_scanned s' < INDEX_SCAN_LIMIT"
  by (auto simp: scan_page_def Let_def scan_events_scanned split: if_splits)

function index_scan_loop :: "('a, 'd) hub_world \<Rightarrow> index_query \<Rightarrow> index_scan \<Rightarrow> ('a, index_scan) hub_action" where
  "index_scan_loop w q s h =
     (if \<not> (length (is_matches s) < iq_limit q \<and> is_scanned s < INDEX_SCAN_LIMIT) then (Inr s, h)
      else case index_page w q (is_before s) h of
             (Inl e, h) \<Rightarrow> (Inl e, h)
           | (Inr page, h) \<Rightarrow>
               (case Option.bind (json_get ''events'' page) json_as_array of
                  None \<Rightarrow> (Inl (Agent ''Agent returned an invalid indexed event page''), h)
                | Some events \<Rightarrow>
                    (case scan_page q page events s of Inl s \<Rightarrow> (Inr s, h) | Inr s' \<Rightarrow> index_scan_loop w q s' h)))"
  by pat_completeness auto
termination
  by (relation "measure (\<lambda>(_, _, s, _). INDEX_SCAN_LIMIT - is_scanned s)") (auto dest: scan_page_scanned)

declare index_scan_loop.simps [simp del]

definition index_result :: "index_query \<Rightarrow> index_scan \<Rightarrow> (string \<times> json) list" where
  "index_result q s =
     (let next_before = (if is_exhausted s then None
                         else or_else (is_last s) (if is_before s \<noteq> 0 then Some (is_before s) else None))
      in [(''index'', JString (iq_index q)), (''key'', JString (iq_key q)),
          (''module'', json_option (map_option JString (iq_module q))), (''source'', JString (iq_source q)),
          (''payload'', JBool (iq_payload q)), (''fields'', strings_json (iq_fields q)),
          (''requested_limit'', dec_json (iq_limit q)), (''scanned'', dec_json (is_scanned s)),
          (''returned'', dec_json (length (is_matches s))),
          (''next_before'', json_option (map_option (\<lambda>n. JString (show_word n)) next_before)),
          (''exhausted'', JBool (is_exhausted s)), (''lane'', is_lane s), (''events'', JArray (is_matches s))])"

definition event_index_query :: "('a, 'd) hub_world \<Rightarrow> json_args \<Rightarrow> ('a, json) hub_action" where
  "event_index_query w args =
     hub_then (given (index_query_parse args)) (\<lambda>q.
     hub_then (index_scan_loop w q \<lparr>is_before = iq_before q, is_scanned = 0, is_matches = [], is_last = None, is_lane = JNull,
                 is_exhausted = False\<rparr>) (\<lambda>s.
       done_with (JObject (index_result q s))))"

subsection \<open>The export\<close>

definition INDEX_CSV_FIELDS :: "string list" where
  "INDEX_CSV_FIELDS = [''sequence'', ''timestamp_unix_ns'', ''kind'', ''hook_type'', ''thread_id'', ''address'', ''module'',
     ''symbol'', ''number_decimal'', ''arguments'', ''return_value'']"

definition event_index_csv :: "(json \<Rightarrow> string) \<Rightarrow> json list \<Rightarrow> json_args \<Rightarrow> hub_error + string" where
  "event_index_csv json_text events args =
     and_then (parse_event_index_fields args) (\<lambda>requested.
       let names = (if requested = [] then INDEX_CSV_FIELDS else requested)
       in Inr (csv_line (map csv_cell names)
            @ concat (map (\<lambda>e. csv_line (map (\<lambda>f. csv_cell (scalar_string json_text (json_get f e))) names)) events)))"

definition index_export_data ::
  "('a, 'd) hub_world \<Rightarrow> json_args \<Rightarrow> json list \<Rightarrow> hub_error + (string \<times> string \<times> string)" where
  "index_export_data w args events =
     (let form = string_or args ''format'' ''jsonl''
      in if form = ''json'' then Inr (hw_pretty w (JArray events), ''application/json'', ''json'')
         else if form = ''jsonl''
         then Inr (concat (map (\<lambda>e. hw_text w e @ [CHR 0x0A]) events), ''application/x-ndjson'', ''jsonl'')
         else if form = ''csv''
         then map_sum id (\<lambda>data. (data, ''text/csv; charset=utf-8'', ''csv'')) (event_index_csv (hw_text w) events args)
         else Inl (Validation ''event index export format must be json, jsonl, or csv''))"

definition index_export_reply ::
  "('a, 'd) hub_world \<Rightarrow> json_args \<Rightarrow> json list \<Rightarrow> string \<Rightarrow> string \<Rightarrow> string \<Rightarrow> hub_error + json" where
  "index_export_reply w args events data mime_type filename =
     (let form = string_or args ''format'' ''jsonl''; delivery = string_or args ''delivery'' ''file'';
          first = [(''delivery'', JString delivery), (''format'', JString form), (''mime_type'', JString mime_type),
            (''filename'', JString filename)];
          sizes = [(''rows'', dec_json (length events)), (''bytes'', dec_json (length data))]
      in if delivery = ''inline''
         then if length data > 2 * 1024 * 1024
              then Inl (Validation ''inline indexed export exceeds 2 MiB; use delivery=file'')
              else Inr (JObject (first @ sizes @ [(''data'', JString data)]))
         else if delivery = ''file''
         then and_then (hw_write_event_export w filename data) (\<lambda>path. Inr (JObject (first @ [(''path'', JString path)] @ sizes)))
         else Inl (Validation ''event index export delivery must be file or inline''))"

definition event_index_export :: "('a, 'd) hub_world \<Rightarrow> json_args \<Rightarrow> ('a, json) hub_action" where
  "event_index_export w args =
     hub_then (event_index_query w args) (\<lambda>result.
       case Option.bind (json_get ''events'' result) json_as_array of
         None \<Rightarrow> fail_with (Internal ''indexed event result has no events'')
       | Some events \<Rightarrow>
           hub_then (given (index_export_data w args events)) (\<lambda>(data, mime_type, extension).
           hub_then (given (safe_event_index_filename (trim (string_or args ''filename'' ''event-index'')) extension)) (\<lambda>filename.
             given (index_export_reply w args events data mime_type filename))))"

end
