(* ===== verification/Pb_Hub_Trace.thy ===== *)
theory Pb_Hub_Trace
  imports Pb_Hub_State "HOL-Library.Product_Lexorder"
begin

section \<open>Selections: trace scopes and hook targets (service.rs)\<close>

text \<open>
  The two-step tools of \<open>bindings/rust/pinbridge-hub-core/src/service.rs\<close>: a query makes a selection with a
  digest, a second call names it and is refused when count or digest differ. With them the trace session and
  the scope of the system-call filter, which resolve a module the same way.
\<close>

subsection \<open>The extent of a module\<close>

record module_extent =
  me_name :: string
  me_base :: u64
  me_end :: u64

definition module_row :: "string \<Rightarrow> json list \<Rightarrow> json option" where
  "module_row requested rows =
     List.find (\<lambda>row. case get_str ''name'' row of None \<Rightarrow> False | Some name \<Rightarrow> module_key name = module_key requested) rows"

definition member_u64 :: "string \<Rightarrow> string \<Rightarrow> json \<Rightarrow> hub_error + u64" where
  "member_u64 name missing row =
     (case json_get name row of None \<Rightarrow> Inl (Agent missing) | Some v \<Rightarrow> parse_value_u64 v)"

definition find_module :: "string \<Rightarrow> json \<Rightarrow> hub_error + module_extent" where
  "find_module requested modules =
     (case Option.bind (json_get ''modules'' modules) json_as_array of
        None \<Rightarrow> Inl (Agent ''Agent returned an invalid module list'')
      | Some rows \<Rightarrow>
          (case module_row requested rows of
             None \<Rightarrow> Inl (Validation (''module is not loaded: '' @ requested))
           | Some row \<Rightarrow>
               and_then (member_u64 ''base'' ''module base is missing'' row) (\<lambda>base.
               and_then (member_u64 ''end'' ''module end is missing'' row) (\<lambda>high.
                 case checked_add high 1 of
                   None \<Rightarrow> Inl (Validation ''module end overflows the address space'')
                 | Some end' \<Rightarrow>
                     if end' \<le> base then Inl (Agent ''Agent returned an invalid module range'')
                     else Inr \<lparr>me_name = str_or ''name'' requested row, me_base = base, me_end = end'\<rparr>))))"

definition rva_address :: "u64 \<Rightarrow> u64 \<Rightarrow> string \<Rightarrow> hub_error + u64" where
  "rva_address base rva message =
     (case checked_add base rva of None \<Rightarrow> Inl (Validation message) | Some a \<Rightarrow> Inr a)"

subsection \<open>Ranges\<close>

text \<open>Sorted, and joined where one begins inside or at the end of the one before.\<close>

fun join_ranges :: "(u64 \<times> u64) \<Rightarrow> (u64 \<times> u64) list \<Rightarrow> (u64 \<times> u64) list" where
  "join_ranges (b, e) [] = [(b, e)]"
| "join_ranges (b, e) ((b', e') # rest) =
     (if b' \<le> e then join_ranges (b, max e e') rest else (b, e) # join_ranges (b', e') rest)"

definition normalize_ranges :: "(u64 \<times> u64) list \<Rightarrow> (u64 \<times> u64) list" where
  "normalize_ranges ranges = (case sort ranges of [] \<Rightarrow> [] | r # rest \<Rightarrow> join_ranges r rest)"

fun parse_ranges :: "u64 \<Rightarrow> json list \<Rightarrow> hub_error + (u64 \<times> u64) list" where
  "parse_ranges module_size [] = Inr []"
| "parse_ranges module_size (v # vs) =
     (case v of
        JObject range' \<Rightarrow>
          and_then (req range' ''rva_begin'') (\<lambda>begin_text.
          and_then (hub_parse_u64 begin_text) (\<lambda>begin'.
          and_then (req range' ''rva_end'') (\<lambda>end_text.
          and_then (hub_parse_u64 end_text) (\<lambda>end'.
            if end' \<le> begin' then Inl (Validation ''Trace RVA end must be greater than RVA begin'')
            else if end' > module_size
            then Inl (Validation (''Trace RVA range exceeds module size '' @ hex_word module_size))
            else map_sum id (Cons (begin', end')) (parse_ranges module_size vs)))))
      | _ \<Rightarrow> Inl (Validation ''Trace range must be an object''))"

definition scope_ranges :: "u64 \<Rightarrow> json_args \<Rightarrow> hub_error + (u64 \<times> u64) list" where
  "scope_ranges module_size args =
     and_then (case Option.bind (map_of args ''ranges'') json_as_array of
                 None \<Rightarrow> Inr []
               | Some vs \<Rightarrow> if length vs > 16 then Inl (Validation ''Trace scope exceeds 16 ranges'') else parse_ranges module_size vs)
       (\<lambda>ranges. Inr (normalize_ranges (if ranges = [] then [(0, module_size)] else ranges)))"

fun absolute_ranges :: "u64 \<Rightarrow> (u64 \<times> u64) list \<Rightarrow> hub_error + (u64 \<times> u64) list" where
  "absolute_ranges base [] = Inr []"
| "absolute_ranges base ((b, e) # rest) =
     and_then (rva_address base b ''Trace RVA begin overflows'') (\<lambda>begin'.
     and_then (rva_address base e ''Trace RVA end overflows'') (\<lambda>end'.
       map_sum id (Cons (begin', end')) (absolute_ranges base rest)))"

definition trace_ranges_json :: "(u64 \<times> u64) list \<Rightarrow> (u64 \<times> u64) list \<Rightarrow> json" where
  "trace_ranges_json ranges rva_ranges =
     JArray (map (\<lambda>((b, e), (rb, re)). JObject [(''begin'', JString (hex_word b)), (''end'', JString (hex_word e)),
        (''rva_begin'', JString (hex_word rb)), (''rva_end'', JString (hex_word re)), (''size'', JString (hex_word (e - b)))])
       (zip ranges rva_ranges))"

subsection \<open>The trace scope\<close>

text \<open>Kinds by number, each with the first name it was given; threads in order.\<close>

fun collect_kinds :: "json list \<Rightarrow> (u32 \<times> string) list \<Rightarrow> hub_error + (u32 \<times> string) list" where
  "collect_kinds [] kinds = Inr kinds"
| "collect_kinds (v # vs) kinds =
     (case json_as_str v of
        None \<Rightarrow> Inl (Validation ''Trace kind must be a string'')
      | Some name \<Rightarrow>
          and_then (trace_kind_id name) (\<lambda>k.
            collect_kinds vs (if map_of kinds k = None then om_insert k name kinds else kinds)))"

definition scope_kinds :: "json_args \<Rightarrow> hub_error + (u32 \<times> string) list" where
  "scope_kinds args =
     (case Option.bind (map_of args ''kinds'') json_as_array of
        None \<Rightarrow> Inl (Validation ''Trace kinds must be an array'')
      | Some vs \<Rightarrow>
          if vs = [] \<or> length vs > 8 then Inl (Validation ''Trace kinds must contain 1..8 entries'') else collect_kinds vs [])"

fun collect_threads :: "json list \<Rightarrow> u32 list \<Rightarrow> hub_error + u32 list" where
  "collect_threads [] threads = Inr threads"
| "collect_threads (v # vs) threads =
     and_then (as_u32 ''Trace thread id is out of range'' (parse_value_u64 v)) (\<lambda>t. collect_threads vs (os_insert t threads))"

definition scope_threads :: "json_args \<Rightarrow> hub_error + u32 list" where
  "scope_threads args =
     (let vs = (case Option.bind (map_of args ''threads'') json_as_array of None \<Rightarrow> [] | Some vs \<Rightarrow> vs)
      in if length vs > 64 then Inl (Validation ''Trace thread selection exceeds 64 entries'') else collect_threads vs [])"

definition check_live :: "u32 list \<Rightarrow> json \<Rightarrow> hub_error + unit" where
  "check_live threads live =
     (case Option.bind (json_get ''threads'' live) json_as_array of
        None \<Rightarrow> Inl (Agent ''Agent returned an invalid thread list'')
      | Some rows \<Rightarrow>
          and_then (parse_values rows) (\<lambda>live_threads.
            case List.find (\<lambda>t. ucast t \<notin> set live_threads) threads of
              Some missing \<Rightarrow> Inl (Validation (''Trace thread is not live: '' @ show_word missing)) | None \<Rightarrow> Inr ()))"

definition SELECTION_LIMIT :: nat where "SELECTION_LIMIT = 64"

text \<open>A new selection; beyond the limit the smallest ids go.\<close>

definition keep_selection :: "string \<Rightarrow> 'v \<Rightarrow> (string \<times> 'v) list \<Rightarrow> (string \<times> 'v) list" where
  "keep_selection ident v selections =
     (let selections = om_insert ident v selections in drop (length selections - SELECTION_LIMIT) selections)"

definition selection_id :: "string \<Rightarrow> u64 \<Rightarrow> string" where "selection_id lead n = lead @ pad_hex 16 (unat n)"

definition add_trace_selection :: "trace_selection \<Rightarrow> ('a, string) hub_action" where
  "add_trace_selection selection h =
     (let ident = selection_id ''tracesel-'' (hb_next_trace_selection h)
      in (Inr ident, h\<lparr>hb_next_trace_selection := hb_next_trace_selection h + 1,
                       hb_trace_selections := keep_selection ident selection (hb_trace_selections h)\<rparr>))"

definition threads_json :: "u32 list \<Rightarrow> json" where "threads_json threads = JArray (map (\<lambda>t. JString (show_word t)) threads)"

definition thread_scope :: "u32 list \<Rightarrow> json" where
  "thread_scope threads = JString (if threads = [] then ''all'' else ''selected'')"

definition trace_scope_reply :: "trace_selection \<Rightarrow> string \<Rightarrow> json" where
  "trace_scope_reply s ident =
     (let count = dec_json (length (tl_ranges s))
      in JObject [(''selection_id'', JString ident), (''selection_digest'', JString (tl_digest s)), (''selected_count'', count),
           (''module'', JString (tl_module s)), (''module_base'', JString (hex_word (tl_module_base s))),
           (''module_end'', JString (hex_word (tl_module_end s))),
           (''module_size'', JString (hex_word (tl_module_end s - tl_module_base s))),
           (''kinds'', strings_json (tl_kind_names s)), (''threads'', threads_json (tl_threads s)),
           (''thread_scope'', thread_scope (tl_threads s)),
           (''ranges'', trace_ranges_json (tl_ranges s) (tl_rva_ranges s)),
           (''next_call'', JObject [(''tool'', JString ''trace_record_start''), (''selection_id'', JString ident),
              (''expected_count'', count), (''selection_digest'', JString (tl_digest s))])])"

definition trace_scope_query :: "('a, 'd) hub_world \<Rightarrow> json_args \<Rightarrow> ('a, json) hub_action" where
  "trace_scope_query w args =
     hub_then (given (and_then (req args ''module'') bounded_module_name)) (\<lambda>requested.
     hub_then (ask_value w Ag_modules) (\<lambda>modules.
     hub_then (given (find_module requested modules)) (\<lambda>extent.
     hub_then (given (scope_kinds args)) (\<lambda>kind_map.
     hub_then (given (scope_threads args)) (\<lambda>threads.
     hub_then (if threads = [] then done_with ()
               else hub_then (ask_value w Ag_threads) (\<lambda>live. given (check_live threads live))) (\<lambda>_.
     hub_then (given (scope_ranges (me_end extent - me_base extent) args)) (\<lambda>rva_ranges.
     hub_then (given (absolute_ranges (me_base extent) rva_ranges)) (\<lambda>ranges.
       let selection = \<lparr>tl_module = me_name extent, tl_module_base = me_base extent, tl_module_end = me_end extent,
              tl_ranges = ranges, tl_rva_ranges = rva_ranges, tl_kinds = map fst kind_map, tl_kind_names = map snd kind_map,
              tl_threads = threads,
              tl_digest = trace_scope_digest (me_name extent) ranges (map fst kind_map) threads\<rparr>
       in hub_then (add_trace_selection selection) (\<lambda>ident. done_with (trace_scope_reply selection ident))))))))))"

subsection \<open>Recording\<close>

definition confirm_trace :: "json_args \<Rightarrow> (string \<times> trace_selection) list \<Rightarrow> hub_error + (string \<times> trace_selection)" where
  "confirm_trace args selections =
     and_then (req args ''selection_id'') (\<lambda>ident.
     and_then (req args ''expected_count'') (\<lambda>count_text.
     and_then (case parse_unsigned 10 (2 ^ 64) count_text of
                 None \<Rightarrow> Inl (Validation ''expected_count must be decimal'') | Some n \<Rightarrow> Inr n) (\<lambda>expected_count.
     and_then (req args ''selection_digest'') (\<lambda>expected_digest.
       case map_of selections ident of
         None \<Rightarrow> Inl (Validation ''Trace scope selection is unknown or expired; query it again'')
       | Some s \<Rightarrow>
           if expected_count \<noteq> length (tl_ranges s) \<or> expected_digest \<noteq> tl_digest s
           then Inl (Validation (''Trace scope confirmation mismatch: current count='' @ show_nat (length (tl_ranges s))
                      @ '' digest='' @ tl_digest s))
           else Inr (ident, s)))))"

definition extend_trace_result :: "('a, 'd) hub_world \<Rightarrow> trace_session \<Rightarrow> json \<Rightarrow> json" where
  "extend_trace_result w session v =
     (let s = ts_selection session; file' = hw_file_bytes w (ts_path session)
      in json_set_all ([(''selection_id'', JString (ts_selection_id session)), (''selection_digest'', JString (tl_digest s)),
           (''module'', JString (tl_module s)), (''module_base'', JString (hex_word (tl_module_base s))),
           (''module_end'', JString (hex_word (tl_module_end s))), (''kinds'', strings_json (tl_kind_names s)),
           (''threads'', threads_json (tl_threads s)), (''thread_scope'', thread_scope (tl_threads s)),
           (''ranges'', trace_ranges_json (tl_ranges s) (tl_rva_ranges s)), (''path'', JString (ts_path session)),
           (''file_exists'', JBool (file' \<noteq> None)),
           (''file_bytes'', dec_json (case file' of None \<Rightarrow> 0 | Some n \<Rightarrow> n))]
          @ optional_member ''local_index'' (ts_local_index session)) v)"

definition trace_record_start :: "('a, 'd) hub_world \<Rightarrow> json_args \<Rightarrow> ('a, json) hub_action" where
  "trace_record_start w args =
     hub_then (hub_get hb_trace_selections) (\<lambda>selections.
     hub_then (given (confirm_trace args selections)) (\<lambda>(ident, s).
     hub_then (given (safe_trace_filename (string_or args ''filename'' ''trace.pbtr''))) (\<lambda>filename.
     hub_then (given (hw_trace_path w filename)) (\<lambda>path.
     hub_then (ask_value w (Ag_trace_start_spec (tl_kinds s) (tl_ranges s) (tl_threads s) path)) (\<lambda>v h.
       let session = \<lparr>ts_selection_id = ident, ts_selection = s, ts_path = path, ts_active = True, ts_recorded = 0,
              ts_dropped = 0, ts_local_index = None\<rparr>
       in (Inr (extend_trace_result w session v), h\<lparr>hb_trace_session := Some session\<rparr>))))))"

definition trace_record_status :: "('a, 'd) hub_world \<Rightarrow> ('a, json) hub_action" where
  "trace_record_status w =
     hub_then (hub_get hb_trace_session) (\<lambda>session.
       case session of
         None \<Rightarrow> ask_value w Ag_trace_status
       | Some s \<Rightarrow>
           if \<not> ts_active s
           then done_with (extend_trace_result w s
                  (JObject [(''state'', JString ''complete''), (''active'', JBool False),
                     (''recorded'', JString (show_word (ts_recorded s))), (''dropped'', JString (show_word (ts_dropped s)))]))
           else hub_then (ask_value w Ag_trace_status) (\<lambda>v. done_with (extend_trace_result w s v)))"

definition counter_in :: "string \<Rightarrow> json \<Rightarrow> u64" where
  "counter_in name v =
     (case Option.bind (get_str name v) (parse_unsigned 10 (2 ^ 64)) of None \<Rightarrow> 0 | Some n \<Rightarrow> word_of_nat n)"

definition trace_record_stop :: "('a, 'd) hub_world \<Rightarrow> ('a, json) hub_action" where
  "trace_record_stop w =
     hub_then (ask_value w Ag_trace_stop) (\<lambda>v h.
       case hb_trace_session h of
         None \<Rightarrow> (Inr v, h)
       | Some s \<Rightarrow>
           let s = s\<lparr>ts_active := False, ts_recorded := counter_in ''recorded'' v, ts_dropped := counter_in ''dropped'' v\<rparr>;
               v = extend_trace_result w s v
           in case trace_prepare (hw_database_bytes w (ts_path s)) (hw_database w (ts_path s)) of
                Inr index \<Rightarrow>
                  (Inr (json_set ''local_index'' index v), h\<lparr>hb_trace_session := Some (s\<lparr>ts_local_index := Some index\<rparr>)\<rparr>)
              | Inl e \<Rightarrow>
                  (Inr (json_set_all [(''index_state'', JString ''failed''), (''index_error'', JString (error_text e))] v),
                   h\<lparr>hb_trace_session := Some s\<rparr>))"

definition finished_trace :: "string \<Rightarrow> trace_session option \<Rightarrow> hub_error + trace_session" where
  "finished_trace still_active session =
     (case session of
        None \<Rightarrow> Inl (Validation ''no Trace artifact exists in the current target session'')
      | Some s \<Rightarrow> if ts_active s then Inl (Validation still_active) else Inr s)"

definition hub_trace_index_query :: "('a, 'd) hub_world \<Rightarrow> json_args \<Rightarrow> ('a, json) hub_action" where
  "hub_trace_index_query w args =
     hub_then (hub_get hb_trace_session) (\<lambda>session.
     hub_then (given (finished_trace ''stop the Trace before reading its local database'' session)) (\<lambda>s.
       given (map_sum id fst (trace_query (hw_parse w) (hw_store w) (hw_database w (ts_path s)) (ts_path s) args))))"

definition hub_trace_index_export :: "('a, 'd) hub_world \<Rightarrow> json_args \<Rightarrow> ('a, json) hub_action" where
  "hub_trace_index_export w args =
     hub_then (hub_get hb_trace_session) (\<lambda>session.
     hub_then (given (finished_trace ''stop the Trace before exporting its local database'' session)) (\<lambda>s.
       given (trace_export (hw_parse w) (hw_text w) (hw_pretty w) (hw_write_trace_export w) (hw_store w)
                (hw_database w (ts_path s)) (ts_path s) args)))"

subsection \<open>The scope of the system-call filter\<close>

definition resolve_syscall_scope :: "('a, 'd) hub_world \<Rightarrow> json_args \<Rightarrow> bool \<Rightarrow> u32 list \<Rightarrow> ('a, syscall_config) hub_action" where
  "resolve_syscall_scope w args enabled numbers =
     (let scope = to_lower (trim (string_or args ''scope'' ''all''));
          whole = syscall_config_default\<lparr>sy_enabled := enabled, sy_numbers := numbers, sy_scope := scope\<rparr>
      in if scope = ''all'' then done_with whole
         else if scope \<notin> {''module'', ''rva''} then fail_with (Validation ''syscall scope must be all, module, or rva'')
         else
         hub_then (given (and_then (req args ''module'') bounded_module_name)) (\<lambda>requested.
         hub_then (ask_value w Ag_modules) (\<lambda>modules.
         hub_then (given (find_module requested modules)) (\<lambda>extent.
           let base = me_base extent; module_size = me_end extent - me_base extent;
               inside = whole\<lparr>sy_module := Some (me_name extent), sy_module_base := base, sy_module_end := me_end extent\<rparr>
           in if scope = ''module''
              then done_with (inside\<lparr>sy_rva_end := module_size, sy_scope_start := base, sy_scope_end := me_end extent\<rparr>)
              else
              hub_then (given (and_then (req args ''rva_begin'') hub_parse_u64)) (\<lambda>rva_begin.
              hub_then (given (and_then (req args ''rva_end'') hub_parse_u64)) (\<lambda>rva_end.
                if rva_end \<le> rva_begin then fail_with (Validation ''syscall RVA end must be greater than RVA begin'')
                else if rva_end > module_size
                then fail_with (Validation (''syscall RVA range exceeds module size '' @ hex_word module_size))
                else
                hub_then (given (rva_address base rva_begin ''syscall RVA begin overflows'')) (\<lambda>scope_start.
                hub_then (given (rva_address base rva_end ''syscall RVA end overflows'')) (\<lambda>scope_end.
                  done_with (inside\<lparr>sy_rva_begin := rva_begin, sy_rva_end := rva_end, sy_scope_start := scope_start,
                    sy_scope_end := scope_end\<rparr>)))))))))"

fun collect_numbers_u32 :: "json list \<Rightarrow> u32 list \<Rightarrow> hub_error + u32 list" where
  "collect_numbers_u32 [] numbers = Inr numbers"
| "collect_numbers_u32 (v # vs) numbers =
     and_then (parse_value_u64 v) (\<lambda>n.
       if n > 0xfff then Inl (Validation ''syscall number must be in the native 0x000..0xfff range'')
       else collect_numbers_u32 vs (os_insert (ucast n) numbers))"

definition enabled_flag :: "json_args \<Rightarrow> hub_error + bool" where
  "enabled_flag args =
     (case Option.bind (map_of args ''enabled'') json_as_bool of
        None \<Rightarrow> Inl (Validation ''enabled must be boolean'') | Some b \<Rightarrow> Inr b)"

definition syscall_numbers :: "json_args \<Rightarrow> hub_error + u32 list" where
  "syscall_numbers args =
     (case Option.bind (map_of args ''numbers'') json_as_array of
        None \<Rightarrow> Inl (Validation ''numbers must be an array'')
      | Some vs \<Rightarrow>
          if length vs > 4096 then Inl (Validation ''syscall number selection exceeds 4096 entries'')
          else collect_numbers_u32 vs [])"

definition hub_syscall_config_set :: "('a, 'd) hub_world \<Rightarrow> json_args \<Rightarrow> ('a, json) hub_action" where
  "hub_syscall_config_set w args =
     hub_then (given (enabled_flag args)) (\<lambda>enabled.
     hub_then (given (syscall_numbers args)) (\<lambda>numbers.
     hub_then (resolve_syscall_scope w args enabled numbers) (\<lambda>c.
     hub_then (ask_value w (Ag_syscall_config_set enabled numbers (sy_scope_start c) (sy_scope_end c))) (\<lambda>v h.
       (Inr (json_set_all (syscall_config_members c) v), h\<lparr>hb_syscall_config := c\<rparr>)))))"

subsection \<open>Hook targets\<close>

fun collect_targets :: "string \<Rightarrow> json list \<Rightarrow> (u64 \<times> string) list \<Rightarrow> nat \<Rightarrow> hub_error + ((u64 \<times> string) list \<times> nat)" where
  "collect_targets pattern [] targets matched = Inr (targets, matched)"
| "collect_targets pattern (row # rows) targets matched =
     (case get_str ''name'' row of
        None \<Rightarrow> collect_targets pattern rows targets matched
      | Some name \<Rightarrow>
          if wildcard_match pattern name \<noteq> Some True then collect_targets pattern rows targets matched
          else
            (case json_get ''address'' row of
               None \<Rightarrow> collect_targets pattern rows targets (Suc matched)
             | Some v \<Rightarrow>
                 and_then (parse_value_u64 v) (\<lambda>address.
                   collect_targets pattern rows
                     (if address \<noteq> 0 \<and> map_of targets address = None then om_insert address name targets else targets)
                     (Suc matched))))"

definition add_hook_selection :: "hook_selection \<Rightarrow> ('a, string) hub_action" where
  "add_hook_selection selection h =
     (let ident = selection_id ''hooksel-'' (hb_next_hook_selection h)
      in (Inr ident, h\<lparr>hb_next_hook_selection := hb_next_hook_selection h + 1,
                       hb_hook_selections := keep_selection ident selection (hb_hook_selections h)\<rparr>))"

definition hook_targets_reply :: "hook_selection \<Rightarrow> string \<Rightarrow> string \<Rightarrow> nat \<Rightarrow> nat \<Rightarrow> json" where
  "hook_targets_reply s ident pattern offset limit =
     (let targets = hl_targets s; start = min offset (length targets); end' = min (start + limit) (length targets);
          preview = map (\<lambda>(address, name). JObject [(''address'', JString (hex_word address)), (''name'', JString name)])
                      (take (end' - start) (drop start targets))
      in JObject [(''selection_id'', JString ident), (''selection_digest'', JString (hl_digest s)),
           (''module'', JString (hl_module s)), (''symbol_pattern'', JString pattern),
           (''export_count'', dec_json (hl_export_count s)), (''matched_export_count'', dec_json (hl_matched_count s)),
           (''selected_count'', dec_json (length targets)),
           (''deduplicated_aliases'', dec_json (hl_matched_count s - length targets)), (''offset'', dec_json start),
           (''returned'', dec_json (length preview)), (''truncated'', JBool (end' < length targets)), (''targets'', JArray preview),
           (''next_call'', JObject [(''tool'', JString ''hook_monitor_apply''), (''selection_id'', JString ident),
              (''expected_count'', dec_json (length targets)), (''selection_digest'', JString (hl_digest s)),
              (''mode'', JString ''monitor'')])])"

text \<open>The page of the preview is checked after the selection was made.\<close>

definition hook_targets_query :: "('a, 'd) hub_world \<Rightarrow> json_args \<Rightarrow> ('a, json) hub_action" where
  "hook_targets_query w args =
     hub_then (given (and_then (req args ''module'') bounded_module_name)) (\<lambda>requested.
     let module = module_key requested; pattern = trim (string_or args ''symbol_pattern'' ''*'')
     in if pattern = [] \<or> length pattern > 512 then fail_with (Validation ''symbol_pattern must contain 1..512 bytes'')
        else
        hub_then (ask_value w (Ag_module_exports module)) (\<lambda>exports.
        case Option.bind (json_get ''exports'' exports) json_as_array of
          None \<Rightarrow> fail_with (Agent ''Agent returned an invalid export list'')
        | Some rows \<Rightarrow>
            hub_then (given (collect_targets pattern rows [] 0)) (\<lambda>(targets, matched).
            let selection = \<lparr>hl_module = module, hl_digest = hook_target_digest module targets, hl_targets = targets,
                   hl_export_count = length rows, hl_matched_count = matched\<rparr>
            in hub_then (add_hook_selection selection) (\<lambda>ident.
               hub_then (given (parse_page_value args ''offset'' 0 32768)) (\<lambda>offset.
               hub_then (given (parse_page_value args ''limit'' 256 4096)) (\<lambda>limit.
                 if limit = 0 then fail_with (Validation ''Hook target preview limit must be 1..4096'')
                 else done_with (hook_targets_reply selection ident pattern offset limit)))))))"

definition confirm_targets :: "json_args \<Rightarrow> (string \<times> hook_selection) list \<Rightarrow> hub_error + (string \<times> hook_selection)" where
  "confirm_targets args selections =
     and_then (req args ''selection_id'') (\<lambda>ident.
     and_then (req args ''expected_count'') (\<lambda>count_text.
     and_then (case parse_unsigned 10 (2 ^ 64) count_text of
                 None \<Rightarrow> Inl (Validation ''expected_count must be decimal'') | Some n \<Rightarrow> Inr n) (\<lambda>expected_count.
     and_then (req args ''selection_digest'') (\<lambda>expected_digest.
       if string_or args ''mode'' ''monitor'' \<noteq> ''monitor''
       then Inl (Validation ''the first explicit Hook application mode is monitor'')
       else case map_of selections ident of
              None \<Rightarrow> Inl (Validation ''Hook target selection is unknown or expired; query it again'')
            | Some s \<Rightarrow>
                if expected_count \<noteq> length (hl_targets s) \<or> expected_digest \<noteq> hl_digest s
                then Inl (Validation (''Hook target confirmation mismatch: current count='' @ show_nat (length (hl_targets s))
                           @ '' digest='' @ hl_digest s))
                else Inr (ident, s)))))"

definition hook_monitor_apply :: "('a, 'd) hub_world \<Rightarrow> caller \<Rightarrow> json_args \<Rightarrow> ('a, json) hub_action" where
  "hook_monitor_apply w caller args =
     hub_then (hub_get hb_hook_selections) (\<lambda>selections.
     hub_then (given (confirm_targets args selections)) (\<lambda>(ident, s).
     hub_then (ask_value w (Ag_hook_targets_apply (hl_module s) (hl_targets s))) (\<lambda>v h.
       (Inr (json_set_all [(''selection_id'', JString ident), (''selection_digest'', JString (hl_digest s)),
              (''selected_count'', dec_json (length (hl_targets s))), (''export_count'', dec_json (hl_export_count s)),
              (''matched_export_count'', dec_json (hl_matched_count s)), (''mode'', JString ''monitor'')] v),
        h\<lparr>hb_hook_owners := fold (\<lambda>(address, _). add_owner (actor_name caller) address) (hl_targets s) (hb_hook_owners h),
          hb_module_owners := add_owner (actor_name caller) (hl_module s) (hb_module_owners h)\<rparr>))))"

end
