(* ===== verification/Pb_Hub_Descriptions.thy ===== *)
theory Pb_Hub_Descriptions
  imports Pb_Hub_Arguments
begin

section \<open>Descriptions in scripts of the AI (service.rs)\<close>

text \<open>
  \<open>validate_ai_breakpoint_descriptions\<close> of \<open>bindings/rust/pinbridge-hub-core/src/service.rs\<close>: the source is masked
  (comments and strings become spaces), then the direct calls of \<open>pb.breakpoint\<close> and \<open>pb.intercept\<close> are
  searched from left to right and must carry a literal \<open>description=\<close>.
\<close>

datatype mask_mode = In_code | In_comment | In_quote char bool

definition is_triple :: "char \<Rightarrow> string \<Rightarrow> bool" where "is_triple q s \<longleftrightarrow> take 3 s = [q, q, q]"

definition blanks :: "nat \<Rightarrow> string" where "blanks n = replicate n CHR '' ''"

definition is_newline :: "char \<Rightarrow> bool" where "is_newline c \<longleftrightarrow> c = CHR 0x0A \<or> c = CHR 0x0D"

definition is_quote :: "char \<Rightarrow> bool" where "is_quote c \<longleftrightarrow> c = CHR 0x27 \<or> c = CHR 0x22"

text \<open>One step: what is written for how many bytes, and the mode after them.\<close>

definition mask_step :: "mask_mode \<Rightarrow> char \<Rightarrow> string \<Rightarrow> string \<times> mask_mode" where
  "mask_step mode c s =
     (case mode of
        In_comment \<Rightarrow> if is_newline c then ([c], In_code) else (blanks 1, In_comment)
      | In_quote q triple \<Rightarrow>
          if c = CHR 0x5C then (blanks (min 2 (length s)), mode)
          else if triple \<and> c = q \<and> is_triple q s then (blanks 3, In_code)
          else if \<not> triple \<and> c = q then (blanks 1, In_code)
          else (blanks 1, mode)
      | In_code \<Rightarrow>
          if c = CHR ''#'' then (blanks 1, In_comment)
          else if is_quote c then (if is_triple c s then (blanks 3, In_quote c True) else (blanks 1, In_quote c False))
          else ([c], In_code))"

lemma mask_step_length: "s = c # rest \<Longrightarrow> 0 < length (fst (mask_step mode c s))"
  by (auto simp: mask_step_def blanks_def split: mask_mode.splits)

function mask_from :: "mask_mode \<Rightarrow> string \<Rightarrow> string" where
  "mask_from mode [] = []"
| "mask_from mode (c # s) =
     (case mask_step mode c (c # s) of (out, mode) \<Rightarrow> out @ mask_from mode (drop (length out) (c # s)))"
  by pat_completeness auto
termination
  apply (relation "measure (\<lambda>(_, s). length s)")
   apply simp
  subgoal for mode c s out
    using mask_step_length [of "c # s" c s mode] by (cases out; cases "mask_step mode c (c # s)") auto
  done

definition mask_python :: "string \<Rightarrow> string" where "mask_python source = mask_from In_code source"

definition word_at :: "string \<Rightarrow> nat \<Rightarrow> string \<Rightarrow> bool" where
  "word_at code index word \<longleftrightarrow> take (length word) (drop index code) = word
     \<and> (index = 0 \<or> \<not> is_word_char (code ! (index - 1)))
     \<and> (index + length word < length code \<longrightarrow> \<not> is_word_char (code ! (index + length word)))"

definition is_ascii_whitespace :: "char \<Rightarrow> bool" where "is_ascii_whitespace c \<longleftrightarrow> char_code c \<in> {32, 9, 10, 12, 13}"

definition skip_space :: "string \<Rightarrow> nat \<Rightarrow> nat" where
  "skip_space code index = index + length (takeWhile is_ascii_whitespace (drop index code))"

definition char_is :: "string \<Rightarrow> nat \<Rightarrow> char \<Rightarrow> bool" where
  "char_is code i c \<longleftrightarrow> i < length code \<and> code ! i = c"

text \<open>The parenthesis of a call \<open>pb.callee(\<close> whose \<open>pb\<close> stands at \<open>index\<close>.\<close>

definition call_at :: "string \<Rightarrow> string \<Rightarrow> nat \<Rightarrow> nat option" where
  "call_at code callee index =
     (if \<not> word_at code index ''pb'' then None
      else let dot = skip_space code (index + 2)
           in if \<not> char_is code dot CHR ''.'' then None
              else let name = skip_space code (dot + 1)
                   in if \<not> word_at code name callee then None
                      else let open' = skip_space code (name + length callee)
                           in if char_is code open' CHR ''('' then Some open' else None)"

function find_direct_pb_call :: "string \<Rightarrow> nat \<Rightarrow> string \<Rightarrow> nat option" where
  "find_direct_pb_call code index callee =
     (if index + 2 > length code then None
      else case call_at code callee index of
             Some open' \<Rightarrow> Some open' | None \<Rightarrow> find_direct_pb_call code (index + 1) callee)"
  by pat_completeness auto
termination by (relation "measure (\<lambda>(code, index, _). length code - index)") auto

declare find_direct_pb_call.simps [simp del]

fun match_parenthesis :: "string \<Rightarrow> nat \<Rightarrow> nat \<Rightarrow> nat option" where
  "match_parenthesis [] offset depth = None"
| "match_parenthesis (c # s) offset depth =
     (if c = CHR ''('' then match_parenthesis s (Suc offset) (Suc depth)
      else if c = CHR '')''
      then if depth = 0 then None else if depth = 1 then Some offset else match_parenthesis s (Suc offset) (depth - 1)
      else match_parenthesis s (Suc offset) depth)"

definition find_matching_parenthesis :: "string \<Rightarrow> nat \<Rightarrow> nat option" where
  "find_matching_parenthesis code open' = match_parenthesis (drop open' code) open' 0"

definition keyword_equals :: "string \<Rightarrow> nat \<Rightarrow> string \<Rightarrow> nat option" where
  "keyword_equals arguments index keyword =
     (if \<not> word_at arguments index keyword then None
      else let equals = skip_space arguments (index + length keyword)
           in if char_is arguments equals CHR ''='' \<and> \<not> char_is arguments (equals + 1) CHR ''='' then Some equals else None)"

function keyword_from :: "string \<Rightarrow> string \<Rightarrow> nat \<Rightarrow> nat \<Rightarrow> nat \<Rightarrow> nat \<Rightarrow> nat option" where
  "keyword_from arguments keyword index round square curly =
     (if index \<ge> length arguments then None
      else let c = arguments ! index; next' = keyword_from arguments keyword (Suc index)
           in if c = CHR ''('' then next' (Suc round) square curly
              else if c = CHR '')'' then next' (round - 1) square curly
              else if c = CHR ''['' then next' round (Suc square) curly
              else if c = CHR '']'' then next' round (square - 1) curly
              else if c = CHR ''{'' then next' round square (Suc curly)
              else if c = CHR ''}'' then next' round square (curly - 1)
              else if round = 0 \<and> square = 0 \<and> curly = 0 \<and> keyword_equals arguments index keyword \<noteq> None
              then keyword_equals arguments index keyword
              else next' round square curly)"
  by pat_completeness auto
termination by (relation "measure (\<lambda>(arguments, _, index, _). length arguments - index)") auto

declare keyword_from.simps [simp del]

definition find_top_level_keyword :: "string \<Rightarrow> string \<Rightarrow> nat option" where
  "find_top_level_keyword arguments keyword = keyword_from arguments keyword 0 0 0 0"

definition is_ascii_control :: "char \<Rightarrow> bool" where "is_ascii_control c \<longleftrightarrow> char_code c < 32 \<or> char_code c = 127"

text \<open>The rest of a literal after its quote.\<close>

fun literal_from :: "char \<Rightarrow> string \<Rightarrow> nat \<Rightarrow> bool \<Rightarrow> bool" where
  "literal_from q [] seen visible = False"
| "literal_from q (c # s) seen visible =
     (if c = CHR 0x5C then False
      else if c = q then visible \<and> seen \<le> 512
      else if is_ascii_control c then False
      else literal_from q s (Suc seen) (visible \<or> \<not> is_ascii_whitespace c))"

definition nonempty_literal :: "string \<Rightarrow> nat \<Rightarrow> bool" where
  "nonempty_literal source after_equals =
     (case drop (skip_space source after_equals) source of
        [] \<Rightarrow> False
      | q # s \<Rightarrow> is_quote q \<and> \<not> is_triple q (q # s) \<and> literal_from q s 0 False)"

text \<open>A call whose parentheses are \<open>open'\<close> and \<open>close\<close> has its description.\<close>

definition documented :: "string \<Rightarrow> nat \<Rightarrow> nat \<Rightarrow> bool" where
  "documented source open' close \<longleftrightarrow>
     (case find_top_level_keyword (take (close - (open' + 1)) (drop (open' + 1) (mask_python source))) ''description'' of
        None \<Rightarrow> False | Some equals \<Rightarrow> nonempty_literal source (open' + 1 + equals + 1))"

definition description_message :: "nat \<Rightarrow> string \<Rightarrow> string" where
  "description_message n callee = ''MCP callback #'' @ show_nat n @ '' pb.'' @ callee @
     '' must include a non-empty literal description=; explain why it exists, which filter it uses, and what it may change''"

lemma match_parenthesis_bounds: "match_parenthesis s offset depth = Some close \<Longrightarrow> offset \<le> close \<and> close < offset + length s"
  by (induction s offset depth rule: match_parenthesis.induct) (fastforce split: if_splits)+

lemma matching_bounds: "find_matching_parenthesis code open' = Some close \<Longrightarrow> open' \<le> close \<and> close < length code"
  using match_parenthesis_bounds [of "drop open' code" open' 0 close] by (auto simp: find_matching_parenthesis_def)

lemma call_at_bounds: "call_at code callee index = Some open' \<Longrightarrow> index + 2 \<le> open' \<and> open' < length code"
  by (auto simp: call_at_def Let_def char_is_def skip_space_def split: if_splits)

lemma find_direct_bounds: "find_direct_pb_call code index callee = Some open' \<Longrightarrow> index + 2 \<le> open' \<and> open' < length code"
proof (induction code index callee rule: find_direct_pb_call.induct)
  case (1 code index callee)
  then show ?case using call_at_bounds [of code callee index]
    by (subst (asm) (2) find_direct_pb_call.simps) (fastforce split: if_splits option.splits)
qed

function check_calls :: "string \<Rightarrow> string \<Rightarrow> nat \<Rightarrow> nat \<Rightarrow> hub_error + nat" where
  "check_calls source callee cursor seen =
     (let code = mask_python source
      in case find_direct_pb_call code cursor callee of
           None \<Rightarrow> Inr seen
         | Some open' \<Rightarrow>
             (case find_matching_parenthesis code open' of
                None \<Rightarrow> Inr (Suc seen)
              | Some close \<Rightarrow>
                  if \<not> documented source open' close then Inl (Validation (description_message (Suc seen) callee))
                  else check_calls source callee (close + 1) (Suc seen)))"
  by pat_completeness auto
termination
  by (relation "measure (\<lambda>(source, _, cursor, _). length (mask_python source) - cursor)")
    (auto dest!: find_direct_bounds matching_bounds)

declare check_calls.simps [simp del]

definition validate_ai_descriptions :: "string \<Rightarrow> hub_error + unit" where
  "validate_ai_descriptions source =
     and_then (check_calls source ''breakpoint'' 0 0) (\<lambda>seen.
     and_then (check_calls source ''intercept'' 0 seen) (\<lambda>_. Inr ()))"

subsection \<open>What the check enforces\<close>

text \<open>A call that begins before \<open>i\<close> and whose parentheses hold \<open>i\<close>, or never close.\<close>

definition inside_call :: "string \<Rightarrow> string \<Rightarrow> nat \<Rightarrow> bool" where
  "inside_call code callee i \<longleftrightarrow>
     (\<exists>j < i. \<exists>open'. call_at code callee j = Some open'
        \<and> (case find_matching_parenthesis code open' of None \<Rightarrow> True | Some close \<Rightarrow> i \<le> close))"

lemma find_direct_first:
  assumes "call_at code callee i = Some open'" "index \<le> i"
  shows "\<exists>j open''. index \<le> j \<and> j \<le> i \<and> call_at code callee j = Some open'' \<and> find_direct_pb_call code index callee = Some open''"
  using assms
proof (induction code index callee rule: find_direct_pb_call.induct)
  case (1 code index callee)
  have "index + 2 \<le> length code" using call_at_bounds [OF 1(2)] 1(3) by simp
  then have unfold: "find_direct_pb_call code index callee =
      (case call_at code callee index of Some open' \<Rightarrow> Some open' | None \<Rightarrow> find_direct_pb_call code (index + 1) callee)"
    by (subst find_direct_pb_call.simps) simp
  show ?case
  proof (cases "call_at code callee index")
    case None
    then have "index \<noteq> i" using 1(2) by auto
    then have "index + 1 \<le> i" using 1(3) by simp
    moreover have "\<not> length code < index + 2" using \<open>index + 2 \<le> length code\<close> by simp
    ultimately obtain j open'' where "index + 1 \<le> j" "j \<le> i" "call_at code callee j = Some open''"
        "find_direct_pb_call code (index + 1) callee = Some open''"
      using 1(1) [OF _ None 1(2)] by blast
    then show ?thesis using unfold None by (intro exI [of _ j] exI [of _ open'']) simp
  next
    case (Some open'')
    then show ?thesis using unfold 1(3) by (intro exI [of _ index] exI [of _ open'']) simp
  qed
qed

lemma check_calls_enforced:
  assumes "check_calls source callee cursor seen = Inr n" "cursor \<le> i"
    "call_at (mask_python source) callee i = Some open'"
    "find_matching_parenthesis (mask_python source) open' = Some close"
  shows "documented source open' close \<or> inside_call (mask_python source) callee i"
  using assms
proof (induction source callee cursor seen rule: check_calls.induct)
  case (1 source callee cursor seen)
  let ?code = "mask_python source"
  obtain j open'' where j: "cursor \<le> j" "j \<le> i" "call_at ?code callee j = Some open''"
      "find_direct_pb_call ?code cursor callee = Some open''"
    using find_direct_first [OF 1(4,3)] by blast
  show ?case
  proof (cases "find_matching_parenthesis ?code open''")
    case None
    then have "j \<noteq> i" using j(3) 1(4,5) by auto
    then have "j < i" using j(2) by simp
    then show ?thesis using j(3) None unfolding inside_call_def by (intro disjI2 exI [of _ j]) simp
  next
    case (Some close')
    then have rest: "documented source open'' close'" "check_calls source callee (close' + 1) (Suc seen) = Inr n"
      using 1(2) j(4) by (auto simp: check_calls.simps [of source callee cursor seen] Let_def split: if_splits)
    consider "j = i" | "j < i" "i \<le> close'" | "close' < i" using j(2) by linarith
    then show ?thesis
    proof cases
      case 1
      then show ?thesis using j(3) Some rest(1) \<open>call_at ?code callee i = Some open'\<close>
          \<open>find_matching_parenthesis ?code open' = Some close\<close> by simp
    next
      case 2
      then show ?thesis using j(3) Some by (auto simp: inside_call_def)
    next
      case 3
      then show ?thesis
        using "1.IH" [OF refl j(4) Some _ rest(2)] rest(1) 1(4,5) by simp
    qed
  qed
qed

text \<open>
  Those calls inside another are never looked at: a nested call without a description is accepted. The
  keyword is searched as a word, so the default of a lambda's parameter passes for it.
\<close>

lemma descriptions_bypassed:
  "validate_ai_descriptions (''pb.breakpoint(1, pb.breakpoint(2), description='' @ [CHR 0x22, CHR ''a'', CHR 0x22] @ '')'') = Inr ()
   \<and> validate_ai_descriptions (''pb.breakpoint(1, lambda description='' @ [CHR 0x22, CHR ''a'', CHR 0x22] @ '': 0)'') = Inr ()
   \<and> validate_ai_descriptions ''pb . breakpoint(2)'' \<noteq> Inr ()"
proof (intro conjI)
  show "validate_ai_descriptions (''pb.breakpoint(1, pb.breakpoint(2), description='' @ [CHR 0x22, CHR ''a'', CHR 0x22] @ '')'') = Inr ()"
    by code_simp
  show "validate_ai_descriptions (''pb.breakpoint(1, lambda description='' @ [CHR 0x22, CHR ''a'', CHR 0x22] @ '': 0)'') = Inr ()"
    by code_simp
  show "validate_ai_descriptions ''pb . breakpoint(2)'' \<noteq> Inr ()" by code_simp
qed



end
