(* ===== verification/Pb_Hub_Dispatch.thy ===== *)
theory Pb_Hub_Dispatch
  imports Pb_Hub_Trace Pb_Hub_Index Pb_Hub_Descriptions
begin

section \<open>The tools of the hub (service.rs)\<close>

text \<open>
  \<open>dispatch_guarded\<close> and \<open>call\<close> of \<open>bindings/rust/pinbridge-hub-core/src/service.rs\<close>: one definition per arm of
  the match, the permission check, and the journal around every call. Between the threads of the hub a call that
  writes runs under the gate of the previous theories, so here it is one step.
\<close>

subsection \<open>Session and target\<close>

definition optional_str :: "string \<Rightarrow> string option \<Rightarrow> (string \<times> json) list" where
  "optional_str name v = optional_member name (map_option JString v)"

definition session_json :: "session_status \<Rightarrow> json" where
  "session_json s = JObject ([(''connected'', JBool (se_connected s)), (''agent_port'', JString (se_agent_port s))]
     @ optional_str ''pid'' (se_pid s) @ optional_str ''target'' (se_target s))"

fun mode_name :: "control_mode \<Rightarrow> string" where
  "mode_name Manual = ''manual''"
| "mode_name Ai_read_only = ''ai_read_only''"
| "mode_name Ai_assist = ''ai_assist''"
| "mode_name Ai_autonomous = ''ai_autonomous''"
| "mode_name Automation_paused = ''automation_paused''"

definition control_json :: "control_status \<Rightarrow> json" where
  "control_json s = JObject ([(''mode'', JString (mode_name (cs_mode s))), (''can_ai_write'', JBool (cs_can_ai_write s))]
     @ optional_str ''previous_mode'' (map_option mode_name (cs_previous s)))"

definition tool_session_status :: "('a, 'd) hub_world \<Rightarrow> ('a, json) hub_action" where
  "tool_session_status w h =
     (case ask_value w Ag_status h of
        (Inr status, h) \<Rightarrow>
          let h = h\<lparr>hb_session := (hb_session h)\<lparr>se_connected := True\<rparr>\<rparr>
          in (Inr (JObject [(''session'', session_json (hb_session h)), (''agent'', status)]), h)
      | (Inl e, h) \<Rightarrow> (Inl e, h\<lparr>hb_session := (hb_session h)\<lparr>se_connected := False\<rparr>\<rparr>))"

definition tool_set_agent_port :: "('a, 'd) hub_world \<Rightarrow> caller \<Rightarrow> json_args \<Rightarrow> ('a, json) hub_action" where
  "tool_set_agent_port w caller args =
     (if \<not> trusted_human caller then fail_with (Permission ''agent port change requires trusted human'')
      else
      hub_then (given (and_then (req args ''agent_port'') hub_parse_u16)) (\<lambda>p h.
        (Inr (JObject [(''agent_port'', JString (show_word p)), (''connected'', JBool False)]),
         h\<lparr>hb_agent := ag_set_port (hw_api w) p (hb_agent h),
           hb_session := (hb_session h)\<lparr>se_agent_port := show_word p, se_connected := False\<rparr>\<rparr>)))"

definition tool_flag :: "('a, 'd) hub_world \<Rightarrow> agent_command \<Rightarrow> string \<Rightarrow> ('a, json) hub_action" where
  "tool_flag w command name = hub_then (hub_ask (ag_flag (hw_api w) command)) (\<lambda>b. done_with (JObject [(name, JBool b)]))"

definition arg_u64 :: "json_args \<Rightarrow> string \<Rightarrow> hub_error + u64" where
  "arg_u64 args name = and_then (req args name) hub_parse_u64"

definition arg_u32 :: "json_args \<Rightarrow> string \<Rightarrow> hub_error + u32" where
  "arg_u32 args name = and_then (req args name) hub_parse_u32"

definition tool_step :: "('a, 'd) hub_world \<Rightarrow> bool \<Rightarrow> json_args \<Rightarrow> ('a, json) hub_action" where
  "tool_step w over args = hub_then (given (arg_u32 args ''thread_id'')) (\<lambda>t. ask_value w (Ag_step t over))"

subsection \<open>Breakpoints, registers, memory\<close>

definition tool_breakpoint_set :: "('a, 'd) hub_world \<Rightarrow> caller \<Rightarrow> json_args \<Rightarrow> ('a, json) hub_action" where
  "tool_breakpoint_set w caller args =
     hub_then (given (arg_u64 args ''address'')) (\<lambda>address.
     hub_then (ask_value w (Ag_breakpoint_set address)) (\<lambda>v h.
       (Inr v, case breakpoint_id v of
                 None \<Rightarrow> h
               | Some ident \<Rightarrow>
                   h\<lparr>hb_breakpoint_owners := add_owner (actor_name caller) ident (hb_breakpoint_owners h)\<rparr>)))"

definition has_callbacks :: "u32 \<Rightarrow> json \<Rightarrow> bool" where
  "has_callbacks ident inventory \<longleftrightarrow>
     list_ex (\<lambda>row. breakpoint_id row = Some ident \<and> callback_count row > 0)
       (case Option.bind (json_get ''breakpoints'' inventory) json_as_array of None \<Rightarrow> [] | Some rows \<Rightarrow> rows)"

definition tool_breakpoint_remove :: "('a, 'd) hub_world \<Rightarrow> json_args \<Rightarrow> ('a, json) hub_action" where
  "tool_breakpoint_remove w args =
     hub_then (given (arg_u32 args ''id'')) (\<lambda>ident.
     hub_then (ask_value w Ag_breakpoint_inventory) (\<lambda>inventory.
       if has_callbacks ident inventory
       then fail_with (Validation ''breakpoint has callback bindings; remove or edit the owning script first'')
       else
       hub_then (ask_value w (Ag_breakpoint_remove ident)) (\<lambda>v h.
         (Inr v, h\<lparr>hb_breakpoint_owners := om_remove ident (hb_breakpoint_owners h)\<rparr>))))"

definition tool_registers_get :: "('a, 'd) hub_world \<Rightarrow> json_args \<Rightarrow> ('a, json) hub_action" where
  "tool_registers_get w args = hub_then (given (arg_u32 args ''thread_id'')) (\<lambda>t. ask_value w (Ag_registers_get t))"

definition tool_register_set :: "('a, 'd) hub_world \<Rightarrow> json_args \<Rightarrow> ('a, json) hub_action" where
  "tool_register_set w args =
     hub_then (given (arg_u32 args ''thread_id'')) (\<lambda>t.
     hub_then (given (req args ''register'')) (\<lambda>name.
     hub_then (hub_ask (ag_register_id (hw_api w) name)) (\<lambda>reg.
     hub_then (given (arg_u64 args ''value'')) (\<lambda>v. ask_value w (Ag_register_set t reg v)))))"

definition tool_memory_read :: "('a, 'd) hub_world \<Rightarrow> json_args \<Rightarrow> ('a, json) hub_action" where
  "tool_memory_read w args =
     hub_then (given (arg_u64 args ''address'')) (\<lambda>address.
     hub_then (given (arg_u64 args ''size'')) (\<lambda>size'. ask_value w (Ag_memory_read address size')))"

definition tool_memory_write :: "('a, 'd) hub_world \<Rightarrow> json_args \<Rightarrow> ('a, json) hub_action" where
  "tool_memory_write w args =
     hub_then (given (arg_u64 args ''address'')) (\<lambda>address.
     hub_then (given (and_then (req args ''data_hex'') parse_hex)) (\<lambda>data. ask_value w (Ag_memory_write address data)))"

definition tool_disassemble :: "('a, 'd) hub_world \<Rightarrow> json_args \<Rightarrow> ('a, json) hub_action" where
  "tool_disassemble w args =
     hub_then (given (arg_u64 args ''address'')) (\<lambda>address.
     hub_then (given (arg_u64 args ''count'')) (\<lambda>n. ask_value w (Ag_disassemble address n)))"

definition tool_module_exports :: "('a, 'd) hub_world \<Rightarrow> json_args \<Rightarrow> ('a, json) hub_action" where
  "tool_module_exports w args =
     hub_then (given (and_then (req args ''module'') bounded_module_name))
       (\<lambda>module. ask_value w (Ag_module_exports (module_key module)))"

definition tool_address_resolve :: "('a, 'd) hub_world \<Rightarrow> json_args \<Rightarrow> ('a, json) hub_action" where
  "tool_address_resolve w args =
     (case Option.bind (map_of args ''name'') json_as_str of
        Some n \<Rightarrow> ask_value w (Ag_resolve_name n)
      | None \<Rightarrow>
          (case Option.bind (map_of args ''addresses'') json_as_array of
             None \<Rightarrow> fail_with (Validation ''address_resolve requires addresses or name'')
           | Some vs \<Rightarrow> hub_then (given (parse_values vs)) (\<lambda>addresses. ask_value w (Ag_resolve addresses))))"

subsection \<open>Hooks\<close>

definition hook_address :: "json_args \<Rightarrow> hub_error + u64" where
  "hook_address args =
     and_then (arg_u64 args ''address'') (\<lambda>address.
       if address = 0 then Inl (Validation ''Hook address must be non-zero'') else Inr address)"

definition not_hooked :: "json \<Rightarrow> bool" where
  "not_hooked v \<longleftrightarrow> Option.bind (json_get ''hooked'' v) json_as_bool = Some False"

definition CAPACITY_FULL :: hub_error where "CAPACITY_FULL = Agent ''Hook capacity is full (32768 points)''"

definition own_hook :: "caller \<Rightarrow> u64 \<Rightarrow> 'a hub \<Rightarrow> 'a hub" where
  "own_hook caller address h = h\<lparr>hb_hook_owners := add_owner (actor_name caller) address (hb_hook_owners h)\<rparr>"

definition tool_hook_set :: "('a, 'd) hub_world \<Rightarrow> caller \<Rightarrow> json_args \<Rightarrow> ('a, json) hub_action" where
  "tool_hook_set w caller args =
     hub_then (given (hook_address args)) (\<lambda>address.
     hub_then (ask_value w (Ag_hook_set address)) (\<lambda>v h.
       if not_hooked v then (Inl CAPACITY_FULL, h) else (Inr v, own_hook caller address h)))"

definition remember_signature :: "u64 \<Rightarrow> hook_signature \<Rightarrow> 'a hub \<Rightarrow> 'a hub" where
  "remember_signature address s h = h\<lparr>hb_signatures := om_insert address s (hb_signatures h)\<rparr>"

definition tool_hook_function_set :: "('a, 'd) hub_world \<Rightarrow> caller \<Rightarrow> json_args \<Rightarrow> ('a, json) hub_action" where
  "tool_hook_function_set w caller args =
     hub_then (given (hook_address args)) (\<lambda>address.
     hub_then (given (parse_hook_signature args)) (\<lambda>s.
     hub_then (hub_ask (ag_unit (hw_api w) (Ag_signature_set address (capture_layout s)))) (\<lambda>_ h.
       let take_back = ask_ignored (ag_unit (hw_api w) (Ag_signature_remove address))
       in case ask_value w (Ag_hook_function_set address) h of
            (Inl e, h) \<Rightarrow> hub_then take_back (\<lambda>_. fail_with e) h
          | (Inr v, h) \<Rightarrow>
              if not_hooked v then hub_then take_back (\<lambda>_. fail_with CAPACITY_FULL) h
              else (case v of
                      JObject _ \<Rightarrow>
                        hub_then (target_pointer_width w)
                          (\<lambda>width. done_with (json_set_all [(''signature'', signature_json s width),
                             (''signature_status'', JString ''resolved'')] v))
                    | _ \<Rightarrow> done_with v) (own_hook caller address (remember_signature address s h)))))"

definition tool_hook_signature_set :: "('a, 'd) hub_world \<Rightarrow> json_args \<Rightarrow> ('a, json) hub_action" where
  "tool_hook_signature_set w args =
     hub_then (given (hook_address args)) (\<lambda>address.
     hub_then (given (parse_hook_signature args)) (\<lambda>s.
     hub_then (hub_ask (ag_unit (hw_api w) (Ag_signature_set address (capture_layout s)))) (\<lambda>_.
     hub_then (hub_modify (remember_signature address s)) (\<lambda>_.
     hub_then (target_pointer_width w) (\<lambda>width.
       done_with (JObject [(''address'', JString (hex_word address)), (''signature_status'', JString ''resolved''),
         (''signature'', signature_json s width)]))))))"

definition tool_hook_signature_remove :: "('a, 'd) hub_world \<Rightarrow> json_args \<Rightarrow> ('a, json) hub_action" where
  "tool_hook_signature_remove w args =
     hub_then (given (arg_u64 args ''address'')) (\<lambda>address.
     hub_then (hub_ask (ag_unit (hw_api w) (Ag_signature_remove address))) (\<lambda>_ h.
       (Inr (JObject [(''address'', JString (hex_word address)),
               (''signature_removed'', JBool (map_of (hb_signatures h) address \<noteq> None))]),
        h\<lparr>hb_signatures := om_remove address (hb_signatures h)\<rparr>)))"

definition tool_hook_remove :: "('a, 'd) hub_world \<Rightarrow> json_args \<Rightarrow> ('a, json) hub_action" where
  "tool_hook_remove w args =
     hub_then (given (arg_u64 args ''address'')) (\<lambda>address.
     hub_then (hub_ask (ag_callback_count (hw_api w) (Some address))) (\<lambda>n.
       if n \<noteq> 0
       then fail_with (Validation ''Hook has synchronous callback bindings; unload or edit the owning script first'')
       else
       hub_then (ask_value w (Ag_hook_remove address)) (\<lambda>v.
       hub_then (ask_ignored (ag_unit (hw_api w) (Ag_signature_remove address))) (\<lambda>_ h.
         (Inr v, h\<lparr>hb_signatures := om_remove address (hb_signatures h),
                   hb_hook_owners := om_remove address (hb_hook_owners h)\<rparr>)))))"

definition tool_hook_clear :: "('a, 'd) hub_world \<Rightarrow> ('a, json) hub_action" where
  "tool_hook_clear w =
     hub_then (hub_ask (ag_callback_count (hw_api w) None)) (\<lambda>n.
       if n \<noteq> 0
       then fail_with (Validation (''cannot clear Hooks while '' @ show_nat n @ '' synchronous callback bindings are active''))
       else
       hub_then (ask_value w Ag_hook_clear) (\<lambda>v h.
         (Inr v, h\<lparr>hb_hook_owners := [], hb_module_owners := [], hb_signatures := []\<rparr>)))"

definition inventory_kind :: "json_args \<Rightarrow> hub_error + bool option" where
  "inventory_kind args =
     (let kind = string_or args ''kind'' ''all''
      in if kind = ''all'' then Inr None else if kind = ''api'' then Inr (Some True)
         else if kind = ''instruction'' then Inr (Some False)
         else Inl (Validation ''Hook inventory kind must be all, api, or instruction''))"

definition tool_hook_inventory :: "('a, 'd) hub_world \<Rightarrow> json_args \<Rightarrow> ('a, json) hub_action" where
  "tool_hook_inventory w args =
     hub_then (given (parse_page_value args ''offset'' 0 32768)) (\<lambda>offset.
     hub_then (given (parse_page_value args ''limit'' 1000 4096)) (\<lambda>limit.
       if limit = 0 then fail_with (Validation ''Hook inventory limit must be 1..4096'')
       else hub_then (given (inventory_kind args)) (\<lambda>function_log. hub_hook_inventory w offset limit function_log)))"

definition tool_hook_monitor :: "('a, 'd) hub_world \<Rightarrow> json_args \<Rightarrow> ('a, json) hub_action" where
  "tool_hook_monitor w args =
     hub_then (given (limit_or args ''1024'' 4096 ''Hook monitor limit must be decimal'' ''Hook monitor limit must be 1..4096''))
       (\<lambda>limit.
     hub_then (given (decimal_or args ''before'' ''0'' ''Hook monitor before must be decimal'')) (\<lambda>before'.
       hub_hook_monitor w limit (word_of_nat before')))"

definition tool_hook_events :: "('a, 'd) hub_world \<Rightarrow> bool \<Rightarrow> json_args \<Rightarrow> ('a, json) hub_action" where
  "tool_hook_events w exported args =
     hub_then (given (requested_before args)) (\<lambda>before'.
     hub_then (hub_hook_monitor w 4096 (word_of_nat before')) (\<lambda>source.
       given (if exported then hook_export (hw_text w) (hw_pretty w) source args else hook_query (hw_text w) source args)))"

definition tool_hook_module :: "('a, 'd) hub_world \<Rightarrow> caller \<Rightarrow> json_args \<Rightarrow> ('a, json) hub_action" where
  "tool_hook_module w caller args =
     (if ca_actor caller = Ai
      then fail_with (Validation ''AI module Hooks require hook_targets_query followed by hook_monitor_apply'')
      else
      hub_then (given (and_then (req args ''module'') bounded_module_name)) (\<lambda>requested.
      let module = module_key requested
      in hub_then (ask_value w (Ag_hook_module module)) (\<lambda>v h.
           (Inr v, h\<lparr>hb_module_owners := add_owner (actor_name caller) module (hb_module_owners h)\<rparr>))))"

definition tool_hook_range :: "('a, 'd) hub_world \<Rightarrow> bool \<Rightarrow> caller \<Rightarrow> json_args \<Rightarrow> ('a, json) hub_action" where
  "tool_hook_range w apply' caller args =
     hub_then (given (parse_hook_range args)) (\<lambda>(start, end', kinds).
     hub_then (ask_value w (Ag_hook_range start end' kinds apply')) (\<lambda>v.
       if \<not> bool_or ''complete'' False v
       then fail_with (Validation ''range scan stopped at undecodable or unreadable bytes; no Hooks were added'')
       else if \<not> apply' then done_with v
       else
       hub_then (given (parse_values (case Option.bind (json_get ''addresses'' v) json_as_array of
                                        None \<Rightarrow> [] | Some rows \<Rightarrow> rows))) (\<lambda>addresses h.
         (Inr v, h\<lparr>hb_hook_owners := fold (add_owner (actor_name caller)) addresses (hb_hook_owners h)\<rparr>))))"

subsection \<open>Monitors and policies\<close>

definition tool_syscall_monitor :: "('a, 'd) hub_world \<Rightarrow> json_args \<Rightarrow> ('a, json) hub_action" where
  "tool_syscall_monitor w args =
     hub_then (given (limit_or args ''256'' 512 ''syscall monitor limit must be decimal'' ''syscall monitor limit must be 1..512''))
       (\<lambda>limit. ask_value w (Ag_syscall_monitor limit))"

definition tool_exception_monitor :: "('a, 'd) hub_world \<Rightarrow> json_args \<Rightarrow> ('a, json) hub_action" where
  "tool_exception_monitor w args =
     hub_then (given (limit_or args ''256'' 1024 ''exception limit must be decimal'' ''exception limit must be 1..1024''))
       (\<lambda>limit. ask_value w (Ag_exception_monitor limit))"

definition tool_exception_policy_set :: "('a, 'd) hub_world \<Rightarrow> json_args \<Rightarrow> ('a, json) hub_action" where
  "tool_exception_policy_set w args =
     hub_then (given (enabled_flag args)) (\<lambda>enabled.
     hub_then (given (arg_u32 args ''code'')) (\<lambda>code. ask_value w (Ag_exception_policy_set enabled code)))"

definition tool_events_newest :: "('a, 'd) hub_world \<Rightarrow> caller \<Rightarrow> json_args \<Rightarrow> ('a, json) hub_action" where
  "tool_events_newest w caller args =
     (if ca_actor caller = Ai then fail_with (Permission ''event snapshots are adapter-internal'')
      else hub_then (given (limit_or args ''24'' 24 ''event limit must be decimal'' ''event limit must be 1..24''))
             (\<lambda>limit. ask_value w (Ag_events_newest limit)))"

subsection \<open>Scripts\<close>

definition decode_script_request :: "('a, 'd) hub_world \<Rightarrow> json_args \<Rightarrow> hub_error + (string \<times> string)" where
  "decode_script_request w args =
     (case (Option.bind (map_of args ''name'') json_as_str, Option.bind (map_of args ''source'') json_as_str) of
        (Some name, Some source) \<Rightarrow> Inr (name, source) | _ \<Rightarrow> Inl (Validation (hw_decode_error w args)))"

definition decode_output_request :: "('a, 'd) hub_world \<Rightarrow> json_args \<Rightarrow> hub_error + (string \<times> string)" where
  "decode_output_request w args =
     (let field = (\<lambda>name otherwise. case map_of args name of None \<Rightarrow> Some otherwise | Some v \<Rightarrow> json_as_str v)
      in case (field ''cursor'' [], field ''limit'' ''256'') of
           (Some cursor, Some limit) \<Rightarrow> Inr (cursor, limit) | _ \<Rightarrow> Inl (Validation (hw_decode_error w args)))"

definition tool_script_apply :: "('a, 'd) hub_world \<Rightarrow> bool \<Rightarrow> caller \<Rightarrow> json_args \<Rightarrow> ('a, json) hub_action" where
  "tool_script_apply w replace caller args =
     hub_then (given (if ca_actor caller = Ai then and_then (req args ''source'') validate_ai_descriptions else Inr ())) (\<lambda>_.
     hub_then (given (decode_script_request w args)) (\<lambda>(name, source).
     hub_then (with_scripts (script_apply (hw_api w) (hw_hash w) name source replace (actor_name caller)
                 (Option.bind (map_of args ''kind'') json_as_str)))
       (\<lambda>r. done_with (resource_json r))))"

definition tool_script_named ::
  "(string \<Rightarrow> ('a, 'v) script_m) \<Rightarrow> ('v \<Rightarrow> json) \<Rightarrow> json_args \<Rightarrow> ('a, json) hub_action" where
  "tool_script_named operation show' args =
     hub_then (given (req args ''name'')) (\<lambda>name. hub_then (with_scripts (operation name)) (\<lambda>r. done_with (show' r)))"

definition tool_script_output :: "('a, 'd) hub_world \<Rightarrow> json_args \<Rightarrow> ('a, json) hub_action" where
  "tool_script_output w args =
     hub_then (given (decode_output_request w args)) (\<lambda>(cursor, limit).
       with_scripts (script_output_page (hw_api w) cursor limit))"

subsection \<open>The table of tools\<close>

definition target_tools :: "('a, 'd) hub_world \<Rightarrow> caller \<Rightarrow> json_args \<Rightarrow> (string \<times> ('a, json) hub_action) list" where
  "target_tools w caller args =
     [(''control_status'', hub_get (control_json \<circ> status_of \<circ> hb_control)),
      (''session_status'', tool_session_status w), (''session_set_agent_port'', tool_set_agent_port w caller args),
      (''target_pause'', tool_flag w Ag_pause ''paused''), (''target_resume'', tool_flag w Ag_resume ''running''),
      (''target_step_into'', tool_step w False args), (''target_step_over'', tool_step w True args),
      (''breakpoint_set'', tool_breakpoint_set w caller args), (''breakpoint_remove'', tool_breakpoint_remove w args),
      (''breakpoint_list'', ask_value w Ag_breakpoint_list), (''breakpoint_inventory'', hub_breakpoint_inventory w),
      (''registers_get'', tool_registers_get w args), (''register_set'', tool_register_set w args),
      (''memory_read'', tool_memory_read w args), (''memory_write'', tool_memory_write w args),
      (''disassemble'', tool_disassemble w args), (''modules_list'', ask_value w Ag_modules),
      (''module_exports'', tool_module_exports w args), (''memory_map'', ask_value w Ag_memory_map),
      (''threads_list'', ask_value w Ag_threads), (''address_resolve'', tool_address_resolve w args)]"

definition hook_tools :: "('a, 'd) hub_world \<Rightarrow> caller \<Rightarrow> json_args \<Rightarrow> (string \<times> ('a, json) hub_action) list" where
  "hook_tools w caller args =
     [(''hook_targets_query'', hook_targets_query w args), (''hook_monitor_apply'', hook_monitor_apply w caller args),
      (''hook_set'', tool_hook_set w caller args), (''hook_function_set'', tool_hook_function_set w caller args),
      (''hook_signature_set'', tool_hook_signature_set w args),
      (''hook_signature_remove'', tool_hook_signature_remove w args), (''hook_remove'', tool_hook_remove w args),
      (''hook_clear'', tool_hook_clear w), (''hook_list'', ask_value w Ag_hook_list),
      (''hook_inventory'', tool_hook_inventory w args), (''hook_monitor'', tool_hook_monitor w args),
      (''hook_events_query'', tool_hook_events w False args), (''hook_events_export'', tool_hook_events w True args),
      (''event_index_query'', event_index_query w args), (''event_index_export'', event_index_export w args),
      (''hook_module'', tool_hook_module w caller args), (''hook_range_preview'', tool_hook_range w False caller args),
      (''hook_range_set'', tool_hook_range w True caller args)]"

definition trace_tools :: "('a, 'd) hub_world \<Rightarrow> json_args \<Rightarrow> (string \<times> ('a, json) hub_action) list" where
  "trace_tools w args =
     [(''trace_scope_query'', trace_scope_query w args), (''trace_record_start'', trace_record_start w args),
      (''trace_record_status'', trace_record_status w), (''trace_record_stop'', trace_record_stop w),
      (''trace_index_query'', hub_trace_index_query w args), (''trace_index_export'', hub_trace_index_export w args),
      (''syscall_config_get'', hub_get (JObject \<circ> syscall_config_members \<circ> hb_syscall_config)),
      (''syscall_config_set'', hub_syscall_config_set w args), (''syscall_monitor'', tool_syscall_monitor w args),
      (''exception_monitor'', tool_exception_monitor w args), (''exception_policy_get'', ask_value w Ag_exception_policy_get),
      (''exception_policy_set'', tool_exception_policy_set w args), (''exception_inventory'', hub_exception_inventory w)]"

definition script_tools :: "('a, 'd) hub_world \<Rightarrow> caller \<Rightarrow> json_args \<Rightarrow> (string \<times> ('a, json) hub_action) list" where
  "script_tools w caller args =
     [(''script_inject'', tool_script_apply w False caller args), (''script_replace'', tool_script_apply w True caller args),
      (''script_start'', tool_script_named (script_start (hw_api w)) resource_json args),
      (''script_stop'', tool_script_named (script_stop (hw_api w)) resource_json args),
      (''script_remove'', tool_script_named (script_remove (hw_api w)) id args),
      (''script_list'', hub_then (with_scripts (script_list_all (hw_api w)))
          (\<lambda>rows. done_with (JArray (map resource_json rows)))),
      (''script_get'', tool_script_named script_get id args),
      (''script_status'', with_scripts (hub_script_status (hw_api w) (Option.bind (map_of args ''name'') json_as_str))),
      (''script_output'', tool_script_output w args)]"

definition all_tools :: "('a, 'd) hub_world \<Rightarrow> caller \<Rightarrow> json_args \<Rightarrow> (string \<times> ('a, json) hub_action) list" where
  "all_tools w caller args =
     target_tools w caller args @ hook_tools w caller args @ trace_tools w args @ script_tools w caller args"

definition dispatch_guarded :: "('a, 'd) hub_world \<Rightarrow> caller \<Rightarrow> string \<Rightarrow> json_args \<Rightarrow> ('a, json) hub_action" where
  "dispatch_guarded w caller name args =
     hub_then (hub_get (\<lambda>h. if is_write name then write_permission caller (hb_control h) else Inr ())) (\<lambda>permitted.
       case permitted of
         Inl e \<Rightarrow> fail_with (Permission e)
       | Inr () \<Rightarrow>
           (case map_of (all_tools w caller args) name of
              None \<Rightarrow> fail_with (Validation (''unknown tool: '' @ name)) | Some tool \<Rightarrow> tool))"

subsection \<open>The journal\<close>

definition activity_json :: "activity \<Rightarrow> json" where
  "activity_json r = JObject ([(''operation_id'', JString (ac_operation_id r))]
     @ optional_str ''parent_operation_id'' (ac_parent r)
     @ [(''actor'', JString (ac_actor r)), (''action'', JString (ac_action r))] @ optional_str ''purpose'' (ac_purpose r)
     @ [(''started_at_ms'', JString (ac_started_at_ms r))] @ optional_str ''completed_at_ms'' (ac_completed_at_ms r)
     @ [(''outcome'', JString (ac_outcome r)), (''resource_refs'', ac_resource_refs r)])"

definition hub_activity_list :: "json_args \<Rightarrow> ('a, json) hub_action" where
  "hub_activity_list args =
     hub_then (given (decimal_or args ''limit'' ''50'' ''limit must be decimal'')) (\<lambda>n h.
       (Inr (JObject [(''activities'', JArray (map activity_json (journal_list (min n 100) (hb_journal h))))]), h))"

definition hub_activity_get :: "json_args \<Rightarrow> ('a, json) hub_action" where
  "hub_activity_get args =
     hub_then (given (req args ''operation_id'')) (\<lambda>ident h.
       (case journal_get ident (hb_journal h) of
          None \<Rightarrow> Inl (Validation ''activity not found'') | Some r \<Rightarrow> Inr (JObject [(''activity'', activity_json r)]), h))"

definition audit_args :: "json_args \<Rightarrow> journal \<Rightarrow> hub_error + (string option \<times> string option)" where
  "audit_args args j =
     and_then (case map_of args ''purpose'' of
                 None \<Rightarrow> Inr None
               | Some (JString v) \<Rightarrow> if length v \<le> 512 then Inr (Some v) else Inl (Validation ''purpose is too long'')
               | Some _ \<Rightarrow> Inl (Validation ''purpose must be string'')) (\<lambda>purpose.
     and_then (case map_of args ''parent_operation_id'' of
                 None \<Rightarrow> Inr None
               | Some (JString v) \<Rightarrow>
                   if length v \<le> 32 \<and> valid_operation_id v \<and> journal_get v j \<noteq> None then Inr (Some v)
                   else Inl (Validation ''parent operation is invalid or unknown'')
               | Some _ \<Rightarrow> Inl (Validation ''parent_operation_id must be string'')) (\<lambda>parent.
       Inr (purpose, parent)))"

definition finish_activity :: "('a, 'd) hub_world \<Rightarrow> string \<Rightarrow> string \<Rightarrow> json \<Rightarrow> 'a hub \<Rightarrow> 'a hub" where
  "finish_activity w ident outcome' refs h = h\<lparr>hb_journal := journal_finish (hw_now w) ident outcome' refs (hb_journal h)\<rparr>"

definition kind_json :: "string \<Rightarrow> json" where "kind_json kind = JObject [(''kind'', JString kind)]"

definition with_operation :: "string \<Rightarrow> json \<Rightarrow> json" where
  "with_operation ident v = json_set ''operation_id'' (JString ident) v"

text \<open>An action with a row in the journal: begun before it, finished with its outcome.\<close>

definition recorded ::
  "('a, 'd) hub_world \<Rightarrow> caller \<Rightarrow> string \<Rightarrow> string option \<times> string option \<Rightarrow> (string \<Rightarrow> ('a, json) hub_action) \<Rightarrow> ('a, json) hub_action" where
  "recorded w caller name audit body h =
     (case journal_begin (hw_now w) (actor_name caller) name (fst audit) (snd audit) (hb_journal h) of
        (ident, j) \<Rightarrow> body ident (h\<lparr>hb_journal := j\<rparr>))"

definition switch_control ::
  "('a, 'd) hub_world \<Rightarrow> (control \<Rightarrow> (string + control_status) \<times> control) \<Rightarrow> string \<Rightarrow> ('a, json) hub_action" where
  "switch_control w change ident h =
     (case change (hb_control h) of
        (Inr status, c) \<Rightarrow>
          (Inr (with_operation ident (control_json status)), finish_activity w ident ''ok'' (kind_json ''control'') (h\<lparr>hb_control := c\<rparr>))
      | (Inl e, c) \<Rightarrow>
          (Inl (Operation ident (Permission e)),
           finish_activity w ident ''denied'' (kind_json ''permission'') (h\<lparr>hb_control := c\<rparr>)))"

definition call_handoff :: "('a, 'd) hub_world \<Rightarrow> caller \<Rightarrow> json_args \<Rightarrow> string \<Rightarrow> ('a, json) hub_action" where
  "call_handoff w caller args ident h =
     (case parse_mode (map_of args ''mode'') of
        Inl e \<Rightarrow> (Inl (Operation ident e), finish_activity w ident ''error'' (kind_json ''validation'') h)
      | Inr mode \<Rightarrow> switch_control w (handoff caller mode) ident h)"

definition call_takeover :: "('a, 'd) hub_world \<Rightarrow> caller \<Rightarrow> string \<Rightarrow> ('a, json) hub_action" where
  "call_takeover w caller ident h =
     (case begin_takeover caller (hb_control h) of
        (Inl e, c) \<Rightarrow>
          (Inl (Operation ident (Permission e)),
           finish_activity w ident ''denied'' (kind_json ''permission'') (h\<lparr>hb_control := c\<rparr>))
      | (Inr _, c) \<Rightarrow>
          (case hub_ask (ag_flag (hw_api w) Ag_pause) (h\<lparr>hb_control := c\<rparr>) of
             (paused, h) \<Rightarrow>
               let outcome' = (case paused of Inr _ \<Rightarrow> ''ok'' | Inl _ \<Rightarrow> ''partial'');
                   target_pause = (case paused of
                      Inr b \<Rightarrow> JObject [(''attempted'', JBool True), (''paused'', JBool b)]
                    | Inl e \<Rightarrow> JObject [(''attempted'', JBool True), (''paused'', JBool False), (''error'', JString (error_text e))]);
                   v = JObject [(''status'', control_json (status_of (hb_control h))), (''target_pause'', target_pause)]
               in (Inr (with_operation ident v),
                   finish_activity w ident outcome' (JObject [(''kind'', JString ''control''), (''mode'', JString ''manual''),
                     (''target_pause'', target_pause)]) h)))"

definition call_tool :: "('a, 'd) hub_world \<Rightarrow> caller \<Rightarrow> string \<Rightarrow> json_args \<Rightarrow> string \<Rightarrow> ('a, json) hub_action" where
  "call_tool w caller name args ident h =
     (case dispatch_guarded w caller name args h of
        (Inr v, h) \<Rightarrow>
          let v = with_operation ident v in (Inr v, finish_activity w ident ''ok'' (resource_refs name v) h)
      | (Inl e, h) \<Rightarrow> (Inl (Operation ident e), finish_activity w ident ''error'' (kind_json (error_kind e)) h))"

definition call_body :: "('a, 'd) hub_world \<Rightarrow> caller \<Rightarrow> string \<Rightarrow> json_args \<Rightarrow> string \<Rightarrow> ('a, json) hub_action" where
  "call_body w caller name args =
     (if name = ''control_handoff_to_ai'' then call_handoff w caller args
      else if name = ''control_takeover_manual'' then call_takeover w caller
      else if name = ''control_pause_automation'' then switch_control w (pause_automation caller)
      else call_tool w caller name args)"

definition hub_call :: "('a, 'd) hub_world \<Rightarrow> caller \<Rightarrow> string \<Rightarrow> json_args \<Rightarrow> ('a, json) hub_action" where
  "hub_call w caller name args h =
     (if name \<notin> set TOOL_NAMES \<and> name \<noteq> ''events_newest'' then (Inl (Validation (''unknown tool: '' @ name)), h)
      else if name = ''events_newest'' then tool_events_newest w caller args h
      else if name = ''activity_list'' then hub_activity_list args h
      else if name = ''activity_get'' then hub_activity_get args h
      else if ca_actor caller = System \<and> \<not> is_write name then dispatch_guarded w caller name args h
      else case audit_args args (hb_journal h) of
             Inl e \<Rightarrow> (Inl e, h)
           | Inr audit \<Rightarrow> recorded w caller name audit (call_body w caller name args) h)"

end
