(* ===== verification/Pb_Hub_Safety.thy ===== *)
theory Pb_Hub_Safety
  imports Pb_Hub_Dispatch
begin

section \<open>Who can change the target\<close>

text \<open>
  Every path from a tool call to the agent, followed through the table of tools: only the tools of
  \<open>is_write\<close> make requests that change the target, no tool changes the control state, and the three control calls
  change it for a trusted human only. From that the history of a hub is read.
\<close>

text \<open>\<open>target\<close> is any view of the process behind the agent; \<open>quiet_action\<close> leaves it and the control state alone.\<close>

definition quiet_action :: "('a \<Rightarrow> 't) \<Rightarrow> ('a, 'v) hub_action \<Rightarrow> bool" where
  "quiet_action target m \<longleftrightarrow> (\<forall>h. target (hb_agent (snd (m h))) = target (hb_agent h) \<and> hb_control (snd (m h)) = hb_control h)"

named_theorems quiet_intros

lemma quiet_then [quiet_intros]: "quiet_action target m \<Longrightarrow> (\<And>v. quiet_action target (f v)) \<Longrightarrow> quiet_action target (hub_then m f)"
  by (simp add: quiet_action_def hub_then_def split: prod.splits sum.splits) (metis snd_conv)

lemma quiet_value [quiet_intros]:
  "quiet_action target (done_with v)" "quiet_action target (fail_with e)" "quiet_action target (given r)" "quiet_action target (hub_get f)"
  by (simp_all add: quiet_action_def hub_m_defs)

lemma quiet_ask: "(\<And>a. target (snd (call a)) = target a) \<Longrightarrow> quiet_action target (hub_ask call)"
  by (simp add: quiet_action_def hub_ask_def split: prod.splits) (metis snd_conv)

lemma quiet_ask_ignored: "(\<And>a. target (snd (call a)) = target a) \<Longrightarrow> quiet_action target (ask_ignored call)"
  by (simp add: quiet_action_def ask_ignored_def split: prod.splits) (metis snd_conv)

lemma quiet_modify: "(\<And>h. hb_agent (f h) = hb_agent h \<and> hb_control (f h) = hb_control h) \<Longrightarrow> quiet_action target (hub_modify f)"
  by (simp add: quiet_action_def hub_modify_def)

lemma quiet_result:
  "(\<And>h. hb_agent (f h) = hb_agent h \<and> hb_control (f h) = hb_control h) \<Longrightarrow> quiet_action target (\<lambda>h. (r h, f h))"
  by (simp add: quiet_action_def)

lemma quiet_if [quiet_intros]: "(c \<Longrightarrow> quiet_action target m) \<Longrightarrow> (\<not> c \<Longrightarrow> quiet_action target n) \<Longrightarrow> quiet_action target (if c then m else n)"
  by simp

text \<open>An interface that leaves \<open>target\<close> alone whatever is asked.\<close>

definition harmless :: "'a agent_api \<Rightarrow> ('a \<Rightarrow> 't) \<Rightarrow> bool" where
  "harmless api target \<longleftrightarrow> (\<forall>r a. target (snd (ag_value api r a)) = target a) \<and> (\<forall>r a. target (snd (ag_flag api r a)) = target a)
     \<and> (\<forall>r a. target (snd (ag_unit api r a)) = target a) \<and> (\<forall>p a. target (ag_set_port api p a) = target a)
     \<and> (\<forall>n s a. target (snd (ag_script_load api n s a)) = target a)"

lemma harmless_unit: "harmless api (\<lambda>_. ())" by (simp add: harmless_def)
lemma reads_only_unit: "reads_only api (\<lambda>_. ())" by (simp add: reads_only_def)

lemma quiet_read:
  assumes "reads_only (hw_api w) target"
  shows "\<not> changes_target r \<Longrightarrow> quiet_action target (ask_value w r)" "quiet_action target (hub_ask (ag_register_id (hw_api w) name))"
    "quiet_action target (hub_ask (ag_callback_count (hw_api w) address))"
  using assms by (auto simp: ask_value_def reads_only_def intro!: quiet_ask)

lemma quiet_harmless:
  assumes "harmless (hw_api w) target"
  shows "quiet_action target (ask_value w r)" "quiet_action target (hub_ask (ag_flag (hw_api w) c))" "quiet_action target (hub_ask (ag_unit (hw_api w) u))"
    "quiet_action target (ask_ignored (ag_unit (hw_api w) u))"
  using assms by (auto simp: ask_value_def harmless_def intro!: quiet_ask quiet_ask_ignored)

subsection \<open>The scripts\<close>

definition script_quiet :: "('a \<Rightarrow> 't) \<Rightarrow> ('a, 'v) script_m \<Rightarrow> bool" where
  "script_quiet target m \<longleftrightarrow> (\<forall>st. target (snd (snd (m st))) = target (snd st))"

lemma script_quiet_then: "script_quiet target m \<Longrightarrow> (\<And>v. script_quiet target (f v)) \<Longrightarrow> script_quiet target (hub_then m f)"
  by (simp add: script_quiet_def hub_then_def split: prod.splits sum.splits) (metis snd_conv)

lemma script_quiet_value:
  "script_quiet target (done_with v)" "script_quiet target (fail_with e)" "script_quiet target (given r)"
  "script_quiet target (hub_get f)"
  by (simp_all add: script_quiet_def hub_m_defs)

lemma script_quiet_ask: "(\<And>a. target (snd (call a)) = target a) \<Longrightarrow> script_quiet target (ask_agent call)"
  by (auto simp: script_quiet_def ask_agent_def split: prod.splits sum.splits) (metis snd_conv)+

lemma script_quiet_result: "(\<And>st. snd (f st) = snd st) \<Longrightarrow> script_quiet target (\<lambda>st. (r st, f st))"
  by (simp add: script_quiet_def)

lemma quiet_scripts: "script_quiet target m \<Longrightarrow> quiet_action target (with_scripts m)"
  by (simp add: quiet_action_def script_quiet_def with_scripts_def split: prod.splits) (metis snd_conv)

lemma put_row_agent [simp]: "snd (put_row name r st) = snd st" by (simp add: put_row_def split: prod.splits)

lemmas script_intros = script_quiet_then script_quiet_value script_quiet_result

lemma script_reads_quiet:
  assumes "reads_only api target"
  shows "script_quiet target (script_list_all api)" "script_quiet target (hub_script_status api name)"
    "script_quiet target (script_get n)" "script_quiet target (script_output_page api cursor limit)"
proof -
  have list: "script_quiet target (ask_agent (ag_script_list api))"
    and lines: "script_quiet target (ask_agent (ag_script_output api c k))" for c k
    using assms by (auto simp: reads_only_def intro!: script_quiet_ask)
  show all: "script_quiet target (script_list_all api)"
    unfolding script_list_all_def by (intro script_intros list) simp
  show "script_quiet target (hub_script_status api name)"
    unfolding hub_script_status_def by (auto intro!: script_intros all split: option.splits)
  show "script_quiet target (script_get n)" unfolding script_get_def by (auto intro!: script_intros split: option.splits)
  show "script_quiet target (script_output_page api cursor limit)"
    unfolding script_output_page_def by (auto intro!: script_intros lines simp: Let_def split: prod.splits)
qed

lemma script_writes_quiet:
  assumes "harmless api target" "reads_only api target"
  shows "script_quiet target (script_apply api hash name source replace actor' kind)"
    "script_quiet target (script_start api n)" "script_quiet target (script_stop api n)" "script_quiet target (script_remove api n)"
proof -
  have load: "script_quiet target (ask_agent (ag_script_load api n s))"
    and unload: "script_quiet target (ask_agent (ag_unit api u))"
    and list: "script_quiet target (ask_agent (ag_script_list api))" for n s u
    using assms by (auto simp: harmless_def reads_only_def intro!: script_quiet_ask)
  have identity: "snd (snd (script_identity name actor' exists existing st)) = snd st" for exists existing st
    by (auto simp: script_identity_def split: option.splits prod.splits)
  have load_row: "script_quiet target (script_load_and_record api hash name source r actor' k old exists)" for r k old exists
    unfolding script_load_and_record_def
    by (intro script_intros load) (auto simp: script_quiet_def Let_def split: prod.splits, metis identity snd_conv)
  have has: "script_quiet target (agent_has_script api name)"
    unfolding agent_has_script_def by (intro script_intros list)
  have apply_kind: "script_quiet target (script_apply_kind api hash name source replace actor' old k)" for old k
  proof -
    let ?loaded = "hub_then (if replace \<and> old = None then agent_has_script api name else done_with False)
        (\<lambda>agent_exists. if replace \<and> old = None \<and> \<not> agent_exists
           then fail_with ''script_replace requires an existing control-plane or Agent script''
           else script_load_and_record api hash name source replace actor' k old agent_exists)"
    have loaded: "script_quiet target ?loaded" by (auto intro!: script_intros has load_row)
    show ?thesis
    proof (cases "replace \<and> k = Module_script \<and> (case old of None \<Rightarrow> False | Some r \<Rightarrow> sr_state r = ''stopped'')")
      case True
      then show ?thesis by (simp add: script_quiet_def script_apply_kind_def Let_def)
    next
      case False
      then have "script_apply_kind api hash name source replace actor' old k = ?loaded"
        by (intro ext) (simp only: script_apply_kind_def if_False)
      then show ?thesis using loaded by simp
    qed
  qed
  show "script_quiet target (script_apply api hash name source replace actor' kind)"
    unfolding script_apply_def by (intro script_intros apply_kind)
  have known: "script_quiet target (known_module n message)" for n message
    unfolding known_module_def by (auto intro!: script_intros split: option.splits)
  show "script_quiet target (script_start api n)"
    unfolding script_start_def by (auto intro!: script_intros known load simp: Let_def)
  show "script_quiet target (script_stop api n)"
    unfolding script_stop_def by (auto intro!: script_intros known unload simp: Let_def)
  show "script_quiet target (script_remove api n)"
    unfolding script_remove_def
    by (intro script_intros) (auto intro!: script_intros unload split: prod.splits option.splits)
qed

subsection \<open>The tools that read\<close>

lemma quiet_split [quiet_intros]:
  "(\<And>a b. p = (a, b) \<Longrightarrow> quiet_action target (f a b)) \<Longrightarrow> quiet_action target (case p of (a, b) \<Rightarrow> f a b)"
  "(x = None \<Longrightarrow> quiet_action target m) \<Longrightarrow> (\<And>v. x = Some v \<Longrightarrow> quiet_action target (g v)) \<Longrightarrow>
     quiet_action target (case x of None \<Rightarrow> m | Some v \<Rightarrow> g v)"
  "(\<And>v. quiet_action target (k v)) \<Longrightarrow> quiet_action target (Let e k)"
  by (simp_all split: prod.splits option.splits)

lemma quiet_width [quiet_intros]: "reads_only (hw_api w) target \<Longrightarrow> quiet_action target (target_pointer_width w)"
  using quiet_read(1) [of w target Ag_status]
  by (auto simp: quiet_action_def target_pointer_width_def split: prod.splits sum.splits) (metis snd_conv)+

lemmas quiet_reads = quiet_intros quiet_read quiet_result quiet_scripts script_reads_quiet

lemma inventories_quiet [quiet_intros]:
  assumes "reads_only (hw_api w) target"
  shows "quiet_action target (hub_breakpoint_inventory w)" "quiet_action target (hub_exception_inventory w)"
    "quiet_action target (hub_hook_inventory w offset limit function_log)" "quiet_action target (hub_hook_monitor w l b)"
  unfolding hub_breakpoint_inventory_def hub_exception_inventory_def hub_hook_inventory_def hub_hook_monitor_def
  using assms by (auto intro!: quiet_reads)

lemma session_status_quiet: "reads_only (hw_api w) target \<Longrightarrow> quiet_action target (tool_session_status w)"
  using quiet_read(1) [of w target Ag_status]
  by (auto simp: quiet_action_def tool_session_status_def Let_def split: prod.splits sum.splits) (metis snd_conv)+

lemma index_scan_quiet:
  assumes "reads_only (hw_api w) target"
  shows "target (hb_agent (snd (index_scan_loop w q s h))) = target (hb_agent h)
     \<and> hb_control (snd (index_scan_loop w q s h)) = hb_control h"
  using assms
proof (induction w q s h rule: index_scan_loop.induct)
  case (1 w q s h)
  have page: "quiet_action target (index_page w q (is_before s))"
    using 1(2) unfolding index_page_def by (auto intro!: quiet_reads inventories_quiet)
  show ?case
  proof (cases "length (is_matches s) < iq_limit q \<and> is_scanned s < INDEX_SCAN_LIMIT")
    case True
    obtain r h' where r: "index_page w q (is_before s) h = (r, h')" by (cases "index_page w q (is_before s) h")
    then have "target (hb_agent h') = target (hb_agent h) \<and> hb_control h' = hb_control h"
      using page unfolding quiet_action_def by (metis snd_conv)
    then show ?thesis using True r 1 
      by (subst (1 2) index_scan_loop.simps) (auto split: sum.splits option.splits)
  qed (simp add: index_scan_loop.simps [of w q s h])
qed

lemma event_index_quiet:
  assumes "reads_only (hw_api w) target"
  shows "quiet_action target (event_index_query w args)" "quiet_action target (event_index_export w args)"
proof -
  have "quiet_action target (index_scan_loop w q s)" for q s using index_scan_quiet [OF assms] by (simp add: quiet_action_def)
  then show query: "quiet_action target (event_index_query w args)"
    unfolding event_index_query_def by (intro quiet_intros)
  show "quiet_action target (event_index_export w args)"
    unfolding event_index_export_def by (intro quiet_intros query)
qed

lemma selections_quiet:
  assumes "reads_only (hw_api w) target"
  shows "quiet_action target (hook_targets_query w args)" "quiet_action target (trace_scope_query w args)"
proof -
  have "quiet_action target (add_hook_selection s)" for s by (simp add: quiet_action_def add_hook_selection_def Let_def)
  then show "quiet_action target (hook_targets_query w args)"
    using assms unfolding hook_targets_query_def by (intro quiet_intros quiet_read) auto
  have "quiet_action target (add_trace_selection s)" for s by (simp add: quiet_action_def add_trace_selection_def Let_def)
  then show "quiet_action target (trace_scope_query w args)"
    using assms unfolding trace_scope_query_def by (intro quiet_intros quiet_read) auto
qed

lemma read_tools_quiet:
  assumes "reads_only (hw_api w) target"
  shows "quiet_action target (tool_registers_get w args)" "quiet_action target (tool_memory_read w args)"
    "quiet_action target (tool_disassemble w args)" "quiet_action target (tool_module_exports w args)"
    "quiet_action target (tool_address_resolve w args)" "quiet_action target (tool_hook_inventory w args)"
    "quiet_action target (tool_hook_monitor w args)" "quiet_action target (tool_hook_events w exported args)"
    "quiet_action target (tool_hook_range w False caller args)" "quiet_action target (tool_syscall_monitor w args)"
    "quiet_action target (tool_exception_monitor w args)" "quiet_action target (tool_events_newest w caller args)"
    "quiet_action target (trace_record_status w)" "quiet_action target (hub_trace_index_query w args)"
    "quiet_action target (hub_trace_index_export w args)" "quiet_action target (tool_script_output w args)"
  unfolding tool_registers_get_def tool_memory_read_def tool_disassemble_def tool_module_exports_def
    tool_address_resolve_def tool_hook_inventory_def tool_hook_monitor_def tool_hook_events_def tool_hook_range_def
    tool_syscall_monitor_def tool_exception_monitor_def tool_events_newest_def trace_record_status_def
    hub_trace_index_query_def hub_trace_index_export_def tool_script_output_def
  using assms by (auto intro!: quiet_reads inventories_quiet)

subsection \<open>The tools that write\<close>

lemma quiet_flag: "harmless (hw_api w) target \<Longrightarrow> quiet_action target (tool_flag w c name)"
  unfolding tool_flag_def by (intro quiet_intros quiet_harmless)

lemma port_quiet: "harmless (hw_api w) target \<Longrightarrow> quiet_action target (tool_set_agent_port w caller args)"
  unfolding tool_set_agent_port_def by (auto simp: quiet_action_def harmless_def hub_m_defs split: sum.splits)

lemma quiet_case:
  "quiet_action target m \<Longrightarrow> (\<And>e. quiet_action target (f e)) \<Longrightarrow> (\<And>v. quiet_action target (g v)) \<Longrightarrow>
     quiet_action target (\<lambda>h. case m h of (Inl e, h) \<Rightarrow> f e h | (Inr v, h) \<Rightarrow> g v h)"
  by (simp add: quiet_action_def split: prod.splits sum.splits) (metis snd_conv)

lemma hook_function_set_quiet:
  assumes "harmless (hw_api w) target" "reads_only (hw_api w) target"
  shows "quiet_action target (tool_hook_function_set w caller args)"
proof -
  let ?answer = "\<lambda>s v. case v of
      JObject _ \<Rightarrow> hub_then (target_pointer_width w)
        (\<lambda>width. done_with (json_set_all [(''signature'', signature_json s width), (''signature_status'', JString ''resolved'')] v))
    | _ \<Rightarrow> done_with v"
  have answer: "quiet_action target (?answer s v)" for s v
    using assms by (cases v) (auto intro!: quiet_intros)
  have own: "quiet_action target (\<lambda>h. ?answer s v (own_hook caller address (remember_signature address s h)))" for s v address
    using answer by (simp add: quiet_action_def own_hook_def remember_signature_def)
  have taken: "quiet_action target (hub_then (ask_ignored (ag_unit (hw_api w) u)) (\<lambda>_. fail_with e))" for u e
    using assms by (intro quiet_intros quiet_harmless)
  have placed: "quiet_action target (\<lambda>h. if not_hooked v
      then hub_then (ask_ignored (ag_unit (hw_api w) u)) (\<lambda>_. fail_with CAPACITY_FULL) h
      else ?answer s v (own_hook caller address (remember_signature address s h)))" for s v u address
    using taken own by (cases "not_hooked v") simp_all
  show ?thesis
    unfolding tool_hook_function_set_def Let_def
    by (intro quiet_intros quiet_harmless quiet_case assms taken placed)
qed

lemma write_tools_quiet:
  assumes "harmless (hw_api w) target" "reads_only (hw_api w) target"
  shows "quiet_action target (tool_step w over args)" "quiet_action target (tool_breakpoint_set w caller args)"
    "quiet_action target (tool_breakpoint_remove w args)" "quiet_action target (tool_register_set w args)"
    "quiet_action target (tool_memory_write w args)" "quiet_action target (hook_monitor_apply w caller args)"
    "quiet_action target (tool_hook_set w caller args)" "quiet_action target (tool_hook_signature_set w args)"
    "quiet_action target (tool_hook_signature_remove w args)" "quiet_action target (tool_hook_remove w args)"
    "quiet_action target (tool_hook_clear w)" "quiet_action target (tool_hook_module w caller args)"
    "quiet_action target (tool_hook_range w True caller args)" "quiet_action target (trace_record_start w args)"
    "quiet_action target (hub_syscall_config_set w args)"
    "quiet_action target (tool_exception_policy_set w args)" "quiet_action target (tool_script_apply w replace caller args)"
  unfolding tool_step_def tool_breakpoint_set_def tool_breakpoint_remove_def tool_register_set_def tool_memory_write_def
    hook_monitor_apply_def tool_hook_set_def tool_hook_signature_set_def tool_hook_signature_remove_def tool_hook_remove_def
    tool_hook_clear_def tool_hook_module_def tool_hook_range_def trace_record_start_def
    hub_syscall_config_set_def resolve_syscall_scope_def tool_exception_policy_set_def tool_script_apply_def
  using assms
  by (auto intro!: quiet_intros quiet_harmless quiet_read quiet_result quiet_modify quiet_scripts script_writes_quiet
      simp: remember_signature_def own_hook_def split: option.splits)
    (auto simp: quiet_action_def own_hook_def Let_def)

lemma trace_stop_quiet: "harmless (hw_api w) target \<Longrightarrow> quiet_action target (trace_record_stop w)"
  unfolding trace_record_stop_def
  by (auto intro!: quiet_intros quiet_harmless)
    (auto simp: quiet_action_def Let_def split: option.splits sum.splits)

lemma script_named_quiet: "(\<And>n. script_quiet target (operation n)) \<Longrightarrow> quiet_action target (tool_script_named operation show' args)"
  unfolding tool_script_named_def by (intro quiet_intros quiet_scripts)

lemmas all_tools_defs = all_tools_def target_tools_def hook_tools_def trace_tools_def script_tools_def

lemma reading_tools:
  assumes "reads_only (hw_api w) target"
  shows "list_all (\<lambda>(name, tool). is_write name \<or> quiet_action target tool) (all_tools w caller args)"
proof -
  have "quiet_action target (hub_get (control_json \<circ> status_of \<circ> hb_control))"
      "quiet_action target (hub_get (JObject \<circ> syscall_config_members \<circ> hb_syscall_config))"
      "quiet_action target (hub_then (with_scripts (script_list_all (hw_api w))) (\<lambda>rows. done_with (JArray (map resource_json rows))))"
      "quiet_action target (tool_script_named script_get id args)"
      "quiet_action target (with_scripts (hub_script_status (hw_api w) (Option.bind (map_of args ''name'') json_as_str)))"
    using assms by (auto intro!: quiet_intros quiet_scripts script_reads_quiet script_named_quiet)
  then show ?thesis
    using assms quiet_read [OF assms] inventories_quiet [OF assms] session_status_quiet [OF assms]
      event_index_quiet [OF assms] selections_quiet [OF assms] read_tools_quiet [OF assms]
    by (simp add: all_tools_defs is_write_def write_tools_def)
qed

lemma steady_tools:
  assumes "harmless (hw_api w) target" "reads_only (hw_api w) target"
  shows "list_all (\<lambda>(name, tool). quiet_action target tool) (all_tools w caller args)"
proof -
  have "quiet_action target (hub_get (control_json \<circ> status_of \<circ> hb_control))"
      "quiet_action target (hub_get (JObject \<circ> syscall_config_members \<circ> hb_syscall_config))"
      "quiet_action target (hub_then (with_scripts (script_list_all (hw_api w))) (\<lambda>rows. done_with (JArray (map resource_json rows))))"
      "quiet_action target (tool_script_named script_get id args)"
      "quiet_action target (with_scripts (hub_script_status (hw_api w) (Option.bind (map_of args ''name'') json_as_str)))"
      "quiet_action target (tool_script_named (script_start (hw_api w)) resource_json args)"
      "quiet_action target (tool_script_named (script_stop (hw_api w)) resource_json args)"
      "quiet_action target (tool_script_named (script_remove (hw_api w)) id args)"
    using assms by (auto intro!: quiet_intros quiet_scripts script_reads_quiet script_writes_quiet script_named_quiet)
  then show ?thesis
    using quiet_harmless [OF assms(1)] inventories_quiet [OF assms(2)] session_status_quiet [OF assms(2)]
      event_index_quiet [OF assms(2)] selections_quiet [OF assms(2)] read_tools_quiet [OF assms(2)]
      write_tools_quiet [OF assms] hook_function_set_quiet [OF assms] port_quiet [OF assms(1)] quiet_flag [OF assms(1)]
      trace_stop_quiet [OF assms(1)]
    by (simp add: all_tools_defs)
qed

subsection \<open>One call\<close>

lemma dispatch_cases:
  obtains (refused) e where "dispatch_guarded w caller name args h = (Inl e, h)"
  | (served) tool where "map_of (all_tools w caller args) name = Some tool" "dispatch_guarded w caller name args h = tool h"
      "\<not> is_write name \<or> write_permission caller (hb_control h) = Inr ()"
proof -
  let ?permitted = "if is_write name then write_permission caller (hb_control h) else Inr ()"
  show thesis
  proof (cases ?permitted)
    case (Inl e)
    then have "dispatch_guarded w caller name args h = (Inl (Permission e), h)"
      by (simp only: dispatch_guarded_def hub_then_def hub_get_def fail_with_def prod.case sum.case)
    then show thesis by (rule refused)
  next
    case (Inr u)
    then have table: "dispatch_guarded w caller name args h =
        (case map_of (all_tools w caller args) name of
           None \<Rightarrow> fail_with (Validation (''unknown tool: '' @ name)) | Some tool \<Rightarrow> tool) h"
      by (cases u) (simp only: dispatch_guarded_def hub_then_def hub_get_def prod.case sum.case unit.case)
    show thesis
    proof (cases "map_of (all_tools w caller args) name")
      case None
      then show thesis using table refused by (simp add: fail_with_def)
    next
      case (Some tool)
      then show thesis using table served Inr by (simp split: if_splits)
    qed
  qed
qed

lemma dispatch_quiet:
  assumes "reads_only (hw_api w) target" "\<not> is_write name \<or> write_permission caller (hb_control h) \<noteq> Inr ()"
  shows "target (hb_agent (snd (dispatch_guarded w caller name args h))) = target (hb_agent h)"
proof (rule dispatch_cases [of w caller name args h])
  fix tool assume served: "map_of (all_tools w caller args) name = Some tool" "dispatch_guarded w caller name args h = tool h"
    "\<not> is_write name \<or> write_permission caller (hb_control h) = Inr ()"
  then have "quiet_action target tool"
    using map_of_SomeD [OF served(1)] reading_tools [OF assms(1), of caller args] assms(2)
    unfolding list_all_iff by fastforce
  then show ?thesis unfolding served(2) quiet_action_def by blast
qed simp

lemma dispatch_keeps_control: "hb_control (snd (dispatch_guarded w caller name args h)) = hb_control h"
proof (rule dispatch_cases [of w caller name args h])
  fix tool assume served: "map_of (all_tools w caller args) name = Some tool" "dispatch_guarded w caller name args h = tool h"
  then have "quiet_action (\<lambda>_. ()) tool"
    using map_of_SomeD [OF served(1)] steady_tools [OF harmless_unit reads_only_unit, of w caller args]
    unfolding list_all_iff by fastforce
  then show ?thesis unfolding served(2) quiet_action_def by blast
qed simp

text \<open>The mode a successful call of \<open>name\<close> leaves, read from the call alone.\<close>

definition next_mode :: "control_mode \<Rightarrow> string \<Rightarrow> json_args \<Rightarrow> control_mode" where
  "next_mode mode name args =
     (if name = ''control_handoff_to_ai''
      then (case parse_mode (map_of args ''mode'') of Inr m \<Rightarrow> m | Inl _ \<Rightarrow> mode)
      else if name = ''control_takeover_manual'' then Manual
      else if name = ''control_pause_automation'' then Automation_paused else mode)"

definition control_tools :: "string list" where
  "control_tools = [''control_handoff_to_ai'', ''control_takeover_manual'', ''control_pause_automation'']"

lemma finish_activity_fields [simp]:
  "hb_control (finish_activity w ident outcome' refs h) = hb_control h" "hb_agent (finish_activity w ident outcome' refs h) = hb_agent h"
  by (simp_all add: finish_activity_def)

lemma ask_control: "hb_control (snd (hub_ask call h)) = hb_control h" by (simp add: hub_ask_def split: prod.splits)

text \<open>What a call does to the mode: nothing unless a trusted human's control call succeeds.\<close>

definition mode_effect :: "caller \<Rightarrow> string \<Rightarrow> json_args \<Rightarrow> 'a hub \<Rightarrow> (hub_error + json) \<times> 'a hub \<Rightarrow> bool" where
  "mode_effect caller name args h out \<longleftrightarrow>
     (case out of (result, h') \<Rightarrow>
        (is_ok result \<longrightarrow> ct_mode (hb_control h') = next_mode (ct_mode (hb_control h)) name args
           \<and> (name \<in> set control_tools \<longrightarrow> trusted_human caller))
        \<and> (\<not> is_ok result \<longrightarrow> hb_control h' = hb_control h))"

lemma switch_effect:
  assumes "\<And>status c. change (hb_control h) = (Inr status, c) \<Longrightarrow>
      trusted_human caller \<and> ct_mode c = next_mode (ct_mode (hb_control h)) name args"
    and "\<And>e c. change (hb_control h) = (Inl e, c) \<Longrightarrow> c = hb_control h"
  shows "mode_effect caller name args h (switch_control w change ident h)"
proof (cases "change (hb_control h)")
  case (Pair r c)
  then show ?thesis using assms by (cases r) (simp_all add: mode_effect_def switch_control_def)
qed

lemma tool_effect:
  assumes "name \<notin> set control_tools"
  shows "mode_effect caller name args h (dispatch_guarded w caller name args h)"
    "mode_effect caller name args h (call_tool w caller name args ident h)"
proof -
  have mode: "next_mode mode name args = mode" for mode
    using assms by (simp add: next_mode_def control_tools_def)
  obtain r h' where r: "dispatch_guarded w caller name args h = (r, h')" by (cases "dispatch_guarded w caller name args h")
  then have control: "hb_control h' = hb_control h" using dispatch_keeps_control [of w caller name args h] by simp
  show "mode_effect caller name args h (dispatch_guarded w caller name args h)"
    unfolding mode_effect_def r prod.case mode control using assms by simp
  show "mode_effect caller name args h (call_tool w caller name args ident h)"
    unfolding mode_effect_def call_tool_def r Let_def using assms by (cases r) (simp_all add: mode control)
qed

lemma handoff_effect: "mode_effect caller ''control_handoff_to_ai'' args h (call_handoff w caller args ident h)"
proof (cases "parse_mode (map_of args ''mode'')")
  case (Inl e)
  then show ?thesis by (simp add: mode_effect_def call_handoff_def)
next
  case (Inr mode)
  have "mode_effect caller ''control_handoff_to_ai'' args h (switch_control w (handoff caller mode) ident h)"
    by (rule switch_effect) (auto simp: handoff_def next_mode_def Inr split: if_splits)
  then show ?thesis by (simp add: call_handoff_def Inr)
qed

lemma pause_effect:
  "mode_effect caller ''control_pause_automation'' args h (switch_control w (pause_automation caller) ident h)"
  by (rule switch_effect) (auto simp: pause_automation_def next_mode_def Let_def split: if_splits)

lemma takeover_effect: "mode_effect caller ''control_takeover_manual'' args h (call_takeover w caller ident h)"
proof (cases "begin_takeover caller (hb_control h)")
  case (Pair r c)
  show ?thesis
  proof (cases r)
    case (Inl e)
    then have "c = hb_control h" using Pair by (auto simp: begin_takeover_def split: if_splits)
    then show ?thesis using Pair Inl by (simp add: mode_effect_def call_takeover_def)
  next
    case (Inr u)
    then have "trusted_human caller" "ct_mode c = Manual" using Pair by (auto simp: begin_takeover_def split: if_splits)
    moreover obtain p h' where p: "hub_ask (ag_flag (hw_api w) Ag_pause) (h\<lparr>hb_control := c\<rparr>) = (p, h')" by fastforce
    moreover have "hb_control h' = c" using ask_control [of "ag_flag (hw_api w) Ag_pause" "h\<lparr>hb_control := c\<rparr>"] p by simp
    ultimately show ?thesis using Pair Inr by (simp add: mode_effect_def call_takeover_def next_mode_def Let_def)
  qed
qed

lemma plain_effect:
  assumes "quiet_action (\<lambda>_. ()) m" "name \<notin> set control_tools"
  shows "mode_effect caller name args h (m h)"
proof -
  have "next_mode mode name args = mode" for mode using assms(2) by (simp add: next_mode_def control_tools_def)
  then show ?thesis using assms by (cases "m h") (auto simp: mode_effect_def quiet_action_def dest!: spec [of _ h])
qed

lemma journal_reads_quiet: "quiet_action target (hub_activity_list args)" "quiet_action target (hub_activity_get args)"
  unfolding hub_activity_list_def hub_activity_get_def by (auto intro!: quiet_intros quiet_result)

lemma recorded_body:
  "recorded w caller name audit body h =
     (case journal_begin (hw_now w) (actor_name caller) name (fst audit) (snd audit) (hb_journal h) of
        (ident, j) \<Rightarrow> body ident (h\<lparr>hb_journal := j\<rparr>))"
  by (simp add: recorded_def)

lemma mode_effect_journal: "mode_effect caller name args (h\<lparr>hb_journal := j\<rparr>) out = mode_effect caller name args h out"
  by (simp add: mode_effect_def)

lemma refused_effect: "mode_effect caller name args h (Inl e, h)"
  by (simp add: mode_effect_def)

lemma recorded_effect:
  assumes "\<And>ident h. mode_effect caller name args h (body ident h)"
  shows "mode_effect caller name args h (recorded w caller name audit body h)"
proof -
  obtain ident j where "journal_begin (hw_now w) (actor_name caller) name (fst audit) (snd audit) (hb_journal h) = (ident, j)"
    by fastforce
  then have "recorded w caller name audit body h = body ident (h\<lparr>hb_journal := j\<rparr>)" by (simp add: recorded_def)
  then show ?thesis using assms [of "h\<lparr>hb_journal := j\<rparr>" ident] by (simp add: mode_effect_journal)
qed

lemma events_newest_quiet: "quiet_action (\<lambda>_. ()) (tool_events_newest w caller args)"
  by (rule read_tools_quiet [OF reads_only_unit])

lemma no_control_tool: "name \<in> set control_tools \<Longrightarrow> map_of (all_tools w caller args) name = None"
proof -
  have "list_all (\<lambda>n. n \<notin> set control_tools) (map fst (all_tools w caller args))"
    by (simp add: all_tools_defs control_tools_def)
  then show "name \<in> set control_tools \<Longrightarrow> ?thesis" by (auto simp: list_all_iff map_of_eq_None_iff)
qed

lemma system_effect: "mode_effect caller name args h (dispatch_guarded w caller name args h)"
proof (cases "name \<in> set control_tools")
  case True
  show ?thesis
  proof (rule dispatch_cases [of w caller name args h])
    fix e assume "dispatch_guarded w caller name args h = (Inl e, h)"
    then show ?thesis by (simp add: refused_effect)
  next
    fix tool assume "map_of (all_tools w caller args) name = Some tool"
    then show ?thesis using no_control_tool [OF True, of w caller args] by simp
  qed
qed (rule tool_effect)

lemma hub_call_cases:
  obtains (refused) e where "hub_call w caller name args h = (Inl e, h)"
    | (read) m where "hub_call w caller name args h = m h" "name \<notin> set control_tools" "\<not> is_write name"
        "m \<in> {tool_events_newest w caller args, hub_activity_list args, hub_activity_get args}"
    | (system) "hub_call w caller name args h = dispatch_guarded w caller name args h" "\<not> is_write name"
    | (recorded) audit where "hub_call w caller name args h = recorded w caller name audit (call_body w caller name args) h"
proof -
  have plain: "''events_newest'' \<notin> set control_tools \<and> ''activity_list'' \<notin> set control_tools \<and> ''activity_get'' \<notin> set control_tools"
      "\<not> is_write ''events_newest'' \<and> \<not> is_write ''activity_list'' \<and> \<not> is_write ''activity_get''"
    by (simp_all add: control_tools_def is_write_def write_tools_def)
  consider (unknown) "name \<notin> set TOOL_NAMES \<and> name \<noteq> ''events_newest''" | (events) "name = ''events_newest''"
    | (list) "name = ''activity_list''" | (get) "name = ''activity_get''"
    | (other) "\<not> (name \<notin> set TOOL_NAMES \<and> name \<noteq> ''events_newest'')" "name \<noteq> ''events_newest''" "name \<noteq> ''activity_list''"
        "name \<noteq> ''activity_get''"
    by blast
  then show thesis
  proof cases
    case unknown
    show thesis by (rule refused, subst hub_call_def, subst if_P, rule unknown, rule refl)
  next
    case events
    show thesis by (rule read [of "tool_events_newest w caller args"]) (use plain in \<open>simp_all add: events hub_call_def\<close>)
  next
    case list
    show thesis by (rule read [of "hub_activity_list args"]) (use plain in \<open>simp_all add: list hub_call_def TOOL_NAMES_def\<close>)
  next
    case get
    show thesis by (rule read [of "hub_activity_get args"]) (use plain in \<open>simp_all add: get hub_call_def TOOL_NAMES_def\<close>)
  next
    case other
    then have call: "hub_call w caller name args h =
        (if ca_actor caller = System \<and> \<not> is_write name then dispatch_guarded w caller name args h
         else case audit_args args (hb_journal h) of
                Inl e \<Rightarrow> (Inl e, h) | Inr audit \<Rightarrow> recorded w caller name audit (call_body w caller name args) h)"
      unfolding hub_call_def by (simp only: if_False)
    show thesis
    proof (cases "ca_actor caller = System \<and> \<not> is_write name")
      case True
      then show thesis using call by (intro system) (simp_all only: if_True simp_thms)
    next
      case False
      then show thesis using call refused recorded by (cases "audit_args args (hb_journal h)") (simp_all only: if_False sum.case)
    qed
  qed
qed

lemma body_effect: "mode_effect caller name args h (call_body w caller name args ident h)"
proof -
  consider "name = ''control_handoff_to_ai''" | "name = ''control_takeover_manual''" | "name = ''control_pause_automation''"
    | "name \<notin> set control_tools"
    by (auto simp: control_tools_def)
  then show ?thesis
  proof cases
    case 1
    show ?thesis unfolding 1 by (simp add: call_body_def handoff_effect)
  next
    case 2
    show ?thesis unfolding 2 by (simp add: call_body_def takeover_effect)
  next
    case 3
    show ?thesis unfolding 3 by (simp add: call_body_def pause_effect)
  next
    case 4
    then have "call_body w caller name args = call_tool w caller name args" by (simp add: call_body_def control_tools_def)
    then show ?thesis using tool_effect(2) [OF 4] by simp
  qed
qed

lemma call_effect: "mode_effect caller name args h (hub_call w caller name args h)"
proof (rule hub_call_cases [of w caller name args h])
  fix m assume m: "hub_call w caller name args h = m h" "name \<notin> set control_tools"
    "m \<in> {tool_events_newest w caller args, hub_activity_list args, hub_activity_get args}"
  then have "quiet_action (\<lambda>_. ()) m" using events_newest_quiet journal_reads_quiet by blast
  then show ?thesis unfolding m(1) using m(2) by (rule plain_effect)
qed (simp_all add: refused_effect system_effect recorded_effect [OF body_effect])

text \<open>A call changes the target only with the right to write, or as a takeover.\<close>

lemma call_target:
  assumes "reads_only (hw_api w) target" "target (hb_agent (snd (hub_call w caller name args h))) \<noteq> target (hb_agent h)"
  shows "may_write (ct_mode (hb_control h)) caller \<or> (name = ''control_takeover_manual'' \<and> trusted_human caller)"
proof (rule ccontr)
  assume no: "\<not> ?thesis"
  have guarded: "target (hb_agent (snd (dispatch_guarded w caller name args g))) = target (hb_agent g)"
    if "hb_control g = hb_control h" for g
    using dispatch_quiet [OF assms(1), of name caller g] no that by (simp add: write_permission_iff)
  have body: "target (hb_agent (snd (call_body w caller name args ident g))) = target (hb_agent g)"
    if g: "hb_control g = hb_control h" for ident g
  proof -
    have switch: "hb_agent (snd (switch_control w change ident g)) = hb_agent g" for change
      by (simp add: switch_control_def split: prod.splits sum.splits)
    have handed: "hb_agent (snd (call_handoff w caller args ident g)) = hb_agent g"
      by (cases "parse_mode (map_of args ''mode'')") (simp_all add: call_handoff_def switch)
    have taken: "hb_agent (snd (call_takeover w caller ident g)) = hb_agent g" if "name = ''control_takeover_manual''"
      using no that by (simp add: call_takeover_def begin_takeover_def)
    have "target (hb_agent (snd (call_tool w caller name args ident g))) = target (hb_agent g)"
    proof -
      obtain r g' where r: "dispatch_guarded w caller name args g = (r, g')" by (cases "dispatch_guarded w caller name args g")
      then show ?thesis using guarded [OF g] by (cases r) (simp_all add: call_tool_def Let_def)
    qed
    then show ?thesis using switch handed taken by (simp add: call_body_def)
  qed
  have "target (hb_agent (snd (hub_call w caller name args h))) = target (hb_agent h)"
  proof (rule hub_call_cases [of w caller name args h])
    fix m assume m: "hub_call w caller name args h = m h"
      "m \<in> {tool_events_newest w caller args, hub_activity_list args, hub_activity_get args}"
    then have "quiet_action target m" using read_tools_quiet(12) [OF assms(1)] journal_reads_quiet by blast
    then show ?thesis unfolding m(1) quiet_action_def by blast
  next
    fix audit assume "hub_call w caller name args h = recorded w caller name audit (call_body w caller name args) h"
    then show ?thesis using body by (simp add: recorded_def split: prod.splits)
  qed (use guarded in simp_all)
  then show False using assms(2) by simp
qed

subsection \<open>Histories\<close>

text \<open>A hub that serves call after call; the log keeps who called what and whether it succeeded.\<close>

type_synonym ('a, 'd) hub_input = "('a, 'd) hub_world \<times> caller \<times> string \<times> json_args"

record hub_event =
  he_caller :: caller
  he_name :: string
  he_args :: json_args
  he_ok :: bool

fun hub_run :: "('a, 'd) hub_input list \<Rightarrow> 'a hub \<Rightarrow> hub_event list \<times> 'a hub" where
  "hub_run [] h = ([], h)"
| "hub_run ((w, caller, name, args) # calls) h =
     (case hub_call w caller name args h of (result, h) \<Rightarrow>
      case hub_run calls h of (log, h) \<Rightarrow>
        (\<lparr>he_caller = caller, he_name = name, he_args = args, he_ok = is_ok result\<rparr> # log, h))"

text \<open>The mode a log leaves: what the last successful control call said.\<close>

fun mode_of_log :: "control_mode \<Rightarrow> hub_event list \<Rightarrow> control_mode" where
  "mode_of_log mode [] = mode"
| "mode_of_log mode (e # log) = mode_of_log (if he_ok e then next_mode mode (he_name e) (he_args e) else mode) log"

definition switches_trusted :: "hub_event list \<Rightarrow> bool" where
  "switches_trusted log \<longleftrightarrow> list_all (\<lambda>e. he_ok e \<and> he_name e \<in> set control_tools \<longrightarrow> trusted_human (he_caller e)) log"

lemma hub_run_mode:
  "hub_run calls h = (log, h') \<Longrightarrow>
     ct_mode (hb_control h') = mode_of_log (ct_mode (hb_control h)) log \<and> switches_trusted log"
proof (induction calls arbitrary: h log)
  case (Cons call calls)
  obtain w caller name args where call: "call = (w, caller, name, args)" by (cases call)
  obtain result g where g: "hub_call w caller name args h = (result, g)" by fastforce
  obtain rest where rest: "hub_run calls g = (rest, h')"
      "log = \<lparr>he_caller = caller, he_name = name, he_args = args, he_ok = is_ok result\<rparr> # rest"
    using Cons.prems by (auto simp: call g split: prod.splits)
  have "mode_effect caller name args h (result, g)" using call_effect [of caller name args h w] g by simp
  then have "ct_mode (hb_control g) = (if is_ok result then next_mode (ct_mode (hb_control h)) name args else ct_mode (hb_control h))"
      "is_ok result \<and> name \<in> set control_tools \<longrightarrow> trusted_human caller"
    by (auto simp: mode_effect_def)
  then show ?case using Cons.IH [OF rest(1)] rest(2) by (simp add: switches_trusted_def)
qed (simp add: switches_trusted_def)

text \<open>
  C36. The AI changes the target only while a trusted human lets it. Take any history of calls on a new hub, in
  which the answers of the agent are arbitrary, and any further call that changes the target, seen through any
  view that the agent's reads leave alone: if the AI made it, the last successful control call was a handoff to
  autonomous mode; if a human made it, the hub was in manual mode, or it is the pause of a takeover by a trusted
  human; the system never made it. And every control call that succeeded was made by a trusted human.
\<close>

theorem ai_changes_authorized:
  assumes "hub_run calls (hub_new api agent') = (log, h)" "reads_only (hw_api w) target"
    "target (hb_agent (snd (hub_call w caller name args h))) \<noteq> target (hb_agent h)"
  shows "switches_trusted log
    \<and> (case ca_actor caller of
         Ai \<Rightarrow> mode_of_log Manual log = Ai_autonomous
       | Human \<Rightarrow> mode_of_log Manual log = Manual \<or> (name = ''control_takeover_manual'' \<and> trusted_human caller)
       | System \<Rightarrow> False)"
proof -
  have "ct_mode (hb_control h) = mode_of_log Manual log" "switches_trusted log"
    using hub_run_mode [OF assms(1)] by (simp_all add: hub_new_def control_default_def control_new_def)
  then show ?thesis using call_target [OF assms(2,3)]
    by (auto simp: may_write_def trusted_human_def split: channel_actor.splits)
qed

text \<open>An agent that counts the bytes written to it; the human hands over, then the AI writes.\<close>

definition counting_api :: "nat agent_api" where
  "counting_api = \<lparr>ag_value = (\<lambda>r a. (Inr (JObject []), case r of Ag_memory_write _ data \<Rightarrow> a + length data | _ \<Rightarrow> a)),
     ag_flag = (\<lambda>_ a. (Inr True, a)), ag_unit = (\<lambda>_ a. (Inr (), a)), ag_set_port = (\<lambda>_ a. a), ag_port = (\<lambda>_. 0),
     ag_register_id = (\<lambda>_ a. (Inr 0, a)), ag_callback_count = (\<lambda>_ a. (Inr 0, a)), ag_script_load = (\<lambda>_ _ a. (Inr 0, a)),
     ag_script_list = (\<lambda>a. (Inr [], a)), ag_script_output = (\<lambda>_ _ a. (Inr (0, []), a))\<rparr>"

definition counting_world :: "(nat, unit) hub_world" where
  "counting_world = \<lparr>hw_api = counting_api, hw_hash = (\<lambda>s. s), hw_text = (\<lambda>_. []), hw_pretty = (\<lambda>_. []), hw_parse = (\<lambda>_. None),
     hw_float = (\<lambda>_. []), hw_double = (\<lambda>_. []), hw_decode_error = (\<lambda>_. []), hw_now = ''0'', hw_trace_path = Inr,
     hw_write_event_export = (\<lambda>n _. Inr n), hw_write_trace_export = (\<lambda>n _. Inr n), hw_file_bytes = (\<lambda>_. None),
     hw_store = \<lparr>st_rows = (\<lambda>_. []), st_empty = (), st_insert = (\<lambda>_ _. None), st_count = (\<lambda>_ _ _. 0), st_select = (\<lambda>_ _ _ _. [])\<rparr>,
     hw_database = (\<lambda>_. Inl (Internal [])), hw_database_bytes = (\<lambda>_. 0)\<rparr>"

definition handover :: "(nat, unit) hub_input list" where
  "handover = [(counting_world, TRUSTED_HUMAN, ''control_handoff_to_ai'', [(''mode'', JString ''ai_autonomous'')])]"

definition one_byte :: json_args where
  "one_byte = [(''address'', JString ''0x10''), (''data_hex'', JString ''2a'')]"

lemma counting_reads_only: "reads_only counting_api (\<lambda>n. n)"
proof -
  have "(case r of Ag_memory_write _ data \<Rightarrow> a + length data | _ \<Rightarrow> a) = a" if "\<not> changes_target r" for r and a :: nat
    using that by (cases r) simp_all
  then show ?thesis by (simp add: reads_only_def counting_api_def)
qed

lemma no_audit: "map_of args ''purpose'' = None \<Longrightarrow> map_of args ''parent_operation_id'' = None \<Longrightarrow> audit_args args j = Inr (None, None)"
  by (simp add: audit_args_def and_then_def)

lemma counting_handover:
  "hub_call counting_world TRUSTED_HUMAN ''control_handoff_to_ai'' [(''mode'', JString ''ai_autonomous'')] h = (r, g) \<Longrightarrow>
     ct_mode (hb_control g) = Ai_autonomous \<and> hb_agent g = hb_agent h"
proof -
  have "''control_handoff_to_ai'' \<in> set TOOL_NAMES" by (simp add: TOOL_NAMES_def)
  moreover have "parse_mode (map_of [(''mode'', JString ''ai_autonomous'')] ''mode'') = Inr Ai_autonomous" by code_simp
  moreover assume "hub_call counting_world TRUSTED_HUMAN ''control_handoff_to_ai'' [(''mode'', JString ''ai_autonomous'')] h = (r, g)"
  ultimately show ?thesis
    by (auto simp: hub_call_def TRUSTED_HUMAN_def no_audit recorded_def call_body_def call_handoff_def switch_control_def
        handoff_def trusted_human_def finish_activity_def split: prod.splits)
qed

lemma map_of_skip: "a \<noteq> k \<Longrightarrow> map_of xs k = r \<Longrightarrow> map_of ((a, v) # xs) k = r" by simp

lemma map_of_hit: "map_of ((k, v) # xs) k = Some v" by simp

lemma counting_write:
  assumes "ct_mode (hb_control h) = Ai_autonomous"
  shows "hb_agent (snd (hub_call counting_world AI ''memory_write'' one_byte h)) = Suc (hb_agent h)"
proof -
  have known: "''memory_write'' \<in> set TOOL_NAMES" by (simp add: TOOL_NAMES_def)
  have tool: "map_of (all_tools counting_world AI one_byte) ''memory_write'' = Some (tool_memory_write counting_world one_byte)"
    unfolding all_tools_def target_tools_def append_Cons by ((rule map_of_skip, (simp; fail))+, rule map_of_hit)
  have hex: "hex_digits (trim ''0x10'') = Some ''10''" by code_simp
  have "parse_digits 16 0 ''10'' = Some 16" by code_simp
  then have "parse_unsigned 16 (2 ^ 64) ''10'' = Some 16" unfolding parse_unsigned_def by (simp del: parse_digits.simps)
  then have "hub_parse_u64 ''0x10'' = Inr 16" by (simp add: hub_parse_u64_def hex del: power_numeral)
  moreover have "req one_byte ''address'' = Inr ''0x10''" by code_simp
  ultimately have address: "arg_u64 one_byte ''address'' = Inr 16" by (simp add: arg_u64_def and_then_def)
  have data: "and_then (req one_byte ''data_hex'') parse_hex = Inr [42]" by code_simp
  have audit: "audit_args one_byte j = Inr (None, None)" for j by (rule no_audit) (simp_all add: one_byte_def)
  have written: "\<exists>v. tool_memory_write counting_world one_byte g = (Inr v, g\<lparr>hb_agent := Suc (hb_agent g)\<rparr>)" for g
    by (simp add: tool_memory_write_def address data hub_m_defs ask_value_def hub_ask_def counting_world_def counting_api_def)
  have permitted: "write_permission AI (hb_control g) = Inr ()" if "hb_control g = hb_control h" for g
    using assms that by (simp add: write_permission_iff may_write_def AI_def)
  have guarded: "\<exists>v. dispatch_guarded counting_world AI ''memory_write'' one_byte g = (Inr v, g\<lparr>hb_agent := Suc (hb_agent g)\<rparr>)"
    if "hb_control g = hb_control h" for g
    using permitted [OF that] written [of g] by (simp add: dispatch_guarded_def hub_m_defs tool split: unit.split)
  have body: "call_body counting_world AI ''memory_write'' one_byte = call_tool counting_world AI ''memory_write'' one_byte"
    by (simp add: call_body_def)
  have "ca_actor AI \<noteq> System" by (simp add: AI_def)
  then have call: "hub_call counting_world AI ''memory_write'' one_byte h
      = recorded counting_world AI ''memory_write'' (None, None) (call_tool counting_world AI ''memory_write'' one_byte) h"
    using known by (simp add: hub_call_def audit body)
  obtain ident j where begun: "journal_begin (hw_now counting_world) (actor_name AI) ''memory_write'' None None (hb_journal h) = (ident, j)"
    by fastforce
  obtain v where "dispatch_guarded counting_world AI ''memory_write'' one_byte (h\<lparr>hb_journal := j\<rparr>)
      = (Inr v, h\<lparr>hb_journal := j, hb_agent := Suc (hb_agent h)\<rparr>)"
    using guarded [of "h\<lparr>hb_journal := j\<rparr>"] by auto
  then show ?thesis by (simp add: call recorded_def begun call_tool_def Let_def finish_activity_def)
qed

lemma ai_changes_authorized_witness:
  "mode_of_log Manual (fst (hub_run handover (hub_new counting_api 0))) = Ai_autonomous
     \<and> hb_agent (snd (hub_call counting_world AI ''memory_write'' one_byte (snd (hub_run handover (hub_new counting_api 0))))) = 1"
proof -
  let ?h = "snd (hub_run handover (hub_new counting_api 0))" and ?log = "fst (hub_run handover (hub_new counting_api 0))"
  obtain r g where g: "hub_call counting_world TRUSTED_HUMAN ''control_handoff_to_ai'' [(''mode'', JString ''ai_autonomous'')]
      (hub_new counting_api 0) = (r, g)" by fastforce
  then have h: "?h = g" "ct_mode (hb_control g) = Ai_autonomous \<and> hb_agent g = 0"
    using counting_handover [OF g] by (simp_all add: handover_def hub_new_def)
  then have written: "hb_agent (snd (hub_call counting_world AI ''memory_write'' one_byte ?h)) = 1" "hb_agent ?h = 0"
    by (simp_all add: counting_write)
  moreover have "reads_only (hw_api counting_world) (\<lambda>n. n)" using counting_reads_only by (simp add: counting_world_def)
  ultimately have "case ca_actor AI of Ai \<Rightarrow> mode_of_log Manual ?log = Ai_autonomous | _ \<Rightarrow> True"
    using ai_changes_authorized [of handover counting_api 0 ?log ?h counting_world "\<lambda>n. n" AI "''memory_write''" one_byte]
    by (simp add: AI_def)
  then show ?thesis using written by (simp add: AI_def)
qed

end
