(* ===== verification/Pb_Hub_Ipc.thy ===== *)
theory Pb_Hub_Ipc
  imports Pb_Hub_Safety
begin

section \<open>The hub's connections (ipc.rs, main.rs)\<close>

text \<open>
  \<open>bindings/rust/pinbridge-hub-core/src/ipc.rs\<close> and the handler of \<open>pinbridge-hub/src/main.rs\<close>: frames with
  a length, the secret that makes a connection human or AI, and the loop that answers the requests of one
  connection. The workers of the listener are the connections of a list, each of which serves one frame in a
  step; a schedule picks the next one. Reading and printing JSON is a parameter; time-outs, the limit on the
  number of connections and the accept loop are left out.
\<close>

definition MAX_FRAME_BYTES :: nat where "MAX_FRAME_BYTES = 16 * 1024 * 1024"
definition MAX_REQUEST_BYTES :: nat where "MAX_REQUEST_BYTES = 2 * 1024 * 1024"
definition MIN_SECRET_BYTES :: nat where "MIN_SECRET_BYTES = 16"
definition MAX_SECRET_BYTES :: nat where "MAX_SECRET_BYTES = 4096"

datatype ipc_error = Ipc_io io_error | Frame_too_large | Invalid_frame string | Unauthorized

record ipc_hello =
  ih_channel :: string
  ih_secret :: string

record ipc_request =
  iq_id :: json
  iq_method :: string
  iq_params :: json_args

record ipc_response =
  ir_id :: json
  ir_ok :: bool
  ir_result :: "json option"
  ir_error :: "string option"
  ir_operation_id :: "string option"

text \<open>\<open>serde_json::from_slice\<close> and \<open>to_vec\<close>, and the texts of the errors of \<open>from_slice\<close> and \<open>from_value\<close>.\<close>

record ipc_codec =
  ic_parse :: "bytes \<Rightarrow> string + json"
  ic_print :: "json \<Rightarrow> bytes"
  ic_decode_error :: "json \<Rightarrow> string"

subsection \<open>Secrets\<close>

definition constant_eq :: "string \<Rightarrow> string \<Rightarrow> bool" where
  "constant_eq a b \<longleftrightarrow>
     length a = length b \<and> fold (\<lambda>(x, y) d. d OR (x XOR y)) (zip (str_bytes a) (str_bytes b)) 0 = 0"

definition authenticate :: "ipc_hello \<Rightarrow> string \<Rightarrow> string \<Rightarrow> ipc_error + caller" where
  "authenticate hello human_secret ai_secret =
     (if ih_channel hello = ''human'' \<and> constant_eq (ih_secret hello) human_secret
      then Inr \<lparr>ca_actor = Human, ca_trusted = True\<rparr>
      else if ih_channel hello = ''ai'' \<and> constant_eq (ih_secret hello) ai_secret
      then Inr \<lparr>ca_actor = Ai, ca_trusted = False\<rparr>
      else Inl Unauthorized)"

definition validate_secrets :: "string \<Rightarrow> string \<Rightarrow> ipc_error + unit" where
  "validate_secrets human ai =
     (if length human < MIN_SECRET_BYTES \<or> length ai < MIN_SECRET_BYTES \<or> length human > MAX_SECRET_BYTES
         \<or> length ai > MAX_SECRET_BYTES \<or> constant_eq human ai
      then Inl Unauthorized else Inr ())"

subsection \<open>Frames\<close>

definition read_ipc_frame :: "ipc_codec \<Rightarrow> nat \<Rightarrow> bytes \<Rightarrow> ipc_error + json \<times> bytes" where
  "read_ipc_frame codec limit stream =
     (case read_exact stream 4 of
        Inl e \<Rightarrow> Inl (Ipc_io e)
      | Inr (len, stream) \<Rightarrow>
          (let n = unat (of_le len :: u32)
           in if n = 0 \<or> n > limit then Inl Frame_too_large
              else case read_exact stream n of
                     Inl e \<Rightarrow> Inl (Ipc_io e)
                   | Inr (b, stream) \<Rightarrow>
                       (case ic_parse codec b of Inl e \<Rightarrow> Inl (Invalid_frame e) | Inr v \<Rightarrow> Inr (v, stream))))"

definition write_ipc_frame :: "ipc_codec \<Rightarrow> nat \<Rightarrow> json \<Rightarrow> ipc_error + bytes" where
  "write_ipc_frame codec limit v =
     (let b = ic_print codec v
      in if length b > limit then Inl Frame_too_large else Inr (le_u32 (word_of_nat (length b)) @ b))"

text \<open>
  The derived \<open>Deserialize\<close> of a struct: an object with the members, whatever else it has, or an array of the
  members in their order; \<open>params\<close> may be missing.
\<close>

definition ipc_hello_of :: "json \<Rightarrow> ipc_hello option" where
  "ipc_hello_of v =
     (case v of
        JObject members \<Rightarrow>
          (case (map_of members ''channel'', map_of members ''secret'') of
             (Some (JString c), Some (JString s)) \<Rightarrow> Some \<lparr>ih_channel = c, ih_secret = s\<rparr>
           | _ \<Rightarrow> None)
      | JArray [JString c, JString s] \<Rightarrow> Some \<lparr>ih_channel = c, ih_secret = s\<rparr>
      | _ \<Rightarrow> None)"

definition ipc_params :: "json option \<Rightarrow> json_args option" where
  "ipc_params v = (case v of None \<Rightarrow> Some [] | Some (JObject members) \<Rightarrow> Some members | Some _ \<Rightarrow> None)"

definition ipc_request_from :: "json option \<Rightarrow> json option \<Rightarrow> json option \<Rightarrow> ipc_request option" where
  "ipc_request_from ident name params =
     (case (ident, name, ipc_params params) of
        (Some i, Some (JString n), Some ps) \<Rightarrow> Some \<lparr>iq_id = i, iq_method = n, iq_params = ps\<rparr>
      | _ \<Rightarrow> None)"

definition ipc_request_of :: "json \<Rightarrow> ipc_request option" where
  "ipc_request_of v =
     (case v of
        JObject members \<Rightarrow>
          ipc_request_from (map_of members ''id'') (map_of members ''method'') (map_of members ''params'')
      | JArray [ident, name] \<Rightarrow> ipc_request_from (Some ident) (Some name) None
      | JArray [ident, name, params] \<Rightarrow> ipc_request_from (Some ident) (Some name) (Some params)
      | _ \<Rightarrow> None)"

definition ipc_response_json :: "ipc_response \<Rightarrow> json" where
  "ipc_response_json r =
     JObject ([(''id'', ir_id r), (''ok'', JBool (ir_ok r))]
       @ (case ir_result r of None \<Rightarrow> [] | Some v \<Rightarrow> [(''result'', v)])
       @ (case ir_error r of None \<Rightarrow> [] | Some e \<Rightarrow> [(''error'', JString e)])
       @ (case ir_operation_id r of None \<Rightarrow> [] | Some i \<Rightarrow> [(''operation_id'', JString i)]))"

subsection \<open>Serving\<close>

fun error_operation_id :: "hub_error \<Rightarrow> string option" where
  "error_operation_id (Operation ident source) = Some ident"
| "error_operation_id e = None"

definition handle_request :: "('a, 'd) hub_world \<Rightarrow> caller \<Rightarrow> ipc_request \<Rightarrow> 'a hub \<Rightarrow> ipc_response \<times> 'a hub" where
  "handle_request w caller request h =
     (case hub_call w caller (iq_method request) (iq_params request) h of
        (Inr result, h) \<Rightarrow>
          (\<lparr>ir_id = iq_id request, ir_ok = True, ir_result = Some result, ir_error = None,
             ir_operation_id = Option.bind (json_get ''operation_id'' result) json_as_str\<rparr>, h)
      | (Inl e, h) \<Rightarrow>
          (\<lparr>ir_id = iq_id request, ir_ok = False, ir_result = None, ir_error = Some (error_text e),
             ir_operation_id = error_operation_id e\<rparr>, h))"

text \<open>One connection: who it is once the hello has been read, what is left to read and what was written.\<close>

record ipc_connection =
  cx_open :: bool
  cx_caller :: "caller option"
  cx_in :: bytes
  cx_out :: bytes

definition ipc_accept :: "bytes \<Rightarrow> ipc_connection" where
  "ipc_accept stream = \<lparr>cx_open = True, cx_caller = None, cx_in = stream, cx_out = []\<rparr>"

definition serve_hello :: "ipc_codec \<Rightarrow> string \<Rightarrow> string \<Rightarrow> ipc_connection \<Rightarrow> ipc_connection" where
  "serve_hello codec human ai cx =
     (case read_ipc_frame codec MAX_REQUEST_BYTES (cx_in cx) of
        Inl _ \<Rightarrow> cx\<lparr>cx_open := False\<rparr>
      | Inr (v, rest) \<Rightarrow>
          (case ipc_hello_of v of
             None \<Rightarrow> cx\<lparr>cx_open := False\<rparr>
           | Some hello \<Rightarrow>
               (case authenticate hello human ai of
                  Inl _ \<Rightarrow> cx\<lparr>cx_open := False\<rparr>
                | Inr caller \<Rightarrow> cx\<lparr>cx_caller := Some caller, cx_in := rest\<rparr>)))"

definition serve_request ::
  "ipc_codec \<Rightarrow> ('a, 'd) hub_world \<Rightarrow> caller \<Rightarrow> ipc_connection \<Rightarrow> 'a hub \<Rightarrow> ipc_connection \<times> 'a hub" where
  "serve_request codec w caller cx h =
     (case read_ipc_frame codec MAX_REQUEST_BYTES (cx_in cx) of
        Inl _ \<Rightarrow> (cx\<lparr>cx_open := False\<rparr>, h)
      | Inr (v, rest) \<Rightarrow>
          (case ipc_request_of v of
             None \<Rightarrow> (cx\<lparr>cx_open := False\<rparr>, h)
           | Some request \<Rightarrow>
               (case handle_request w caller request h of
                  (response, h) \<Rightarrow>
                    (case write_ipc_frame codec MAX_FRAME_BYTES (ipc_response_json response) of
                       Inl _ \<Rightarrow> (cx\<lparr>cx_open := False, cx_in := rest\<rparr>, h)
                     | Inr out \<Rightarrow> (cx\<lparr>cx_in := rest, cx_out := cx_out cx @ out\<rparr>, h)))))"

definition serve_step ::
  "ipc_codec \<Rightarrow> string \<Rightarrow> string \<Rightarrow> ('a, 'd) hub_world \<Rightarrow> ipc_connection \<Rightarrow> 'a hub \<Rightarrow> ipc_connection \<times> 'a hub" where
  "serve_step codec human ai w cx h =
     (if \<not> cx_open cx then (cx, h)
      else case cx_caller cx of
             None \<Rightarrow> (serve_hello codec human ai cx, h)
           | Some caller \<Rightarrow> serve_request codec w caller cx h)"

text \<open>\<open>spawn_listener\<close>: the secrets are checked, then the workers run as the schedule says.\<close>

type_synonym ('a, 'd) ipc_schedule = "(nat \<times> ('a, 'd) hub_world) list"

fun serve_all ::
  "ipc_codec \<Rightarrow> string \<Rightarrow> string \<Rightarrow> ('a, 'd) ipc_schedule \<Rightarrow> ipc_connection list \<Rightarrow> 'a hub \<Rightarrow> ipc_connection list \<times> 'a hub" where
  "serve_all codec human ai [] cxs h = (cxs, h)"
| "serve_all codec human ai ((i, w) # schedule) cxs h =
     (if i < length cxs
      then (case serve_step codec human ai w (cxs ! i) h of
              (cx, h) \<Rightarrow> serve_all codec human ai schedule (cxs[i := cx]) h)
      else serve_all codec human ai schedule cxs h)"

definition spawn_listener ::
  "ipc_codec \<Rightarrow> string \<Rightarrow> string \<Rightarrow> ('a, 'd) ipc_schedule \<Rightarrow> bytes list \<Rightarrow> 'a hub \<Rightarrow> ipc_error + ipc_connection list \<times> 'a hub" where
  "spawn_listener codec human ai schedule streams h =
     (case validate_secrets human ai of
        Inl e \<Rightarrow> Inl e
      | Inr _ \<Rightarrow> Inr (serve_all codec human ai schedule (map ipc_accept streams) h))"

subsection \<open>A request and its answer on the client's side\<close>

definition ipc_request_json :: "ipc_request \<Rightarrow> json" where
  "ipc_request_json r = JObject [(''id'', iq_id r), (''method'', JString (iq_method r)), (''params'', JObject (iq_params r))]"

definition ipc_hello_json :: "ipc_hello \<Rightarrow> json" where
  "ipc_hello_json hello = JObject [(''channel'', JString (ih_channel hello)), (''secret'', JString (ih_secret hello))]"

definition ipc_connect :: "ipc_codec \<Rightarrow> ipc_hello \<Rightarrow> ipc_error + bytes" where
  "ipc_connect codec hello = write_ipc_frame codec MAX_REQUEST_BYTES (ipc_hello_json hello)"

text \<open>What the derived parser takes for a response; a member with the wrong type is refused.\<close>

definition ipc_text :: "json option \<Rightarrow> string option option" where
  "ipc_text v = (case v of None \<Rightarrow> Some None | Some JNull \<Rightarrow> Some None | Some (JString s) \<Rightarrow> Some (Some s) | Some _ \<Rightarrow> None)"

definition ipc_response_from ::
  "json option \<Rightarrow> json option \<Rightarrow> json option \<Rightarrow> json option \<Rightarrow> json option \<Rightarrow> ipc_response option" where
  "ipc_response_from ident ok result error operation =
     (case (ident, ok, ipc_text error, ipc_text operation) of
        (Some i, Some (JBool b), Some e, Some j) \<Rightarrow>
          Some \<lparr>ir_id = i, ir_ok = b, ir_result = (if result = Some JNull then None else result), ir_error = e,
            ir_operation_id = j\<rparr>
      | _ \<Rightarrow> None)"

definition ipc_response_of :: "json \<Rightarrow> ipc_response option" where
  "ipc_response_of v =
     (case v of
        JObject members \<Rightarrow>
          ipc_response_from (map_of members ''id'') (map_of members ''ok'') (map_of members ''result'')
            (map_of members ''error'') (map_of members ''operation_id'')
      | JArray [i, b, r, e, j] \<Rightarrow> ipc_response_from (Some i) (Some b) (Some r) (Some e) (Some j)
      | _ \<Rightarrow> None)"

definition ipc_send :: "ipc_codec \<Rightarrow> ipc_request \<Rightarrow> ipc_error + bytes" where
  "ipc_send codec request = write_ipc_frame codec MAX_REQUEST_BYTES (ipc_request_json request)"

definition ipc_receive :: "ipc_codec \<Rightarrow> json \<Rightarrow> bytes \<Rightarrow> ipc_error + ipc_response \<times> bytes" where
  "ipc_receive codec ident stream =
     (case read_ipc_frame codec MAX_FRAME_BYTES stream of
        Inl e \<Rightarrow> Inl e
      | Inr (v, rest) \<Rightarrow>
          (case ipc_response_of v of
             None \<Rightarrow> Inl (Invalid_frame (ic_decode_error codec v))
           | Some response \<Rightarrow>
               if ir_id response \<noteq> ident then Inl (Invalid_frame ''response id mismatch'') else Inr (response, rest)))"

subsection \<open>A request reaches the hub and its response the client\<close>

lemma json_parts:
  "ipc_hello_of (ipc_hello_json hello) = Some hello"
  "ipc_request_of (ipc_request_json request) = Some request"
  by (simp_all add: ipc_hello_of_def ipc_hello_json_def ipc_request_of_def ipc_request_json_def ipc_request_from_def ipc_params_def)

lemma ipc_response_back: "ir_result r \<noteq> Some JNull \<Longrightarrow> ipc_response_of (ipc_response_json r) = Some r"
  by (cases r; cases "ir_result r"; cases "ir_error r"; cases "ir_operation_id r")
    (auto simp: ipc_response_of_def ipc_response_json_def ipc_response_from_def ipc_text_def)

lemma ipc_frame_back:
  assumes "write_ipc_frame codec limit v = Inr out" "ic_parse codec (ic_print codec v) = Inr v" "ic_print codec v \<noteq> []"
    "limit < 2 ^ 32"
  shows "read_ipc_frame codec limit (out @ rest) = Inr (v, rest)"
proof -
  let ?b = "ic_print codec v"
  have b: "length ?b \<le> limit" "out = le_u32 (word_of_nat (length ?b)) @ ?b"
    using assms(1) by (auto simp: write_ipc_frame_def Let_def split: if_splits)
  have "unat (word_of_nat (length ?b) :: u32) = length ?b" using b(1) assms(4) by (simp add: unat_of_nat)
  then show ?thesis using b assms(2,3) by (simp add: read_ipc_frame_def read_exact_def of_le_le_u32)
qed

text \<open>
  What a client sends as one request the hub serves as that request, and the client reads the hub's response,
  if the codec reads back what it prints and neither frame is too large.
\<close>

lemma ipc_call_served:
  assumes "\<And>v. ic_parse codec (ic_print codec v) = Inr v \<and> ic_print codec v \<noteq> []"
    and "ipc_send codec request = Inr out" "handle_request w caller request h = (response, g)"
    and "write_ipc_frame codec MAX_FRAME_BYTES (ipc_response_json response) = Inr answer" "ir_result response \<noteq> Some JNull"
  shows "serve_request codec w caller (cx\<lparr>cx_in := out @ rest\<rparr>) h = (cx\<lparr>cx_in := rest, cx_out := cx_out cx @ answer\<rparr>, g)
    \<and> ipc_receive codec (iq_id request) (answer @ more') = Inr (response, more')"
proof -
  have limits: "MAX_REQUEST_BYTES < 2 ^ 32" "MAX_FRAME_BYTES < 2 ^ 32" by (simp_all add: MAX_REQUEST_BYTES_def MAX_FRAME_BYTES_def)
  have "read_ipc_frame codec MAX_REQUEST_BYTES (out @ rest) = Inr (ipc_request_json request, rest)"
    using ipc_frame_back [OF assms(2) [unfolded ipc_send_def] _ _ limits(1)] assms(1) by blast
  then have served: "serve_request codec w caller (cx\<lparr>cx_in := out @ rest\<rparr>) h = (cx\<lparr>cx_in := rest, cx_out := cx_out cx @ answer\<rparr>, g)"
    using assms(3,4) by (simp add: serve_request_def json_parts)
  have "ir_id response = iq_id request"
    using assms(3) by (auto simp: handle_request_def split: prod.splits sum.splits)
  moreover have "read_ipc_frame codec MAX_FRAME_BYTES (answer @ more') = Inr (ipc_response_json response, more')"
    using ipc_frame_back [OF assms(4) _ _ limits(2)] assms(1) by blast
  ultimately show ?thesis using served by (simp add: ipc_receive_def ipc_response_back [OF assms(5)])
qed

subsection \<open>Secrets guard the target\<close>

lemma xor_zero: "(x :: u8) XOR y = 0 \<longleftrightarrow> x = y"
proof
  assume zero: "x XOR y = 0"
  have "y = x XOR (x XOR y)" by (simp add: xor.assoc [symmetric])
  also have "\<dots> = x" by (simp add: zero)
  finally show "x = y" by simp
qed simp

lemma or_xor_zero: "(d :: u8) OR (x XOR y) = 0 \<longleftrightarrow> d = 0 \<and> x = y"
  by (simp only: or_eq_0_iff xor_zero)

lemma fold_or_zero: "fold (\<lambda>(x, y) d. d OR (x XOR y)) xs (d :: u8) = 0 \<longleftrightarrow> d = 0 \<and> list_all (\<lambda>(x, y). x = y) xs"
proof (induction xs arbitrary: d)
  case (Cons p xs)
  show ?case by (cases p) (simp only: fold_simps split_conv Cons.IH or_xor_zero list.pred_inject conj_assoc)
qed simp

lemma unat_of_char: "unat (of_char c :: u8) = of_char c"
proof -
  have "(of_char c :: u8) = word_of_nat (of_char c)" by (simp only: of_nat_of_char)
  moreover have "(of_char c :: nat) < 256" by simp
  ultimately show ?thesis by (simp only: unat_of_nat) simp
qed

lemma u8_of_char: "(of_char c :: u8) = of_char d \<longleftrightarrow> c = d"
  by (metis unat_of_char of_char_eq_iff)

lemma str_bytes_eq: "str_bytes a = str_bytes b \<longleftrightarrow> a = b"
  by (auto simp: str_bytes_def inj_map_eq_map inj_on_def u8_of_char)

lemma constant_eq_iff: "constant_eq a b \<longleftrightarrow> a = b"
proof
  assume eq: "constant_eq a b"
  then have "list_all (\<lambda>(x, y). x = y) (zip (str_bytes a) (str_bytes b))" "length (str_bytes a) = length (str_bytes b)"
    by (auto simp: constant_eq_def fold_or_zero str_bytes_def)
  then have "str_bytes a = str_bytes b" by (auto simp: list_all_iff list_eq_iff_zip_eq)
  then show "a = b" by (simp add: str_bytes_eq)
next
  show "a = b \<Longrightarrow> constant_eq a b" by (auto simp: constant_eq_def fold_or_zero list_all_iff zip_same_conv_map)
qed

text \<open>The hello a human sends.\<close>

definition human_hello :: "string \<Rightarrow> ipc_hello \<Rightarrow> bool" where
  "human_hello human hello \<longleftrightarrow> ih_channel hello = ''human'' \<and> ih_secret hello = human"

lemma authenticate_callers:
  "authenticate hello human ai = Inr caller \<Longrightarrow> caller = AI \<or> (caller = TRUSTED_HUMAN \<and> human_hello human hello)"
  by (auto simp: authenticate_def constant_eq_iff human_hello_def AI_def TRUSTED_HUMAN_def split: if_splits)

text \<open>A connection on which no human's hello has been read.\<close>

definition no_human :: "ipc_codec \<Rightarrow> string \<Rightarrow> ipc_connection \<Rightarrow> bool" where
  "no_human codec human cx \<longleftrightarrow>
     (case cx_caller cx of
        None \<Rightarrow> \<forall>v rest hello. read_ipc_frame codec MAX_REQUEST_BYTES (cx_in cx) = Inr (v, rest) \<longrightarrow>
                  ipc_hello_of v = Some hello \<longrightarrow> \<not> human_hello human hello
      | Some caller \<Rightarrow> caller = AI)"

lemma no_human_callers: "no_human codec human cx \<Longrightarrow> cx_caller cx = None \<or> cx_caller cx = Some AI"
  by (simp add: no_human_def split: option.splits)

lemma serve_hello_no_human:
  "no_human codec human cx \<Longrightarrow> cx_caller cx = None \<Longrightarrow> no_human codec human (serve_hello codec human ai cx)"
  by (auto simp: no_human_def serve_hello_def dest!: authenticate_callers split: sum.splits option.splits)

definition guarded_hub :: "('a \<Rightarrow> 't) \<Rightarrow> 't \<Rightarrow> 'a hub \<Rightarrow> bool" where
  "guarded_hub target t h \<longleftrightarrow> target (hb_agent h) = t \<and> ct_mode (hb_control h) = Manual"

lemma ai_call_guarded:
  assumes "reads_only (hw_api w) target" "guarded_hub target t h"
  shows "guarded_hub target t (snd (hub_call w AI name args h))"
proof -
  obtain r g where g: "hub_call w AI name args h = (r, g)" by fastforce
  have "\<not> trusted_human AI" by (simp add: trusted_human_def AI_def)
  then have "ct_mode (hb_control g) = ct_mode (hb_control h)"
    using call_effect [of AI name args h w] g by (auto simp: mode_effect_def next_mode_def control_tools_def split: if_splits)
  moreover have "target (hb_agent g) = target (hb_agent h)"
    using call_target [OF assms(1), of AI name args h] assms(2) g
    by (auto simp: guarded_hub_def may_write_def trusted_human_def AI_def)
  ultimately show ?thesis using assms(2) g by (simp add: guarded_hub_def)
qed

lemma serve_step_guarded:
  assumes "no_human codec human cx" "reads_only (hw_api w) target" "guarded_hub target t h"
    "serve_step codec human ai w cx h = (cx', h')"
  shows "no_human codec human cx' \<and> guarded_hub target t h'"
proof (cases "cx_caller cx")
  case None
  then show ?thesis using assms serve_hello_no_human [OF assms(1), of ai] by (auto simp: serve_step_def split: if_splits)
next
  case (Some caller)
  then have caller: "caller = AI" using assms(1) by (simp add: no_human_def)
  have kept: "no_human codec human cx'" if "cx_caller cx' = Some AI" for cx' using that by (simp add: no_human_def)
  have handled: "guarded_hub target t (snd (handle_request w AI request h))" for request
    using ai_call_guarded [OF assms(2,3), of "iq_method request" "iq_params request"]
    by (auto simp: handle_request_def split: prod.splits sum.splits)
  show ?thesis
    using assms(3,4) Some caller handled
    by (auto simp: serve_step_def serve_request_def intro!: kept split: if_splits sum.splits option.splits prod.splits)
      (metis snd_conv)+
qed

lemma serve_all_guarded:
  assumes "serve_all codec human ai schedule cxs h = (cxs', h')" "list_all (no_human codec human) cxs" "guarded_hub target t h"
    "\<And>i w. (i, w) \<in> set schedule \<Longrightarrow> reads_only (hw_api w) target"
  shows "list_all (no_human codec human) cxs' \<and> guarded_hub target t h'"
  using assms
proof (induction codec human ai schedule cxs h rule: serve_all.induct)
  case (2 codec human ai i w schedule cxs h)
  have api: "reads_only (hw_api w) target" by (rule "2.prems"(4) [of i]) simp
  obtain cx g where g: "serve_step codec human ai w (cxs ! i) h = (cx, g)" by fastforce
  show ?case
  proof (cases "i < length cxs")
    case True
    then have step: "no_human codec human cx \<and> guarded_hub target t g"
      using serve_step_guarded [OF _ api "2.prems"(3) g] "2.prems"(2) by (simp add: list_all_length)
    have "list_all (no_human codec human) (cxs[i := cx])"
      using "2.prems"(2) step True by (simp add: list_all_length nth_list_update)
    then show ?thesis using "2.IH"(1) [OF True g [symmetric]] "2.prems"(1,4) step True g by auto
  next
    case False
    then show ?thesis using "2.IH"(2) [OF False] "2.prems" by auto
  qed
qed simp

text \<open>
  Any number of connections with any bytes, served frame by frame in any order: without a human's hello
  the target stays as it was, the hub in manual mode, and no connection becomes a human's.
\<close>

lemma listener_guarded:
  assumes "spawn_listener codec human ai schedule streams (hub_new api agent') = Inr (cxs, h)"
    and "\<And>stream v rest hello. stream \<in> set streams \<Longrightarrow> read_ipc_frame codec MAX_REQUEST_BYTES stream = Inr (v, rest) \<Longrightarrow>
      ipc_hello_of v = Some hello \<Longrightarrow> \<not> human_hello human hello"
    and "\<And>i w. (i, w) \<in> set schedule \<Longrightarrow> reads_only (hw_api w) target"
  shows "guarded_hub target (target agent') h \<and> list_all (no_human codec human) cxs"
proof -
  have run: "serve_all codec human ai schedule (map ipc_accept streams) (hub_new api agent') = (cxs, h)"
    using assms(1) by (simp add: spawn_listener_def split: sum.splits unit.splits)
  have start: "list_all (no_human codec human) (map ipc_accept streams)"
    using assms(2) by (auto simp: list_all_iff no_human_def ipc_accept_def)
  have "guarded_hub target (target agent') (hub_new api agent')"
    by (simp add: guarded_hub_def hub_new_def control_default_def control_new_def)
  from serve_all_guarded [OF run start this assms(3)] show ?thesis by simp
qed

lemma ipc_accept_new: "cx_open (ipc_accept stream)" "cx_caller (ipc_accept stream) = None"
  by (simp_all add: ipc_accept_def)

lemma serve_request_caller: "cx_caller (fst (serve_request codec w caller cx h)) = cx_caller cx"
  by (simp add: serve_request_def split: sum.splits option.splits prod.splits)

lemma serve_step_caller: "cx_caller cx = Some caller \<Longrightarrow> cx_caller (fst (serve_step codec human ai w cx h)) = Some caller"
  by (simp add: serve_step_def serve_request_caller)

end
