(* ===== verification/Pb_Connection.thy ===== *)
theory Pb_Connection
  imports Pb_Hub_Arguments Pb_Script_Wire
begin

unbundle bit_operations_syntax

section \<open>The hub's connection to the agent (agent.rs)\<close>

text \<open>
  \<open>AgentConnection\<close> of \<open>bindings/rust/pinbridge-hub-core/src/agent.rs\<close>: each method connects, makes one or
  several calls of the client library and turns what it reads into JSON. The methods are those of the trait
  in the order of the code; \<open>connection_api\<close> makes them the interface the hub uses. What is behind the port is
  the state \<open>'s\<close> of a peer.
\<close>

text \<open>
  \<open>tp_connect\<close> is \<open>Client::connect\<close> with its error already turned into an \<open>AgentError\<close>, \<open>tp_message\<close> the text of
  an error of the client.
\<close>

record 's transport =
  tp_connect :: "u16 \<Rightarrow> 's \<Rightarrow> (agent_error + unit) \<times> 's"
  tp_peer :: "u16 \<Rightarrow> 's peer"
  tp_message :: "client_error \<Rightarrow> string"

record 's connection =
  cn_port :: u16
  cn_requests :: u64
  cn_pointer_width :: u64
  cn_hook_symbols :: "u64 \<rightharpoonup> string \<times> string"
  cn_process :: 's

type_synonym ('s, 'v) conversation = "('s connection, client_error, 'v) fallible"
type_synonym ('s, 'v) agent_call = "('s connection, agent_error, 'v) fallible"

definition connection_new :: "u16 \<Rightarrow> 's \<Rightarrow> 's connection" where
  "connection_new port s = \<lparr>cn_port = port, cn_requests = 0, cn_pointer_width = 0, cn_hook_symbols = Map.empty, cn_process = s\<rparr>"

text \<open>Of the kinds of error the client makes itself only the end of the stream counts as a lost connection.\<close>

definition map_error :: "'s transport \<Rightarrow> client_error \<Rightarrow> agent_error" where
  "map_error t e = (if e = Io UnexpectedEof then Agent_connection (tp_message t e) else Agent_operation (tp_message t e))"

definition with_client :: "'s transport \<Rightarrow> ('s, 'v) conversation \<Rightarrow> ('s, 'v) agent_call" where
  "with_client t f cn =
     (let cn = cn\<lparr>cn_requests := cn_requests cn + 1\<rparr>
      in case tp_connect t (cn_port cn) (cn_process cn) of
           (Inl e, s) \<Rightarrow> (Inl e, cn\<lparr>cn_process := s\<rparr>)
         | (Inr _, s) \<Rightarrow> (case f (cn\<lparr>cn_process := s\<rparr>) of (r, cn) \<Rightarrow> (map_sum (map_error t) id r, cn)))"

text \<open>One call of the client.\<close>

definition say :: "'s transport \<Rightarrow> ('s peer \<Rightarrow> ('s, 'v) call) \<Rightarrow> ('s, 'v) conversation" where
  "say t call cn = (case call (tp_peer t (cn_port cn)) (cn_process cn) of (r, s) \<Rightarrow> (r, cn\<lparr>cn_process := s\<rparr>))"

definition said :: "('v \<Rightarrow> 'w) \<Rightarrow> ('s, 'v) conversation \<Rightarrow> ('s, 'w) conversation" where
  "said f m = hub_then m (\<lambda>v. done_with (f v))"

subsection \<open>Values\<close>

definition jdec :: "'w::len word \<Rightarrow> json" where "jdec v = JString (show_nat (unat v))"
definition jcount :: "'v list \<Rightarrow> json" where "jcount xs = JString (show_nat (length xs))"
definition jhex :: "'w::len word \<Rightarrow> json" where "jhex v = JString (show_hex (unat v))"
definition jcode :: "u32 \<Rightarrow> json" where "jcode v = JString (''0x'' @ pad_hex 8 (unat v))"
definition wire_text :: "bytes \<Rightarrow> string" where "wire_text bs = map (\<lambda>b. char_of (unat b)) bs"
definition jtext :: "bytes \<Rightarrow> json" where "jtext bs = JString (wire_text bs)"
definition jmaybe :: "('v \<Rightarrow> json) \<Rightarrow> 'v option \<Rightarrow> json" where "jmaybe f v = json_option (map_option f v)"
definition jlist :: "('v \<Rightarrow> json) \<Rightarrow> 'v list \<Rightarrow> json" where "jlist f vs = JArray (map f vs)"

definition bytes_hex :: "bytes \<Rightarrow> string" where "bytes_hex bs = concat (map (\<lambda>b. pad_hex 2 (unat b)) bs)"

text \<open>\<open>Resolution::display\<close> of \<open>client.rs\<close>.\<close>

definition resolution_display :: "resolution \<Rightarrow> string option" where
  "resolution_display r =
     (let module = wire_text (rs_module r); symbol = wire_text (rs_symbol r)
      in if rs_kind r = 2 \<and> rs_offset r > 0 then Some (module @ ''!'' @ symbol @ ''+'' @ show_hex (unat (rs_offset r)))
         else if rs_kind r = 2 then Some (module @ ''!'' @ symbol)
         else if rs_kind r = 1 then Some (module @ ''+'' @ show_hex (unat (rs_offset r)))
         else None)"

subsection \<open>Registers (registers.rs)\<close>

definition CLIENT_STACK_ARG_BASE :: u32 where "CLIENT_STACK_ARG_BASE = 0x80000000"

definition hook_stack_arg_index :: "u32 \<Rightarrow> u32 option" where
  "hook_stack_arg_index ident =
     (if ident < CLIENT_STACK_ARG_BASE then None
      else if ident - CLIENT_STACK_ARG_BASE < 1024 then Some (ident - CLIENT_STACK_ARG_BASE) else None)"

definition CLIENT_GP_X64 :: "(string \<times> u32) list" where
  "CLIENT_GP_X64 = [(''rax'', 10), (''rbx'', 7), (''rcx'', 9), (''rdx'', 8), (''rsi'', 4), (''rdi'', 3), (''rbp'', 5),
     (''rsp'', 6), (''r8'', 11), (''r9'', 12), (''r10'', 13), (''r11'', 14), (''r12'', 15), (''r13'', 16), (''r14'', 17),
     (''r15'', 18), (''rip'', 26), (''rflags'', 25)]"

definition CLIENT_GP_X86 :: "(string \<times> u32) list" where
  "CLIENT_GP_X86 = [(''eax'', 56), (''ebx'', 53), (''ecx'', 55), (''edx'', 54), (''esi'', 47), (''edi'', 45),
     (''ebp'', 49), (''esp'', 51), (''eip'', 58), (''eflags'', 57)]"

definition client_gp_regs :: "u32 \<Rightarrow> (string \<times> u32) list" where
  "client_gp_regs arch = (if arch = ARCH_X86 then CLIENT_GP_X86 else CLIENT_GP_X64)"

definition reg_name :: "u32 \<Rightarrow> u32 \<Rightarrow> string" where
  "reg_name arch ident =
     (case hook_stack_arg_index ident of
        Some index \<Rightarrow> ''stack'' @ show_nat (unat index)
      | None \<Rightarrow>
          (case find (\<lambda>(_, r). r = ident) (client_gp_regs arch) of
             Some (name, _) \<Rightarrow> name | None \<Rightarrow> ''reg_'' @ show_nat (unat ident)))"

definition stack_argument :: "string \<Rightarrow> string \<Rightarrow> u32 option" where
  "stack_argument lead name =
     (case strip_prefix lead name of
        None \<Rightarrow> None
      | Some index \<Rightarrow>
          (case parse_unsigned 10 (2 ^ 32) index of
             None \<Rightarrow> None
           | Some n \<Rightarrow> if n < 1024 then Some (CLIENT_STACK_ARG_BASE + word_of_nat n) else None))"

definition reg_id :: "u32 \<Rightarrow> string \<Rightarrow> u32 option" where
  "reg_id arch name =
     (let name = to_lower name
      in case stack_argument ''stack'' name of
           Some r \<Rightarrow> Some r
         | None \<Rightarrow>
             (case stack_argument ''arg'' name of
                Some r \<Rightarrow> Some r | None \<Rightarrow> map_of (client_gp_regs arch) name))"

definition parse_numeric_register :: "string \<Rightarrow> u32 option" where
  "parse_numeric_register v =
     (let v = trim v; hex = (case strip_prefix ''0x'' v of Some x \<Rightarrow> Some x | None \<Rightarrow> strip_prefix ''0X'' v)
      in map_option word_of_nat
           (case hex of Some x \<Rightarrow> parse_unsigned 16 (2 ^ 32) x | None \<Rightarrow> parse_unsigned 10 (2 ^ 32) v))"

subsection \<open>Status, memory and breakpoints\<close>

definition conn_status :: "'s transport \<Rightarrow> ('s, json) agent_call" where
  "conn_status t = with_client t
     (hub_then (say t ping_full) (\<lambda>p.
      hub_then (hub_modify (\<lambda>cn. case pi_pointer_width p of None \<Rightarrow> cn | Some w \<Rightarrow> cn\<lparr>cn_pointer_width := ucast w\<rparr>)) (\<lambda>_.
      hub_then (say t client_counters) (\<lambda>(tot, dropped, capacity, kinds).
      hub_then (hub_get cn_port) (\<lambda>port.
        done_with (JObject [(''connected'', JBool True), (''agent_port'', jdec port), (''pid'', jdec (pi_pid p)),
          (''abi'', JObject [(''major'', jdec (pi_abi_major p)), (''minor'', jdec (pi_abi_minor p))]),
          (''total_events'', jdec tot), (''dropped_events'', jdec dropped), (''ring_capacity'', jdec capacity),
          (''kind_counts'', jlist jdec kinds), (''arch'', jmaybe jdec (pi_arch p)),
          (''pointer_width'', jmaybe jdec (pi_pointer_width p))]))))))"

definition conn_memory_read :: "'s transport \<Rightarrow> u64 \<Rightarrow> u64 \<Rightarrow> ('s, json) agent_call" where
  "conn_memory_read t address n =
     (if n > 0x100000 then fail_with (Agent_operation ''memory read exceeds 1 MiB'')
      else with_client t (said (\<lambda>d. JObject [(''address'', jhex address), (''size'', jcount d), (''data_hex'', JString (bytes_hex d))])
             (say t (\<lambda>p. client_read_memory p address n))))"

definition conn_memory_write :: "'s transport \<Rightarrow> u64 \<Rightarrow> bytes \<Rightarrow> ('s, json) agent_call" where
  "conn_memory_write t address d =
     (if length d > 0x100000 then fail_with (Agent_operation ''memory write exceeds 1 MiB'')
      else with_client t (said (\<lambda>n. JObject [(''address'', jhex address), (''requested'', jcount d), (''written'', jdec n)])
             (say t (\<lambda>p. client_write_memory p address d))))"

definition conn_breakpoint_set :: "'s transport \<Rightarrow> u64 \<Rightarrow> ('s, json) agent_call" where
  "conn_breakpoint_set t address = with_client t
     (said (\<lambda>ident. JObject [(''id'', jdec ident), (''address'', jhex address)]) (say t (\<lambda>p. client_bp_set p address)))"

definition conn_breakpoint_remove :: "'s transport \<Rightarrow> u32 \<Rightarrow> ('s, json) agent_call" where
  "conn_breakpoint_remove t ident = with_client t
     (said (\<lambda>r. JObject [(''id'', jdec r)]) (say t (\<lambda>p. client_bp_remove p ident)))"

definition stop_json :: "bool \<Rightarrow> u32 \<Rightarrow> u64 \<Rightarrow> u64 \<Rightarrow> json list \<Rightarrow> json" where
  "stop_json stopped tid address gen rows =
     JObject [(''stopped'', JBool stopped), (''hit_thread_id'', jdec tid), (''hit_address'', jhex address),
       (''stop_generation'', jdec gen), (''breakpoints'', JArray rows)]"

definition conn_breakpoint_list :: "'s transport \<Rightarrow> ('s, json) agent_call" where
  "conn_breakpoint_list t = with_client t
     (said (\<lambda>(stopped, tid, address, gen, entries).
        stop_json stopped tid address gen (map (\<lambda>(ident, a, hits).
          JObject [(''id'', jdec ident), (''address'', jhex a), (''hits'', jdec hits)]) entries))
        (say t client_bp_list))"

definition breakpoint_callback_json :: "breakpoint_binding \<Rightarrow> json" where
  "breakpoint_callback_json b =
     JObject [(''plugin'', jtext (bb_plugin b)), (''callback'', jtext (bb_callback b)),
       (''description'', jtext (bb_description b)), (''once'', JBool (bb_once b)),
       (''thread_id'', jmaybe jdec (bb_thread_id b)), (''last_stop_generation'', jdec (bb_last_stop_generation b)),
       (''last_action'', jmaybe jtext (bb_last_action b)), (''last_return'', jmaybe jtext (bb_last_return b)),
       (''last_error'', jmaybe jtext (bb_last_error b))]"

definition breakpoint_row_json :: "breakpoint_binding list \<Rightarrow> u32 \<times> u64 \<times> u64 \<Rightarrow> json" where
  "breakpoint_row_json bindings row =
     (case row of (ident, address, hits) \<Rightarrow>
        let callbacks = map breakpoint_callback_json (filter (\<lambda>b. bb_id b = ident) bindings)
        in JObject [(''id'', jdec ident), (''address'', jhex address), (''hits'', jdec hits),
             (''callback_count'', jcount callbacks), (''callbacks'', JArray callbacks)])"

definition conn_breakpoint_inventory :: "'s transport \<Rightarrow> ('s, json) agent_call" where
  "conn_breakpoint_inventory t = with_client t
     (hub_then (say t client_bp_list) (\<lambda>(stopped, tid, address, gen, entries).
      hub_then (say t script_inventory) (\<lambda>(_, bindings, _).
        done_with (stop_json stopped tid address gen (map (breakpoint_row_json bindings) entries)))))"

subsection \<open>Registers, threads and modules\<close>

definition arch_or_x64 :: "ping_info \<Rightarrow> u32" where
  "arch_or_x64 p = (case pi_arch p of None \<Rightarrow> 1 | Some a \<Rightarrow> a)"

definition conn_registers_get :: "'s transport \<Rightarrow> u32 \<Rightarrow> ('s, json) agent_call" where
  "conn_registers_get t tid = with_client t
     (hub_then (said arch_or_x64 (say t ping_full)) (\<lambda>arch.
      hub_then (say t (\<lambda>p. client_context_get p tid)) (\<lambda>regs.
        done_with (JObject [(''thread_id'', jdec tid),
          (''registers'', jlist (\<lambda>(ident, v). JObject [(''id'', jdec ident), (''value'', jhex v)]) regs),
          (''arch'', jdec arch)]))))"

definition conn_register_set :: "'s transport \<Rightarrow> u32 \<Rightarrow> u32 \<Rightarrow> u64 \<Rightarrow> ('s, json) agent_call" where
  "conn_register_set t tid reg v = with_client t
     (said (\<lambda>_. JObject [(''thread_id'', jdec tid), (''register'', jdec reg), (''value'', jhex v), (''updated'', JBool True)])
        (say t (\<lambda>p. client_context_set p tid reg v)))"

definition conn_register_id :: "'s transport \<Rightarrow> string \<Rightarrow> ('s, u32) agent_call" where
  "conn_register_id t v =
     (case parse_numeric_register v of
        Some ident \<Rightarrow> done_with ident
      | None \<Rightarrow> with_client t
          (hub_then (said arch_or_x64 (say t ping_full)) (\<lambda>arch.
             case reg_id arch v of None \<Rightarrow> fail_with (Io InvalidInput) | Some ident \<Rightarrow> done_with ident)))"

definition conn_threads :: "'s transport \<Rightarrow> ('s, json) agent_call" where
  "conn_threads t = with_client t (said (\<lambda>ids. JObject [(''threads'', jlist jdec ids)]) (say t client_threads))"

definition conn_modules :: "'s transport \<Rightarrow> ('s, json) agent_call" where
  "conn_modules t = with_client t
     (said (\<lambda>rows. JObject [(''modules'', jlist (\<lambda>(base, end', is_main, name).
        JObject [(''base'', jhex base), (''end'', jhex end'), (''is_main'', JBool is_main), (''name'', jtext name)]) rows)])
        (say t client_modules))"

definition conn_module_exports :: "'s transport \<Rightarrow> string \<Rightarrow> ('s, json) agent_call" where
  "conn_module_exports t module = with_client t
     (said (\<lambda>exports. JObject [(''module'', JString module), (''count'', jcount exports),
        (''exports'', jlist (\<lambda>(address, name). JObject [(''address'', jhex address), (''name'', jtext name)]) exports)])
        (say t (\<lambda>p. client_exports p (str_bytes module))))"

subsection \<open>Hook points\<close>

definition conn_hook_set :: "'s transport \<Rightarrow> u64 \<Rightarrow> ('s, json) agent_call" where
  "conn_hook_set t address = with_client t
     (said (\<lambda>hooked. JObject [(''address'', jhex address), (''hooked'', JBool hooked)]) (say t (\<lambda>p. client_hook_set p address)))"

definition conn_hook_function_set :: "'s transport \<Rightarrow> u64 \<Rightarrow> ('s, json) agent_call" where
  "conn_hook_function_set t address = with_client t
     (hub_then (say t (\<lambda>p. client_hook_set_batch p [address])) (\<lambda>(armed, tot, full).
      hub_then (say t client_hook_function_list) (\<lambda>functions.
        let function_log = is_ok (binary_search functions address)
        in done_with (JObject [(''address'', jhex address), (''hooked'', JBool function_log),
             (''function_log'', JBool function_log), (''armed'', jdec armed), (''total_hooks'', jdec tot),
             (''capacity_full'', JBool full)]))))"

definition conn_signature_set :: "'s transport \<Rightarrow> u64 \<Rightarrow> capture_layout \<Rightarrow> ('s, unit) agent_call" where
  "conn_signature_set t address layout = with_client t
     (hub_then (say t (\<lambda>p. client_hook_signature_set p
        \<lparr>sg_address = address, sg_calling_convention = cl_calling_convention layout, sg_return_kind = cl_return_kind layout,
         sg_parameter_count = cl_parameter_count layout, sg_float_mask = cl_float_mask layout\<rparr>)) (\<lambda>accepted.
        if accepted then done_with () else fail_with (Io InvalidInput)))"

definition conn_signature_remove :: "'s transport \<Rightarrow> u64 \<Rightarrow> ('s, unit) agent_call" where
  "conn_signature_remove t address = with_client t (say t (\<lambda>p. client_hook_signature_remove p address))"

definition conn_hook_remove :: "'s transport \<Rightarrow> u64 \<Rightarrow> ('s, json) agent_call" where
  "conn_hook_remove t address =
     hub_then (with_client t (said (\<lambda>_. JObject [(''address'', jhex address), (''removed'', JBool True)])
       (say t (\<lambda>p. client_hook_remove p address)))) (\<lambda>v cn.
       (Inr v, cn\<lparr>cn_hook_symbols := (cn_hook_symbols cn)(address := None)\<rparr>))"

definition conn_hook_clear :: "'s transport \<Rightarrow> ('s, json) agent_call" where
  "conn_hook_clear t =
     hub_then (with_client t
       (hub_then (say t client_hook_list) (\<lambda>hooks.
        hub_then (say t client_hook_clear) (\<lambda>_. done_with (JObject [(''removed'', jcount hooks)]))))) (\<lambda>v cn.
       (Inr v, cn\<lparr>cn_hook_symbols := Map.empty\<rparr>))"

definition conn_hook_list :: "'s transport \<Rightarrow> ('s, json) agent_call" where
  "conn_hook_list t = with_client t
     (hub_then (say t client_hook_list) (\<lambda>hooks.
      hub_then (say t client_hook_function_list) (\<lambda>functions.
        done_with (JObject [(''count'', jcount hooks), (''capacity'', JString ''32768''),
          (''hooks'', jlist (\<lambda>address. JObject [(''address'', jhex address),
             (''function_log'', JBool (is_ok (binary_search functions address)))]) hooks)]))))"

definition hook_callback_json :: "decision_binding \<Rightarrow> json" where
  "hook_callback_json b =
     JObject [(''id'', jdec (db_id b)), (''plugin'', jtext (db_plugin b)), (''selector'', jtext (db_selector b)),
       (''callback'', jtext (db_callback b)), (''description'', jtext (db_description b)), (''once'', JBool (db_once b)),
       (''thread_id'', jmaybe jdec (db_thread_id b)), (''last_generation'', jdec (db_last_generation b)),
       (''last_return'', jmaybe jtext (db_last_return b)), (''last_error'', jmaybe jtext (db_last_error b))]"

definition hook_selector :: "decision_binding \<Rightarrow> bool" where
  "hook_selector b \<longleftrightarrow> wire_text (db_selector b) \<in> {''hook.entry'', ''hook.return''}"

definition note_callback :: "u64 list \<Rightarrow> decision_binding \<Rightarrow> (u64 \<Rightarrow> json list) \<Rightarrow> u64 \<Rightarrow> json list" where
  "note_callback page b m =
     (case db_address b of
        None \<Rightarrow> m
      | Some address \<Rightarrow>
          if hook_selector b \<and> is_ok (binary_search page address)
          then m(address := m address @ [hook_callback_json b]) else m)"

text \<open>\<open>chunks(1024)\<close>, and one request for each of them.\<close>

function chunks :: "'v list \<Rightarrow> 'v list list" where
  "chunks xs = (if xs = [] then [] else take 1024 xs # chunks (drop 1024 xs))"
  by pat_completeness auto
termination by (relation "measure length") auto

declare chunks.simps [simp del]

fun resolve_chunks :: "'s transport \<Rightarrow> u64 list list \<Rightarrow> ('s, (u64 \<times> resolution) list) conversation" where
  "resolve_chunks t [] = done_with []"
| "resolve_chunks t (c # cs) =
     hub_then (say t (\<lambda>p. client_resolve p c)) (\<lambda>rs.
     hub_then (resolve_chunks t cs) (\<lambda>more. done_with (zip c rs @ more)))"

fun resolve_all :: "'s transport \<Rightarrow> u64 list list \<Rightarrow> ('s, resolution list) conversation" where
  "resolve_all t [] = done_with []"
| "resolve_all t (c # cs) =
     hub_then (say t (\<lambda>p. client_resolve p c)) (\<lambda>rs. hub_then (resolve_all t cs) (\<lambda>more. done_with (rs @ more)))"

text \<open>The rows take the callbacks of their address out of the map.\<close>

fun hook_rows :: "u64 list \<Rightarrow> (u64 \<Rightarrow> json list) \<Rightarrow> (u64 \<times> resolution) list \<Rightarrow> json list" where
  "hook_rows functions m [] = []"
| "hook_rows functions m ((address, r) # rows) =
     JObject [(''address'', jhex address), (''module'', jtext (rs_module r)), (''symbol'', jtext (rs_symbol r)),
       (''offset'', jhex (rs_offset r)), (''display'', jmaybe JString (resolution_display r)),
       (''function_log'', JBool (is_ok (binary_search functions address))), (''callbacks'', JArray (m address))]
     # hook_rows functions (m(address := [])) rows"

definition hook_page :: "nat \<Rightarrow> nat \<Rightarrow> 'v list \<Rightarrow> nat \<times> 'v list" where
  "hook_page offset limit xs =
     (let start = min offset (length xs); end' = min (start + min (max limit 1) 32768) (length xs)
      in (start, take (end' - start) (drop start xs)))"

definition conn_hook_inventory_page :: "'s transport \<Rightarrow> nat \<Rightarrow> nat \<Rightarrow> bool option \<Rightarrow> ('s, json) agent_call" where
  "conn_hook_inventory_page t offset limit function_log = with_client t
     (hub_then (say t client_hook_list) (\<lambda>addresses.
      hub_then (say t client_hook_function_list) (\<lambda>functions.
        let addresses = (case function_log of None \<Rightarrow> addresses
              | Some expected \<Rightarrow> filter (\<lambda>a. is_ok (binary_search functions a) = expected) addresses);
            (start, page) = hook_page offset limit addresses
        in hub_then (say t script_inventory) (\<lambda>(_, _, decisions).
           hub_then (resolve_all t (chunks page)) (\<lambda>resolutions.
             let rows = hook_rows functions (fold (note_callback page) decisions (\<lambda>_. [])) (zip page resolutions)
             in done_with (JObject [(''count'', jcount addresses), (''offset'', JString (show_nat start)),
                  (''returned'', jcount rows), (''capacity'', JString ''32768''), (''hooks'', JArray rows)]))))))"

definition conn_callback_count :: "'s transport \<Rightarrow> u64 option \<Rightarrow> ('s, nat) agent_call" where
  "conn_callback_count t address = with_client t
     (said (\<lambda>(_, _, decisions). length (filter (\<lambda>b. hook_selector b
        \<and> (case address of None \<Rightarrow> True | Some a \<Rightarrow> db_address b = Some a)) decisions)) (say t script_inventory))"

subsection \<open>Hooks of a module, of chosen targets and of a range\<close>

text \<open>The first name of each address; the cache keeps the names of the points that were armed.\<close>

fun first_names :: "u64 list \<Rightarrow> (u64 \<times> bytes) list \<Rightarrow> (u64 \<times> bytes) list" where
  "first_names seen [] = []"
| "first_names seen ((address, name) # rest) =
     (if address \<in> List.set seen then first_names seen rest else (address, name) # first_names (address # seen) rest)"

definition cache_symbols :: "(u64 \<times> string \<times> string) list \<Rightarrow> 's connection \<Rightarrow> 's connection" where
  "cache_symbols symbols cn = cn\<lparr>cn_hook_symbols := fold (\<lambda>(a, v) m. m(a \<mapsto> v)) symbols (cn_hook_symbols cn)\<rparr>"

definition cached :: "('s, json \<times> (u64 \<times> string \<times> string) list) agent_call \<Rightarrow> ('s, json) agent_call" where
  "cached m = hub_then m (\<lambda>(v, symbols). hub_then (hub_modify (cache_symbols symbols)) (\<lambda>_. done_with v))"

definition conn_hook_module :: "'s transport \<Rightarrow> string \<Rightarrow> ('s, json) agent_call" where
  "conn_hook_module t module = cached (with_client t
     (hub_then (say t (\<lambda>p. client_exports p (str_bytes module))) (\<lambda>exports.
        let unique = first_names [] exports; symbols = map (\<lambda>(a, name). (a, module, wire_text name)) unique
        in hub_then (say t (\<lambda>p. client_hook_set_batch p (map fst unique))) (\<lambda>(armed, tot, full).
           done_with (JObject [(''module'', JString module), (''exports'', jcount exports),
             (''unique_addresses'', jcount unique), (''armed'', jdec armed), (''total_hooks'', jdec tot),
             (''skipped_aliases'', JString (show_nat (length exports - length unique))), (''capacity_full'', JBool full)],
             symbols)))))"

definition conn_hook_targets_apply :: "'s transport \<Rightarrow> string \<Rightarrow> (u64 \<times> string) list \<Rightarrow> ('s, json) agent_call" where
  "conn_hook_targets_apply t module targets = cached (with_client t
     (hub_then (say t (\<lambda>p. client_hook_set_batch p (map fst targets))) (\<lambda>(armed, tot, full).
        done_with (JObject [(''module'', JString module), (''requested'', jcount targets), (''armed'', jdec armed),
          (''total_hooks'', jdec tot), (''capacity_full'', JBool full)],
          map (\<lambda>(a, name). (a, module, name)) targets))))"

definition conn_hook_range :: "'s transport \<Rightarrow> u64 \<Rightarrow> u64 \<Rightarrow> u32 \<Rightarrow> bool \<Rightarrow> ('s, json) agent_call" where
  "conn_hook_range t start end' kind_mask apply' = with_client t
     (said (\<lambda>r. JObject [(''start'', jhex start), (''end'', jhex end'), (''decoded'', jdec (hg_decoded r)),
        (''matched'', jdec (hg_matched r)), (''added'', jdec (hg_added r)), (''total_hooks'', jdec (hg_total r)),
        (''capacity_full'', JBool (hg_capacity_full r)), (''truncated'', JBool (hg_truncated r)),
        (''complete'', JBool (hg_complete r)), (''applied'', JBool (hg_applied r)),
        (''addresses'', jlist jhex (hg_addresses r))])
        (say t (\<lambda>p. client_hook_range p start end' kind_mask apply')))"

subsection \<open>Monitors\<close>

definition cached_width :: "'s transport \<Rightarrow> ('s, u64) conversation" where
  "cached_width t =
     hub_then (hub_get cn_pointer_width) (\<lambda>known.
       if known = 0
       then hub_then (said (\<lambda>p. case pi_pointer_width p of None \<Rightarrow> 8 | Some w \<Rightarrow> ucast w) (say t ping_full)) (\<lambda>w.
            hub_then (hub_modify (\<lambda>cn. cn\<lparr>cn_pointer_width := w\<rparr>)) (\<lambda>_. done_with w))
       else done_with known)"

text \<open>The symbols of the rows: those of the cache, then those the agent gives for the other addresses.\<close>

definition missing_addresses :: "(u64 \<rightharpoonup> string \<times> string) \<Rightarrow> hook_log_record list \<Rightarrow> u64 list" where
  "missing_addresses known events = sort_dedup (filter (\<lambda>a. known a = None) (map hl_address events))"

definition event_symbols :: "'s transport \<Rightarrow> hook_log_record list \<Rightarrow> ('s, u64 \<rightharpoonup> string \<times> string) conversation" where
  "event_symbols t events =
     hub_then (hub_get cn_hook_symbols) (\<lambda>known.
     hub_then (resolve_chunks t (chunks (missing_addresses known events))) (\<lambda>found.
     hub_then (hub_modify (cache_symbols (map (\<lambda>(a, r). (a, wire_text (rs_module r), wire_text (rs_symbol r))) found))) (\<lambda>_.
       hub_get cn_hook_symbols)))"

definition filled :: "string \<Rightarrow> string option" where "filled s = (if s = [] then None else Some s)"

definition hook_event_json :: "(u64 \<rightharpoonup> string \<times> string) \<Rightarrow> hook_log_record \<Rightarrow> json" where
  "hook_event_json symbols e =
     (let symbol = symbols (hl_address e); function_hook = (hl_flags e AND 2 \<noteq> 0)
      in JObject [(''sequence'', jdec (hl_sequence e)), (''timestamp_unix_ns'', jdec (hl_timestamp_unix_ns e)),
           (''kind'', JString (if \<not> function_hook then ''hit'' else if hl_kind e = 14 then ''return'' else ''entry'')),
           (''hook_type'', JString (if function_hook then ''api'' else ''instruction'')),
           (''thread_id'', jdec (hl_thread_id e)), (''address'', jhex (hl_address e)),
           (''module'', jmaybe JString (Option.bind symbol (\<lambda>(module, _). filled module))),
           (''symbol'', jmaybe JString (Option.bind symbol (\<lambda>(_, name). filled name))),
           (''display'', jmaybe JString (Option.bind symbol (\<lambda>(module, name).
              if name = [] then None else Some (module @ ''!'' @ name)))),
           (''signature_capture'', JBool (hl_flags e AND 1 \<noteq> 0)), (''argument_count'', jdec (hl_argument_count e)),
           (''arguments'', jlist jhex (take (unat (min (hl_argument_count e) 16)) (hl_arguments e))),
           (''return_value'', jmaybe jhex (if function_hook \<and> hl_kind e = 14 then Some (hl_arguments e ! 0) else None))])"

definition conn_hook_monitor :: "'s transport \<Rightarrow> u64 \<Rightarrow> u64 \<Rightarrow> ('s, json) agent_call" where
  "conn_hook_monitor t limit before' = with_client t
     (hub_then (cached_width t) (\<lambda>width.
      hub_then (say t (\<lambda>p. hook_events_window p (min (max limit 1) 4096) before')) (\<lambda>(tot, dropped, nxt, events).
      hub_then (event_symbols t events) (\<lambda>symbols.
        done_with (JObject [(''lane_total'', jdec tot), (''lane_dropped'', jdec dropped),
          (''history_overwritten'', jdec (sat_sub tot 32768)), (''next_cursor'', jdec nxt), (''capacity'', JString ''32768''),
          (''pointer_width'', jdec width), (''window_before'', jdec before'),
          (''events'', jlist (hook_event_json symbols) events)])))))"

definition conn_syscall_config_set :: "'s transport \<Rightarrow> bool \<Rightarrow> u32 list \<Rightarrow> u64 \<Rightarrow> u64 \<Rightarrow> ('s, json) agent_call" where
  "conn_syscall_config_set t enabled numbers scope_start scope_end = with_client t
     (hub_then (say t (\<lambda>p. client_engine_set p 5 enabled)) (\<lambda>_.
      hub_then (say t (\<lambda>p. syscall_filter_scoped p (if numbers = [] then 0 else 1) numbers scope_start scope_end)) (\<lambda>_.
        done_with (JObject [(''enabled'', JBool enabled), (''mode'', JString (if numbers = [] then ''all'' else ''selected'')),
          (''numbers'', jlist jhex numbers), (''scope_start'', jhex scope_start), (''scope_end'', jhex scope_end)]))))"

definition syscall_event_json :: "hook_log_record \<Rightarrow> json" where
  "syscall_event_json e =
     (let a = hl_arguments e; entry = (a ! 1 = 0)
      in JObject [(''sequence'', jdec (hl_sequence e)), (''timestamp_unix_ns'', jdec (hl_timestamp_unix_ns e)),
           (''generation'', jdec (a ! 8)), (''thread_id'', jdec (hl_thread_id e)), (''number'', jhex (a ! 0)),
           (''number_decimal'', jdec (a ! 0)), (''phase'', JString (if entry then ''entry'' else ''exit'')),
           (''kind'', JString (if entry then ''entry'' else ''return'')), (''hook_type'', JString ''syscall''),
           (''arguments'', jlist jhex (if entry then take 6 (drop 2 a) else [])),
           (''return_value'', jmaybe jhex (if entry then None else Some (a ! 3))),
           (''errno'', jmaybe jhex (if entry then None else Some (a ! 4)))])"

definition conn_syscall_monitor_window :: "'s transport \<Rightarrow> u64 \<Rightarrow> u64 \<Rightarrow> ('s, json) agent_call" where
  "conn_syscall_monitor_window t limit before' = with_client t
     (let keep = min (max limit 1) 4096
      in hub_then (say t (\<lambda>p. syscall_events_window p keep before')) (\<lambda>(tot, dropped, nxt, events).
           done_with (JObject [(''ring_total'', jdec tot), (''ring_dropped'', jdec dropped), (''ring_capacity'', JString ''32768''),
             (''history_overwritten'', jdec (sat_sub tot 32768)), (''next_cursor'', jdec nxt), (''scan_limit'', jdec keep),
             (''window_before'', jdec before'), (''events'', jlist syscall_event_json events)])))"

definition conn_syscall_monitor :: "'s transport \<Rightarrow> u64 \<Rightarrow> ('s, json) agent_call" where
  "conn_syscall_monitor t limit = conn_syscall_monitor_window t limit 0"

subsection \<open>The memory map\<close>

definition region_json :: "memory_region \<Rightarrow> json" where
  "region_json r =
     JObject [(''base'', jhex (mr_base r)), (''size'', jhex (mr_size r)), (''allocation_base'', jhex (mr_allocation_base r)),
       (''allocation_protect'', jhex (mr_allocation_protect r)), (''protect'', jhex (mr_protect r)),
       (''state'', jhex (mr_state r)), (''type'', jhex (mr_kind r))]"

definition section_json :: "module_section \<Rightarrow> json" where
  "section_json s =
     JObject [(''name'', jtext (se_name s)), (''address'', jhex (se_address s)), (''size'', jhex (se_size s)),
       (''kind'', jdec (se_kind s)), (''readable'', JBool (se_readable s)), (''writable'', JBool (se_writable s)),
       (''executable'', JBool (se_executable s)), (''mapped'', JBool (se_mapped s))]"

definition layout_module_json :: "module_layout \<Rightarrow> json" where
  "layout_module_json m =
     JObject [(''base'', jhex (ml_low m)), (''end'', jhex (ml_high m)), (''entry'', jhex (ml_entry m)),
       (''mapped_size'', jhex (ml_mapped_size m)), (''image_type'', jdec (ml_image_type m)), (''is_main'', JBool (ml_is_main m)),
       (''name'', jtext (ml_name m)), (''sections'', jlist section_json (ml_sections m))]"

definition conn_memory_map :: "'s transport \<Rightarrow> ('s, json) agent_call" where
  "conn_memory_map t = with_client t
     (said (\<lambda>(regions, heaps, modules). JObject [(''regions'', jlist region_json regions), (''heaps'', jlist jhex heaps),
        (''modules'', jlist layout_module_json modules)]) (say t client_memory_map))"

subsection \<open>Exceptions\<close>

text \<open>What is known of the end of an exception: the row of kind 33 with the generation of the row of kind 6.\<close>

record disposition =
  dp_sequence :: u64
  dp_system_ip :: u64
  dp_final_ip :: u64
  dp_register_mask :: u32
  dp_interceptor_ran :: bool
  dp_final_ip_known :: bool
  dp_system_ip_known :: bool

definition disposition_of :: "event_record \<Rightarrow> disposition" where
  "disposition_of e =
     \<lparr>dp_sequence = er_sequence e, dp_system_ip = er_arg2 e, dp_final_ip = er_arg3 e, dp_register_mask = ucast (er_arg4 e),
      dp_interceptor_ran = (er_arg5 e \<noteq> 0), dp_final_ip_known = (er_arg6 e \<noteq> 0), dp_system_ip_known = (er_arg7 e \<noteq> 0)\<rparr>"

definition dispositions :: "event_record list \<Rightarrow> u64 \<rightharpoonup> disposition" where
  "dispositions events = fold (\<lambda>e m. m(er_arg1 e \<mapsto> disposition_of e)) (filter (\<lambda>e. er_kind e = 33) events) Map.empty"

definition no_disposition :: "event_record \<Rightarrow> disposition" where
  "no_disposition e =
     \<lparr>dp_sequence = 0, dp_system_ip = er_arg4 e, dp_final_ip = er_arg4 e, dp_register_mask = 0, dp_interceptor_ran = False,
      dp_final_ip_known = (er_arg5 e \<noteq> 0), dp_system_ip_known = (er_arg5 e \<noteq> 0)\<rparr>"

definition modified_registers :: "u32 \<Rightarrow> u32 \<Rightarrow> string list" where
  "modified_registers arch m =
     map (\<lambda>(_, name, _). name) (filter (\<lambda>(i, _). m AND push_bit i 1 \<noteq> 0) (zip [0..<length (client_gp_regs arch)] (client_gp_regs arch)))"

definition target_exception_json :: "u32 \<Rightarrow> (u64 \<rightharpoonup> disposition) \<Rightarrow> event_record \<Rightarrow> json" where
  "target_exception_json arch ds e =
     (let known = ds (er_arg3 e); d = (case known of None \<Rightarrow> no_disposition e | Some d \<Rightarrow> d)
      in JObject [(''sequence'', jdec (er_sequence e)), (''source'', JString ''target''), (''thread_id'', jdec (er_thread_id e)),
           (''code'', jcode (ucast (er_arg1 e))), (''address'', jhex (er_address e)), (''from_ip'', jhex (er_arg2 e)),
           (''from_ip_known'', JBool (er_arg6 e \<noteq> 0)), (''to_ip'', jhex (er_arg4 e)), (''to_ip_known'', JBool (er_arg5 e \<noteq> 0)),
           (''system_to_ip'', jhex (dp_system_ip d)), (''system_to_ip_known'', JBool (dp_system_ip_known d)),
           (''final_to_ip'', jhex (dp_final_ip d)), (''final_to_ip_known'', JBool (dp_final_ip_known d)),
           (''disposition_available'', JBool (known \<noteq> None)), (''disposition_sequence'', jdec (dp_sequence d)),
           (''interceptor_ran'', JBool (dp_interceptor_ran d)), (''takeover_applied'', JBool (dp_register_mask d \<noteq> 0)),
           (''modified_register_mask'', jcode (dp_register_mask d)),
           (''modified_registers'', jlist JString (modified_registers arch (dp_register_mask d))),
           (''generation'', jdec (er_arg3 e)), (''reason'', jdec (er_arg0 e))])"

definition internal_exception_json :: "event_record \<Rightarrow> json" where
  "internal_exception_json e =
     JObject [(''sequence'', jdec (er_sequence e)), (''source'', JString ''pin_internal''), (''thread_id'', jdec (er_thread_id e)),
       (''code'', jdec (er_arg0 e)), (''address'', jhex (er_address e)), (''exception_address'', jhex (er_arg1 e)),
       (''fault_address'', jhex (er_arg2 e)), (''fault_address_known'', JBool (er_arg5 e \<noteq> 0)),
       (''access_type'', jdec (er_arg3 e)), (''exception_class'', jdec (er_arg4 e))]"

definition exception_row :: "u32 \<Rightarrow> (u64 \<rightharpoonup> disposition) \<Rightarrow> event_record \<Rightarrow> json option" where
  "exception_row arch ds e =
     (if er_kind e = 6 \<and> er_arg0 e = 4 then Some (target_exception_json arch ds e)
      else if er_kind e = 24 then Some (internal_exception_json e) else None)"

definition conn_exception_monitor :: "'s transport \<Rightarrow> u64 \<Rightarrow> ('s, json) agent_call" where
  "conn_exception_monitor t limit = with_client t
     (hub_then (said arch_or_x64 (say t ping_full)) (\<lambda>arch.
      hub_then (say t (\<lambda>p. client_priority_newest p (min (max limit 1) 1024))) (\<lambda>(tot, dropped, nxt, events).
        done_with (JObject [(''lane_total'', jdec tot), (''lane_dropped'', jdec dropped), (''next'', jdec nxt),
          (''events'', JArray (List.map_filter (exception_row arch (dispositions events)) events))]))))"

definition policy_json :: "bool \<times> u32 \<times> bool \<Rightarrow> json" where
  "policy_json p =
     (case p of (enabled, code, pending) \<Rightarrow>
        JObject [(''enabled'', JBool enabled), (''code'', jcode code), (''pending'', JBool pending)])"

definition conn_exception_policy_get :: "'s transport \<Rightarrow> ('s, json) agent_call" where
  "conn_exception_policy_get t = with_client t (said policy_json (say t client_exc_policy_get))"

definition conn_exception_policy_set :: "'s transport \<Rightarrow> bool \<Rightarrow> u32 \<Rightarrow> ('s, json) agent_call" where
  "conn_exception_policy_set t enabled code = with_client t
     (hub_then (say t (\<lambda>p. client_exc_policy_set p enabled code)) (\<lambda>_. said policy_json (say t client_exc_policy_get)))"

definition interceptor_json :: "decision_binding \<Rightarrow> json" where
  "interceptor_json b =
     JObject [(''id'', jdec (db_id b)), (''plugin'', jtext (db_plugin b)), (''callback'', jtext (db_callback b)),
       (''description'', jtext (db_description b)), (''once'', JBool (db_once b)), (''thread_id'', jmaybe jdec (db_thread_id b)),
       (''codes'', jmaybe (jlist jcode) (db_codes b)), (''last_generation'', jdec (db_last_generation b)),
       (''last_return'', jmaybe jtext (db_last_return b)), (''last_error'', jmaybe jtext (db_last_error b))]"

definition conn_exception_inventory :: "'s transport \<Rightarrow> ('s, json) agent_call" where
  "conn_exception_inventory t = with_client t
     (said (\<lambda>(_, _, decisions). JObject [(''interceptors'', jlist interceptor_json
        (filter (\<lambda>b. wire_text (db_selector b) = ''exception.handle'') decisions))]) (say t script_inventory))"

subsection \<open>Recording, stepping, symbols and scripts\<close>

definition trace_json :: "u64 \<Rightarrow> u64 \<Rightarrow> trace_status \<Rightarrow> json" where
  "trace_json recorded dropped status =
     JObject [(''state'', JString (state_name status)), (''active'', JBool (ts_active status)), (''recorded'', jdec recorded),
       (''dropped'', jdec dropped)]"

definition trace_status_json :: "trace_status \<Rightarrow> json" where
  "trace_status_json status = trace_json (ts_recorded status) (ts_dropped status) status"

definition conn_trace_start_spec ::
  "'s transport \<Rightarrow> u32 list \<Rightarrow> (u64 \<times> u64) list \<Rightarrow> u32 list \<Rightarrow> string \<Rightarrow> ('s, json) agent_call" where
  "conn_trace_start_spec t kinds ranges threads path = with_client t
     (hub_then (say t (\<lambda>p. trace_start_spec p kinds ranges threads (str_bytes path))) (\<lambda>_.
        said trace_status_json (say t trace_status_detail)))"

definition conn_trace_status :: "'s transport \<Rightarrow> ('s, json) agent_call" where
  "conn_trace_status t = with_client t (said trace_status_json (say t trace_status_detail))"

definition conn_trace_stop :: "'s transport \<Rightarrow> ('s, json) agent_call" where
  "conn_trace_stop t = with_client t
     (hub_then (say t trace_stop) (\<lambda>(recorded, dropped). said (trace_json recorded dropped) (say t trace_status_detail)))"

definition conn_step :: "'s transport \<Rightarrow> u32 \<Rightarrow> bool \<Rightarrow> ('s, json) agent_call" where
  "conn_step t tid over = with_client t
     (said (\<lambda>stopped. JObject [(''thread_id'', jdec tid), (''over'', JBool over), (''stopped'', JBool stopped)])
        (say t (\<lambda>p. client_step p tid over)))"

definition conn_disassemble :: "'s transport \<Rightarrow> u64 \<Rightarrow> u64 \<Rightarrow> ('s, json) agent_call" where
  "conn_disassemble t address n =
     (if n > 4096 then fail_with (Agent_operation ''disassemble count exceeds 4096'')
      else with_client t (said (\<lambda>rows. JObject [(''instructions'', jlist (\<lambda>(a, s, k, line, b, to).
             JObject [(''address'', jhex a), (''size'', jdec s), (''kind'', jdec k), (''text'', jtext line),
               (''bytes_hex'', JString (bytes_hex b)), (''target'', jhex to)]) rows)])
             (say t (\<lambda>p. client_disasm p address n))))"

definition conn_resolve :: "'s transport \<Rightarrow> u64 list \<Rightarrow> ('s, json) agent_call" where
  "conn_resolve t addresses =
     (if length addresses > 1024 then fail_with (Agent_operation ''too many addresses'')
      else with_client t (said (\<lambda>rs. JObject [(''resolutions'', jlist (\<lambda>r.
             JObject [(''kind'', jdec (rs_kind r)), (''offset'', jhex (rs_offset r)), (''module'', jtext (rs_module r)),
               (''symbol'', jtext (rs_symbol r)), (''display'', jmaybe JString (resolution_display r))]) rs)])
             (say t (\<lambda>p. client_resolve p addresses))))"

definition conn_resolve_name :: "'s transport \<Rightarrow> string \<Rightarrow> ('s, json) agent_call" where
  "conn_resolve_name t name = with_client t
     (said (\<lambda>a. JObject [(''name'', JString name), (''address'', jhex a)]) (say t (\<lambda>p. client_resolve_name p (str_bytes name))))"

definition conn_script_load :: "'s transport \<Rightarrow> string \<Rightarrow> string \<Rightarrow> ('s, u32) agent_call" where
  "conn_script_load t name source = with_client t (say t (\<lambda>p. client_script_load p (str_bytes name) (str_bytes source)))"

definition conn_script_unload :: "'s transport \<Rightarrow> string \<Rightarrow> ('s, unit) agent_call" where
  "conn_script_unload t name = with_client t (say t (\<lambda>p. client_script_unload p (str_bytes name)))"

definition conn_script_list :: "'s transport \<Rightarrow> ('s, agent_script list) agent_call" where
  "conn_script_list t = with_client t (said (map (\<lambda>x. \<lparr>as_name = wire_text (sn_name x), as_state = sn_state x,
     as_delivered = sn_delivered x, as_dropped = sn_dropped x\<rparr>)) (say t script_list))"

definition conn_script_output :: "'s transport \<Rightarrow> u64 \<Rightarrow> u32 \<Rightarrow> ('s, u64 \<times> agent_output_line list) agent_call" where
  "conn_script_output t after limit = with_client t
     (said (\<lambda>(nxt, rows). (nxt, map (\<lambda>x. \<lparr>ao_seq = ou_seq x, ao_plugin = wire_text (ou_plugin x),
        ao_line = wire_text (ou_line x)\<rparr>) rows)) (say t (\<lambda>p. client_script_output p after limit)))"

definition event_row_json :: "event_record \<Rightarrow> json" where
  "event_row_json e =
     JObject [(''sequence'', jdec (er_sequence e)), (''kind'', jdec (er_kind e)), (''thread_id'', jdec (er_thread_id e)),
       (''address'', jhex (er_address e)), (''arg0'', jhex (er_arg0 e)), (''arg1'', jhex (er_arg1 e)),
       (''arg2'', jhex (er_arg2 e)), (''arg3'', jhex (er_arg3 e)), (''arg4'', jhex (er_arg4 e)), (''arg5'', jhex (er_arg5 e)),
       (''arg6'', jhex (er_arg6 e)), (''arg7'', jhex (er_arg7 e))]"

definition conn_events_newest :: "'s transport \<Rightarrow> u64 \<Rightarrow> ('s, json) agent_call" where
  "conn_events_newest t limit = with_client t
     (said (\<lambda>(nxt, events). JObject [(''next'', jdec nxt), (''events'', jlist event_row_json events)])
        (say t (\<lambda>p. ring_newest p (min limit 24))))"

definition conn_pause :: "'s transport \<Rightarrow> ('s, bool) agent_call" where "conn_pause t = with_client t (say t client_stop)"
definition conn_resume :: "'s transport \<Rightarrow> ('s, bool) agent_call" where "conn_resume t = with_client t (say t client_resume)"

definition conn_set_port :: "u16 \<Rightarrow> 's connection \<Rightarrow> 's connection" where
  "conn_set_port port cn = cn\<lparr>cn_port := port, cn_pointer_width := 0\<rparr>"

subsection \<open>The interface\<close>

fun connection_value :: "'s transport \<Rightarrow> agent_request \<Rightarrow> ('s, json) agent_call" where
  "connection_value t Ag_status = conn_status t"
| "connection_value t (Ag_memory_read a n) = conn_memory_read t a n"
| "connection_value t (Ag_memory_write a d) = conn_memory_write t a d"
| "connection_value t (Ag_breakpoint_set a) = conn_breakpoint_set t a"
| "connection_value t (Ag_breakpoint_remove i) = conn_breakpoint_remove t i"
| "connection_value t Ag_breakpoint_list = conn_breakpoint_list t"
| "connection_value t Ag_breakpoint_inventory = conn_breakpoint_inventory t"
| "connection_value t (Ag_registers_get tid) = conn_registers_get t tid"
| "connection_value t (Ag_register_set tid r v) = conn_register_set t tid r v"
| "connection_value t Ag_threads = conn_threads t"
| "connection_value t Ag_modules = conn_modules t"
| "connection_value t (Ag_module_exports m) = conn_module_exports t m"
| "connection_value t (Ag_hook_set a) = conn_hook_set t a"
| "connection_value t (Ag_hook_function_set a) = conn_hook_function_set t a"
| "connection_value t (Ag_hook_remove a) = conn_hook_remove t a"
| "connection_value t Ag_hook_clear = conn_hook_clear t"
| "connection_value t Ag_hook_list = conn_hook_list t"
| "connection_value t (Ag_hook_inventory_page offset limit functions) = conn_hook_inventory_page t offset limit functions"
| "connection_value t (Ag_hook_monitor limit before') = conn_hook_monitor t limit before'"
| "connection_value t (Ag_hook_module m) = conn_hook_module t m"
| "connection_value t (Ag_hook_targets_apply m ts) = conn_hook_targets_apply t m ts"
| "connection_value t (Ag_hook_range a b k apply') = conn_hook_range t a b k apply'"
| "connection_value t (Ag_syscall_config_set on ns a b) = conn_syscall_config_set t on ns a b"
| "connection_value t (Ag_syscall_monitor limit) = conn_syscall_monitor t limit"
| "connection_value t (Ag_syscall_monitor_window limit before') = conn_syscall_monitor_window t limit before'"
| "connection_value t Ag_memory_map = conn_memory_map t"
| "connection_value t (Ag_exception_monitor limit) = conn_exception_monitor t limit"
| "connection_value t Ag_exception_policy_get = conn_exception_policy_get t"
| "connection_value t (Ag_exception_policy_set on code) = conn_exception_policy_set t on code"
| "connection_value t Ag_exception_inventory = conn_exception_inventory t"
| "connection_value t (Ag_trace_start_spec ks rs ts path) = conn_trace_start_spec t ks rs ts path"
| "connection_value t Ag_trace_status = conn_trace_status t"
| "connection_value t Ag_trace_stop = conn_trace_stop t"
| "connection_value t (Ag_step tid over) = conn_step t tid over"
| "connection_value t (Ag_disassemble a n) = conn_disassemble t a n"
| "connection_value t (Ag_resolve as) = conn_resolve t as"
| "connection_value t (Ag_resolve_name n) = conn_resolve_name t n"
| "connection_value t (Ag_events_newest limit) = conn_events_newest t limit"

fun connection_order :: "'s transport \<Rightarrow> agent_order \<Rightarrow> ('s, unit) agent_call" where
  "connection_order t (Ag_signature_set a layout) = conn_signature_set t a layout"
| "connection_order t (Ag_signature_remove a) = conn_signature_remove t a"
| "connection_order t (Ag_script_unload n) = conn_script_unload t n"

definition connection_api :: "'s transport \<Rightarrow> 's connection agent_api" where
  "connection_api t =
     \<lparr>ag_value = connection_value t, ag_flag = (\<lambda>c. case c of Ag_pause \<Rightarrow> conn_pause t | Ag_resume \<Rightarrow> conn_resume t),
      ag_unit = connection_order t, ag_set_port = conn_set_port, ag_port = cn_port, ag_register_id = conn_register_id t,
      ag_callback_count = conn_callback_count t, ag_script_load = conn_script_load t, ag_script_list = conn_script_list t,
      ag_script_output = conn_script_output t\<rparr>"

subsection \<open>Names kept over a change of port\<close>

text \<open>
  \<open>set_port\<close> forgets the pointer width and keeps the cached names: the rows of the next agent that lie at
  cached addresses are named without asking it.
\<close>

lemma names_outlive_port:
  assumes "\<forall>e\<in>List.set events. cn_hook_symbols cn (hl_address e) \<noteq> None"
  shows "event_symbols t events (conn_set_port port cn) = (Inr (cn_hook_symbols cn), conn_set_port port cn)"
proof -
  have "missing_addresses (cn_hook_symbols cn) events = []" using assms by (auto simp: missing_addresses_def filter_empty_conv)
  then show ?thesis
    by (simp add: event_symbols_def hub_m_defs chunks.simps [of "[]"] cache_symbols_def conn_set_port_def)
qed

end
