(* ===== verification/Pb_Hub_Served.thy ===== *)
theory Pb_Hub_Served
  imports Pb_History Pb_Connection Pb_Hub_Ipc
begin

section \<open>The hub and the agent behind it\<close>

text \<open>
  The whole path: bytes of a hub connection (ipc.rs), the hub's tools (service.rs), its requests
  (agent.rs), the client library (client.rs) and the agent's server (query_server.rs). The interface
  \<open>connection_api\<close> over a server meets the contract \<open>reads_only\<close> the hub's safety rests on.
\<close>

subsection \<open>Requests that leave the agent alone\<close>

text \<open>
  A line to the agent that takes less than 2 GiB of a request; a frame counts its bytes in \<open>u32\<close>. Every port of
  \<open>listening\<close> reaches the one agent.
\<close>

definition agent_line :: "query_env \<Rightarrow> decoder \<Rightarrow> 'm externals \<Rightarrow> (agent \<times> 'm) peer" where
  "agent_line q decode x sent st = (if length sent < 2 ^ 31 then agent_peer q decode x sent st else ([], st))"

definition agent_transport ::
  "query_env \<Rightarrow> decoder \<Rightarrow> 'm externals \<Rightarrow> (u16 \<Rightarrow> bool) \<Rightarrow> (client_error \<Rightarrow> string) \<Rightarrow> (agent \<times> 'm) transport" where
  "agent_transport q decode x listening message =
     \<lparr>tp_connect = (\<lambda>port st. (if listening port then Inr () else Inl (Agent_connection []), st)),
      tp_peer = (\<lambda>_. agent_line q decode x), tp_message = message\<rparr>"

text \<open>Symbol lookups and disassembly may change what \<open>observe\<close> does not show.\<close>

definition lookups_keep :: "'m externals \<Rightarrow> ('m \<Rightarrow> 't) \<Rightarrow> bool" where
  "lookups_keep x observe \<longleftrightarrow>
     (\<forall>op_code payload m. op_code \<in> List.set [OP_DISASM, OP_RESOLVE, OP_EXPORTS] \<longrightarrow> observe (snd (xt_other x op_code payload m)) = observe m)
     \<and> (\<forall>name m. observe (snd (xt_resolve_name x name m)) = observe m)"

definition served_view :: "('m \<Rightarrow> 't) \<Rightarrow> agent \<times> 'm \<Rightarrow> agent \<times> 't" where
  "served_view observe st = (fst st, observe (snd st))"

definition READ_OPS :: "u8 list" where
  "READ_OPS = [OP_PING, OP_COUNTERS, OP_RING_PAGE, OP_HOOK_EVENTS_NEWEST, OP_SYSCALL_EVENTS_NEWEST, OP_PRIORITY_NEWEST,
     OP_READ_MEM, OP_MEMORY_MAP, OP_MODULES, OP_BP_LIST, OP_THREADS, OP_CONTEXT_GET, OP_EXC_POLICY_GET, OP_HOOK_LIST,
     OP_HOOK_FUNCTION_LIST, OP_SCRIPT_OUTPUT, OP_SCRIPT_LIST, OP_TRACE_STATUS, OP_DISASM, OP_RESOLVE, OP_EXPORTS,
     OP_RESOLVE_NAME]"

lemma with_parsed_same:
  "with_parsed p payload f s = (r, s') \<Longrightarrow> (\<And>x r s'. f x s = (r, s') \<Longrightarrow> s' = s) \<Longrightarrow> s' = s"
  by (auto simp: with_parsed_def split: option.splits)

lemma readers_same:
  "handle_ring_page q payload s = (r, s') \<Longrightarrow> s' = s"
  "handle_hook_events_newest q payload s = (r, s') \<Longrightarrow> s' = s"
  "handle_syscall_events_newest q payload s = (r, s') \<Longrightarrow> s' = s"
  "handle_priority_newest q payload s = (r, s') \<Longrightarrow> s' = s"
  "handle_script_output payload s = (r, s') \<Longrightarrow> s' = s"
  by (auto simp: handle_ring_page_def handle_hook_events_newest_def handle_syscall_events_newest_def
      handle_priority_newest_def handle_script_output_def Let_def elim!: with_parsed_same split: prod.splits)

lemma agent_op_reads:
  assumes op: "agent_op q decode x m op_code payload s = Some (r, s')" and read: "op_code \<in> List.set READ_OPS"
  shows "s' = s"
proof -
  have "op_code \<notin> List.set [OP_STOP, OP_RESUME, OP_BP_SET, OP_BP_REMOVE, OP_EXC_POLICY_SET, OP_STEP, OP_SYSCALL_FILTER,
      OP_HOOK_SET, OP_HOOK_SET_BATCH, OP_HOOK_RANGE, OP_HOOK_REMOVE, OP_HOOK_CLEAR, OP_HOOK_RULE_SET, OP_HOOK_RULE_CLEAR,
      OP_HOOK_SIGNATURE_SET, OP_HOOK_SIGNATURE_REMOVE]"
    using read by (auto simp: READ_OPS_def op_defs)
  with op show ?thesis unfolding agent_op_def by (auto dest: readers_same split: if_split_asm)
qed

lemma outside_op_reads:
  fixes x :: "'m externals"
  assumes "outside_op x b op_code payload m = Some (r, m')" "op_code \<in> List.set READ_OPS" "lookups_keep x observe"
  shows "observe m' = observe m"
proof -
  have "op_code \<notin> List.set [OP_WRITE_MEM, OP_CONTEXT_SET, OP_ENGINE_SET, OP_TRACE_START, OP_TRACE_START_SPEC, OP_TRACE_EXTEND,
      OP_TRACE_STOP, OP_SCRIPT_LOAD, OP_SCRIPT_UNLOAD]"
    using assms(2) by (auto simp: READ_OPS_def op_defs)
  moreover have "observe (snd (xt_other x op_code payload m)) = observe m" if "op_code \<in> List.set [OP_DISASM, OP_RESOLVE, OP_EXPORTS]"
    using that assms(3) by (auto simp: lookups_keep_def)
  moreover have "observe (snd (handle_resolve_name x payload m)) = observe m"
    using assms(3) by (auto simp: handle_resolve_name_def lookups_keep_def split: option.splits prod.splits) (metis snd_conv)+
  moreover have "snd r = m'" if "map_prod answer id r = (a, m')" for r :: "reply \<times> 'm" and a using that by (cases r) simp
  ultimately show ?thesis using assms(1) unfolding outside_op_def Let_def by (auto split: if_split_asm dest: sym)
qed

lemma dispatch_reads:
  assumes "op_code \<in> List.set READ_OPS" "lookups_keep x observe"
  shows "served_view observe (snd (dispatch q decode x op_code payload st)) = served_view observe st"
  using assms by (auto simp: dispatch_def served_view_def dest: agent_op_reads outside_op_reads split: prod.splits option.splits)

text \<open>The one range request that only looks.\<close>

lemma dispatch_range_dry:
  "served_view observe (snd (dispatch q decode x OP_HOOK_RANGE (put_u32 (put_u64 (put_u64 [] start) fin) kinds @ [0]) st))
     = served_view observe st"
proof -
  have parsed: "parse read_hook_range_request (put_u32 (put_u64 (put_u64 [] start) fin) kinds @ [0]) = Some (start, fin, kinds, False)"
    unfolding read_hook_range_request_def put_u64_def put_u32_def append_Nil append_assoc
    by (intro gets_parse gets_then [OF reads_u64] gets_then [OF reads_u32] gets_then [OF reads_u8, where rest = "[]", unfolded append_Nil2])
      (simp add: gets_def then_read_def read_remaining_def read_return_def)
  define payload where "payload = put_u32 (put_u64 (put_u64 [] start) fin) kinds @ [0]"
  have "s' = s" if "handle_hook_range scan payload s = (r, s')" for scan s r s'
    using that unfolding handle_hook_range_def with_parsed_def payload_def parsed by (simp add: Let_def split: sum.splits)
  then show ?thesis
    unfolding payload_def [symmetric]
    by (cases st) (auto simp: dispatch_def served_view_def outside_op_def agent_op_def op_defs split: prod.splits option.splits)
qed

lemma request_keeps:
  assumes "\<And>st. view (snd (dispatch q decode x op_code payload st)) = view st"
  shows "view (snd (request (agent_line q decode x) op_code payload st)) = view st"
proof (cases "write_frame [] op_code STATUS_OK payload")
  case (Inr sent)
  show ?thesis
  proof (cases "length sent < 2 ^ 31")
    case True
    then have "length payload < 2 ^ 31" using Inr by (auto simp: write_frame_def Let_def split: if_splits)
    then have fits: "length payload + 2 \<le> 1048576" using write_frame_long [of payload] Inr by (metis sum.distinct(1))
    have "sent = le_u32 (frame_len payload) @ [op_code, STATUS_OK] @ payload"
      using Inr by (auto simp: write_frame_def Let_def split: if_splits)
    then have peer: "agent_line q decode x sent st
        = (case dispatch q decode x op_code payload st of ((status, body), st) \<Rightarrow>
             (case write_frame [] op_code status body of Inl _ \<Rightarrow> ([], st) | Inr out \<Rightarrow> (out, st)))"
      using True serve_one [OF fits, of "\<lambda>_. q" decode x 0 op_code STATUS_OK st] by (simp add: agent_line_def agent_peer_def)
    have "view (snd (agent_line q decode x sent st)) = view st"
      unfolding peer using assms [of st] by (auto split: prod.splits sum.splits)
    then show ?thesis by (auto simp: request_def Inr split: prod.splits sum.splits)
  next
    case False
    then show ?thesis by (simp add: request_def Inr agent_line_def read_frame_nil)
  qed
qed (simp add: request_def)

lemma ask_keeps:
  assumes "\<And>st. view (snd (dispatch q decode x op_code payload st)) = view st"
  shows "view (snd (ask (agent_line q decode x) op_code payload dec st)) = view st"
proof -
  obtain r st' where sent: "request (agent_line q decode x) op_code payload st = (r, st')" by (metis prod.exhaust)
  then have "view st' = view st" using request_keeps [of view, OF assms, of st] by simp
  then show ?thesis by (simp add: ask_def sent split: sum.splits option.splits)
qed

text \<open>A call of the client over that line.\<close>

definition call_keeps :: "('s \<Rightarrow> 't) \<Rightarrow> ('s, 'v) call \<Rightarrow> bool" where
  "call_keeps view c \<longleftrightarrow> (\<forall>st. view (snd (c st)) = view st)"

lemma ask_reads:
  assumes "lookups_keep x observe" "op_code \<in> List.set READ_OPS"
  shows "call_keeps (served_view observe) (ask (agent_line q decode x) op_code payload dec)"
  unfolding call_keeps_def by (intro allI ask_keeps dispatch_reads assms)

lemma calls_keep:
  assumes "lookups_keep x observe"
    and p_def: "p = agent_line q decode x"
  shows "call_keeps (served_view observe) (ping_full p)" "call_keeps (served_view observe) (client_counters p)"
    "call_keeps (served_view observe) (client_read_memory p a n)" "call_keeps (served_view observe) (client_bp_list p)"
    "call_keeps (served_view observe) (script_inventory p)" "call_keeps (served_view observe) (client_context_get p tid)"
    "call_keeps (served_view observe) (client_threads p)" "call_keeps (served_view observe) (client_modules p)"
    "call_keeps (served_view observe) (client_exports p name)" "call_keeps (served_view observe) (client_hook_list p)"
    "call_keeps (served_view observe) (client_hook_function_list p)" "call_keeps (served_view observe) (client_resolve p as)"
    "call_keeps (served_view observe) (hook_events_window p a n)" "call_keeps (served_view observe) (syscall_events_window p a n)"
    "call_keeps (served_view observe) (client_memory_map p)" "call_keeps (served_view observe) (client_priority_newest p n)"
    "call_keeps (served_view observe) (client_exc_policy_get p)" "call_keeps (served_view observe) (trace_status_detail p)"
    "call_keeps (served_view observe) (client_disasm p a n)" "call_keeps (served_view observe) (client_resolve_name p name)"
    "call_keeps (served_view observe) (client_script_output p a l)" "call_keeps (served_view observe) (client_ring_page p a n)"
  unfolding p_def ping_full_def client_counters_def client_read_memory_def client_bp_list_def script_inventory_def client_context_get_def
    client_threads_def client_modules_def client_exports_def client_hook_list_def client_hook_function_list_def client_resolve_def
    hook_events_window_def syscall_events_window_def client_memory_map_def client_priority_newest_def client_exc_policy_get_def
    trace_status_detail_def client_disasm_def client_resolve_name_def client_script_output_def client_ring_page_def
  by (rule ask_reads [OF assms(1)]; simp add: READ_OPS_def)+

lemma range_dry_keeps:
  "call_keeps (served_view observe) (client_hook_range (agent_line q decode x) start fin kinds False)"
  unfolding call_keeps_def client_hook_range_def of_bool_eq by (intro allI ask_keeps dispatch_range_dry)

lemma more_calls_keep:
  assumes "lookups_keep x observe"
  shows "call_keeps (served_view observe) (ring_newest (agent_line q decode x) limit)"
    "call_keeps (served_view observe) (script_list (agent_line q decode x))"
proof -
  have counters: "call_keeps (served_view observe) (client_counters (agent_line q decode x))"
    and page: "call_keeps (served_view observe) (client_ring_page (agent_line q decode x) a n)"
    and inventory: "call_keeps (served_view observe) (script_inventory (agent_line q decode x))" for a n
    by (rule calls_keep [OF assms refl])+
  show "call_keeps (served_view observe) (ring_newest (agent_line q decode x) limit)"
    using counters page by (auto simp: call_keeps_def ring_newest_def split: prod.splits sum.splits) (metis snd_conv)+
  show "call_keeps (served_view observe) (script_list (agent_line q decode x))"
    using inventory by (auto simp: call_keeps_def script_list_def split: prod.splits sum.splits) (metis snd_conv)+
qed

subsection \<open>The hub's requests\<close>

definition keeps :: "('s \<Rightarrow> 't) \<Rightarrow> ('s connection, 'e, 'v) fallible \<Rightarrow> bool" where
  "keeps view m \<longleftrightarrow> (\<forall>cn. view (cn_process (snd (m cn))) = view (cn_process cn))"

named_theorems keep_intros

lemma keeps_then [keep_intros]: "keeps view m \<Longrightarrow> (\<And>v. keeps view (f v)) \<Longrightarrow> keeps view (hub_then m f)"
  by (simp add: keeps_def hub_then_def split: prod.splits sum.splits) (metis snd_conv)

lemma keeps_value [keep_intros]:
  "keeps view (done_with v)" "keeps view (fail_with e)" "keeps view (hub_get f)"
  by (simp_all add: keeps_def hub_m_defs)

lemma keeps_modify: "(\<And>cn. cn_process (f cn) = cn_process cn) \<Longrightarrow> keeps view (hub_modify f)"
  by (simp add: keeps_def hub_modify_def)

lemma keeps_said [keep_intros]: "keeps view m \<Longrightarrow> keeps view (said f m)"
  unfolding said_def by (intro keep_intros)

lemma keeps_say: "(\<And>port. call_keeps view (call (tp_peer t port))) \<Longrightarrow> keeps view (say t call)"
  by (simp add: keeps_def say_def call_keeps_def split: prod.splits) (metis snd_conv)

lemma keeps_if [keep_intros]: "keeps view m \<Longrightarrow> keeps view n \<Longrightarrow> keeps view (if c then m else n)"
  by simp

lemma keeps_client:
  assumes "\<And>port s. view (snd (tp_connect t port s)) = view s" "keeps view f"
  shows "keeps view (with_client t f)"
  unfolding keeps_def
proof
  fix cn :: "'a connection"
  let ?cn = "cn\<lparr>cn_requests := cn_requests cn + 1\<rparr>"
  obtain r s where connect: "tp_connect t (cn_port cn) (cn_process cn) = (r, s)" by (metis prod.exhaust)
  then have same: "view s = view (cn_process cn)" using assms(1) [of "cn_port cn" "cn_process cn"] by simp
  obtain v cn' where talk: "f (?cn\<lparr>cn_process := s\<rparr>) = (v, cn')" by (metis prod.exhaust)
  then have "view (cn_process cn') = view s" using assms(2) by (auto simp: keeps_def dest: spec [of _ "?cn\<lparr>cn_process := s\<rparr>"])
  then show "view (cn_process (snd (with_client t f cn))) = view (cn_process cn)"
    using same connect talk by (cases r) (simp_all add: with_client_def Let_def)
qed

lemma keeps_cases [keep_intros]:
  "(\<And>a b. keeps view (f a b)) \<Longrightarrow> keeps view (case p of (a, b) \<Rightarrow> f a b)"
  by (cases p) simp

lemma keeps_option [keep_intros]: "keeps view m \<Longrightarrow> (\<And>v. keeps view (f v)) \<Longrightarrow> keeps view (case v of None \<Rightarrow> m | Some v \<Rightarrow> f v)"
  by (cases v) simp_all

lemma keeps_let [keep_intros]: "(\<And>v. keeps view (f v)) \<Longrightarrow> keeps view (let x = v in f x)"
  by simp


lemma keeps_resolve:
  assumes "\<And>as port. call_keeps view (client_resolve (tp_peer t port) as)"
  shows "keeps view (resolve_chunks t cs)" "keeps view (resolve_all t cs)"
proof -
  have one: "keeps view (say t (\<lambda>p. client_resolve p c))" for c using assms by (intro keeps_say)
  show "keeps view (resolve_chunks t cs)" by (induction cs) (auto intro!: keep_intros one)
  show "keeps view (resolve_all t cs)" by (induction cs) (auto intro!: keep_intros one)
qed

lemmas conn_read_defs = conn_status_def conn_memory_read_def conn_breakpoint_list_def conn_breakpoint_inventory_def
  conn_registers_get_def conn_register_id_def conn_threads_def conn_modules_def conn_module_exports_def conn_hook_list_def
  conn_hook_inventory_page_def conn_callback_count_def conn_hook_range_def cached_width_def event_symbols_def conn_hook_monitor_def
  conn_syscall_monitor_window_def conn_syscall_monitor_def conn_memory_map_def conn_exception_monitor_def
  conn_exception_policy_get_def conn_exception_inventory_def conn_trace_status_def conn_disassemble_def conn_resolve_def
  conn_resolve_name_def conn_script_list_def conn_script_output_def conn_events_newest_def

lemma line_simps:
  "tp_peer (agent_transport q decode x listening message) port = agent_line q decode x"
  "snd (tp_connect (agent_transport q decode x listening message) port s) = s"
  by (simp_all add: agent_transport_def)

lemma line_say:
  "call_keeps view (call (agent_line q decode x)) \<Longrightarrow> keeps view (say (agent_transport q decode x listening message) call)"
  by (intro keeps_say) (simp add: line_simps)

lemma line_client [keep_intros]:
  "keeps view f \<Longrightarrow> keeps view (with_client (agent_transport q decode x listening message) f)"
  by (intro keeps_client) (simp_all add: line_simps)

lemma line_resolve:
  assumes "lookups_keep x observe"
  shows "keeps (served_view observe) (resolve_chunks (agent_transport q decode x listening message) cs)"
    "keeps (served_view observe) (resolve_all (agent_transport q decode x listening message) cs)"
  using calls_keep(12) [OF assms refl, of q decode] by (intro keeps_resolve; simp add: line_simps)+

lemma connection_value_reads:
  assumes "lookups_keep x observe" "\<not> changes_target r"
  shows "keeps (served_view observe) (connection_value (agent_transport q decode x listening message) r)"
proof -
  note calls = calls_keep [OF assms(1) refl, of q decode] more_calls_keep [OF assms(1), of q decode]
    range_dry_keeps [where x = x and observe = observe]
  show ?thesis using assms(2)
    by (cases r; simp only: connection_value.simps conn_read_defs changes_target.simps simp_thms;
        intro keep_intros line_say line_resolve assms(1) calls keeps_modify; simp add: cache_symbols_def split: option.split)
qed

lemma connection_reads_only:
  assumes "lookups_keep x observe"
  shows "reads_only (connection_api (agent_transport q decode x listening message)) (\<lambda>cn. served_view observe (cn_process cn))"
proof -
  let ?t = "agent_transport q decode x listening message" and ?view = "served_view observe"
  note calls = calls_keep [OF assms(1) refl, of q decode] more_calls_keep [OF assms(1), of q decode]
  have "keeps ?view (conn_register_id ?t v)" "keeps ?view (conn_callback_count ?t a)" "keeps ?view (conn_script_list ?t)"
    "keeps ?view (conn_script_output ?t c n)" for v a c n
    unfolding conn_read_defs by (intro keep_intros line_say calls)+
  then show ?thesis
    using connection_value_reads [OF assms, of _ q decode listening message] by (simp add: reads_only_def connection_api_def keeps_def)
qed

subsection \<open>From the bytes of a connection to the agent\<close>

text \<open>A world of the hub whose interface is the connection to the agent.\<close>

definition over_agent ::
  "(agent \<times> 'm) transport \<Rightarrow> ((agent \<times> 'm) connection, 'd) hub_world \<Rightarrow> ((agent \<times> 'm) connection, 'd) hub_world" where
  "over_agent t w = w\<lparr>hw_api := connection_api t\<rparr>"

text \<open>
  C10. An agent no human has taken charge of is left alone. Let any number of connections send the hub any
  bytes, served frame by frame in any order, the hub in front of the agent's own server. If no connection
  sends the human's secret in a human's hello, the agent's whole state, its breakpoints, hooks, rules,
  syscall filter, exception policy and recorded events, is what it was, and what can be observed of the process too, as far
  as symbol lookups and disassembly leave that alone; the hub is in manual mode and no connection is a human's.
\<close>

theorem agent_left_alone:
  assumes "spawn_listener codec human ai (map (map_prod id (over_agent (agent_transport q decode x listening message))) schedule)
      streams (hub_new api (connection_new port st)) = Inr (cxs, h)"
    and "lookups_keep x observe"
    and "\<And>stream v rest hello. stream \<in> List.set streams \<Longrightarrow> read_ipc_frame codec MAX_REQUEST_BYTES stream = Inr (v, rest) \<Longrightarrow>
      ipc_hello_of v = Some hello \<Longrightarrow> \<not> human_hello human hello"
  shows "fst (cn_process (hb_agent h)) = fst st \<and> observe (snd (cn_process (hb_agent h))) = observe (snd st)
    \<and> ct_mode (hb_control h) = Manual \<and> list_all (\<lambda>cx. cx_caller cx \<noteq> Some TRUSTED_HUMAN) cxs"
proof -
  let ?view = "\<lambda>cn. served_view observe (cn_process cn)"
  have "reads_only (hw_api w) ?view" if "(i, w) \<in> List.set (map (map_prod id (over_agent (agent_transport q decode x listening message))) schedule)"
    for i w
    using that connection_reads_only [OF assms(2), of q decode listening message] by (auto simp: over_agent_def)
  from listener_guarded [OF assms(1,3) this]
  have "guarded_hub ?view (?view (connection_new port st)) h" "list_all (no_human codec human) cxs" by simp_all
  then show ?thesis
    by (auto simp: guarded_hub_def served_view_def connection_new_def list_all_iff AI_def TRUSTED_HUMAN_def dest!: no_human_callers)
qed

text \<open>An AI connects and tries to write a byte of the target: it is served, and nothing changes.\<close>

definition knocking :: ipc_codec where
  "knocking = \<lparr>ic_parse = (\<lambda>b. Inr (if b = [1] then ipc_hello_json \<lparr>ih_channel = ''ai'', ih_secret = replicate 16 CHR ''a''\<rparr>
       else ipc_request_json \<lparr>iq_id = JNull, iq_method = ''memory_write'', iq_params = one_byte\<rparr>)),
     ic_print = (\<lambda>_. [0]), ic_decode_error = (\<lambda>_. [])\<rparr>"

definition knock :: bytes where "knock = [1, 0, 0, 0, 1, 1, 0, 0, 0, 2]"

definition knock_transport :: "decoder \<Rightarrow> 'm externals \<Rightarrow> (agent \<times> 'm) transport" where
  "knock_transport decode x = agent_transport quiet_env decode
     (x\<lparr>xt_other := (\<lambda>_ _ m. (Inl STATUS_BAD_REQUEST, m)), xt_resolve_name := (\<lambda>_ m. (None, m))\<rparr>) (\<lambda>port. port = 9000) (\<lambda>_. [])"

definition knock_world :: "((agent \<times> 'm) connection, unit) hub_world \<Rightarrow> decoder \<Rightarrow> 'm externals \<Rightarrow> ((agent \<times> 'm) connection, unit) hub_world" where
  "knock_world w decode x = over_agent (knock_transport decode x) w"

lemma knock_hello:
  "serve_hello knocking human (replicate 16 CHR ''a'') (ipc_accept knock) = (ipc_accept knock)\<lparr>cx_caller := Some AI, cx_in := drop 5 knock\<rparr>"
proof -
  have read: "read_ipc_frame knocking MAX_REQUEST_BYTES knock
      = Inr (ipc_hello_json \<lparr>ih_channel = ''ai'', ih_secret = replicate 16 CHR ''a''\<rparr>, drop 5 knock)"
    by (simp add: read_ipc_frame_def knock_def knocking_def read_exact_def of_le_def MAX_REQUEST_BYTES_def)
  show ?thesis
    by (simp add: serve_hello_def ipc_accept_def read ipc_hello_of_def ipc_hello_json_def authenticate_def constant_eq_iff AI_def)
qed

lemma agent_left_alone_witness:
  "\<forall>w decode (x :: 'm externals) m. \<exists>cxs h.
     spawn_listener knocking (replicate 16 CHR ''h'') (replicate 16 CHR ''a'') [(0, knock_world w decode x), (0, knock_world w decode x)]
       [knock] (hub_new (hw_api (knock_world w decode x)) (connection_new 9000 (agent_new, m))) = Inr (cxs, h)
     \<and> map cx_caller cxs = [Some AI] \<and> cn_process (hb_agent h) = (agent_new, m) \<and> ct_mode (hb_control h) = Manual"
proof (intro allI)
  fix w decode and x :: "'m externals" and m
  let ?human = "replicate 16 CHR ''h''" and ?ai = "replicate 16 CHR ''a''" and ?w = "knock_world w decode x"
  let ?schedule = "[(0 :: nat, ?w), (0, ?w)]" and ?hub = "hub_new (hw_api ?w) (connection_new 9000 (agent_new, m))"
  have valid: "validate_secrets ?human ?ai = Inr ()"
    by (simp add: validate_secrets_def constant_eq_iff MIN_SECRET_BYTES_def MAX_SECRET_BYTES_def)
  obtain cxs h where run: "serve_all knocking ?human ?ai ?schedule [ipc_accept knock] ?hub = (cxs, h)"
    by (metis prod.exhaust)
  moreover have "serve_step knocking ?human ?ai ?w (ipc_accept knock) g
      = ((ipc_accept knock)\<lparr>cx_caller := Some AI, cx_in := drop 5 knock\<rparr>, g)" for g
    by (simp add: serve_step_def ipc_accept_new knock_hello)
  ultimately have "[fst (serve_step knocking ?human ?ai ?w ((ipc_accept knock)\<lparr>cx_caller := Some AI, cx_in := drop 5 knock\<rparr>) ?hub)] = cxs"
    by (auto split: prod.splits)
  then have callers: "map cx_caller cxs = [Some AI]" by (auto simp: serve_step_caller)
  from run have listener: "spawn_listener knocking ?human ?ai ?schedule [knock] ?hub = Inr (cxs, h)"
    unfolding spawn_listener_def valid by simp
  have hello: "\<not> human_hello ?human hello"
    if "stream \<in> List.set [knock]" "read_ipc_frame knocking MAX_REQUEST_BYTES stream = Inr (v, rest)" "ipc_hello_of v = Some hello"
    for stream v rest hello
    using that
    by (auto simp: read_ipc_frame_def knock_def knocking_def read_exact_def of_le_def MAX_REQUEST_BYTES_def
        ipc_hello_of_def ipc_hello_json_def human_hello_def)
  have schedule: "?schedule = map (map_prod id (over_agent (knock_transport decode x))) [(0, w), (0, w)]"
    by (simp add: knock_world_def)
  have lookups: "lookups_keep (x\<lparr>xt_other := (\<lambda>_ _ m. (Inl STATUS_BAD_REQUEST, m)), xt_resolve_name := (\<lambda>_ m. (None, m))\<rparr>) (\<lambda>m. m)"
    by (simp add: lookups_keep_def)
  from agent_left_alone [OF listener [unfolded schedule knock_transport_def] lookups hello]
  show "\<exists>cxs h. spawn_listener knocking ?human ?ai ?schedule [knock] ?hub = Inr (cxs, h)
     \<and> map cx_caller cxs = [Some AI] \<and> cn_process (hb_agent h) = (agent_new, m) \<and> ct_mode (hb_control h) = Manual"
    using listener callers by (auto simp: prod_eq_iff)
qed

end
