(* ===== verification/Spec2Isabelle.thy ===== *)
theory Spec2Isabelle
  imports Pb_Prelude Pb_Wire Pb_Event Pb_Ring Pb_Channels Pb_Submit Pb_Arch Pb_Interests Pb_Reclaim Pb_Intercept Pb_Rendezvous Pb_Traps Pb_Stepper Pb_Breakpoints Pb_Breakpoint_Table Pb_Hooks Pb_Hook_Sets Pb_Hook_Rules Pb_Hook_Actions
    Pb_Text Pb_Leases Pb_Lease_Histories Pb_Signature Pb_Signature_Proofs Pb_Formats Pb_Syscalls Pb_Utf8 Pb_Query Pb_Control Pb_Client Pb_Script_Wire Pb_Serve Pb_Served Pb_Signature_Wire Pb_History Pb_Probe
    Pb_Record Pb_Tape Pb_Record_Protocol Pb_Record_Runs Pb_Tape_File Pb_Trace_Query Pb_Trace_Proofs Pb_Tape_Read
    Pb_Json Pb_Hub_Control Pb_Hub_Agent Pb_Hub_Scripts Pb_Hook_Query Pb_Hook_Calls Pb_Hub_Arguments Pb_Hub_State Pb_Hub_Index Pb_Hub_Trace Pb_Hub_Descriptions Pb_Hub_Dispatch Pb_Hub_Safety
    Pb_Hub_Ipc Pb_Connection Pb_Hub_Served
begin

text \<open>
  PinBridge is a Rust workspace (\<open>src/bindings/rust\<close>) around Intel Pin: an agent inside the
  instrumented process that breaks, steps, hooks, traces and records it and answers a binary protocol on
  a local socket, a client library for that protocol, and a hub that offers the agent's operations and the
  traces it wrote to tools. This development models the core logic of those crates as Isabelle functions
  and step relations and proves what makes it correct, or where it is not.

  How the code maps to the model.
  Machine integers are words of their width; the release profile has overflow checks off, so plain \<open>+\<close> and
  \<open>-\<close> wrap, and saturating and checked operations are written out (\<open>Pb_Prelude\<close>). A module's statics are
  one record, an operation takes and returns it. Errors are \<open>option\<close> or the left of a sum; a status byte of
  the protocol is a left value. What the code asks of Pin, Windows, SQLite, the JSON library and Python is
  an argument: the answer, a record of functions, or a list of effects that are returned. Where several
  threads meet without a lock, the atomic actions are separate steps of an inductive relation and a
  property holds for every interleaving; atomics are sequentially consistent in the model. Loops of the
  code are structural recursion or have a termination proof; loops that wait (the breaker, the drainer,
  the rendezvous) are phases of a step relation, and that they end is a theorem with a count of steps.

  The parts.

  The wire (\<open>pinbridge-proto/src/lib.rs\<close>). \<open>Pb_Wire\<close>: frames, the two record images, payload writer and
  reader, with the locale \<open>wire_codec\<close> for fixed-width records. C1, C2: a stream of frames is read back,
  and nothing else is accepted. \<open>Pb_Utf8\<close> and \<open>Pb_Text\<close>: the methods of \<open>str\<close> the code uses.

  Events (\<open>agent/event.rs, ring.rs, event_channel.rs, hook_events.rs\<close>). \<open>Pb_Event\<close>, \<open>Pb_Ring\<close> (the rings with
  their cursors, refined to a log), \<open>Pb_Channels\<close> (the lanes), \<open>Pb_Submit\<close> (submission interleaved).
  C3, C4: a reader misses exactly what it is told, and the counters account for every submission.

  Interception (\<open>agent/sync_intercept.rs\<close>, \<open>arch.rs\<close>). \<open>Pb_Arch\<close>, \<open>Pb_Interests\<close> (the lock-free tables),
  \<open>Pb_Reclaim\<close> (when a replaced table is freed), \<open>Pb_Intercept\<close> (requests, captures, applications),
  \<open>Pb_Rendezvous\<close> (the slot protocol between application threads and the handler). C5 to C7.

  Stopping (\<open>agent/execution_trap.rs, stepper.rs, bp.rs\<close>). \<open>Pb_Traps\<close>, \<open>Pb_Stepper\<close>, \<open>Pb_Breakpoints\<close> with
  the properties in \<open>Pb_Breakpoint_Table\<close>: tables refined to maps, stops that happen exactly where asked,
  one replay swallowed, and two histories in which the code does less than it means to. C8, C9, C11 to C15.

  Hooks (\<open>agent/hooks.rs\<close>). \<open>Pb_Hooks\<close> with \<open>Pb_Hook_Sets\<close> (points, functions, prefilters, flushes),
  \<open>Pb_Hook_Rules\<close> with \<open>Pb_Hook_Actions\<close> (action rules and the frames that pair returns with entries).
  C16 to C21.

  Scripts (\<open>agent/scripting/subscriptions.rs, decisions.rs\<close>). \<open>Pb_Leases\<close> with \<open>Pb_Lease_Histories\<close>: who
  holds a breakpoint or hook point, when it is removed, and how the decisions of one stop are merged; the
  locale \<open>lease_table\<close> is interpreted on both tables. C22 to C24.

  Prototypes (\<open>hub-core/hook_signature.rs\<close>). \<open>Pb_Signature\<close> with \<open>Pb_Signature_Proofs\<close>: the parser, the
  capture layout, the typed rendering. C25 to C27.

  System calls (\<open>agent/syscall_engine.rs\<close>). \<open>Pb_Syscalls\<close>: the filter, which captures a call exactly
  when it lies in its scope, and the pairing of entries and exits. C28.

  The server and its client (\<open>agent/query_server.rs, control.rs, context.rs\<close>, \<open>client/client.rs\<close>).
  \<open>Pb_Formats\<close> (payload formats), \<open>Pb_Control\<close> (memory and context), \<open>Pb_Query\<close> and \<open>Pb_Script_Wire\<close> (the
  handlers), \<open>Pb_Serve\<close> (step request, dispatch, the loop of a connection), \<open>Pb_Client\<close> (every call of the
  client over a \<open>peer\<close>). \<open>Pb_Served\<close>, \<open>Pb_Signature_Wire\<close>, \<open>Pb_History\<close> and \<open>Pb_Probe\<close> put both ends
  together: what a call of the client does to the agent. C30 to C33.

  Recording (\<open>agent/record.rs\<close>). \<open>Pb_Record\<close> (slab, submission by atomic actions, callbacks, sessions),
  \<open>Pb_Tape\<close> (the drain thread by atomic actions and the bytes it writes), \<open>Pb_Record_Protocol\<close> (both
  interleaved, the invariant), \<open>Pb_Record_Runs\<close> (order, termination, and three runs that lose events or
  hang), \<open>Pb_Tape_File\<close> (the file as the drainer works). C34, C35.

  Reading a trace (\<open>hub-core/trace_query.rs\<close>). \<open>Pb_Trace_Query\<close>, \<open>Pb_Trace_Proofs\<close>, \<open>Pb_Tape_Read\<close>: the hub
  opens what the recorder closed and its pages lead through all of it. C39, C40.

  Reading captured calls (\<open>hub-core/hook_query.rs\<close>). \<open>Pb_Json\<close> (objects, ordered maps), \<open>Pb_Hook_Query\<close>
  (filters, the wildcard matcher, the three layouts, the exports), \<open>Pb_Hook_Calls\<close> (how entries and returns
  are paired). C18, C29.

  The hub (\<open>hub-core/control.rs, activities.rs, session.rs, script_service.rs, service.rs\<close>). \<open>Pb_Hub_Control\<close>:
  who may write in which mode, the journal, and the gate between threads. \<open>Pb_Hub_Agent\<close>: the trait
  \<open>AgentApi\<close> as a record of functions over a state of the agent, so that a theorem holds for every agent, and
  the way an operation fails. \<open>Pb_Hub_Scripts\<close>: the scripts the hub remembers. \<open>Pb_Hub_Arguments\<close>: arguments,
  digests, names of tools. \<open>Pb_Hub_State\<close>: the record \<open>hub\<close>, one field for each mutex of \<open>HubService\<close>, and
  the record \<open>hub_world\<close> of what is outside (agent, clock, hash, printers, files, database).
  \<open>Pb_Hub_Index\<close>, \<open>Pb_Hub_Trace\<close>, \<open>Pb_Hub_Descriptions\<close>: the longer tools. \<open>Pb_Hub_Dispatch\<close>: the table of all
  tools, the permission and the journal around a call (\<open>hub_call\<close>). \<open>Pb_Hub_Safety\<close> follows every path from a
  call to the agent. C36: only who may write changes the target, over any history of calls; C37: what the
  check of an AI's scripts enforces, and how it is passed by; C38: the gate, for every interleaving.

  The hub's ends (\<open>hub-core/ipc.rs, agent.rs\<close>, the handler of \<open>pinbridge-hub/src/main.rs\<close>, \<open>client/registers.rs\<close>).
  \<open>Pb_Hub_Ipc\<close>: frames, secrets and the loop of a connection, whose workers a schedule picks. \<open>Pb_Connection\<close>:
  \<open>AgentConnection\<close>, the interface of \<open>Pb_Hub_Agent\<close> over the client library, with its caches. \<open>Pb_Hub_Served\<close>
  puts the two around the hub and the agent's server behind them: the reading requests leave the agent alone,
  so that the contract the hub's safety rests on holds, and C10 follows the bytes of a connection to the agent.

  Bounds. Theorems about counters assume that they have not wrapped (fewer than \<open>2 ^ 62\<close> recorded events,
  fewer than \<open>2 ^ 32 - 1\<close> lease operations), which no run of the tool reaches; where the code can wrap
  sooner, the wrap is in the model and a theorem shows what follows (the last two runs of \<open>Pb_Record_Runs\<close>). The one fuel parameter is
  the number of pages of a walk (C40), with the number that is enough in the statement.

  In the hub a call is one step of the state: its mutexes are each taken alone and the journal, the
  permission and the agent are those of that call; the one place where threads meet with an effect on the
  target, the gate, is modelled between threads (C38). Texts of the hub are lists of characters that stand for
  their bytes. A poisoned lock is left out, as nothing that holds one panics in the model.

  Not modelled. The Python side of the script host (\<open>scripting/api.rs, host.rs, events.rs, interceptors\<close>)
  works on interpreter objects. \<open>engines.rs, resolve.rs, disasm.rs, debugger.rs, child_process.rs\<close> and the
  life cycle modules are sequences of Pin and Windows calls around the components above; their answers are
  arguments here. Of the hub, the accept loop with its limit and time-outs and the model-context server in front
  of it (\<open>pinbridge-mcp\<close>) are left out. Logging,
  diagnostics and the user interfaces have no behaviour the others rely on; \<open>pinbridge-sys\<close> is generated.
\<close>

end
